(* ===== verification/Kcov_Prelude.thy ===== *)
theory Kcov_Prelude
  imports Main "HOL-Library.Word" "HOL-Library.Sublist"
begin

text \<open>
  What every component of the development shares: names for the machine types of the C++
  code, the lemma collections the component proofs draw on, and generic facts on lists,
  association lists and maps.

  \<^item> \<open>byte\<close>, \<open>u16\<close>, \<open>u32\<close>, \<open>u64\<close> are the fixed-width integers of \<open>stdint.h\<close>; \<open>int\<close>-typed
    counters of the code that can wrap are kept as \<open>u32\<close> too (two's complement).
  \<^item> \<open>std::string\<close> is \<open>string\<close>, a list of 8-bit characters; a C string in memory is its
    bytes followed by a zero byte.
  \<^item> \<open>std::unordered_map\<close> is a map where the code only looks keys up, and an association
    list where the code iterates over it: the order of the list stands for the (unspecified)
    iteration order of the container.
\<close>

unbundle bit_operations_syntax

type_synonym byte = "8 word"
type_synonym u16 = "16 word"
type_synonym u32 = "32 word"
type_synonym u64 = "64 word"

text \<open>Scores of parsers and engines (\<open>src/src/include/manager.hh\<close>).\<close>

definition match_none :: nat where
  "match_none = 0"

definition match_perfect :: nat where
  "match_perfect = 2 ^ 32 - 1"

named_theorems str_simps \<open>evaluation of the string operations\<close>
named_theorems mem_simps \<open>bytes in memory: lengths, reads and writes\<close>

section \<open>Lists\<close>

lemma nth_append_drop: "i < length ys \<Longrightarrow> (xs @ ys) ! (length xs + i) = ys ! i"
  by simp

lemma take_drop_append_middle [mem_simps]:
  "length xs = n \<Longrightarrow> length ys = m \<Longrightarrow> take m (drop n (xs @ ys @ zs)) = ys"
  by simp

lemma sum_list_replicate_0 [simp]: "sum_list (replicate n (0::'a::comm_monoid_add)) = 0"
  by (induction n) auto

lemma length_concat_const: "\<forall>x \<in> set xs. length x = k \<Longrightarrow> length (concat xs) = k * length xs"
  by (induction xs) auto

lemma split_at_first:
  "d \<in> set s \<Longrightarrow>
     s = takeWhile (\<lambda>c. c \<noteq> d) s @ d # drop (Suc (length (takeWhile (\<lambda>c. c \<noteq> d) s))) s"
  by (induction s) auto

text \<open>A loop whose rounds each yield a list or fail.\<close>

fun bind_all :: "('a \<Rightarrow> 'b list option) \<Rightarrow> 'a list \<Rightarrow> 'b list option" where
  "bind_all f [] = Some []"
| "bind_all f (x # xs) = Option.bind (f x) (\<lambda>ys. map_option ((@) ys) (bind_all f xs))"

lemma bind_all_Some: "\<forall>x \<in> set xs. f x = Some (g x) \<Longrightarrow> bind_all f xs = Some (concat (map g xs))"
  by (induction xs) auto

section \<open>Words\<close>

lemma unat_of_nat_small: "n < 2 ^ LENGTH('a) \<Longrightarrow> unat (of_nat n :: 'a::len word) = n"
  by (simp add: unsigned_of_nat take_bit_nat_eq_self)

lemma unat_add_small:
  "unat (x :: 'a::len word) + unat y < 2 ^ LENGTH('a) \<Longrightarrow> unat (x + y) = unat x + unat y"
  by (simp add: unat_word_ariths)

lemma unat_inc: "Suc (unat (x :: 'a::len word)) < 2 ^ LENGTH('a) \<Longrightarrow> unat (x + 1) = Suc (unat x)"
  using unat_add_small [of x 1] by simp

lemma unat_ucast_32: "unat (ucast (x :: u32) :: u64) = unat x" "unat (ucast (y :: u64) :: u32) = unat y mod 2 ^ 32"
  using unsigned_less [where w = x and ?'a = nat]
  by (simp_all add: unsigned_ucast_eq take_bit_nat_eq_self unsigned_take_bit_eq) (simp add: take_bit_eq_mod)

section \<open>Association lists\<close>

text \<open>
  \<open>alist_upd k v xs\<close> is \<open>m[k] = v\<close> on a container whose iteration order is the list order:
  an existing key keeps its place, a new one goes last.
\<close>

fun alist_upd :: "'k \<Rightarrow> 'v \<Rightarrow> ('k \<times> 'v) list \<Rightarrow> ('k \<times> 'v) list" where
  "alist_upd k v [] = [(k, v)]"
| "alist_upd k v ((k', v') # xs) = (if k' = k then (k, v) # xs else (k', v') # alist_upd k v xs)"

lemma map_of_alist_upd [simp]: "map_of (alist_upd k v xs) = (map_of xs)(k \<mapsto> v)"
  by (induction xs) auto

lemma map_fst_alist_upd:
  "map fst (alist_upd k v xs) = (if k \<in> fst ` set xs then map fst xs else map fst xs @ [k])"
  by (induction xs) (auto simp: rev_image_eqI)

lemma fst_set_alist_upd [simp]: "fst ` set (alist_upd k v xs) = insert k (fst ` set xs)"
proof -
  have "set (map fst (alist_upd k v xs)) = insert k (fst ` set xs)"
    by (auto simp: map_fst_alist_upd)
  then show ?thesis by simp
qed

lemma distinct_alist_upd [simp]:
  "distinct (map fst (alist_upd k v xs)) = distinct (map fst xs)"
  by (auto simp: map_fst_alist_upd)

lemma set_alist_upd:
  "distinct (map fst xs) \<Longrightarrow>
     set (alist_upd k v xs) = insert (k, v) {p \<in> set xs. fst p \<noteq> k}"
  by (induction xs) (auto simp: rev_image_eqI split: if_splits)

section \<open>Transition systems and their invariants\<close>

text \<open>
  The contract between a component's operations and its invariant: the initial states satisfy
  it and every operation keeps it. What holds in every reachable state follows once for all.
\<close>

locale step_invariant =
  fixes init :: "'s \<Rightarrow> bool"
    and step :: "'s \<Rightarrow> 's \<Rightarrow> bool"
    and inv :: "'s \<Rightarrow> bool"
  assumes inv_init: "init s \<Longrightarrow> inv s"
    and inv_step: "inv s \<Longrightarrow> step s t \<Longrightarrow> inv t"
begin

lemma inv_steps: "step\<^sup>*\<^sup>* s t \<Longrightarrow> inv s \<Longrightarrow> inv t"
  by (induction rule: rtranclp_induct) (auto intro: inv_step)

lemma inv_reachable: "init s \<Longrightarrow> step\<^sup>*\<^sup>* s t \<Longrightarrow> inv t"
  using inv_steps inv_init by blast

end

end
