(* ===== verification/Kcov_Endian.thy ===== *)
theory Kcov_Endian
  imports Kcov_Prelude
begin

text \<open>
  Byte order (\<open>src/src/include/swap-endian.hh\<close>). The flag \<open>le\<close> is the byte order of the
  machine kcov runs on; \<open>store\<close> and \<open>load\<close> are how that machine lays an integer out in
  memory, and the conversions of the header are written over them. The facts at the end say
  that what \<open>to_be\<close> leaves in memory is the big-endian encoding on either machine, which is
  what makes the coverage databases of the other components portable.
\<close>

section \<open>Integers in memory\<close>

definition bytes_le :: "'a::len word \<Rightarrow> byte list" where
  "bytes_le w = map (\<lambda>i. ucast (drop_bit (8 * i) w)) [0..<LENGTH('a) div 8]"

fun word_le :: "byte list \<Rightarrow> 'a::len word" where
  "word_le [] = 0"
| "word_le (b # bs) = ucast b OR push_bit 8 (word_le bs)"

definition store :: "bool \<Rightarrow> 'a::len word \<Rightarrow> byte list" where
  "store le w = (if le then bytes_le w else rev (bytes_le w))"

definition load :: "bool \<Rightarrow> byte list \<Rightarrow> 'a::len word" where
  "load le bs = (if le then word_le bs else word_le (rev bs))"

section \<open>The conversions\<close>

definition swap_endian :: "bool \<Rightarrow> 'a::len word \<Rightarrow> 'a word" where
  "swap_endian le u =
     (let source = store le u; n = length source
      in load le (map (\<lambda>k. source ! (n - k - 1)) [0..<n]))"

definition cpu_is_little_endian :: "bool \<Rightarrow> bool" where
  "cpu_is_little_endian le = (store le (0x1122 :: u16) ! 0 = 0x22)"

definition to_be :: "bool \<Rightarrow> 'a::len word \<Rightarrow> 'a word" where
  "to_be le u = (if cpu_is_little_endian le then swap_endian le u else u)"

definition to_le :: "bool \<Rightarrow> 'a::len word \<Rightarrow> 'a word" where
  "to_le le u = (if cpu_is_little_endian le then u else swap_endian le u)"

definition be_to_host :: "bool \<Rightarrow> 'a::len word \<Rightarrow> 'a word" where
  "be_to_host le u = (if cpu_is_little_endian le then swap_endian le u else u)"

definition le_to_host :: "bool \<Rightarrow> 'a::len word \<Rightarrow> 'a word" where
  "le_to_host le u = (if cpu_is_little_endian le then u else swap_endian le u)"

section \<open>Facts\<close>

lemma length_bytes_le [simp]: "length (bytes_le (w :: 'a::len word)) = LENGTH('a) div 8"
  by (simp add: bytes_le_def)

lemma length_store [simp]: "length (store le (w :: 'a::len word)) = LENGTH('a) div 8"
  by (simp add: store_def)

lemma nth_bytes_le:
  "i < LENGTH('a) div 8 \<Longrightarrow> bytes_le (w :: 'a::len word) ! i = ucast (drop_bit (8 * i) w)"
  by (simp add: bytes_le_def)

lemma bit_word_le:
  "bit (word_le bs :: 'a::len word) n \<longleftrightarrow>
     n < LENGTH('a) \<and> n div 8 < length bs \<and> bit (bs ! (n div 8)) (n mod 8)"
proof (induction bs arbitrary: n)
  case Nil
  then show ?case by simp
next
  case (Cons b bs)
  show ?case
  proof (cases "n < 8")
    case True
    then show ?thesis by (auto simp: bit_simps)
  next
    case False
    then obtain m where m: "n = m + 8" by (metis add.commute le_iff_add linorder_not_less)
    have d: "n div 8 = Suc (m div 8)" "n mod 8 = m mod 8" by (simp_all add: m)
    have "bit (word_le (b # bs) :: 'a word) n \<longleftrightarrow> n < LENGTH('a) \<and> bit (word_le bs :: 'a word) m"
      using bit_imp_le_length [of b n] by (auto simp: bit_simps m)
    also have "\<dots> \<longleftrightarrow> n < LENGTH('a) \<and> m div 8 < length bs \<and> bit (bs ! (m div 8)) (m mod 8)"
      by (auto simp: Cons.IH m)
    finally show ?thesis by (simp add: d)
  qed
qed

lemma word_le_bytes_le [simp]:
  assumes "8 dvd LENGTH('a)"
  shows "word_le (bytes_le w) = (w :: 'a::len word)"
proof (rule bit_word_eqI)
  fix n assume n: "n < LENGTH('a)"
  then have d: "n div 8 < LENGTH('a) div 8"
    using assms by (metis dvd_div_mult_self less_mult_imp_div_less)
  show "bit (word_le (bytes_le w) :: 'a word) n = bit w n"
    using n d by (simp add: bit_word_le nth_bytes_le bit_simps)
qed

lemma bytes_le_word_le [simp]:
  assumes "length bs = LENGTH('a) div 8" "8 dvd LENGTH('a)"
  shows "bytes_le (word_le bs :: 'a::len word) = bs"
proof (rule nth_equalityI)
  show "length (bytes_le (word_le bs :: 'a word)) = length bs" using assms by simp
next
  fix i assume "i < length (bytes_le (word_le bs :: 'a word))"
  then have i: "i < LENGTH('a) div 8" "i < length bs" using assms by simp_all
  have "8 * i + n < LENGTH('a)" if "n < 8" for n
    using i(1) assms(2) that by auto
  then show "bytes_le (word_le bs :: 'a word) ! i = bs ! i"
    using i by (intro bit_word_eqI) (auto simp: nth_bytes_le bit_simps bit_word_le)
qed

lemma load_store [simp]: "8 dvd LENGTH('a) \<Longrightarrow> load le (store le w) = (w :: 'a::len word)"
  by (simp add: load_def store_def)

lemma store_load [simp]:
  "8 dvd LENGTH('a) \<Longrightarrow> length bs = LENGTH('a) div 8 \<Longrightarrow> store le (load le bs :: 'a::len word) = bs"
  by (simp add: load_def store_def flip: rev_swap)

lemma cpu_is_little_endian_iff [simp]: "cpu_is_little_endian le = le"
  by (auto simp: cpu_is_little_endian_def store_def bytes_le_def upt_rec)

lemma rev_by_index: "map (\<lambda>k. xs ! (length xs - k - 1)) [0..<length xs] = rev xs"
  by (rule nth_equalityI) (auto simp: rev_nth)

lemma swap_endian_rev:
  "swap_endian le (u :: 'a::len word) = load le (rev (store le u))"
  using rev_by_index [of "store le u"] by (simp add: swap_endian_def Let_def)

lemma swap_endian_swap_endian [simp]:
  "8 dvd LENGTH('a) \<Longrightarrow> swap_endian le (swap_endian le u) = (u :: 'a::len word)"
  by (simp add: swap_endian_rev)

text \<open>Conversions undo each other.\<close>

lemma be_to_host_to_be [simp]:
  "8 dvd LENGTH('a) \<Longrightarrow> be_to_host le (to_be le u) = (u :: 'a::len word)"
  by (simp add: be_to_host_def to_be_def)

lemma le_to_host_to_le [simp]:
  "8 dvd LENGTH('a) \<Longrightarrow> le_to_host le (to_le le u) = (u :: 'a::len word)"
  by (simp add: le_to_host_def to_le_def)

text \<open>The bytes a \<open>to_be\<close> value occupies do not depend on the machine.\<close>

definition bytes_be :: "'a::len word \<Rightarrow> byte list" where
  "bytes_be w = rev (bytes_le w)"

definition word_be :: "byte list \<Rightarrow> 'a::len word" where
  "word_be bs = word_le (rev bs)"

lemma length_bytes_be [simp]: "length (bytes_be (w :: 'a::len word)) = LENGTH('a) div 8"
  by (simp add: bytes_be_def)

lemma word_be_bytes_be [simp]: "8 dvd LENGTH('a) \<Longrightarrow> word_be (bytes_be w) = (w :: 'a::len word)"
  by (simp add: word_be_def bytes_be_def)

lemma store_to_be:
  "8 dvd LENGTH('a) \<Longrightarrow> store le (to_be le (u :: 'a::len word)) = bytes_be u"
  by (auto simp: to_be_def swap_endian_rev bytes_be_def) (simp_all add: store_def)

lemma be_to_host_load:
  "8 dvd LENGTH('a) \<Longrightarrow> length bs = LENGTH('a) div 8 \<Longrightarrow>
     be_to_host le (load le bs :: 'a::len word) = word_be bs"
  by (auto simp: be_to_host_def swap_endian_rev word_be_def) (simp_all add: load_def)

end
