(* ===== verification/Kcov_Codec.thy ===== *)
theory Kcov_Codec
  imports Kcov_Endian
begin

text \<open>
  The contract shared by every binary format of kcov: a value has a fixed-width encoding that
  decodes back to it, and a table is the concatenation of its elements' encodings, read by
  index. The coverage database of the reporter, the metadata files of the merge parser and the
  files of the system mode are all read and written through instances of it.
\<close>

definition chunk :: "nat \<Rightarrow> nat \<Rightarrow> byte list \<Rightarrow> byte list" where
  "chunk w n bs = take w (drop (n * w) bs)"

lemma chunk_append:
  assumes "length xs = k * w"
  shows "chunk w (k + n) (xs @ ys) = chunk w n ys"
proof -
  have "drop ((k + n) * w) (xs @ ys) = drop (n * w) ys"
    using assms by (simp add: distrib_right)
  then show ?thesis by (simp add: chunk_def)
qed

lemma length_chunk: "(n + 1) * w \<le> length bs \<Longrightarrow> length (chunk w n bs) = w"
  by (simp add: chunk_def)

locale codec =
  fixes enc :: "'a \<Rightarrow> byte list"
    and dec :: "byte list \<Rightarrow> 'a"
    and w :: nat
  assumes length_enc: "length (enc x) = w"
    and dec_enc: "dec (enc x) = x"
begin

lemma length_table: "length (concat (map enc xs)) = length xs * w"
  by (induction xs) (auto simp: length_enc)

lemma chunk_table: "n < length xs \<Longrightarrow> chunk w n (concat (map enc xs) @ rest) = enc (xs ! n)"
proof (induction xs arbitrary: n)
  case Nil
  then show ?case by simp
next
  case (Cons x xs)
  show ?case
  proof (cases n)
    case 0
    then show ?thesis by (simp add: chunk_def length_enc)
  next
    case (Suc m)
    have "chunk w (1 + m) (enc x @ concat (map enc xs) @ rest) = chunk w m (concat (map enc xs) @ rest)"
      by (rule chunk_append) (simp add: length_enc)
    with Suc Cons show ?thesis by simp
  qed
qed

lemma dec_chunk_table: "n < length xs \<Longrightarrow> dec (chunk w n (concat (map enc xs) @ rest)) = xs ! n"
  by (simp add: chunk_table dec_enc)

lemma decode_table:
  "map (\<lambda>n. dec (chunk w n (concat (map enc xs) @ rest))) [0..<length xs] = xs"
  by (rule nth_equalityI) (simp_all add: dec_chunk_table)

end

text \<open>Two fields in a row.\<close>

locale codec_pair = fst: codec enc1 dec1 w1 + snd: codec enc2 dec2 w2
  for enc1 :: "'a \<Rightarrow> byte list" and dec1 w1 and enc2 :: "'b \<Rightarrow> byte list" and dec2 w2

sublocale codec_pair \<subseteq> pair: codec
  "\<lambda>(x, y). enc1 x @ enc2 y" "\<lambda>bs. (dec1 (take w1 bs), dec2 (drop w1 bs))" "w1 + w2"
  by unfold_locales (auto simp: fst.length_enc snd.length_enc fst.dec_enc snd.dec_enc)

section \<open>Integers in memory and in the big-endian files\<close>

definition put_be :: "bool \<Rightarrow> 'a::len word \<Rightarrow> byte list" where
  "put_be le x = store le (to_be le x)"

definition get_be :: "bool \<Rightarrow> byte list \<Rightarrow> 'a::len word" where
  "get_be le bs = be_to_host le (load le bs)"

lemma length_put_be [simp]: "length (put_be le (x :: 'a::len word)) = LENGTH('a) div 8"
  by (simp add: put_be_def)

lemma get_be_put_be [simp]: "8 dvd LENGTH('a) \<Longrightarrow> get_be le (put_be le x) = (x :: 'a::len word)"
  by (simp add: get_be_def put_be_def)

lemma put_be_eq: "8 dvd LENGTH('a) \<Longrightarrow> put_be le (x :: 'a::len word) = bytes_be x"
  by (simp add: put_be_def store_to_be)

lemma word_le_zeros [simp]: "word_le (replicate n 0) = 0"
  by (induction n) auto

lemma load_zeros [simp]: "load le (replicate n 0) = 0"
  by (simp add: load_def)

lemma get_be_zeros:
  "8 dvd LENGTH('a) \<Longrightarrow> n = LENGTH('a) div 8 \<Longrightarrow> get_be le (replicate n 0) = (0 :: 'a::len word)"
  using be_to_host_load [of "replicate n 0" le, where 'a = 'a]
  by (simp add: get_be_def word_be_def)

interpretation be64: codec "put_be le :: u64 \<Rightarrow> byte list" "get_be le" 8 for le
  by unfold_locales simp_all

interpretation be32: codec "put_be le :: u32 \<Rightarrow> byte list" "get_be le" 4 for le
  by unfold_locales simp_all

interpretation nat64: codec "store le :: u64 \<Rightarrow> byte list" "load le" 8 for le
  by unfold_locales simp_all

interpretation nat32: codec "store le :: u32 \<Rightarrow> byte list" "load le" 4 for le
  by unfold_locales simp_all

interpretation nat16: codec "store le :: u16 \<Rightarrow> byte list" "load le" 2 for le
  by unfold_locales simp_all

end
