(* ===== verification/Kcov_Strings.thy ===== *)
theory Kcov_Strings
  imports Kcov_Prelude
begin

text \<open>
  The operations of \<open>std::string\<close> and of the C library's \<open>strtoull\<close> that the code calls.
  A search that returns \<open>std::string::npos\<close> is \<open>None\<close> here; \<open>substr (pos, n)\<close> is \<open>take\<close>
  after \<open>drop\<close>, which like the original stops at the end of the string.
\<close>

section \<open>Searching\<close>

text \<open>\<open>s.find (p)\<close> and \<open>s.find (p, pos)\<close>: the first place where \<open>p\<close> occurs.\<close>

fun str_find :: "string \<Rightarrow> string \<Rightarrow> nat option" where
  "str_find [] p = (if p = [] then Some 0 else None)"
| "str_find (c # s) p = (if prefix p (c # s) then Some 0 else map_option Suc (str_find s p))"

definition str_find_from :: "string \<Rightarrow> string \<Rightarrow> nat \<Rightarrow> nat option" where
  "str_find_from s p pos =
     (if pos \<le> length s then map_option ((+) pos) (str_find (drop pos s) p) else None)"

definition str_contains :: "string \<Rightarrow> string \<Rightarrow> bool" where
  "str_contains s p = (str_find s p \<noteq> None)"

text \<open>\<open>s.rfind (p, pos)\<close>: the last place, not after \<open>pos\<close>, where \<open>p\<close> occurs.\<close>

fun str_rfind_from :: "string \<Rightarrow> string \<Rightarrow> nat \<Rightarrow> nat option" where
  "str_rfind_from s p 0 = (if prefix p s then Some 0 else None)"
| "str_rfind_from s p (Suc n) =
     (if Suc n \<le> length s \<and> prefix p (drop (Suc n) s) then Some (Suc n) else str_rfind_from s p n)"

definition str_find_first_not_of :: "string \<Rightarrow> string \<Rightarrow> nat option" where
  "str_find_first_not_of s cs =
     (let pre = takeWhile (\<lambda>c. c \<in> set cs) s
      in if length pre = length s then None else Some (length pre))"

definition str_find_last_not_of :: "string \<Rightarrow> string \<Rightarrow> nat option" where
  "str_find_last_not_of s cs =
     (let t = dropWhile (\<lambda>c. c \<in> set cs) (rev s)
      in if t = [] then None else Some (length t - 1))"

definition str_substr :: "string \<Rightarrow> nat \<Rightarrow> nat \<Rightarrow> string" where
  "str_substr s pos n = take n (drop pos s)"

text \<open>A \<open>char *\<close> read as a string stops at the first zero byte.\<close>

definition NUL :: char where
  "NUL = CHR 0x00"

definition c_str :: "string \<Rightarrow> string" where
  "c_str s = takeWhile (\<lambda>c. c \<noteq> NUL) s"

definition isspace :: "char \<Rightarrow> bool" where
  "isspace c = (c \<in> set [CHR '' '', CHR 0x09, CHR 0x0A, CHR 0x0B, CHR 0x0C, CHR 0x0D])"

section \<open>Facts on searching\<close>

lemma str_find_Some_iff:
  "str_find s p = Some i \<longleftrightarrow>
     i \<le> length s \<and> prefix p (drop i s) \<and> (\<forall>j < i. \<not> prefix p (drop j s))"
proof (induction s arbitrary: i)
  case Nil
  then show ?case by auto
next
  case (Cons c s)
  show ?case
    by (cases i) (auto simp: Cons.IH less_Suc_eq_0_disj)
qed

lemma str_find_None_iff: "str_find s p = None \<longleftrightarrow> \<not> sublist p s"
  by (induction s) (auto simp: sublist_Cons_right)

lemma str_contains_iff: "str_contains s p \<longleftrightarrow> sublist p s"
  by (simp add: str_contains_def str_find_None_iff)

lemma str_find_0_iff: "str_find s p = Some 0 \<longleftrightarrow> prefix p s"
  by (cases s) auto

lemma str_find_bound: "str_find s p = Some i \<Longrightarrow> i + length p \<le> length s"
  by (auto simp: str_find_Some_iff dest!: prefix_length_le)

lemma str_find_single: "str_find s [c] = (if c \<in> set s then Some (length (takeWhile (\<lambda>x. x \<noteq> c) s)) else None)"
  by (induction s) auto

lemma str_find_from_0 [simp]: "str_find_from s p 0 = str_find s p"
  by (cases "str_find s p") (auto simp: str_find_from_def)

lemma str_rfind_from_None_iff:
  "str_rfind_from s p n = None \<longleftrightarrow> (\<forall>i \<le> n. i \<le> length s \<longrightarrow> \<not> prefix p (drop i s))"
  by (induction n) (auto simp: le_Suc_eq)

lemma str_rfind_from_Some:
  "str_rfind_from s p n = Some i \<Longrightarrow> i \<le> n \<and> i \<le> length s \<and> prefix p (drop i s)"
  by (induction n) (auto split: if_splits)

lemma str_find_first_not_of_Some:
  "str_find_first_not_of s cs = Some i \<Longrightarrow> i < length s \<and> drop i s = dropWhile (\<lambda>c. c \<in> set cs) s"
  using length_takeWhile_le [of "\<lambda>c. c \<in> set cs" s]
  by (auto simp: str_find_first_not_of_def Let_def dropWhile_eq_drop split: if_splits)

lemma str_find_first_not_of_None:
  "str_find_first_not_of s cs = None \<longleftrightarrow> set s \<subseteq> set cs"
proof -
  have "length (takeWhile (\<lambda>c. c \<in> set cs) s) = length s \<longleftrightarrow> (\<forall>c \<in> set s. c \<in> set cs)"
    by (metis takeWhile_eq_all_conv takeWhile_eq_take take_all_iff order_refl)
  then show ?thesis by (auto simp: str_find_first_not_of_def Let_def)
qed

lemma str_find_last_not_of_None:
  "str_find_last_not_of s cs = None \<longleftrightarrow> set s \<subseteq> set cs"
  by (auto simp: str_find_last_not_of_def Let_def)

lemma str_find_last_not_of_Some:
  assumes "str_find_last_not_of s cs = Some i"
  shows "i < length s" "take (Suc i) s = rev (dropWhile (\<lambda>c. c \<in> set cs) (rev s))"
proof -
  let ?t = "dropWhile (\<lambda>c. c \<in> set cs) (rev s)"
  from assms have t: "?t \<noteq> []" and i: "i = length ?t - 1"
    by (auto simp: str_find_last_not_of_def Let_def split: if_splits)
  have le: "length ?t \<le> length s" using length_dropWhile_le [of _ "rev s"] by simp
  with t i show "i < length s" by (cases ?t) auto
  from t i have "Suc i = length ?t" by (cases ?t) auto
  moreover have "rev s = takeWhile (\<lambda>c. c \<in> set cs) (rev s) @ ?t" by simp
  then have "s = rev ?t @ rev (takeWhile (\<lambda>c. c \<in> set cs) (rev s))"
    by (metis rev_append rev_rev_ident)
  ultimately show "take (Suc i) s = rev ?t"
    by (metis append_eq_conv_conj length_rev)
qed

lemma c_str_no_NUL [simp]: "NUL \<notin> set (c_str s)"
  by (auto simp: c_str_def dest: set_takeWhileD)

lemma c_str_id: "NUL \<notin> set s \<Longrightarrow> c_str s = s"
  unfolding c_str_def takeWhile_eq_all_conv by blast

lemma c_str_append_NUL: "NUL \<notin> set s \<Longrightarrow> c_str (s @ NUL # t) = s"
  by (auto simp: c_str_def takeWhile_append)

section \<open>Numbers: \<open>std::stoull\<close>\<close>

text \<open>
  \<open>strtoull\<close> skips white space and a sign, recognises \<open>0x\<close> (base 16 and base 0) and a
  leading \<open>0\<close> (base 0), then takes digits as long as they fit the base. A negative number
  is negated modulo \<open>2 ^ 64\<close>. \<open>std::stoull\<close> throws \<open>invalid_argument\<close> when there is no
  digit and \<open>out_of_range\<close> when the value does not fit 64 bits, and otherwise gives the
  value and the number of characters used.
\<close>

datatype sto_error = invalid_argument | out_of_range

definition digit_val :: "char \<Rightarrow> nat option" where
  "digit_val c =
     (let n = of_char c :: nat in
      if 48 \<le> n \<and> n \<le> 57 then Some (n - 48)
      else if 97 \<le> n \<and> n \<le> 122 then Some (n - 87)
      else if 65 \<le> n \<and> n \<le> 90 then Some (n - 55)
      else None)"

definition is_digit_in :: "nat \<Rightarrow> char \<Rightarrow> bool" where
  "is_digit_in base c = (case digit_val c of None \<Rightarrow> False | Some d \<Rightarrow> d < base)"

definition digits_value :: "nat \<Rightarrow> string \<Rightarrow> nat" where
  "digits_value base s = foldl (\<lambda>n c. n * base + the (digit_val c)) 0 s"

definition hex_prefix :: "string \<Rightarrow> bool" where
  "hex_prefix s =
     (length s \<ge> 3 \<and> s ! 0 = CHR ''0'' \<and> (s ! 1 = CHR ''x'' \<or> s ! 1 = CHR ''X'') \<and> is_digit_in 16 (s ! 2))"

definition stoull :: "string \<Rightarrow> nat \<Rightarrow> sto_error + (u64 \<times> nat)" where
  "stoull s base =
     (let ws = length (takeWhile isspace s);
          s1 = drop ws s;
          sgn = (s1 \<noteq> [] \<and> (hd s1 = CHR ''-'' \<or> hd s1 = CHR ''+''));
          neg = (s1 \<noteq> [] \<and> hd s1 = CHR ''-'');
          s2 = (if sgn then tl s1 else s1);
          hex = ((base = 0 \<or> base = 16) \<and> hex_prefix s2);
          b = (if base \<noteq> 0 then base
               else if hex then 16
               else if s2 \<noteq> [] \<and> hd s2 = CHR ''0'' then 8 else 10);
          s3 = (if hex then drop 2 s2 else s2);
          ds = takeWhile (is_digit_in b) s3;
          pos = length s - length s3 + length ds
      in if ds = [] then Inl invalid_argument
         else if digits_value b ds \<ge> 2 ^ 64 then Inl out_of_range
         else Inr (if neg then - of_nat (digits_value b ds) else of_nat (digits_value b ds), pos))"

lemma is_digit_in_iff: "is_digit_in b c \<longleftrightarrow> (\<exists>d. digit_val c = Some d \<and> d < b)"
  by (auto simp: is_digit_in_def split: option.splits)

section \<open>Numbers: \<open>printf\<close>\<close>

text \<open>\<open>%u\<close>, \<open>%d\<close>, \<open>%x\<close> and a minimal width with leading zeros.\<close>

fun fmt_nat :: "nat \<Rightarrow> string" where
  "fmt_nat n = (if n < 10 then [char_of (48 + n)] else fmt_nat (n div 10) @ [char_of (48 + n mod 10)])"

declare fmt_nat.simps [simp del]

definition fmt_u :: "u32 \<Rightarrow> string" where
  "fmt_u w = fmt_nat (unat w)"

definition fmt_d :: "u32 \<Rightarrow> string" where
  "fmt_d w = (if sint w < 0 then CHR ''-'' # fmt_nat (nat (- sint w)) else fmt_nat (nat (sint w)))"

definition hex_digit :: "nat \<Rightarrow> char" where
  "hex_digit n = (if n < 10 then char_of (48 + n) else char_of (87 + n))"

fun fmt_hex :: "nat \<Rightarrow> string" where
  "fmt_hex n = (if n < 16 then [hex_digit n] else fmt_hex (n div 16) @ [hex_digit (n mod 16)])"

declare fmt_hex.simps [simp del]

definition pad0 :: "nat \<Rightarrow> string \<Rightarrow> string" where
  "pad0 w s = replicate (w - length s) (CHR ''0'') @ s"

lemma fmt_nat_nonempty: "fmt_nat n \<noteq> []"
  by (subst fmt_nat.simps) simp

lemma fmt_hex_nonempty: "fmt_hex n \<noteq> []"
  by (subst fmt_hex.simps) simp

lemma length_pad0: "w \<le> length (pad0 w s)" "length s \<le> length (pad0 w s)"
  by (simp_all add: pad0_def)

end
