(* ===== verification/Kcov_Utils.thy ===== *)
theory Kcov_Utils
  imports Kcov_Strings
begin

text \<open>
  The helpers of \<open>src/src/utils.cc\<close>: splitting, trimming and escaping of strings, paths,
  alignment, integers in strings, and the two caches in front of \<open>lstat\<close> and \<open>realpath\<close>.
  What the operating system answers is a parameter (\<open>lstat\<close>, \<open>realpath\<close>, \<open>getenv\<close>). An
  access outside a buffer or a string, which is undefined in C++, is the result \<open>None\<close>.
\<close>

section \<open>Splitting: \<open>split\<close> and \<open>split_string\<close>\<close>

text \<open>
  \<open>std::getline\<close> takes characters up to the delimiter, which it drops; it fails only when
  nothing is left at all. So a trailing delimiter gives no empty last element.
\<close>

function split :: "char \<Rightarrow> string \<Rightarrow> string list" where
  "split d s =
     (if s = [] then []
      else takeWhile (\<lambda>c. c \<noteq> d) s # split d (drop (Suc (length (takeWhile (\<lambda>c. c \<noteq> d) s))) s))"
  by pat_completeness auto
termination
  by (relation "measure (length \<circ> snd)") auto

declare split.simps [simp del]

definition split_string :: "string \<Rightarrow> string \<Rightarrow> string list" where
  "split_string s delims = split (hd delims) s"

fun join :: "char \<Rightarrow> string list \<Rightarrow> string" where
  "join d [] = []"
| "join d [x] = x"
| "join d (x # y # xs) = x @ d # join d (y # xs)"

lemma split_Nil [simp]: "split d [] = []"
  by (subst split.simps) simp

lemma split_no_delim: "x \<in> set (split d s) \<Longrightarrow> d \<notin> set x"
proof (induction d s rule: split.induct)
  case (1 d s)
  then show ?case
    by (subst (asm) (2) split.simps) (auto split: if_splits dest: set_takeWhileD)
qed

lemma split_nonempty: "s \<noteq> [] \<Longrightarrow> split d s \<noteq> []"
  by (subst split.simps) simp

lemma split_join: "s \<noteq> [] \<Longrightarrow> join d (split d s) = (if last s = d then butlast s else s)"
proof (induction d s rule: split.induct)
  case (1 d s)
  let ?x = "takeWhile (\<lambda>c. c \<noteq> d) s" and ?r = "drop (Suc (length (takeWhile (\<lambda>c. c \<noteq> d) s))) s"
  have sp: "split d s = ?x # split d ?r" using "1.prems" by (subst split.simps) simp
  show ?case
  proof (cases "d \<in> set s")
    case False
    then have all: "?x = s" unfolding takeWhile_eq_all_conv by blast
    with sp have "split d s = [s]" by simp
    moreover have "last s \<noteq> d" using False "1.prems" last_in_set by blast
    ultimately show ?thesis by simp
  next
    case True
    then have s: "s = ?x @ d # ?r"
      by (rule split_at_first)
    show ?thesis
    proof (cases "?r = []")
      case True
      have "last s = d" "butlast s = ?x" by (subst s, simp add: True)+
      then show ?thesis by (simp add: sp True)
    next
      case False
      then have ih: "join d (split d ?r) = (if last ?r = d then butlast ?r else ?r)"
        using "1.IH" "1.prems" by blast
      obtain y ys where y: "split d ?r = y # ys"
        using split_nonempty [OF False] by (metis list.exhaust)
      have "join d (split d s) = ?x @ d # join d (split d ?r)" by (simp add: sp y)
      moreover have "last s = last ?r" "butlast s = ?x @ d # butlast ?r"
        using False by (subst s, simp add: butlast_append)+
      ultimately show ?thesis using ih s by metis
    qed
  qed
qed

section \<open>Trimming: \<open>trim_string\<close>\<close>

definition trimEndChars_default :: string where
  "trimEndChars_default = [CHR '' '', CHR 0x09, CHR 0x0A, CHR 0x0D]"

definition trim_string_chars :: "string \<Rightarrow> string \<Rightarrow> string" where
  "trim_string_chars strIn trimEndChars =
     (let str = (case str_find_last_not_of strIn trimEndChars of
                   Some endpos \<Rightarrow> str_substr strIn 0 (endpos + 1)
                 | None \<Rightarrow> strIn)
      in case str_find_first_not_of str [CHR '' '', CHR 0x09] of
           Some startpos \<Rightarrow> drop startpos str
         | None \<Rightarrow> [])"

definition trim_string :: "string \<Rightarrow> string" where
  "trim_string strIn = trim_string_chars strIn trimEndChars_default"

abbreviation rstrip :: "string \<Rightarrow> string \<Rightarrow> string" where
  "rstrip s cs \<equiv> rev (dropWhile (\<lambda>c. c \<in> set cs) (rev s))"

abbreviation lstrip :: "string \<Rightarrow> string" where
  "lstrip s \<equiv> dropWhile (\<lambda>c. c = CHR '' '' \<or> c = CHR 0x09) s"

lemma trim_string_chars_eq:
  "trim_string_chars s cs = lstrip (if set s \<subseteq> set cs then s else rstrip s cs)"
proof -
  define t where "t = (if set s \<subseteq> set cs then s else rstrip s cs)"
  have "(case str_find_last_not_of s cs of Some e \<Rightarrow> str_substr s 0 (e + 1) | None \<Rightarrow> s) = t"
  proof (cases "str_find_last_not_of s cs")
    case None
    then show ?thesis by (simp add: t_def flip: str_find_last_not_of_None)
  next
    case (Some e)
    then have "\<not> set s \<subseteq> set cs" by (metis option.distinct(1) str_find_last_not_of_None)
    with Some show ?thesis
      by (simp add: t_def str_substr_def str_find_last_not_of_Some(2) [OF Some])
  qed
  moreover have "(case str_find_first_not_of t [CHR '' '', CHR 0x09] of
      Some p \<Rightarrow> drop p t | None \<Rightarrow> []) = lstrip t"
    by (auto split: option.split dest!: str_find_first_not_of_Some
        simp: str_find_first_not_of_None eq_commute [of "[]"] dropWhile_eq_Nil_conv)
  ultimately show ?thesis by (simp only: trim_string_chars_def Let_def flip: t_def)
qed

lemma trim_string_subset: "set (trim_string s) \<subseteq> set s"
  by (auto simp: trim_string_def trim_string_chars_eq dest!: set_dropWhileD split: if_splits)

lemma trim_string_first:
  "trim_string s \<noteq> [] \<Longrightarrow> hd (trim_string s) \<noteq> CHR '' '' \<and> hd (trim_string s) \<noteq> CHR 0x09"
  using hd_dropWhile [of "\<lambda>c. c = CHR '' '' \<or> c = CHR 0x09"]
  by (auto simp: trim_string_def trim_string_chars_eq)

section \<open>Paths: \<open>split_path\<close> and \<open>dir_concat\<close>\<close>

definition split_path :: "string \<Rightarrow> string \<times> string" where
  "split_path path =
     (case str_rfind_from path [CHR ''/''] (length path) of
        Some pos \<Rightarrow> (str_substr path 0 (pos + 1), drop (pos + 1) path)
      | None \<Rightarrow> ([], path))"

lemma split_path_append: "fst (split_path p) @ snd (split_path p) = p"
  by (auto simp: split_path_def str_substr_def split: option.splits)

lemma str_rfind_from_last:
  "str_rfind_from s p n = Some i \<Longrightarrow> i < j \<Longrightarrow> j \<le> n \<Longrightarrow> j \<le> length s \<Longrightarrow> \<not> prefix p (drop j s)"
  by (induction n) (auto split: if_splits simp: le_Suc_eq)

lemma prefix_single_drop: "prefix [c] (drop j s) \<longleftrightarrow> j < length s \<and> s ! j = c"
  by (cases "j < length s") (auto simp flip: Cons_nth_drop_Suc)

lemma split_path_no_slash: "CHR ''/'' \<notin> set (snd (split_path p))"
proof (cases "str_rfind_from p [CHR ''/''] (length p)")
  case None
  then have "\<forall>i \<le> length p. \<not> prefix [CHR ''/''] (drop i p)"
    by (simp only: str_rfind_from_None_iff) blast
  then have "CHR ''/'' \<notin> set p"
    by (auto simp: prefix_single_drop in_set_conv_nth dest: less_imp_le)
  with None show ?thesis by (simp add: split_path_def)
next
  case (Some i)
  have "p ! j \<noteq> CHR ''/''" if "i < j" "j < length p" for j
    using str_rfind_from_last [OF Some that(1)] that(2) by (simp add: prefix_single_drop)
  then have "CHR ''/'' \<notin> set (drop (i + 1) p)"
    by (auto simp: in_set_conv_nth)
  with Some show ?thesis by (simp add: split_path_def)
qed

text \<open>
  \<open>dir [dir.size () - 1]\<close> on an empty string indexes out of range: the loop that removes
  trailing slashes from a directory of slashes only runs into it.
\<close>

function strip_trailing_slashes :: "string \<Rightarrow> string option" where
  "strip_trailing_slashes dir =
     (if dir = [] then None
      else if last dir = CHR ''/'' then strip_trailing_slashes (butlast dir)
      else Some dir)"
  by pat_completeness auto
termination
  by (relation "measure length") auto

declare strip_trailing_slashes.simps [simp del]

definition dir_concat :: "string \<Rightarrow> string \<Rightarrow> string option" where
  "dir_concat dirIn filenameIn =
     (if dirIn = [] then Some filenameIn
      else case strip_trailing_slashes dirIn of
        None \<Rightarrow> None
      | Some dir \<Rightarrow> Some (dir @ CHR ''/'' # dropWhile (\<lambda>c. c = CHR ''/'') filenameIn))"

lemma strip_trailing_slashes_None:
  "strip_trailing_slashes dir = None \<longleftrightarrow> set dir \<subseteq> {CHR ''/''}"
proof (induction dir rule: strip_trailing_slashes.induct)
  case (1 dir)
  show ?case
  proof (cases dir rule: rev_cases)
    case Nil
    then show ?thesis by (simp add: strip_trailing_slashes.simps)
  next
    case (snoc ys y)
    then show ?thesis
      using "1.IH" by (subst strip_trailing_slashes.simps) auto
  qed
qed

lemma strip_trailing_slashes_Some:
  "strip_trailing_slashes dir = Some d \<Longrightarrow>
     d \<noteq> [] \<and> last d \<noteq> CHR ''/'' \<and> (\<exists>n. dir = d @ replicate n (CHR ''/''))"
proof (induction dir arbitrary: d rule: strip_trailing_slashes.induct)
  case (1 dir)
  from "1.prems" have ne: "dir \<noteq> []" by (auto simp: strip_trailing_slashes.simps)
  show ?case
  proof (cases "last dir = CHR ''/''")
    case False
    with "1.prems" ne have "d = dir" by (subst (asm) strip_trailing_slashes.simps) simp
    with False ne show ?thesis by (auto intro: exI [of _ 0])
  next
    case True
    with "1.prems" ne have "strip_trailing_slashes (butlast dir) = Some d"
      by (subst (asm) strip_trailing_slashes.simps) simp
    with "1.IH" ne True obtain n where "d \<noteq> []" "last d \<noteq> CHR ''/''"
      "butlast dir = d @ replicate n (CHR ''/'')" by blast
    moreover have "dir = butlast dir @ [CHR ''/'']" using ne True by (metis append_butlast_last_id)
    ultimately have "dir = d @ replicate (Suc n) (CHR ''/'')"
      by (simp add: replicate_append_same)
    with \<open>d \<noteq> []\<close> \<open>last d \<noteq> CHR ''/''\<close> show ?thesis by blast
  qed
qed

section \<open>Alignment\<close>

definition get_aligned :: "u64 \<Rightarrow> u64" where
  "get_aligned addr = (addr div 8) * 8"

definition get_aligned_4b :: "u64 \<Rightarrow> u64" where
  "get_aligned_4b addr = addr AND (NOT 3)"

lemma get_aligned_eq: "get_aligned addr = addr AND (NOT 7)"
proof -
  have "get_aligned addr = push_bit 3 (drop_bit 3 addr)"
    by (simp add: get_aligned_def push_bit_eq_mult drop_bit_eq_div)
  also have "\<dots> = addr AND NOT (mask 3)"
    by (rule bit_word_eqI) (auto simp: bit_simps)
  finally show ?thesis by (simp add: mask_eq_exp_minus_1)
qed

section \<open>Escaping for HTML: \<open>escape_helper\<close> and \<open>escape_html\<close>\<close>

text \<open>
  \<open>buf\<close> is a zeroed array of 4096 bytes and \<open>dst\<close> points into it; the model keeps what has
  been written so far. \<open>escape_helper\<close> copies a string with its terminator (\<open>strcpy\<close>), so it
  needs one byte more than it keeps; a write past the array is \<open>None\<close>.
\<close>

definition html_buf_size :: nat where
  "html_buf_size = 4096"

definition escape_helper :: "string \<Rightarrow> string \<Rightarrow> string option" where
  "escape_helper written what =
     (if length written + length what + 1 \<le> html_buf_size then Some (written @ what) else None)"

definition put_char :: "string \<Rightarrow> char \<Rightarrow> string option" where
  "put_char written c = (if length written < html_buf_size then Some (written @ [c]) else None)"

definition escape_html_char :: "string \<Rightarrow> char \<Rightarrow> string option" where
  "escape_html_char w c =
     (if c = CHR ''<'' then escape_helper w ''&lt;''
      else if c = CHR ''>'' then escape_helper w ''&gt;''
      else if c = CHR ''&'' then escape_helper w ''&amp;''
      else if c = CHR 0x22 then escape_helper w ''&quot;''
      else if c = CHR 0x27 then escape_helper w ''&#039;''
      else if c = CHR ''/'' then escape_helper w ''&#047;''
      else if c = CHR 0x5C then escape_helper w ''&#092;''
      else if c = CHR 0x0A \<or> c = CHR 0x0D then escape_helper w '' ''
      else put_char w c)"

fun escape_html_loop :: "string \<Rightarrow> string \<Rightarrow> string option" where
  "escape_html_loop w [] = Some w"
| "escape_html_loop w (c # cs) =
     (case escape_html_char w c of None \<Rightarrow> None | Some w' \<Rightarrow> escape_html_loop w' cs)"

definition escape_html :: "string \<Rightarrow> string option" where
  "escape_html str =
     (let s = c_str str;
          truncated = (length s > 512);
          len = (if truncated then 512 else length s)
      in case escape_html_loop [] (take len s) of
           None \<Rightarrow> None
         | Some buf \<Rightarrow> Some (c_str buf @ (if truncated then ''...'' else [])))"

text \<open>What a character becomes, as a function: the reference for the loop above.\<close>

definition html_entity :: "char \<Rightarrow> string" where
  "html_entity c =
     (if c = CHR ''<'' then ''&lt;'' else if c = CHR ''>'' then ''&gt;''
      else if c = CHR ''&'' then ''&amp;'' else if c = CHR 0x22 then ''&quot;''
      else if c = CHR 0x27 then ''&#039;'' else if c = CHR ''/'' then ''&#047;''
      else if c = CHR 0x5C then ''&#092;''
      else if c = CHR 0x0A \<or> c = CHR 0x0D then '' '' else [c])"

lemma html_entity_length: "length (html_entity c) \<le> 6"
  by (simp add: html_entity_def)

lemma html_entity_no_NUL: "c \<noteq> NUL \<Longrightarrow> NUL \<notin> set (html_entity c)"
  by (auto simp: html_entity_def NUL_def)

lemma escape_html_char_eq:
  "length w + 7 \<le> html_buf_size \<Longrightarrow> escape_html_char w c = Some (w @ html_entity c)"
  by (simp add: escape_html_char_def html_entity_def escape_helper_def put_char_def)

lemma escape_html_loop_eq:
  "length w + 6 * length s + 1 \<le> html_buf_size \<Longrightarrow>
     escape_html_loop w s = Some (w @ concat (map html_entity s))"
proof (induction s arbitrary: w)
  case Nil
  then show ?case by simp
next
  case (Cons c s)
  then have "escape_html_char w c = Some (w @ html_entity c)"
    by (intro escape_html_char_eq) simp
  moreover have "length (w @ html_entity c) + 6 * length s + 1 \<le> html_buf_size"
    using Cons.prems html_entity_length [of c] by simp
  ultimately show ?case using Cons.IH [of "w @ html_entity c"] by simp
qed

lemma escape_html_eq:
  "escape_html str =
     Some (concat (map html_entity (take 512 (c_str str))) @
           (if length (c_str str) > 512 then ''...'' else []))"
proof -
  let ?t = "take (if length (c_str str) > 512 then 512 else length (c_str str)) (c_str str)"
  have t: "?t = take 512 (c_str str)" by simp
  have "escape_html_loop [] ?t = Some (concat (map html_entity ?t))"
    using escape_html_loop_eq [of "[]" ?t] by (simp add: html_buf_size_def)
  moreover have "NUL \<notin> set (concat (map html_entity (take 512 (c_str str))))"
    using html_entity_no_NUL by (auto dest!: in_set_takeD) (metis c_str_no_NUL)
  then have "c_str (concat (map html_entity (take 512 (c_str str)))) =
      concat (map html_entity (take 512 (c_str str)))" by (rule c_str_id)
  ultimately show ?thesis by (simp only: escape_html_def Let_def t option.case)
qed

section \<open>Escaping for JSON: \<open>escape_json\<close>\<close>

definition escapeChars :: string where
  "escapeChars = [CHR 0x22, CHR 0x5C, CHR 0x09, CHR 0x0D, CHR 0x27]"

definition write_at :: "string \<Rightarrow> nat \<Rightarrow> char \<Rightarrow> string option" where
  "write_at out i c = (if i < length out then Some (out[i := c]) else None)"

text \<open>One pass over \<open>escapeChars\<close>; a match writes the backslash and moves on.\<close>

fun escape_json_inner :: "char \<Rightarrow> string \<Rightarrow> string \<Rightarrow> nat \<Rightarrow> (string \<times> nat) option" where
  "escape_json_inner c [] out cur = Some (out, cur)"
| "escape_json_inner c (e # es) out cur =
     (if c = e then
        Option.bind (write_at out cur (CHR 0x5C)) (\<lambda>out1.
        Option.bind (write_at out1 (cur + 1) c) (\<lambda>out2.
        escape_json_inner c es out2 (cur + 1)))
      else escape_json_inner c es out cur)"

definition escape_json_step :: "char \<Rightarrow> string \<Rightarrow> nat \<Rightarrow> (string \<times> nat) option" where
  "escape_json_step c out cur =
     Option.bind (write_at out cur c) (\<lambda>out0.
       if c = CHR 0x09 then
         Option.bind (write_at out0 cur (CHR 0x5C)) (\<lambda>out1.
         Option.bind (write_at out1 (cur + 1) (CHR ''t'')) (\<lambda>out2.
         Some (out2, cur + 2)))
       else
         map_option (\<lambda>(out', cur'). (out', cur' + 1)) (escape_json_inner c escapeChars out0 cur))"

fun escape_json_loop :: "string \<Rightarrow> string \<Rightarrow> nat \<Rightarrow> string option" where
  "escape_json_loop [] out cur = Some out"
| "escape_json_loop (c # cs) out cur =
     Option.bind (escape_json_step c out cur) (\<lambda>(out', cur'). escape_json_loop cs out' cur')"

definition n_escapes :: "string \<Rightarrow> nat" where
  "n_escapes str = sum_list (map (\<lambda>c. length (filter (\<lambda>e. c = e) escapeChars)) str)"

definition escape_json :: "string \<Rightarrow> string option" where
  "escape_json str =
     (if n_escapes str = 0 then Some str
      else escape_json_loop str (replicate (length str + n_escapes str) NUL) 0)"

definition json_escaped :: "char \<Rightarrow> string" where
  "json_escaped c =
     (if c = CHR 0x09 then [CHR 0x5C, CHR ''t'']
      else if c \<in> set escapeChars then [CHR 0x5C, c] else [c])"

lemma length_json_escaped:
  "length (json_escaped c) = 1 + length (filter (\<lambda>e. c = e) escapeChars)"
  by (auto simp: json_escaped_def escapeChars_def)

lemma length_concat_json_escaped:
  "length (concat (map json_escaped s)) = length s + n_escapes s"
  by (induction s) (simp_all add: n_escapes_def length_json_escaped)

lemma escape_json_step_eq:
  assumes "length (json_escaped c) \<le> length rest"
  shows "escape_json_step c (done @ rest) (length done) =
     Some (done @ json_escaped c @ drop (length (json_escaped c)) rest,
           length done + length (json_escaped c))"
proof -
  obtain r0 rs where r: "rest = r0 # rs"
    using assms by (cases rest) (auto simp: json_escaped_def split: if_splits)
  show ?thesis
  proof (cases "c \<in> set escapeChars")
    case False
    then show ?thesis
      by (auto simp: escape_json_step_def json_escaped_def escapeChars_def write_at_def r)
  next
    case True
    with assms r obtain r1 rs' where "rs = r1 # rs'"
      by (cases rs) (auto simp: json_escaped_def split: if_splits)
    with True r show ?thesis
      by (auto simp: escape_json_step_def json_escaped_def escapeChars_def write_at_def
          list_update_append nth_append)
  qed
qed

lemma escape_json_loop_eq:
  "length rest = length s + n_escapes s \<Longrightarrow>
     escape_json_loop s (done @ rest) (length done) = Some (done @ concat (map json_escaped s))"
proof (induction s arbitrary: "done" rest)
  case Nil
  then show ?case by (simp add: n_escapes_def)
next
  case (Cons c s)
  let ?e = "json_escaped c"
  have len: "length ?e \<le> length rest" "length (drop (length ?e) rest) = length s + n_escapes s"
    using Cons.prems by (simp_all add: n_escapes_def length_json_escaped)
  show ?case
    using Cons.IH [of "drop (length ?e) rest" "done @ ?e"] len escape_json_step_eq [OF len(1)]
    by simp
qed

lemma n_escapes_0: "n_escapes s = 0 \<Longrightarrow> concat (map json_escaped s) = s"
  by (induction s) (auto simp: n_escapes_def json_escaped_def escapeChars_def split: if_splits)

lemma escape_json_eq: "escape_json str = Some (concat (map json_escaped str))"
  using escape_json_loop_eq [of "replicate (length str + n_escapes str) NUL" str "[]"] n_escapes_0
  by (simp add: escape_json_def)

section \<open>Integers in strings\<close>

definition string_is_integer :: "string \<Rightarrow> nat \<Rightarrow> bool" where
  "string_is_integer str base =
     (case stoull str base of Inl _ \<Rightarrow> False | Inr (_, pos) \<Rightarrow> pos = length str)"

definition string_to_integer :: "string \<Rightarrow> nat \<Rightarrow> sto_error + u64" where
  "string_to_integer str base = map_sum id fst (stoull str base)"

section \<open>Files: existence, real paths, executables\<close>

text \<open>
  \<open>statCache\<close> and \<open>realPathCache\<close> are maps from paths; an entry is made on the first look-up
  and never changed. \<open>lstat\<close> answers whether a path exists and \<open>realpath\<close> is \<open>None\<close> where
  the C function returns \<open>NULL\<close>.
\<close>

definition file_exists :: "(string \<Rightarrow> bool) \<Rightarrow> (string \<rightharpoonup> bool) \<Rightarrow> string \<Rightarrow> bool \<times> (string \<rightharpoonup> bool)" where
  "file_exists lstat statCache path =
     (case statCache path of
        None \<Rightarrow> (let out = lstat path in (out, statCache(path \<mapsto> out)))
      | Some out \<Rightarrow> (out, statCache))"

definition get_real_path ::
  "(string \<Rightarrow> string option) \<Rightarrow> (string \<rightharpoonup> string) \<Rightarrow> string \<Rightarrow> string \<times> (string \<rightharpoonup> string)" where
  "get_real_path realpath realPathCache path =
     (case realPathCache path of
        Some p \<Rightarrow> (p, realPathCache)
      | None \<Rightarrow>
          (let c = (case realpath path of
                      None \<Rightarrow> realPathCache(path \<mapsto> path)
                    | Some rp \<Rightarrow> realPathCache(path \<mapsto> rp))
           in (the (c path), c)))"

text \<open>What a look-up answers with no cache in between.\<close>

definition real_path :: "(string \<Rightarrow> string option) \<Rightarrow> string \<Rightarrow> string" where
  "real_path realpath path = (case realpath path of None \<Rightarrow> path | Some rp \<Rightarrow> rp)"

record stat =
  st_isdir :: bool
  st_exec :: bool

definition find_executable :: "(string \<Rightarrow> stat option) \<Rightarrow> string \<Rightarrow> int" where
  "find_executable lstat file =
     (case lstat file of
        None \<Rightarrow> -1
      | Some st \<Rightarrow> if st_isdir st then -1 else if \<not> st_exec st then -1 else 0)"

fun look_in_paths :: "(string \<Rightarrow> stat option) \<Rightarrow> (string \<Rightarrow> string) \<Rightarrow> string list \<Rightarrow> string \<Rightarrow> string option" where
  "look_in_paths lstat rp [] file = None"
| "look_in_paths lstat rp (root # roots) file =
     (let path = rp (root @ ''/'' @ file)
      in if find_executable lstat path = 0 then Some path else look_in_paths lstat rp roots file)"

definition look_path ::
  "(string \<Rightarrow> stat option) \<Rightarrow> (string \<Rightarrow> string) \<Rightarrow> string option \<Rightarrow> string \<Rightarrow> string option" where
  "look_path lstat rp sys_path file =
     (if find_executable lstat file = 0 then Some file
      else case sys_path of
        None \<Rightarrow> None
      | Some p \<Rightarrow> look_in_paths lstat rp (split_string p '':'') file)"

fun executable_in_dirs :: "(string \<Rightarrow> bool) \<Rightarrow> string list \<Rightarrow> string \<Rightarrow> bool" where
  "executable_in_dirs exists [] name = False"
| "executable_in_dirs exists (d # ds) name =
     (if exists (d @ ''/'' @ name) then True else executable_in_dirs exists ds name)"

definition executable_exists_in_path :: "(string \<Rightarrow> bool) \<Rightarrow> string \<Rightarrow> string \<Rightarrow> bool" where
  "executable_exists_in_path exists path executableName =
     (if exists executableName then True
      else executable_in_dirs exists (split_string path '':'') executableName)"

lemma look_path_executable:
  "look_path lstat rp sys_path file = Some out \<Longrightarrow> find_executable lstat out = 0"
proof -
  have "look_in_paths lstat rp roots file = Some out \<Longrightarrow> find_executable lstat out = 0" for roots
    by (induction roots) (auto simp: Let_def split: if_splits)
  then show "look_path lstat rp sys_path file = Some out \<Longrightarrow> find_executable lstat out = 0"
    by (auto simp: look_path_def split: if_splits option.splits)
qed

section \<open>The contract of a cache\<close>

text \<open>
  kcov keeps three caches with the same shape: \<open>statCache\<close> and \<open>realPathCache\<close> here, and the
  file map of \<open>SourceFileCache\<close>. Each promises that a look-up answers what the uncached
  function would, as long as the files do not change while kcov runs.
\<close>

fun run_lookups :: "('c \<Rightarrow> 'k \<Rightarrow> 'v \<times> 'c) \<Rightarrow> 'c \<Rightarrow> 'k list \<Rightarrow> 'v list \<times> 'c" where
  "run_lookups get c [] = ([], c)"
| "run_lookups get c (k # ks) =
     (case get c k of (v, c') \<Rightarrow> (case run_lookups get c' ks of (vs, c'') \<Rightarrow> (v # vs, c'')))"

locale memo_cache =
  fixes entry :: "'c \<Rightarrow> 'k \<Rightarrow> 'v option"
    and compute :: "'k \<Rightarrow> 'v"
    and get :: "'c \<Rightarrow> 'k \<Rightarrow> 'v \<times> 'c"
    and empty :: 'c
  assumes entry_empty: "entry empty k = None"
    and get_hit: "entry c k = Some v \<Longrightarrow> get c k = (v, c)"
    and get_miss: "entry c k = None \<Longrightarrow>
          fst (get c k) = compute k \<and> entry (snd (get c k)) = (entry c)(k \<mapsto> compute k)"
begin

definition coherent :: "'c \<Rightarrow> bool" where
  "coherent c \<longleftrightarrow> (\<forall>k v. entry c k = Some v \<longrightarrow> v = compute k)"

lemma coherent_empty: "coherent empty"
  by (simp add: coherent_def entry_empty)

lemma get_coherent:
  assumes "coherent c"
  shows "fst (get c k) = compute k" "coherent (snd (get c k))"
proof -
  have "fst (get c k) = compute k \<and> coherent (snd (get c k))"
  proof (cases "entry c k")
    case None
    with get_miss [OF None] assms show ?thesis by (auto simp: coherent_def split: if_splits)
  next
    case (Some v)
    with get_hit [OF Some] assms show ?thesis by (auto simp: coherent_def)
  qed
  then show "fst (get c k) = compute k" "coherent (snd (get c k))" by auto
qed

lemma run_lookups_coherent:
  "coherent c \<Longrightarrow> fst (run_lookups get c ks) = map compute ks \<and> coherent (snd (run_lookups get c ks))"
proof (induction ks arbitrary: c)
  case Nil
  then show ?case by simp
next
  case (Cons k ks)
  obtain v c' where vc: "get c k = (v, c')" by (cases "get c k")
  with get_coherent [OF Cons.prems, of k] have "v = compute k" "coherent c'" by auto
  with Cons.IH [of c'] vc show ?case by (auto split: prod.split)
qed

lemma run_lookups_empty: "fst (run_lookups get empty ks) = map compute ks"
  using run_lookups_coherent [OF coherent_empty] by blast

end

interpretation stat_cache: memo_cache "\<lambda>c. c" lstat "file_exists lstat" "\<lambda>_. None" for lstat
  by unfold_locales (auto simp: file_exists_def Let_def)

interpretation path_cache: memo_cache "\<lambda>c. c" "real_path rp" "get_real_path rp" "\<lambda>_. None" for rp
  by unfold_locales (auto simp: get_real_path_def real_path_def Let_def split: option.split)

end
