(* ===== verification/Kcov_Filter.thy ===== *)
theory Kcov_Filter
  imports Kcov_Utils
begin

text \<open>
  Which files and lines count (\<open>src/src/filter.cc\<close>). \<open>Filter\<close> decides on files by path
  prefixes (\<open>PathHandler\<close>) and by substrings (\<open>PatternHandler\<close>); \<open>BasicFilter\<close> lets every
  file through. Both decide on lines through a \<open>FileLineHandler\<close>, which is stateful: it
  remembers whether it is inside an excluded region of the file it is looking at.

  The configuration keys the constructors read are the fields of \<open>filter_conf\<close>;
  \<open>get_real_path\<close> is the argument \<open>rp\<close> (its cache is transparent, see \<open>Kcov_Utils\<close>), and
  \<open>std::regex_replace\<close> is the argument \<open>regex_replace\<close>.
\<close>

section \<open>Lines: \<open>BasicFilter::FileLineHandler\<close>\<close>

record filter_conf =
  conf_exclude_line :: string
  conf_exclude_region :: string
  conf_include_pattern :: "string list"
  conf_exclude_pattern :: "string list"
  conf_include_path :: "string list"
  conf_exclude_path :: "string list"
  conf_orig_path_prefix :: string
  conf_new_path_prefix :: string

record FileLineHandler =
  m_curFile :: string
  m_ignoreSingleLinePatterns :: "string list"
  m_lineBeginPatterns :: "string list"
  m_lineEndPatterns :: "string list"
  m_excludeStart :: int

definition region_begins :: "string list \<Rightarrow> string list" where
  "region_begins cmds =
     concat (map (\<lambda>cmd. let entries = split_string cmd '':''
                        in if length entries \<ge> 1 then [entries ! 0] else []) cmds)"

definition region_ends :: "string list \<Rightarrow> string list" where
  "region_ends cmds =
     concat (map (\<lambda>cmd. let entries = split_string cmd '':''
                        in if length entries > 1 then [entries ! 1] else []) cmds)"

definition mk_FileLineHandler :: "filter_conf \<Rightarrow> FileLineHandler" where
  "mk_FileLineHandler conf =
     (let cmd = conf_exclude_line conf; startStop = conf_exclude_region conf;
          regions = (if startStop \<noteq> [] then split_string startStop '','' else [])
      in \<lparr> m_curFile = [],
           m_ignoreSingleLinePatterns =
             [''LCOV_EXCL_LINE'', ''#[should_panic]''] @ (if cmd \<noteq> [] then split_string cmd '','' else []),
           m_lineBeginPatterns = ''LCOV_EXCL_START'' # region_begins regions,
           m_lineEndPatterns = ''LCOV_EXCL_STOP'' # region_ends regions,
           m_excludeStart = 0 \<rparr>)"

definition any_pattern :: "string list \<Rightarrow> string \<Rightarrow> bool" where
  "any_pattern pats line = (\<exists>p \<in> set pats. str_contains line p)"

definition line_match :: "FileLineHandler \<Rightarrow> string \<Rightarrow> string \<Rightarrow> bool \<times> FileLineHandler" where
  "line_match h filePath line =
     (let h = (if m_curFile h \<noteq> filePath then h\<lparr>m_excludeStart := 0, m_curFile := filePath\<rparr> else h);
          out = \<not> any_pattern (m_ignoreSingleLinePatterns h) line;
          d1 = (if any_pattern (m_lineBeginPatterns h) line then m_excludeStart h + 1 else m_excludeStart h);
          out = (if d1 > 0 then False else out);
          d2 = (if any_pattern (m_lineEndPatterns h) line then d1 - 1 else d1);
          d3 = (if d2 < 0 then 0 else d2)
      in (out, h\<lparr>m_excludeStart := d3\<rparr>))"

text \<open>The sweep over a file's lines that the reporter makes with it.\<close>

fun match_lines :: "FileLineHandler \<Rightarrow> string \<Rightarrow> string list \<Rightarrow> bool list \<times> FileLineHandler" where
  "match_lines h file [] = ([], h)"
| "match_lines h file (l # ls) =
     (case line_match h file l of (b, h1) \<Rightarrow>
      case match_lines h1 file ls of (bs, h2) \<Rightarrow> (b # bs, h2))"

section \<open>Files: \<open>PatternHandler\<close>, \<open>PathHandler\<close>, \<open>Filter\<close>\<close>

definition pattern_isSetup :: "string list \<Rightarrow> string list \<Rightarrow> bool" where
  "pattern_isSetup inc exc = (\<not> (length inc = 0 \<and> length exc = 0))"

definition path_isSetup :: "string list \<Rightarrow> string list \<Rightarrow> bool" where
  "path_isSetup inc exc = (\<not> (length inc = 0 \<and> length exc = 0))"

definition pattern_includeFile :: "string list \<Rightarrow> string list \<Rightarrow> string \<Rightarrow> bool" where
  "pattern_includeFile inc exc file =
     (if length inc = 0 \<and> length exc = 0 then True
      else let out = (length inc = 0);
               out = fold (\<lambda>p out. if str_contains file p then True else out) inc out
           in fold (\<lambda>p out. if str_contains file p then False else out) exc out)"

definition path_matches :: "string \<Rightarrow> string \<Rightarrow> bool" where
  "path_matches pathStr pathPattern =
     (str_find pathStr pathPattern = Some 0 \<and>
      (length pathStr \<le> length pathPattern \<or> pathStr ! length pathPattern = CHR ''/''))"

fun path_search :: "string \<Rightarrow> string list \<Rightarrow> bool \<Rightarrow> bool \<Rightarrow> bool" where
  "path_search pathStr [] hit out = out"
| "path_search pathStr (p # ps) hit out =
     (if path_matches pathStr p then hit else path_search pathStr ps hit out)"

definition mk_PathHandler :: "(string \<Rightarrow> string) \<Rightarrow> string list \<Rightarrow> string list" where
  "mk_PathHandler rp paths = map rp paths"

definition path_includeFile :: "(string \<Rightarrow> string) \<Rightarrow> string list \<Rightarrow> string list \<Rightarrow> string \<Rightarrow> bool" where
  "path_includeFile rp inc exc file =
     (if length inc = 0 \<and> length exc = 0 then True
      else let pathStr = rp file;
               out = path_search pathStr inc True (length inc = 0)
           in path_search pathStr exc False out)"

record Filter =
  flt_lines :: FileLineHandler
  flt_includePatterns :: "string list"
  flt_excludePatterns :: "string list"
  flt_includePaths :: "string list"
  flt_excludePaths :: "string list"
  flt_origRoot :: string
  flt_newRoot :: string
  flt_basic :: bool

definition mk_Filter :: "(string \<Rightarrow> string) \<Rightarrow> filter_conf \<Rightarrow> Filter" where
  "mk_Filter rp conf =
     \<lparr> flt_lines = mk_FileLineHandler conf,
       flt_includePatterns = conf_include_pattern conf,
       flt_excludePatterns = conf_exclude_pattern conf,
       flt_includePaths = mk_PathHandler rp (conf_include_path conf),
       flt_excludePaths = mk_PathHandler rp (conf_exclude_path conf),
       flt_origRoot = conf_orig_path_prefix conf,
       flt_newRoot = conf_new_path_prefix conf,
       flt_basic = False \<rparr>"

definition mk_BasicFilter :: "filter_conf \<Rightarrow> Filter" where
  "mk_BasicFilter conf =
     \<lparr> flt_lines = mk_FileLineHandler conf,
       flt_includePatterns = [], flt_excludePatterns = [], flt_includePaths = [], flt_excludePaths = [],
       flt_origRoot = [], flt_newRoot = [], flt_basic = True \<rparr>"

definition runFilters :: "(string \<Rightarrow> string) \<Rightarrow> Filter \<Rightarrow> string \<Rightarrow> bool" where
  "runFilters rp f file =
     (if flt_basic f then True
      else let out = (if path_isSetup (flt_includePaths f) (flt_excludePaths f)
                      then path_includeFile rp (flt_includePaths f) (flt_excludePaths f) file else True)
           in if out \<and> pattern_isSetup (flt_includePatterns f) (flt_excludePatterns f)
              then pattern_includeFile (flt_includePatterns f) (flt_excludePatterns f) file else out)"

definition runLineFilters :: "Filter \<Rightarrow> string \<Rightarrow> string \<Rightarrow> bool \<times> Filter" where
  "runLineFilters f filePath line =
     (case line_match (flt_lines f) filePath line of (b, h) \<Rightarrow> (b, f\<lparr>flt_lines := h\<rparr>))"

definition mangleSourcePath ::
  "(string \<Rightarrow> string) \<Rightarrow> (string \<Rightarrow> string \<Rightarrow> string \<Rightarrow> string) \<Rightarrow> Filter \<Rightarrow> string \<Rightarrow> string" where
  "mangleSourcePath rp regex_replace f path =
     (if flt_basic f then path
      else let filename = rp path
           in if length (flt_origRoot f) > 0 \<and> length (flt_newRoot f) > 0
              then rp (regex_replace filename (flt_origRoot f) (flt_newRoot f))
              else filename)"

section \<open>Facts on files\<close>

text \<open>\<open>path_under dir p\<close>: \<open>p\<close> is \<open>dir\<close> itself or lies below it.\<close>

definition path_under :: "string \<Rightarrow> string \<Rightarrow> bool" where
  "path_under dir p = (p = dir \<or> prefix (dir @ ''/'') p)"

lemma path_matches_iff: "path_matches p dir \<longleftrightarrow> path_under dir p"
proof -
  have "prefix dir p \<and> (length p \<le> length dir \<or> p ! length dir = CHR ''/'') \<longleftrightarrow>
      p = dir \<or> prefix (dir @ ''/'') p"
  proof (cases "prefix dir p")
    case False
    then show ?thesis by (auto dest: append_prefixD)
  next
    case True
    then obtain t where t: "p = dir @ t" by (auto elim: prefixE)
    then show ?thesis by (cases t) (auto simp: nth_append)
  qed
  then show ?thesis by (simp add: path_matches_def path_under_def str_find_0_iff)
qed

lemma path_search_iff:
  "path_search p ps hit out = (if \<exists>d \<in> set ps. path_under d p then hit else out)"
  by (induction ps) (auto simp: path_matches_iff)

lemma fold_include: "fold (\<lambda>p out. if P p then True else out) ps b = (b \<or> (\<exists>p \<in> set ps. P p))"
  by (induction ps arbitrary: b) auto

lemma fold_exclude: "fold (\<lambda>p out. if P p then False else out) ps b = (b \<and> \<not> (\<exists>p \<in> set ps. P p))"
  by (induction ps arbitrary: b) auto

lemma pattern_includeFile_iff:
  "pattern_includeFile inc exc file \<longleftrightarrow>
     (inc = [] \<or> (\<exists>p \<in> set inc. sublist p file)) \<and> \<not> (\<exists>p \<in> set exc. sublist p file)"
  by (auto simp: pattern_includeFile_def fold_include fold_exclude str_contains_iff)

lemma path_includeFile_iff:
  "path_includeFile rp inc exc file \<longleftrightarrow>
     (inc = [] \<or> (\<exists>d \<in> set inc. path_under d (rp file))) \<and> \<not> (\<exists>d \<in> set exc. path_under d (rp file))"
  by (auto simp: path_includeFile_def path_search_iff Let_def)

lemma runFilters_iff:
  "runFilters rp f file \<longleftrightarrow> flt_basic f \<or>
     path_includeFile rp (flt_includePaths f) (flt_excludePaths f) file \<and>
     pattern_includeFile (flt_includePatterns f) (flt_excludePatterns f) file"
  by (auto simp: runFilters_def path_isSetup_def pattern_isSetup_def path_includeFile_iff pattern_includeFile_iff)

lemma runFilters_runLineFilters [simp]:
  "runFilters rp (snd (runLineFilters f p l)) = runFilters rp f"
  by (auto simp: fun_eq_iff runFilters_def runLineFilters_def split: prod.split)

section \<open>Facts on lines\<close>

abbreviation is_begin :: "FileLineHandler \<Rightarrow> string \<Rightarrow> bool" where
  "is_begin h l \<equiv> any_pattern (m_lineBeginPatterns h) l"

abbreviation is_end :: "FileLineHandler \<Rightarrow> string \<Rightarrow> bool" where
  "is_end h l \<equiv> any_pattern (m_lineEndPatterns h) l"

abbreviation is_single :: "FileLineHandler \<Rightarrow> string \<Rightarrow> bool" where
  "is_single h l \<equiv> any_pattern (m_ignoreSingleLinePatterns h) l"

text \<open>The nesting depth seen by the next line of \<open>fp\<close>.\<close>

definition depth_in :: "FileLineHandler \<Rightarrow> string \<Rightarrow> int" where
  "depth_in h fp = (if m_curFile h = fp then m_excludeStart h else 0)"

definition same_patterns :: "FileLineHandler \<Rightarrow> FileLineHandler \<Rightarrow> bool" where
  "same_patterns h h' \<longleftrightarrow>
     m_ignoreSingleLinePatterns h' = m_ignoreSingleLinePatterns h \<and>
     m_lineBeginPatterns h' = m_lineBeginPatterns h \<and> m_lineEndPatterns h' = m_lineEndPatterns h"

lemma line_match_result:
  "fst (line_match h fp l) \<longleftrightarrow>
     \<not> is_single h l \<and> depth_in h fp + (if is_begin h l then 1 else 0) \<le> 0"
  by (auto simp: line_match_def Let_def depth_in_def)

lemma line_match_state:
  "same_patterns h (snd (line_match h fp l))"
  "m_curFile (snd (line_match h fp l)) = fp"
  "m_excludeStart (snd (line_match h fp l)) =
     max 0 (depth_in h fp + (if is_begin h l then 1 else 0) - (if is_end h l then 1 else 0))"
  by (auto simp: line_match_def Let_def depth_in_def same_patterns_def)

lemma depth_line_match:
  "depth_in (snd (line_match h fp l)) fp =
     max 0 (depth_in h fp + (if is_begin h l then 1 else 0) - (if is_end h l then 1 else 0))"
  by (simp add: depth_in_def line_match_state)

lemma same_patterns_trans: "same_patterns a b \<Longrightarrow> same_patterns b c \<Longrightarrow> same_patterns a c"
  by (simp add: same_patterns_def)

lemma match_lines_append:
  "match_lines h fp (xs @ ys) =
     (case match_lines h fp xs of (bs, h1) \<Rightarrow>
      case match_lines h1 fp ys of (cs, h2) \<Rightarrow> (bs @ cs, h2))"
  by (induction xs arbitrary: h) (auto split: prod.split)

lemma length_match_lines [simp]: "length (fst (match_lines h fp ls)) = length ls"
proof (induction ls arbitrary: h)
  case (Cons l ls)
  then show ?case by (auto split: prod.split) (metis fst_conv)
qed simp

lemma match_lines_patterns: "same_patterns h (snd (match_lines h fp ls))"
proof (induction ls arbitrary: h)
  case Nil
  then show ?case by (simp add: same_patterns_def)
next
  case (Cons l ls)
  then show ?case
    using line_match_state(1) [of h fp l] same_patterns_trans
    by (fastforce split: prod.split)
qed

text \<open>Lines that are not markers leave the depth alone and are excluded inside a region.\<close>

lemma match_lines_inside:
  "0 < depth_in h fp \<Longrightarrow> \<forall>l \<in> set ls. \<not> is_begin h l \<and> \<not> is_end h l \<Longrightarrow>
     fst (match_lines h fp ls) = replicate (length ls) False \<and>
     depth_in (snd (match_lines h fp ls)) fp = depth_in h fp"
proof (induction ls arbitrary: h)
  case Nil
  then show ?case by simp
next
  case (Cons l ls)
  obtain b h1 where m: "line_match h fp l = (b, h1)" by fastforce
  have d: "depth_in h1 fp = depth_in h fp" and sp: "same_patterns h h1" and b: "\<not> b"
    using Cons.prems depth_line_match [of h fp l] line_match_state(1) [of h fp l]
      line_match_result [of h fp l] m by auto
  have "fst (match_lines h1 fp ls) = replicate (length ls) False \<and>
      depth_in (snd (match_lines h1 fp ls)) fp = depth_in h1 fp"
    using Cons.prems d sp by (intro Cons.IH) (auto simp: same_patterns_def)
  with m b d show ?case by (auto split: prod.split)
qed

text \<open>Outside a region a line counts unless it has a single-line marker; extra stops are ignored.\<close>

lemma match_lines_outside:
  "depth_in h fp = 0 \<Longrightarrow> \<forall>l \<in> set ls. \<not> is_begin h l \<Longrightarrow>
     fst (match_lines h fp ls) = map (\<lambda>l. \<not> is_single h l) ls \<and>
     depth_in (snd (match_lines h fp ls)) fp = 0"
proof (induction ls arbitrary: h)
  case Nil
  then show ?case by simp
next
  case (Cons l ls)
  obtain b h1 where m: "line_match h fp l = (b, h1)" by fastforce
  have d: "depth_in h1 fp = 0" and sp: "same_patterns h h1" and b: "b = (\<not> is_single h l)"
    using Cons.prems depth_line_match [of h fp l] line_match_state(1) [of h fp l]
      line_match_result [of h fp l] m by auto
  have "fst (match_lines h1 fp ls) = map (\<lambda>l. \<not> is_single h1 l) ls \<and>
      depth_in (snd (match_lines h1 fp ls)) fp = 0"
    using Cons.prems d sp by (intro Cons.IH) (auto simp: same_patterns_def)
  with m b sp show ?case by (auto simp: same_patterns_def split: prod.split)
qed

lemma match_lines_region:
  assumes "0 \<le> depth_in h fp" "is_begin h l0" "\<not> is_end h l0"
    and "\<forall>l \<in> set mid. \<not> is_begin h l \<and> \<not> is_end h l" and "is_end h l1" "\<not> is_begin h l1"
  shows "fst (match_lines h fp (l0 # mid @ [l1])) = replicate (length mid + 2) False"
    and "depth_in (snd (match_lines h fp (l0 # mid @ [l1]))) fp = depth_in h fp"
proof -
  obtain b0 h0 where m0: "line_match h fp l0 = (b0, h0)" by fastforce
  have d0: "depth_in h0 fp = depth_in h fp + 1" and sp0: "same_patterns h h0" and b0: "\<not> b0"
    using assms depth_line_match [of h fp l0] line_match_state(1) [of h fp l0]
      line_match_result [of h fp l0] m0 by auto
  obtain bs h2 where m2: "match_lines h0 fp mid = (bs, h2)" by fastforce
  have bs: "bs = replicate (length mid) False" and d2: "depth_in h2 fp = depth_in h fp + 1"
    using match_lines_inside [of h0 fp mid] assms d0 sp0 m2 by (auto simp: same_patterns_def)
  have sp2: "same_patterns h h2"
    using match_lines_patterns [of h0 fp mid] m2 sp0 same_patterns_trans by auto
  obtain b1 h3 where m3: "line_match h2 fp l1 = (b1, h3)" by fastforce
  have d3: "depth_in h3 fp = depth_in h fp" and b1: "\<not> b1"
    using assms d2 sp2 depth_line_match [of h2 fp l1] line_match_result [of h2 fp l1] m3
    by (auto simp: same_patterns_def)
  have "match_lines h fp (l0 # mid @ [l1]) = (b0 # bs @ [b1], h3)"
    by (simp add: m0 match_lines_append m2 m3)
  with b0 b1 bs d3 show "fst (match_lines h fp (l0 # mid @ [l1])) = replicate (length mid + 2) False"
    "depth_in (snd (match_lines h fp (l0 # mid @ [l1]))) fp = depth_in h fp"
    by (auto simp: replicate_append_same)
qed

lemma depth_mk_FileLineHandler [simp]: "depth_in (mk_FileLineHandler conf) fp = 0"
  by (simp add: depth_in_def mk_FileLineHandler_def Let_def)

section \<open>Properties\<close>

text \<open>
  The absolute path of a list of names, as \<open>realpath\<close> gives it: each name follows a slash, and the
  root directory is a slash alone.
\<close>

definition names_path :: "string list \<Rightarrow> string" where
  "names_path cs = (if cs = [] then ''/'' else concat (map ((#) CHR ''/'') cs))"

definition names_ok :: "string list \<Rightarrow> bool" where
  "names_ok cs \<longleftrightarrow> (\<forall>c \<in> set cs. c \<noteq> [] \<and> CHR ''/'' \<notin> set c)"

lemma names_ok_simps [simp]:
  "names_ok []" "names_ok (c # cs) \<longleftrightarrow> c \<noteq> [] \<and> CHR ''/'' \<notin> set c \<and> names_ok cs"
  by (auto simp: names_ok_def)

lemma path_under_first:
  assumes "CHR ''/'' \<notin> set c" "CHR ''/'' \<notin> set d" "x = [] \<or> List.hd x = CHR ''/''" "y = [] \<or> List.hd y = CHR ''/''"
  shows "path_under (d @ x) (c @ y) \<longleftrightarrow> d = c \<and> path_under x y"
proof -
  have t: "takeWhile ((\<noteq>) CHR ''/'') (a @ z) = a" if "CHR ''/'' \<notin> set a" "z = [] \<or> List.hd z = CHR ''/''" for a z
    using that by (cases z) (auto simp: takeWhile_append takeWhile_eq_all_conv)
  have "d = c" if u: "path_under (d @ x) (c @ y)"
  proof -
    from u obtain r where "c @ y = d @ r" "r = [] \<or> List.hd r = CHR ''/''"
      using assms(3) by (cases x) (auto simp: path_under_def prefix_def)
    then show ?thesis using t [OF assms(1,4)] t [OF assms(2)] by metis
  qed
  then show ?thesis by (auto simp: path_under_def)
qed

lemma path_under_names:
  "names_ok ds \<Longrightarrow> names_ok cs \<Longrightarrow>
     path_under (concat (map ((#) CHR ''/'') ds)) (concat (map ((#) CHR ''/'') cs)) \<longleftrightarrow> prefix ds cs"
proof (induction ds arbitrary: cs)
  case Nil
  then show ?case by (cases cs) (auto simp: path_under_def)
next
  case (Cons d ds)
  have h: "concat (map ((#) CHR ''/'') xs) = [] \<or> List.hd (concat (map ((#) CHR ''/'') xs)) = CHR ''/''" for xs :: "string list"
    by (cases xs) auto
  show ?case
  proof (cases cs)
    case (Cons c cs')
    have "path_under (CHR ''/'' # u) (CHR ''/'' # v) \<longleftrightarrow> path_under u v" for u v by (auto simp: path_under_def)
    with Cons.prems Cons.IH [of cs'] path_under_first [OF _ _ h h, of c d ds cs'] Cons show ?thesis by auto
  qed (auto simp: path_under_def)
qed

lemma path_under_names_path:
  assumes "names_ok ds" "names_ok cs" "cs \<noteq> []"
  shows "path_under (names_path ds) (names_path cs) \<longleftrightarrow> ds \<noteq> [] \<and> prefix ds cs"
proof (cases "ds = []")
  case True
  then show ?thesis using assms by (cases cs; cases "List.hd cs") (auto simp: path_under_def names_path_def)
next
  case False
  then show ?thesis using path_under_names [OF assms(1,2)] assms(3) by (simp add: names_path_def)
qed

text \<open>
  Property C11. An existing file is reported exactly when its real path is that of one of the (existing)
  include paths or lies below it, if there are any include paths, when this holds of none of the exclude paths,
  and when its name contains one of the include patterns, if there are any, and none of the exclude patterns.
  Being at or below a path is by whole names: /a/b is below /a and not below /. The root directory is the one
  exception: as an include or exclude path it matches no file, since the code asks for a slash behind
  the path. Realpath is taken to answer absolute paths, of names between single slashes.
\<close>

theorem runFilters_spec:
  assumes "realpath path = Some (names_path cs)" "names_ok cs" "cs \<noteq> []"
    and "\<And>d. d \<in> set (conf_include_path conf @ conf_exclude_path conf) \<Longrightarrow>
      realpath d = Some (names_path (names d)) \<and> names_ok (names d)"
  shows "runFilters (real_path realpath) (mk_Filter (real_path realpath) conf) path \<longleftrightarrow>
     (conf_include_path conf = [] \<or> (\<exists>d \<in> set (conf_include_path conf). names d \<noteq> [] \<and> prefix (names d) cs)) \<and>
     \<not> (\<exists>d \<in> set (conf_exclude_path conf). names d \<noteq> [] \<and> prefix (names d) cs) \<and>
     (conf_include_pattern conf = [] \<or> (\<exists>p \<in> set (conf_include_pattern conf). sublist p path)) \<and>
     \<not> (\<exists>p \<in> set (conf_exclude_pattern conf). sublist p path)"
proof -
  have "path_under (real_path realpath d) (real_path realpath path) \<longleftrightarrow> names d \<noteq> [] \<and> prefix (names d) cs"
    if "d \<in> set (conf_include_path conf) \<union> set (conf_exclude_path conf)" for d
    using assms(4) [of d] that path_under_names_path [OF _ assms(2,3), of "names d"] by (simp add: real_path_def assms(1))
  then show ?thesis
    by (auto simp: runFilters_iff path_includeFile_iff pattern_includeFile_iff mk_Filter_def mk_PathHandler_def)
qed

definition demo_realpath :: "string \<Rightarrow> string option" where
  "demo_realpath p = (if p = ''../a'' then Some ''/src/a'' else if p = ''b'' then Some ''/src/a/b'' else Some p)"

theorem runFilters_spec_witness:
  "\<not> runFilters (real_path demo_realpath) (mk_Filter (real_path demo_realpath)
     \<lparr> conf_exclude_line = [], conf_exclude_region = [], conf_include_pattern = [''.c''], conf_exclude_pattern = [''test''],
        conf_include_path = [''../a'', ''/''], conf_exclude_path = [''b''],
        conf_orig_path_prefix = [], conf_new_path_prefix = [] \<rparr>) ''/src/a/b/x.c'' \<and>
   runFilters (real_path demo_realpath) (mk_Filter (real_path demo_realpath)
     \<lparr> conf_exclude_line = [], conf_exclude_region = [], conf_include_pattern = [''.c''], conf_exclude_pattern = [''test''],
        conf_include_path = [''../a'', ''/''], conf_exclude_path = [''b''],
        conf_orig_path_prefix = [], conf_new_path_prefix = [] \<rparr>) ''/src/a/bc.c''"
proof -
  let ?conf = "\<lparr> conf_exclude_line = [], conf_exclude_region = [], conf_include_pattern = [''.c''], conf_exclude_pattern = [''test''],
        conf_include_path = [''../a'', ''/''], conf_exclude_path = [''b''],
        conf_orig_path_prefix = [], conf_new_path_prefix = [] \<rparr>"
  let ?names = "\<lambda>d. if d = ''../a'' then [''src'', ''a''] else if d = ''b'' then [''src'', ''a'', ''b''] else []"
  have d: "demo_realpath d = Some (names_path (?names d)) \<and> names_ok (?names d)"
    if "d \<in> set (conf_include_path ?conf @ conf_exclude_path ?conf)" for d
    using that by (auto simp: demo_realpath_def names_path_def)
  have "demo_realpath ''/src/a/b/x.c'' = Some (names_path [''src'', ''a'', ''b'', ''x.c''])"
    "demo_realpath ''/src/a/bc.c'' = Some (names_path [''src'', ''a'', ''bc.c''])" by (simp_all add: demo_realpath_def names_path_def)
  moreover have "sublist ''.c'' ''/src/a/bc.c''" "\<not> sublist ''test'' ''/src/a/bc.c''"
    by (simp_all flip: str_contains_iff add: str_contains_def)
  ultimately show ?thesis
    using runFilters_spec [of demo_realpath "''/src/a/b/x.c''" "[''src'', ''a'', ''b'', ''x.c'']" ?conf ?names]
      runFilters_spec [of demo_realpath "''/src/a/bc.c''" "[''src'', ''a'', ''bc.c'']" ?conf ?names] d by simp
qed

text \<open>The depth after a sweep is the largest surplus of starts over stops in a stretch that ends there.\<close>

definition surplus :: "FileLineHandler \<Rightarrow> string list \<Rightarrow> int" where
  "surplus h ls = int (length (filter (is_begin h) ls)) - int (length (filter (is_end h) ls))"

lemma surplus_simps [simp]:
  "surplus h [] = 0"
  "surplus h (xs @ ys) = surplus h xs + surplus h ys"
  "surplus h [l] = (if is_begin h l then 1 else 0) - (if is_end h l then 1 else 0)"
  by (simp_all add: surplus_def)

lemma fst_match_lines_append:
  "fst (match_lines h fp (xs @ ys)) = fst (match_lines h fp xs) @ fst (match_lines (snd (match_lines h fp xs)) fp ys)"
  by (simp add: match_lines_append split: prod.split)

lemma match_lines_snoc:
  "snd (match_lines h fp (xs @ [l])) = snd (line_match (snd (match_lines h fp xs)) fp l)"
  "fst (match_lines h fp (xs @ [l])) = fst (match_lines h fp xs) @ [fst (line_match (snd (match_lines h fp xs)) fp l)]"
  by (auto simp: match_lines_append split: prod.split)

lemma depth_match_lines:
  assumes "depth_in h fp = 0"
  shows "(\<exists>j \<le> length ls. depth_in (snd (match_lines h fp ls)) fp = surplus h (drop j ls)) \<and>
    (\<forall>j \<le> length ls. surplus h (drop j ls) \<le> depth_in (snd (match_lines h fp ls)) fp)"
proof (induction ls rule: rev_induct)
  case Nil
  then show ?case using assms by simp
next
  case (snoc l ls)
  let ?D = "depth_in (snd (match_lines h fp ls)) fp"
  have sp: "same_patterns h (snd (match_lines h fp ls))" by (rule match_lines_patterns)
  have D: "depth_in (snd (match_lines h fp (ls @ [l]))) fp = max 0 (?D + surplus h [l])"
    using sp by (simp add: match_lines_snoc depth_line_match same_patterns_def)
  have drop: "surplus h (drop j (ls @ [l])) = (if j \<le> length ls then surplus h (drop j ls) + surplus h [l] else 0)"
    if "j \<le> Suc (length ls)" for j using that by (auto simp del: surplus_simps(3))
  from snoc obtain j where j: "j \<le> length ls" "?D = surplus h (drop j ls)" by blast
  have "\<exists>i \<le> length (ls @ [l]). max 0 (?D + surplus h [l]) = surplus h (drop i (ls @ [l]))"
  proof (cases "?D + surplus h [l] \<le> 0")
    case True
    then show ?thesis by (intro exI [of _ "Suc (length ls)"]) simp
  next
    case False
    then show ?thesis using j drop [of j] by (intro exI [of _ j]) simp
  qed
  moreover have "surplus h (drop i (ls @ [l])) \<le> max 0 (?D + surplus h [l])" if "i \<le> length (ls @ [l])" for i
    using conjunct2 [OF snoc] drop [of i] that by (auto simp del: surplus_simps(3) split: if_splits)
  ultimately show ?case using D by simp
qed

text \<open>
  Property C12. When a file is swept from its first line, with any number of start and stop markers in any
  order: a line counts exactly when it has no single-line marker, and no stretch of lines that ends with it has
  more lines with a start marker than it has lines with a stop marker before its last line. So regions nest, a stop
  without a start is ignored, the lines of the start and of the matching stop are excluded, and a region
  without a stop reaches to the end of the file.
\<close>

theorem exclude_region_spec:
  assumes "depth_in h fp = 0" "k < length ls"
  shows "fst (match_lines h fp ls) ! k \<longleftrightarrow> \<not> is_single h (ls ! k) \<and>
     (\<forall>j \<le> k. length (filter (is_begin h) (drop j (take (Suc k) ls))) \<le> length (filter (is_end h) (drop j (take k ls))))"
proof -
  let ?hk = "snd (match_lines h fp (take k ls))"
  have sp: "same_patterns h ?hk" by (rule match_lines_patterns)
  have split: "ls = take k ls @ [ls ! k] @ drop (Suc k) ls" using assms(2) by (simp add: id_take_nth_drop)
  have fst_nth: "fst (match_lines h fp ls) ! k = fst (line_match ?hk fp (ls ! k))"
  proof -
    have "fst (match_lines h fp (take k ls @ [ls ! k] @ drop (Suc k) ls)) ! k = fst (line_match ?hk fp (ls ! k))"
      using assms(2) by (simp add: fst_match_lines_append nth_append split: prod.split)
    then show ?thesis using split by simp
  qed
  let ?b = "if is_begin h (ls ! k) then 1 else 0 :: int"
  have drop: "length (filter (is_begin h) (drop j (take (Suc k) ls))) \<le> length (filter (is_end h) (drop j (take k ls))) \<longleftrightarrow>
      surplus h (drop j (take k ls)) + ?b \<le> 0" if "j \<le> k" for j
    using that assms(2) by (auto simp: take_Suc_conv_app_nth surplus_def)
  have "depth_in ?hk fp + ?b \<le> 0 \<longleftrightarrow> (\<forall>j \<le> k. surplus h (drop j (take k ls)) + ?b \<le> 0)"
    using depth_match_lines [OF assms(1), of "take k ls"] assms(2) by (auto simp: min_def intro: order_trans)
  then show ?thesis
    using drop sp by (simp add: fst_nth line_match_result same_patterns_def)
qed

theorem exclude_region_spec_witness:
  "fst (match_lines
     (mk_FileLineHandler \<lparr> conf_exclude_line = [], conf_exclude_region = ''BEG:END'',
        conf_include_pattern = [], conf_exclude_pattern = [], conf_include_path = [],
        conf_exclude_path = [], conf_orig_path_prefix = [], conf_new_path_prefix = [] \<rparr>)
     ''a.c'' [''END'', ''BEG'', ''BEG'', ''x'', ''END'', ''y'', ''END'', ''z'']) ! 5 = False"
proof -
  let ?conf = "\<lparr> conf_exclude_line = [], conf_exclude_region = ''BEG:END'',
        conf_include_pattern = [], conf_exclude_pattern = [], conf_include_path = [],
        conf_exclude_path = [], conf_orig_path_prefix = [], conf_new_path_prefix = [] \<rparr>"
  let ?h = "mk_FileLineHandler ?conf"
  have h: "m_lineBeginPatterns ?h = [''LCOV_EXCL_START'', ''BEG'']"
    "m_lineEndPatterns ?h = [''LCOV_EXCL_STOP'', ''END'']"
    by (simp_all add: mk_FileLineHandler_def split_string_def split.simps region_begins_def region_ends_def)
  let ?ls = "[''END'', ''BEG'', ''BEG'', ''x'', ''END'', ''y'', ''END'', ''z'']"
  have "\<not> length (filter (is_begin ?h) (drop 1 (take (Suc 5) ?ls))) \<le> length (filter (is_end ?h) (drop 1 (take 5 ?ls)))"
    by (simp add: h any_pattern_def str_contains_def)
  moreover have "(1 :: nat) \<le> 5" by simp
  moreover have "fst (match_lines ?h ''a.c'' ?ls) ! 5 \<longleftrightarrow> \<not> is_single ?h (?ls ! 5) \<and>
     (\<forall>j \<le> 5. length (filter (is_begin ?h) (drop j (take (Suc 5) ?ls))) \<le> length (filter (is_end ?h) (drop j (take 5 ?ls))))"
    by (rule exclude_region_spec) simp_all
  ultimately show ?thesis by blast
qed

text \<open>One region without other markers.\<close>

lemma exclude_one_region:
  assumes "depth_in h fp = 0"
    and "is_begin h l0" "\<not> is_end h l0" "is_end h l1" "\<not> is_begin h l1"
    and "\<forall>l \<in> set mid. \<not> is_begin h l \<and> \<not> is_end h l"
    and "\<forall>l \<in> set (pre @ post). \<not> is_begin h l"
  shows "fst (match_lines h fp (pre @ (l0 # mid @ [l1]) @ post)) =
     map (\<lambda>l. \<not> is_single h l) pre @ replicate (length mid + 2) False @ map (\<lambda>l. \<not> is_single h l) post"
proof -
  obtain bs h1 where m1: "match_lines h fp pre = (bs, h1)" by fastforce
  obtain cs h2 where m2: "match_lines h1 fp (l0 # mid @ [l1]) = (cs, h2)" by fastforce
  have bs: "bs = map (\<lambda>l. \<not> is_single h l) pre" and d1: "depth_in h1 fp = 0"
    using match_lines_outside [of h fp pre] assms m1 by auto
  have sp1: "same_patterns h h1" using match_lines_patterns [of h fp pre] m1 by simp
  have cs: "cs = replicate (length mid + 2) False" and d2: "depth_in h2 fp = 0"
    using match_lines_region [of h1 fp l0 mid l1] assms d1 sp1 m2 by (auto simp: same_patterns_def)
  have sp2: "same_patterns h h2"
    using match_lines_patterns [of h1 fp "l0 # mid @ [l1]"] m2 sp1 same_patterns_trans by auto
  have "fst (match_lines h2 fp post) = map (\<lambda>l. \<not> is_single h l) post"
    using match_lines_outside [of h2 fp post] assms d2 sp2 by (auto simp: same_patterns_def)
  then show ?thesis
    by (subst match_lines_append, simp only: m1 prod.case match_lines_append m2)
      (auto simp: bs cs split: prod.split)
qed

end
