(* ===== verification/Kcov_SourceCache.thy ===== *)
theory Kcov_SourceCache
  imports Kcov_Utils
begin

text \<open>
  The cache of source files (\<open>src/src/source-file-cache.cc\<close>): the lines and the CRC of each
  file that was asked for, with an empty entry for a file that is missing or unreadable.
  \<open>exists\<close>, \<open>read\<close> and \<open>crc32\<close> (zlib) are parameters.
\<close>

definition bytes_to_string :: "byte list \<Rightarrow> string" where
  "bytes_to_string bs = map (\<lambda>b. char_of (unat b)) bs"

definition string_to_bytes :: "string \<Rightarrow> byte list" where
  "string_to_bytes s = map (\<lambda>c. of_nat (of_char c)) s"

record SourceFile =
  src_lines :: "string list"
  src_crc :: u32

definition m_empty :: SourceFile where
  "m_empty = \<lparr> src_lines = [], src_crc = 0 \<rparr>"

definition mk_SourceFile :: "(byte list \<Rightarrow> u32) \<Rightarrow> byte list \<Rightarrow> SourceFile" where
  "mk_SourceFile crc32 data =
     \<lparr> src_lines = split_string (bytes_to_string data) [CHR 0x0A], src_crc = crc32 data \<rparr>"

definition lookupFile ::
  "(string \<Rightarrow> bool) \<Rightarrow> (string \<Rightarrow> byte list option) \<Rightarrow> (byte list \<Rightarrow> u32) \<Rightarrow>
   (string \<rightharpoonup> SourceFile) \<Rightarrow> string \<Rightarrow> SourceFile \<times> (string \<rightharpoonup> SourceFile)" where
  "lookupFile exists read crc32 files filePath =
     (case files filePath of
        Some f \<Rightarrow> (f, files)
      | None \<Rightarrow>
          if \<not> exists filePath then (m_empty, files(filePath \<mapsto> m_empty))
          else let files' = (case read filePath of
                               Some p \<Rightarrow> files(filePath \<mapsto> mk_SourceFile crc32 p)
                             | None \<Rightarrow> files(filePath \<mapsto> m_empty))
               in (the (files' filePath), files'))"

definition getLines ::
  "(string \<Rightarrow> bool) \<Rightarrow> (string \<Rightarrow> byte list option) \<Rightarrow> (byte list \<Rightarrow> u32) \<Rightarrow>
   (string \<rightharpoonup> SourceFile) \<Rightarrow> string \<Rightarrow> string list \<times> (string \<rightharpoonup> SourceFile)" where
  "getLines exists read crc32 files filePath =
     map_prod src_lines id (lookupFile exists read crc32 files filePath)"

definition fileExists ::
  "(string \<Rightarrow> bool) \<Rightarrow> (string \<Rightarrow> byte list option) \<Rightarrow> (byte list \<Rightarrow> u32) \<Rightarrow>
   (string \<rightharpoonup> SourceFile) \<Rightarrow> string \<Rightarrow> bool \<times> (string \<rightharpoonup> SourceFile)" where
  "fileExists exists read crc32 files filePath =
     map_prod (\<lambda>f. src_lines f \<noteq> []) id (lookupFile exists read crc32 files filePath)"

definition getCrc ::
  "(string \<Rightarrow> bool) \<Rightarrow> (string \<Rightarrow> byte list option) \<Rightarrow> (byte list \<Rightarrow> u32) \<Rightarrow>
   (string \<rightharpoonup> SourceFile) \<Rightarrow> string \<Rightarrow> u32 \<times> (string \<rightharpoonup> SourceFile)" where
  "getCrc exists read crc32 files filePath =
     map_prod src_crc id (lookupFile exists read crc32 files filePath)"

text \<open>The answer without the cache.\<close>

definition source_file ::
  "(string \<Rightarrow> bool) \<Rightarrow> (string \<Rightarrow> byte list option) \<Rightarrow> (byte list \<Rightarrow> u32) \<Rightarrow> string \<Rightarrow> SourceFile" where
  "source_file exists read crc32 path =
     (if \<not> exists path then m_empty
      else case read path of None \<Rightarrow> m_empty | Some p \<Rightarrow> mk_SourceFile crc32 p)"

interpretation source_cache:
  memo_cache "\<lambda>c. c" "source_file ex rd crc" "lookupFile ex rd crc" "\<lambda>_. None" for ex rd crc
  by unfold_locales (auto simp: lookupFile_def source_file_def Let_def split: option.split)

lemma string_to_bytes_to_string [simp]: "bytes_to_string (string_to_bytes s) = s"
proof -
  have "unat (of_nat (of_char c) :: byte) = of_char c" for c :: char
    by (simp add: unat_of_nat)
  then show ?thesis by (simp add: bytes_to_string_def string_to_bytes_def comp_def)
qed

lemma string_to_bytes_no_zero: "NUL \<notin> set s \<Longrightarrow> 0 \<notin> set (string_to_bytes s)"
proof -
  have "c = NUL" if "(of_nat (of_char c) :: byte) = 0" for c
  proof -
    have "of_char c < (256 :: nat)" by simp
    then have "of_char c = (0 :: nat)"
      using that unat_of_nat_small [of "of_char c", where 'a = 8] by simp
    then have "of_char c = (of_char NUL :: nat)" by (simp add: NUL_def)
    then show ?thesis by (simp only: of_char_eq_iff)
  qed
  then show "NUL \<notin> set s \<Longrightarrow> 0 \<notin> set (string_to_bytes s)"
    by (auto simp: string_to_bytes_def image_iff)
qed

lemma length_string_to_bytes [simp]: "length (string_to_bytes s) = length s"
  by (simp add: string_to_bytes_def)

text \<open>
  Whatever files were asked for before, in whatever order, the cache of source
  files answers every look-up with the lines and the CRC a fresh read of the file gives, and
  with the empty file when there is nothing to read; the caches in front of \<open>lstat\<close> and
  \<open>realpath\<close> are transparent in the same way.
\<close>

lemma caches_transparent:
  "fst (run_lookups (lookupFile ex rd crc) (\<lambda>_. None) paths) = map (source_file ex rd crc) paths \<and>
   fst (run_lookups (file_exists lstat) (\<lambda>_. None) paths) = map lstat paths \<and>
   fst (run_lookups (get_real_path rp) (\<lambda>_. None) paths) = map (real_path rp) paths"
  by (intro conjI source_cache.run_lookups_empty stat_cache.run_lookups_empty path_cache.run_lookups_empty)

end
