(* ===== verification/Kcov_Reporter.thy ===== *)
theory Kcov_Reporter
  imports Kcov_Codec Kcov_Filter Kcov_SourceCache
begin

text \<open>
  The reporter (\<open>src/src/reporter.cc\<close>): which lines are code, how often each was hit, and the
  coverage database that carries the hits from one run to the next.

  \<^item> \<open>Line\<close>, \<open>File\<close> and \<open>Reporter\<close> are the classes of that name. The code shares \<open>Line\<close> objects
    by pointer between \<open>File::m_lines\<close>, \<open>m_addrToLine\<close> and \<open>m_lineIdToFileMap\<close>; here a pointer
    is an index into \<open>r_heap\<close>, which only grows, as the objects live until the destructor.
  \<^item> \<open>m_files\<close> is an association list, its order being the iteration order of the container.
  \<^item> The hit counter of an address is an \<open>int\<close> in the code: \<open>u32\<close> here, sign-extended where the
    code widens it.
  \<^item> What the reporter tells its listeners is the list of \<open>rep_event\<close>s an operation returns.
  \<^item> Undefined behaviour (use of an invalidated iterator, an index out of range) is the
    result \<open>None\<close>. The theorems show when it cannot happen.
\<close>

section \<open>\<open>Reporter::Line\<close>\<close>

record Line =
  ln_addrs :: "(u64 \<times> u32) list"
  ln_lineId :: u64
  ln_order :: u64
  ln_unreachable :: bool

definition line_id :: "u64 \<Rightarrow> u32 \<Rightarrow> u64" where
  "line_id fileHash lineNr = push_bit 32 fileHash OR ucast lineNr"

definition mk_Line :: "u64 \<Rightarrow> u32 \<Rightarrow> bool \<Rightarrow> Line" where
  "mk_Line fileHash lineNr unreachable =
     \<lparr> ln_addrs = [], ln_lineId = line_id fileHash lineNr, ln_order = 0, ln_unreachable = unreachable \<rparr>"

definition addAddress :: "Line \<Rightarrow> u64 \<Rightarrow> Line" where
  "addAddress l addr =
     (if addr \<in> fst ` set (ln_addrs l) then l else l\<lparr>ln_addrs := ln_addrs l @ [(addr, 0)]\<rparr>)"

text \<open>
  The branch for an address the line does not have steps back from an end iterator that the
  \<open>push_back\<close> before it has invalidated.
\<close>

fun hit_addr :: "(u64 \<times> u32) list \<Rightarrow> u64 \<Rightarrow> u64 \<Rightarrow> bool \<Rightarrow> (u64 \<times> u32) list" where
  "hit_addr [] addr hits singleShot = []"
| "hit_addr ((a, c) # xs) addr hits singleShot =
     (if a = addr then (a, if singleShot then 1 else c + ucast hits) # xs
      else (a, c) # hit_addr xs addr hits singleShot)"

definition registerHit :: "Line \<Rightarrow> u64 \<Rightarrow> u64 \<Rightarrow> bool \<Rightarrow> Line option" where
  "registerHit l addr hits singleShot =
     (if addr \<in> fst ` set (ln_addrs l)
      then Some (l\<lparr>ln_addrs := hit_addr (ln_addrs l) addr hits singleShot\<rparr>)
      else None)"

definition registerHitIndex :: "Line \<Rightarrow> u64 \<Rightarrow> u64 \<Rightarrow> bool \<Rightarrow> Line" where
  "registerHitIndex l index hits singleShot =
     (if length (ln_addrs l) \<le> unat index then l
      else case ln_addrs l ! unat index of
        (a, c) \<Rightarrow> l\<lparr>ln_addrs := (ln_addrs l)[unat index := (a, c + ucast hits)]\<rparr>)"

definition clearHits :: "Line \<Rightarrow> Line" where
  "clearHits l = l\<lparr>ln_addrs := map (\<lambda>(a, _). (a, 0)) (ln_addrs l)\<rparr>"

definition line_hits :: "Line \<Rightarrow> u32" where
  "line_hits l = foldl (\<lambda>out p. out + snd p) 0 (ln_addrs l)"

definition possibleHits :: "Line \<Rightarrow> bool \<Rightarrow> u32" where
  "possibleHits l singleShot = (if singleShot then of_nat (length (ln_addrs l)) else 0)"

definition marshal_entry :: "bool \<Rightarrow> u64 \<times> u64 \<times> u64 \<times> u64 \<Rightarrow> byte list" where
  "marshal_entry le e =
     (case e of (addr, hash, index, hits) \<Rightarrow>
        put_be le addr @ put_be le hash @ put_be le index @ put_be le hits)"

text \<open>The entries of a line: address, line id, index and (sign-extended) hits.\<close>

fun line_entries :: "u64 \<Rightarrow> nat \<Rightarrow> (u64 \<times> u32) list \<Rightarrow> (u64 \<times> u64 \<times> u64 \<times> u64) list" where
  "line_entries lineId i [] = []"
| "line_entries lineId i ((addr, c) # xs) =
     (if c = 0 then line_entries lineId (Suc i) xs
      else (addr, lineId, of_nat i, scast c) # line_entries lineId (Suc i) xs)"

definition line_marshal :: "bool \<Rightarrow> Line \<Rightarrow> byte list" where
  "line_marshal le l = concat (map (marshal_entry le) (line_entries (ln_lineId l) 0 (ln_addrs l)))"

definition line_marshalSize :: "Line \<Rightarrow> nat" where
  "line_marshalSize l = length (filter (\<lambda>(_, c). c \<noteq> 0) (ln_addrs l)) * 8 * 4"

definition line_unMarshal :: "bool \<Rightarrow> byte list \<Rightarrow> u64 \<times> u64 \<times> u64 \<times> u64" where
  "line_unMarshal le p =
     (get_be le (chunk 8 0 p), get_be le (chunk 8 1 p), get_be le (chunk 8 2 p), get_be le (chunk 8 3 p))"

section \<open>\<open>Reporter::File\<close>\<close>

record File =
  fl_fileHash :: u64
  fl_lines :: "nat option list"
  fl_nrLines :: u32

definition mk_File :: "u64 \<Rightarrow> File" where
  "mk_File hash = \<lparr> fl_fileHash = hash, fl_lines = [], fl_nrLines = 0 \<rparr>"

definition resize :: "nat \<Rightarrow> 'a option list \<Rightarrow> 'a option list" where
  "resize n xs = take n xs @ replicate (n - length xs) None"

definition addLine :: "Line list \<Rightarrow> File \<Rightarrow> u32 \<Rightarrow> nat \<Rightarrow> File option" where
  "addLine heap f lineNr p =
     (let ls = (if unat lineNr \<ge> length (fl_lines f) then resize (unat (lineNr + 1)) (fl_lines f)
                else fl_lines f)
      in if unat lineNr < length ls
         then Some (f\<lparr>fl_lines := ls[unat lineNr := Some p],
                      fl_nrLines := (if \<not> ln_unreachable (heap ! p) then fl_nrLines f + 1 else fl_nrLines f)\<rparr>)
         else None)"

definition getLine :: "File \<Rightarrow> u32 \<Rightarrow> nat option" where
  "getLine f lineNr = (if unat lineNr \<ge> length (fl_lines f) then None else fl_lines f ! unat lineNr)"

text \<open>The lines of a file in index order, the null pointers skipped.\<close>

definition file_lines :: "Line list \<Rightarrow> File \<Rightarrow> Line list" where
  "file_lines heap f = map (\<lambda>p. heap ! p) (List.map_filter id (fl_lines f))"

definition file_marshal :: "bool \<Rightarrow> Line list \<Rightarrow> File \<Rightarrow> byte list" where
  "file_marshal le heap f = concat (map (line_marshal le) (file_lines heap f))"

definition file_marshalSize :: "Line list \<Rightarrow> File \<Rightarrow> nat" where
  "file_marshalSize heap f = sum_list (map line_marshalSize (file_lines heap f))"

definition getExecutedLines :: "Line list \<Rightarrow> File \<Rightarrow> u32" where
  "getExecutedLines heap f =
     foldl (\<lambda>out cur. if ln_unreachable cur then out
                      else out + (if line_hits cur \<noteq> 0 then 1 else 0)) 0 (file_lines heap f)"

definition file_lineIsCode :: "Line list \<Rightarrow> File \<Rightarrow> u32 \<Rightarrow> bool" where
  "file_lineIsCode heap f lineNr =
     (if unat lineNr \<ge> length (fl_lines f) then False
      else case fl_lines f ! unat lineNr of
        None \<Rightarrow> False
      | Some p \<Rightarrow> \<not> ln_unreachable (heap ! p))"

section \<open>\<open>Reporter\<close>\<close>

datatype PossibleHits = HITS_SINGLE | HITS_LIMITED | HITS_UNLIMITED

datatype rep_event = OnAddress u64 u64 | OnLineReporter string u32 u64

text \<open>What the reporter is given: its parser, the configuration, the files and the machine.\<close>

record rep_env =
  e_rp :: "string \<Rightarrow> string"
  e_exists :: "string \<Rightarrow> bool"
  e_read :: "string \<Rightarrow> byte list option"
  e_crc32 :: "byte list \<Rightarrow> u32"
  e_std_hash :: "string \<Rightarrow> u64"
  e_getLines :: "string \<Rightarrow> string list"
  e_hashFilename :: bool
  e_maxPossibleHits :: PossibleHits
  e_checksum :: u64
  e_cleanOutput :: bool
  e_little_endian :: bool

record Reporter =
  r_heap :: "Line list"
  r_files :: "(string \<times> File) list"
  r_addrToLine :: "u64 \<rightharpoonup> nat list"
  r_pendingFiles :: "u64 \<rightharpoonup> (u64 \<times> u64) list"
  r_lineIdToFileMap :: "u64 \<rightharpoonup> nat"
  r_unmarshallingDone :: bool
  r_order :: u64
  r_filter :: Filter

definition mk_Reporter :: "Filter \<Rightarrow> Reporter" where
  "mk_Reporter flt =
     \<lparr> r_heap = [], r_files = [], r_addrToLine = (\<lambda>_. None), r_pendingFiles = (\<lambda>_. None),
       r_lineIdToFileMap = (\<lambda>_. None), r_unmarshallingDone = False, r_order = 1, r_filter = flt \<rparr>"

definition single_shot :: "rep_env \<Rightarrow> bool" where
  "single_shot e = (e_maxPossibleHits e \<noteq> HITS_UNLIMITED)"

definition fileIsIncluded :: "rep_env \<Rightarrow> Reporter \<Rightarrow> string \<Rightarrow> bool" where
  "fileIsIncluded e r fp = runFilters (e_rp e) (r_filter r) fp"

definition lineIsCode :: "Reporter \<Rightarrow> string \<Rightarrow> u32 \<Rightarrow> bool" where
  "lineIsCode r fp lineNr =
     (case map_of (r_files r) fp of None \<Rightarrow> False | Some f \<Rightarrow> file_lineIsCode (r_heap r) f lineNr)"

record LineExecutionCount =
  lec_hits :: u32
  lec_possibleHits :: u32
  lec_order :: u64

definition getLineExecutionCount :: "rep_env \<Rightarrow> Reporter \<Rightarrow> string \<Rightarrow> u32 \<Rightarrow> LineExecutionCount" where
  "getLineExecutionCount e r fp lineNr =
     (let none = \<lparr> lec_hits = 0, lec_possibleHits = 0, lec_order = 0 \<rparr>
      in case map_of (r_files r) fp of
           None \<Rightarrow> none
         | Some f \<Rightarrow> (case getLine f lineNr of
             None \<Rightarrow> none
           | Some p \<Rightarrow> (let line = r_heap r ! p
                        in if \<not> ln_unreachable line
                           then \<lparr> lec_hits = line_hits line,
                                  lec_possibleHits = possibleHits line (single_shot e),
                                  lec_order = ln_order line \<rparr>
                           else none)))"

record ExecutionSummary =
  es_lines :: u32
  es_executedLines :: u32

definition getExecutionSummary :: "rep_env \<Rightarrow> Reporter \<Rightarrow> ExecutionSummary" where
  "getExecutionSummary e r =
     foldl (\<lambda>s (fileName, f).
              if \<not> e_exists e fileName then s
              else if \<not> runFilters (e_rp e) (r_filter r) fileName then s
              else \<lparr> es_lines = es_lines s + fl_nrLines f,
                     es_executedLines = es_executedLines s + getExecutedLines (r_heap r) f \<rparr>)
           \<lparr> es_lines = 0, es_executedLines = 0 \<rparr> (r_files r)"

section \<open>The coverage database\<close>

definition KCOV_MAGIC :: u32 where
  "KCOV_MAGIC = 0x6b636f76"

definition KCOV_DB_VERSION :: u32 where
  "KCOV_DB_VERSION = 6"

definition getMarshalEntrySize :: nat where
  "getMarshalEntrySize = 4 * 8"

definition sizeof_marshalHeaderStruct :: nat where
  "sizeof_marshalHeaderStruct = 16"

definition getMarshalSize :: "Reporter \<Rightarrow> nat" where
  "getMarshalSize r =
     foldl (\<lambda>out (_, f). out + file_marshalSize (r_heap r) f) 0 (r_files r) * getMarshalEntrySize
     + sizeof_marshalHeaderStruct"

definition marshalHeader :: "rep_env \<Rightarrow> byte list" where
  "marshalHeader e =
     (let le = e_little_endian e
      in put_be le KCOV_MAGIC @ put_be le KCOV_DB_VERSION @ put_be le (e_checksum e))"

text \<open>
  \<open>marshal\<close> writes the header and the entries into a zeroed buffer of \<open>getMarshalSize\<close> bytes;
  running past it would be a heap overflow, \<open>None\<close>.
\<close>

definition marshal :: "rep_env \<Rightarrow> Reporter \<Rightarrow> byte list option" where
  "marshal e r =
     (let sz = getMarshalSize r;
          written = marshalHeader e @
            concat (map (\<lambda>(_, f). file_marshal (e_little_endian e) (r_heap r) f) (r_files r))
      in if length written \<le> sz then Some (written @ replicate (sz - length written) 0) else None)"

definition unMarshalHeader :: "rep_env \<Rightarrow> byte list \<Rightarrow> bool" where
  "unMarshalHeader e buf =
     (let le = e_little_endian e
      in if get_be le (chunk 4 0 buf) \<noteq> KCOV_MAGIC then False
         else if get_be le (chunk 4 1 buf) \<noteq> KCOV_DB_VERSION then False
         else get_be le (chunk 8 1 buf) = e_checksum e)"

section \<open>Hits\<close>

text \<open>The loop over the lines of an address: \<open>registerHit\<close>, the hit order, the report.\<close>

fun hit_lines ::
  "rep_env \<Rightarrow> Reporter \<Rightarrow> nat list \<Rightarrow> u64 \<Rightarrow> u64 \<Rightarrow> (Reporter \<times> rep_event list) option" where
  "hit_lines e r [] addr hits = Some (r, [])"
| "hit_lines e r (p # ps) addr hits =
     (case registerHit (r_heap r ! p) addr hits (single_shot e) of
        None \<Rightarrow> None
      | Some line \<Rightarrow>
          (let (line, order) = (if ln_order line = 0 then (line\<lparr>ln_order := r_order r\<rparr>, r_order r + 1)
                                else (line, r_order r));
               r' = r\<lparr>r_heap := (r_heap r)[p := line], r_order := order\<rparr>
           in map_option (\<lambda>(r'', evs). (r'', OnAddress (ln_lineId line) hits # evs))
                (hit_lines e r' ps addr hits)))"

definition onAddressHit :: "rep_env \<Rightarrow> Reporter \<Rightarrow> u64 \<Rightarrow> u64 \<Rightarrow> (Reporter \<times> rep_event list) option" where
  "onAddressHit e r addr hits =
     (case r_addrToLine r addr of None \<Rightarrow> Some (r, []) | Some ps \<Rightarrow> hit_lines e r ps addr hits)"

section \<open>Lines\<close>

definition fileHash :: "rep_env \<Rightarrow> string \<Rightarrow> u64" where
  "fileHash e fp =
     (if \<not> e_hashFilename e
      then (case e_read e fp of None \<Rightarrow> 0 | Some data \<Rightarrow> ucast (e_crc32 e data))
      else e_std_hash e fp)"

text \<open>The sweep that marks the excluded lines of a file when it is first seen.\<close>

fun mark_unreachable ::
  "string \<Rightarrow> u32 \<Rightarrow> string list \<Rightarrow> Line list \<times> File \<times> Filter \<Rightarrow> (Line list \<times> File \<times> Filter) option" where
  "mark_unreachable fp nr [] s = Some s"
| "mark_unreachable fp nr (l # ls) (heap, f, flt) =
     (case runLineFilters flt fp l of (ok, flt') \<Rightarrow>
        if ok then mark_unreachable fp (nr + 1) ls (heap, f, flt')
        else (let heap' = heap @ [mk_Line (fl_fileHash f) nr True]
              in case addLine heap' f nr (length heap) of
                   None \<Rightarrow> None
                 | Some f' \<Rightarrow> mark_unreachable fp (nr + 1) ls (heap', f', flt')))"

definition ensure_file :: "rep_env \<Rightarrow> Reporter \<Rightarrow> string \<Rightarrow> (Reporter \<times> File) option" where
  "ensure_file e r fp =
     (case map_of (r_files r) fp of
        Some f \<Rightarrow> Some (r, f)
      | None \<Rightarrow>
          (case mark_unreachable fp 1 (e_getLines e fp) (r_heap r, mk_File (fileHash e fp), r_filter r) of
             None \<Rightarrow> None
           | Some (heap, f, flt) \<Rightarrow>
               Some (r\<lparr>r_heap := heap, r_filter := flt, r_files := alist_upd fp f (r_files r)\<rparr>, f)))"

definition ensure_line :: "Reporter \<Rightarrow> File \<Rightarrow> string \<Rightarrow> u32 \<Rightarrow> (Reporter \<times> nat) option" where
  "ensure_line r f fp lineNr =
     (case getLine f lineNr of
        Some p \<Rightarrow> Some (r, p)
      | None \<Rightarrow>
          (let heap = r_heap r @ [mk_Line (fl_fileHash f) lineNr False]; p = length (r_heap r)
           in case addLine heap f lineNr p of
                None \<Rightarrow> None
              | Some f' \<Rightarrow> Some (r\<lparr>r_heap := heap, r_files := alist_upd fp f' (r_files r)\<rparr>, p)))"

definition link_addr :: "Reporter \<Rightarrow> nat \<Rightarrow> u64 \<Rightarrow> Reporter" where
  "link_addr r p addr =
     (let line = addAddress (r_heap r ! p) addr;
          heap = (r_heap r)[p := line];
          cur = (case r_addrToLine r addr of None \<Rightarrow> [] | Some ps \<Rightarrow> ps);
          dup = (\<exists>q \<in> set cur. ln_lineId line = ln_lineId (heap ! q))
      in r\<lparr>r_heap := heap,
           r_addrToLine := (r_addrToLine r)(addr \<mapsto> (if dup then cur else cur @ [p])),
           r_lineIdToFileMap := (r_lineIdToFileMap r)(ln_lineId line \<mapsto> p)\<rparr>)"

definition flush_pending :: "rep_env \<Rightarrow> Reporter \<Rightarrow> nat \<Rightarrow> Reporter \<times> rep_event list" where
  "flush_pending e r p =
     (let lineId = ln_lineId (r_heap r ! p)
      in case r_pendingFiles r lineId of
           None \<Rightarrow> (r, [])
         | Some pend \<Rightarrow>
             (r\<lparr>r_heap := (r_heap r)[p := fold (\<lambda>(index, hits) l. registerHitIndex l index hits (single_shot e))
                                              pend (r_heap r ! p)],
                r_pendingFiles := (r_pendingFiles r)(lineId \<mapsto> [])\<rparr>,
              map (\<lambda>(_, hits). OnAddress lineId hits) pend))"

definition onLine :: "rep_env \<Rightarrow> Reporter \<Rightarrow> string \<Rightarrow> u32 \<Rightarrow> u64 \<Rightarrow> (Reporter \<times> rep_event list) option" where
  "onLine e r fp lineNr addr =
     (if \<not> runFilters (e_rp e) (r_filter r) fp then Some (r, [])
      else case ensure_file e r fp of
        None \<Rightarrow> None
      | Some (r1, f) \<Rightarrow>
          (case ensure_line r1 f fp lineNr of
             None \<Rightarrow> None
           | Some (r2, p) \<Rightarrow>
               (case flush_pending e (link_addr r2 p addr) p of
                  (r3, evs) \<Rightarrow> Some (r3, evs @ [OnLineReporter fp lineNr (ln_lineId (r_heap r3 ! p))]))))"

section \<open>Reading the database\<close>

text \<open>
  One entry: skipped when it has no hits; counted when its address is known; counted by index
  when only its line is known; kept for later otherwise.
\<close>

definition unMarshal_entry ::
  "rep_env \<Rightarrow> Reporter \<Rightarrow> u64 \<times> u64 \<times> u64 \<times> u64 \<Rightarrow> (Reporter \<times> rep_event list) option" where
  "unMarshal_entry e r entry =
     (case entry of (addr, hash, index, hits) \<Rightarrow>
        if hits = 0 then Some (r, [])
        else case r_addrToLine r addr of
          Some _ \<Rightarrow> onAddressHit e r addr hits
        | None \<Rightarrow>
            (case r_lineIdToFileMap r hash of
               None \<Rightarrow>
                 (let old = (case r_pendingFiles r hash of None \<Rightarrow> [] | Some xs \<Rightarrow> xs)
                  in Some (r\<lparr>r_pendingFiles := (r_pendingFiles r)(hash \<mapsto> old @ [(index, hits)])\<rparr>, []))
             | Some p \<Rightarrow>
                 Some (r\<lparr>r_heap := (r_heap r)[p := registerHitIndex (r_heap r ! p) index hits (single_shot e)]\<rparr>,
                       [OnAddress hash hits])))"

fun unMarshal_entries ::
  "rep_env \<Rightarrow> Reporter \<Rightarrow> (u64 \<times> u64 \<times> u64 \<times> u64) list \<Rightarrow> (Reporter \<times> rep_event list) option" where
  "unMarshal_entries e r [] = Some (r, [])"
| "unMarshal_entries e r (x # xs) =
     (case unMarshal_entry e r x of
        None \<Rightarrow> None
      | Some (r', evs) \<Rightarrow> map_option (\<lambda>(r'', evs'). (r'', evs @ evs')) (unMarshal_entries e r' xs))"

text \<open>
  \<open>buf\<close> is the memory \<open>read_file\<close> returned (whole zeroed chunks of 1024 bytes) and \<open>sz\<close> the
  size of the file in it. The entry count is computed in \<open>size_t\<close>, so it wraps for a file that
  is shorter than the header; reading an entry past \<open>buf\<close> is \<open>None\<close>.
\<close>

definition unMarshal ::
  "rep_env \<Rightarrow> Reporter \<Rightarrow> byte list \<Rightarrow> u64 \<Rightarrow> (bool \<times> Reporter \<times> rep_event list) option" where
  "unMarshal e r buf sz =
     (if \<not> unMarshalHeader e buf then Some (False, r, [])
      else let n = unat ((sz - of_nat sizeof_marshalHeaderStruct) div of_nat getMarshalEntrySize);
               body = drop sizeof_marshalHeaderStruct buf
           in if n * getMarshalEntrySize \<le> length body
              then map_option (\<lambda>(r', evs). (True, r', evs))
                     (unMarshal_entries e r
                        (map (\<lambda>i. line_unMarshal (e_little_endian e) (chunk getMarshalEntrySize i body)) [0..<n]))
              else None)"

text \<open>\<open>onFile\<close> reads the database once; \<open>db\<close> is what \<open>read_file\<close> gives for it.\<close>

definition onFile ::
  "rep_env \<Rightarrow> Reporter \<Rightarrow> (byte list \<times> u64) option \<Rightarrow> (Reporter \<times> rep_event list) option" where
  "onFile e r db =
     (if r_unmarshallingDone r then Some (r, [])
      else if e_cleanOutput e then Some (r\<lparr>r_unmarshallingDone := True\<rparr>, [])
      else case db of
        None \<Rightarrow> Some (r\<lparr>r_unmarshallingDone := True\<rparr>, [])
      | Some (buf, sz) \<Rightarrow>
          (case unMarshal e r buf sz of
             None \<Rightarrow> None
           | Some (_, r', evs) \<Rightarrow> Some (r'\<lparr>r_unmarshallingDone := True\<rparr>, evs)))"

end
