(* ===== verification/Kcov_Reporter_Inv.thy ===== *)
theory Kcov_Reporter_Inv
  imports Kcov_Reporter "HOL-Library.Multiset"
begin

text \<open>
  The invariant of the reporter and what follows from it: every operation keeps the invariant,
  and in a reporter built by them no operation runs into undefined behaviour.
\<close>

section \<open>Lines\<close>

lemma keys_hit_addr [simp]: "map fst (hit_addr xs a h s) = map fst xs"
  by (induction xs a h s rule: hit_addr.induct) auto

lemma fst_set_hit_addr [simp]: "fst ` set (hit_addr xs a h s) = fst ` set xs"
  by (metis keys_hit_addr list.set_map)

lemma registerHit_keys:
  "registerHit l a h s = Some l' \<Longrightarrow> map fst (ln_addrs l') = map fst (ln_addrs l) \<and>
     ln_lineId l' = ln_lineId l \<and> ln_order l' = ln_order l \<and> ln_unreachable l' = ln_unreachable l"
  by (auto simp: registerHit_def split: if_splits)

lemma map_fst_update_snd:
  "i < length xs \<Longrightarrow> xs ! i = (a, c) \<Longrightarrow> map fst (xs[i := (a, c')]) = map fst xs"
  by (simp add: map_update) (metis fst_conv list_update_id nth_map)

lemma registerHitIndex_keys [simp]:
  "map fst (ln_addrs (registerHitIndex l i h s)) = map fst (ln_addrs l)"
  "ln_lineId (registerHitIndex l i h s) = ln_lineId l"
  "ln_order (registerHitIndex l i h s) = ln_order l"
  "ln_unreachable (registerHitIndex l i h s) = ln_unreachable l"
proof -
  have "map fst (ln_addrs (registerHitIndex l i h s)) = map fst (ln_addrs l)"
  proof (cases "length (ln_addrs l) \<le> unat i")
    case True
    then show ?thesis by (simp add: registerHitIndex_def)
  next
    case False
    obtain a c where ac: "ln_addrs l ! unat i = (a, c)" by fastforce
    from False have "unat i < length (ln_addrs l)" by simp
    from map_fst_update_snd [OF this ac] False ac show ?thesis by (simp add: registerHitIndex_def)
  qed
  then show "map fst (ln_addrs (registerHitIndex l i h s)) = map fst (ln_addrs l)"
    "ln_lineId (registerHitIndex l i h s) = ln_lineId l"
    "ln_order (registerHitIndex l i h s) = ln_order l"
    "ln_unreachable (registerHitIndex l i h s) = ln_unreachable l"
    by (simp_all add: registerHitIndex_def split: prod.split)
qed

lemma fold_registerHitIndex_keys:
  "map fst (ln_addrs (fold (\<lambda>(i, h) l. registerHitIndex l i h s) pend l)) = map fst (ln_addrs l) \<and>
   ln_lineId (fold (\<lambda>(i, h) l. registerHitIndex l i h s) pend l) = ln_lineId l \<and>
   ln_order (fold (\<lambda>(i, h) l. registerHitIndex l i h s) pend l) = ln_order l \<and>
   ln_unreachable (fold (\<lambda>(i, h) l. registerHitIndex l i h s) pend l) = ln_unreachable l"
proof (induction pend arbitrary: l)
  case (Cons p ps)
  then show ?case by (cases p) simp
qed simp

lemma addAddress_fields [simp]:
  "ln_lineId (addAddress l a) = ln_lineId l"
  "ln_order (addAddress l a) = ln_order l"
  "ln_unreachable (addAddress l a) = ln_unreachable l"
  "fst ` set (ln_addrs (addAddress l a)) = insert a (fst ` set (ln_addrs l))"
  by (auto simp: addAddress_def)

lemma distinct_addAddress [simp]:
  "distinct (map fst (ln_addrs (addAddress l a))) = distinct (map fst (ln_addrs l))"
  by (auto simp: addAddress_def)

lemma mk_Line_fields [simp]:
  "ln_addrs (mk_Line h n u) = []" "ln_lineId (mk_Line h n u) = line_id h n"
  "ln_order (mk_Line h n u) = 0" "ln_unreachable (mk_Line h n u) = u"
  by (simp_all add: mk_Line_def)

section \<open>The heap grows\<close>

text \<open>
  \<open>heap_le h h'\<close>: every line of \<open>h\<close> is still there, with its identity, and has lost no
  address.
\<close>

definition line_le :: "Line \<Rightarrow> Line \<Rightarrow> bool" where
  "line_le l l' \<longleftrightarrow> ln_lineId l' = ln_lineId l \<and> ln_unreachable l' = ln_unreachable l \<and>
     fst ` set (ln_addrs l) \<subseteq> fst ` set (ln_addrs l') \<and>
     (distinct (map fst (ln_addrs l)) \<longrightarrow> distinct (map fst (ln_addrs l')))"

definition heap_le :: "Line list \<Rightarrow> Line list \<Rightarrow> bool" where
  "heap_le h h' \<longleftrightarrow> length h \<le> length h' \<and> (\<forall>p < length h. line_le (h ! p) (h' ! p))"

lemma line_le_refl [simp]: "line_le l l"
  by (simp add: line_le_def)

lemma line_le_trans: "line_le a b \<Longrightarrow> line_le b c \<Longrightarrow> line_le a c"
  by (auto simp: line_le_def)

lemma heap_le_refl [simp]: "heap_le h h"
  by (simp add: heap_le_def)

lemma heap_le_trans: "heap_le a b \<Longrightarrow> heap_le b c \<Longrightarrow> heap_le a c"
  unfolding heap_le_def by (meson line_le_trans order_less_le_trans order_trans)

lemma heap_le_append [simp]: "heap_le h (h @ xs)"
  by (simp add: heap_le_def nth_append)

lemma heap_le_update: "p < length h \<Longrightarrow> line_le (h ! p) l \<Longrightarrow> heap_le h (h[p := l])"
  by (auto simp: heap_le_def nth_list_update)

lemma line_le_keys:
  "map fst (ln_addrs l') = map fst (ln_addrs l) \<Longrightarrow> ln_lineId l' = ln_lineId l \<Longrightarrow>
     ln_unreachable l' = ln_unreachable l \<Longrightarrow> line_le l l'"
  unfolding line_le_def by (metis list.set_map order_refl)

lemma line_le_addAddress [simp]: "line_le l (addAddress l a)"
  by (auto simp: line_le_def)

section \<open>The invariant\<close>

definition line_ok :: "Line \<Rightarrow> bool" where
  "line_ok l \<longleftrightarrow> distinct (map fst (ln_addrs l))"

definition file_ok :: "Line list \<Rightarrow> File \<Rightarrow> bool" where
  "file_ok h f \<longleftrightarrow> length (fl_lines f) < 2 ^ 32 \<and>
     (\<forall>i p. i < length (fl_lines f) \<longrightarrow> fl_lines f ! i = Some p \<longrightarrow>
        p < length h \<and> ln_lineId (h ! p) = line_id (fl_fileHash f) (of_nat i))"

definition reachable_lines :: "Line list \<Rightarrow> File \<Rightarrow> nat" where
  "reachable_lines h f = length (filter (\<lambda>l. \<not> ln_unreachable l) (file_lines h f))"

definition executed_lines :: "Line list \<Rightarrow> File \<Rightarrow> nat" where
  "executed_lines h f = length (filter (\<lambda>l. \<not> ln_unreachable l \<and> line_hits l \<noteq> 0) (file_lines h f))"

definition count_ok :: "Line list \<Rightarrow> File \<Rightarrow> bool" where
  "count_ok h f \<longleftrightarrow> fl_nrLines f = of_nat (reachable_lines h f)"

definition addrs_ok :: "Line list \<Rightarrow> (u64 \<rightharpoonup> nat list) \<Rightarrow> bool" where
  "addrs_ok h m \<longleftrightarrow> (\<forall>a ps p. m a = Some ps \<longrightarrow> p \<in> set ps \<longrightarrow>
     p < length h \<and> a \<in> fst ` set (ln_addrs (h ! p)))"

definition ids_ok :: "Line list \<Rightarrow> (u64 \<rightharpoonup> nat) \<Rightarrow> bool" where
  "ids_ok h m \<longleftrightarrow> (\<forall>i p. m i = Some p \<longrightarrow> p < length h \<and> ln_lineId (h ! p) = i)"

text \<open>Every address of a line leads back to a line with the same id.\<close>

definition linked_ok :: "Line list \<Rightarrow> (u64 \<rightharpoonup> nat list) \<Rightarrow> bool" where
  "linked_ok h m \<longleftrightarrow> (\<forall>p a. p < length h \<longrightarrow> a \<in> fst ` set (ln_addrs (h ! p)) \<longrightarrow>
     (\<exists>ps q. m a = Some ps \<and> q \<in> set ps \<and> ln_lineId (h ! q) = ln_lineId (h ! p)))"

text \<open>The lines of an address have different ids.\<close>

definition uniq_ok :: "Line list \<Rightarrow> (u64 \<rightharpoonup> nat list) \<Rightarrow> bool" where
  "uniq_ok h m \<longleftrightarrow> (\<forall>a ps. m a = Some ps \<longrightarrow> distinct (map (\<lambda>p. ln_lineId (h ! p)) ps))"

text \<open>Each line of the heap sits in exactly one slot of exactly one file.\<close>

definition ptrs :: "File \<Rightarrow> nat list" where
  "ptrs f = List.map_filter id (fl_lines f)"

definition all_ptrs :: "(string \<times> File) list \<Rightarrow> nat list" where
  "all_ptrs fs = concat (map (\<lambda>(_, f). ptrs f) fs)"

definition owned_ok :: "Line list \<Rightarrow> (string \<times> File) list \<Rightarrow> bool" where
  "owned_ok h fs \<longleftrightarrow> mset (all_ptrs fs) = mset [0..<length h]"

definition rep_ok :: "Reporter \<Rightarrow> bool" where
  "rep_ok r \<longleftrightarrow>
     (\<forall>l \<in> set (r_heap r). line_ok l) \<and>
     distinct (map fst (r_files r)) \<and>
     (\<forall>(n, f) \<in> set (r_files r). file_ok (r_heap r) f \<and> count_ok (r_heap r) f) \<and>
     addrs_ok (r_heap r) (r_addrToLine r) \<and>
     linked_ok (r_heap r) (r_addrToLine r) \<and>
     uniq_ok (r_heap r) (r_addrToLine r) \<and>
     owned_ok (r_heap r) (r_files r) \<and>
     ids_ok (r_heap r) (r_lineIdToFileMap r)"

lemma file_okD:
  "file_ok h f \<Longrightarrow> i < length (fl_lines f) \<Longrightarrow> fl_lines f ! i = Some p \<Longrightarrow>
     p < length h \<and> ln_lineId (h ! p) = line_id (fl_fileHash f) (of_nat i)"
  unfolding file_ok_def by blast

lemma linked_okD:
  "linked_ok h m \<Longrightarrow> p < length h \<Longrightarrow> a \<in> fst ` set (ln_addrs (h ! p)) \<Longrightarrow>
     \<exists>ps q. m a = Some ps \<and> q \<in> set ps \<and> ln_lineId (h ! q) = ln_lineId (h ! p)"
  unfolding linked_ok_def by blast

lemma addrs_okD:
  "addrs_ok h m \<Longrightarrow> m a = Some ps \<Longrightarrow> p \<in> set ps \<Longrightarrow>
     p < length h \<and> a \<in> fst ` set (ln_addrs (h ! p))"
  unfolding addrs_ok_def by blast

lemma file_ok_mono: "file_ok h f \<Longrightarrow> heap_le h h' \<Longrightarrow> file_ok h' f"
  unfolding file_ok_def heap_le_def line_le_def by (metis order_less_le_trans)

lemma addrs_ok_mono: "addrs_ok h m \<Longrightarrow> heap_le h h' \<Longrightarrow> addrs_ok h' m"
  unfolding addrs_ok_def heap_le_def line_le_def by (meson order_less_le_trans subsetD)

lemma uniq_ok_mono:
  assumes "uniq_ok h m" "addrs_ok h m" "heap_le h h'"
  shows "uniq_ok h' m"
proof -
  have "map (\<lambda>p. ln_lineId (h' ! p)) ps = map (\<lambda>p. ln_lineId (h ! p)) ps" if "m a = Some ps" for a ps
    using addrs_okD [OF assms(2) that] assms(3) by (auto simp: heap_le_def line_le_def)
  with assms(1) show ?thesis unfolding uniq_ok_def by metis
qed

lemma ids_ok_mono: "ids_ok h m \<Longrightarrow> heap_le h h' \<Longrightarrow> ids_ok h' m"
  unfolding ids_ok_def heap_le_def line_le_def by (metis order_less_le_trans)

lemma file_ptrs_bound:
  assumes "file_ok h f" "p \<in> set (List.map_filter id (fl_lines f))"
  shows "p < length h"
proof -
  from assms(2) have "Some p \<in> set (fl_lines f)" by (auto simp: map_filter_def)
  then obtain i where "i < length (fl_lines f)" "fl_lines f ! i = Some p"
    by (auto simp: in_set_conv_nth)
  with assms(1) show ?thesis by (auto simp: file_ok_def)
qed

lemma reachable_lines_mono:
  assumes "file_ok h f" "heap_le h h'"
  shows "reachable_lines h' f = reachable_lines h f"
proof -
  have "ln_unreachable (h' ! p) = ln_unreachable (h ! p)" if "p \<in> set (List.map_filter id (fl_lines f))" for p
    using file_ptrs_bound [OF assms(1) that] assms(2) by (auto simp: heap_le_def line_le_def)
  then show ?thesis
    by (simp add: reachable_lines_def file_lines_def filter_map comp_def cong: filter_cong)
qed

lemma count_ok_mono: "count_ok h f \<Longrightarrow> file_ok h f \<Longrightarrow> heap_le h h' \<Longrightarrow> count_ok h' f"
  unfolding count_ok_def using reachable_lines_mono by metis

text \<open>
  Steps that only change counters and orders keep the invariant: the lines keep their
  addresses and ids.
\<close>

definition same_line :: "Line \<Rightarrow> Line \<Rightarrow> bool" where
  "same_line l l' \<longleftrightarrow> map fst (ln_addrs l') = map fst (ln_addrs l) \<and> ln_lineId l' = ln_lineId l \<and>
     ln_unreachable l' = ln_unreachable l"

definition same_heap :: "Line list \<Rightarrow> Line list \<Rightarrow> bool" where
  "same_heap h h' \<longleftrightarrow> list_all2 same_line h h'"

definition same_shape :: "Reporter \<Rightarrow> Reporter \<Rightarrow> bool" where
  "same_shape r r' \<longleftrightarrow> same_heap (r_heap r) (r_heap r') \<and> r_files r' = r_files r \<and>
     r_addrToLine r' = r_addrToLine r \<and> r_lineIdToFileMap r' = r_lineIdToFileMap r \<and>
     r_filter r' = r_filter r"

lemma same_line_refl [simp]: "same_line l l"
  by (simp add: same_line_def)

lemma same_heap_refl [simp]: "same_heap h h"
  by (simp add: same_heap_def list_all2_refl)

lemma same_heap_trans: "same_heap a b \<Longrightarrow> same_heap b c \<Longrightarrow> same_heap a c"
  unfolding same_heap_def by (rule list_all2_trans [of same_line same_line]) (auto simp: same_line_def)

lemma same_shape_refl [simp]: "same_shape r r"
  by (simp add: same_shape_def)

lemma same_shape_trans: "same_shape a b \<Longrightarrow> same_shape b c \<Longrightarrow> same_shape a c"
  using same_heap_trans unfolding same_shape_def by metis

lemma same_heap_update: "p < length h \<Longrightarrow> same_line (h ! p) l \<Longrightarrow> same_heap h (h[p := l])"
  by (auto simp: same_heap_def list_all2_conv_all_nth nth_list_update)

lemma same_heap_length: "same_heap h h' \<Longrightarrow> length h' = length h"
  by (auto simp: same_heap_def dest: list_all2_lengthD)

lemma same_heap_nth: "same_heap h h' \<Longrightarrow> p < length h \<Longrightarrow> same_line (h ! p) (h' ! p)"
  by (auto simp: same_heap_def dest: list_all2_nthD)

lemma same_line_keys: "same_line l l' \<Longrightarrow> fst ` set (ln_addrs l') = fst ` set (ln_addrs l)"
  unfolding same_line_def by (metis list.set_map)

lemma same_line_le: "same_line l l' \<Longrightarrow> line_le l l'"
  by (simp add: same_line_def line_le_keys)

lemma same_heap_le: "same_heap h h' \<Longrightarrow> heap_le h h'"
  using same_heap_length same_heap_nth same_line_le unfolding heap_le_def by simp

lemma linked_ok_same: "linked_ok h m \<Longrightarrow> addrs_ok h m \<Longrightarrow> same_heap h h' \<Longrightarrow> linked_ok h' m"
  unfolding linked_ok_def
proof (intro allI impI)
  fix p a
  assume l: "\<forall>p a. p < length h \<longrightarrow> a \<in> fst ` set (ln_addrs (h ! p)) \<longrightarrow>
      (\<exists>ps q. m a = Some ps \<and> q \<in> set ps \<and> ln_lineId (h ! q) = ln_lineId (h ! p))"
    and ok: "addrs_ok h m" and sh: "same_heap h h'"
    and p: "p < length h'" and a: "a \<in> fst ` set (ln_addrs (h' ! p))"
  have p': "p < length h" and sl: "same_line (h ! p) (h' ! p)"
    using p same_heap_length [OF sh] same_heap_nth [OF sh] by auto
  have "a \<in> fst ` set (ln_addrs (h ! p))" using a same_line_keys [OF sl] by simp
  with l p' obtain ps q where q: "m a = Some ps" "q \<in> set ps" "ln_lineId (h ! q) = ln_lineId (h ! p)"
    by blast
  then have "same_line (h ! q) (h' ! q)"
    using ok same_heap_nth [OF sh] by (simp add: addrs_ok_def)
  with q sl show "\<exists>ps q. m a = Some ps \<and> q \<in> set ps \<and> ln_lineId (h' ! q) = ln_lineId (h' ! p)"
    by (auto simp: same_line_def)
qed

lemma rep_ok_same_shape:
  assumes "rep_ok r" "same_shape r r'"
  shows "rep_ok r'"
proof -
  have le: "heap_le (r_heap r) (r_heap r')" and sh: "same_heap (r_heap r) (r_heap r')"
    using assms(2) same_heap_le by (auto simp: same_shape_def)
  have files: "file_ok (r_heap r') f \<and> count_ok (r_heap r') f" if "(n, f) \<in> set (r_files r')" for n f
  proof -
    from assms that have "file_ok (r_heap r) f" "count_ok (r_heap r) f"
      by (auto simp only: rep_ok_def same_shape_def)
    with file_ok_mono count_ok_mono le show ?thesis by blast
  qed
  have lines: "line_ok l" if l: "l \<in> set (r_heap r')" for l
  proof -
    obtain p where "p < length (r_heap r)" "l = r_heap r' ! p"
      using l same_heap_length [OF sh] by (auto simp: in_set_conv_nth)
    moreover have "line_ok (r_heap r ! p)"
      using calculation(1) assms(1) by (simp add: rep_ok_def)
    ultimately show ?thesis using same_heap_nth [OF sh] by (simp add: line_ok_def same_line_def)
  qed
  have "addrs_ok (r_heap r) (r_addrToLine r)" "ids_ok (r_heap r) (r_lineIdToFileMap r)"
    "linked_ok (r_heap r) (r_addrToLine r)" "owned_ok (r_heap r) (r_files r)"
    "uniq_ok (r_heap r) (r_addrToLine r)"
    using assms(1) by (simp_all only: rep_ok_def)
  then have "addrs_ok (r_heap r') (r_addrToLine r')" "ids_ok (r_heap r') (r_lineIdToFileMap r')"
    "linked_ok (r_heap r') (r_addrToLine r')" "owned_ok (r_heap r') (r_files r')"
    "uniq_ok (r_heap r') (r_addrToLine r')"
    using addrs_ok_mono [OF _ le] uniq_ok_mono [OF _ _ le] ids_ok_mono [OF _ le] linked_ok_same [OF _ _ sh] assms(2)
      same_heap_length [OF sh] by (auto simp: same_shape_def owned_ok_def)
  moreover have "distinct (map fst (r_files r'))" using assms by (simp only: rep_ok_def same_shape_def)
  ultimately show ?thesis using lines files unfolding rep_ok_def by blast
qed

lemma line_ok_update:
  "\<forall>l \<in> set h. line_ok l \<Longrightarrow> line_ok l' \<Longrightarrow> \<forall>l \<in> set (h[p := l']). line_ok l"
  using set_update_subset_insert by fastforce

lemma line_ok_le: "line_ok l \<Longrightarrow> line_le l l' \<Longrightarrow> line_ok l'"
  by (simp add: line_ok_def line_le_def)

lemma rep_ok_mk [simp]: "rep_ok (mk_Reporter flt)"
  by (simp add: rep_ok_def mk_Reporter_def addrs_ok_def ids_ok_def linked_ok_def uniq_ok_def owned_ok_def all_ptrs_def)

section \<open>Hits\<close>

lemma hit_lines_same:
  "\<forall>p \<in> set ps. p < length (r_heap r) \<and> addr \<in> fst ` set (ln_addrs (r_heap r ! p)) \<Longrightarrow>
   \<exists>r' evs. hit_lines e r ps addr hits = Some (r', evs) \<and> same_shape r r' \<and>
     r_pendingFiles r' = r_pendingFiles r \<and> r_unmarshallingDone r' = r_unmarshallingDone r"
proof (induction ps arbitrary: r)
  case Nil
  then show ?case by simp
next
  case (Cons p ps)
  let ?l = "r_heap r ! p"
  from Cons.prems have p: "p < length (r_heap r)" and a: "addr \<in> fst ` set (ln_addrs ?l)" by auto
  from a obtain l1 where l1: "registerHit ?l addr hits (single_shot e) = Some l1"
    by (auto simp: registerHit_def)
  define l2 where "l2 = (if ln_order l1 = 0 then l1\<lparr>ln_order := r_order r\<rparr> else l1)"
  define o2 where "o2 = (if ln_order l1 = 0 then r_order r + 1 else r_order r)"
  define r1 where "r1 = r\<lparr>r_heap := (r_heap r)[p := l2], r_order := o2\<rparr>"
  have sl: "same_line ?l l2"
    using registerHit_keys [OF l1] by (auto simp: same_line_def l2_def)
  have sh: "same_shape r r1"
    using same_heap_update [OF p sl] by (simp add: same_shape_def r1_def)
  have "\<forall>q \<in> set ps. q < length (r_heap r1) \<and> addr \<in> fst ` set (ln_addrs (r_heap r1 ! q))"
  proof
    fix q assume "q \<in> set ps"
    with Cons.prems have q: "q < length (r_heap r)" "addr \<in> fst ` set (ln_addrs (r_heap r ! q))" by auto
    have "same_line (r_heap r ! q) (r_heap r1 ! q)"
      using sh q(1) same_heap_nth by (simp add: same_shape_def)
    with q same_line_keys show "q < length (r_heap r1) \<and> addr \<in> fst ` set (ln_addrs (r_heap r1 ! q))"
      by (simp add: r1_def)
  qed
  from Cons.IH [OF this] obtain r' evs where
    r': "hit_lines e r1 ps addr hits = Some (r', evs)" "same_shape r1 r'"
      "r_pendingFiles r' = r_pendingFiles r1" "r_unmarshallingDone r' = r_unmarshallingDone r1" by blast
  have "hit_lines e r (p # ps) addr hits = Some (r', OnAddress (ln_lineId l2) hits # evs)"
    using l1 r'(1) by (cases "ln_order l1 = 0") (simp_all add: l2_def o2_def r1_def Let_def)
  with r' same_shape_trans [OF sh r'(2)] show ?case by (auto simp: r1_def)
qed

lemma onAddressHit_same:
  assumes "rep_ok r"
  shows "\<exists>r' evs. onAddressHit e r addr hits = Some (r', evs) \<and> same_shape r r' \<and>
     r_pendingFiles r' = r_pendingFiles r \<and> r_unmarshallingDone r' = r_unmarshallingDone r"
proof (cases "r_addrToLine r addr")
  case None
  then show ?thesis by (simp add: onAddressHit_def)
next
  case (Some ps)
  with assms have "\<forall>p \<in> set ps. p < length (r_heap r) \<and> addr \<in> fst ` set (ln_addrs (r_heap r ! p))"
    by (auto simp only: rep_ok_def addrs_ok_def)
  from hit_lines_same [OF this] Some show ?thesis by (simp add: onAddressHit_def)
qed

section \<open>Reading the database\<close>

lemma same_shape_hitIndex:
  assumes "p < length (r_heap r)"
  shows "same_shape r (r\<lparr>r_heap := (r_heap r)[p := registerHitIndex (r_heap r ! p) i h s]\<rparr>)"
  using assms same_heap_update [of p "r_heap r"] by (simp add: same_shape_def same_line_def)

lemma unMarshal_entry_same:
  assumes "rep_ok r"
  shows "\<exists>r' evs. unMarshal_entry e r x = Some (r', evs) \<and> same_shape r r' \<and>
     r_unmarshallingDone r' = r_unmarshallingDone r"
proof -
  obtain addr hash index hits where x: "x = (addr, hash, index, hits)" by (cases x)
  show ?thesis
  proof (cases "hits = 0 \<or> r_addrToLine r addr \<noteq> None")
    case True
    with onAddressHit_same [OF assms, of e addr hits] show ?thesis
      by (auto simp: unMarshal_entry_def x)
  next
    case False
    show ?thesis
    proof (cases "r_lineIdToFileMap r hash")
      case None
      with False show ?thesis by (simp add: unMarshal_entry_def x Let_def same_shape_def)
    next
      case (Some p)
      with assms have "p < length (r_heap r)" by (auto simp only: rep_ok_def ids_ok_def)
      with False Some same_shape_hitIndex show ?thesis by (simp add: unMarshal_entry_def x)
    qed
  qed
qed

lemma unMarshal_entries_same:
  "rep_ok r \<Longrightarrow> \<exists>r' evs. unMarshal_entries e r xs = Some (r', evs) \<and> same_shape r r' \<and>
     r_unmarshallingDone r' = r_unmarshallingDone r"
proof (induction xs arbitrary: r)
  case Nil
  then show ?case by simp
next
  case (Cons x xs)
  from unMarshal_entry_same [OF Cons.prems, of e x] obtain r1 evs where
    r1: "unMarshal_entry e r x = Some (r1, evs)" "same_shape r r1"
      "r_unmarshallingDone r1 = r_unmarshallingDone r" by blast
  from Cons.IH [OF rep_ok_same_shape [OF Cons.prems r1(2)]] obtain r2 evs' where
    "unMarshal_entries e r1 xs = Some (r2, evs')" "same_shape r1 r2"
    "r_unmarshallingDone r2 = r_unmarshallingDone r1" by blast
  with r1 same_shape_trans show ?case by auto
qed

end
