(* ===== verification/Kcov_Reporter_Lines.thy ===== *)
theory Kcov_Reporter_Lines
  imports Kcov_Reporter_Inv
begin

text \<open>
  Registering lines keeps the invariant of the reporter: \<open>addLine\<close>, the sweep for excluded
  lines, and the stages of \<open>onLine\<close>. The only undefined behaviour left is a line number of
  \<open>2 ^ 32 - 1\<close>, where \<open>lineNr + 1\<close> wraps to 0.
\<close>

section \<open>Slots of a file\<close>

lemma map_filter_None [simp]: "List.map_filter id (replicate n None) = []"
  by (induction n) auto

lemma map_filter_append [simp]:
  "List.map_filter f (xs @ ys) = List.map_filter f xs @ List.map_filter f ys"
  by (simp add: map_filter_def)

lemma mset_map_filter_update:
  assumes "i < length xs" "xs ! i = None"
  shows "mset (List.map_filter id (xs[i := Some p])) = add_mset p (mset (List.map_filter id xs))"
proof -
  have "xs[i := Some p] = take i xs @ Some p # drop (Suc i) xs"
    using assms(1) by (rule upd_conv_take_nth_drop)
  moreover have "xs = take i xs @ None # drop (Suc i) xs"
    using id_take_nth_drop [OF assms(1)] assms(2) by simp
  then have "List.map_filter id xs = List.map_filter id (take i xs) @ List.map_filter id (drop (Suc i) xs)"
    by (metis append_Nil id_apply map_filter_append map_filter_simps option.simps(4))
  ultimately show ?thesis by simp
qed

lemma length_resize [simp]: "length (resize n xs) = n"
  by (simp add: resize_def)

lemma resize_ge: "length xs \<le> n \<Longrightarrow> resize n xs = xs @ replicate (n - length xs) None"
  by (simp add: resize_def)

lemma unat_Suc_no_wrap: "(n :: u32) \<noteq> -1 \<Longrightarrow> unat (n + 1) = Suc (unat n)"
  by (metis add.commute unatSuc add_eq_0_iff2 add.inverse_inverse neg_equal_iff_equal minus_equation_iff eq_neg_iff_add_eq_0)

lemma unat_minus_1_u32: "unat (-1 :: u32) = 2 ^ 32 - 1"
  by (simp add: unsigned_minus_1_eq_mask mask_eq_exp_minus_1)

lemma of_nat_unat_u32: "i < 2 ^ 32 \<Longrightarrow> unat (of_nat i :: u32) = i"
  by (simp add: unat_of_nat)

text \<open>What \<open>addLine\<close> does with a free slot.\<close>

lemma addLine_free:
  assumes nr: "lineNr \<noteq> -1" and free: "getLine f lineNr = None" and len: "length (fl_lines f) < 2 ^ 32"
  obtains f' where "addLine h f lineNr p = Some f'" "fl_fileHash f' = fl_fileHash f"
    "length (fl_lines f') = max (length (fl_lines f)) (Suc (unat lineNr))"
    "length (fl_lines f') < 2 ^ 32"
    "\<And>i. i < length (fl_lines f') \<Longrightarrow> fl_lines f' ! i =
        (if i = unat lineNr then Some p else if i < length (fl_lines f) then fl_lines f ! i else None)"
    "mset (ptrs f') = add_mset p (mset (ptrs f))"
    "fl_nrLines f' = (if \<not> ln_unreachable (h ! p) then fl_nrLines f + 1 else fl_nrLines f)"
proof -
  let ?n = "unat lineNr"
  define ls where "ls = (if ?n \<ge> length (fl_lines f) then resize (unat (lineNr + 1)) (fl_lines f) else fl_lines f)"
  have ls: "ls = fl_lines f @ replicate (Suc ?n - length (fl_lines f)) None"
    using unat_Suc_no_wrap [OF nr] by (auto simp: ls_def resize_ge)
  have lls: "length ls = max (length (fl_lines f)) (Suc ?n)" by (simp add: ls)
  have n: "?n < length ls" by (simp add: lls)
  have freeslot: "ls ! ?n = None"
    using free by (auto simp: ls nth_append getLine_def split: if_splits)
  have bound: "length ls < 2 ^ 32"
  proof -
    have "unat (lineNr + 1) < 2 ^ LENGTH(32)" by (rule unsigned_less)
    then have "Suc ?n < 2 ^ 32" using unat_Suc_no_wrap [OF nr] by simp
    with len show ?thesis by (simp add: lls)
  qed
  define f' where "f' = f\<lparr>fl_lines := ls[?n := Some p],
      fl_nrLines := (if \<not> ln_unreachable (h ! p) then fl_nrLines f + 1 else fl_nrLines f)\<rparr>"
  have "addLine h f lineNr p = Some f'"
    using n by (simp add: addLine_def f'_def Let_def flip: ls_def)
  moreover have "mset (ptrs f') = add_mset p (mset (ptrs f))"
    using mset_map_filter_update [OF n freeslot] by (simp add: ptrs_def f'_def ls)
  moreover have "fl_lines f' ! i =
        (if i = ?n then Some p else if i < length (fl_lines f) then fl_lines f ! i else None)"
    if "i < length (fl_lines f')" for i
    using that by (auto simp: f'_def nth_list_update ls nth_append)
  ultimately show ?thesis
    using that [of f'] lls bound by (simp add: f'_def)
qed

section \<open>Lines in a file\<close>

lemma mset_file_lines: "mset (file_lines h f) = image_mset (\<lambda>p. h ! p) (mset (ptrs f))"
  by (simp add: file_lines_def ptrs_def)

lemma reachable_lines_mset:
  "reachable_lines h f = size (filter_mset (\<lambda>l. \<not> ln_unreachable l) (mset (file_lines h f)))"
  by (simp add: reachable_lines_def flip: mset_filter)

lemma new_line_ok:
  assumes f: "file_ok h f" "count_ok h f" and nr: "lineNr \<noteq> -1" and free: "getLine f lineNr = None"
    and h': "h' = h @ [mk_Line (fl_fileHash f) lineNr u]"
  obtains f' where "addLine h' f lineNr (length h) = Some f'" "fl_fileHash f' = fl_fileHash f"
    "file_ok h' f'" "count_ok h' f'" "mset (ptrs f') = add_mset (length h) (mset (ptrs f))"
    "length (fl_lines f') = max (length (fl_lines f)) (Suc (unat lineNr))"
    "fl_lines f' ! unat lineNr = Some (length h)"
proof -
  have len: "length (fl_lines f) < 2 ^ 32" using f(1) by (simp add: file_ok_def)
  have le: "heap_le h h'" by (simp add: h')
  from addLine_free [OF nr free len, of h' "length h"] obtain f' where
    f': "addLine h' f lineNr (length h) = Some f'" "fl_fileHash f' = fl_fileHash f"
      "length (fl_lines f') = max (length (fl_lines f)) (Suc (unat lineNr))"
      "length (fl_lines f') < 2 ^ 32"
      "\<And>i. i < length (fl_lines f') \<Longrightarrow> fl_lines f' ! i =
        (if i = unat lineNr then Some (length h) else if i < length (fl_lines f) then fl_lines f ! i else None)"
      "mset (ptrs f') = add_mset (length h) (mset (ptrs f))"
      "fl_nrLines f' = (if \<not> ln_unreachable (h' ! length h) then fl_nrLines f + 1 else fl_nrLines f)"
    by blast
  have "p < length h' \<and> ln_lineId (h' ! p) = line_id (fl_fileHash f') (of_nat i)"
    if i: "i < length (fl_lines f')" "fl_lines f' ! i = Some p" for i p
  proof (cases "i = unat lineNr")
    case True
    then show ?thesis using i f'(5) [OF i(1)] f'(2) by (simp add: h')
  next
    case False
    with i f'(5) [OF i(1)] have "i < length (fl_lines f)" "fl_lines f ! i = Some p"
      by (auto split: if_splits)
    with file_ok_mono [OF f(1) le] f'(2) show ?thesis by (simp add: file_ok_def)
  qed
  then have "file_ok h' f'" using f'(4) by (simp add: file_ok_def)
  moreover have "count_ok h' f'"
  proof -
    have "reachable_lines h' f' = reachable_lines h' f + (if u then 0 else 1)"
      by (simp add: reachable_lines_mset mset_file_lines f'(6) h')
    also have "reachable_lines h' f = reachable_lines h f"
      by (rule reachable_lines_mono [OF f(1) le])
    finally show ?thesis
      using f(2) f'(7) by (simp add: count_ok_def h')
  qed
  moreover have "fl_lines f' ! unat lineNr = Some (length h)"
    using f'(3) f'(5) [of "unat lineNr"] by simp
  ultimately show ?thesis using that f' by blast
qed

lemma getLine_beyond: "length (fl_lines f) \<le> unat nr \<Longrightarrow> getLine f nr = None"
  by (simp add: getLine_def)

section \<open>The sweep for excluded lines\<close>

text \<open>
  Starting from a file whose lines are the heap from \<open>k\<close> on, the sweep ends in one of the same
  kind; the lines it makes have no addresses.
\<close>

definition sweep_ok :: "nat \<Rightarrow> Line list \<Rightarrow> File \<Rightarrow> bool" where
  "sweep_ok k h f \<longleftrightarrow> k \<le> length h \<and> file_ok h f \<and> count_ok h f \<and> mset (ptrs f) = mset [k..<length h]"

lemma mark_unreachable_ok:
  assumes "sweep_ok k h f" "length (fl_lines f) \<le> unat nr" "unat nr + length ls < 2 ^ 32"
  shows "\<exists>h' f' flt'. mark_unreachable fp nr ls (h, f, flt) = Some (h', f', flt') \<and>
     sweep_ok k h' f' \<and> fl_fileHash f' = fl_fileHash f \<and>
     (\<exists>new. h' = h @ new \<and> (\<forall>l \<in> set new. ln_addrs l = [])) \<and>
     (\<forall>g. runFilters rp flt' g = runFilters rp flt g)"
  using assms
proof (induction ls arbitrary: h f flt nr)
  case Nil
  then show ?case by simp
next
  case (Cons l ls)
  obtain ok flt1 where fl: "runLineFilters flt fp l = (ok, flt1)" by fastforce
  have rf: "runFilters rp flt1 g = runFilters rp flt g" for g
    using runFilters_runLineFilters [of rp flt fp l] fl by simp
  have nr: "nr \<noteq> -1" using Cons.prems(3) unat_minus_1_u32 by auto
  then have nr1: "unat (nr + 1) = Suc (unat nr)" by (rule unat_Suc_no_wrap)
  show ?case
  proof (cases ok)
    case True
    have "length (fl_lines f) \<le> unat (nr + 1)" "unat (nr + 1) + length ls < 2 ^ 32"
      using Cons.prems nr1 by auto
    from Cons.IH [OF Cons.prems(1) this, of flt1] fl True rf show ?thesis by auto
  next
    case False
    let ?h = "h @ [mk_Line (fl_fileHash f) nr True]"
    have f: "file_ok h f" "count_ok h f" and k: "k \<le> length h" and pt: "mset (ptrs f) = mset [k..<length h]"
      using Cons.prems(1) by (auto simp: sweep_ok_def)
    from new_line_ok [OF f nr getLine_beyond [OF Cons.prems(2)] refl] obtain f1 where
      f1: "addLine ?h f nr (length h) = Some f1" "fl_fileHash f1 = fl_fileHash f"
        "file_ok ?h f1" "count_ok ?h f1" "mset (ptrs f1) = add_mset (length h) (mset (ptrs f))"
        "length (fl_lines f1) = max (length (fl_lines f)) (Suc (unat nr))" by metis
    have sw: "sweep_ok k ?h f1" using f1 k pt by (simp add: sweep_ok_def)
    have len: "length (fl_lines f1) \<le> unat (nr + 1)" "unat (nr + 1) + length ls < 2 ^ 32"
      using Cons.prems nr1 f1(6) by auto
    from Cons.IH [OF sw len, of flt1] obtain h' f' flt' where
      m: "mark_unreachable fp (nr + 1) ls (?h, f1, flt1) = Some (h', f', flt')"
      and sw': "sweep_ok k h' f'" "fl_fileHash f' = fl_fileHash f1"
      and new: "\<exists>new. h' = ?h @ new \<and> (\<forall>l \<in> set new. ln_addrs l = [])"
      and rf': "\<forall>g. runFilters rp flt' g = runFilters rp flt1 g" by blast
    have "mark_unreachable fp nr (l # ls) (h, f, flt) = Some (h', f', flt')"
      using fl False f1(1) m by (simp add: Let_def)
    moreover from new obtain ns where "h' = ?h @ ns" "\<forall>l \<in> set ns. ln_addrs l = []" by blast
    then have "h' = h @ (mk_Line (fl_fileHash f) nr True # ns)"
      "\<forall>l \<in> set (mk_Line (fl_fileHash f) nr True # ns). ln_addrs l = []" by auto
    ultimately show ?thesis using sw' f1(2) rf rf' by metis
  qed
qed

lemma sweep_ok_new: "sweep_ok (length h) h (mk_File hash)"
  by (simp add: sweep_ok_def mk_File_def file_ok_def count_ok_def reachable_lines_def file_lines_def ptrs_def)

section \<open>The stages of \<open>onLine\<close>\<close>

lemma rep_okD:
  assumes "rep_ok r"
  shows "\<forall>l \<in> set (r_heap r). line_ok l" "distinct (map fst (r_files r))"
    "\<And>n f. (n, f) \<in> set (r_files r) \<Longrightarrow> file_ok (r_heap r) f"
    "\<And>n f. (n, f) \<in> set (r_files r) \<Longrightarrow> count_ok (r_heap r) f"
    "addrs_ok (r_heap r) (r_addrToLine r)" "linked_ok (r_heap r) (r_addrToLine r)"
    "owned_ok (r_heap r) (r_files r)" "ids_ok (r_heap r) (r_lineIdToFileMap r)"
    "uniq_ok (r_heap r) (r_addrToLine r)"
  using assms unfolding rep_ok_def by blast+

lemma rep_okI:
  assumes "\<forall>l \<in> set (r_heap r). line_ok l" "distinct (map fst (r_files r))"
    "\<And>n f. (n, f) \<in> set (r_files r) \<Longrightarrow> file_ok (r_heap r) f \<and> count_ok (r_heap r) f"
    "addrs_ok (r_heap r) (r_addrToLine r)" "linked_ok (r_heap r) (r_addrToLine r)"
    "owned_ok (r_heap r) (r_files r)" "ids_ok (r_heap r) (r_lineIdToFileMap r)"
    "uniq_ok (r_heap r) (r_addrToLine r)"
  shows "rep_ok r"
  using assms unfolding rep_ok_def by blast

lemma files_ok_mono:
  assumes "rep_ok r" "heap_le (r_heap r) h" "(n, f) \<in> set (r_files r)"
  shows "file_ok h f \<and> count_ok h f"
  using rep_okD(3,4) [OF assms(1,3)] assms(2) file_ok_mono count_ok_mono by blast

lemma linked_ok_append:
  assumes "linked_ok h m" "addrs_ok h m" "\<forall>l \<in> set new. ln_addrs l = []"
  shows "linked_ok (h @ new) m"
  unfolding linked_ok_def
proof (intro allI impI)
  fix p a
  assume p: "p < length (h @ new)" and a: "a \<in> fst ` set (ln_addrs ((h @ new) ! p))"
  have "p < length h"
  proof (rule ccontr)
    assume "\<not> p < length h"
    with p have "(h @ new) ! p \<in> set new" by (auto simp: nth_append)
    with assms(3) a show False by simp
  qed
  moreover from this a have "a \<in> fst ` set (ln_addrs (h ! p))" by (simp add: nth_append)
  ultimately obtain ps q where "m a = Some ps" "q \<in> set ps" "ln_lineId (h ! q) = ln_lineId (h ! p)"
    using linked_okD [OF assms(1)] by blast
  moreover from this have "q < length h" using addrs_okD [OF assms(2)] by blast
  ultimately show "\<exists>ps q. m a = Some ps \<and> q \<in> set ps \<and>
      ln_lineId ((h @ new) ! q) = ln_lineId ((h @ new) ! p)"
    using \<open>p < length h\<close> by (auto simp: nth_append)
qed

lemma all_ptrs_new:
  "map_of fs k = None \<Longrightarrow> mset (all_ptrs (alist_upd k f fs)) = mset (all_ptrs fs) + mset (ptrs f)"
proof (induction fs)
  case (Cons x fs)
  then show ?case by (cases x) (simp add: all_ptrs_def split: if_splits)
qed (simp add: all_ptrs_def)

lemma all_ptrs_upd:
  "map_of fs k = Some f \<Longrightarrow> mset (ptrs f') = add_mset p (mset (ptrs f)) \<Longrightarrow>
     mset (all_ptrs (alist_upd k f' fs)) = add_mset p (mset (all_ptrs fs))"
proof (induction fs)
  case (Cons x fs)
  then show ?case by (cases x) (auto simp: all_ptrs_def split: if_splits)
qed simp

lemma ensure_file_ok:
  assumes "rep_ok r" "length (e_getLines e fp) < 2 ^ 32 - 1"
  shows "\<exists>r1 f. ensure_file e r fp = Some (r1, f) \<and> rep_ok r1 \<and> map_of (r_files r1) fp = Some f \<and>
     (\<exists>new. r_heap r1 = r_heap r @ new) \<and> r_addrToLine r1 = r_addrToLine r \<and>
     r_pendingFiles r1 = r_pendingFiles r \<and> r_order r1 = r_order r \<and>
     r_unmarshallingDone r1 = r_unmarshallingDone r \<and> r_lineIdToFileMap r1 = r_lineIdToFileMap r"
proof (cases "map_of (r_files r) fp")
  case (Some f)
  with assms show ?thesis by (simp add: ensure_file_def)
next
  case None
  have sw0: "sweep_ok (length (r_heap r)) (r_heap r) (mk_File (fileHash e fp))" by (rule sweep_ok_new)
  have "length (fl_lines (mk_File (fileHash e fp))) \<le> unat (1 :: u32)"
    "unat (1 :: u32) + length (e_getLines e fp) < 2 ^ 32"
    using assms(2) by (simp_all add: mk_File_def)
  from mark_unreachable_ok [OF sw0 this]
  obtain h f flt new where
    m: "mark_unreachable fp 1 (e_getLines e fp) (r_heap r, mk_File (fileHash e fp), r_filter r) = Some (h, f, flt)"
    and sw: "sweep_ok (length (r_heap r)) h f" and h: "h = r_heap r @ new" "\<forall>l \<in> set new. ln_addrs l = []"
    by blast
  let ?r = "r\<lparr>r_heap := h, r_filter := flt, r_files := alist_upd fp f (r_files r)\<rparr>"
  have le: "heap_le (r_heap r) h" by (simp add: h(1))
  have "rep_ok ?r"
  proof (rule rep_okI)
    show "\<forall>l \<in> set (r_heap ?r). line_ok l"
      using rep_okD(1) [OF assms(1)] h by (auto simp: line_ok_def)
    show "distinct (map fst (r_files ?r))" using rep_okD(2) [OF assms(1)] by simp
    show "file_ok (r_heap ?r) g \<and> count_ok (r_heap ?r) g" if "(n, g) \<in> set (r_files ?r)" for n g
      using that files_ok_mono [OF assms(1) le] sw rep_okD(2) [OF assms(1)]
      by (auto simp: set_alist_upd sweep_ok_def)
    show "addrs_ok (r_heap ?r) (r_addrToLine ?r)" "ids_ok (r_heap ?r) (r_lineIdToFileMap ?r)"
      using addrs_ok_mono [OF rep_okD(5) [OF assms(1)] le] ids_ok_mono [OF rep_okD(8) [OF assms(1)] le]
      by simp_all
    show "uniq_ok (r_heap ?r) (r_addrToLine ?r)"
      using uniq_ok_mono [OF rep_okD(9,5) [OF assms(1)] le] by simp
    show "linked_ok (r_heap ?r) (r_addrToLine ?r)"
      using linked_ok_append [OF rep_okD(6,5) [OF assms(1)] h(2)] h(1) by simp
    have "[0..<length h] = [0..<length (r_heap r)] @ [length (r_heap r)..<length h]"
      using upt_add_eq_append [of 0 "length (r_heap r)" "length new"] h(1) by simp
    then have "mset [0..<length (r_heap r)] + mset [length (r_heap r)..<length h] = mset [0..<length h]"
      by (simp only: mset_append)
    then show "owned_ok (r_heap ?r) (r_files ?r)"
      using rep_okD(7) [OF assms(1)] all_ptrs_new [OF None] sw by (simp add: owned_ok_def sweep_ok_def)
  qed
  with m None h show ?thesis by (simp add: ensure_file_def)
qed

lemma ensure_line_ok:
  assumes "rep_ok r" "map_of (r_files r) fp = Some f" "lineNr \<noteq> -1"
  shows "\<exists>r2 p f2. ensure_line r f fp lineNr = Some (r2, p) \<and> rep_ok r2 \<and> p < length (r_heap r2) \<and>
     map_of (r_files r2) fp = Some f2 \<and> getLine f2 lineNr = Some p \<and>
     (\<exists>new. r_heap r2 = r_heap r @ new) \<and> r_addrToLine r2 = r_addrToLine r \<and>
     r_pendingFiles r2 = r_pendingFiles r \<and> r_order r2 = r_order r \<and>
     r_unmarshallingDone r2 = r_unmarshallingDone r"
proof (cases "getLine f lineNr")
  case (Some p)
  have "file_ok (r_heap r) f" using rep_okD(3) [OF assms(1) map_of_SomeD [OF assms(2)]] .
  then have "p < length (r_heap r)"
    using Some by (auto simp: getLine_def not_le dest: file_okD split: if_splits)
  with Some assms show ?thesis by (auto simp: ensure_line_def)
next
  case None
  have f: "file_ok (r_heap r) f" "count_ok (r_heap r) f"
    using rep_okD(3,4) [OF assms(1) map_of_SomeD [OF assms(2)]] by auto
  let ?l = "mk_Line (fl_fileHash f) lineNr False"
  let ?h = "r_heap r @ [?l]"
  from new_line_ok [OF f assms(3) None refl] obtain f1 where
    f1: "addLine ?h f lineNr (length (r_heap r)) = Some f1" "fl_fileHash f1 = fl_fileHash f"
      "file_ok ?h f1" "count_ok ?h f1" "mset (ptrs f1) = add_mset (length (r_heap r)) (mset (ptrs f))"
      "length (fl_lines f1) = max (length (fl_lines f)) (Suc (unat lineNr))"
      "fl_lines f1 ! unat lineNr = Some (length (r_heap r))"
    by metis
  let ?r = "r\<lparr>r_heap := ?h, r_files := alist_upd fp f1 (r_files r)\<rparr>"
  have le: "heap_le (r_heap r) ?h" by simp
  have "rep_ok ?r"
  proof (rule rep_okI)
    show "\<forall>l \<in> set (r_heap ?r). line_ok l"
      using rep_okD(1) [OF assms(1)] by (auto simp: line_ok_def)
    show "distinct (map fst (r_files ?r))" using rep_okD(2) [OF assms(1)] by simp
    show "file_ok (r_heap ?r) g \<and> count_ok (r_heap ?r) g" if "(n, g) \<in> set (r_files ?r)" for n g
      using that files_ok_mono [OF assms(1) le] f1(3,4) rep_okD(2) [OF assms(1)]
      by (auto simp: set_alist_upd)
    show "addrs_ok (r_heap ?r) (r_addrToLine ?r)" "ids_ok (r_heap ?r) (r_lineIdToFileMap ?r)"
      using addrs_ok_mono [OF rep_okD(5) [OF assms(1)] le] ids_ok_mono [OF rep_okD(8) [OF assms(1)] le]
      by simp_all
    show "uniq_ok (r_heap ?r) (r_addrToLine ?r)"
      using uniq_ok_mono [OF rep_okD(9,5) [OF assms(1)] le] by simp
    show "linked_ok (r_heap ?r) (r_addrToLine ?r)"
      using linked_ok_append [OF rep_okD(6,5) [OF assms(1)], of "[?l]"] by simp
    show "owned_ok (r_heap ?r) (r_files ?r)"
      using rep_okD(7) [OF assms(1)] all_ptrs_upd [OF assms(2) f1(5)] by (simp add: owned_ok_def)
  qed
  moreover have "getLine f1 lineNr = Some (length (r_heap r))" using f1(6,7) by (simp add: getLine_def)
  ultimately show ?thesis using None f1(1) by (simp add: ensure_line_def Let_def)
qed

text \<open>A list entered for one address keeps the address table right.\<close>

lemma addrs_ok_link:
  assumes "addrs_ok h m" "\<And>q. q \<in> set new \<Longrightarrow> q < length h \<and> a \<in> fst ` set (ln_addrs (h ! q))"
  shows "addrs_ok h (m(a \<mapsto> new))"
  unfolding addrs_ok_def
proof (intro allI impI)
  fix b ps q assume "(m(a \<mapsto> new)) b = Some ps" "q \<in> set ps"
  then consider "b = a" "q \<in> set new" | "m b = Some ps" "q \<in> set ps" by (auto split: if_splits)
  then show "q < length h \<and> b \<in> fst ` set (ln_addrs (h ! q))" using assms(2) addrs_okD [OF assms(1)] by cases auto
qed

lemma linked_ok_link:
  assumes linked: "linked_ok heap m" and p: "p < length heap" and h: "h = heap[p := addAddress (heap ! p) a]"
    and id: "\<And>q. ln_lineId (h ! q) = ln_lineId (heap ! q)"
    and new: "\<And>ps. m a = Some ps \<Longrightarrow> set ps \<subseteq> set new" "\<exists>q' \<in> set new. ln_lineId (h ! q') = ln_lineId (h ! p)"
  shows "linked_ok h (m(a \<mapsto> new))"
  unfolding linked_ok_def
proof (intro allI impI)
  fix q b assume q: "q < length h" and b: "b \<in> fst ` set (ln_addrs (h ! q))"
  show "\<exists>ps q'. (m(a \<mapsto> new)) b = Some ps \<and> q' \<in> set ps \<and> ln_lineId (h ! q') = ln_lineId (h ! q)"
  proof (cases "b \<in> fst ` set (ln_addrs (heap ! q))")
    case True
    have "q < length heap" using q h by simp
    from linked_okD [OF linked this True] obtain ps q' where
      "m b = Some ps" "q' \<in> set ps" "ln_lineId (heap ! q') = ln_lineId (heap ! q)" by blast
    with new(1) id show ?thesis by (cases "b = a") auto
  next
    case False
    with b q have qp: "q = p" by (cases "q = p") (auto simp: h)
    with b False p have "b = a" by (auto simp: h)
    with qp new(2) show ?thesis by auto
  qed
qed

lemma link_addr_ok:
  assumes "rep_ok r" "p < length (r_heap r)"
  shows "rep_ok (link_addr r p a)"
proof (rule rep_okI)
  let ?l = "addAddress (r_heap r ! p) a" and ?r = "link_addr r p a"
  define cur where "cur = (case r_addrToLine r a of None \<Rightarrow> [] | Some ps \<Rightarrow> ps)"
  define h where "h = (r_heap r)[p := ?l]"
  define new where "new = (if \<exists>q \<in> set cur. ln_lineId ?l = ln_lineId (h ! q) then cur else cur @ [p])"
  have r: "r_heap ?r = h" "r_files ?r = r_files r" "r_addrToLine ?r = (r_addrToLine r)(a \<mapsto> new)"
    "r_lineIdToFileMap ?r = (r_lineIdToFileMap r)(ln_lineId ?l \<mapsto> p)"
    by (simp_all add: link_addr_def Let_def new_def flip: h_def cur_def)
  have le: "heap_le (r_heap r) h" unfolding h_def using assms(2) by (rule heap_le_update) simp
  have len: "length h = length (r_heap r)" and hp: "h ! p = ?l" using assms(2) by (simp_all add: h_def)
  have id: "ln_lineId (h ! q) = ln_lineId (r_heap r ! q)" for q
    using assms(2) by (cases "q = p") (auto simp: h_def nth_list_update)
  have aok: "addrs_ok h (r_addrToLine r)" by (rule addrs_ok_mono [OF rep_okD(5) [OF assms(1)] le])
  have cur: "q < length h \<and> a \<in> fst ` set (ln_addrs (h ! q))" if "q \<in> set cur" for q
    using that addrs_okD [OF aok, of a] by (cases "r_addrToLine r a") (auto simp: cur_def)
  show "\<forall>l \<in> set (r_heap ?r). line_ok l"
    unfolding r h_def using rep_okD(1) [OF assms(1)] assms(2)
    by (intro line_ok_update) (auto simp: line_ok_def)
  show "distinct (map fst (r_files ?r))" using rep_okD(2) [OF assms(1)] by (simp add: r)
  show "file_ok (r_heap ?r) g \<and> count_ok (r_heap ?r) g" if "(n, g) \<in> set (r_files ?r)" for n g
    using files_ok_mono [OF assms(1) le] that by (simp add: r)
  show "owned_ok (r_heap ?r) (r_files ?r)"
    using rep_okD(7) [OF assms(1)] by (simp add: r owned_ok_def len)
  show "ids_ok (r_heap ?r) (r_lineIdToFileMap ?r)"
    using ids_ok_mono [OF rep_okD(8) [OF assms(1)] le] assms(2) hp len by (auto simp: r ids_ok_def)
  have "distinct (map (\<lambda>q. ln_lineId (h ! q)) cur)"
    using uniq_ok_mono [OF rep_okD(9,5) [OF assms(1)] le]
    by (cases "r_addrToLine r a") (auto simp: uniq_ok_def cur_def)
  then have "distinct (map (\<lambda>q. ln_lineId (h ! q)) new)"
    by (auto simp: new_def hp image_iff)
  then show "uniq_ok (r_heap ?r) (r_addrToLine ?r)"
    using uniq_ok_mono [OF rep_okD(9,5) [OF assms(1)] le] by (simp add: r uniq_ok_def)
  show "addrs_ok (r_heap ?r) (r_addrToLine ?r)"
    unfolding r using cur assms(2) hp len by (intro addrs_ok_link [OF aok]) (auto simp: new_def split: if_splits)
  show "linked_ok (r_heap ?r) (r_addrToLine ?r)"
    unfolding r using hp id
    by (intro linked_ok_link [OF rep_okD(6) [OF assms(1)] assms(2) h_def id]) (auto simp: new_def cur_def split: if_splits)
qed

lemma link_addr_frame [simp]:
  "length (r_heap (link_addr r p a)) = length (r_heap r)" "r_files (link_addr r p a) = r_files r"
  "r_pendingFiles (link_addr r p a) = r_pendingFiles r" "r_order (link_addr r p a) = r_order r"
  by (simp_all add: link_addr_def Let_def)

lemma flush_pending_same:
  assumes "p < length (r_heap r)"
  shows "same_shape r (fst (flush_pending e r p))"
proof -
  have "same_line (r_heap r ! p)
      (fold (\<lambda>(i, h) l. registerHitIndex l i h s) pend (r_heap r ! p))" for s pend
    using fold_registerHitIndex_keys by (simp add: same_line_def)
  with assms show ?thesis
    by (auto simp: flush_pending_def Let_def same_shape_def intro: same_heap_update split: option.splits)
qed

section \<open>\<open>onLine\<close>\<close>

lemma onLine_ok:
  assumes "rep_ok r" "lineNr \<noteq> -1" "length (e_getLines e fp) < 2 ^ 32 - 1"
  shows "\<exists>r' evs. onLine e r fp lineNr addr = Some (r', evs) \<and> rep_ok r'"
proof (cases "runFilters (e_rp e) (r_filter r) fp")
  case False
  with assms(1) show ?thesis by (simp add: onLine_def)
next
  case True
  from ensure_file_ok [OF assms(1,3)] obtain r1 f where
    r1: "ensure_file e r fp = Some (r1, f)" "rep_ok r1" "map_of (r_files r1) fp = Some f" by blast
  from ensure_line_ok [OF r1(2,3) assms(2)] obtain r2 p where
    r2: "ensure_line r1 f fp lineNr = Some (r2, p)" "rep_ok r2" "p < length (r_heap r2)" by blast
  let ?r3 = "link_addr r2 p addr"
  have ok3: "rep_ok ?r3" by (rule link_addr_ok [OF r2(2,3)])
  obtain r4 evs where r4: "flush_pending e ?r3 p = (r4, evs)" by fastforce
  have "rep_ok r4"
    using rep_ok_same_shape [OF ok3] flush_pending_same [of p ?r3 e] r2(3) r4 by simp
  with True r1(1) r2(1) r4 show ?thesis by (simp add: onLine_def)
qed

lemma onLine_step_ok:
  "rep_ok r \<Longrightarrow> lineNr \<noteq> -1 \<Longrightarrow> length (e_getLines e fp) < 2 ^ 32 - 1 \<Longrightarrow>
     onLine e r fp lineNr addr = Some (r', evs) \<Longrightarrow> rep_ok r'"
  using onLine_ok [of r lineNr e fp addr] by auto

end
