(* ===== verification/Kcov_Reporter_Hits.thy ===== *)
theory Kcov_Reporter_Hits
  imports Kcov_Reporter_Lines
begin

text \<open>
  What a hit does to the counters, in which order lines are first hit, and the summary. The
  operations of the reporter as a transition system, with its invariant in every reachable
  state.
\<close>

section \<open>Counters\<close>

lemma map_of_hit_addr:
  "distinct (map fst xs) \<Longrightarrow> map_of xs a = Some c \<Longrightarrow>
     map_of (hit_addr xs a h s) = (map_of xs)(a \<mapsto> (if s then 1 else c + ucast h))"
proof (induction xs)
  case (Cons x xs)
  obtain b d where x: "x = (b, d)" by fastforce
  show ?case
  proof (cases "b = a")
    case True
    with Cons.prems show ?thesis by (auto simp: x fun_eq_iff)
  next
    case False
    with Cons show ?thesis by (intro ext) (simp add: x)
  qed
qed simp

lemma hit_lines_addrs:
  assumes "distinct ps" "\<forall>p \<in> set ps. p < length (r_heap r) \<and> addr \<in> fst ` set (ln_addrs (r_heap r ! p))"
    and "hit_lines e r ps addr hits = Some (r', evs)" "p < length (r_heap r)"
  shows "ln_addrs (r_heap r' ! p) =
     (if p \<in> set ps then hit_addr (ln_addrs (r_heap r ! p)) addr hits (single_shot e)
      else ln_addrs (r_heap r ! p))"
  using assms
proof (induction ps arbitrary: r r' evs)
  case Nil
  then show ?case by simp
next
  case (Cons q ps)
  let ?l = "r_heap r ! q"
  from Cons.prems have q: "q < length (r_heap r)" and a: "addr \<in> fst ` set (ln_addrs ?l)" by auto
  let ?l1 = "?l\<lparr>ln_addrs := hit_addr (ln_addrs ?l) addr hits (single_shot e)\<rparr>"
  let ?l2 = "if ln_order ?l = 0 then ?l1\<lparr>ln_order := r_order r\<rparr> else ?l1"
  define r1 where "r1 = r\<lparr>r_heap := (r_heap r)[q := ?l2],
      r_order := (if ln_order ?l = 0 then r_order r + 1 else r_order r)\<rparr>"
  have l1: "registerHit ?l addr hits (single_shot e) = Some ?l1" using a by (simp add: registerHit_def)
  have ih: "\<exists>evs'. hit_lines e r1 ps addr hits = Some (r', evs')"
    using Cons.prems(3) l1 by (auto simp: r1_def Let_def split: if_splits)
  have keys: "ln_addrs (r_heap r1 ! s) = (if s = q then hit_addr (ln_addrs ?l) addr hits (single_shot e)
      else ln_addrs (r_heap r ! s))" if "s < length (r_heap r)" for s
    using that q by (auto simp: r1_def nth_list_update)
  have "\<forall>s \<in> set ps. s < length (r_heap r1) \<and> addr \<in> fst ` set (ln_addrs (r_heap r1 ! s))"
    using Cons.prems(1,2) keys by (auto simp: r1_def)
  from ih Cons.IH [OF _ this] Cons.prems(1,4)
  have "ln_addrs (r_heap r' ! p) =
     (if p \<in> set ps then hit_addr (ln_addrs (r_heap r1 ! p)) addr hits (single_shot e)
      else ln_addrs (r_heap r1 ! p))" by (auto simp: r1_def)
  with keys [OF Cons.prems(4)] Cons.prems(1) show ?case by auto
qed

lemma uniq_ok_distinct: "uniq_ok h m \<Longrightarrow> m a = Some ps \<Longrightarrow> distinct ps"
  unfolding uniq_ok_def using distinct_map by blast

text \<open>The effect of \<open>onAddressHit\<close> on every counter of every line.\<close>

lemma onAddressHit_addrs:
  assumes "rep_ok r" "onAddressHit e r addr hits = Some (r', evs)" "p < length (r_heap r)"
  shows "ln_addrs (r_heap r' ! p) =
     (case r_addrToLine r addr of
        None \<Rightarrow> ln_addrs (r_heap r ! p)
      | Some ps \<Rightarrow> if p \<in> set ps then hit_addr (ln_addrs (r_heap r ! p)) addr hits (single_shot e)
                   else ln_addrs (r_heap r ! p))"
proof (cases "r_addrToLine r addr")
  case None
  with assms show ?thesis by (auto simp: onAddressHit_def)
next
  case (Some ps)
  have "\<forall>q \<in> set ps. q < length (r_heap r) \<and> addr \<in> fst ` set (ln_addrs (r_heap r ! q))"
    using addrs_okD [OF rep_okD(5) [OF assms(1)] Some] by blast
  from hit_lines_addrs [OF uniq_ok_distinct [OF rep_okD(9) [OF assms(1)] Some] this _ assms(3)] assms(2) Some
  show ?thesis by (auto simp: onAddressHit_def)
qed

lemma onAddressHit_counter:
  assumes "rep_ok r" "onAddressHit e r addr hits = Some (r', evs)" "p < length (r_heap r)"
  shows "map_of (ln_addrs (r_heap r' ! p)) a =
     (if a = addr \<and> (\<exists>ps. r_addrToLine r addr = Some ps \<and> p \<in> set ps)
      then Some (if single_shot e then 1 else the (map_of (ln_addrs (r_heap r ! p)) addr) + ucast hits)
      else map_of (ln_addrs (r_heap r ! p)) a)"
proof (cases "\<exists>ps. r_addrToLine r addr = Some ps \<and> p \<in> set ps")
  case False
  with onAddressHit_addrs [OF assms] show ?thesis by (auto split: option.splits)
next
  case True
  then obtain ps where ps: "r_addrToLine r addr = Some ps" "p \<in> set ps" by blast
  let ?xs = "ln_addrs (r_heap r ! p)"
  have d: "distinct (map fst ?xs)" using rep_okD(1) [OF assms(1)] assms(3) by (simp add: line_ok_def)
  have "addr \<in> fst ` set ?xs" using addrs_okD [OF rep_okD(5) [OF assms(1)] ps] by blast
  then obtain c where c: "map_of ?xs addr = Some c"
    by (metis map_of_eq_None_iff not_None_eq)
  from onAddressHit_addrs [OF assms] ps have "ln_addrs (r_heap r' ! p) = hit_addr ?xs addr hits (single_shot e)"
    by simp
  with map_of_hit_addr [OF d c] c ps show ?thesis by auto
qed

section \<open>The order of first hits\<close>

text \<open>
  The orders handed out so far are exactly \<open>1, 2, \<dots>\<close> up to the next one, each to one line.
\<close>

definition hit_orders :: "Line list \<Rightarrow> nat multiset" where
  "hit_orders h = filter_mset (\<lambda>n. n \<noteq> 0) (image_mset (\<lambda>l. unat (ln_order l)) (mset h))"

definition orders_ok :: "Reporter \<Rightarrow> bool" where
  "orders_ok r \<longleftrightarrow> r_order r \<noteq> 0 \<and> hit_orders (r_heap r) = mset [1..<unat (r_order r)]"

lemma mset_split_nth:
  assumes "p < length h"
  shows "\<exists>M. mset h = add_mset (h ! p) M \<and> (\<forall>l. mset (h[p := l]) = add_mset l M)"
proof -
  have "h ! p \<in># mset h" using assms by simp
  then have "mset h = add_mset (h ! p) (mset h - {#h ! p#})" by simp
  with mset_update [OF assms] show ?thesis by blast
qed

lemma hit_orders_update:
  assumes "p < length h"
  shows "hit_orders (h[p := l]) + (if ln_order (h ! p) \<noteq> 0 then {#unat (ln_order (h ! p))#} else {#}) =
    hit_orders h + (if ln_order l \<noteq> 0 then {#unat (ln_order l)#} else {#})"
proof -
  obtain M where M: "mset h = add_mset (h ! p) M" "mset (h[p := l]) = add_mset l M"
    using mset_split_nth [OF assms] by blast
  show ?thesis unfolding hit_orders_def M by (simp add: unat_eq_zero)
qed

lemma hit_orders_same: "map ln_order h' = map ln_order h \<Longrightarrow> hit_orders h' = hit_orders h"
proof -
  assume "map ln_order h' = map ln_order h"
  then have "image_mset ln_order (mset h') = image_mset ln_order (mset h)" by (metis mset_map)
  then have "image_mset unat (image_mset ln_order (mset h')) = image_mset unat (image_mset ln_order (mset h))"
    by simp
  then show ?thesis by (simp add: hit_orders_def multiset.map_comp comp_def)
qed

lemma hit_orders_new: "\<forall>l \<in> set new. ln_order l = 0 \<Longrightarrow> hit_orders (h @ new) = hit_orders h"
  by (auto simp: hit_orders_def filter_mset_eq_mempty_iff)

lemma size_hit_orders: "size (hit_orders h) \<le> length h"
  unfolding hit_orders_def by (metis size_filter_mset_lesseq size_image_mset size_mset)

lemma orders_ok_less:
  assumes "orders_ok r" "\<exists>p < length (r_heap r). ln_order (r_heap r ! p) = 0"
  shows "unat (r_order r) \<le> length (r_heap r)"
proof -
  obtain p where p: "p < length (r_heap r)" "ln_order (r_heap r ! p) = 0" using assms(2) by blast
  obtain M where M: "mset (r_heap r) = add_mset (r_heap r ! p) M" using mset_split_nth [OF p(1)] by blast
  then have "hit_orders (r_heap r) = filter_mset (\<lambda>n. n \<noteq> 0) (image_mset (\<lambda>l. unat (ln_order l)) M)"
    by (simp add: hit_orders_def p(2))
  then have "size (hit_orders (r_heap r)) \<le> size M"
    using size_filter_mset_lesseq [of "\<lambda>n. n \<noteq> 0" "image_mset (\<lambda>l. unat (ln_order l)) M"] by simp
  moreover have "length (r_heap r) = Suc (size M)" using arg_cong [OF M, of size] by simp
  moreover have "size (hit_orders (r_heap r)) = unat (r_order r) - 1"
    using assms(1) by (simp add: orders_ok_def)
  moreover have "unat (r_order r) \<noteq> 0" using assms(1) by (simp add: orders_ok_def unat_eq_zero)
  ultimately show ?thesis by linarith
qed

lemma orders_ok_give:
  assumes "orders_ok r" "p < length (r_heap r)" "ln_order (r_heap r ! p) = 0" "length (r_heap r) < 2 ^ 64 - 1"
  shows "orders_ok (r\<lparr>r_heap := (r_heap r)[p := l\<lparr>ln_order := r_order r\<rparr>], r_order := r_order r + 1\<rparr>)"
proof -
  have "unat (r_order r) \<le> length (r_heap r)" using orders_ok_less assms by blast
  then have small: "unat (r_order r) < 2 ^ 64 - 1" using assms(4) by simp
  have nz: "r_order r + 1 \<noteq> 0" "unat (r_order r + 1) = Suc (unat (r_order r))"
  proof -
    have ne: "r_order r \<noteq> - 1"
    proof
      assume "r_order r = - 1"
      then have "unat (r_order r) = 2 ^ 64 - 1"
        by (simp add: unsigned_minus_1_eq_mask mask_eq_exp_minus_1)
      with small show False by simp
    qed
    then show nz: "r_order r + 1 \<noteq> 0" by (metis add.commute add_eq_0_iff)
    then show "unat (r_order r + 1) = Suc (unat (r_order r))" by (metis add.commute unatSuc)
  qed
  have "hit_orders ((r_heap r)[p := l\<lparr>ln_order := r_order r\<rparr>]) = hit_orders (r_heap r) + {#unat (r_order r)#}"
    using hit_orders_update [OF assms(2), of "l\<lparr>ln_order := r_order r\<rparr>"] assms(1,3)
    by (simp add: orders_ok_def)
  also have "\<dots> = mset [1..<Suc (unat (r_order r))]"
  proof -
    have "1 \<le> unat (r_order r)" using assms(1) by (simp add: orders_ok_def unat_gt_0 Suc_le_eq)
    then show ?thesis using assms(1) by (simp add: orders_ok_def)
  qed
  finally show ?thesis using nz by (simp add: orders_ok_def)
qed

text \<open>Operations other than a hit hand out no order: they keep the lines' orders and add lines without one.\<close>

definition orders_ext :: "Reporter \<Rightarrow> Reporter \<Rightarrow> bool" where
  "orders_ext r r' \<longleftrightarrow> r_order r' = r_order r \<and>
     (\<exists>n. map ln_order (r_heap r') = map ln_order (r_heap r) @ replicate n 0)"

lemma orders_ext_refl [simp]: "orders_ext r r"
  by (auto simp: orders_ext_def intro: exI [of _ 0])

lemma orders_ext_trans: "orders_ext a b \<Longrightarrow> orders_ext b c \<Longrightarrow> orders_ext a c"
  by (auto simp: orders_ext_def simp flip: replicate_add)

lemma map_order_update:
  "ln_order l = ln_order (h ! p) \<Longrightarrow> map ln_order (h[p := l]) = map ln_order h"
  by (cases "p < length h") (simp_all add: map_update list_update_same_conv list_update_beyond not_less)

lemma orders_ext_same: "r_order r' = r_order r \<Longrightarrow> map ln_order (r_heap r') = map ln_order (r_heap r) \<Longrightarrow> orders_ext r r'"
  by (auto simp: orders_ext_def intro: exI [of _ 0])

lemma orders_ext_ok: "orders_ok r \<Longrightarrow> orders_ext r r' \<Longrightarrow> orders_ok r'"
proof -
  assume ok: "orders_ok r" and "orders_ext r r'"
  then obtain n where o: "r_order r' = r_order r"
    and m: "map ln_order (r_heap r') = map ln_order (r_heap r @ replicate n (mk_Line 0 0 False))"
    by (auto simp: orders_ext_def)
  have "hit_orders (r_heap r') = hit_orders (r_heap r)"
    using hit_orders_same [OF m] hit_orders_new [of "replicate n (mk_Line 0 0 False)"] by simp
  with ok o show ?thesis by (simp add: orders_ok_def)
qed

lemma mark_unreachable_orders:
  "mark_unreachable fp nr ls (h, f, flt) = Some (h', f', flt') \<Longrightarrow>
     \<exists>n. map ln_order h' = map ln_order h @ replicate n 0"
proof (induction ls arbitrary: nr h f flt)
  case Nil
  then show ?case by (auto intro: exI [of _ 0])
next
  case (Cons l ls)
  obtain ok flt1 where fl: "runLineFilters flt fp l = (ok, flt1)" by fastforce
  show ?case
  proof (cases ok)
    case True
    with Cons fl show ?thesis by simp
  next
    case False
    with Cons.prems fl obtain f1 where
      "mark_unreachable fp (nr + 1) ls (h @ [mk_Line (fl_fileHash f) nr True], f1, flt1) = Some (h', f', flt')"
      by (auto simp: Let_def split: option.splits)
    from Cons.IH [OF this] obtain n where "map ln_order h' = map ln_order h @ replicate (Suc n) 0" by auto
    then show ?thesis by blast
  qed
qed

lemma ensure_file_orders: "ensure_file e r fp = Some (r1, f) \<Longrightarrow> orders_ext r r1"
  by (auto simp: ensure_file_def orders_ext_def dest: mark_unreachable_orders split: option.splits
        intro: exI [of _ 0])

lemma ensure_line_orders: "ensure_line r f fp nr = Some (r2, p) \<Longrightarrow> orders_ext r r2"
  by (auto simp: ensure_line_def orders_ext_def Let_def split: option.splits intro: exI [of _ 0] exI [of _ 1])

lemma link_addr_orders: "orders_ext r (link_addr r p a)"
  by (rule orders_ext_same) (auto simp: link_addr_def Let_def map_order_update)

lemma flush_pending_orders: "orders_ext r (fst (flush_pending e r p))"
  by (rule orders_ext_same)
    (auto simp: flush_pending_def Let_def map_order_update fold_registerHitIndex_keys split: option.splits)

lemma onLine_orders:
  assumes "onLine e r fp nr a = Some (r', evs)"
  shows "orders_ext r r'"
proof (cases "runFilters (e_rp e) (r_filter r) fp")
  case False
  with assms show ?thesis by (simp add: onLine_def)
next
  case True
  with assms obtain r1 f r2 p where
    r1: "ensure_file e r fp = Some (r1, f)" and r2: "ensure_line r1 f fp nr = Some (r2, p)"
    and r': "r' = fst (flush_pending e (link_addr r2 p a) p)"
    by (auto simp: onLine_def split: option.splits prod.splits)
  show ?thesis
    using ensure_file_orders [OF r1] ensure_line_orders [OF r2] link_addr_orders [of r2 p a]
      flush_pending_orders [of "link_addr r2 p a" e p] r' orders_ext_trans by blast
qed

lemma hit_lines_orders:
  assumes "orders_ok r" "length (r_heap r) < 2 ^ 64 - 1" "\<forall>p \<in> set ps. p < length (r_heap r)"
    "hit_lines e r ps addr hits = Some (r', evs)"
  shows "orders_ok r' \<and> length (r_heap r') = length (r_heap r)"
  using assms
proof (induction ps arbitrary: r evs)
  case (Cons p ps)
  from Cons.prems(4) obtain l where l: "registerHit (r_heap r ! p) addr hits (single_shot e) = Some l"
    by (auto split: option.splits)
  let ?r = "if ln_order l = 0
    then r\<lparr>r_heap := (r_heap r)[p := l\<lparr>ln_order := r_order r\<rparr>], r_order := r_order r + 1\<rparr>
    else r\<lparr>r_heap := (r_heap r)[p := l]\<rparr>"
  have p: "p < length (r_heap r)" using Cons.prems(3) by simp
  have o: "ln_order l = ln_order (r_heap r ! p)" using registerHit_keys [OF l] by simp
  have ok: "orders_ok ?r"
  proof (cases "ln_order l = 0")
    case True
    with orders_ok_give [OF Cons.prems(1) p] o Cons.prems(2) show ?thesis by simp
  next
    case False
    have "orders_ext r (r\<lparr>r_heap := (r_heap r)[p := l]\<rparr>)"
      by (rule orders_ext_same) (simp_all add: map_order_update o)
    with False orders_ext_ok [OF Cons.prems(1)] show ?thesis by simp
  qed
  have "\<exists>evs'. hit_lines e ?r ps addr hits = Some (r', evs')"
    using Cons.prems(4) l by (auto simp: Let_def split: if_splits)
  then obtain evs' where "hit_lines e ?r ps addr hits = Some (r', evs')" by blast
  from Cons.IH [OF ok _ _ this] Cons.prems(2,3) show ?case by (auto split: if_splits)
qed simp

lemma onAddressHit_orders:
  assumes "rep_ok r" "orders_ok r" "length (r_heap r) < 2 ^ 64 - 1" "onAddressHit e r addr hits = Some (r', evs)"
  shows "orders_ok r' \<and> length (r_heap r') = length (r_heap r)"
proof (cases "r_addrToLine r addr")
  case None
  with assms show ?thesis by (simp add: onAddressHit_def)
next
  case (Some ps)
  have "\<forall>p \<in> set ps. p < length (r_heap r)" using addrs_okD [OF rep_okD(5) [OF assms(1)] Some] by blast
  from hit_lines_orders [OF assms(2,3) this] assms(4) Some show ?thesis by (simp add: onAddressHit_def)
qed

lemma unMarshal_entry_orders:
  assumes "rep_ok r" "orders_ok r" "length (r_heap r) < 2 ^ 64 - 1" "unMarshal_entry e r x = Some (r', evs)"
  shows "orders_ok r' \<and> length (r_heap r') = length (r_heap r)"
proof -
  obtain addr hash index hits where x: "x = (addr, hash, index, hits)" by (cases x)
  have "onAddressHit e r addr hits = Some (r', evs) \<or> (orders_ext r r' \<and> length (r_heap r') = length (r_heap r))"
    using assms(4)
    by (auto simp: unMarshal_entry_def x Let_def map_order_update intro: orders_ext_same
        split: if_splits option.splits)
  with onAddressHit_orders [OF assms(1-3)] orders_ext_ok [OF assms(2)] show ?thesis by blast
qed

lemma unMarshal_entries_orders:
  "rep_ok r \<Longrightarrow> orders_ok r \<Longrightarrow> length (r_heap r) < 2 ^ 64 - 1 \<Longrightarrow> unMarshal_entries e r xs = Some (r', evs) \<Longrightarrow>
     orders_ok r' \<and> length (r_heap r') = length (r_heap r)"
proof (induction xs arbitrary: r evs)
  case (Cons x xs)
  from Cons.prems(4) obtain r1 evs1 evs2 where
    r1: "unMarshal_entry e r x = Some (r1, evs1)" and r': "unMarshal_entries e r1 xs = Some (r', evs2)"
    by (auto split: option.splits)
  have "rep_ok r1" using unMarshal_entry_same [OF Cons.prems(1), of e x] r1 rep_ok_same_shape [OF Cons.prems(1)] by auto
  from Cons.IH [OF this _ _ r'] unMarshal_entry_orders [OF Cons.prems(1-3) r1] Cons.prems(3) show ?case by simp
qed simp

section \<open>The reporter as a transition system\<close>

text \<open>
  The calls the reporter receives: lines from the parser, hits from the collector, and the file
  notification that loads the database. The parser's line numbers are below the largest
  \<open>unsigned int\<close>, and so are the source files' line counts.
\<close>

inductive rep_step :: "rep_env \<Rightarrow> Reporter \<Rightarrow> Reporter \<Rightarrow> bool" for e where
  line: "lineNr \<noteq> -1 \<Longrightarrow> length (e_getLines e fp) < 2 ^ 32 - 1 \<Longrightarrow>
           onLine e r fp lineNr addr = Some (r', evs) \<Longrightarrow> rep_step e r r'"
| hit: "onAddressHit e r addr hits = Some (r', evs) \<Longrightarrow> rep_step e r r'"
| db: "onFile e r buf = Some (r', evs) \<Longrightarrow> rep_step e r r'"

inductive_cases rep_stepE: "rep_step e r r'"

definition rep_init :: "Reporter \<Rightarrow> bool" where
  "rep_init r \<longleftrightarrow> (\<exists>flt. r = mk_Reporter flt)"

definition rep_inv :: "Reporter \<Rightarrow> bool" where
  "rep_inv r \<longleftrightarrow> rep_ok r \<and> (length (r_heap r) < 2 ^ 64 - 1 \<longrightarrow> orders_ok r)"

lemma unMarshal_cases:
  "unMarshal e r buf sz = Some (b, r', evs) \<Longrightarrow>
     r' = r \<or> (\<exists>xs. unMarshal_entries e r xs = Some (r', evs))"
  by (auto simp: unMarshal_def Let_def split: if_splits)

lemma onFile_cases:
  assumes "onFile e r db = Some (r', evs)"
  shows "(\<exists>d. r' = r\<lparr>r_unmarshallingDone := d\<rparr>) \<or>
     (\<exists>xs r1. unMarshal_entries e r xs = Some (r1, evs) \<and> r' = r1\<lparr>r_unmarshallingDone := True\<rparr>)"
proof (cases "r_unmarshallingDone r")
  case True
  with assms have "r' = r\<lparr>r_unmarshallingDone := True\<rparr>" by (auto simp: onFile_def)
  then show ?thesis by blast
next
  case False
  with assms show ?thesis
    by (auto simp: onFile_def dest!: unMarshal_cases split: if_splits option.splits) blast+
qed

lemma rep_ok_done [simp]: "rep_ok (r\<lparr>r_unmarshallingDone := d\<rparr>) = rep_ok r"
  by (simp add: rep_ok_def)

lemma orders_ok_done [simp]: "orders_ok (r\<lparr>r_unmarshallingDone := d\<rparr>) = orders_ok r"
  by (simp add: orders_ok_def)

lemma onFile_inv:
  assumes "rep_inv r" "onFile e r db = Some (r', evs)"
  shows "rep_inv r'"
  using onFile_cases [OF assms(2)]
proof
  assume "\<exists>d. r' = r\<lparr>r_unmarshallingDone := d\<rparr>"
  with assms(1) show ?thesis by (auto simp: rep_inv_def)
next
  assume "\<exists>xs r1. unMarshal_entries e r xs = Some (r1, evs) \<and> r' = r1\<lparr>r_unmarshallingDone := True\<rparr>"
  then obtain xs r1 where r1: "unMarshal_entries e r xs = Some (r1, evs)" "r' = r1\<lparr>r_unmarshallingDone := True\<rparr>"
    by blast
  have ok: "rep_ok r" using assms(1) by (simp add: rep_inv_def)
  from unMarshal_entries_same [OF ok, of e xs] r1(1) have sh: "same_shape r r1" by auto
  then have "rep_ok r1" "length (r_heap r1) = length (r_heap r)"
    using rep_ok_same_shape [OF ok] same_heap_length by (auto simp: same_shape_def)
  with unMarshal_entries_orders [OF ok _ _ r1(1)] assms(1) r1(2) show ?thesis by (auto simp: rep_inv_def)
qed

lemma onAddressHit_inv:
  assumes "rep_inv r" "onAddressHit e r addr hits = Some (r', evs)"
  shows "rep_inv r'"
proof -
  have ok: "rep_ok r" using assms(1) by (simp add: rep_inv_def)
  from onAddressHit_same [OF ok, of e addr hits] assms(2) have "same_shape r r'" by auto
  then have "rep_ok r'" "length (r_heap r') = length (r_heap r)"
    using rep_ok_same_shape [OF ok] same_heap_length by (auto simp: same_shape_def)
  with onAddressHit_orders [OF ok _ _ assms(2)] assms(1) show ?thesis by (auto simp: rep_inv_def)
qed

lemma onLine_inv:
  assumes "rep_inv r" "lineNr \<noteq> -1" "length (e_getLines e fp) < 2 ^ 32 - 1"
    "onLine e r fp lineNr addr = Some (r', evs)"
  shows "rep_inv r'"
proof -
  have ext: "orders_ext r r'" by (rule onLine_orders [OF assms(4)])
  then have "length (r_heap r) \<le> length (r_heap r')"
    unfolding orders_ext_def by (metis length_append length_map le_add1)
  with orders_ext_ok [OF _ ext] onLine_step_ok [OF _ assms(2-4)] assms(1) show ?thesis
    by (auto simp: rep_inv_def)
qed

lemma rep_inv_init: "rep_inv (mk_Reporter flt)"
  by (simp add: rep_inv_def orders_ok_def hit_orders_def mk_Reporter_def rep_ok_mk [unfolded mk_Reporter_def])

interpretation reporter: step_invariant rep_init "rep_step e" rep_inv for e
  by unfold_locales
    (auto simp: rep_init_def rep_inv_init elim!: rep_stepE intro: onLine_inv onAddressHit_inv onFile_inv)

lemmas reporter_reachable = reporter.inv_reachable [unfolded rep_init_def]

end
