(* ===== verification/Kcov_Reporter_Db.thy ===== *)
theory Kcov_Reporter_Db
  imports Kcov_Reporter_Hits
begin

text \<open>
  The coverage database: its layout, that writing it stays inside the buffer, and what reading
  it back does to the counters.
\<close>

section \<open>Entries\<close>

lemma chunk_fields:
  assumes "length a = 8" "length b = 8" "length c = 8" "length d = 8"
  shows "chunk 8 0 (a @ b @ c @ d) = a" "chunk 8 1 (a @ b @ c @ d) = b"
    "chunk 8 2 (a @ b @ c @ d) = c" "chunk 8 3 (a @ b @ c @ d) = d"
  using assms by (simp_all add: chunk_def)

interpretation entry: codec "marshal_entry le" "line_unMarshal le" getMarshalEntrySize for le
proof unfold_locales
  fix x :: "u64 \<times> u64 \<times> u64 \<times> u64"
  obtain a b c d where x: "x = (a, b, c, d)" by (cases x)
  show "length (marshal_entry le x) = getMarshalEntrySize"
    by (simp add: x marshal_entry_def getMarshalEntrySize_def)
  show "line_unMarshal le (marshal_entry le x) = x"
    by (simp add: x marshal_entry_def line_unMarshal_def chunk_fields chunk_fields(2) [unfolded One_nat_def])
qed

definition file_entries :: "Line list \<Rightarrow> File \<Rightarrow> (u64 \<times> u64 \<times> u64 \<times> u64) list" where
  "file_entries h f = concat (map (\<lambda>l. line_entries (ln_lineId l) 0 (ln_addrs l)) (file_lines h f))"

definition db_entries :: "Reporter \<Rightarrow> (u64 \<times> u64 \<times> u64 \<times> u64) list" where
  "db_entries r = concat (map (\<lambda>(_, f). file_entries (r_heap r) f) (r_files r))"

lemma length_line_entries: "length (line_entries lid i xs) = length (filter (\<lambda>(_, c). c \<noteq> 0) xs)"
  by (induction lid i xs rule: line_entries.induct) auto

lemma length_line_marshal [simp]: "length (line_marshal le l) = line_marshalSize l"
  by (simp add: line_marshal_def entry.length_table length_line_entries line_marshalSize_def getMarshalEntrySize_def)

lemma length_file_entries: "length (file_entries h f) * getMarshalEntrySize = file_marshalSize h f"
proof -
  have "length (concat (map (\<lambda>l. line_entries (ln_lineId l) 0 (ln_addrs l)) ls)) * getMarshalEntrySize =
      sum_list (map line_marshalSize ls)" for ls
    by (induction ls) (simp_all add: length_line_entries line_marshalSize_def getMarshalEntrySize_def)
  then show ?thesis by (simp add: file_entries_def file_marshalSize_def)
qed

lemma file_marshal_entries: "file_marshal le h f = concat (map (marshal_entry le) (file_entries h f))"
proof -
  have "concat (map (line_marshal le) ls) =
      concat (map (marshal_entry le) (concat (map (\<lambda>l. line_entries (ln_lineId l) 0 (ln_addrs l)) ls)))" for ls
    by (induction ls) (simp_all add: line_marshal_def)
  then show ?thesis by (simp add: file_entries_def file_marshal_def)
qed

lemma db_body:
  "concat (map (\<lambda>(_, f). file_marshal le (r_heap r) f) (r_files r)) = concat (map (marshal_entry le) (db_entries r))"
proof -
  have "concat (map (\<lambda>(_, f). file_marshal le (r_heap r) f) fs) =
      concat (map (marshal_entry le) (concat (map (\<lambda>(_, f). file_entries (r_heap r) f) fs)))" for fs :: "(string \<times> File) list"
    by (induction fs) (auto simp: file_marshal_entries)
  then show ?thesis by (simp add: db_entries_def)
qed

lemma getMarshalSize_eq:
  "getMarshalSize r = length (db_entries r) * getMarshalEntrySize * getMarshalEntrySize + sizeof_marshalHeaderStruct"
proof -
  have "foldl (\<lambda>out (_, f). out + file_marshalSize (r_heap r) f) n fs =
      n + length (concat (map (\<lambda>(_, f). file_entries (r_heap r) f) fs)) * getMarshalEntrySize"
    for n and fs :: "(string \<times> File) list"
    by (induction fs arbitrary: n) (auto simp: length_file_entries [symmetric] algebra_simps)
  then show ?thesis by (simp add: getMarshalSize_def db_entries_def)
qed

lemma length_marshalHeader [simp]: "length (marshalHeader e) = sizeof_marshalHeaderStruct"
  by (simp add: marshalHeader_def Let_def sizeof_marshalHeaderStruct_def)

text \<open>
  The layout: header, entries, zeros. The zeros are there because the size of a file is counted
  in bytes and then multiplied by the size of an entry.
\<close>

lemma marshal_eq:
  "marshal e r = Some (marshalHeader e @ concat (map (marshal_entry (e_little_endian e)) (db_entries r)) @
     replicate ((getMarshalEntrySize - 1) * getMarshalEntrySize * length (db_entries r)) 0)"
proof -
  let ?n = "length (db_entries r)"
  have "?n * getMarshalEntrySize * getMarshalEntrySize - ?n * getMarshalEntrySize =
      (getMarshalEntrySize - 1) * getMarshalEntrySize * ?n"
    by (simp add: getMarshalEntrySize_def)
  then show ?thesis
    by (simp add: marshal_def Let_def db_body getMarshalSize_eq entry.length_table)
qed

lemma unMarshalHeader_ok: "unMarshalHeader e (marshalHeader e @ rest)"
  by (simp add: unMarshalHeader_def marshalHeader_def Let_def chunk_def)

text \<open>The entries read back from the written buffer: those written, then zero entries.\<close>

lemma chunk_zeros:
  "(n + 1) * getMarshalEntrySize \<le> k \<Longrightarrow>
     line_unMarshal le (chunk getMarshalEntrySize n (replicate k 0 @ rest)) = (0, 0, 0, 0)"
proof -
  assume k: "(n + 1) * getMarshalEntrySize \<le> k"
  then have c: "chunk getMarshalEntrySize n (replicate k 0 @ rest) = replicate 32 0"
    by (simp add: chunk_def getMarshalEntrySize_def)
  have d: "chunk 8 i (replicate 32 0) = replicate 8 (0 :: byte)" if "i < 4" for i
    using that by (simp add: chunk_def)
  show ?thesis by (simp add: c line_unMarshal_def d get_be_zeros)
qed

lemma chunk_skip_table:
  "chunk getMarshalEntrySize (length xs + n) (concat (map (marshal_entry le) xs) @ rest) =
     chunk getMarshalEntrySize n rest"
  by (rule chunk_append) (simp add: entry.length_table)

lemma read_entries:
  assumes "n * getMarshalEntrySize \<le> k"
  shows "map (\<lambda>i. line_unMarshal le (chunk getMarshalEntrySize i
             (concat (map (marshal_entry le) xs) @ replicate k 0 @ rest))) [0..<length xs + n] =
         xs @ replicate n (0, 0, 0, 0)"
proof (rule nth_equalityI)
  fix i assume "i < length (map (\<lambda>i. line_unMarshal le (chunk getMarshalEntrySize i
             (concat (map (marshal_entry le) xs) @ replicate k 0 @ rest))) [0..<length xs + n])"
  then have i: "i < length xs + n" by simp
  show "map (\<lambda>i. line_unMarshal le (chunk getMarshalEntrySize i
             (concat (map (marshal_entry le) xs) @ replicate k 0 @ rest))) [0..<length xs + n] ! i =
        (xs @ replicate n (0, 0, 0, 0)) ! i"
  proof (cases "i < length xs")
    case True
    with i show ?thesis by (simp add: entry.dec_chunk_table nth_append)
  next
    case False
    define j where "j = i - length xs"
    have j: "i = length xs + j" "j < n" using False i by (auto simp: j_def)
    have "(j + 1) * getMarshalEntrySize \<le> k"
      using assms j(2) mult_le_mono1 [of "j + 1" n getMarshalEntrySize] by simp
    with j i show ?thesis by (simp add: chunk_skip_table chunk_zeros nth_append)
  qed
qed simp

lemma unMarshal_entries_append:
  "unMarshal_entries e r (xs @ ys) =
     (case unMarshal_entries e r xs of
        None \<Rightarrow> None
      | Some (r', evs) \<Rightarrow> map_option (\<lambda>(r'', evs'). (r'', evs @ evs')) (unMarshal_entries e r' ys))"
proof (induction xs arbitrary: r)
  case (Cons x xs)
  show ?case
  proof (cases "unMarshal_entry e r x")
    case (Some p)
    with Cons show ?thesis
      by (cases p) (auto split: option.splits simp: map_option_case)
  qed simp
qed (simp add: option.map_ident case_prod_unfold)

lemma unMarshal_zero_entries [simp]: "unMarshal_entries e r (replicate n (0, 0, 0, 0)) = Some (r, [])"
  by (induction n) (simp_all add: unMarshal_entry_def)

text \<open>Reading a database that \<open>marshal\<close> wrote is reading its entries.\<close>

lemma unMarshal_marshal:
  assumes "marshal e0 r0 = Some buf" "e_little_endian e0 = e_little_endian e" "e_checksum e0 = e_checksum e"
    "length buf < 2 ^ 64"
  shows "unMarshal e r (buf @ rest) (of_nat (length buf)) =
     map_option (\<lambda>(r', evs). (True, r', evs)) (unMarshal_entries e r (db_entries r0))"
proof -
  let ?le = "e_little_endian e" and ?xs = "db_entries r0"
  let ?k = "(getMarshalEntrySize - 1) * getMarshalEntrySize * length ?xs"
  have hdr: "marshalHeader e0 = marshalHeader e" using assms(2,3) by (simp add: marshalHeader_def)
  have buf: "buf = marshalHeader e @ concat (map (marshal_entry ?le) ?xs) @ replicate ?k 0"
    using assms(1,2) hdr by (simp add: marshal_eq)
  have len: "length buf = 16 + 1024 * length ?xs"
    by (simp add: buf entry.length_table getMarshalEntrySize_def sizeof_marshalHeaderStruct_def)
  define m where "m = 31 * length ?xs"
  have "(of_nat (length buf) - of_nat sizeof_marshalHeaderStruct :: u64) = of_nat (1024 * length ?xs)"
    by (simp add: len sizeof_marshalHeaderStruct_def)
  then have "unat ((of_nat (length buf) - of_nat sizeof_marshalHeaderStruct :: u64) div of_nat getMarshalEntrySize) =
      unat (of_nat (1024 * length ?xs) :: u64) div 32"
    by (simp add: getMarshalEntrySize_def unat_div)
  also have "unat (of_nat (1024 * length ?xs) :: u64) = 1024 * length ?xs"
    using assms(4) len by (intro unat_of_nat_small) simp
  finally have n: "unat ((of_nat (length buf) - of_nat sizeof_marshalHeaderStruct :: u64) div of_nat getMarshalEntrySize) =
      length ?xs + m"
    by (simp add: m_def)
  have body: "drop sizeof_marshalHeaderStruct (buf @ rest) =
      concat (map (marshal_entry ?le) ?xs) @ replicate ?k 0 @ rest"
    by (simp add: buf)
  have fits: "(length ?xs + m) * getMarshalEntrySize \<le> length (drop sizeof_marshalHeaderStruct (buf @ rest))"
    using len by (simp add: getMarshalEntrySize_def m_def sizeof_marshalHeaderStruct_def)
  have hok: "unMarshalHeader e (buf @ rest)" by (simp add: buf unMarshalHeader_ok)
  have mk: "m * getMarshalEntrySize \<le> ?k" by (simp add: m_def getMarshalEntrySize_def)
  have "unMarshal_entries e r (?xs @ replicate m (0, 0, 0, 0)) = unMarshal_entries e r ?xs"
    by (auto simp: unMarshal_entries_append split: option.splits)
  then show ?thesis
    using fits hok read_entries [OF mk, of ?le ?xs rest] unfolding unMarshal_def Let_def n body by simp
qed

section \<open>What the entries do to the counters\<close>

lemma of_entry_hits: "(ucast (scast (c :: u32) :: u64) :: u32) = c"
  by (rule bit_word_eqI) (auto simp: bit_simps)

lemma onAddressHit_counter_of:
  assumes "rep_ok r" "onAddressHit e r addr hits = Some (r', evs)" "r_addrToLine r a = Some ps" "p \<in> set ps"
  shows "map_of (ln_addrs (r_heap r' ! p)) a =
     map_option (\<lambda>c. if addr = a then (if single_shot e then 1 else c + ucast hits) else c)
       (map_of (ln_addrs (r_heap r ! p)) a)"
proof -
  have p: "p < length (r_heap r)" and "a \<in> fst ` set (ln_addrs (r_heap r ! p))"
    using addrs_okD [OF rep_okD(5) [OF assms(1)] assms(3,4)] by auto
  then obtain c where "map_of (ln_addrs (r_heap r ! p)) a = Some c"
    by (metis map_of_eq_None_iff not_None_eq)
  with onAddressHit_counter [OF assms(1,2) p, of a] assms(3,4) show ?thesis by auto
qed

text \<open>The counter of one address of one line after reading a list of entries.\<close>

definition counter_after :: "bool \<Rightarrow> u64 \<Rightarrow> (u64 \<times> u64 \<times> u64 \<times> u64) list \<Rightarrow> u32 \<Rightarrow> u32" where
  "counter_after s a xs c =
     foldl (\<lambda>c (addr, _, _, hits). if addr = a then (if s then 1 else c + ucast hits) else c) c xs"

lemma unMarshal_entry_known:
  "r_addrToLine r addr \<noteq> None \<Longrightarrow> hits \<noteq> 0 \<Longrightarrow>
     unMarshal_entry e r (addr, hash, index, hits) = onAddressHit e r addr hits"
  by (auto simp: unMarshal_entry_def)

lemma unMarshal_entries_counter:
  assumes "rep_ok r" "unMarshal_entries e r xs = Some (r', evs)"
    "\<forall>(addr, hash, index, hits) \<in> set xs. r_addrToLine r addr \<noteq> None \<and> hits \<noteq> 0"
    "r_addrToLine r a = Some ps" "p \<in> set ps"
  shows "map_of (ln_addrs (r_heap r' ! p)) a =
     map_option (counter_after (single_shot e) a xs) (map_of (ln_addrs (r_heap r ! p)) a)"
  using assms
proof (induction xs arbitrary: r evs)
  case Nil
  then show ?case by (simp add: counter_after_def option.map_ident)
next
  case (Cons x xs)
  obtain addr hash index hits where x: "x = (addr, hash, index, hits)" by (cases x)
  from Cons.prems(2,3) obtain r1 evs1 evs2 where
    r1: "onAddressHit e r addr hits = Some (r1, evs1)" and r': "unMarshal_entries e r1 xs = Some (r', evs2)"
    by (auto simp: x unMarshal_entry_known split: option.splits)
  from onAddressHit_same [OF Cons.prems(1), of e addr hits] r1 have sh: "same_shape r r1" by auto
  then have m: "r_addrToLine r1 = r_addrToLine r" by (simp add: same_shape_def)
  from Cons.IH [OF rep_ok_same_shape [OF Cons.prems(1) sh] r'] Cons.prems(3-5) m
    onAddressHit_counter_of [OF Cons.prems(1) r1 Cons.prems(4,5)]
  show ?case by (auto simp: x counter_after_def option.map_comp comp_def)
qed

lemma counter_after_other: "a \<notin> fst ` set xs \<Longrightarrow> counter_after s a xs c = c"
  by (induction xs arbitrary: c) (auto simp: counter_after_def)

lemma counter_after_once:
  assumes "distinct (map fst xs)" "(a, hash, index, hits) \<in> set xs"
  shows "counter_after s a xs c = (if s then 1 else c + ucast hits)"
  using assms
proof (induction xs arbitrary: c)
  case (Cons x xs)
  show ?case
  proof (cases "x = (a, hash, index, hits)")
    case True
    with Cons.prems counter_after_other [of a xs] show ?thesis by (simp add: counter_after_def)
  next
    case False
    then have "fst x \<noteq> a" using Cons.prems by (force simp: image_iff)
    then have "counter_after s a (x # xs) c = counter_after s a xs c"
      by (cases x) (simp add: counter_after_def)
    with Cons False show ?thesis by simp
  qed
qed simp

section \<open>Entries of the lines\<close>

lemma map_fst_line_entries: "map fst (line_entries lid i xs) = map fst (filter (\<lambda>(_, c). c \<noteq> 0) xs)"
  by (induction lid i xs rule: line_entries.induct) auto

lemma line_entries_sound:
  "(a, hash, index, hits) \<in> set (line_entries lid i xs) \<Longrightarrow> \<exists>c. (a, c) \<in> set xs \<and> c \<noteq> 0 \<and> hits = scast c"
  by (induction lid i xs rule: line_entries.induct) (auto split: if_splits)

lemma line_entries_complete:
  "(a, c) \<in> set xs \<Longrightarrow> c \<noteq> 0 \<Longrightarrow> \<exists>index. (a, lid, index, scast c) \<in> set (line_entries lid i xs)"
  by (induction lid i xs rule: line_entries.induct) auto

definition ptr_entries :: "Line list \<Rightarrow> nat \<Rightarrow> (u64 \<times> u64 \<times> u64 \<times> u64) list" where
  "ptr_entries h p = line_entries (ln_lineId (h ! p)) 0 (ln_addrs (h ! p))"

lemma db_entries_ptrs: "db_entries r = concat (map (ptr_entries (r_heap r)) (all_ptrs (r_files r)))"
proof -
  have "file_entries h f = concat (map (ptr_entries h) (ptrs f))" for h f
    by (simp add: file_entries_def file_lines_def ptrs_def ptr_entries_def [abs_def] comp_def)
  moreover have "concat (map (\<lambda>(_, f). concat (map (ptr_entries h) (ptrs f))) fs) =
      concat (map (ptr_entries h) (all_ptrs fs))" for h fs
    by (induction fs) (auto simp: all_ptrs_def)
  ultimately show ?thesis by (simp add: db_entries_def)
qed

lemma all_ptrs_heap:
  assumes "rep_ok r"
  shows "distinct (all_ptrs (r_files r))" "set (all_ptrs (r_files r)) = {..<length (r_heap r)}"
proof -
  have m: "mset (all_ptrs (r_files r)) = mset [0..<length (r_heap r)]"
    using rep_okD(7) [OF assms] by (simp only: owned_ok_def)
  show "distinct (all_ptrs (r_files r))" using mset_eq_imp_distinct_iff [OF m] distinct_upt by blast
  have "set (all_ptrs (r_files r)) = set [0..<length (r_heap r)]" by (rule mset_eq_setD [OF m])
  then show "set (all_ptrs (r_files r)) = {..<length (r_heap r)}" by (simp add: atLeast0LessThan)
qed

lemma db_entries_sound:
  assumes "rep_ok r" "(a, hash, index, hits) \<in> set (db_entries r)"
  shows "\<exists>p c. p < length (r_heap r) \<and> (a, c) \<in> set (ln_addrs (r_heap r ! p)) \<and> c \<noteq> 0 \<and> hits = scast c"
  using assms(2) all_ptrs_heap(2) [OF assms(1)]
  by (auto simp: db_entries_ptrs ptr_entries_def dest: line_entries_sound)

lemma db_entries_complete:
  assumes "rep_ok r" "p < length (r_heap r)" "(a, c) \<in> set (ln_addrs (r_heap r ! p))" "c \<noteq> 0"
  shows "\<exists>hash index. (a, hash, index, scast c) \<in> set (db_entries r)"
  using line_entries_complete [OF assms(3,4), of "ln_lineId (r_heap r ! p)" 0] all_ptrs_heap(2) [OF assms(1)] assms(2)
  by (auto simp: db_entries_ptrs ptr_entries_def)

text \<open>
  Lines with ids of their own, and addresses that belong to one line: then every address has
  at most one entry in the database.
\<close>

definition lines_distinct :: "Reporter \<Rightarrow> bool" where
  "lines_distinct r \<longleftrightarrow> distinct (map ln_lineId (r_heap r))"

definition addrs_private :: "Reporter \<Rightarrow> bool" where
  "addrs_private r \<longleftrightarrow> (\<forall>p < length (r_heap r). \<forall>q < length (r_heap r). p \<noteq> q \<longrightarrow>
     fst ` set (ln_addrs (r_heap r ! p)) \<inter> fst ` set (ln_addrs (r_heap r ! q)) = {})"

lemma distinct_concat_map:
  assumes "distinct ps" "\<forall>p \<in> set ps. distinct (f p)"
    "\<forall>p \<in> set ps. \<forall>q \<in> set ps. p \<noteq> q \<longrightarrow> set (f p) \<inter> set (f q) = {}"
  shows "distinct (concat (map f ps))"
  using assms
proof (induction ps)
  case (Cons p ps)
  then have "set (f p) \<inter> set (concat (map f ps)) = {}" by auto
  with Cons show ?case by simp
qed simp

lemma distinct_db_entries:
  assumes "rep_ok r" "addrs_private r"
  shows "distinct (map fst (db_entries r))"
proof -
  let ?f = "\<lambda>p. map fst (ptr_entries (r_heap r) p)"
  note P = all_ptrs_heap [OF assms(1)]
  have sub: "set (?f p) \<subseteq> fst ` set (ln_addrs (r_heap r ! p))" for p
    by (auto simp: ptr_entries_def map_fst_line_entries)
  have dis: "distinct (?f p)" if "p < length (r_heap r)" for p
  proof -
    have "line_ok (r_heap r ! p)" using rep_okD(1) [OF assms(1)] that by (meson nth_mem)
    then show ?thesis by (simp add: ptr_entries_def map_fst_line_entries line_ok_def distinct_map_filter)
  qed
  have apart: "set (?f p) \<inter> set (?f q) = {}" if "p < length (r_heap r)" "q < length (r_heap r)" "p \<noteq> q" for p q
  proof -
    have "fst ` set (ln_addrs (r_heap r ! p)) \<inter> fst ` set (ln_addrs (r_heap r ! q)) = {}"
      using assms(2) that unfolding addrs_private_def by metis
    with sub [of p] sub [of q] show ?thesis by (meson disjoint_iff subsetD)
  qed
  have "distinct (concat (map ?f (all_ptrs (r_files r))))"
  proof (rule distinct_concat_map [OF P(1)])
    show "\<forall>p \<in> set (all_ptrs (r_files r)). distinct (?f p)" unfolding P(2) using dis by simp
    show "\<forall>p \<in> set (all_ptrs (r_files r)). \<forall>q \<in> set (all_ptrs (r_files r)). p \<noteq> q \<longrightarrow>
        set (?f p) \<inter> set (?f q) = {}"
      unfolding P(2) lessThan_iff Ball_def using apart by (intro allI impI) assumption
  qed
  then show ?thesis by (simp add: db_entries_ptrs map_concat comp_def)
qed

lemma private_line_of:
  assumes "rep_ok r" "addrs_private r" "p < length (r_heap r)" "a \<in> fst ` set (ln_addrs (r_heap r ! p))"
  shows "\<exists>ps. r_addrToLine r a = Some ps \<and> p \<in> set ps"
proof -
  from linked_okD [OF rep_okD(6) [OF assms(1)] assms(3,4)] obtain ps q where
    q: "r_addrToLine r a = Some ps" "q \<in> set ps" by blast
  from addrs_okD [OF rep_okD(5) [OF assms(1)] q] assms(2-4) have "q = p"
    unfolding addrs_private_def by blast
  with q show ?thesis by blast
qed

section \<open>Properties\<close>

definition zero_hits :: "Reporter \<Rightarrow> bool" where
  "zero_hits r \<longleftrightarrow> (\<forall>l \<in> set (r_heap r). \<forall>x \<in> set (ln_addrs l). snd x = 0)"

lemma same_shape_known:
  assumes "rep_ok r" "same_shape r r0" "p < length (r_heap r)" "(a, c) \<in> set (ln_addrs (r_heap r ! p))"
  shows "r_addrToLine r0 a \<noteq> None"
proof -
  have "a \<in> fst ` set (ln_addrs (r_heap r ! p))" using assms(4) by force
  from linked_okD [OF rep_okD(6) [OF assms(1)] assms(3) this] assms(2) show ?thesis
    by (auto simp: same_shape_def)
qed

lemma same_shape_zero:
  assumes "same_shape r r0" "zero_hits r0" "p < length (r_heap r)" "a \<in> fst ` set (ln_addrs (r_heap r ! p))"
  shows "map_of (ln_addrs (r_heap r0 ! p)) a = Some 0"
proof -
  have sh: "same_heap (r_heap r) (r_heap r0)" using assms(1) by (simp add: same_shape_def)
  then have p: "p < length (r_heap r0)" using assms(3) same_heap_length by metis
  have "a \<in> fst ` set (ln_addrs (r_heap r0 ! p))"
    using same_line_keys [OF same_heap_nth [OF sh assms(3)]] assms(4) by simp
  then obtain c where c: "map_of (ln_addrs (r_heap r0 ! p)) a = Some c"
    by (metis map_of_eq_None_iff not_None_eq)
  have "r_heap r0 ! p \<in> set (r_heap r0)" using p by simp
  then have "snd (a, c) = 0" using map_of_SomeD [OF c] assms(2) unfolding zero_hits_def by blast
  with c show ?thesis by simp
qed

lemma db_restores_counter:
  assumes ok: "rep_ok r" "addrs_private r" and sh: "same_shape r r0" "zero_hits r0"
    and run: "unMarshal_entries e r0 (db_entries r) = Some (r', evs)"
    and p: "p < length (r_heap r)" and c: "map_of (ln_addrs (r_heap r ! p)) a = Some c"
  shows "map_of (ln_addrs (r_heap r' ! p)) a = Some (if c = 0 then 0 else if single_shot e then 1 else c)"
proof -
  have key: "a \<in> fst ` set (ln_addrs (r_heap r ! p))" using map_of_SomeD [OF c] by force
  have known: "\<forall>(addr, hash, index, hits) \<in> set (db_entries r). r_addrToLine r0 addr \<noteq> None \<and> hits \<noteq> 0"
  proof clarify
    fix addr hash index hits assume "(addr, hash, index, hits) \<in> set (db_entries r)"
    from db_entries_sound [OF ok(1) this] obtain q d where
      q: "q < length (r_heap r)" "(addr, d) \<in> set (ln_addrs (r_heap r ! q))" "d \<noteq> 0" "hits = scast d" by blast
    have "hits \<noteq> 0" using q(3,4) of_entry_hits [of d] by (metis unsigned_0)
    with same_shape_known [OF ok(1) sh(1) q(1,2)] show "r_addrToLine r0 addr \<noteq> None \<and> hits \<noteq> 0" by blast
  qed
  obtain ps where ps: "r_addrToLine r0 a = Some ps" "p \<in> set ps"
    using private_line_of [OF ok p key] sh(1) by (auto simp: same_shape_def)
  from unMarshal_entries_counter [OF rep_ok_same_shape [OF ok(1) sh(1)] run known ps]
    same_shape_zero [OF sh p key]
  have "map_of (ln_addrs (r_heap r' ! p)) a = Some (counter_after (single_shot e) a (db_entries r) 0)" by simp
  moreover have "counter_after (single_shot e) a (db_entries r) 0 =
      (if c = 0 then 0 else if single_shot e then 1 else c)"
  proof (cases "c = 0")
    case True
    have "a \<notin> fst ` set (db_entries r)"
    proof
      assume "a \<in> fst ` set (db_entries r)"
      then obtain q d where q: "q < length (r_heap r)" "(a, d) \<in> set (ln_addrs (r_heap r ! q))" "d \<noteq> 0"
        using db_entries_sound [OF ok(1)] by force
      then have "q = p" using ok(2) p key unfolding addrs_private_def by force
      then have "map_of (ln_addrs (r_heap r ! p)) a = Some d"
        using q rep_okD(1) [OF ok(1)] by (intro map_of_is_SomeI) (auto simp: line_ok_def)
      with c True q(3) show False by simp
    qed
    with True show ?thesis by (simp add: counter_after_other)
  next
    case False
    from db_entries_complete [OF ok(1) p map_of_SomeD [OF c] False] obtain hash index where
      "(a, hash, index, scast c) \<in> set (db_entries r)" by blast
    from counter_after_once [OF distinct_db_entries [OF ok] this] False show ?thesis
      by (simp add: of_entry_hits)
  qed
  ultimately show ?thesis by simp
qed

end
