(* ===== verification/Kcov_Reporter_Props.thy ===== *)
theory Kcov_Reporter_Props
  imports Kcov_Reporter_Db
begin

text \<open>
  The properties of the reporter in the states it can reach: no undefined behaviour, what a hit
  counts, the order of first hits, the summary, and the coverage database from one run to the
  next.
\<close>

section \<open>The summary\<close>

lemma getExecutedLines_eq: "getExecutedLines h f = of_nat (executed_lines h f)"
proof -
  have "foldl (\<lambda>out cur. if ln_unreachable cur then out else out + (if line_hits cur \<noteq> 0 then 1 else 0)) n ls =
      n + of_nat (length (filter (\<lambda>l. \<not> ln_unreachable l \<and> line_hits l \<noteq> 0) ls))" for n :: u32 and ls
    by (induction ls arbitrary: n) auto
  then show ?thesis by (simp add: getExecutedLines_def executed_lines_def)
qed

lemma executed_le_reachable: "executed_lines h f \<le> reachable_lines h f"
proof -
  have "length (filter (\<lambda>l. \<not> ln_unreachable l \<and> line_hits l \<noteq> 0) ls) \<le> length (filter (\<lambda>l. \<not> ln_unreachable l) ls)" for ls
    by (induction ls) auto
  then show ?thesis by (simp add: executed_lines_def reachable_lines_def)
qed

text \<open>The files the summary counts: those that exist and that the filters let through.\<close>

definition included_files :: "rep_env \<Rightarrow> Reporter \<Rightarrow> File list" where
  "included_files e r =
     map snd (filter (\<lambda>(n, _). e_exists e n \<and> runFilters (e_rp e) (r_filter r) n) (r_files r))"

lemma getExecutionSummary_eq:
  "getExecutionSummary e r =
     \<lparr> es_lines = sum_list (map fl_nrLines (included_files e r)),
       es_executedLines = sum_list (map (getExecutedLines (r_heap r)) (included_files e r)) \<rparr>"
proof -
  have "foldl (\<lambda>s (n, f). if \<not> e_exists e n then s else if \<not> runFilters (e_rp e) (r_filter r) n then s
              else \<lparr> es_lines = es_lines s + fl_nrLines f,
                     es_executedLines = es_executedLines s + getExecutedLines (r_heap r) f \<rparr>)
           \<lparr> es_lines = a, es_executedLines = b \<rparr> fs =
      \<lparr> es_lines = a + sum_list (map fl_nrLines (map snd (filter (\<lambda>(n, _). e_exists e n \<and> runFilters (e_rp e) (r_filter r) n) fs))),
        es_executedLines = b + sum_list (map (getExecutedLines (r_heap r))
          (map snd (filter (\<lambda>(n, _). e_exists e n \<and> runFilters (e_rp e) (r_filter r) n) fs))) \<rparr>" for a b fs
    by (induction fs arbitrary: a b) (simp_all add: add.assoc split: prod.split)
  then show ?thesis by (simp add: getExecutionSummary_def included_files_def)
qed

lemma sum_list_of_nat: "sum_list (map (\<lambda>x. of_nat (f x)) xs) = (of_nat (sum_list (map f xs)) :: 'a::semiring_1)"
  by (induction xs) auto

lemma summary_nat:
  assumes "rep_ok r"
  shows "getExecutionSummary e r =
     \<lparr> es_lines = of_nat (sum_list (map (reachable_lines (r_heap r)) (included_files e r))),
       es_executedLines = of_nat (sum_list (map (executed_lines (r_heap r)) (included_files e r))) \<rparr>"
proof -
  have "fl_nrLines f = of_nat (reachable_lines (r_heap r) f)" if "f \<in> set (included_files e r)" for f
  proof -
    from that obtain n where "(n, f) \<in> set (r_files r)" by (auto simp: included_files_def)
    from rep_okD(4) [OF assms this] show ?thesis by (simp add: count_ok_def)
  qed
  then have "map fl_nrLines (included_files e r) = map (\<lambda>f. of_nat (reachable_lines (r_heap r) f)) (included_files e r)"
    by (intro map_cong) auto
  then have "sum_list (map fl_nrLines (included_files e r)) =
      of_nat (sum_list (map (reachable_lines (r_heap r)) (included_files e r)))"
    by (simp only: sum_list_of_nat)
  then show ?thesis
    by (simp add: getExecutionSummary_eq getExecutedLines_eq [abs_def] sum_list_of_nat)
qed

section \<open>A line that was reported and then hit\<close>

lemma link_addr_line:
  assumes "p < length (r_heap r)"
  shows "ln_lineId (r_heap (link_addr r p a) ! q) = ln_lineId (r_heap r ! q)"
    "a \<in> fst ` set (ln_addrs (r_heap (link_addr r p a) ! p))"
    "ln_unreachable (r_heap (link_addr r p a) ! q) = ln_unreachable (r_heap r ! q)"
  using assms by (auto simp: link_addr_def Let_def nth_list_update)

lemma onLine_registers:
  assumes "rep_ok r" "lineNr \<noteq> -1" "length (e_getLines e fp) < 2 ^ 32 - 1"
    "runFilters (e_rp e) (r_filter r) fp" "onLine e r fp lineNr addr = Some (r', evs)"
  shows "\<exists>f p. map_of (r_files r') fp = Some f \<and> getLine f lineNr = Some p \<and> p < length (r_heap r') \<and>
     addr \<in> fst ` set (ln_addrs (r_heap r' ! p)) \<and> ln_lineId (r_heap r' ! p) = line_id (fl_fileHash f) lineNr"
proof -
  from ensure_file_ok [OF assms(1,3)] obtain r1 f where
    r1: "ensure_file e r fp = Some (r1, f)" "rep_ok r1" "map_of (r_files r1) fp = Some f" by blast
  from ensure_line_ok [OF r1(2,3) assms(2)] obtain r2 p f2 where
    r2: "ensure_line r1 f fp lineNr = Some (r2, p)" "rep_ok r2" "p < length (r_heap r2)"
      "map_of (r_files r2) fp = Some f2" "getLine f2 lineNr = Some p" by blast
  let ?r3 = "link_addr r2 p addr"
  have r': "r' = fst (flush_pending e ?r3 p)"
    using assms(4,5) r1(1) r2(1) by (auto simp: onLine_def split: prod.splits)
  have sh: "same_shape ?r3 r'" using flush_pending_same [of p ?r3 e] r2(3) r' by simp
  have ok': "rep_ok r'" by (rule rep_ok_same_shape [OF link_addr_ok [OF r2(2,3)] sh])
  have files: "map_of (r_files r') fp = Some f2" using sh r2(4) by (simp add: same_shape_def)
  have p': "p < length (r_heap r')" using sh r2(3) same_heap_length by (fastforce simp: same_shape_def)
  have "same_line (r_heap ?r3 ! p) (r_heap r' ! p)"
    using sh r2(3) same_heap_nth by (simp add: same_shape_def)
  with link_addr_line(2) [OF r2(3)] have "addr \<in> fst ` set (ln_addrs (r_heap r' ! p))"
    by (simp add: same_line_keys)
  moreover have "ln_lineId (r_heap r' ! p) = line_id (fl_fileHash f2) lineNr"
  proof -
    have n: "unat lineNr < length (fl_lines f2)" "fl_lines f2 ! unat lineNr = Some p"
      using r2(5) by (auto simp: getLine_def split: if_splits)
    from file_okD [OF rep_okD(3) [OF ok' map_of_SomeD [OF files]] n] show ?thesis by simp
  qed
  ultimately show ?thesis using files r2(5) p' by blast
qed

lemma onLine_hit_line:
  assumes "rep_ok r'" "lines_distinct r'" "p < length (r_heap r')" "addr \<in> fst ` set (ln_addrs (r_heap r' ! p))"
  shows "\<exists>ps. r_addrToLine r' addr = Some ps \<and> p \<in> set ps"
proof -
  from linked_okD [OF rep_okD(6) [OF assms(1)] assms(3,4)] obtain ps q where
    q: "r_addrToLine r' addr = Some ps" "q \<in> set ps" "ln_lineId (r_heap r' ! q) = ln_lineId (r_heap r' ! p)" by blast
  then have "q < length (r_heap r')" using addrs_okD [OF rep_okD(5) [OF assms(1)] q(1,2)] by blast
  with q(3) assms(2,3) have "q = p"
    unfolding lines_distinct_def by (simp add: distinct_conv_nth) metis
  with q show ?thesis by blast
qed

lemma hit_lines_events:
  assumes "hit_lines e r ps addr hits = Some (r', evs)" "p \<in> set ps"
    "\<forall>q \<in> set ps. q < length (r_heap r)"
  shows "OnAddress (ln_lineId (r_heap r ! p)) hits \<in> set evs"
  using assms
proof (induction ps arbitrary: r evs)
  case (Cons q ps)
  from Cons.prems(1) obtain l where l: "registerHit (r_heap r ! q) addr hits (single_shot e) = Some l"
    by (auto split: option.splits)
  let ?l = "if ln_order l = 0 then l\<lparr>ln_order := r_order r\<rparr> else l"
  let ?r = "r\<lparr>r_heap := (r_heap r)[q := ?l], r_order := (if ln_order l = 0 then r_order r + 1 else r_order r)\<rparr>"
  have id: "ln_lineId ?l = ln_lineId (r_heap r ! q)" using registerHit_keys [OF l] by simp
  from Cons.prems(1) l obtain evs' where
    run: "hit_lines e ?r ps addr hits = Some (r', evs')" and evs: "evs = OnAddress (ln_lineId ?l) hits # evs'"
    by (auto simp: Let_def split: if_splits)
  show ?case
  proof (cases "p = q")
    case True
    with evs id show ?thesis by simp
  next
    case False
    with Cons.IH [OF run] Cons.prems evs show ?thesis by simp
  qed
qed simp

lemma same_shape_sym: "same_shape r r' \<Longrightarrow> same_shape r' r"
  by (auto simp: same_shape_def same_heap_def list_all2_conv_all_nth same_line_def)

section \<open>A concrete reporter\<close>

text \<open>
  For the witnesses: a source file of three lines, the second one excluded, and the reporter
  after a line with two addresses has been reported and one of them hit.
\<close>

definition demo_conf :: filter_conf where
  "demo_conf = \<lparr> conf_exclude_line = [], conf_exclude_region = [], conf_include_pattern = [],
     conf_exclude_pattern = [], conf_include_path = [], conf_exclude_path = [],
     conf_orig_path_prefix = [], conf_new_path_prefix = [] \<rparr>"

definition demo_env :: "PossibleHits \<Rightarrow> rep_env" where
  "demo_env hits =
     \<lparr> e_rp = (\<lambda>p. p), e_exists = (\<lambda>_. True), e_read = (\<lambda>_. None), e_crc32 = (\<lambda>_. 0),
       e_std_hash = (\<lambda>s. of_nat (length s)), e_getLines = (\<lambda>_. [''a;'', ''b; // LCOV_EXCL_LINE'', ''c;'']),
       e_hashFilename = True, e_maxPossibleHits = hits, e_checksum = 42, e_cleanOutput = False,
       e_little_endian = True \<rparr>"

definition demo_r0 :: "PossibleHits \<Rightarrow> Reporter" where
  "demo_r0 hits = mk_Reporter (mk_Filter (\<lambda>p. p) demo_conf)"

definition demo_r1 :: "PossibleHits \<Rightarrow> Reporter" where
  "demo_r1 hits = fst (the (onLine (demo_env hits) (demo_r0 hits) ''a.c'' 3 0x10))"

definition demo_r2 :: "PossibleHits \<Rightarrow> Reporter" where
  "demo_r2 hits = fst (the (onLine (demo_env hits) (demo_r1 hits) ''a.c'' 3 0x20))"

definition demo_r3 :: "PossibleHits \<Rightarrow> Reporter" where
  "demo_r3 hits = fst (the (onAddressHit (demo_env hits) (demo_r2 hits) 0x20 5))"

lemma demo_nr: "(3 :: u32) \<noteq> -1" "length (e_getLines (demo_env hits) fp) < 2 ^ 32 - 1"
  by (simp_all add: demo_env_def)

lemma demo_run_line:
  assumes "rep_ok r"
  shows "\<exists>evs. onLine (demo_env hits) r fp 3 a = Some (fst (the (onLine (demo_env hits) r fp 3 a)), evs)"
    "rep_step (demo_env hits) r (fst (the (onLine (demo_env hits) r fp 3 a)))"
    "rep_ok (fst (the (onLine (demo_env hits) r fp 3 a)))"
proof -
  obtain r' evs where r': "onLine (demo_env hits) r fp 3 a = Some (r', evs)" "rep_ok r'"
    using onLine_ok [OF assms demo_nr] by blast
  then show "\<exists>evs. onLine (demo_env hits) r fp 3 a = Some (fst (the (onLine (demo_env hits) r fp 3 a)), evs)"
    "rep_ok (fst (the (onLine (demo_env hits) r fp 3 a)))" by auto
  show "rep_step (demo_env hits) r (fst (the (onLine (demo_env hits) r fp 3 a)))"
    using rep_step.line [OF demo_nr r'(1)] r'(1) by simp
qed

lemma demo_run_hit:
  assumes "rep_ok r"
  shows "\<exists>evs. onAddressHit e r a n = Some (fst (the (onAddressHit e r a n)), evs)"
    "rep_step e r (fst (the (onAddressHit e r a n)))" "rep_ok (fst (the (onAddressHit e r a n)))"
proof -
  obtain r' evs where r': "onAddressHit e r a n = Some (r', evs)" "same_shape r r'"
    using onAddressHit_same [OF assms, of e a n] by blast
  then show "\<exists>evs. onAddressHit e r a n = Some (fst (the (onAddressHit e r a n)), evs)"
    "rep_ok (fst (the (onAddressHit e r a n)))" using rep_ok_same_shape [OF assms] by auto
  show "rep_step e r (fst (the (onAddressHit e r a n)))"
    using rep_step.hit [OF r'(1)] r'(1) by simp
qed

lemma demo_ok: "rep_ok (demo_r0 hits)" "rep_ok (demo_r1 hits)" "rep_ok (demo_r2 hits)" "rep_ok (demo_r3 hits)"
  unfolding demo_r3_def demo_r2_def demo_r1_def demo_r0_def
  by (intro demo_run_hit(3) demo_run_line(3) rep_ok_mk)+

lemma demo_reachable:
  "(rep_step (demo_env hits))\<^sup>*\<^sup>* (mk_Reporter (mk_Filter (\<lambda>p. p) demo_conf)) (demo_r2 hits)"
  "(rep_step (demo_env hits))\<^sup>*\<^sup>* (mk_Reporter (mk_Filter (\<lambda>p. p) demo_conf)) (demo_r3 hits)"
proof -
  have "rep_step (demo_env hits) (demo_r0 hits) (demo_r1 hits)"
    unfolding demo_r1_def by (rule demo_run_line(2) [OF demo_ok(1)])
  moreover have "rep_step (demo_env hits) (demo_r1 hits) (demo_r2 hits)"
    unfolding demo_r2_def by (rule demo_run_line(2) [OF demo_ok(2)])
  moreover have "rep_step (demo_env hits) (demo_r2 hits) (demo_r3 hits)"
    unfolding demo_r3_def by (rule demo_run_hit(2) [OF demo_ok(3)])
  ultimately show "(rep_step (demo_env hits))\<^sup>*\<^sup>* (mk_Reporter (mk_Filter (\<lambda>p. p) demo_conf)) (demo_r2 hits)"
    "(rep_step (demo_env hits))\<^sup>*\<^sup>* (mk_Reporter (mk_Filter (\<lambda>p. p) demo_conf)) (demo_r3 hits)"
    unfolding demo_r0_def by (meson converse_rtranclp_into_rtranclp rtranclp.rtrancl_refl)+
qed

lemma demo_heap3:
  "r_heap (demo_r3 HITS_UNLIMITED) =
     [\<lparr> ln_addrs = [], ln_lineId = 0x300000002, ln_order = 0, ln_unreachable = True \<rparr>,
      \<lparr> ln_addrs = [(0x10, 0), (0x20, 5)], ln_lineId = 0x300000003, ln_order = 1, ln_unreachable = False \<rparr>]"
  by code_simp

lemma demo_counts:
  "getExecutionSummary (demo_env HITS_UNLIMITED) (demo_r3 HITS_UNLIMITED) = \<lparr> es_lines = 1, es_executedLines = 1 \<rparr>"
  by code_simp

section \<open>Properties\<close>

lemma reachable_ok: "(rep_step e)\<^sup>*\<^sup>* (mk_Reporter flt) r \<Longrightarrow> rep_inv r"
  using reporter_reachable by blast

text \<open>
  Property C1. In every state the reporter can reach, its structures agree with each other (every
  pointer is valid, every address leads to its lines, every line sits in one slot of one file and
  carries the id of that slot), and no call runs into undefined behaviour: a hit of any address,
  a line of any file (its number and the file's line count below the largest unsigned int), and
  writing the database into its buffer.
\<close>

theorem reporter_safe:
  assumes "(rep_step e)\<^sup>*\<^sup>* (mk_Reporter flt) r"
  shows "rep_ok r \<and> onAddressHit e r addr hits \<noteq> None \<and>
     (nr \<noteq> -1 \<and> length (e_getLines e fp) < 2 ^ 32 - 1 \<longrightarrow> onLine e r fp nr addr \<noteq> None) \<and>
     marshal e r \<noteq> None"
proof -
  have ok: "rep_ok r" using reachable_ok [OF assms] by (simp add: rep_inv_def)
  have "onAddressHit e r addr hits \<noteq> None" using onAddressHit_same [OF ok] by (metis option.distinct(1))
  moreover have "onLine e r fp nr addr \<noteq> None" if "nr \<noteq> -1" "length (e_getLines e fp) < 2 ^ 32 - 1"
    using onLine_ok [OF ok that] by (metis option.distinct(1))
  ultimately show ?thesis using ok by (simp add: marshal_eq)
qed

theorem reporter_safe_witness:
  "rep_ok (demo_r3 HITS_LIMITED) \<and> onAddressHit (demo_env HITS_LIMITED) (demo_r3 HITS_LIMITED) 0x10 1 \<noteq> None \<and>
   onLine (demo_env HITS_LIMITED) (demo_r3 HITS_LIMITED) ''b.c'' 3 0x30 \<noteq> None"
  using reporter_safe [OF demo_reachable(2), of HITS_LIMITED "0x10" 1 3 "''b.c''"]
    reporter_safe [OF demo_reachable(2), of HITS_LIMITED "0x30" 1 3 "''b.c''"] demo_nr by blast

definition listed_lines :: "Reporter \<Rightarrow> u64 \<Rightarrow> nat set" where
  "listed_lines r addr = {p. \<exists>ps. r_addrToLine r addr = Some ps \<and> p \<in> set ps}"

lemma listed_lines_one_of_each_id:
  assumes "rep_ok r"
  shows "listed_lines r addr \<subseteq> {p. p < length (r_heap r) \<and> addr \<in> fst ` set (ln_addrs (r_heap r ! p))}"
    and "\<forall>p < length (r_heap r). addr \<in> fst ` set (ln_addrs (r_heap r ! p)) \<longrightarrow>
        (\<exists>!q. q \<in> listed_lines r addr \<and> ln_lineId (r_heap r ! q) = ln_lineId (r_heap r ! p))"
proof -
  have a: "addrs_ok (r_heap r) (r_addrToLine r)" and l: "linked_ok (r_heap r) (r_addrToLine r)"
    and u: "uniq_ok (r_heap r) (r_addrToLine r)" using assms by (simp_all add: rep_ok_def)
  show "listed_lines r addr \<subseteq> {p. p < length (r_heap r) \<and> addr \<in> fst ` set (ln_addrs (r_heap r ! p))}"
    using a unfolding addrs_ok_def listed_lines_def by blast
  have inj: "inj_on (\<lambda>p. ln_lineId (r_heap r ! p)) (listed_lines r addr)"
    using u unfolding uniq_ok_def listed_lines_def by (cases "r_addrToLine r addr") (auto simp: distinct_map)
  show "\<forall>p < length (r_heap r). addr \<in> fst ` set (ln_addrs (r_heap r ! p)) \<longrightarrow>
        (\<exists>!q. q \<in> listed_lines r addr \<and> ln_lineId (r_heap r ! q) = ln_lineId (r_heap r ! p))"
  proof (intro allI impI)
    fix p assume "p < length (r_heap r)" "addr \<in> fst ` set (ln_addrs (r_heap r ! p))"
    then obtain q where "q \<in> listed_lines r addr" "ln_lineId (r_heap r ! q) = ln_lineId (r_heap r ! p)"
      using l unfolding linked_ok_def listed_lines_def by blast
    then show "\<exists>!q. q \<in> listed_lines r addr \<and> ln_lineId (r_heap r ! q) = ln_lineId (r_heap r ! p)"
      using inj by (auto simp: inj_on_def)
  qed
qed

text \<open>
  Property C2. In every state the reporter can reach (with files shorter than 2^32 - 1 lines), a hit changes the counter of the hit address and no
  other one, on exactly one line of each line id among the lines that have the address: to one where hits
  are single-shot, by the number of hits (modulo 2^32) where they are unlimited. So it is counted on every line
  that has the address, unless two such lines share their id (lines of the same number in two files with the same
  checksum or name hash), where one of them stands for both. No line gains or loses an address.
\<close>

theorem hit_counts:
  assumes "(rep_step e)\<^sup>*\<^sup>* (mk_Reporter flt) r" "onAddressHit e r addr hits = Some (r', evs)"
  shows "\<exists>S \<subseteq> {p. p < length (r_heap r) \<and> addr \<in> fst ` set (ln_addrs (r_heap r ! p))}.
     (\<forall>p < length (r_heap r). addr \<in> fst ` set (ln_addrs (r_heap r ! p)) \<longrightarrow>
        (\<exists>!q. q \<in> S \<and> ln_lineId (r_heap r ! q) = ln_lineId (r_heap r ! p))) \<and>
     length (r_heap r') = length (r_heap r) \<and>
     (\<forall>p < length (r_heap r). map fst (ln_addrs (r_heap r' ! p)) = map fst (ln_addrs (r_heap r ! p)) \<and>
        (\<forall>a. map_of (ln_addrs (r_heap r' ! p)) a =
          (if a = addr \<and> p \<in> S
           then Some (if single_shot e then 1 else the (map_of (ln_addrs (r_heap r ! p)) addr) + ucast hits)
           else map_of (ln_addrs (r_heap r ! p)) a)))"
proof -
  have ok: "rep_ok r" using reachable_ok [OF assms(1)] by (simp add: rep_inv_def)
  from onAddressHit_same [OF ok, of e addr hits] assms(2) have same: "same_heap (r_heap r) (r_heap r')"
    by (auto simp: same_shape_def)
  let ?S = "listed_lines r addr"
  have "?S \<subseteq> {p. p < length (r_heap r) \<and> addr \<in> fst ` set (ln_addrs (r_heap r ! p))}"
    "\<forall>p < length (r_heap r). addr \<in> fst ` set (ln_addrs (r_heap r ! p)) \<longrightarrow>
        (\<exists>!q. q \<in> ?S \<and> ln_lineId (r_heap r ! q) = ln_lineId (r_heap r ! p))"
    using listed_lines_one_of_each_id [OF ok] by blast+
  moreover have "\<forall>p < length (r_heap r). map fst (ln_addrs (r_heap r' ! p)) = map fst (ln_addrs (r_heap r ! p))"
    using same_heap_nth [OF same] by (simp add: same_line_def)
  moreover have "length (r_heap r') = length (r_heap r)" using same_heap_length [OF same] by simp
  ultimately show ?thesis
    using onAddressHit_counter [OF ok assms(2)] by (intro exI [of _ ?S]) (simp add: listed_lines_def)
qed

lemma demo_heap2:
  "r_heap (demo_r2 HITS_UNLIMITED) =
     [\<lparr> ln_addrs = [], ln_lineId = 0x300000002, ln_order = 0, ln_unreachable = True \<rparr>,
      \<lparr> ln_addrs = [(0x10, 0), (0x20, 0)], ln_lineId = 0x300000003, ln_order = 0, ln_unreachable = False \<rparr>]"
  by code_simp

theorem hit_counts_witness:
  "map_of (ln_addrs (r_heap (demo_r3 HITS_UNLIMITED) ! 1)) 0x20 = Some 5"
proof -
  obtain evs where run: "onAddressHit (demo_env HITS_UNLIMITED) (demo_r2 HITS_UNLIMITED) 0x20 5 =
      Some (demo_r3 HITS_UNLIMITED, evs)"
    using demo_run_hit(1) [OF demo_ok(3), of "demo_env HITS_UNLIMITED"] unfolding demo_r3_def by blast
  have ss: "single_shot (demo_env HITS_UNLIMITED) = False" by code_simp
  from hit_counts [OF demo_reachable(1) run] obtain S where
    sub: "S \<subseteq> {p. p < length (r_heap (demo_r2 HITS_UNLIMITED)) \<and> 0x20 \<in> fst ` set (ln_addrs (r_heap (demo_r2 HITS_UNLIMITED) ! p))}"
    and one: "\<forall>p < length (r_heap (demo_r2 HITS_UNLIMITED)). 0x20 \<in> fst ` set (ln_addrs (r_heap (demo_r2 HITS_UNLIMITED) ! p)) \<longrightarrow>
        (\<exists>!q. q \<in> S \<and> ln_lineId (r_heap (demo_r2 HITS_UNLIMITED) ! q) = ln_lineId (r_heap (demo_r2 HITS_UNLIMITED) ! p))"
    and cnt: "\<forall>p < length (r_heap (demo_r2 HITS_UNLIMITED)). \<forall>a. map_of (ln_addrs (r_heap (demo_r3 HITS_UNLIMITED) ! p)) a =
        (if a = 0x20 \<and> p \<in> S then Some (if single_shot (demo_env HITS_UNLIMITED) then 1
           else the (map_of (ln_addrs (r_heap (demo_r2 HITS_UNLIMITED) ! p)) 0x20) + ucast (5 :: u64))
         else map_of (ln_addrs (r_heap (demo_r2 HITS_UNLIMITED) ! p)) a)"
    by (elim exE conjE) (rule that, assumption, assumption, intro allI impI, drule spec, drule (1) mp, erule conjE, erule spec)
  have S: "S \<subseteq> {p. p < 2 \<and> 0x20 \<in> fst ` set (ln_addrs (r_heap (demo_r2 HITS_UNLIMITED) ! p))}" "\<exists>q. q \<in> S"
      "map_of (ln_addrs (r_heap (demo_r3 HITS_UNLIMITED) ! 1)) 0x20 = (if 1 \<in> S then Some 5 else Some 0)"
    using sub spec [OF one, of 1] spec [OF cnt, of 1] by (auto simp: demo_heap2 ss)
  have "q = 1" if "q \<in> S" for q using S(1) that by (cases q) (auto simp: demo_heap2)
  then have "1 \<in> S" using S(2) by blast
  then show ?thesis using S(3) by simp
qed

text \<open>
  Property C26. The order of first hits: in every state the reporter can reach (with files shorter than 2^32 - 1 lines), while the lines number
  below 2^64 - 1, the orders given to lines at their first hit are exactly 1, 2, ... up to the next order to be given,
  each of them given to exactly one line; all other lines have order 0.
\<close>

theorem hit_orders_consecutive:
  assumes "(rep_step e)\<^sup>*\<^sup>* (mk_Reporter flt) r" "length (r_heap r) < 2 ^ 64 - 1"
  shows "image_mset ln_order (filter_mset (\<lambda>l. ln_order l \<noteq> 0) (mset (r_heap r))) =
     image_mset of_nat (mset [1..<unat (r_order r)])"
proof -
  have "image_mset unat (image_mset ln_order (filter_mset (\<lambda>l. ln_order l \<noteq> 0) (mset (r_heap r)))) =
      mset [1..<unat (r_order r)]"
    using reachable_ok [OF assms(1)] assms(2)
    by (simp add: rep_inv_def orders_ok_def hit_orders_def filter_mset_image_mset comp_def unat_gt_0
        multiset.map_comp)
  then have "image_mset of_nat (image_mset unat (image_mset ln_order
      (filter_mset (\<lambda>l. ln_order l \<noteq> 0) (mset (r_heap r))))) =
      image_mset (of_nat :: nat \<Rightarrow> u64) (mset [1..<unat (r_order r)])" by (rule arg_cong)
  then show ?thesis by (simp add: multiset.map_comp comp_def)
qed

theorem hit_orders_consecutive_witness:
  "image_mset ln_order (filter_mset (\<lambda>l. ln_order l \<noteq> 0) (mset (r_heap (demo_r3 HITS_UNLIMITED)))) = {#1#}"
proof -
  have "length (r_heap (demo_r3 HITS_UNLIMITED)) < 2 ^ 64 - 1" by (simp add: demo_heap3)
  moreover have "unat (r_order (demo_r3 HITS_UNLIMITED)) = 2" by code_simp
  ultimately show ?thesis using hit_orders_consecutive [OF demo_reachable(2)] by (simp add: numeral_2_eq_2)
qed

text \<open>
  Property C6. The summary over the files that exist and pass the filters: as long as their
  code lines number below 2^32, it is the number of code lines (excluded ones left out) and the
  number of those with a hit, and the second is at most the first.
\<close>

theorem summary_spec:
  assumes "(rep_step e)\<^sup>*\<^sup>* (mk_Reporter flt) r"
    and "sum_list (map (reachable_lines (r_heap r)) (included_files e r)) < 2 ^ 32"
  shows "unat (es_lines (getExecutionSummary e r)) = sum_list (map (reachable_lines (r_heap r)) (included_files e r)) \<and>
     unat (es_executedLines (getExecutionSummary e r)) = sum_list (map (executed_lines (r_heap r)) (included_files e r)) \<and>
     es_executedLines (getExecutionSummary e r) \<le> es_lines (getExecutionSummary e r)"
proof -
  let ?n = "sum_list (map (reachable_lines (r_heap r)) (included_files e r))"
  let ?m = "sum_list (map (executed_lines (r_heap r)) (included_files e r))"
  have ok: "rep_ok r" using reachable_ok [OF assms(1)] by (simp add: rep_inv_def)
  have le: "?m \<le> ?n" by (rule sum_list_mono) (rule executed_le_reachable)
  have "unat (of_nat ?n :: u32) = ?n" "unat (of_nat ?m :: u32) = ?m"
    using assms(2) le by (auto intro!: unat_of_nat_small)
  with le show ?thesis by (simp add: summary_nat [OF ok] word_le_nat_alt)
qed

theorem summary_spec_witness:
  "unat (es_lines (getExecutionSummary (demo_env HITS_UNLIMITED) (demo_r3 HITS_UNLIMITED))) = 1 \<and>
   es_executedLines (getExecutionSummary (demo_env HITS_UNLIMITED) (demo_r3 HITS_UNLIMITED))
     \<le> es_lines (getExecutionSummary (demo_env HITS_UNLIMITED) (demo_r3 HITS_UNLIMITED))"
proof -
  have "sum_list (map (reachable_lines (r_heap (demo_r3 HITS_UNLIMITED)))
      (included_files (demo_env HITS_UNLIMITED) (demo_r3 HITS_UNLIMITED))) = 1" by code_simp
  with summary_spec [OF demo_reachable(2), of HITS_UNLIMITED] show ?thesis by simp
qed

text \<open>
  Property C8. A line of an included file that is reported with an address is there afterwards
  under its number, and a later hit of that address shows in that very line's counter for it,
  provided no two lines have the same id (two files with the same hash would share them).
\<close>

theorem reported_line_is_hit:
  assumes "(rep_step e)\<^sup>*\<^sup>* (mk_Reporter flt) r" "nr \<noteq> -1" "length (e_getLines e fp) < 2 ^ 32 - 1"
    and "fileIsIncluded e r fp" "onLine e r fp nr addr = Some (r1, evs)" "lines_distinct r1"
    and "onAddressHit e r1 addr hits = Some (r2, evs')"
  shows "\<exists>f p c. map_of (r_files r2) fp = Some f \<and> getLine f nr = Some p \<and>
     map_of (ln_addrs (r_heap r1 ! p)) addr = Some c \<and>
     map_of (ln_addrs (r_heap r2 ! p)) addr = Some (if single_shot e then 1 else c + ucast hits) \<and>
     OnAddress (ln_lineId (r_heap r1 ! p)) hits \<in> set evs'"
proof -
  have ok: "rep_ok r" using reachable_ok [OF assms(1)] by (simp add: rep_inv_def)
  have ok1: "rep_ok r1" by (rule onLine_step_ok [OF ok assms(2,3,5)])
  from onLine_registers [OF ok assms(2,3) assms(4) [unfolded fileIsIncluded_def] assms(5)] obtain f p where
    p: "map_of (r_files r1) fp = Some f" "getLine f nr = Some p" "p < length (r_heap r1)"
      "addr \<in> fst ` set (ln_addrs (r_heap r1 ! p))" by blast
  from onLine_hit_line [OF ok1 assms(6) p(3,4)] obtain ps where
    ps: "r_addrToLine r1 addr = Some ps" "p \<in> set ps" by blast
  from p(4) obtain c where c: "map_of (ln_addrs (r_heap r1 ! p)) addr = Some c"
    by (metis map_of_eq_None_iff not_None_eq)
  have "r_files r2 = r_files r1"
    using onAddressHit_same [OF ok1, of e addr hits] assms(7) by (auto simp: same_shape_def)
  moreover have "OnAddress (ln_lineId (r_heap r1 ! p)) hits \<in> set evs'"
    using hit_lines_events [of e r1 ps addr hits r2 evs' p] assms(7) ps
      addrs_okD [OF rep_okD(5) [OF ok1] ps(1)] by (auto simp: onAddressHit_def)
  ultimately show ?thesis
    using onAddressHit_counter_of [OF ok1 assms(7) ps] c p(1,2) by auto
qed

theorem reported_line_is_hit_witness:
  "\<exists>p. map_of (ln_addrs (r_heap (demo_r3 HITS_UNLIMITED) ! p)) 0x20 = Some 5"
proof -
  let ?e = "demo_env HITS_UNLIMITED"
  have r1: "(rep_step ?e)\<^sup>*\<^sup>* (mk_Reporter (mk_Filter (\<lambda>p. p) demo_conf)) (demo_r1 HITS_UNLIMITED)"
    using demo_run_line(2) [OF demo_ok(1), of HITS_UNLIMITED] unfolding demo_r1_def demo_r0_def by blast
  obtain evs evs' where
    l: "onLine ?e (demo_r1 HITS_UNLIMITED) ''a.c'' 3 0x20 = Some (demo_r2 HITS_UNLIMITED, evs)"
    and h: "onAddressHit ?e (demo_r2 HITS_UNLIMITED) 0x20 5 = Some (demo_r3 HITS_UNLIMITED, evs')"
    using demo_run_line(1) [OF demo_ok(2), of HITS_UNLIMITED] demo_run_hit(1) [OF demo_ok(3), of ?e]
    unfolding demo_r2_def demo_r3_def by blast
  have inc: "fileIsIncluded ?e (demo_r1 HITS_UNLIMITED) ''a.c''" and d: "lines_distinct (demo_r2 HITS_UNLIMITED)"
    and s: "\<not> single_shot ?e" by code_simp+
  have z: "map_of (ln_addrs (r_heap (demo_r2 HITS_UNLIMITED) ! 1)) 0x20 = Some 0" by code_simp
  have f: "map_option (\<lambda>f. getLine f 3) (map_of (r_files (demo_r3 HITS_UNLIMITED)) ''a.c'') = Some (Some 1)"
    by code_simp
  from reported_line_is_hit [OF r1 demo_nr inc l d h] obtain p c fl where
    p: "map_of (r_files (demo_r3 HITS_UNLIMITED)) ''a.c'' = Some fl" "getLine fl 3 = Some p"
      "map_of (ln_addrs (r_heap (demo_r2 HITS_UNLIMITED) ! p)) 0x20 = Some c"
      "map_of (ln_addrs (r_heap (demo_r3 HITS_UNLIMITED) ! p)) 0x20 =
         Some (if single_shot ?e then 1 else c + ucast (5 :: u64))" by blast
  with f have "p = 1" by simp
  with p z s have "map_of (ln_addrs (r_heap (demo_r3 HITS_UNLIMITED) ! 1)) 0x20 = Some 5" by simp
  then show ?thesis ..
qed

text \<open>
  Property C4. Writing the database and reading it back into a reporter that knows the same lines
  and has no hits yet restores every counter (under single-shot hits, whether it was hit),
  where each address belongs to one line; trailing bytes after the file's size do not matter.
\<close>

theorem db_roundtrip:
  assumes "(rep_step e)\<^sup>*\<^sup>* (mk_Reporter flt) r" "addrs_private r" "same_shape r r0" "zero_hits r0"
    and "marshal e r = Some buf" "length buf < 2 ^ 64"
  shows "\<exists>r' evs. unMarshal e r0 (buf @ rest) (of_nat (length buf)) = Some (True, r', evs) \<and> same_shape r r' \<and>
     (\<forall>p a. p < length (r_heap r) \<longrightarrow> map_of (ln_addrs (r_heap r' ! p)) a =
        map_option (\<lambda>c. if c = 0 then 0 else if single_shot e then 1 else c) (map_of (ln_addrs (r_heap r ! p)) a))"
proof -
  have ok: "rep_ok r" using reachable_ok [OF assms(1)] by (simp add: rep_inv_def)
  obtain r' evs where run: "unMarshal_entries e r0 (db_entries r) = Some (r', evs)" and sh: "same_shape r0 r'"
    using unMarshal_entries_same [OF rep_ok_same_shape [OF ok assms(3)]] by blast
  have sh': "same_shape r r'" by (rule same_shape_trans [OF assms(3) sh])
  have "map_of (ln_addrs (r_heap r' ! p)) a =
      map_option (\<lambda>c. if c = 0 then 0 else if single_shot e then 1 else c) (map_of (ln_addrs (r_heap r ! p)) a)"
    if p: "p < length (r_heap r)" for p a
  proof (cases "map_of (ln_addrs (r_heap r ! p)) a")
    case None
    have "same_line (r_heap r ! p) (r_heap r' ! p)"
      using sh' p same_heap_nth by (simp add: same_shape_def)
    with None have "map_of (ln_addrs (r_heap r' ! p)) a = None"
      by (simp add: map_of_eq_None_iff same_line_keys)
    with None show ?thesis by simp
  next
    case (Some c)
    from db_restores_counter [OF ok assms(2-4) run p Some] Some show ?thesis by simp
  qed
  with unMarshal_marshal [OF assms(5) refl refl assms(6)] run sh' show ?thesis by simp
qed


theorem db_roundtrip_witness:
  "\<exists>r' evs. unMarshal (demo_env HITS_UNLIMITED) (demo_r2 HITS_UNLIMITED)
       (the (marshal (demo_env HITS_UNLIMITED) (demo_r3 HITS_UNLIMITED)) @ [0, 0]) 1040 = Some (True, r', evs) \<and>
     map_of (ln_addrs (r_heap r' ! 1)) 0x20 = Some 5 \<and> map_of (ln_addrs (r_heap r' ! 1)) 0x10 = Some 0"
proof -
  let ?e = "demo_env HITS_UNLIMITED" and ?r = "demo_r3 HITS_UNLIMITED" and ?s = "demo_r2 HITS_UNLIMITED"
  have priv: "addrs_private ?r" by (auto simp: addrs_private_def demo_heap3 less_Suc_eq)
  have sh: "same_shape ?r ?s"
  proof -
    obtain evs where "onAddressHit ?e ?s 0x20 5 = Some (?r, evs)"
      using demo_run_hit(1) [OF demo_ok(3), of ?e] unfolding demo_r3_def by blast
    with onAddressHit_same [OF demo_ok(3) [of HITS_UNLIMITED], of ?e "0x20" 5] have "same_shape ?s ?r" by auto
    then show ?thesis by (rule same_shape_sym)
  qed
  have z: "zero_hits ?s" and s: "\<not> single_shot ?e" and n: "length (db_entries ?r) = 1" by code_simp+
  obtain buf where m: "marshal ?e ?r = Some buf" by (simp add: marshal_eq)
  then have len: "length buf = 1040"
    using n by (auto simp: marshal_eq entry.length_table getMarshalEntrySize_def sizeof_marshalHeaderStruct_def)
  then have "length buf < 2 ^ 64" by simp
  from db_roundtrip [OF demo_reachable(2) priv sh z m this, of "[0, 0]"] obtain r' evs where
    r': "unMarshal ?e ?s (buf @ [0, 0]) (of_nat (length buf)) = Some (True, r', evs)"
    and c: "\<And>p a. p < length (r_heap ?r) \<Longrightarrow> map_of (ln_addrs (r_heap r' ! p)) a =
        map_option (\<lambda>c. if c = 0 then 0 else if single_shot ?e then 1 else c) (map_of (ln_addrs (r_heap ?r ! p)) a)"
    by blast
  from c [of 1 "0x20"] c [of 1 "0x10"] s
  have "map_of (ln_addrs (r_heap r' ! 1)) 0x20 = Some 5" "map_of (ln_addrs (r_heap r' ! 1)) 0x10 = Some 0"
    by (simp_all add: demo_heap3)
  with r' m len show ?thesis by simp
qed

end
