(* ===== verification/Kcov_Reporter_Runs.thy ===== *)
theory Kcov_Reporter_Runs
  imports Kcov_Reporter_Props
begin

text \<open>
  The reporter across runs: which databases it accepts, what becomes of the hits it has read
  for lines that are not known yet, and the counters of a run that starts clean.
\<close>

section \<open>The header\<close>

lemma put_be_get_be [simp]:
  assumes "8 dvd LENGTH('a)" "length bs = LENGTH('a) div 8"
  shows "put_be le (get_be le bs :: 'a::len word) = bs"
proof -
  have "bytes_be (word_be bs :: 'a word) = bs"
    using assms by (simp add: bytes_be_def word_be_def)
  then show ?thesis using assms by (simp add: put_be_eq get_be_def be_to_host_load)
qed

lemma get_be_eq_iff:
  "8 dvd LENGTH('a) \<Longrightarrow> length bs = LENGTH('a) div 8 \<Longrightarrow>
     (get_be le bs = (x :: 'a::len word)) = (bs = put_be le x)"
  by (metis get_be_put_be put_be_get_be)

lemma take_16_split:
  assumes "16 \<le> length bs"
  shows "take 16 bs = chunk 4 0 bs @ chunk 4 1 bs @ chunk 8 1 bs"
proof -
  have "take 4 bs @ take 12 (drop 4 bs) = take 16 bs" using take_add [of 4 12 bs] by simp
  moreover have "take 4 (drop 4 bs) @ take 8 (drop 8 bs) = take 12 (drop 4 bs)"
    using take_add [of 4 8 "drop 4 bs"] by simp
  ultimately show ?thesis by (simp add: chunk_def)
qed

lemma unMarshalHeader_iff:
  assumes "sizeof_marshalHeaderStruct \<le> length buf"
  shows "unMarshalHeader e buf \<longleftrightarrow> take sizeof_marshalHeaderStruct buf = marshalHeader e"
proof -
  have len: "16 \<le> length buf" using assms by (simp add: sizeof_marshalHeaderStruct_def)
  have l: "length (chunk 4 0 buf) = 4" "length (chunk 4 1 buf) = 4" "length (chunk 8 1 buf) = 8"
    using len by (auto intro!: length_chunk)
  show ?thesis
    using l by (simp add: unMarshalHeader_def marshalHeader_def Let_def sizeof_marshalHeaderStruct_def
        take_16_split [OF len] get_be_eq_iff del: One_nat_def)
qed

text \<open>
  A database is read only when its first sixteen bytes are the header this run would
  write (magic, version and the checksum of the program, big-endian whatever the machine);
  otherwise nothing changes.
\<close>

lemma db_header_guard:
  assumes "sizeof_marshalHeaderStruct \<le> length buf" "take sizeof_marshalHeaderStruct buf \<noteq> marshalHeader e"
  shows "unMarshal e r buf sz = Some (False, r, []) \<and>
     (\<not> r_unmarshallingDone r \<longrightarrow>
        onFile e r (Some (buf, sz)) = Some (r\<lparr>r_unmarshallingDone := True\<rparr>, []))"
  using assms by (auto simp: unMarshal_def unMarshalHeader_iff onFile_def)

lemma db_header_guard_witness:
  "unMarshal (demo_env HITS_LIMITED) (demo_r2 HITS_LIMITED)
     (marshalHeader ((demo_env HITS_LIMITED)\<lparr>e_checksum := 43\<rparr>)) 16 = Some (False, demo_r2 HITS_LIMITED, [])"
proof -
  let ?e = "demo_env HITS_LIMITED"
  have "marshalHeader (?e\<lparr>e_checksum := 43\<rparr>) \<noteq> marshalHeader ?e" by code_simp
  then show ?thesis
    using db_header_guard [of "marshalHeader (?e\<lparr>e_checksum := 43\<rparr>)" ?e] by simp
qed

section \<open>Pending hits\<close>

definition pending_of :: "Reporter \<Rightarrow> u64 \<Rightarrow> (u64 \<times> u64) list" where
  "pending_of r lineId = (case r_pendingFiles r lineId of None \<Rightarrow> [] | Some ps \<Rightarrow> ps)"

text \<open>A line with one address takes the pending hits of index 0 and drops the others.\<close>

lemma fold_registerHitIndex_single:
  assumes "ln_addrs l = [(a, c)]"
  shows "ln_addrs (fold (\<lambda>(index, hits) l. registerHitIndex l index hits s) pend l) =
     [(a, c + sum_list (map (\<lambda>(_, hits). ucast hits) (filter (\<lambda>(index, _). index = 0) pend)))]"
  using assms
proof (induction pend arbitrary: l c)
  case (Cons x pend)
  obtain i h where x: "x = (i, h)" by fastforce
  have u: "(Suc 0 \<le> unat i) = (i \<noteq> 0)" by (simp add: Suc_le_eq unat_gt_0)
  have "ln_addrs (registerHitIndex l i h s) = [(a, if i = 0 then c + ucast h else c)]"
    using Cons.prems by (auto simp: registerHitIndex_def u)
  from Cons.IH [OF this] show ?case by (simp add: x add.assoc)
qed simp

lemma sweep_new_lines:
  assumes "rep_ok r" "length (e_getLines e fp) < 2 ^ 32 - 1" "map_of (r_files r) fp = None"
    "ensure_file e r fp = Some (r1, f)" "getLine f nr = Some p"
  shows "ln_addrs (r_heap r1 ! p) = []"
proof -
  have sw0: "sweep_ok (length (r_heap r)) (r_heap r) (mk_File (fileHash e fp))" by (rule sweep_ok_new)
  have "length (fl_lines (mk_File (fileHash e fp))) \<le> unat (1 :: u32)"
    "unat (1 :: u32) + length (e_getLines e fp) < 2 ^ 32"
    using assms(2) by (simp_all add: mk_File_def)
  from mark_unreachable_ok [OF sw0 this] obtain h g flt new where
    m: "mark_unreachable fp 1 (e_getLines e fp) (r_heap r, mk_File (fileHash e fp), r_filter r) = Some (h, g, flt)"
    and sw: "sweep_ok (length (r_heap r)) h g" and h: "h = r_heap r @ new" "\<forall>l \<in> set new. ln_addrs l = []"
    by blast
  have r1: "r_heap r1 = h" "f = g" using assms(3,4) m by (auto simp: ensure_file_def)
  have "Some p \<in> set (fl_lines f)"
    using assms(5) by (metis getLine_def not_le nth_mem option.distinct(1))
  then have "p \<in> set (ptrs f)" by (force simp: ptrs_def map_filter_def)
  moreover have "set (ptrs f) = set [length (r_heap r)..<length h]"
    using sw r1(2) mset_eq_setD unfolding sweep_ok_def by blast
  ultimately have "length (r_heap r) \<le> p" "p < length h" by auto
  with h r1(1) show ?thesis by (simp add: nth_append)
qed

lemma first_report_empty:
  assumes "rep_ok r" "length (e_getLines e fp) < 2 ^ 32 - 1"
    and "case map_of (r_files r) fp of None \<Rightarrow> True
         | Some f \<Rightarrow> (case getLine f nr of None \<Rightarrow> True | Some p \<Rightarrow> ln_addrs (r_heap r ! p) = [])"
    and "ensure_file e r fp = Some (r1, f)" "ensure_line r1 f fp nr = Some (r2, p)"
  shows "ln_addrs (r_heap r2 ! p) = []"
proof (cases "getLine f nr")
  case None
  with assms(5) show ?thesis by (auto simp: ensure_line_def Let_def split: option.splits)
next
  case (Some q)
  then have q: "r2 = r1" "p = q" using assms(5) by (auto simp: ensure_line_def)
  show ?thesis
  proof (cases "map_of (r_files r) fp")
    case None
    from sweep_new_lines [OF assms(1,2) None assms(4) Some] q show ?thesis by simp
  next
    case f': (Some f')
    then have "r1 = r" "f = f'" using assms(4) by (auto simp: ensure_file_def)
    with assms(3) Some q f' show ?thesis by simp
  qed
qed

text \<open>
  Hits read from the database before their line is known (the order in which the
  code reads it) are taken over when the line is first reported: the pending hits with index 0
  go to the address it is reported with. The pending hits of every other index are dropped
  for good, although later reports give the line more addresses.
\<close>

lemma pending_hits_first_address_only:
  assumes "(rep_step e)\<^sup>*\<^sup>* (mk_Reporter flt) r" "nr \<noteq> -1" "length (e_getLines e fp) < 2 ^ 32 - 1"
    and "fileIsIncluded e r fp" "onLine e r fp nr addr = Some (r', evs)"
    and "case map_of (r_files r) fp of None \<Rightarrow> True
         | Some f \<Rightarrow> (case getLine f nr of None \<Rightarrow> True | Some p \<Rightarrow> ln_addrs (r_heap r ! p) = [])"
  shows "\<exists>f p. map_of (r_files r') fp = Some f \<and> getLine f nr = Some p \<and>
     (let lineId = line_id (fl_fileHash f) nr
      in ln_addrs (r_heap r' ! p) =
           [(addr, sum_list (map (\<lambda>(_, hits). ucast hits) (filter (\<lambda>(index, _). index = 0) (pending_of r lineId))))] \<and>
         pending_of r' lineId = [])"
proof -
  have ok: "rep_ok r" using reachable_ok [OF assms(1)] by (simp add: rep_inv_def)
  from ensure_file_ok [OF ok assms(3)] obtain r1 f where
    r1: "ensure_file e r fp = Some (r1, f)" "rep_ok r1" "map_of (r_files r1) fp = Some f"
      "r_pendingFiles r1 = r_pendingFiles r" by blast
  from ensure_line_ok [OF r1(2,3) assms(2)] obtain r2 p f2 where
    r2: "ensure_line r1 f fp nr = Some (r2, p)" "rep_ok r2" "p < length (r_heap r2)"
      "map_of (r_files r2) fp = Some f2" "getLine f2 nr = Some p" "r_pendingFiles r2 = r_pendingFiles r1" by blast
  have empty: "ln_addrs (r_heap r2 ! p) = []"
    using first_report_empty [OF ok assms(3,6) r1(1) r2(1)] .
  let ?r3 = "link_addr r2 p addr"
  have r': "r' = fst (flush_pending e ?r3 p)"
    using assms(4,5) r1(1) r2(1) by (auto simp: onLine_def fileIsIncluded_def split: prod.splits)
  have id: "ln_lineId (r_heap ?r3 ! p) = line_id (fl_fileHash f2) nr"
  proof -
    have n: "unat nr < length (fl_lines f2)" "fl_lines f2 ! unat nr = Some p"
      using r2(5) by (auto simp: getLine_def split: if_splits)
    from file_okD [OF rep_okD(3) [OF r2(2) map_of_SomeD [OF r2(4)]] n] link_addr_line(1) [OF r2(3)] show ?thesis by simp
  qed
  have one: "ln_addrs (r_heap ?r3 ! p) = [(addr, 0)]"
    using empty r2(3) by (simp add: link_addr_def Let_def addAddress_def)
  have p: "p < length (r_heap ?r3)" using r2(3) by simp
  have pend: "r_pendingFiles r2 = r_pendingFiles r" using r1(4) r2(6) by simp
  have "ln_addrs (r_heap r' ! p) = [(addr, sum_list (map (\<lambda>(_, hits). ucast hits)
      (filter (\<lambda>(index, _). index = 0) (pending_of r (line_id (fl_fileHash f2) nr)))))]"
    "pending_of r' (line_id (fl_fileHash f2) nr) = []"
    using one p fold_registerHitIndex_single [OF one, of "single_shot e"]
    by (auto simp: r' flush_pending_def Let_def id pend pending_of_def split: option.splits)
  moreover have "map_of (r_files r') fp = Some f2"
    using r2(4) flush_pending_same [of p ?r3 e] r2(3) r' by (simp add: same_shape_def)
  ultimately show ?thesis using r2(5) by (auto simp: Let_def)
qed


lemma unMarshal_table:
  assumes "buf = marshalHeader e @ concat (map (marshal_entry (e_little_endian e)) xs)" "length buf < 2 ^ 64"
  shows "unMarshal e r buf (of_nat (length buf)) =
     map_option (\<lambda>(r', evs). (True, r', evs)) (unMarshal_entries e r xs)"
proof -
  have len: "length buf = 16 + 32 * length xs"
    by (simp add: assms(1) entry.length_table getMarshalEntrySize_def sizeof_marshalHeaderStruct_def)
  have "unat ((of_nat (length buf) - of_nat sizeof_marshalHeaderStruct :: u64) div of_nat getMarshalEntrySize) =
      unat (of_nat (32 * length xs) :: u64) div 32"
    by (simp add: len sizeof_marshalHeaderStruct_def getMarshalEntrySize_def unat_div)
  also have "unat (of_nat (32 * length xs) :: u64) = 32 * length xs"
    using assms(2) len by (intro unat_of_nat_small) simp
  finally have n: "unat ((of_nat (length buf) - of_nat sizeof_marshalHeaderStruct :: u64) div of_nat getMarshalEntrySize) =
      length xs" by simp
  have body: "drop sizeof_marshalHeaderStruct buf = concat (map (marshal_entry (e_little_endian e)) xs)"
    by (simp add: assms(1))
  have fits: "length xs * getMarshalEntrySize \<le> length (concat (map (marshal_entry (e_little_endian e)) xs))"
    by (simp add: entry.length_table)
  have hok: "unMarshalHeader e buf" by (simp add: assms(1) unMarshalHeader_ok)
  from fits hok read_entries [of 0 0 "e_little_endian e" xs "[]"] show ?thesis
    unfolding unMarshal_def Let_def n body by simp
qed

definition demo_db :: "byte list" where
  "demo_db = marshalHeader (demo_env HITS_UNLIMITED) @ concat (map (marshal_entry True) [(0x20, 0x300000003, 1, 5)])"

definition demo_p0 :: Reporter where
  "demo_p0 = (demo_r0 HITS_UNLIMITED)
     \<lparr>r_pendingFiles := (\<lambda>_. None)(0x300000003 \<mapsto> [(1, 5)]), r_unmarshallingDone := True\<rparr>"

lemma demo_load:
  "onFile (demo_env HITS_UNLIMITED) (demo_r0 HITS_UNLIMITED) (Some (demo_db, 48)) = Some (demo_p0, [])"
proof -
  have le: "e_little_endian (demo_env HITS_UNLIMITED)" by (simp add: demo_env_def)
  have len: "length demo_db = 48"
    by (simp add: demo_db_def sizeof_marshalHeaderStruct_def marshal_entry_def)
  have "unMarshal (demo_env HITS_UNLIMITED) (demo_r0 HITS_UNLIMITED) demo_db (of_nat (length demo_db)) =
      map_option (\<lambda>(r', evs). (True, r', evs))
        (unMarshal_entries (demo_env HITS_UNLIMITED) (demo_r0 HITS_UNLIMITED) [(0x20, 0x300000003, 1, 5)])"
    by (rule unMarshal_table) (simp_all add: len, simp add: demo_db_def le)
  then show ?thesis
    by (simp add: onFile_def len demo_r0_def demo_p0_def mk_Reporter_def unMarshal_entry_def demo_env_def Let_def)
qed

lemma pending_hits_first_address_only_witness:
  "pending_of demo_p0 0x300000003 = [(1, 5)] \<and>
   (\<exists>p. ln_addrs (r_heap (fst (the (onLine (demo_env HITS_UNLIMITED) demo_p0 ''a.c'' 3 0x10))) ! p) = [(0x10, 0)] \<and>
      pending_of (fst (the (onLine (demo_env HITS_UNLIMITED) demo_p0 ''a.c'' 3 0x10))) 0x300000003 = [])"
proof -
  let ?e = "demo_env HITS_UNLIMITED" and ?l = "fst (the (onLine (demo_env HITS_UNLIMITED) demo_p0 ''a.c'' 3 0x10))"
  from rep_step.db [OF demo_load] have st: "(rep_step ?e)\<^sup>*\<^sup>* (mk_Reporter (mk_Filter (\<lambda>p. p) demo_conf)) demo_p0"
    unfolding demo_r0_def by blast
  then have ok: "rep_ok demo_p0" using reachable_ok by (auto simp: rep_inv_def)
  obtain evs' where l: "onLine ?e demo_p0 ''a.c'' 3 0x10 = Some (?l, evs')"
    using demo_run_line(1) [OF ok] by blast
  have inc: "fileIsIncluded ?e demo_p0 ''a.c''" and files: "r_files demo_p0 = []"
    and pend: "pending_of demo_p0 0x300000003 = [(1, 5)]"
    and hash: "map_option fl_fileHash (map_of (r_files ?l) ''a.c'') = Some 3" by code_simp+
  have fresh: "case map_of (r_files demo_p0) ''a.c'' of None \<Rightarrow> True
         | Some f \<Rightarrow> (case getLine f 3 of None \<Rightarrow> True | Some p \<Rightarrow> ln_addrs (r_heap demo_p0 ! p) = [])"
    by (simp add: files)
  have id: "line_id 3 3 = 0x300000003" by code_simp
  obtain f p where f: "map_of (r_files ?l) ''a.c'' = Some f"
    and p: "let lineId = line_id (fl_fileHash f) 3
      in ln_addrs (r_heap ?l ! p) =
           [(0x10, sum_list (map (\<lambda>(_, hits). ucast hits) (filter (\<lambda>(index, _). index = 0) (pending_of demo_p0 lineId))))] \<and>
         pending_of ?l lineId = []"
    using pending_hits_first_address_only [OF st demo_nr inc l fresh] by blast
  have "fl_fileHash f = 3" using hash f by simp
  with p pend have "ln_addrs (r_heap ?l ! p) = [(0x10, 0)] \<and> pending_of ?l 0x300000003 = []"
    by (simp add: Let_def id)
  with pend show ?thesis by blast
qed

section \<open>A clean run\<close>

text \<open>
  With the database left alone (\<open>clean-output\<close>) and single-shot hits, nothing is ever pending
  and every counter is zero or one.
\<close>

definition clean_step :: "rep_env \<Rightarrow> Reporter \<Rightarrow> Reporter \<Rightarrow> bool" where
  "clean_step e r r' \<longleftrightarrow> e_cleanOutput e \<and> single_shot e \<and> rep_step e r r'"

definition counters_ok :: "Line list \<Rightarrow> bool" where
  "counters_ok h \<longleftrightarrow> (\<forall>l \<in> set h. \<forall>x \<in> set (ln_addrs l). snd x \<le> 1)"

definition clean_inv :: "Reporter \<Rightarrow> bool" where
  "clean_inv r \<longleftrightarrow> rep_inv r \<and> r_pendingFiles r = (\<lambda>_. None) \<and> counters_ok (r_heap r)"

lemma counters_ok_update:
  "counters_ok h \<Longrightarrow> \<forall>x \<in> set (ln_addrs l). snd x \<le> 1 \<Longrightarrow> counters_ok (h[p := l])"
  unfolding counters_ok_def using set_update_subset_insert [of h p l] by blast

lemma counters_ok_append [simp]: "counters_ok (h @ new) \<longleftrightarrow> counters_ok h \<and> counters_ok new"
  by (auto simp: counters_ok_def)

lemma counters_ok_nth: "counters_ok h \<Longrightarrow> p < length h \<Longrightarrow> x \<in> set (ln_addrs (h ! p)) \<Longrightarrow> snd x \<le> 1"
  by (auto simp: counters_ok_def)

lemma hit_addr_le: "\<forall>x \<in> set xs. snd x \<le> 1 \<Longrightarrow> \<forall>x \<in> set (hit_addr xs a h True). snd x \<le> 1"
  by (induction xs a h True rule: hit_addr.induct) auto

lemma hit_lines_counters:
  assumes "hit_lines e r ps addr hits = Some (r', evs)" "single_shot e" "counters_ok (r_heap r)"
    "\<forall>p \<in> set ps. p < length (r_heap r)"
  shows "counters_ok (r_heap r')"
  using assms
proof (induction ps arbitrary: r evs)
  case (Cons p ps)
  from Cons.prems(1) obtain l where l: "registerHit (r_heap r ! p) addr hits (single_shot e) = Some l"
    by (auto split: option.splits)
  let ?l = "if ln_order l = 0 then l\<lparr>ln_order := r_order r\<rparr> else l"
  let ?r = "r\<lparr>r_heap := (r_heap r)[p := ?l], r_order := (if ln_order l = 0 then r_order r + 1 else r_order r)\<rparr>"
  have "\<forall>x \<in> set (ln_addrs (r_heap r ! p)). snd x \<le> 1"
    using counters_ok_nth [OF Cons.prems(3)] Cons.prems(4) by auto
  from hit_addr_le [OF this] have "\<forall>x \<in> set (hit_addr (ln_addrs (r_heap r ! p)) addr hits True). snd x \<le> 1" .
  moreover have "ln_addrs ?l = hit_addr (ln_addrs (r_heap r ! p)) addr hits True"
    using l Cons.prems(2) by (auto simp: registerHit_def split: if_splits)
  ultimately have "\<forall>x \<in> set (ln_addrs ?l). snd x \<le> 1" by simp
  from counters_ok_update [OF Cons.prems(3) this] have ok: "counters_ok (r_heap ?r)" by simp
  from Cons.prems(1) l obtain evs' where run: "hit_lines e ?r ps addr hits = Some (r', evs')"
    by (auto simp: Let_def split: if_splits)
  from Cons.IH [OF run Cons.prems(2) ok] Cons.prems(4) show ?case by simp
qed simp

lemma mark_unreachable_counters:
  "mark_unreachable fp nr ls (h, f, flt) = Some (h', f', flt') \<Longrightarrow> counters_ok h \<Longrightarrow> counters_ok h'"
proof (induction ls arbitrary: nr h f flt)
  case (Cons l ls)
  obtain ok flt1 where fl: "runLineFilters flt fp l = (ok, flt1)" by fastforce
  have new: "counters_ok [mk_Line hash nr True]" for hash by (simp add: counters_ok_def)
  show ?case
    using Cons.prems Cons.IH fl new by (auto simp: Let_def split: if_splits option.splits)
qed simp

lemma onLine_clean:
  assumes "clean_inv r" "onLine e r fp nr a = Some (r', evs)"
  shows "r_pendingFiles r' = (\<lambda>_. None) \<and> counters_ok (r_heap r')"
proof (cases "runFilters (e_rp e) (r_filter r) fp")
  case False
  with assms show ?thesis by (simp add: onLine_def clean_inv_def)
next
  case True
  with assms obtain r1 f r2 p where
    r1: "ensure_file e r fp = Some (r1, f)" and r2: "ensure_line r1 f fp nr = Some (r2, p)"
    and r': "r' = fst (flush_pending e (link_addr r2 p a) p)"
    by (auto simp: onLine_def split: option.splits prod.splits)
  have c1: "counters_ok (r_heap r1)" "r_pendingFiles r1 = (\<lambda>_. None)"
    using r1 assms(1) mark_unreachable_counters
    by (auto simp: ensure_file_def clean_inv_def split: option.splits)
  have c2: "counters_ok (r_heap r2)" "r_pendingFiles r2 = (\<lambda>_. None)"
    using r2 c1 by (auto simp: ensure_line_def Let_def counters_ok_def split: option.splits)
  have c3: "counters_ok (r_heap (link_addr r2 p a))"
  proof (cases "p < length (r_heap r2)")
    case True
    have "\<forall>x \<in> set (ln_addrs (addAddress (r_heap r2 ! p) a)). snd x \<le> 1"
      using counters_ok_nth [OF c2(1) True] by (auto simp: addAddress_def)
    with counters_ok_update [OF c2(1)] show ?thesis by (simp add: link_addr_def Let_def)
  next
    case False
    with c2 show ?thesis by (simp add: link_addr_def Let_def list_update_beyond)
  qed
  with c2 show ?thesis by (simp add: r' flush_pending_def Let_def)
qed

lemma clean_step_inv:
  assumes "clean_inv r" "clean_step e r r'"
  shows "clean_inv r'"
proof -
  have st: "rep_step e r r'" and e: "e_cleanOutput e" "single_shot e"
    using assms(2) by (auto simp: clean_step_def)
  have inv: "rep_inv r" "r_pendingFiles r = (\<lambda>_. None)" "counters_ok (r_heap r)"
    using assms(1) by (auto simp: clean_inv_def)
  have "rep_inv r'" using reporter.inv_step [OF inv(1) st] .
  moreover from st have "r_pendingFiles r' = (\<lambda>_. None) \<and> counters_ok (r_heap r')"
  proof (cases rule: rep_step.cases)
    case (line nr fp addr evs)
    with onLine_clean [OF assms(1)] show ?thesis by blast
  next
    case (hit addr hits evs)
    have ok: "rep_ok r" using inv(1) by (simp add: rep_inv_def)
    have "counters_ok (r_heap r')"
      using hit hit_lines_counters [OF _ e(2) inv(3)] addrs_okD [OF rep_okD(5) [OF ok]] inv(3)
      by (auto simp: onAddressHit_def split: option.splits)
    with onAddressHit_same [OF ok, of e addr hits] hit inv(2) show ?thesis by auto
  next
    case (db buf evs)
    with e inv show ?thesis by (auto simp: onFile_def split: if_splits)
  qed
  ultimately show ?thesis by (simp add: clean_inv_def)
qed

interpretation clean: step_invariant rep_init "clean_step e" clean_inv for e
proof unfold_locales
  show "clean_inv r" if "rep_init r" for r
    using that rep_inv_init by (auto simp: rep_init_def clean_inv_def counters_ok_def) (simp_all add: mk_Reporter_def)
qed (rule clean_step_inv)

lemma sum_ones:
  "\<forall>x \<in> set xs. snd x \<le> 1 \<Longrightarrow> unat n + length xs < 2 ^ 32 \<Longrightarrow>
     unat (foldl (\<lambda>out p. out + snd p) (n :: u32) xs) \<le> unat n + length xs"
proof (induction xs arbitrary: n)
  case (Cons x xs)
  have x: "unat (snd x) \<le> 1" using Cons.prems(1) by (simp add: word_le_nat_alt)
  have n: "unat (n + snd x) \<le> unat n + 1"
    using x Cons.prems(2) unat_plus_if' [of n "snd x"] by (auto split: if_splits)
  with Cons.IH [of "n + snd x"] Cons.prems show ?case by simp
qed simp

text \<open>
  Property C39. In a run that does not load the database, with single-shot hits, a line never
  shows more hits than are possible: the counters of its addresses are zero or one and their sum
  is at most the number of addresses.
\<close>

theorem hits_at_most_possible:
  assumes "(rep_step e)\<^sup>*\<^sup>* (mk_Reporter flt) r" "e_cleanOutput e" "single_shot e"
    and "l \<in> set (r_heap r)" "length (ln_addrs l) < 2 ^ 32"
  shows "(\<forall>(a, c) \<in> set (ln_addrs l). c = 0 \<or> c = 1) \<and> line_hits l \<le> possibleHits l (single_shot e)"
proof -
  have "clean_step e = rep_step e" using assms(2,3) by (auto simp: clean_step_def fun_eq_iff)
  with assms(1) have "clean_inv r" using clean.inv_reachable [of "mk_Reporter flt" e r] by (auto simp: rep_init_def)
  then have le: "\<forall>x \<in> set (ln_addrs l). snd x \<le> 1" using assms(4) by (simp add: clean_inv_def counters_ok_def)
  have "c = 0 \<or> c = 1" if "c \<le> (1 :: u32)" for c
  proof -
    have "unat c = 0 \<or> unat c = 1" using that by (auto simp: word_le_nat_alt)
    then show ?thesis by (simp add: word_unat_eq_iff)
  qed
  with le have z: "\<forall>(a, c) \<in> set (ln_addrs l). c = 0 \<or> c = 1" by fastforce
  have "unat (line_hits l) \<le> length (ln_addrs l)"
    using sum_ones [OF le, of 0] assms(5) by (simp add: line_hits_def)
  then have "line_hits l \<le> possibleHits l True"
    using assms(5) by (simp add: possibleHits_def word_le_nat_alt unat_of_nat_small)
  with z assms(3) show ?thesis by simp
qed


definition demo_clean :: rep_env where
  "demo_clean = (demo_env HITS_LIMITED)\<lparr>e_cleanOutput := True\<rparr>"

theorem hits_at_most_possible_witness:
  "line_hits (r_heap (fst (the (onLine demo_clean (demo_r0 HITS_LIMITED) ''a.c'' 3 0x10))) ! 1)
     \<le> possibleHits (r_heap (fst (the (onLine demo_clean (demo_r0 HITS_LIMITED) ''a.c'' 3 0x10))) ! 1) (single_shot demo_clean)"
proof -
  let ?r = "fst (the (onLine demo_clean (demo_r0 HITS_LIMITED) ''a.c'' 3 0x10))"
  have nr: "length (e_getLines demo_clean ''a.c'') < 2 ^ 32 - 1" by (simp add: demo_clean_def demo_env_def)
  obtain r' evs where r': "onLine demo_clean (demo_r0 HITS_LIMITED) ''a.c'' 3 0x10 = Some (r', evs)"
    using onLine_ok [OF demo_ok(1) demo_nr(1) nr] by blast
  then have "(rep_step demo_clean)\<^sup>*\<^sup>* (mk_Reporter (mk_Filter (\<lambda>p. p) demo_conf)) ?r"
    using rep_step.line [OF demo_nr(1) nr r'] unfolding demo_r0_def by auto
  moreover have "e_cleanOutput demo_clean" "single_shot demo_clean" "length (r_heap ?r) = 2"
    "length (ln_addrs (r_heap ?r ! 1)) = 1" by code_simp+
  moreover have "r_heap ?r ! 1 \<in> set (r_heap ?r)" using calculation(4) by simp
  ultimately show ?thesis using hits_at_most_possible [of demo_clean _ ?r "r_heap ?r ! 1"] by simp
qed

end
