(* ===== verification/Kcov_Memory.thy ===== *)
theory Kcov_Memory
  imports Kcov_Codec Kcov_Strings
begin

text \<open>
  A block of memory addressed by byte offsets, as the code uses it when it casts a buffer to a
  structure and converts the fields in place. An access outside of the block is \<open>None\<close>.
\<close>

definition read_at :: "byte list \<Rightarrow> nat \<Rightarrow> nat \<Rightarrow> byte list option" where
  "read_at mem off n = (if off + n \<le> length mem then Some (take n (drop off mem)) else None)"

definition write_at :: "byte list \<Rightarrow> nat \<Rightarrow> byte list \<Rightarrow> byte list option" where
  "write_at mem off bs =
     (if off + length bs \<le> length mem then Some (take off mem @ bs @ drop (off + length bs) mem) else None)"

definition load32 :: "bool \<Rightarrow> byte list \<Rightarrow> nat \<Rightarrow> u32 option" where
  "load32 le mem off = map_option (load le) (read_at mem off 4)"

definition load64 :: "bool \<Rightarrow> byte list \<Rightarrow> nat \<Rightarrow> u64 option" where
  "load64 le mem off = map_option (load le) (read_at mem off 8)"

text \<open>\<open>x = be_to_host(x)\<close> on a field in memory.\<close>

definition swap32 :: "bool \<Rightarrow> byte list \<Rightarrow> nat \<Rightarrow> byte list option" where
  "swap32 le mem off =
     Option.bind (load32 le mem off) (\<lambda>x. write_at mem off (store le (be_to_host le x)))"

definition swap64 :: "bool \<Rightarrow> byte list \<Rightarrow> nat \<Rightarrow> byte list option" where
  "swap64 le mem off =
     Option.bind (load64 le mem off) (\<lambda>x. write_at mem off (store le (be_to_host le x)))"

text \<open>A C string at an offset: the bytes up to the first zero.\<close>

definition c_string_at :: "byte list \<Rightarrow> nat \<Rightarrow> byte list option" where
  "c_string_at mem off =
     (if off \<le> length mem \<and> 0 \<in> set (drop off mem) then Some (takeWhile (\<lambda>b. b \<noteq> 0) (drop off mem)) else None)"

section \<open>Reading and writing a known place\<close>

lemma read_at_middle [mem_simps]:
  "length pre = off \<Longrightarrow> length bs = n \<Longrightarrow> read_at (pre @ bs @ post) off n = Some bs"
  by (simp add: read_at_def)

lemma load32_middle [mem_simps]:
  "length pre = off \<Longrightarrow> load32 le (pre @ store le x @ post) off = Some x"
  by (simp add: load32_def read_at_middle)

lemma load64_middle [mem_simps]:
  "length pre = off \<Longrightarrow> load64 le (pre @ store le x @ post) off = Some x"
  by (simp add: load64_def read_at_middle)

lemma swap32_middle [mem_simps]:
  "length pre = off \<Longrightarrow> swap32 le (pre @ put_be le (x :: u32) @ post) off = Some (pre @ store le x @ post)"
proof -
  assume off: "length pre = off"
  have "load32 le (pre @ put_be le x @ post) off = Some (to_be le x)"
    using off by (simp add: put_be_def load32_middle)
  then show ?thesis using off by (simp add: swap32_def write_at_def)
qed

lemma swap64_middle [mem_simps]:
  "length pre = off \<Longrightarrow> swap64 le (pre @ put_be le (x :: u64) @ post) off = Some (pre @ store le x @ post)"
proof -
  assume off: "length pre = off"
  have "load64 le (pre @ put_be le x @ post) off = Some (to_be le x)"
    using off by (simp add: put_be_def load64_middle)
  then show ?thesis using off by (simp add: swap64_def write_at_def)
qed

lemma c_string_at_middle:
  "length pre = off \<Longrightarrow> 0 \<notin> set bs \<Longrightarrow> c_string_at (pre @ bs @ 0 # post) off = Some bs"
  by (auto simp: c_string_at_def takeWhile_append1 takeWhile_tail)

end
