(* ===== verification/Kcov_Merge.thy ===== *)
theory Kcov_Merge
  imports Kcov_Memory Kcov_Filter Kcov_SourceCache
begin

text \<open>
  The merge parser (\<open>src/src/merge-file-parser.cc\<close>): it listens to the reporter, keeps for every
  source file the lines and the hit addresses, writes them to a metadata file at exit and adds
  the metadata of other runs to its own, reporting all of it to its own listeners (the merged
  reporter).

  \<^item> \<open>MFile\<close> and \<open>MergeParser\<close> are the classes; a \<open>File *\<close> is the name under which \<open>m_files\<close> has
    it. \<open>m_lines\<close>, its inner maps and \<open>m_files\<close> are iterated over, so they are association lists.
  \<^item> What the parser tells its listeners is a list of \<open>merge_event\<close>s.
  \<^item> A metadata file is a block of bytes; \<open>marshalFile\<close> gives the bytes it writes, and reading is
    done in place on that block, as the code does it (\<open>Kcov_Memory\<close>). Structure offsets are those
    of \<open>struct file_data\<close>: 36 bytes of fields, then the line entries; its size is rounded to 40.
  \<^item> \<open>None\<close> is a panic or an access outside of the block.
\<close>

section \<open>\<open>MergeParser::File\<close>\<close>

record MFile =
  mf_filename :: string
  mf_fileTimestamp :: u64
  mf_lines :: "(u32 \<times> (u64 \<times> u32) list) list"
  mf_addrHits :: "u64 \<Rightarrow> u32"
  mf_checksum :: u32
  mf_local :: bool

record merge_env =
  me_rp :: "string \<Rightarrow> string"
  me_regex_replace :: "string \<Rightarrow> string \<Rightarrow> string \<Rightarrow> string"
  me_exists :: "string \<Rightarrow> bool"
  me_read :: "string \<Rightarrow> byte list option"
  me_crc32 :: "byte list \<Rightarrow> u32"
  me_timestamp :: "string \<Rightarrow> u64"
  me_little_endian :: bool
  me_filter :: Filter

definition mk_MFile :: "merge_env \<Rightarrow> string \<Rightarrow> MFile option" where
  "mk_MFile e filename =
     (case me_read e filename of
        None \<Rightarrow> None
      | Some data \<Rightarrow> Some \<lparr> mf_filename = filename, mf_fileTimestamp = me_timestamp e filename, mf_lines = [],
                           mf_addrHits = (\<lambda>_. 0), mf_checksum = me_crc32 e data, mf_local = False \<rparr>)"

definition setLocal :: "MFile \<Rightarrow> MFile" where
  "setLocal f = f\<lparr>mf_local := True\<rparr>"

definition line_addrs :: "(u32 \<times> (u64 \<times> u32) list) list \<Rightarrow> u32 \<Rightarrow> (u64 \<times> u32) list" where
  "line_addrs ls nr = (case map_of ls nr of None \<Rightarrow> [] | Some as \<Rightarrow> as)"

definition merge_addLine :: "MFile \<Rightarrow> u32 \<Rightarrow> u64 \<Rightarrow> MFile" where
  "merge_addLine f lineNr addr =
     (let as = line_addrs (mf_lines f) lineNr;
          n = (case map_of as addr of None \<Rightarrow> 0 | Some n \<Rightarrow> n)
      in f\<lparr>mf_lines := alist_upd lineNr (alist_upd addr (n + 1) as) (mf_lines f)\<rparr>)"

definition registerHits :: "MFile \<Rightarrow> u64 \<Rightarrow> u32 \<Rightarrow> MFile" where
  "registerHits f addr hits = f\<lparr>mf_addrHits := (mf_addrHits f)(addr := mf_addrHits f addr + hits)\<rparr>"

section \<open>Listening to the reporter\<close>

datatype merge_event = MLine string u32 u64 | MHit u64 u64

record MergeParser =
  mp_files :: "(string \<times> MFile) list"
  mp_filesByAddress :: "u64 \<rightharpoonup> string"
  mp_fileLineByAddress :: "u64 \<rightharpoonup> u64"
  mp_pendingHits :: "u64 \<rightharpoonup> u64"

definition mk_MergeParser :: MergeParser where
  "mk_MergeParser =
     \<lparr> mp_files = [], mp_filesByAddress = (\<lambda>_. None), mp_fileLineByAddress = (\<lambda>_. None),
       mp_pendingHits = (\<lambda>_. None) \<rparr>"

text \<open>The file named \<open>filename\<close> after \<open>f\<close> has been applied to it.\<close>

definition upd_file :: "MergeParser \<Rightarrow> string \<Rightarrow> (MFile \<Rightarrow> MFile) \<Rightarrow> MergeParser" where
  "upd_file m filename f =
     (case map_of (mp_files m) filename of
        None \<Rightarrow> m
      | Some x \<Rightarrow> m\<lparr>mp_files := alist_upd filename (f x) (mp_files m)\<rparr>)"

definition HIT_BIT :: u64 where
  "HIT_BIT = push_bit 63 1"

definition hashAddress :: "merge_env \<Rightarrow> string \<Rightarrow> u32 \<Rightarrow> u64 \<Rightarrow> u64" where
  "hashAddress e filename lineNr addr =
     ucast (me_crc32 e (string_to_bytes filename)) OR push_bit 32 (ucast lineNr)"

definition onAddress :: "MergeParser \<Rightarrow> u64 \<Rightarrow> u64 \<Rightarrow> MergeParser \<times> merge_event list" where
  "onAddress m addr hits =
     (case mp_fileLineByAddress m addr of
        None \<Rightarrow> (m\<lparr>mp_pendingHits := (mp_pendingHits m)(addr \<mapsto> hits)\<rparr>, [])
      | Some addr' \<Rightarrow>
          (case mp_filesByAddress m addr' of
             None \<Rightarrow> (m, [])
           | Some filename \<Rightarrow>
               (upd_file m filename (\<lambda>f. registerHits f addr' (ucast hits)), [MHit addr' hits])))"

definition get_or_new :: "merge_env \<Rightarrow> MergeParser \<Rightarrow> string \<Rightarrow> MergeParser option" where
  "get_or_new e m filename =
     (case map_of (mp_files m) filename of
        Some _ \<Rightarrow> Some m
      | None \<Rightarrow> map_option (\<lambda>f. m\<lparr>mp_files := alist_upd filename f (mp_files m)\<rparr>) (mk_MFile e filename))"

definition onLineReporter ::
  "merge_env \<Rightarrow> MergeParser \<Rightarrow> string \<Rightarrow> u32 \<Rightarrow> u64 \<Rightarrow> (MergeParser \<times> merge_event list) option" where
  "onLineReporter e m filename lineNr addr =
     (if \<not> runFilters (me_rp e) (me_filter e) filename then Some (m, [])
      else if \<not> me_exists e filename then Some (m, [])
      else case get_or_new e m filename of
        None \<Rightarrow> None
      | Some m1 \<Rightarrow>
          (let addrHash = hashAddress e filename lineNr addr AND NOT HIT_BIT;
               m2 = upd_file (m1\<lparr>mp_fileLineByAddress := (mp_fileLineByAddress m1)(addr \<mapsto> addrHash)\<rparr>) filename
                      (\<lambda>f. merge_addLine (setLocal f) lineNr addrHash);
               m3 = m2\<lparr>mp_filesByAddress := (mp_filesByAddress m2)(addrHash \<mapsto> filename)\<rparr>
           in case mp_pendingHits m3 addr of
                None \<Rightarrow> Some (m3, [MLine filename lineNr addrHash])
              | Some hits \<Rightarrow>
                  (case onAddress m3 addr hits of
                     (m4, evs) \<Rightarrow> Some (m4\<lparr>mp_pendingHits := (mp_pendingHits m4)(addr := None)\<rparr>,
                                        MLine filename lineNr addrHash # evs))))"

section \<open>Writing the metadata of a file\<close>

definition MERGE_MAGIC :: u32 where
  "MERGE_MAGIC = 0x4d6f6172"

definition MERGE_VERSION :: u32 where
  "MERGE_VERSION = 4"

definition sizeof_line_entry :: nat where
  "sizeof_line_entry = 12"

definition sizeof_file_data :: nat where
  "sizeof_file_data = 40"

definition offsetof_entries :: nat where
  "offsetof_entries = 36"

definition align8 :: "nat \<Rightarrow> nat" where
  "align8 n = (if n mod 8 \<noteq> 0 then n + (8 - n mod 8) else n)"

text \<open>
  The line entries (line, first index into the address table, number of addresses) and the
  address table, with the hit bit on every address that has hits.
\<close>

fun line_table :: "nat \<Rightarrow> (u32 \<times> (u64 \<times> u32) list) list \<Rightarrow> (u32 \<times> u32 \<times> u32) list" where
  "line_table tableOffset [] = []"
| "line_table tableOffset ((line, as) # ls) =
     (line, of_nat tableOffset, of_nat (length as)) # line_table (tableOffset + length as) ls"

definition addr_table :: "(u64 \<Rightarrow> u32) \<Rightarrow> (u32 \<times> (u64 \<times> u32) list) list \<Rightarrow> u64 list" where
  "addr_table addrHits ls =
     concat (map (\<lambda>(_, as). map (\<lambda>(addr, _). if addrHits addr \<noteq> 0 then addr OR HIT_BIT else addr) as) ls)"

definition put_line_entry :: "bool \<Rightarrow> u32 \<times> u32 \<times> u32 \<Rightarrow> byte list" where
  "put_line_entry le x = (case x of (line, start, n) \<Rightarrow> put_be le line @ put_be le start @ put_be le n)"

definition marshal_size :: "MFile \<Rightarrow> nat" where
  "marshal_size f =
     sizeof_file_data + length (mf_lines f) * sizeof_line_entry +
     unat (of_nat (length (addr_table (mf_addrHits f) (mf_lines f))) :: u32) * 8 + length (mf_filename f) + 1 + 8"

text \<open>
  \<open>marshalFile\<close>: fields, entries, padding, address table, file name, all inside the zeroed block
  of \<open>marshal_size\<close> bytes that \<open>xmalloc\<close> gave (its start is 8-aligned). Writing more than the
  block is \<open>None\<close>.
\<close>

definition marshalFile :: "merge_env \<Rightarrow> MergeParser \<Rightarrow> string \<Rightarrow> byte list option option" where
  "marshalFile e m filename =
     (case map_of (mp_files m) filename of
        None \<Rightarrow> Some None
      | Some f \<Rightarrow>
          (let le = me_little_endian e;
               size = marshal_size f;
               entries = line_table 0 (mf_lines f);
               addrs = addr_table (mf_addrHits f) (mf_lines f);
               entriesEnd = offsetof_entries + length (mf_lines f) * sizeof_line_entry;
               tableStart = align8 entriesEnd;
               nameStart = tableStart + length addrs * 8;
               out =
                 put_be le MERGE_MAGIC @ put_be le MERGE_VERSION @ put_be le (of_nat size :: u32) @
                 put_be le (mf_checksum f) @ put_be le (mf_fileTimestamp f) @
                 put_be le (of_nat (length (mf_lines f)) :: u32) @
                 put_be le (of_nat tableStart :: u32) @ put_be le (of_nat nameStart :: u32) @
                 concat (map (put_line_entry le) entries) @ replicate (tableStart - entriesEnd) 0 @
                 concat (map (put_be le) addrs) @ string_to_bytes (c_str (mf_filename f)) @ [0]
           in if length out \<le> size then Some (Some (out @ replicate (size - length out) 0)) else None))"

section \<open>Reading metadata\<close>

fun swap_entries :: "bool \<Rightarrow> nat \<Rightarrow> nat \<Rightarrow> byte list \<Rightarrow> byte list option" where
  "swap_entries le 0 p mem = Some mem"
| "swap_entries le (Suc n) p mem =
     Option.bind (swap32 le mem p) (\<lambda>mem1.
     Option.bind (swap32 le mem1 (p + 8)) (\<lambda>mem2.
     Option.bind (swap32 le mem2 (p + 4)) (\<lambda>mem3.
     swap_entries le n (p + sizeof_line_entry) mem3)))"

fun swap_addrs :: "bool \<Rightarrow> nat \<Rightarrow> nat \<Rightarrow> byte list \<Rightarrow> byte list option" where
  "swap_addrs le 0 p mem = Some mem"
| "swap_addrs le (Suc n) p mem =
     Option.bind (swap64 le mem p) (\<lambda>mem1. swap_addrs le n (p + 8) mem1)"

definition swap_header :: "bool \<Rightarrow> byte list \<Rightarrow> byte list option" where
  "swap_header le mem =
     Option.bind (swap32 le mem 0) (\<lambda>mem.
     Option.bind (swap32 le mem 4) (\<lambda>mem.
     Option.bind (swap32 le mem 12) (\<lambda>mem.
     Option.bind (swap64 le mem 16) (\<lambda>mem.
     Option.bind (swap32 le mem 8) (\<lambda>mem.
     Option.bind (swap32 le mem 24) (\<lambda>mem.
     Option.bind (swap32 le mem 32) (\<lambda>mem.
     swap32 le mem 28)))))))"

record file_data =
  fd_magic :: u32
  fd_version :: u32
  fd_checksum :: u32
  fd_n_entries :: u32
  fd_address_table_offset :: u32
  fd_file_name_offset :: u32

text \<open>The fields of the structure in memory, in the byte order of the machine.\<close>

definition get_file_data :: "bool \<Rightarrow> byte list \<Rightarrow> file_data option" where
  "get_file_data le mem =
     Option.bind (load32 le mem 0) (\<lambda>magic.
     Option.bind (load32 le mem 4) (\<lambda>version.
     Option.bind (load32 le mem 12) (\<lambda>checksum.
     Option.bind (load32 le mem 24) (\<lambda>n.
     Option.bind (load32 le mem 28) (\<lambda>ato.
     Option.bind (load32 le mem 32) (\<lambda>fno.
     Some \<lparr> fd_magic = magic, fd_version = version, fd_checksum = checksum, fd_n_entries = n,
            fd_address_table_offset = ato, fd_file_name_offset = fno \<rparr>))))))"

definition unMarshalFile :: "bool \<Rightarrow> byte list \<Rightarrow> (bool \<times> byte list) option" where
  "unMarshalFile le fd =
     Option.bind (swap_header le fd) (\<lambda>mem.
     Option.bind (get_file_data le mem) (\<lambda>h.
       if fd_magic h \<noteq> MERGE_MAGIC then Some (False, mem)
       else if fd_version h \<noteq> MERGE_VERSION then Some (False, mem)
       else Option.bind (swap_entries le (unat (fd_n_entries h)) offsetof_entries mem) (\<lambda>mem.
            Option.bind (get_file_data le mem) (\<lambda>h.
            map_option (Pair True)
              (swap_addrs le (unat (fd_file_name_offset h - fd_address_table_offset h) div 8)
                 (unat (fd_address_table_offset h)) mem)))))"

text \<open>
  The loops of \<open>parseFileData\<close>. \<open>entry_addrs\<close> reads the addresses of one entry; the index into the
  table is computed in 32 bits.
\<close>

fun entry_addrs :: "bool \<Rightarrow> byte list \<Rightarrow> nat \<Rightarrow> u32 \<Rightarrow> nat \<Rightarrow> u64 list option" where
  "entry_addrs le mem table start 0 = Some []"
| "entry_addrs le mem table start (Suc n) =
     Option.bind (load64 le mem (table + unat start * 8)) (\<lambda>a.
     map_option (\<lambda>as. a # as) (entry_addrs le mem table (start + 1) n))"

fun parse_entries :: "bool \<Rightarrow> byte list \<Rightarrow> nat \<Rightarrow> nat \<Rightarrow> nat \<Rightarrow> (u32 \<times> u64) list option" where
  "parse_entries le mem table p 0 = Some []"
| "parse_entries le mem table p (Suc n) =
     Option.bind (load32 le mem p) (\<lambda>line.
     Option.bind (load32 le mem (p + 4)) (\<lambda>start.
     Option.bind (load32 le mem (p + 8)) (\<lambda>cnt.
     Option.bind (entry_addrs le mem table start (unat cnt)) (\<lambda>as.
     map_option (\<lambda>rest. map (Pair line) as @ rest) (parse_entries le mem table (p + sizeof_line_entry) n)))))"

text \<open>What one address of the table does: the line, then the hit when its bit is set.\<close>

definition parse_addr ::
  "string \<Rightarrow> MergeParser \<times> merge_event list \<Rightarrow> u32 \<times> u64 \<Rightarrow> MergeParser \<times> merge_event list" where
  "parse_addr filename s x =
     (case s of (m, evs) \<Rightarrow> case x of (lineNr, a) \<Rightarrow>
        let hit = (a AND HIT_BIT \<noteq> 0);
            addr = a AND NOT HIT_BIT;
            m1 = upd_file m filename (\<lambda>f. merge_addLine f lineNr addr);
            ev = MLine filename lineNr (addr AND NOT HIT_BIT)
        in if hit then (upd_file m1 filename (\<lambda>f. registerHits f addr 1), evs @ [ev, MHit addr 1])
           else (m1, evs @ [ev]))"

definition parseFileData :: "merge_env \<Rightarrow> MergeParser \<Rightarrow> byte list \<Rightarrow> (MergeParser \<times> merge_event list) option" where
  "parseFileData e m fd =
     Option.bind (get_file_data (me_little_endian e) fd) (\<lambda>h.
     Option.bind (c_string_at fd (unat (fd_file_name_offset h))) (\<lambda>name.
       let filename = mangleSourcePath (me_rp e) (me_regex_replace e) (me_filter e) (bytes_to_string name)
       in if \<not> me_exists e filename then Some (m, [])
          else Option.bind (get_or_new e m filename) (\<lambda>m1.
            if (case map_of (mp_files m) filename of None \<Rightarrow> False | Some f \<Rightarrow> mf_checksum f \<noteq> fd_checksum h)
            then Some (m, [])
            else map_option (foldl (parse_addr filename) (m1, []))
                   (parse_entries (me_little_endian e) fd (unat (fd_address_table_offset h)) offsetof_entries
                      (unat (fd_n_entries h))))))"

text \<open>\<open>parseOne\<close>: a file of a metadata directory, when its name is a hexadecimal number.\<close>

definition parseOne ::
  "merge_env \<Rightarrow> MergeParser \<Rightarrow> string \<Rightarrow> string \<Rightarrow> (MergeParser \<times> merge_event list) option" where
  "parseOne e m metadataDirName curFile =
     (if \<not> string_is_integer curFile 16 then Some (m, [])
      else case me_read e (metadataDirName @ ''/'' @ curFile) of
        None \<Rightarrow> Some (m, [])
      | Some fd \<Rightarrow>
          if sizeof_file_data \<le> length fd
          then (case unMarshalFile (me_little_endian e) fd of
                  None \<Rightarrow> None
                | Some (True, fd') \<Rightarrow> parseFileData e m fd'
                | Some (False, _) \<Rightarrow> Some (m, []))
          else Some (m, []))"

fun parse_all ::
  "(MergeParser \<Rightarrow> 'a \<Rightarrow> (MergeParser \<times> merge_event list) option) \<Rightarrow> MergeParser \<Rightarrow> 'a list \<Rightarrow>
     (MergeParser \<times> merge_event list) option" where
  "parse_all f m [] = Some (m, [])"
| "parse_all f m (x # xs) =
     Option.bind (f m x) (\<lambda>(m1, evs). map_option (\<lambda>(m2, evs'). (m2, evs @ evs')) (parse_all f m1 xs))"

text \<open>\<open>readdir\<close> gives the entries of a directory, or \<open>None\<close> when it cannot be opened.\<close>

definition parseDirectory ::
  "merge_env \<Rightarrow> (string \<Rightarrow> string list option) \<Rightarrow> MergeParser \<Rightarrow> string \<Rightarrow> (MergeParser \<times> merge_event list) option" where
  "parseDirectory e readdir m dirName =
     (let metadataDirName = dirName @ ''/metadata''
      in case readdir metadataDirName of
           None \<Rightarrow> Some (m, [])
         | Some ds \<Rightarrow> parse_all (\<lambda>m d. parseOne e m metadataDirName d) m ds)"

definition parseStoredData ::
  "merge_env \<Rightarrow> (string \<Rightarrow> string list option) \<Rightarrow> string \<Rightarrow> string \<Rightarrow> MergeParser \<Rightarrow>
     (MergeParser \<times> merge_event list) option" where
  "parseStoredData e readdir baseDirectory outputDirectory m =
     (case readdir baseDirectory of
        None \<Rightarrow> None
      | Some ds \<Rightarrow>
          parse_all (\<lambda>m d. let cur = baseDirectory @ d
                           in if cur = outputDirectory then Some (m, []) else parseDirectory e readdir m cur) m ds)"

definition parseStoredDataMerged ::
  "merge_env \<Rightarrow> (string \<Rightarrow> string list option) \<Rightarrow> string list \<Rightarrow> MergeParser \<Rightarrow>
     (MergeParser \<times> merge_event list) option" where
  "parseStoredDataMerged e readdir argv m =
     parse_all (\<lambda>m arg.
        case readdir arg of
          None \<Rightarrow> Some (m, [])
        | Some ds \<Rightarrow> parse_all (\<lambda>m d. parseDirectory e readdir m (arg @ ''/'' @ d)) m ds) m argv"

section \<open>At exit\<close>

text \<open>\<open>%08x\<close>\<close>

definition fmt_08x :: "u32 \<Rightarrow> string" where
  "fmt_08x w = map (\<lambda>i. hex_digit (unat (drop_bit (28 - 4 * i) w AND 15))) [0..<8]"

text \<open>
  \<open>onStop\<close> gives the files it writes: \<open>write_file\<close> takes as many bytes as the \<open>size\<close> field of the
  block says. The parser is not changed by \<open>marshalFile\<close> (\<open>m_addrHits[addr]\<close> only adds zero
  entries).
\<close>

definition write_one ::
  "merge_env \<Rightarrow> string \<Rightarrow> MergeParser \<Rightarrow> MFile \<Rightarrow> (string \<times> byte list) list option" where
  "write_one e outputDirectory m f =
     (case marshalFile e m (mf_filename f) of
        None \<Rightarrow> None
      | Some None \<Rightarrow> Some []
      | Some (Some fd) \<Rightarrow>
          Some [(outputDirectory @ ''/metadata/'' @ fmt_08x (me_crc32 e (string_to_bytes (mf_filename f))),
                 take (unat (get_be (me_little_endian e) (take 4 (drop 8 fd)) :: u32)) fd)])"

fun write_files ::
  "merge_env \<Rightarrow> string \<Rightarrow> bool \<Rightarrow> MergeParser \<Rightarrow> (string \<times> MFile) list \<Rightarrow> (string \<times> byte list) list option" where
  "write_files e outputDirectory inMergeMode m [] = Some []"
| "write_files e outputDirectory inMergeMode m ((_, f) # fs) =
     (if \<not> inMergeMode \<and> \<not> mf_local f then write_files e outputDirectory inMergeMode m fs
      else Option.bind (write_one e outputDirectory m f) (\<lambda>w.
           map_option (\<lambda>ws. w @ ws) (write_files e outputDirectory inMergeMode m fs)))"

definition onStop ::
  "merge_env \<Rightarrow> (string \<Rightarrow> string list option) \<Rightarrow> string \<Rightarrow> string \<Rightarrow> string list \<Rightarrow> bool \<Rightarrow> MergeParser \<Rightarrow>
     (MergeParser \<times> merge_event list \<times> (string \<times> byte list) list) option" where
  "onStop e readdir baseDirectory outputDirectory argv inMergeMode m =
     Option.bind (if inMergeMode then parseStoredDataMerged e readdir argv m
                  else parseStoredData e readdir baseDirectory outputDirectory m) (\<lambda>(m1, evs).
     map_option (\<lambda>ws. (m1, evs, ws)) (write_files e outputDirectory inMergeMode m1 (mp_files m1)))"

end
