(* ===== verification/Kcov_Merge_Props.thy ===== *)
theory Kcov_Merge_Props
  imports Kcov_Merge
begin

text \<open>
  Properties of the merge parser: what it writes fits its block, and reading it back adds the
  same lines, addresses and hits.
\<close>

section \<open>Tables in memory\<close>

lemma swap_header_ok:
  fixes a b c d n o1 o2 :: u32 and t :: u64
  shows "swap_header le (put_be le a @ put_be le b @ put_be le c @ put_be le d @ put_be le t @
       put_be le n @ put_be le o1 @ put_be le o2 @ rest) =
     Some (store le a @ store le b @ store le c @ store le d @ store le t @
       store le n @ store le o1 @ store le o2 @ rest)"
proof -
  note S = swap32_middle [of "[]" 0 le a, simplified] swap32_middle [of "store le a" 4 le b, simplified]
    swap32_middle [of "store le a @ store le b @ put_be le c" 12 le d, simplified]
    swap64_middle [of "store le a @ store le b @ put_be le c @ store le d" 16 le t, simplified]
    swap32_middle [of "store le a @ store le b" 8 le c, simplified]
    swap32_middle [of "store le a @ store le b @ store le c @ store le d @ store le t" 24 le n, simplified]
    swap32_middle [of "store le a @ store le b @ store le c @ store le d @ store le t @ store le n @ put_be le o1" 32 le o2, simplified]
    swap32_middle [of "store le a @ store le b @ store le c @ store le d @ store le t @ store le n" 28 le o1, simplified]
  show ?thesis by (simp add: swap_header_def S)
qed

lemma get_file_data_ok:
  fixes a b c d n o1 o2 :: u32 and t :: u64
  shows "get_file_data le (store le a @ store le b @ store le c @ store le d @ store le t @
       store le n @ store le o1 @ store le o2 @ rest) =
     Some \<lparr> fd_magic = a, fd_version = b, fd_checksum = d, fd_n_entries = n,
            fd_address_table_offset = o1, fd_file_name_offset = o2 \<rparr>"
proof -
  note L = load32_middle [of "[]" 0 le a, simplified] load32_middle [of "store le a" 4 le b, simplified]
    load32_middle [of "store le a @ store le b @ store le c" 12 le d, simplified]
    load32_middle [of "store le a @ store le b @ store le c @ store le d @ store le t" 24 le n, simplified]
    load32_middle [of "store le a @ store le b @ store le c @ store le d @ store le t @ store le n" 28 le o1, simplified]
    load32_middle [of "store le a @ store le b @ store le c @ store le d @ store le t @ store le n @ store le o1" 32 le o2, simplified]
  show ?thesis by (simp add: get_file_data_def L)
qed

definition host_line_entry :: "bool \<Rightarrow> u32 \<times> u32 \<times> u32 \<Rightarrow> byte list" where
  "host_line_entry le x = (case x of (line, start, n) \<Rightarrow> store le line @ store le start @ store le n)"

lemma length_line_entry [simp]:
  "length (put_line_entry le x) = 12" "length (host_line_entry le x) = 12"
  by (cases x, simp add: put_line_entry_def host_line_entry_def)+

lemma swap_entries_ok:
  "length pre = p \<Longrightarrow>
     swap_entries le (length es) p (pre @ concat (map (put_line_entry le) es) @ post) =
       Some (pre @ concat (map (host_line_entry le) es) @ post)"
proof (induction es arbitrary: pre p)
  case (Cons x es)
  obtain l s n where x: "x = (l, s, n)" by (cases x)
  let ?post = "concat (map (put_line_entry le) es) @ post"
  note S = swap32_middle [of pre p le l, simplified Cons.prems, OF refl]
    swap32_middle [of "pre @ store le l @ put_be le s" "p + 8" le n, simplified]
    swap32_middle [of "pre @ store le l" "p + 4" le s, simplified]
  have "swap_entries le (length es) (p + 12) ((pre @ host_line_entry le x) @ ?post) =
      Some ((pre @ host_line_entry le x) @ concat (map (host_line_entry le) es) @ post)"
    by (rule Cons.IH) (simp add: Cons.prems)
  moreover have "put_line_entry le x = put_be le l @ put_be le s @ put_be le n"
    "host_line_entry le x = store le l @ store le s @ store le n"
    by (simp_all add: x put_line_entry_def host_line_entry_def)
  ultimately show ?case
    using Cons.prems by (simp add: S sizeof_line_entry_def)
qed simp

lemma swap_addrs_ok:
  "length pre = p \<Longrightarrow>
     swap_addrs le (length as) p (pre @ concat (map (put_be le) (as :: u64 list)) @ post) =
       Some (pre @ concat (map (store le) as) @ post)"
proof (induction as arbitrary: pre p)
  case (Cons a as)
  have "swap_addrs le (length as) (p + 8) ((pre @ store le a) @ concat (map (put_be le) as) @ post) =
      Some ((pre @ store le a) @ concat (map (store le) as) @ post)"
    by (rule Cons.IH) (simp add: Cons.prems)
  then show ?case using Cons.prems by (simp add: swap64_middle)
qed simp

lemma load64_table:
  assumes "length pre = table" "i < length tbl"
  shows "load64 le (pre @ concat (map (store le) tbl) @ post) (table + i * 8) = Some (tbl ! i)"
proof -
  let ?X = "concat (map (store le) tbl)"
  have len: "length ?X = length tbl * 8" by (rule nat64.length_table)
  have "table + i * 8 + 8 \<le> length (pre @ ?X @ post)" using assms len by simp
  moreover have "take 8 (drop (table + i * 8) (pre @ ?X @ post)) = store le (tbl ! i)"
    using nat64.chunk_table [OF assms(2), of le post] assms(1) by (simp add: chunk_def)
  ultimately show ?thesis by (simp add: load64_def read_at_def)
qed

lemma entry_addrs_ok:
  assumes "\<And>i. i < length tbl \<Longrightarrow> load64 le mem (table + i * 8) = Some (tbl ! i)" "length tbl < 2 ^ 32"
  shows "i + n \<le> length tbl \<Longrightarrow> entry_addrs le mem table (of_nat i) n = Some (take n (drop i tbl))"
proof (induction n arbitrary: i)
  case (Suc n)
  then have i: "i < length tbl" by simp
  have u: "unat (of_nat i :: u32) = i" using i assms(2) by (intro unat_of_nat_small) simp
  have "entry_addrs le mem table (of_nat (Suc i)) n = Some (take n (drop (Suc i) tbl))"
    using Suc.IH [of "Suc i"] Suc.prems by simp
  moreover have "take (Suc n) (drop i tbl) = tbl ! i # take n (drop (Suc i) tbl)"
    using i by (simp add: Cons_nth_drop_Suc [symmetric])
  ultimately show ?case using assms(1) [OF i] by (simp add: u add.commute)
qed simp

lemma length_line_table [simp]: "length (line_table n ls) = length ls"
  by (induction n ls rule: line_table.induct) auto

text \<open>The items of a file: every address of the table with its line.\<close>

definition file_items :: "(u64 \<Rightarrow> u32) \<Rightarrow> (u32 \<times> (u64 \<times> u32) list) list \<Rightarrow> (u32 \<times> u64) list" where
  "file_items addrHits ls =
     concat (map (\<lambda>(line, as). map (\<lambda>(a, _). (line, if addrHits a \<noteq> 0 then a OR HIT_BIT else a)) as) ls)"

lemma parse_entries_ok:
  assumes "\<And>i. i < length tbl \<Longrightarrow> load64 le mem (table + i * 8) = Some (tbl ! i)" "length tbl < 2 ^ 32"
    and "mem = pre @ concat (map (host_line_entry le) (line_table (length tbl0) ls)) @ post" "length pre = p"
    and "tbl = tbl0 @ addr_table h ls"
  shows "parse_entries le mem table p (length ls) = Some (file_items h ls)"
  using assms(3-5)
proof (induction ls arbitrary: pre p tbl0)
  case (Cons x ls)
  obtain l as where x: "x = (l, as)" by fastforce
  let ?m = "map (\<lambda>(addr, _). if h addr \<noteq> 0 then addr OR HIT_BIT else addr) as"
  let ?e = "host_line_entry le (l, of_nat (length tbl0), of_nat (length as))"
  let ?tail = "concat (map (host_line_entry le) (line_table (length (tbl0 @ ?m)) ls)) @ post"
  have tbl: "tbl = (tbl0 @ ?m) @ addr_table h ls" using Cons.prems(3) by (simp add: x addr_table_def)
  have mem: "mem = (pre @ ?e) @ ?tail" using Cons.prems(1) by (simp add: x)
  have ih: "parse_entries le mem table (p + 12) (length ls) = Some (file_items h ls)"
    by (rule Cons.IH [OF mem]) (simp_all add: Cons.prems(2) tbl)
  have len: "length as < 2 ^ 32" using assms(2) tbl by simp
  have "entry_addrs le mem table (of_nat (length tbl0)) (length as) = Some ?m"
    using entry_addrs_ok [OF assms(1,2), of "length tbl0" "length as"] tbl by simp
  moreover have "unat (of_nat (length as) :: u32) = length as" using len by (intro unat_of_nat_small) simp
  moreover have "load32 le mem p = Some l" "load32 le mem (p + 4) = Some (of_nat (length tbl0))"
    "load32 le mem (p + 8) = Some (of_nat (length as))"
    using load32_middle [of pre p le l] load32_middle [of "pre @ store le l" "p + 4" le]
      load32_middle [of "pre @ store le l @ store le (of_nat (length tbl0) :: u32)" "p + 8" le] Cons.prems(2)
    by (simp_all add: mem host_line_entry_def)
  ultimately show ?case
    using ih by (simp add: x sizeof_line_entry_def file_items_def comp_def case_prod_unfold)
qed (simp add: file_items_def)

section \<open>The block of a file\<close>

lemma align8_bounds: "n \<le> align8 n" "align8 n \<le> n + 7"
  by (auto simp: align8_def)

text \<open>The block, in the byte order of the file or of the machine.\<close>

definition tableStart :: "MFile \<Rightarrow> nat" where
  "tableStart f = align8 (offsetof_entries + length (mf_lines f) * sizeof_line_entry)"

definition nameStart :: "MFile \<Rightarrow> nat" where
  "nameStart f = tableStart f + length (addr_table (mf_addrHits f) (mf_lines f)) * 8"

definition file_block ::
  "(u32 \<Rightarrow> byte list) \<Rightarrow> (u64 \<Rightarrow> byte list) \<Rightarrow> (u32 \<times> u32 \<times> u32 \<Rightarrow> byte list) \<Rightarrow> MFile \<Rightarrow> byte list" where
  "file_block p32 p64 pe f =
     p32 MERGE_MAGIC @ p32 MERGE_VERSION @ p32 (of_nat (marshal_size f)) @ p32 (mf_checksum f) @
     p64 (mf_fileTimestamp f) @ p32 (of_nat (length (mf_lines f))) @
     p32 (of_nat (tableStart f)) @ p32 (of_nat (nameStart f)) @
     concat (map pe (line_table 0 (mf_lines f))) @
     replicate (tableStart f - (offsetof_entries + length (mf_lines f) * sizeof_line_entry)) 0 @
     concat (map p64 (addr_table (mf_addrHits f) (mf_lines f))) @
     string_to_bytes (c_str (mf_filename f)) @ 0 #
     replicate (marshal_size f - (nameStart f + length (c_str (mf_filename f)) + 1)) 0"

abbreviation "wire_block le \<equiv> file_block (put_be le) (put_be le) (put_line_entry le)"
abbreviation "host_block le \<equiv> file_block (store le) (store le) (host_line_entry le)"

lemma length_entries [simp]:
  "length (concat (map (put_line_entry le) es)) = length es * 12"
  "length (concat (map (host_line_entry le) es)) = length es * 12"
  by (induction es) auto

lemma c_str_le: "length (c_str s) \<le> length s"
  by (simp add: c_str_def length_takeWhile_le)

lemma tableStart_bounds:
  "36 + length (mf_lines f) * 12 \<le> tableStart f" "tableStart f \<le> 36 + length (mf_lines f) * 12 + 7"
  using align8_bounds [of "36 + length (mf_lines f) * 12"]
  by (simp_all add: tableStart_def offsetof_entries_def sizeof_line_entry_def)

lemma marshal_size_eq:
  "length (addr_table (mf_addrHits f) (mf_lines f)) < 2 ^ 32 \<Longrightarrow>
     marshal_size f = 40 + length (mf_lines f) * 12 + length (addr_table (mf_addrHits f) (mf_lines f)) * 8 +
       length (mf_filename f) + 1 + 8"
  using unat_of_nat_small [of "length (addr_table (mf_addrHits f) (mf_lines f))", where 'a = 32]
  by (simp add: marshal_size_def sizeof_file_data_def sizeof_line_entry_def)

lemma marshalFile_eq:
  assumes "map_of (mp_files m) name = Some f" "length (addr_table (mf_addrHits f) (mf_lines f)) < 2 ^ 32"
  shows "marshalFile e m name = Some (Some (wire_block (me_little_endian e) f))"
    "length (wire_block (me_little_endian e) f) = marshal_size f"
proof -
  let ?n = "length (mf_lines f)" and ?a = "length (addr_table (mf_addrHits f) (mf_lines f))"
  note size = marshal_size_eq [OF assms(2)] and ts = tableStart_bounds [of f]
  have fits: "nameStart f + length (c_str (mf_filename f)) + 1 \<le> marshal_size f"
    using ts c_str_le [of "mf_filename f"] by (simp add: size nameStart_def)
  have [simp]: "length (concat (map (put_be le) as)) = length as * 8" for le and as :: "u64 list"
    by (rule be64.length_table)
  define out where "out = (let le = me_little_endian e in
     put_be le MERGE_MAGIC @ put_be le MERGE_VERSION @ put_be le (of_nat (marshal_size f) :: u32) @
     put_be le (mf_checksum f) @ put_be le (mf_fileTimestamp f) @ put_be le (of_nat ?n :: u32) @
     put_be le (of_nat (tableStart f) :: u32) @ put_be le (of_nat (nameStart f) :: u32) @
     concat (map (put_line_entry le) (line_table 0 (mf_lines f))) @
     replicate (tableStart f - (offsetof_entries + ?n * sizeof_line_entry)) 0 @
     concat (map (put_be le) (addr_table (mf_addrHits f) (mf_lines f))) @
     string_to_bytes (c_str (mf_filename f)) @ [0])"
  have len: "length out = nameStart f + length (c_str (mf_filename f)) + 1"
    using ts by (simp add: out_def Let_def nameStart_def offsetof_entries_def sizeof_line_entry_def)
  have wire: "wire_block (me_little_endian e) f = out @ replicate (marshal_size f - length out) 0"
    unfolding len by (simp add: file_block_def out_def Let_def)
  then show "length (wire_block (me_little_endian e) f) = marshal_size f" using fits len by simp
  have "marshalFile e m name = (if length out \<le> marshal_size f
      then Some (Some (out @ replicate (marshal_size f - length out) 0)) else None)"
    unfolding marshalFile_def Let_def assms(1) option.case out_def tableStart_def nameStart_def by (rule refl)
  then show "marshalFile e m name = Some (Some (wire_block (me_little_endian e) f))"
    using fits len wire by simp
qed

lemma unMarshalFile_wire:
  assumes "marshal_size f < 2 ^ 32" "length (addr_table (mf_addrHits f) (mf_lines f)) < 2 ^ 32"
  shows "unMarshalFile le (wire_block le f) = Some (True, host_block le f)"
proof -
  let ?as = "addr_table (mf_addrHits f) (mf_lines f)" and ?es = "line_table 0 (mf_lines f)"
  let ?n = "length (mf_lines f)"
  let ?h = "\<lambda>p32 p64. p32 MERGE_MAGIC @ p32 MERGE_VERSION @ p32 (of_nat (marshal_size f)) @ p32 (mf_checksum f) @
     p64 (mf_fileTimestamp f) @ p32 (of_nat ?n) @ p32 (of_nat (tableStart f)) @ p32 (of_nat (nameStart f) :: u32)"
  let ?hh = "?h (store le :: u32 \<Rightarrow> byte list) (store le :: u64 \<Rightarrow> byte list)"
  define pad where "pad = replicate (tableStart f - (offsetof_entries + ?n * sizeof_line_entry)) (0 :: byte)"
  define tail where "tail = string_to_bytes (c_str (mf_filename f)) @ 0 #
     replicate (marshal_size f - (nameStart f + length (c_str (mf_filename f)) + 1)) 0"
  note size = marshal_size_eq [OF assms(2)] and ts = tableStart_bounds [of f]
  have n: "unat (of_nat ?n :: u32) = ?n" "unat (of_nat (tableStart f) :: u32) = tableStart f"
    using assms(1) size ts by (auto intro!: unat_of_nat_small)
  have diff: "unat (of_nat (nameStart f) - of_nat (tableStart f) :: u32) = length ?as * 8"
  proof -
    have "(of_nat (nameStart f) - of_nat (tableStart f) :: u32) = of_nat (length ?as * 8)"
      by (simp add: nameStart_def)
    then show ?thesis using assms(1) size by (simp only:) (rule unat_of_nat_small, simp)
  qed
  have s1: "swap_header le (wire_block le f) =
      Some (?hh @ concat (map (put_line_entry le) ?es) @ pad @ concat (map (put_be le) ?as) @ tail)"
    using swap_header_ok by (simp add: file_block_def pad_def tail_def)
  have s2: "swap_entries le ?n offsetof_entries
        (?hh @ concat (map (put_line_entry le) ?es) @ pad @ concat (map (put_be le) ?as) @ tail) =
      Some (?hh @ concat (map (host_line_entry le) ?es) @ pad @ concat (map (put_be le) ?as) @ tail)"
    using swap_entries_ok [of ?hh offsetof_entries le ?es] by (simp add: offsetof_entries_def)
  have s3: "swap_addrs le (length ?as) (tableStart f)
        (?hh @ concat (map (host_line_entry le) ?es) @ pad @ concat (map (put_be le) ?as) @ tail) =
      Some (host_block le f)"
    using swap_addrs_ok [of "?hh @ concat (map (host_line_entry le) ?es) @ pad" "tableStart f" le ?as tail] ts
    by (simp add: pad_def tail_def file_block_def offsetof_entries_def sizeof_line_entry_def)
  have g: "get_file_data le (?hh @ rest) =
      Some \<lparr> fd_magic = MERGE_MAGIC, fd_version = MERGE_VERSION, fd_checksum = mf_checksum f,
             fd_n_entries = of_nat ?n, fd_address_table_offset = of_nat (tableStart f),
             fd_file_name_offset = of_nat (nameStart f) \<rparr>" for rest
    using get_file_data_ok by simp
  show ?thesis
    unfolding unMarshalFile_def s1 by (simp add: g [simplified] n diff s2 [simplified] s3 [simplified])
qed

section \<open>What parsing adds\<close>

definition file_item :: "MFile \<Rightarrow> u32 \<times> u64 \<Rightarrow> MFile" where
  "file_item f x =
     (case x of (lineNr, a) \<Rightarrow>
        let f1 = merge_addLine f lineNr (a AND NOT HIT_BIT)
        in if a AND HIT_BIT \<noteq> 0 then registerHits f1 (a AND NOT HIT_BIT) 1 else f1)"

text \<open>The lines of a file with their addresses, and which addresses are hit.\<close>

definition file_lines_of :: "MFile \<Rightarrow> (u32 \<times> u64) set" where
  "file_lines_of f = {(nr, a). a \<in> fst ` set (line_addrs (mf_lines f) nr)}"

definition item_hits :: "(u32 \<times> u64) list \<Rightarrow> u64 \<Rightarrow> nat" where
  "item_hits xs a = length (filter (\<lambda>(_, x). x AND HIT_BIT \<noteq> 0 \<and> x AND NOT HIT_BIT = a) xs)"

lemma merge_addLine_fields [simp]:
  "mf_addrHits (merge_addLine f nr a) = mf_addrHits f" "mf_checksum (merge_addLine f nr a) = mf_checksum f"
  "mf_filename (merge_addLine f nr a) = mf_filename f" "mf_local (merge_addLine f nr a) = mf_local f"
  by (simp_all add: merge_addLine_def Let_def)

lemma line_addrs_upd: "line_addrs (alist_upd nr as ls) k = (if k = nr then as else line_addrs ls k)"
  by (simp add: line_addrs_def)

lemma file_lines_of_addLine [simp]: "file_lines_of (merge_addLine f nr a) = insert (nr, a) (file_lines_of f)"
proof -
  have "fst ` set (line_addrs (mf_lines (merge_addLine f nr a)) k) =
      (if k = nr then insert a (fst ` set (line_addrs (mf_lines f) k)) else fst ` set (line_addrs (mf_lines f) k))" for k
    by (simp add: merge_addLine_def Let_def line_addrs_upd)
  then have "x \<in> file_lines_of (merge_addLine f nr a) \<longleftrightarrow> x \<in> insert (nr, a) (file_lines_of f)" for x
    by (cases x) (simp add: file_lines_of_def)
  then show ?thesis by blast
qed

lemma registerHits_fields [simp]:
  "file_lines_of (registerHits f a n) = file_lines_of f" "mf_checksum (registerHits f a n) = mf_checksum f"
  "mf_filename (registerHits f a n) = mf_filename f" "mf_local (registerHits f a n) = mf_local f"
  by (simp_all add: registerHits_def file_lines_of_def)

lemma file_item_effect:
  "file_lines_of (file_item f (nr, x)) = insert (nr, x AND NOT HIT_BIT) (file_lines_of f)"
  "mf_addrHits (file_item f (nr, x)) a =
     mf_addrHits f a + (if x AND HIT_BIT \<noteq> 0 \<and> x AND NOT HIT_BIT = a then 1 else 0)"
  "mf_checksum (file_item f (nr, x)) = mf_checksum f" "mf_filename (file_item f (nr, x)) = mf_filename f"
  "mf_local (file_item f (nr, x)) = mf_local f"
  by (auto simp: file_item_def Let_def) (simp_all add: registerHits_def)

lemma file_items_effect:
  "file_lines_of (foldl file_item f xs) = file_lines_of f \<union> (\<lambda>(nr, x). (nr, x AND NOT HIT_BIT)) ` set xs"
  "mf_addrHits (foldl file_item f xs) a = mf_addrHits f a + of_nat (item_hits xs a)"
  "mf_checksum (foldl file_item f xs) = mf_checksum f"
proof (induction xs arbitrary: f)
  case (Cons x xs)
  obtain nr b where x: "x = (nr, b)" by fastforce
  { case 1 show ?case using Cons(1) by (simp add: x file_item_effect) }
  { case 2 show ?case using Cons(2) [of "file_item f x"] by (simp add: x file_item_effect item_hits_def) }
  { case 3 show ?case using Cons(3) by (simp add: x file_item_effect) }
qed (simp_all add: item_hits_def)

lemma map_of_upd_file:
  "map_of (mp_files (upd_file m n g)) k = (if k = n then map_option g (map_of (mp_files m) n) else map_of (mp_files m) k)"
  by (auto simp: upd_file_def split: option.splits)

lemma foldl_parse_addr:
  "map_of (mp_files (fst (foldl (parse_addr n) (m, evs) xs))) k =
     (if k = n then map_option (\<lambda>f. foldl file_item f xs) (map_of (mp_files m) n) else map_of (mp_files m) k)"
proof (induction xs arbitrary: m evs)
  case (Cons x xs)
  obtain nr a where x: "x = (nr, a)" by fastforce
  obtain m' evs' where s: "parse_addr n (m, evs) x = (m', evs')" by fastforce
  have "map_of (mp_files m') k = (if k = n then map_option (\<lambda>f. file_item f x) (map_of (mp_files m) n) else map_of (mp_files m) k)" for k
    using s by (auto simp: x parse_addr_def Let_def map_of_upd_file file_item_def option.map_comp comp_def split: if_splits)
  with Cons.IH [of m' evs'] s show ?case by (auto simp: option.map_comp comp_def)
qed (simp add: option.map_ident)

lemma bit_HIT_BIT: "bit HIT_BIT n \<longleftrightarrow> n = 63"
  unfolding HIT_BIT_def bit_push_bit_iff bit_1_iff by auto

lemma hit_bit_simps:
  "\<not> bit a 63 \<Longrightarrow> (a OR HIT_BIT) AND NOT HIT_BIT = a" "\<not> bit a 63 \<Longrightarrow> a AND NOT HIT_BIT = a"
  "(a OR HIT_BIT) AND HIT_BIT \<noteq> 0" "\<not> bit a 63 \<Longrightarrow> a AND HIT_BIT = 0"
proof -
  note b = bit_HIT_BIT
  show "\<not> bit a 63 \<Longrightarrow> (a OR HIT_BIT) AND NOT HIT_BIT = a" "\<not> bit a 63 \<Longrightarrow> a AND NOT HIT_BIT = a"
    "\<not> bit a 63 \<Longrightarrow> a AND HIT_BIT = 0"
    by (auto intro!: bit_word_eqI simp: bit_simps b)
  have "bit ((a OR HIT_BIT) AND HIT_BIT) 63" by (simp add: bit_simps b)
  then show "(a OR HIT_BIT) AND HIT_BIT \<noteq> 0" by force
qed

section \<open>The invariant of the parser\<close>

text \<open>Line and address tables have unique keys, and no address carries the hit bit.\<close>

definition mfile_ok :: "MFile \<Rightarrow> bool" where
  "mfile_ok f \<longleftrightarrow> distinct (map fst (mf_lines f)) \<and>
     (\<forall>(nr, as) \<in> set (mf_lines f). distinct (map fst as) \<and> (\<forall>(a, _) \<in> set as. \<not> bit a 63))"

definition merge_ok :: "MergeParser \<Rightarrow> bool" where
  "merge_ok m \<longleftrightarrow> distinct (map fst (mp_files m)) \<and>
     (\<forall>(n, f) \<in> set (mp_files m). mf_filename f = n \<and> mfile_ok f) \<and>
     (\<forall>a n. mp_filesByAddress m a = Some n \<longrightarrow> n \<in> fst ` set (mp_files m)) \<and>
     (\<forall>a b. mp_fileLineByAddress m a = Some b \<longrightarrow> mp_filesByAddress m b \<noteq> None)"

lemma not_bit_masked: "\<not> bit (a AND NOT HIT_BIT) 63"
  by (simp add: bit_and_iff bit_not_iff bit_HIT_BIT)

lemma mfile_ok_addLine:
  assumes "mfile_ok f" "\<not> bit a 63"
  shows "mfile_ok (merge_addLine f nr a)"
proof -
  let ?as = "line_addrs (mf_lines f) nr"
  have as: "distinct (map fst ?as) \<and> (\<forall>(b, _) \<in> set ?as. \<not> bit b 63)"
    using assms(1) by (auto simp: mfile_ok_def line_addrs_def dest: map_of_SomeD split: option.splits)
  define n where "n = (case map_of ?as a of None \<Rightarrow> 0 | Some n \<Rightarrow> n) + (1 :: u32)"
  have "distinct (map fst (alist_upd a n ?as)) \<and> (\<forall>(b, _) \<in> set (alist_upd a n ?as). \<not> bit b 63)"
    using as assms(2) by (auto simp: set_alist_upd)
  moreover have "mf_lines (merge_addLine f nr a) = alist_upd nr (alist_upd a n ?as) (mf_lines f)"
    by (simp add: merge_addLine_def Let_def n_def)
  ultimately show ?thesis using assms(1) by (auto simp: mfile_ok_def set_alist_upd)
qed

lemma mfile_ok_frame [simp]: "mfile_ok (registerHits f a n) = mfile_ok f" "mfile_ok (setLocal f) = mfile_ok f"
  by (simp_all add: mfile_ok_def registerHits_def setLocal_def)

lemma setLocal_fields [simp]:
  "mf_filename (setLocal f) = mf_filename f" "file_lines_of (setLocal f) = file_lines_of f"
  "mf_addrHits (setLocal f) = mf_addrHits f"
  by (simp_all add: setLocal_def file_lines_of_def)

lemma fst_files_upd_file [simp]: "fst ` set (mp_files (upd_file m n g)) = fst ` set (mp_files m)"
  by (auto simp: upd_file_def split: option.splits) (force dest: map_of_SomeD)+

lemma upd_file_frame [simp]:
  "mp_filesByAddress (upd_file m n g) = mp_filesByAddress m"
  "mp_fileLineByAddress (upd_file m n g) = mp_fileLineByAddress m"
  "mp_pendingHits (upd_file m n g) = mp_pendingHits m"
  by (simp_all add: upd_file_def split: option.splits)

lemma merge_ok_upd_file:
  assumes "merge_ok m" "\<And>f. mfile_ok f \<Longrightarrow> mfile_ok (g f)" "\<And>f. mf_filename (g f) = mf_filename f"
  shows "merge_ok (upd_file m n g)"
proof (cases "map_of (mp_files m) n")
  case None
  with assms(1) show ?thesis by (simp add: upd_file_def)
next
  case (Some f)
  have d: "distinct (map fst (mp_files m))" and f: "mf_filename f = n" "mfile_ok f"
    using assms(1) map_of_SomeD [OF Some] by (auto simp: merge_ok_def)
  have "fst ` set (mp_files (upd_file m n g)) = fst ` set (mp_files m)" by simp
  moreover have "mp_files (upd_file m n g) = alist_upd n (g f) (mp_files m)" using Some by (simp add: upd_file_def)
  ultimately show ?thesis
    using assms f d by (auto simp: merge_ok_def set_alist_upd)
qed

lemma merge_ok_frame [simp]: "merge_ok (m\<lparr>mp_pendingHits := x\<rparr>) = merge_ok m"
  by (simp add: merge_ok_def)

lemma merge_ok_mk [simp]: "merge_ok mk_MergeParser"
  by (simp add: merge_ok_def mk_MergeParser_def)

lemma get_or_new_ok:
  assumes "merge_ok m" "get_or_new e m n = Some m1"
  shows "merge_ok m1" "n \<in> fst ` set (mp_files m1)" "mp_pendingHits m1 = mp_pendingHits m"
    "mp_fileLineByAddress m1 = mp_fileLineByAddress m" "mp_filesByAddress m1 = mp_filesByAddress m"
proof -
  have "merge_ok m1 \<and> n \<in> fst ` set (mp_files m1) \<and> mp_pendingHits m1 = mp_pendingHits m \<and>
    mp_fileLineByAddress m1 = mp_fileLineByAddress m \<and> mp_filesByAddress m1 = mp_filesByAddress m"
  proof (cases "map_of (mp_files m) n")
    case (Some f)
    with assms show ?thesis by (auto simp: get_or_new_def dest: map_of_SomeD intro: rev_image_eqI)
  next
    case None
    with assms(2) obtain f where f: "mk_MFile e n = Some f" "m1 = m\<lparr>mp_files := alist_upd n f (mp_files m)\<rparr>"
      by (auto simp: get_or_new_def)
    from f(1) have "mf_filename f = n" "mfile_ok f"
      by (auto simp: mk_MFile_def mfile_ok_def split: option.splits)
    with assms(1) f(2) show ?thesis by (auto simp: merge_ok_def set_alist_upd)
  qed
  then show "merge_ok m1" "n \<in> fst ` set (mp_files m1)" "mp_pendingHits m1 = mp_pendingHits m"
    "mp_fileLineByAddress m1 = mp_fileLineByAddress m" "mp_filesByAddress m1 = mp_filesByAddress m" by auto
qed

lemma onAddress_ok: "merge_ok m \<Longrightarrow> onAddress m a h = (m', evs) \<Longrightarrow> merge_ok m'"
  by (auto simp: onAddress_def split: option.splits intro!: merge_ok_upd_file)

lemma onLineReporter_ok:
  assumes "merge_ok m" "onLineReporter e m n nr a = Some (m', evs)"
  shows "merge_ok m'"
proof (cases "\<not> runFilters (me_rp e) (me_filter e) n \<or> \<not> me_exists e n")
  case True
  with assms show ?thesis by (auto simp: onLineReporter_def split: if_splits)
next
  case False
  with assms(2) obtain m1 where m1: "get_or_new e m n = Some m1"
    by (auto simp: onLineReporter_def split: option.splits)
  note g = get_or_new_ok [OF assms(1) m1]
  define h where "h = hashAddress e n nr a AND NOT HIT_BIT"
  define m3 where "m3 = (let m2 = upd_file (m1\<lparr>mp_fileLineByAddress := (mp_fileLineByAddress m1)(a \<mapsto> h)\<rparr>) n
      (\<lambda>f. merge_addLine (setLocal f) nr h) in m2\<lparr>mp_filesByAddress := (mp_filesByAddress m2)(h \<mapsto> n)\<rparr>)"
  have "merge_ok (upd_file m1 n (\<lambda>f. merge_addLine (setLocal f) nr h))"
    by (rule merge_ok_upd_file [OF g(1)]) (simp_all add: mfile_ok_addLine h_def not_bit_masked)
  moreover have "mp_files m3 = mp_files (upd_file m1 n (\<lambda>f. merge_addLine (setLocal f) nr h))"
    by (simp add: m3_def Let_def upd_file_def split: option.splits)
  ultimately have ok3: "merge_ok m3"
    using g(1,2) by (auto simp: merge_ok_def m3_def Let_def)
  have "m' = m3 \<or> (\<exists>m4 evs4 hits. onAddress m3 a hits = (m4, evs4) \<and> m' = m4\<lparr>mp_pendingHits := (mp_pendingHits m4)(a := None)\<rparr>)"
    using assms(2) False m1
    by (auto simp: onLineReporter_def Let_def m3_def h_def split: option.splits prod.splits)
  with ok3 onAddress_ok show ?thesis by auto
qed

lemma parse_addr_ok: "merge_ok m \<Longrightarrow> merge_ok (fst (parse_addr n (m, evs) x))"
  by (auto simp: parse_addr_def Let_def not_bit_masked split: prod.splits
      intro!: merge_ok_upd_file mfile_ok_addLine)

lemma foldl_parse_addr_ok: "merge_ok m \<Longrightarrow> merge_ok (fst (foldl (parse_addr n) (m, evs) xs))"
proof (induction xs arbitrary: m evs)
  case (Cons x xs)
  obtain m' evs' where s: "parse_addr n (m, evs) x = (m', evs')" by fastforce
  with parse_addr_ok [OF Cons.prems, of n evs x] have "merge_ok m'" by simp
  from Cons.IH [OF this] s show ?case by simp
qed simp

lemma parseFileData_ok:
  assumes "merge_ok m" "parseFileData e m fd = Some (m', evs)"
  shows "merge_ok m'"
proof -
  from assms(2) obtain h name where "get_file_data (me_little_endian e) fd = Some h"
    "c_string_at fd (unat (fd_file_name_offset h)) = Some name"
    by (auto simp: parseFileData_def bind_eq_Some_conv)
  with assms(2) have "m' = m \<or> (\<exists>n m1 xs. get_or_new e m n = Some m1 \<and> m' = fst (foldl (parse_addr n) (m1, []) xs))"
    by (auto simp: parseFileData_def Let_def bind_eq_Some_conv split: if_splits) (metis fst_conv)+
  with assms(1) get_or_new_ok(1) [OF assms(1)] foldl_parse_addr_ok show ?thesis by blast
qed

lemma parseOne_ok: "merge_ok m \<Longrightarrow> parseOne e m d c = Some (m', evs) \<Longrightarrow> merge_ok m'"
  by (auto simp: parseOne_def split: if_splits option.splits bool.splits dest: parseFileData_ok)

lemma parse_all_ok:
  assumes "\<And>m x m' evs. merge_ok m \<Longrightarrow> f m x = Some (m', evs) \<Longrightarrow> merge_ok m'"
  shows "merge_ok m \<Longrightarrow> parse_all f m xs = Some (m', evs) \<Longrightarrow> merge_ok m'"
  by (induction xs arbitrary: m evs) (auto simp: bind_eq_Some_conv dest: assms)

lemma parseDirectory_ok: "merge_ok m \<Longrightarrow> parseDirectory e readdir m d = Some (m', evs) \<Longrightarrow> merge_ok m'"
  by (auto simp: parseDirectory_def Let_def split: option.splits intro: parse_all_ok parseOne_ok)

lemma parseStoredData_ok: "merge_ok m \<Longrightarrow> parseStoredData e readdir b out m = Some (m', evs) \<Longrightarrow> merge_ok m'"
  unfolding parseStoredData_def
  by (auto simp: Let_def split: option.splits if_splits elim!: parse_all_ok [rotated 2] dest: parseDirectory_ok)

lemma parseStoredDataMerged_ok:
  assumes "merge_ok m" "parseStoredDataMerged e readdir argv m = Some (m', evs)"
  shows "merge_ok m'"
proof (rule parse_all_ok [OF _ assms(1) assms(2) [unfolded parseStoredDataMerged_def]])
  show "merge_ok m2" if "merge_ok m1" "(case readdir x of None \<Rightarrow> Some (m1, [])
      | Some ds \<Rightarrow> parse_all (\<lambda>m d. parseDirectory e readdir m (x @ ''/'' @ d)) m1 ds) = Some (m2, evs)" for m1 x m2 evs
    using that by (auto split: option.splits elim!: parse_all_ok [rotated 2] dest: parseDirectory_ok)
qed

lemma onStop_ok:
  assumes "merge_ok m" "onStop e readdir b out argv mode m = Some (m', evs, ws)"
  shows "merge_ok m'"
proof (cases mode)
  case True
  with assms(2) obtain evs' where "parseStoredDataMerged e readdir argv m = Some (m', evs')"
    by (auto simp: onStop_def bind_eq_Some_conv)
  with parseStoredDataMerged_ok [OF assms(1)] show ?thesis .
next
  case False
  with assms(2) obtain evs' where "parseStoredData e readdir b out m = Some (m', evs')"
    by (auto simp: onStop_def bind_eq_Some_conv)
  with parseStoredData_ok [OF assms(1)] show ?thesis .
qed

text \<open>The calls the parser receives from the reporter, and its end.\<close>

inductive merge_step :: "merge_env \<Rightarrow> (string \<Rightarrow> string list option) \<Rightarrow> MergeParser \<Rightarrow> MergeParser \<Rightarrow> bool"
  for e readdir where
  addr: "onAddress m a hits = (m', evs) \<Longrightarrow> merge_step e readdir m m'"
| line: "onLineReporter e m n nr a = Some (m', evs) \<Longrightarrow> merge_step e readdir m m'"
| stop: "onStop e readdir b out argv mode m = Some (m', evs, ws) \<Longrightarrow> merge_step e readdir m m'"

inductive_cases merge_stepE: "merge_step e readdir m m'"

interpretation merge: step_invariant "\<lambda>m. m = mk_MergeParser" "merge_step e readdir" merge_ok for e readdir
  by unfold_locales (auto elim!: merge_stepE intro: onAddress_ok onLineReporter_ok onStop_ok)

lemmas merge_reachable = merge.inv_reachable [OF refl]

section \<open>Reading back what was written\<close>

lemma file_items_lines:
  assumes "mfile_ok f"
  shows "(\<lambda>(nr, x). (nr, x AND NOT HIT_BIT)) ` set (file_items (mf_addrHits f) (mf_lines f)) = file_lines_of f"
proof -
  have d: "distinct (map fst (mf_lines f))" using assms by (simp add: mfile_ok_def)
  have mem: "(nr, a) \<in> file_lines_of f \<longleftrightarrow> (\<exists>as. (nr, as) \<in> set (mf_lines f) \<and> a \<in> fst ` set as)" for nr a
  proof (cases "map_of (mf_lines f) nr")
    case None
    then have "line_addrs (mf_lines f) nr = []" by (simp add: line_addrs_def)
    moreover have "nr \<notin> fst ` set (mf_lines f)" using None by (simp add: map_of_eq_None_iff)
    ultimately show ?thesis by (force simp: file_lines_of_def)
  next
    case (Some bs)
    then have "(nr, as) \<in> set (mf_lines f) \<longleftrightarrow> as = bs" for as
      using map_of_is_SomeI [OF d, of nr as] map_of_SomeD [OF Some] by auto
    with Some show ?thesis by (simp add: file_lines_of_def line_addrs_def)
  qed
  have masked: "(if mf_addrHits f a \<noteq> 0 then a OR HIT_BIT else a) AND NOT HIT_BIT = a"
    if "(nr, as) \<in> set (mf_lines f)" "(a, c) \<in> set as" for nr as a c
  proof -
    have "\<not> bit a 63" using assms that by (force simp: mfile_ok_def)
    then show ?thesis by (simp add: hit_bit_simps)
  qed
  show ?thesis
  proof (intro set_eqI iffI)
    fix x assume "x \<in> (\<lambda>(nr, x). (nr, x AND NOT HIT_BIT)) ` set (file_items (mf_addrHits f) (mf_lines f))"
    then obtain nr as a c where "(nr, as) \<in> set (mf_lines f)" "(a, c) \<in> set as"
      "x = (nr, (if mf_addrHits f a \<noteq> 0 then a OR HIT_BIT else a) AND NOT HIT_BIT)"
      by (auto simp: file_items_def)
    with masked mem show "x \<in> file_lines_of f" by (metis fst_conv image_eqI)
  next
    fix x assume "x \<in> file_lines_of f"
    then obtain nr as a c where "x = (nr, a)" "(nr, as) \<in> set (mf_lines f)" "(a, c) \<in> set as"
      using mem by (cases x) auto
    with masked show "x \<in> (\<lambda>(nr, x). (nr, x AND NOT HIT_BIT)) ` set (file_items (mf_addrHits f) (mf_lines f))"
      by (intro image_eqI [of _ _ "(nr, if mf_addrHits f a \<noteq> 0 then a OR HIT_BIT else a)"])
        (auto simp: file_items_def intro!: bexI [of _ "(nr, as)"] rev_image_eqI)
  qed
qed

lemma length_file_items: "length (file_items h ls) = length (addr_table h ls)"
  by (induction ls) (auto simp: file_items_def addr_table_def)

lemma item_hits_pos: "item_hits xs a \<noteq> 0 \<longleftrightarrow> (\<exists>(nr, x) \<in> set xs. x AND HIT_BIT \<noteq> 0 \<and> x AND NOT HIT_BIT = a)"
  by (auto simp: item_hits_def filter_empty_conv)

lemma file_items_hits:
  assumes "mfile_ok f"
  shows "item_hits (file_items (mf_addrHits f) (mf_lines f)) a \<noteq> 0 \<longleftrightarrow>
     mf_addrHits f a \<noteq> 0 \<and> a \<in> snd ` file_lines_of f"
proof -
  let ?xs = "file_items (mf_addrHits f) (mf_lines f)"
  have x: "\<exists>b. (if mf_addrHits f b \<noteq> 0 then b OR HIT_BIT else b) = x \<and> \<not> bit b 63" if "(nr, x) \<in> set ?xs" for nr x
  proof -
    from that obtain as b c where b: "(nr, as) \<in> set (mf_lines f)" "(b, c) \<in> set as"
      "x = (if mf_addrHits f b \<noteq> 0 then b OR HIT_BIT else b)" by (auto simp: file_items_def)
    have "\<not> bit b 63" using assms b(1,2) by (force simp: mfile_ok_def)
    with b(3) show ?thesis by blast
  qed
  have hit: "x AND HIT_BIT \<noteq> 0 \<longleftrightarrow> mf_addrHits f (x AND NOT HIT_BIT) \<noteq> 0" if "(nr, x) \<in> set ?xs" for nr x
  proof -
    note xb = x [OF that]
    obtain b where b: "(if mf_addrHits f b \<noteq> 0 then b OR HIT_BIT else b) = x" "\<not> bit b 63" using xb by blast
    then show ?thesis using hit_bit_simps [of b] by (cases "mf_addrHits f b = 0") auto
  qed
  have "a \<in> snd ` file_lines_of f \<longleftrightarrow> (\<exists>(nr, x) \<in> set ?xs. x AND NOT HIT_BIT = a)"
    unfolding file_items_lines [OF assms, symmetric] by force
  with hit show ?thesis unfolding item_hits_pos by fastforce
qed

definition lines_known :: "MergeParser \<Rightarrow> string \<Rightarrow> (u32 \<times> u64) set" where
  "lines_known m n = (case map_of (mp_files m) n of None \<Rightarrow> {} | Some f \<Rightarrow> file_lines_of f)"

definition hits_known :: "MergeParser \<Rightarrow> string \<Rightarrow> u64 \<Rightarrow> u32" where
  "hits_known m n a = (case map_of (mp_files m) n of None \<Rightarrow> 0 | Some f \<Rightarrow> mf_addrHits f a)"

lemma parseFileData_host:
  assumes "marshal_size f < 2 ^ 32" "length (addr_table (mf_addrHits f) (mf_lines f)) < 2 ^ 32"
    and "NUL \<notin> set (mf_filename f)" and n: "n = mangleSourcePath (me_rp e) (me_regex_replace e) (me_filter e) (mf_filename f)"
    and "me_exists e n" "get_or_new e m n = Some m1"
    and "\<And>g. map_of (mp_files m) n = Some g \<Longrightarrow> mf_checksum g = mf_checksum f"
  shows "parseFileData e m (host_block (me_little_endian e) f) =
     Some (foldl (parse_addr n) (m1, []) (file_items (mf_addrHits f) (mf_lines f)))"
proof -
  let ?le = "me_little_endian e" and ?as = "addr_table (mf_addrHits f) (mf_lines f)" and ?es = "line_table 0 (mf_lines f)"
  let ?n = "length (mf_lines f)"
  define hd where "hd = store ?le MERGE_MAGIC @ store ?le MERGE_VERSION @ store ?le (of_nat (marshal_size f) :: u32) @
     store ?le (mf_checksum f) @ store ?le (mf_fileTimestamp f) @ store ?le (of_nat ?n :: u32) @
     store ?le (of_nat (tableStart f) :: u32) @ store ?le (of_nat (nameStart f) :: u32)"
  define pad where "pad = replicate (tableStart f - (offsetof_entries + ?n * sizeof_line_entry)) (0 :: byte)"
  define zs where "zs = replicate (marshal_size f - (nameStart f + length (c_str (mf_filename f)) + 1)) (0 :: byte)"
  define mem where "mem = host_block ?le f"
  have mem: "mem = hd @ concat (map (host_line_entry ?le) ?es) @ pad @ concat (map (store ?le) ?as) @
      string_to_bytes (mf_filename f) @ 0 # zs"
    using assms(3) by (simp add: mem_def file_block_def hd_def pad_def zs_def c_str_id)
  have hd: "length hd = 36" by (simp add: hd_def)
  note size = marshal_size_eq [OF assms(2)] and ts = tableStart_bounds [of f]
  have ns: "nameStart f < 2 ^ 32" using assms(1) size ts by (simp add: nameStart_def)
  have u: "unat (of_nat ?n :: u32) = ?n" "unat (of_nat (tableStart f) :: u32) = tableStart f"
    "unat (of_nat (nameStart f) :: u32) = nameStart f"
    using assms(1) size ts ns by (auto intro!: unat_of_nat_small)
  have g: "get_file_data ?le mem =
      Some \<lparr> fd_magic = MERGE_MAGIC, fd_version = MERGE_VERSION, fd_checksum = mf_checksum f,
             fd_n_entries = of_nat ?n, fd_address_table_offset = of_nat (tableStart f),
             fd_file_name_offset = of_nat (nameStart f) \<rparr>"
    unfolding mem hd_def append_assoc by (rule get_file_data_ok)
  have pre: "length (hd @ concat (map (host_line_entry ?le) ?es) @ pad) = tableStart f"
    using ts by (simp add: hd pad_def offsetof_entries_def sizeof_line_entry_def)
  have name: "c_string_at mem (nameStart f) = Some (string_to_bytes (mf_filename f))"
  proof -
    have "length (hd @ concat (map (host_line_entry ?le) ?es) @ pad @ concat (map (store ?le) ?as)) = nameStart f"
      using pre nat64.length_table [of ?le ?as] by (simp add: nameStart_def)
    from c_string_at_middle [OF this, of "string_to_bytes (mf_filename f)" zs] show ?thesis
      using assms(3) string_to_bytes_no_zero by (simp add: mem)
  qed
  have "parse_entries ?le mem (tableStart f) 36 ?n = Some (file_items (mf_addrHits f) (mf_lines f))"
  proof (rule parse_entries_ok [where tbl = ?as and tbl0 = "[]" and pre = hd])
    show "load64 ?le mem (tableStart f + i * 8) = Some (?as ! i)" if "i < length ?as" for i
      using load64_table [OF pre that, of ?le "string_to_bytes (mf_filename f) @ 0 # zs"] by (simp add: mem)
  qed (use assms(2) in \<open>simp_all add: mem hd\<close>)
  then show ?thesis
    unfolding parseFileData_def mem_def [symmetric] g
    using assms(5-7) by (auto simp: u name n [symmetric] offsetof_entries_def Let_def split: option.splits)
qed


lemma counter_no_wrap:
  assumes "unat (h :: u32) + k < 2 ^ 32"
  shows "h + of_nat k \<noteq> 0 \<longleftrightarrow> h \<noteq> 0 \<or> k \<noteq> 0"
proof -
  have k: "unat (of_nat k :: u32) = k" using assms by (intro unat_of_nat_small) simp
  with assms have "unat (h + of_nat k) = unat h + k" by (subst unat_add_small) simp_all
  then have "unat (h + of_nat k) = 0 \<longleftrightarrow> unat h = 0 \<and> k = 0" by simp
  then show ?thesis by (simp add: unat_eq_zero)
qed

lemma get_or_new_known:
  assumes "get_or_new e m n = Some m1"
  shows "\<exists>g. map_of (mp_files m1) n = Some g \<and> file_lines_of g = lines_known m n \<and> mf_addrHits g = hits_known m n"
proof (cases "map_of (mp_files m) n")
  case None
  with assms obtain f where "mk_MFile e n = Some f" "m1 = m\<lparr>mp_files := alist_upd n f (mp_files m)\<rparr>"
    by (auto simp: get_or_new_def)
  with None show ?thesis
    by (auto simp: mk_MFile_def lines_known_def hits_known_def fun_eq_iff file_lines_of_def line_addrs_def
        split: option.splits)
next
  case (Some g)
  with assms show ?thesis by (auto simp: get_or_new_def lines_known_def hits_known_def fun_eq_iff)
qed

text \<open>
  Property C5. What the merge parser writes for a file can be read back and merged: the block fits what was
  allocated for it, it unmarshals, and parsing it adds exactly the lines and addresses of the written file to
  those already known under that name, an address being hit afterwards if and only if it was hit before or is hit in
  the written file. This holds for every reachable writer, when the source file exists and can be read where
  the block is parsed, a file already known there under the name has the same checksum (with another one
  the block is ignored), the metadata is below 4 GB, the name has no NUL and is not moved by the path
  filters, and the counters of hits do not wrap.
\<close>

theorem merge_roundtrip:
  assumes "(merge_step e readdir)\<^sup>*\<^sup>* mk_MergeParser m0" "map_of (mp_files m0) n = Some f"
    and "marshal_size f < 2 ^ 32" "length (addr_table (mf_addrHits f) (mf_lines f)) < 2 ^ 32" "NUL \<notin> set n"
    and "mangleSourcePath (me_rp e) (me_regex_replace e) (me_filter e) n = n" "me_exists e n" "me_read e n \<noteq> None"
    and "\<And>g. map_of (mp_files m) n = Some g \<Longrightarrow> mf_checksum g = mf_checksum f"
    and "\<And>a. unat (hits_known m n a) + length (addr_table (mf_addrHits f) (mf_lines f)) < 2 ^ 32"
  shows "\<exists>fd fd' m' evs.
     marshalFile e m0 n = Some (Some fd) \<and> length fd = marshal_size f \<and>
     unMarshalFile (me_little_endian e) fd = Some (True, fd') \<and>
     parseFileData e m fd' = Some (m', evs) \<and>
     lines_known m' n = lines_known m n \<union> file_lines_of f \<and>
     (\<forall>a. hits_known m' n a \<noteq> 0 \<longleftrightarrow> hits_known m n a \<noteq> 0 \<or> mf_addrHits f a \<noteq> 0 \<and> a \<in> snd ` file_lines_of f)"
proof -
  let ?xs = "file_items (mf_addrHits f) (mf_lines f)"
  have ok: "merge_ok m0" by (rule merge_reachable [OF assms(1)])
  have f: "mf_filename f = n" "mfile_ok f"
    using ok map_of_SomeD [OF assms(2)] by (auto simp: merge_ok_def)
  obtain m1 where m1: "get_or_new e m n = Some m1"
    using assms(8) by (cases "map_of (mp_files m) n") (auto simp: get_or_new_def mk_MFile_def)
  obtain g where g: "map_of (mp_files m1) n = Some g" "file_lines_of g = lines_known m n" "mf_addrHits g = hits_known m n"
    using get_or_new_known [OF m1] by blast
  obtain m' evs where m': "foldl (parse_addr n) (m1, []) ?xs = (m', evs)" by fastforce
  have p: "parseFileData e m (host_block (me_little_endian e) f) = Some (m', evs)"
  proof -
    have n: "n = mangleSourcePath (me_rp e) (me_regex_replace e) (me_filter e) (mf_filename f)"
      and z: "NUL \<notin> set (mf_filename f)" using assms(5,6) f(1) by simp_all
    have "parseFileData e m (host_block (me_little_endian e) f) = Some (foldl (parse_addr n) (m1, []) ?xs)"
      by (rule parseFileData_host [OF assms(3,4) z n assms(7) m1 assms(9)])
    then show ?thesis by (simp only: m')
  qed
  have files: "map_of (mp_files m') n = Some (foldl file_item g ?xs)"
    using foldl_parse_addr [of n m1 "[]" ?xs n] unfolding m' g(1) by simp
  have "lines_known m' n = lines_known m n \<union> file_lines_of f"
    by (simp add: lines_known_def [of m'] files file_items_effect g(2) file_items_lines [OF f(2)])
  moreover have "hits_known m' n a \<noteq> 0 \<longleftrightarrow> hits_known m n a \<noteq> 0 \<or> mf_addrHits f a \<noteq> 0 \<and> a \<in> snd ` file_lines_of f" for a
  proof -
    have k: "item_hits ?xs a \<le> length (addr_table (mf_addrHits f) (mf_lines f))"
      by (simp add: item_hits_def flip: length_file_items)
    have "hits_known m' n a = hits_known m n a + of_nat (item_hits ?xs a)"
      by (simp add: hits_known_def [of m'] files file_items_effect g(3))
    moreover have "unat (hits_known m n a) + item_hits ?xs a < 2 ^ 32" using k assms(10) [of a] by linarith
    ultimately have "hits_known m' n a \<noteq> 0 \<longleftrightarrow> hits_known m n a \<noteq> 0 \<or> item_hits ?xs a \<noteq> 0"
      by (simp only: counter_no_wrap)
    then show ?thesis by (simp only: file_items_hits [OF f(2)])
  qed
  ultimately show ?thesis
    by (intro exI [of _ "wire_block (me_little_endian e) f"] exI [of _ "host_block (me_little_endian e) f"]
        exI [of _ m'] exI [of _ evs] conjI marshalFile_eq [OF assms(2,4)] unMarshalFile_wire [OF assms(3,4)] p allI)
qed


text \<open>A parser that has seen a hit and then its line, for the witnesses.\<close>

definition demo_merge_env :: merge_env where
  "demo_merge_env =
     \<lparr> me_rp = (\<lambda>p. p), me_regex_replace = (\<lambda>s _ _. s), me_exists = (\<lambda>_. True), me_read = (\<lambda>_. Some [1, 2]),
       me_crc32 = (\<lambda>bs. of_nat (length bs)), me_timestamp = (\<lambda>_. 7), me_little_endian = True,
       me_filter = mk_BasicFilter \<lparr> conf_exclude_line = [], conf_exclude_region = [], conf_include_pattern = [],
         conf_exclude_pattern = [], conf_include_path = [], conf_exclude_path = [],
         conf_orig_path_prefix = [], conf_new_path_prefix = [] \<rparr> \<rparr>"

definition demo_m1 :: MergeParser where
  "demo_m1 = fst (onAddress mk_MergeParser 5 3)"

definition demo_m2 :: MergeParser where
  "demo_m2 = fst (the (onLineReporter demo_merge_env demo_m1 ''a.c'' 7 5))"

lemma demo_m2_run: "\<exists>evs. onLineReporter demo_merge_env demo_m1 ''a.c'' 7 5 = Some (demo_m2, evs)"
proof -
  have "onLineReporter demo_merge_env demo_m1 ''a.c'' 7 5 \<noteq> None" by code_simp
  then show ?thesis unfolding demo_m2_def by fastforce
qed

lemma demo_m2_reachable: "(merge_step demo_merge_env (\<lambda>_. None))\<^sup>*\<^sup>* mk_MergeParser demo_m2"
proof -
  have "merge_step demo_merge_env (\<lambda>_. None) mk_MergeParser demo_m1"
    by (rule merge_step.addr [of _ 5 3 _ "snd (onAddress mk_MergeParser 5 3)"]) (simp add: demo_m1_def)
  moreover have "merge_step demo_merge_env (\<lambda>_. None) demo_m1 demo_m2"
    using demo_m2_run merge_step.line by blast
  ultimately show ?thesis by (meson converse_rtranclp_into_rtranclp rtranclp.rtrancl_refl)
qed

theorem merge_roundtrip_witness:
  "\<exists>fd fd' m' evs. marshalFile demo_merge_env demo_m2 ''a.c'' = Some (Some fd) \<and>
     unMarshalFile True fd = Some (True, fd') \<and> parseFileData demo_merge_env mk_MergeParser fd' = Some (m', evs) \<and>
     (7, 0x700000003) \<in> lines_known m' ''a.c'' \<and> hits_known m' ''a.c'' 0x700000003 \<noteq> 0"
proof -
  let ?e = "demo_merge_env" and ?m = "mk_MergeParser"
  have "map_of (mp_files demo_m2) ''a.c'' \<noteq> None" by code_simp
  then obtain f where f: "map_of (mp_files demo_m2) ''a.c'' = Some f" by blast
  then have fe: "f = the (map_of (mp_files demo_m2) ''a.c'')" by simp
  have lines: "mf_lines f = [(7, [(0x700000003, 1)])]" unfolding fe by code_simp
  have hits: "mf_addrHits f 0x700000003 = 3" unfolding fe by code_simp
  have name: "mf_filename f = ''a.c''" unfolding fe by code_simp
  have tab: "length (addr_table (mf_addrHits f) (mf_lines f)) = 1" by (simp add: addr_table_def lines)
  have mem: "(7, 0x700000003) \<in> file_lines_of f" by (simp add: file_lines_of_def lines line_addrs_def)
  have known: "map_of (mp_files ?m) ''a.c'' = None" by (simp add: mk_MergeParser_def)
  have le: "me_little_endian ?e" "me_exists ?e ''a.c''" "me_read ?e ''a.c'' \<noteq> None" "NUL \<notin> set ''a.c''"
    "mangleSourcePath (me_rp ?e) (me_regex_replace ?e) (me_filter ?e) ''a.c'' = ''a.c''" by code_simp+
  have sz: "marshal_size f < 2 ^ 32" using tab
    by (simp add: marshal_size_def lines name sizeof_file_data_def sizeof_line_entry_def)
  have small: "length (addr_table (mf_addrHits f) (mf_lines f)) < 2 ^ 32"
    "unat (hits_known ?m ''a.c'' a) + length (addr_table (mf_addrHits f) (mf_lines f)) < 2 ^ 32" for a
    unfolding tab by (simp_all add: hits_known_def known)
  have chk: "mf_checksum g = mf_checksum f" if "map_of (mp_files ?m) ''a.c'' = Some g" for g
    using that known by simp
  obtain fd fd' m' evs where
    r: "marshalFile ?e demo_m2 ''a.c'' = Some (Some fd)" "unMarshalFile (me_little_endian ?e) fd = Some (True, fd')"
      "parseFileData ?e ?m fd' = Some (m', evs)" "lines_known m' ''a.c'' = lines_known ?m ''a.c'' \<union> file_lines_of f"
    and h: "\<forall>a. hits_known m' ''a.c'' a \<noteq> 0 \<longleftrightarrow> hits_known ?m ''a.c'' a \<noteq> 0 \<or> mf_addrHits f a \<noteq> 0 \<and> a \<in> snd ` file_lines_of f"
    using merge_roundtrip [OF demo_m2_reachable f sz small(1) le(4,5,2,3) chk small(2)] by blast
  have "0x700000003 \<in> snd ` file_lines_of f" using mem by force
  with h hits have "hits_known m' ''a.c'' 0x700000003 \<noteq> 0" by simp
  with r mem le(1) show ?thesis by auto
qed

section \<open>Hits of a reported line\<close>

text \<open>The calls the reporter's listeners get while a program runs, with the events each of them causes.\<close>

datatype merge_call = MCLine string u32 u64 | MCAddress u64 u64

fun merge_do :: "merge_env \<Rightarrow> MergeParser \<Rightarrow> merge_call \<Rightarrow> (MergeParser \<times> merge_event list) option" where
  "merge_do e m (MCLine n nr a) = onLineReporter e m n nr a"
| "merge_do e m (MCAddress a hits) = Some (onAddress m a hits)"

fun merge_calls ::
  "merge_env \<Rightarrow> MergeParser \<Rightarrow> merge_call list \<Rightarrow> (MergeParser \<times> merge_event list list) option" where
  "merge_calls e m [] = Some (m, [])"
| "merge_calls e m (c # cs) =
     (case merge_do e m c of
        None \<Rightarrow> None
      | Some (m1, evs) \<Rightarrow> map_option (\<lambda>(m2, evss). (m2, evs # evss)) (merge_calls e m1 cs))"

definition hits_in :: "u64 \<Rightarrow> merge_event list \<Rightarrow> u32" where
  "hits_in h evs = sum_list (map (\<lambda>ev. case ev of MHit h' k \<Rightarrow> if h' = h then ucast k else 0 | MLine _ _ _ \<Rightarrow> 0) evs)"

lemma hits_in_simps [simp]:
  "hits_in h [] = 0" "hits_in h (MLine n nr x # evs) = hits_in h evs"
  "hits_in h (MHit h' k # evs) = (if h' = h then ucast k else 0) + hits_in h evs"
  "hits_in h (evs @ evs') = hits_in h evs + hits_in h evs'"
  by (simp_all add: hits_in_def)

text \<open>The tables lead from the address \<open>a\<close> over its hash to the file, which is known.\<close>

definition leads_to :: "MergeParser \<Rightarrow> u64 \<Rightarrow> u64 \<Rightarrow> string \<Rightarrow> bool" where
  "leads_to m a h n \<longleftrightarrow> mp_fileLineByAddress m a = Some h \<and> mp_filesByAddress m h = Some n \<and>
     (\<exists>f. map_of (mp_files m) n = Some f)"

lemma onAddress_keeps:
  assumes "leads_to m a h n" "onAddress m a' k = (m', evs)"
  shows "leads_to m' a h n" "hits_known m' n h = hits_known m n h + hits_in h evs"
    and "a' = a \<Longrightarrow> evs = [MHit h k]"
  using assms by (auto simp: onAddress_def leads_to_def hits_known_def map_of_upd_file registerHits_def
      split: option.splits if_splits)

lemma onLineReporter_keeps:
  assumes "leads_to m a h n" "onLineReporter e m n' nr a' = Some (m', evs)"
    and "a' = a \<longrightarrow> hashAddress e n' nr a' AND NOT HIT_BIT = h" "hashAddress e n' nr a' AND NOT HIT_BIT = h \<longrightarrow> n' = n"
  shows "leads_to m' a h n \<and> hits_known m' n h = hits_known m n h + hits_in h evs"
proof (cases "runFilters (me_rp e) (me_filter e) n' \<and> me_exists e n'")
  case False
  with assms(1,2) show ?thesis by (auto simp: onLineReporter_def split: if_splits)
next
  case True
  define h' where "h' = hashAddress e n' nr a' AND NOT HIT_BIT"
  from True assms(2) obtain m1 where m1: "get_or_new e m n' = Some m1"
    by (auto simp: onLineReporter_def split: option.splits)
  define m3 where "m3 = (upd_file (m1\<lparr>mp_fileLineByAddress := (mp_fileLineByAddress m1)(a' \<mapsto> h')\<rparr>) n'
      (\<lambda>f. merge_addLine (setLocal f) nr h'))\<lparr>mp_filesByAddress := (mp_filesByAddress m1)(h' \<mapsto> n')\<rparr>"
  have l1: "leads_to m1 a h n" "hits_known m1 n h = hits_known m n h"
    using m1 assms(1) by (auto simp: get_or_new_def leads_to_def hits_known_def split: option.splits if_splits)
  then have l3: "leads_to m3 a h n" "hits_known m3 n h = hits_known m n h"
    using assms(3,4) unfolding h'_def [symmetric]
    by (auto simp: m3_def leads_to_def hits_known_def map_of_upd_file merge_addLine_def setLocal_def Let_def split: option.splits if_splits)
  have pend: "mp_pendingHits m3 = mp_pendingHits m1" by (simp add: m3_def)
  obtain m4 evs4 where m4: "onAddress m3 a' (the (mp_pendingHits m3 a')) = (m4, evs4)" by fastforce
  have "mp_pendingHits m3 a' = None \<and> m' = m3 \<and> evs = [MLine n' nr h'] \<or>
      m' = m4\<lparr>mp_pendingHits := (mp_pendingHits m4)(a' := None)\<rparr> \<and> evs = MLine n' nr h' # evs4"
    using True assms(2) m1 m4 pend
    by (auto simp: onLineReporter_def Let_def h'_def [symmetric] m3_def [symmetric] split: option.splits)
  then show ?thesis
    using l3 onAddress_keeps(1,2) [OF l3(1) m4] by (auto simp: leads_to_def hits_known_def)
qed

lemma merge_calls_keep:
  assumes "leads_to m a h n" "merge_calls e m calls = Some (m', evss)"
    and "\<forall>n' nr a'. MCLine n' nr a' \<in> set calls \<longrightarrow>
      (a' = a \<longrightarrow> hashAddress e n' nr a' AND NOT HIT_BIT = h) \<and> (hashAddress e n' nr a' AND NOT HIT_BIT = h \<longrightarrow> n' = n)"
  shows "list_all2 (\<lambda>c evs. \<forall>k. c = MCAddress a k \<longrightarrow> evs = [MHit h k]) calls evss \<and>
     hits_known m' n h = hits_known m n h + hits_in h (concat evss)"
  using assms
proof (induction calls arbitrary: m m' evss)
  case (Cons c calls)
  from Cons.prems(2) obtain m1 evs evss1 where c: "merge_do e m c = Some (m1, evs)"
      and cs: "merge_calls e m1 calls = Some (m', evss1)" and evss: "evss = evs # evss1"
    by (auto split: option.splits)
  have "leads_to m1 a h n \<and> hits_known m1 n h = hits_known m n h + hits_in h evs \<and> (\<forall>k. c = MCAddress a k \<longrightarrow> evs = [MHit h k])"
  proof (cases c)
    case (MCLine n' nr a')
    with onLineReporter_keeps [OF Cons.prems(1)] c Cons.prems(3) show ?thesis by fastforce
  next
    case (MCAddress a' k)
    with onAddress_keeps [OF Cons.prems(1)] c show ?thesis by auto
  qed
  with Cons.IH [OF _ cs] Cons.prems(3) show ?case by (simp add: evss)
qed simp

text \<open>
  Property C34. Once the reporter has reported a line of an included, existing file, the hits of
  its id count for that line's hashed address: the hit that was pending (the last one, should
  there have been several) is delivered at once and no longer pending. In any later calls, up to the end of
  the run, each hit of the id is passed on to the listeners, and the counter of the hashed address is increased by
  exactly the hits passed on for it, provided that no later line of another file has the same hashed
  address, and no other hashed address is reported for the id (either would replace the entry of the tables).
\<close>

theorem merge_hit_delivery:
  assumes "(merge_step e readdir)\<^sup>*\<^sup>* mk_MergeParser m"
    and "runFilters (me_rp e) (me_filter e) n" "me_exists e n"
    and "onLineReporter e m n nr a = Some (m1, evs)"
    and "addrHash = hashAddress e n nr a AND NOT HIT_BIT"
    and "merge_calls e m1 calls = Some (m2, evss)"
    and "\<forall>n' nr' a'. MCLine n' nr' a' \<in> set calls \<longrightarrow>
      (a' = a \<longrightarrow> hashAddress e n' nr' a' AND NOT HIT_BIT = addrHash) \<and>
      (hashAddress e n' nr' a' AND NOT HIT_BIT = addrHash \<longrightarrow> n' = n)"
  shows "(nr, addrHash) \<in> lines_known m1 n \<and> mp_pendingHits m1 a = None \<and>
     hits_known m1 n addrHash = hits_known m n addrHash +
       (case mp_pendingHits m a of None \<Rightarrow> 0 | Some k \<Rightarrow> ucast k) \<and>
     evs = MLine n nr addrHash # (case mp_pendingHits m a of None \<Rightarrow> [] | Some k \<Rightarrow> [MHit addrHash k]) \<and>
     list_all2 (\<lambda>c evs. \<forall>k. c = MCAddress a k \<longrightarrow> evs = [MHit addrHash k]) calls evss \<and>
     hits_known m2 n addrHash = hits_known m1 n addrHash + hits_in addrHash (concat evss)"
proof -
  from assms(2-4) obtain m0 where m0: "get_or_new e m n = Some m0"
    by (auto simp: onLineReporter_def split: option.splits)
  note g = get_or_new_ok [OF merge_reachable [OF assms(1)] m0]
  obtain f where f: "map_of (mp_files m0) n = Some f" "file_lines_of f = lines_known m n" "mf_addrHits f = hits_known m n"
    using get_or_new_known [OF m0] by blast
  define f3 where "f3 = merge_addLine (setLocal f) nr addrHash"
  define m3 where "m3 = (upd_file (m0\<lparr>mp_fileLineByAddress := (mp_fileLineByAddress m0)(a \<mapsto> addrHash)\<rparr>) n
      (\<lambda>f. merge_addLine (setLocal f) nr addrHash))\<lparr>mp_filesByAddress := (mp_filesByAddress m0)(addrHash \<mapsto> n)\<rparr>"
  have m3: "map_of (mp_files m3) n = Some f3" "mp_fileLineByAddress m3 a = Some addrHash"
    "mp_filesByAddress m3 addrHash = Some n" "mp_pendingHits m3 = mp_pendingHits m"
    using f(1) g(3) by (simp_all add: m3_def map_of_upd_file f3_def)
  have f3: "file_lines_of f3 = insert (nr, addrHash) (lines_known m n)" "mf_addrHits f3 = hits_known m n"
    using f(2,3) by (simp_all add: f3_def)
  have hit: "onAddress x a k = (upd_file x n (\<lambda>f. registerHits f addrHash (ucast k)), [MHit addrHash k])"
    if "mp_fileLineByAddress x a = Some addrHash" "mp_filesByAddress x addrHash = Some n" for x k
    using that by (simp add: onAddress_def)
  have run: "m1 = (case mp_pendingHits m a of None \<Rightarrow> m3
      | Some k \<Rightarrow> (upd_file m3 n (\<lambda>f. registerHits f addrHash (ucast k)))\<lparr>mp_pendingHits := (mp_pendingHits m)(a := None)\<rparr>) \<and>
      evs = MLine n nr addrHash # (case mp_pendingHits m a of None \<Rightarrow> [] | Some k \<Rightarrow> [MHit addrHash k])"
    using assms(2-4) m0 m3(4) g(3) hit [OF m3(2,3)]
    by (auto simp: onLineReporter_def Let_def assms(5) [symmetric] m3_def [symmetric] split: option.splits)
  have m1: "\<exists>f1. map_of (mp_files m1) n = Some f1 \<and> file_lines_of f1 = insert (nr, addrHash) (lines_known m n) \<and>
      mf_addrHits f1 addrHash = hits_known m n addrHash + (case mp_pendingHits m a of None \<Rightarrow> 0 | Some k \<Rightarrow> ucast k)"
    "mp_fileLineByAddress m1 a = Some addrHash" "mp_filesByAddress m1 addrHash = Some n" "mp_pendingHits m1 a = None"
    using run m3 f3 by (auto simp: map_of_upd_file registerHits_def file_lines_of_def split: option.splits)
  obtain f1 where f1: "map_of (mp_files m1) n = Some f1" "file_lines_of f1 = insert (nr, addrHash) (lines_known m n)"
    "mf_addrHits f1 addrHash = hits_known m n addrHash + (case mp_pendingHits m a of None \<Rightarrow> 0 | Some k \<Rightarrow> ucast k)"
    using m1(1) by blast
  have "lines_known m1 n = file_lines_of f1" "hits_known m1 n addrHash = mf_addrHits f1 addrHash" "leads_to m1 a addrHash n"
    using f1(1) m1(2,3) by (simp_all add: lines_known_def hits_known_def leads_to_def)
  with f1(2,3) m1(4) conjunct2 [OF run] merge_calls_keep [OF _ assms(6,7)] show ?thesis by simp
qed

theorem merge_hit_delivery_witness:
  "\<exists>m3. merge_calls demo_merge_env demo_m2 [MCAddress 5 1, MCAddress 5 2] = Some (m3, [[MHit 0x700000003 1], [MHit 0x700000003 2]]) \<and>
     hits_known demo_m2 ''a.c'' 0x700000003 = 3 \<and> mp_pendingHits demo_m2 5 = None \<and> hits_known m3 ''a.c'' 0x700000003 = 6"
proof -
  obtain evs where l: "onLineReporter demo_merge_env demo_m1 ''a.c'' 7 5 = Some (demo_m2, evs)"
    using demo_m2_run by blast
  have "merge_step demo_merge_env (\<lambda>_. None) mk_MergeParser demo_m1"
    by (rule merge_step.addr [of _ 5 3 _ "snd (onAddress mk_MergeParser 5 3)"]) (simp add: demo_m1_def)
  then have st: "(merge_step demo_merge_env (\<lambda>_. None))\<^sup>*\<^sup>* mk_MergeParser demo_m1" by blast
  obtain m3 evss where h: "merge_calls demo_merge_env demo_m2 [MCAddress 5 1, MCAddress 5 2] = Some (m3, evss)"
    by (cases "onAddress demo_m2 5 1"; cases "onAddress (fst (onAddress demo_m2 5 1)) 5 2") simp
  have inc: "runFilters (me_rp demo_merge_env) (me_filter demo_merge_env) ''a.c''" "me_exists demo_merge_env ''a.c''"
    and hash: "0x700000003 = hashAddress demo_merge_env ''a.c'' 7 5 AND NOT HIT_BIT"
    and m1: "hits_known demo_m1 ''a.c'' 0x700000003 = 0" "mp_pendingHits demo_m1 5 = Some 3" by code_simp+
  from merge_hit_delivery [OF st inc l hash h] m1 h show ?thesis by (auto simp: list_all2_Cons1)
qed

end
