(* ===== verification/Kcov_SystemMode.thy ===== *)
theory Kcov_SystemMode
  imports Kcov_Memory Kcov_SourceCache
begin

text \<open>
  The data of the system mode.

  \<^item> \<open>src/src/engines/system-mode-file-format.cc\<close> and \<open>.hh\<close>: the bit map of executed entries that a
    process shares with its children, and the file it is saved to (in the byte order of the
    machine).
  \<^item> \<open>src/src/system-mode/file-data.cc\<close>: a binary with the table of its entries, its name and its
    options appended behind a trailer.
  \<^item> \<open>src/src/system-mode/registration.cc\<close>: the message by which a new process announces itself.

  Reading or writing outside of a block is \<open>None\<close>; a rejected input is a value.
\<close>

section \<open>\<open>system_mode_memory\<close>\<close>

record system_mode_memory =
  smm_filename :: string
  smm_options :: string
  smm_n_entries :: u32
  smm_data :: "u32 list"
  smm_dirtyCount :: u32
  smm_cleanCount :: u32

definition mk_system_mode_memory :: "string \<Rightarrow> string \<Rightarrow> u32 \<Rightarrow> system_mode_memory" where
  "mk_system_mode_memory fn opts n =
     \<lparr> smm_filename = fn, smm_options = opts, smm_n_entries = n, smm_data = replicate (unat n) 0,
       smm_dirtyCount = 0, smm_cleanCount = 0 \<rparr>"

definition entry_bit :: "u32 \<Rightarrow> u32" where
  "entry_bit index = push_bit (unat (index mod 32)) 1"

definition indexIsHit :: "system_mode_memory \<Rightarrow> u32 \<Rightarrow> bool" where
  "indexIsHit m index =
     (if index div 32 \<ge> smm_n_entries m then False
      else smm_data m ! unat (index div 32) AND entry_bit index \<noteq> 0)"

text \<open>A call that no other process interferes with: the compare-and-swap succeeds at once.\<close>

definition reportIndex :: "system_mode_memory \<Rightarrow> u32 \<Rightarrow> system_mode_memory" where
  "reportIndex m index =
     (let wordIdx = index div 32; val = smm_data m ! unat wordIdx
      in if wordIdx \<ge> smm_n_entries m then m
         else if val AND entry_bit index \<noteq> 0 then m
         else m\<lparr>smm_data := (smm_data m)[unat wordIdx := val OR entry_bit index],
                smm_dirtyCount := smm_dirtyCount m + 1\<rparr>)"

definition isDirty :: "system_mode_memory \<Rightarrow> bool" where
  "isDirty m = (smm_dirtyCount m \<noteq> smm_cleanCount m)"

definition markClean :: "system_mode_memory \<Rightarrow> system_mode_memory" where
  "markClean m = m\<lparr>smm_cleanCount := smm_dirtyCount m\<rparr>"

text \<open>
  The same call in several processes at once: the memory is shared, and between any two of
  its accesses to it another process may run. A process is where it is in \<open>reportIndex\<close>.
\<close>

datatype report_pc =
    Check u32
  | ReadVal u32
  | Cas u32 u32
  | Bump u32
  | Done u32

fun pc_index :: "report_pc \<Rightarrow> u32" where
  "pc_index (Check i) = i"
| "pc_index (ReadVal i) = i"
| "pc_index (Cas i v) = i"
| "pc_index (Bump i) = i"
| "pc_index (Done i) = i"

fun report_step :: "system_mode_memory \<Rightarrow> report_pc \<Rightarrow> system_mode_memory \<times> report_pc" where
  "report_step m (Check i) =
     (if i div 32 \<ge> smm_n_entries m then (m, Done i)
      else if smm_data m ! unat (i div 32) AND entry_bit i \<noteq> 0 then (m, Done i)
      else (m, ReadVal i))"
| "report_step m (ReadVal i) = (m, Cas i (smm_data m ! unat (i div 32)))"
| "report_step m (Cas i val) =
     (if smm_data m ! unat (i div 32) = val
      then (m\<lparr>smm_data := (smm_data m)[unat (i div 32) := val OR entry_bit i]\<rparr>, Bump i)
      else (m, ReadVal i))"
| "report_step m (Bump i) = (m\<lparr>smm_dirtyCount := smm_dirtyCount m + 1\<rparr>, Done i)"
| "report_step m (Done i) = (m, Done i)"

inductive shared_step ::
  "system_mode_memory \<times> report_pc list \<Rightarrow> system_mode_memory \<times> report_pc list \<Rightarrow> bool" where
  "k < length pcs \<Longrightarrow> report_step m (pcs ! k) = (m', pc) \<Longrightarrow> shared_step (m, pcs) (m', pcs[k := pc])"

inductive_cases shared_stepE: "shared_step s t"

section \<open>The file of a bit map\<close>

definition SYSTEM_MODE_FILE_MAGIC :: u32 where
  "SYSTEM_MODE_FILE_MAGIC = 0x4d455247"

definition SYSTEM_MODE_FILE_VERSION :: u32 where
  "SYSTEM_MODE_FILE_VERSION = 1"

definition sizeof_system_mode_file :: nat where
  "sizeof_system_mode_file = 24"

text \<open>
  The offsets are 32-bit fields; where they would wrap, the strings would be written to other
  places of the block, which is \<open>None\<close> here. The checksum field stays zero.
\<close>

definition memoryToFile :: "bool \<Rightarrow> system_mode_memory \<Rightarrow> byte list option" where
  "memoryToFile le m =
     (let outSize = sizeof_system_mode_file + unat (smm_n_entries m) * 4 +
            length (smm_filename m) + length (smm_options m) + 2;
          filename_offset = unat (smm_n_entries m) * 4 + sizeof_system_mode_file;
          kcov_options_offset = filename_offset + length (smm_filename m) + 1;
          str = (\<lambda>s. string_to_bytes (c_str s) @ replicate (length s + 1 - length (c_str s)) 0)
      in if kcov_options_offset \<ge> 2 ^ 32 then None
         else Some (store le SYSTEM_MODE_FILE_MAGIC @ store le SYSTEM_MODE_FILE_VERSION @
           store le (smm_n_entries m) @ store le (0 :: u32) @ store le (of_nat filename_offset :: u32) @
           store le (of_nat kcov_options_offset :: u32) @
           concat (map (store le) (take (unat (smm_n_entries m)) (smm_data m))) @
           str (smm_filename m) @ str (smm_options m)))"

fun load_words :: "bool \<Rightarrow> byte list \<Rightarrow> nat \<Rightarrow> nat \<Rightarrow> u32 list option" where
  "load_words le buf off 0 = Some []"
| "load_words le buf off (Suc n) =
     Option.bind (load32 le buf off) (\<lambda>w. map_option (\<lambda>ws. w # ws) (load_words le buf (off + 4) n))"

definition fileToMemory :: "bool \<Rightarrow> byte list \<Rightarrow> system_mode_memory option option" where
  "fileToMemory le buf =
     Option.bind (load32 le buf 0) (\<lambda>magic.
     Option.bind (load32 le buf 4) (\<lambda>version.
     Option.bind (load32 le buf 8) (\<lambda>n_entries.
     Option.bind (load32 le buf 16) (\<lambda>filename_offset.
     Option.bind (load32 le buf 20) (\<lambda>kcov_options_offset.
       if magic \<noteq> SYSTEM_MODE_FILE_MAGIC then Some None
       else if version \<noteq> SYSTEM_MODE_FILE_VERSION then Some None
       else let sizeExceptStrings = sizeof_system_mode_file + unat n_entries * 4
            in if unat filename_offset < sizeExceptStrings then Some None
               else if kcov_options_offset < filename_offset + 1 then Some None
               else Option.bind (c_string_at buf (unat filename_offset)) (\<lambda>fn.
                    Option.bind (c_string_at buf (unat kcov_options_offset)) (\<lambda>opts.
                    Option.bind (load_words le buf sizeof_system_mode_file (unat n_entries)) (\<lambda>ws.
                    Some (Some ((mk_system_mode_memory (bytes_to_string fn) (bytes_to_string opts) n_entries)
                                  \<lparr>smm_data := ws\<rparr>))))))))))"

definition diskToMemory :: "bool \<Rightarrow> (string \<Rightarrow> byte list option) \<Rightarrow> string \<Rightarrow> system_mode_memory option option" where
  "diskToMemory le read_file src = (case read_file src of None \<Rightarrow> Some None | Some p \<Rightarrow> fileToMemory le p)"

section \<open>\<open>SystemModeFile\<close>\<close>

record SystemModeFile =
  sf_filename :: string
  sf_options :: string
  sf_id :: u32
  sf_data :: "byte list"
  sf_entries :: "u64 list"

record trailer =
  tr_magic :: u32
  tr_version :: u32
  tr_compressed_size :: u32
  tr_uncompressed_size :: u32
  tr_id :: u32
  tr_filename_size :: u32
  tr_options_size :: u32
  tr_n_entries :: u16

definition TRAILER_MAGIC :: u32 where
  "TRAILER_MAGIC = 0x19992000"

definition TRAILER_VERSION :: u32 where
  "TRAILER_VERSION = 1"

definition sizeof_trailer :: nat where
  "sizeof_trailer = 32"

definition unmarshalTrailer :: "trailer \<Rightarrow> bool" where
  "unmarshalTrailer p =
     (if tr_magic p \<noteq> TRAILER_MAGIC then False
      else if tr_version p \<noteq> TRAILER_VERSION then False
      else if tr_filename_size p AND 7 \<noteq> 0 then False
      else if tr_options_size p AND 7 \<noteq> 0 then False
      else True)"

definition padTo8 :: "nat \<Rightarrow> nat" where
  "padTo8 sz = (if sz mod 8 \<noteq> 0 then sz + (8 - sz mod 8) else sz)"

definition put_trailer :: "bool \<Rightarrow> trailer \<Rightarrow> byte list" where
  "put_trailer le t =
     store le (tr_magic t) @ store le (tr_version t) @ store le (tr_compressed_size t) @
     store le (tr_uncompressed_size t) @ store le (tr_id t) @ store le (tr_filename_size t) @
     store le (tr_options_size t) @ store le (tr_n_entries t) @ [0, 0]"

definition get_trailer :: "bool \<Rightarrow> byte list \<Rightarrow> trailer" where
  "get_trailer le bs =
     \<lparr> tr_magic = load le (chunk 4 0 bs), tr_version = load le (chunk 4 1 bs),
       tr_compressed_size = load le (chunk 4 2 bs), tr_uncompressed_size = load le (chunk 4 3 bs),
       tr_id = load le (chunk 4 4 bs), tr_filename_size = load le (chunk 4 5 bs),
       tr_options_size = load le (chunk 4 6 bs), tr_n_entries = load le (chunk 2 14 bs) \<rparr>"

definition addEntry :: "SystemModeFile \<Rightarrow> u32 \<Rightarrow> u64 \<Rightarrow> SystemModeFile option" where
  "addEntry f index value =
     (let es = (if length (sf_entries f) \<le> unat index
                then take (unat (index + 1)) (sf_entries f) @
                     replicate (unat (index + 1) - length (sf_entries f)) 0
                else sf_entries f)
      in if unat index < length es then Some (f\<lparr>sf_entries := es[unat index := value]\<rparr>) else None)"

fun add_entries :: "SystemModeFile \<Rightarrow> u32 \<Rightarrow> u64 list \<Rightarrow> SystemModeFile option" where
  "add_entries f i [] = Some f"
| "add_entries f i (v # vs) = Option.bind (addEntry f i v) (\<lambda>f'. add_entries f' (i + 1) vs)"

fun load_longs :: "bool \<Rightarrow> byte list \<Rightarrow> nat \<Rightarrow> nat \<Rightarrow> u64 list option" where
  "load_longs le buf off 0 = Some []"
| "load_longs le buf off (Suc n) =
     Option.bind (load64 le buf off) (\<lambda>w. map_option (\<lambda>ws. w # ws) (load_longs le buf (off + 8) n))"

text \<open>\<open>uncompressEntries\<close> copies \<open>compressedSize\<close> bytes into a zeroed block of \<open>uncompressedSize\<close>.\<close>

definition uncompressEntries :: "byte list \<Rightarrow> u32 \<Rightarrow> u32 \<Rightarrow> byte list option" where
  "uncompressEntries src compressedSize uncompressedSize =
     (if unat compressedSize \<le> length src \<and> unat compressedSize \<le> unat uncompressedSize
      then Some (take (unat compressedSize) src @ replicate (unat uncompressedSize - unat compressedSize) 0)
      else None)"

text \<open>
  \<open>parse\<close> of a processed file (the data pointer is 8-aligned). The size check is the one of the
  code; what it lets through and lies outside of the file is \<open>None\<close>.
\<close>

definition parse_processed :: "bool \<Rightarrow> byte list \<Rightarrow> (bool \<times> SystemModeFile) option" where
  "parse_processed le fileData =
     (let fileSize = length fileData;
          f0 = \<lparr> sf_filename = [], sf_options = [], sf_id = 0, sf_data = fileData, sf_entries = [] \<rparr>
      in if fileSize < sizeof_trailer then None
         else let trailerStart = fileSize - sizeof_trailer
              in if trailerStart mod 8 \<noteq> 0 then Some (False, f0)
                 else let t = get_trailer le (drop trailerStart fileData);
                          fs = unat (tr_filename_size t); os = unat (tr_options_size t);
                          cs = unat (tr_compressed_size t)
                      in if \<not> unmarshalTrailer t then Some (False, f0)
                         else if unat (tr_filename_size t + tr_options_size t + tr_compressed_size t)
                                   > fileSize + sizeof_trailer then Some (False, f0)
                         else if trailerStart < cs + os + fs \<or> fs = 0 \<or> os = 0 then None
                         else let filename = trailerStart - cs - os - fs; options = trailerStart - cs - os
                              in if fileData ! (filename + fs - 1) \<noteq> 0 then Some (False, f0)
                                 else if fileData ! (options + os - 1) \<noteq> 0 then Some (False, f0)
                                 else Option.bind (c_string_at fileData filename) (\<lambda>fn.
                                      Option.bind (c_string_at fileData options) (\<lambda>opts.
                                      Option.bind (uncompressEntries (drop (trailerStart - cs) fileData)
                                          (tr_compressed_size t) (tr_uncompressed_size t)) (\<lambda>entries.
                                      Option.bind (load_longs le entries 0 (unat (tr_n_entries t))) (\<lambda>es.
                                      map_option (Pair True)
                                        (add_entries (f0\<lparr>sf_filename := bytes_to_string fn,
                                                         sf_options := bytes_to_string opts, sf_id := tr_id t\<rparr>)
                                           0 es))))))"

definition fromRawFile :: "u32 \<Rightarrow> string \<Rightarrow> string \<Rightarrow> byte list \<Rightarrow> SystemModeFile option" where
  "fromRawFile i filename options fileData =
     (if fileData = [] then None
      else Some \<lparr> sf_filename = filename, sf_options = options, sf_id = i, sf_data = fileData, sf_entries = [] \<rparr>)"

definition fromProcessedFile :: "bool \<Rightarrow> byte list \<Rightarrow> SystemModeFile option option" where
  "fromProcessedFile le fileData =
     (if fileData = [] then Some None
      else map_option (\<lambda>(rv, f). if rv then Some f else None) (parse_processed le fileData))"

text \<open>
  \<open>getProcessedData\<close>. The terminator of the file name is written through the wrong pointer
  (\<open>options[filenameSize - 1]\<close>): a byte of the zeroed block that is written again later, or, for a
  long name, a byte behind the block, which is \<open>None\<close>.
\<close>

definition getProcessedData :: "bool \<Rightarrow> SystemModeFile \<Rightarrow> byte list option" where
  "getProcessedData le f =
     (if sf_entries f = [] then Some (sf_data f)
      else
        let padded = padTo8 (length (sf_data f));
            uncompressedSize = (of_nat (length (sf_entries f) * 8) :: u32);
            compressedSize = (of_nat (padTo8 (unat uncompressedSize)) :: u32);
            filenameSize = (of_nat (padTo8 (length (sf_filename f) + 1)) :: u32);
            optionsSize = (of_nat (padTo8 (length (sf_options f) + 1)) :: u32);
            outSize = padded + unat filenameSize + unat optionsSize + unat compressedSize + sizeof_trailer;
            str = (\<lambda>s sz. string_to_bytes (c_str s) @ replicate (sz - length (c_str s)) 0);
            out = sf_data f @ replicate (padded - length (sf_data f)) 0 @
                  str (sf_filename f) (unat filenameSize) @ str (sf_options f) (unat optionsSize) @
                  concat (map (store le) (sf_entries f)) @
                  put_trailer le \<lparr> tr_magic = TRAILER_MAGIC, tr_version = TRAILER_VERSION,
                    tr_compressed_size = compressedSize, tr_uncompressed_size = uncompressedSize, tr_id = sf_id f,
                    tr_filename_size = filenameSize, tr_options_size = optionsSize,
                    tr_n_entries = of_nat (length (sf_entries f)) \<rparr>
        in if padded + unat filenameSize + unat filenameSize - 1 < outSize \<and> length out = outSize
           then Some out else None)"

section \<open>Registration of a process\<close>

definition NEW_PROCES_MAGIC :: u32 where
  "NEW_PROCES_MAGIC = 0x76817812"

definition NEW_PROCES_VERSION :: u32 where
  "NEW_PROCES_VERSION = 1"

definition sizeof_new_process_entry :: nat where
  "sizeof_new_process_entry = 12"

text \<open>\<open>entry_size\<close> is a 16-bit field that gets the 32-bit size.\<close>

definition createProcessEntry :: "bool \<Rightarrow> u16 \<Rightarrow> string \<Rightarrow> byte list" where
  "createProcessEntry le pid filename =
     (let size = sizeof_new_process_entry + length filename + 1
      in store le NEW_PROCES_MAGIC @ store le NEW_PROCES_VERSION @ store le (of_nat size :: u16) @ store le pid @
         string_to_bytes (c_str filename) @ replicate (length filename + 1 - length (c_str filename)) 0)"

definition unmarshalProcessEntry :: "bool \<Rightarrow> byte list \<Rightarrow> bool option" where
  "unmarshalProcessEntry le p =
     (if length p < sizeof_new_process_entry then None
      else if load le (chunk 4 0 p) \<noteq> NEW_PROCES_MAGIC then Some False
      else if load le (chunk 4 1 p) \<noteq> NEW_PROCES_VERSION then Some False
      else let entry_size = (load le (chunk 2 4 p) :: u16)
           in if unat entry_size < sizeof_new_process_entry + 1 then Some False
              else let filenameSize = unat entry_size - sizeof_new_process_entry
                   in map_option (\<lambda>bs. bs = [0])
                        (read_at p (sizeof_new_process_entry + filenameSize - 1) 1))"

definition parseProcessEntry :: "bool \<Rightarrow> byte list \<Rightarrow> (u16 \<times> string) option option" where
  "parseProcessEntry le p =
     Option.bind (unmarshalProcessEntry le p) (\<lambda>ok.
       if \<not> ok then Some None
       else map_option (\<lambda>fn. Some (load le (chunk 2 5 p), bytes_to_string fn))
              (c_string_at p sizeof_new_process_entry))"

end
