(* ===== verification/Kcov_SystemMode_Props.thy ===== *)
theory Kcov_SystemMode_Props
  imports Kcov_SystemMode
begin

text \<open>
  Properties of the system mode: the shared bit map loses no report, whatever the interleaving,
  and the three formats are read back as they were written.
\<close>

section \<open>The bit map\<close>

lemma unat_mod_32: "unat (i mod 32 :: u32) < 32"
  by (simp add: unat_mod)

lemma bit_entry_bit: "bit (entry_bit i) n \<longleftrightarrow> n = unat (i mod 32)"
  using unat_mod_32 [of i] unfolding entry_bit_def bit_push_bit_iff bit_1_iff by auto

lemma and_entry_bit: "(w AND entry_bit i \<noteq> 0) \<longleftrightarrow> bit w (unat (i mod 32))"
proof
  assume "w AND entry_bit i \<noteq> 0"
  then obtain n where "bit (w AND entry_bit i) n" by (auto simp: bit_eq_iff)
  then show "bit w (unat (i mod 32))" by (auto simp: bit_and_iff bit_entry_bit)
next
  assume "bit w (unat (i mod 32))"
  then have "bit (w AND entry_bit i) (unat (i mod 32))" by (simp add: bit_and_iff bit_entry_bit)
  then show "w AND entry_bit i \<noteq> 0" by force
qed

definition in_range :: "system_mode_memory \<Rightarrow> u32 \<Rightarrow> bool" where
  "in_range m i \<longleftrightarrow> i div 32 < smm_n_entries m"

definition smm_ok :: "system_mode_memory \<Rightarrow> bool" where
  "smm_ok m \<longleftrightarrow> length (smm_data m) = unat (smm_n_entries m)"

lemma in_range_index: "smm_ok m \<Longrightarrow> in_range m i \<Longrightarrow> unat (i div 32) < length (smm_data m)"
  by (simp add: smm_ok_def in_range_def word_less_nat_alt)

lemma indexIsHit_iff:
  "indexIsHit m i \<longleftrightarrow> in_range m i \<and> bit (smm_data m ! unat (i div 32)) (unat (i mod 32))"
  by (simp only: indexIsHit_def in_range_def and_entry_bit not_le) auto

lemma same_entry_iff: "(i div 32 = j div 32 \<and> i mod 32 = j mod (32 :: u32)) \<longleftrightarrow> i = j"
  by (metis div_mult_mod_eq)

lemma hit_after_or:
  assumes "smm_ok m" "in_range m i"
  shows "indexIsHit (m\<lparr>smm_data := (smm_data m)[unat (i div 32) := smm_data m ! unat (i div 32) OR entry_bit i]\<rparr>) j \<longleftrightarrow>
     indexIsHit m j \<or> j = i"
proof -
  note l = in_range_index [OF assms]
  have "i div 32 = j div 32 \<and> unat (j mod 32) = unat (i mod 32) \<longleftrightarrow> j = i"
    using same_entry_iff [of i j] by (auto simp: word_unat_eq_iff [symmetric])
  moreover have "unat (i div 32) = unat (j div 32) \<longleftrightarrow> i div 32 = j div 32" by (simp only: word_unat_eq_iff)
  ultimately show ?thesis
    using l assms(2) by (auto simp: indexIsHit_iff in_range_def nth_list_update bit_or_iff bit_entry_bit)
qed

text \<open>
  Marking an entry as executed makes exactly that entry executed, when it is inside
  the bit map, and leaves every other entry as it was; the memory is dirty afterwards if it was
  clean and the entry is new.
\<close>

lemma reportIndex_spec:
  assumes "smm_ok m"
  shows "smm_ok (reportIndex m i) \<and>
     (indexIsHit (reportIndex m i) j \<longleftrightarrow> indexIsHit m j \<or> j = i \<and> i div 32 < smm_n_entries m) \<and>
     (\<not> isDirty m \<longrightarrow> (isDirty (reportIndex m i) \<longleftrightarrow> i div 32 < smm_n_entries m \<and> \<not> indexIsHit m i)) \<and>
     \<not> isDirty (markClean m)"
proof (cases "in_range m i \<and> \<not> indexIsHit m i")
  case True
  let ?m = "m\<lparr>smm_data := (smm_data m)[unat (i div 32) := smm_data m ! unat (i div 32) OR entry_bit i]\<rparr>"
  have r: "reportIndex m i = ?m\<lparr>smm_dirtyCount := smm_dirtyCount m + 1\<rparr>"
    using True by (auto simp: reportIndex_def indexIsHit_def in_range_def Let_def not_le split: if_splits)
  have "indexIsHit (reportIndex m i) j = indexIsHit ?m j" by (simp add: r indexIsHit_def)
  with True hit_after_or [OF assms, of i j] show ?thesis
    using assms by (auto simp: r smm_ok_def isDirty_def markClean_def in_range_def)
next
  case False
  then have "reportIndex m i = m"
    by (auto simp: reportIndex_def indexIsHit_def in_range_def Let_def not_less)
  with False assms show ?thesis by (auto simp: in_range_def isDirty_def markClean_def)
qed

section \<open>Several processes\<close>

text \<open>What a process knows at each point of \<open>reportIndex\<close>.\<close>

fun pc_ok :: "system_mode_memory \<Rightarrow> report_pc \<Rightarrow> bool" where
  "pc_ok m (Check i) = True"
| "pc_ok m (ReadVal i) = in_range m i"
| "pc_ok m (Cas i v) = in_range m i"
| "pc_ok m (Bump i) = indexIsHit m i"
| "pc_ok m (Done i) = (in_range m i \<longrightarrow> indexIsHit m i)"

definition hits_grow :: "system_mode_memory \<Rightarrow> system_mode_memory \<Rightarrow> bool" where
  "hits_grow m m' \<longleftrightarrow> smm_n_entries m' = smm_n_entries m \<and> (\<forall>j. indexIsHit m j \<longrightarrow> indexIsHit m' j)"

lemma pc_ok_grow: "pc_ok m pc \<Longrightarrow> hits_grow m m' \<Longrightarrow> pc_ok m' pc"
  by (cases pc) (auto simp: hits_grow_def in_range_def)

lemma indexIsHit_dirty [simp]: "indexIsHit (m\<lparr>smm_dirtyCount := d\<rparr>) j = indexIsHit m j"
  by (simp add: indexIsHit_def)

lemma report_step_effect:
  assumes "smm_ok m" "pc_ok m pc" "report_step m pc = (m', pc')"
  shows "smm_ok m' \<and> hits_grow m m' \<and> pc_index pc' = pc_index pc \<and> pc_ok m' pc' \<and>
     (\<forall>j. indexIsHit m' j \<longrightarrow> indexIsHit m j \<or> j = pc_index pc)"
proof (cases pc)
  case (Check i)
  with assms show ?thesis
    by (auto simp: hits_grow_def in_range_def indexIsHit_def not_less split: if_splits)
next
  case (ReadVal i)
  with assms show ?thesis by (auto simp: hits_grow_def)
next
  case (Cas i v)
  show ?thesis
  proof (cases "smm_data m ! unat (i div 32) = v")
    case True
    have i: "in_range m i" using assms(2) Cas by simp
    have m': "m' = m\<lparr>smm_data := (smm_data m)[unat (i div 32) := smm_data m ! unat (i div 32) OR entry_bit i]\<rparr>"
      "pc' = Bump i" using assms(3) Cas True by auto
    have "smm_ok m'" "smm_n_entries m' = smm_n_entries m" using assms(1) by (simp_all add: m' smm_ok_def)
    moreover have "indexIsHit m' j \<longleftrightarrow> indexIsHit m j \<or> j = i" for j
      unfolding m'(1) by (rule hit_after_or [OF assms(1) i])
    ultimately show ?thesis using Cas by (simp add: m'(2) hits_grow_def)
  next
    case False
    with assms Cas show ?thesis by (auto simp: hits_grow_def)
  qed
next
  case (Bump i)
  with assms show ?thesis by (auto simp: hits_grow_def smm_ok_def)
next
  case (Done i)
  with assms show ?thesis by (auto simp: hits_grow_def)
qed

definition shared_inv :: "u32 set \<Rightarrow> u32 set \<Rightarrow> u32 \<Rightarrow> system_mode_memory \<times> report_pc list \<Rightarrow> bool" where
  "shared_inv hit0 reqs n s \<longleftrightarrow> (case s of (m, pcs) \<Rightarrow>
     smm_ok m \<and> smm_n_entries m = n \<and> pc_index ` set pcs \<subseteq> reqs \<and> (\<forall>pc \<in> set pcs. pc_ok m pc) \<and>
     (\<forall>j \<in> hit0. indexIsHit m j) \<and> (\<forall>j. indexIsHit m j \<longrightarrow> j \<in> hit0 \<or> j \<in> reqs))"

lemma shared_inv_step:
  assumes "shared_inv hit0 reqs n s" "shared_step s t"
  shows "shared_inv hit0 reqs n t"
  using assms(2)
proof cases
  case (1 k pcs m m' pc)
  have inv: "smm_ok m" "smm_n_entries m = n" "pc_index ` set pcs \<subseteq> reqs" "\<forall>pc \<in> set pcs. pc_ok m pc"
    "\<forall>j \<in> hit0. indexIsHit m j" "\<forall>j. indexIsHit m j \<longrightarrow> j \<in> hit0 \<or> j \<in> reqs"
    using assms(1) 1(1) by (auto simp: shared_inv_def)
  have k: "pcs ! k \<in> set pcs" using 1(3) by simp
  then have "pc_ok m (pcs ! k)" and req: "pc_index (pcs ! k) \<in> reqs" using inv(3,4) by auto
  note e = report_step_effect [OF inv(1) this(1) 1(4)]
  have sub: "set (pcs[k := pc]) \<subseteq> insert pc (set pcs)" by (rule set_update_subset_insert)
  have A: "pc_index pc' \<in> reqs \<and> pc_ok m' pc'" if "pc' \<in> set (pcs[k := pc])" for pc'
  proof (cases "pc' = pc")
    case True
    with e req show ?thesis by simp
  next
    case False
    with that sub have "pc' \<in> set pcs" by blast
    with inv(3,4) e pc_ok_grow show ?thesis by blast
  qed
  have B: "\<forall>j \<in> hit0. indexIsHit m' j" using e inv(5) by (simp add: hits_grow_def)
  have C: "\<forall>j. indexIsHit m' j \<longrightarrow> j \<in> hit0 \<or> j \<in> reqs" using e inv(6) req by metis
  have "pc_index ` set (pcs[k := pc]) \<subseteq> reqs" "\<forall>pc' \<in> set (pcs[k := pc]). pc_ok m' pc'" using A by auto
  then show ?thesis unfolding 1(2) shared_inv_def prod.case using B C e inv(2) by (simp add: hits_grow_def)
qed

interpretation shared: step_invariant
  "\<lambda>s. s = s0 \<and> shared_inv hit0 reqs n s0" shared_step "shared_inv hit0 reqs n" for s0 hit0 reqs n
  by unfold_locales (auto intro: shared_inv_step)

text \<open>
  Property C9. Processes that share the memory and mark entries at the same time lose nothing and
  add nothing: in every state that any interleaving of their accesses can reach, the entries
  that were executed before still are, a process that is done with an entry inside the bit
  map finds it executed, and every executed entry was so before or was asked for.
\<close>

theorem shared_reports:
  assumes "smm_ok m0" "shared_step\<^sup>*\<^sup>* (m0, map Check reqs) (m, pcs)"
  shows "(indexIsHit m0 j \<longrightarrow> indexIsHit m j) \<and>
     (Done j \<in> set pcs \<and> j div 32 < smm_n_entries m0 \<longrightarrow> indexIsHit m j) \<and>
     (indexIsHit m j \<longrightarrow> indexIsHit m0 j \<or> j \<in> set reqs)"
proof -
  let ?hit0 = "{j. indexIsHit m0 j}"
  have "shared_inv ?hit0 (set reqs) (smm_n_entries m0) (m0, map Check reqs)"
    using assms(1) by (auto simp: shared_inv_def)
  with shared.inv_reachable [OF _ assms(2)] have inv: "shared_inv ?hit0 (set reqs) (smm_n_entries m0) (m, pcs)" by simp
  then have "pc_ok m (Done j)" if "Done j \<in> set pcs" using that by (auto simp: shared_inv_def)
  with inv show ?thesis by (auto simp: shared_inv_def in_range_def)
qed

theorem shared_reports_witness:
  "\<exists>m pcs. shared_step\<^sup>*\<^sup>* (mk_system_mode_memory ''f'' [] 1, map Check [3, 40]) (m, pcs) \<and>
     Done 3 \<in> set pcs \<and> indexIsHit m 3"
proof -
  let ?m0 = "mk_system_mode_memory ''f'' [] 1"
  define m1 where "m1 = ?m0\<lparr>smm_data := [8]\<rparr>"
  define m2 where "m2 = m1\<lparr>smm_dirtyCount := 1\<rparr>"
  have ok: "smm_ok ?m0" by (simp add: smm_ok_def mk_system_mode_memory_def)
  have steps: "report_step ?m0 (Check 3) = (?m0, ReadVal 3)" "report_step ?m0 (ReadVal 3) = (?m0, Cas 3 0)"
    "report_step ?m0 (Cas 3 0) = (m1, Bump 3)" "report_step m1 (Bump 3) = (m2, Done 3)"
    unfolding m1_def m2_def by code_simp+
  have "shared_step (?m0, [Check 3, Check 40]) (?m0, [ReadVal 3, Check 40])"
    using shared_step.intros [of 0 "[Check 3, Check 40]" ?m0] steps(1) by simp
  moreover have "shared_step (?m0, [ReadVal 3, Check 40]) (?m0, [Cas 3 0, Check 40])"
    using shared_step.intros [of 0 "[ReadVal 3, Check 40]" ?m0] steps(2) by simp
  moreover have "shared_step (?m0, [Cas 3 0, Check 40]) (m1, [Bump 3, Check 40])"
    using shared_step.intros [of 0 "[Cas 3 0, Check 40]" ?m0] steps(3) by simp
  moreover have "shared_step (m1, [Bump 3, Check 40]) (m2, [Done 3, Check 40])"
    using shared_step.intros [of 0 "[Bump 3, Check 40]" m1] steps(4) by simp
  ultimately have "shared_step\<^sup>*\<^sup>* (?m0, [Check 3, Check 40]) (m2, [Done 3, Check 40])"
    by (meson converse_rtranclp_into_rtranclp rtranclp.rtrancl_refl)
  then have r: "shared_step\<^sup>*\<^sup>* (?m0, map Check [3, 40]) (m2, [Done 3, Check 40])" by simp
  have "(3 :: u32) div 32 < smm_n_entries ?m0" by code_simp
  with shared_reports [OF ok r, of 3] have "indexIsHit m2 3" by simp
  with r show ?thesis by (intro exI [of _ m2] exI [of _ "[Done 3, Check 40]"]) simp
qed

section \<open>The file of a bit map\<close>

lemma load_words_ok:
  "length pre = off \<Longrightarrow> load_words le (pre @ concat (map (store le) ws) @ post) off (length ws) = Some ws"
proof (induction ws arbitrary: pre off)
  case (Cons w ws)
  have "load_words le ((pre @ store le w) @ concat (map (store le) ws) @ post) (off + 4) (length ws) = Some ws"
    by (rule Cons.IH) (simp add: Cons.prems)
  with Cons.prems show ?case by (simp add: load32_middle)
qed simp

lemma load_longs_ok:
  "length pre = off \<Longrightarrow> load_longs le (pre @ concat (map (store le) ws) @ post) off (length ws) = Some ws"
proof (induction ws arbitrary: pre off)
  case (Cons w ws)
  have "load_longs le ((pre @ store le w) @ concat (map (store le) ws) @ post) (off + 8) (length ws) = Some ws"
    by (rule Cons.IH) (simp add: Cons.prems)
  with Cons.prems show ?case by (simp add: load64_middle)
qed simp

lemma memoryToFile_roundtrip:
  assumes "smm_ok m" "NUL \<notin> set (smm_filename m)" "NUL \<notin> set (smm_options m)"
    and "unat (smm_n_entries m) * 4 + length (smm_filename m) + 25 < 2 ^ 32"
  shows "\<exists>buf. memoryToFile le m = Some buf \<and>
     fileToMemory le buf = Some (Some (m\<lparr>smm_dirtyCount := 0, smm_cleanCount := 0\<rparr>))"
proof -
  let ?n = "unat (smm_n_entries m)"
  define fo where "fo = ?n * 4 + 24"
  define oo where "oo = fo + length (smm_filename m) + 1"
  define hd where "hd = store le SYSTEM_MODE_FILE_MAGIC @ store le SYSTEM_MODE_FILE_VERSION @
           store le (smm_n_entries m) @ store le (0 :: u32) @ store le (of_nat fo :: u32) @ store le (of_nat oo :: u32)"
  define ws where "ws = concat (map (store le) (smm_data m))"
  define fn where "fn = string_to_bytes (smm_filename m)"
  define ops where "ops = string_to_bytes (smm_options m)"
  define buf where "buf = hd @ ws @ fn @ [0] @ ops @ [0]"
  have len: "length (smm_data m) = ?n" using assms(1) by (simp add: smm_ok_def)
  have hl: "length hd = 24" and wl: "length ws = ?n * 4"
    using nat32.length_table [of le "smm_data m"] len by (simp_all add: hd_def ws_def)
  have small: "oo < 2 ^ 32" "fo + 1 < 2 ^ 32" using assms(4) by (simp_all add: oo_def fo_def)
  have u: "unat (of_nat fo :: u32) = fo" "unat (of_nat oo :: u32) = oo"
    using small by (auto intro!: unat_of_nat_small)
  have "(of_nat fo + 1 :: u32) = of_nat (fo + 1)" by simp
  also have "unat \<dots> = fo + 1" by (rule unat_of_nat_small) (use small(2) in simp)
  finally have u1: "unat (of_nat fo + 1 :: u32) = fo + 1" .

  have m1: "memoryToFile le m = Some buf"
    using small assms(2,3) len
    by (simp add: memoryToFile_def Let_def buf_def hd_def ws_def fn_def ops_def c_str_id sizeof_system_mode_file_def fo_def oo_def)
  have L: "load32 le buf 0 = Some SYSTEM_MODE_FILE_MAGIC" "load32 le buf 4 = Some SYSTEM_MODE_FILE_VERSION"
    "load32 le buf 8 = Some (smm_n_entries m)" "load32 le buf 16 = Some (of_nat fo)" "load32 le buf 20 = Some (of_nat oo)"
    using load32_middle [of "[]" 0 le] load32_middle [of "store le SYSTEM_MODE_FILE_MAGIC" 4 le]
      load32_middle [of "store le SYSTEM_MODE_FILE_MAGIC @ store le SYSTEM_MODE_FILE_VERSION" 8 le]
      load32_middle [of "store le SYSTEM_MODE_FILE_MAGIC @ store le SYSTEM_MODE_FILE_VERSION @
           store le (smm_n_entries m) @ store le (0 :: u32)" 16 le]
      load32_middle [of "store le SYSTEM_MODE_FILE_MAGIC @ store le SYSTEM_MODE_FILE_VERSION @
           store le (smm_n_entries m) @ store le (0 :: u32) @ store le (of_nat fo :: u32)" 20 le]
    by (simp_all add: buf_def hd_def)
  have S: "c_string_at buf fo = Some fn" "c_string_at buf oo = Some ops"
    using c_string_at_middle [of "hd @ ws" fo fn "ops @ [0]"] c_string_at_middle [of "hd @ ws @ fn @ [0]" oo ops "[]"]
      assms(2,3) string_to_bytes_no_zero by (simp_all add: buf_def hl wl fo_def oo_def fn_def ops_def)
  have W: "load_words le buf 24 ?n = Some (smm_data m)"
    using load_words_ok [of hd 24 le "smm_data m" "fn @ [0] @ ops @ [0]"] hl len by (simp add: buf_def ws_def)
  have ge: "\<not> fo < 24 + ?n * 4" "\<not> (of_nat oo :: u32) < of_nat fo + 1"
    by (simp_all only: word_less_nat_alt u u1) (simp_all add: fo_def oo_def)
  have "fileToMemory le buf = Some (Some (m\<lparr>smm_dirtyCount := 0, smm_cleanCount := 0\<rparr>))"
    unfolding fileToMemory_def L Option.bind.simps Let_def
    using ge by (simp add: u S W sizeof_system_mode_file_def mk_system_mode_memory_def fn_def ops_def)
  with m1 show ?thesis by blast
qed

text \<open>
  A saved bit map is read back as it was: same names, same entries, clean counters,
  for strings without NUL and offsets that fit their 32-bit fields.
\<close>

lemma system_mode_file_roundtrip:
  assumes "smm_ok m" "NUL \<notin> set (smm_filename m)" "NUL \<notin> set (smm_options m)"
    and "unat (smm_n_entries m) * 4 + length (smm_filename m) + 25 < 2 ^ 32"
  shows "\<exists>buf. memoryToFile le m = Some buf \<and>
     fileToMemory le buf = Some (Some (m\<lparr>smm_dirtyCount := 0, smm_cleanCount := 0\<rparr>))"
  using memoryToFile_roundtrip [OF assms] .

lemma system_mode_file_roundtrip_witness:
  "\<exists>buf. memoryToFile True (reportIndex (mk_system_mode_memory ''f'' ''-o'' 2) 33) = Some buf \<and>
     (\<exists>m. fileToMemory True buf = Some (Some m) \<and> indexIsHit m 33)"
proof -
  let ?m = "reportIndex (mk_system_mode_memory ''f'' ''-o'' 2) 33"
  have "smm_ok ?m" "NUL \<notin> set (smm_filename ?m)" "NUL \<notin> set (smm_options ?m)" "indexIsHit ?m 33"
    and n: "smm_n_entries ?m = 2" "smm_filename ?m = ''f''" by code_simp+
  moreover have "unat (smm_n_entries ?m) * 4 + length (smm_filename ?m) + 25 < 2 ^ 32" by (simp add: n)
  moreover have "indexIsHit (?m\<lparr>smm_dirtyCount := 0, smm_cleanCount := 0\<rparr>) 33 = indexIsHit ?m 33"
    by (simp add: indexIsHit_def)
  ultimately show ?thesis using system_mode_file_roundtrip [of ?m True] by blast
qed

section \<open>Registration\<close>

text \<open>
  A registration message is parsed back to the pid and the file name, for a name
  without NUL that leaves the message below 64 kB. For a longer name the 16-bit size field wraps.
\<close>

lemma registration_roundtrip:
  assumes "NUL \<notin> set filename" "length filename + 13 < 2 ^ 16"
  shows "parseProcessEntry le (createProcessEntry le pid filename) = Some (Some (pid, filename))"
proof -
  define size where "size = sizeof_new_process_entry + length filename + 1"
  define hd where "hd = store le NEW_PROCES_MAGIC @ store le NEW_PROCES_VERSION @ store le (of_nat size :: u16) @ store le pid"
  define fn where "fn = string_to_bytes filename"
  have p: "createProcessEntry le pid filename = hd @ fn @ [0]"
    using assms(1) by (simp add: createProcessEntry_def Let_def hd_def fn_def c_str_id size_def)
  have hl: "length hd = 12" by (simp add: hd_def)
  have u: "unat (of_nat size :: u16) = size"
    by (rule unat_of_nat_small) (use assms(2) in \<open>simp add: size_def sizeof_new_process_entry_def\<close>)
  have L: "load le (chunk 4 0 (hd @ fn @ [0])) = NEW_PROCES_MAGIC" "load le (chunk 4 1 (hd @ fn @ [0])) = NEW_PROCES_VERSION"
    "load le (chunk 2 4 (hd @ fn @ [0])) = (of_nat size :: u16)" "load le (chunk 2 5 (hd @ fn @ [0])) = pid"
    by (simp_all add: hd_def chunk_def)
  have "read_at (hd @ fn @ [0]) (size - 1) 1 = Some [0]"
    using read_at_middle [of "hd @ fn" "size - 1" "[0]" 1 "[]"] hl
    by (simp add: size_def fn_def sizeof_new_process_entry_def)
  moreover have "c_string_at (hd @ fn @ [0]) 12 = Some fn"
    using c_string_at_middle [OF hl, of fn "[]"] string_to_bytes_no_zero [OF assms(1)] by (simp add: fn_def)
  moreover have "sizeof_new_process_entry + 1 \<le> size" "12 + (size - 12) - 1 = size - 1"
    by (simp_all add: size_def sizeof_new_process_entry_def)
  ultimately show ?thesis
    unfolding p parseProcessEntry_def unmarshalProcessEntry_def Let_def L u
    using hl by (simp add: sizeof_new_process_entry_def L(4) fn_def)
qed

lemma registration_roundtrip_witness:
  "parseProcessEntry True (createProcessEntry True 17 ''/bin/ls'') = Some (Some (17, ''/bin/ls''))"
proof -
  have "NUL \<notin> set ''/bin/ls''" "length ''/bin/ls'' + 13 < 2 ^ 16" by (simp_all add: NUL_def)
  then show ?thesis by (rule registration_roundtrip)
qed

section \<open>Processed files\<close>

lemma padTo8_mod [simp]: "padTo8 n mod 8 = 0"
  unfolding padTo8_def by (cases "n mod 8 = 0") (simp_all, presburger)

lemma padTo8_bounds: "n \<le> padTo8 n" "padTo8 n \<le> n + 7" "padTo8 (8 * k) = 8 * k" "padTo8 (k * 8) = k * 8"
  by (auto simp: padTo8_def)

lemma length_put_trailer [simp]: "length (put_trailer le t) = sizeof_trailer"
  by (simp add: put_trailer_def sizeof_trailer_def)

lemma get_put_trailer: "get_trailer le (put_trailer le t) = t"
  by (simp add: get_trailer_def put_trailer_def chunk_def)

lemma addEntry_next:
  assumes "unat i = length (sf_entries f)" "Suc (length (sf_entries f)) < 2 ^ 32"
  shows "addEntry f i v = Some (f\<lparr>sf_entries := sf_entries f @ [v]\<rparr>)"
proof -
  have "unat (i + 1) = Suc (unat i)" by (rule unat_inc) (use assms in simp)
  with assms(1) show ?thesis by (simp add: addEntry_def Let_def list_update_append)
qed

lemma add_entries_all:
  "unat i = length (sf_entries f) \<Longrightarrow> Suc (length (sf_entries f) + length vs) < 2 ^ 32 \<Longrightarrow>
     add_entries f i vs = Some (f\<lparr>sf_entries := sf_entries f @ vs\<rparr>)"
proof (induction vs arbitrary: f i)
  case (Cons v vs)
  have n: "addEntry f i v = Some (f\<lparr>sf_entries := sf_entries f @ [v]\<rparr>)"
    using Cons.prems by (intro addEntry_next) simp_all
  have "unat (i + 1) = Suc (unat i)" by (rule unat_inc) (use Cons.prems in simp)
  with Cons.IH [of "i + 1" "f\<lparr>sf_entries := sf_entries f @ [v]\<rparr>"] Cons.prems n show ?case by simp
qed simp

lemma and_7_of_nat: "k mod 8 = 0 \<Longrightarrow> (of_nat k :: u32) AND 7 = 0"
proof -
  assume k: "k mod 8 = 0"
  have "(of_nat k :: u32) AND 7 = take_bit 3 (of_nat k)" by (simp add: take_bit_eq_mask mask_eq_exp_minus_1)
  also have "\<dots> = of_nat (take_bit 3 k)" by (simp add: take_bit_of_nat)
  finally show ?thesis using k by (simp add: take_bit_eq_mod)
qed

lemma nth_last_middle: "0 < length X \<Longrightarrow> (A @ X @ B) ! (length A + length X - 1) = X ! (length X - 1)"
proof -
  assume "0 < length X"
  then have "length A + length X - 1 = length A + (length X - 1)" "length X - 1 < length X" by linarith+
  then show ?thesis by (simp only: nth_append_length_plus nth_append [of X B] if_True)
qed

lemma nth_append_zeros:
  "length s \<le> k \<Longrightarrow> k < length s + n \<Longrightarrow> (s @ replicate n (0 :: byte)) ! k = 0"
  by (simp add: nth_append)

lemma unat_add_le: "unat (a + b :: u32) \<le> unat a + unat b"
  by (simp add: unat_word_ariths)

text \<open>Reading: a file made of data, name, options, table and trailer, the name and the options ended by zeros.\<close>

lemma parse_processed_layout:
  assumes out: "out = dat @ F @ P @ es @ put_trailer le t"
    and F: "F = fn @ replicate (Suc i) 0" "0 \<notin> set fn" and P: "P = ops @ replicate (Suc j) 0" "0 \<notin> set ops"
    and es: "es = concat (map (store le) entries)" "length entries < 2 ^ 16"
    and t: "unmarshalTrailer t" "unat (tr_filename_size t) = length F" "unat (tr_options_size t) = length P"
      "unat (tr_compressed_size t) = 8 * length entries" "tr_uncompressed_size t = tr_compressed_size t"
      "unat (tr_n_entries t) = length entries"
    and aligned: "(length out - sizeof_trailer) mod 8 = 0"
  shows "parse_processed le out = Some (True, \<lparr> sf_filename = bytes_to_string fn, sf_options = bytes_to_string ops,
           sf_id = tr_id t, sf_data = out, sf_entries = entries \<rparr>)"
proof -
  let ?fs = "length F" and ?os = "length P" and ?n = "length entries" and ?start = "length out - sizeof_trailer"
  have es8: "length es = ?n * 8" using nat64.length_table [of le entries] by (simp add: es)
  have ol: "length out = length dat + ?fs + ?os + ?n * 8 + sizeof_trailer" by (simp add: out es8)
  have tr: "get_trailer le (drop ?start out) = t"
  proof -
    have "?start = length (dat @ F @ P @ es)" by (simp add: ol es8)
    then have "drop ?start out = put_trailer le t" by (simp add: out)
    then show ?thesis by (simp add: get_put_trailer)
  qed
  have sum: "\<not> length out + sizeof_trailer < unat (tr_filename_size t + tr_options_size t + tr_compressed_size t)"
    using unat_add_le [of "tr_filename_size t + tr_options_size t" "tr_compressed_size t"]
      unat_add_le [of "tr_filename_size t" "tr_options_size t"] t ol by linarith
  have offs: "length (dat @ F) - ?fs = length dat" "length (dat @ F @ P) - ?os = length (dat @ F)"
    "?start - 8 * ?n = length (dat @ F @ P)" "\<not> ?start < 8 * ?n + ?os + ?fs" "?fs \<noteq> 0" "?os \<noteq> 0"
    by (simp_all add: ol F P)
  have last: "out ! (length dat + ?fs - 1) = 0" "out ! (length (dat @ F) + ?os - 1) = 0"
  proof -
    have "F ! (?fs - 1) = 0" "P ! (?os - 1) = 0" by (simp_all add: F(1) P(1) nth_append del: replicate_Suc)
    then show "out ! (length dat + ?fs - 1) = 0" "out ! (length (dat @ F) + ?os - 1) = 0"
      using nth_last_middle [of F dat "P @ es @ put_trailer le t"] nth_last_middle [of P "dat @ F" "es @ put_trailer le t"] F P
      by (simp_all add: out)
  qed
  have cs: "c_string_at out (length dat) = Some fn" "c_string_at out (length (dat @ F)) = Some ops"
    using c_string_at_middle [of dat "length dat" fn "replicate i 0 @ P @ es @ put_trailer le t"]
      c_string_at_middle [of "dat @ F" "length (dat @ F)" ops "replicate j 0 @ es @ put_trailer le t"] F(2) P(2)
    by (simp_all add: out F(1) P(1))
  have ue: "uncompressEntries (drop (length (dat @ F @ P)) out) (tr_compressed_size t) (tr_uncompressed_size t) = Some es"
    unfolding uncompressEntries_def t by (simp add: out es8)
  have ll: "load_longs le es 0 ?n = Some entries"
    using load_longs_ok [of "[]" 0 le entries "[]"] by (simp add: es)
  have ae: "add_entries \<lparr> sf_filename = bytes_to_string fn, sf_options = bytes_to_string ops, sf_id = tr_id t,
      sf_data = out, sf_entries = [] \<rparr> 0 entries = Some \<lparr> sf_filename = bytes_to_string fn, sf_options = bytes_to_string ops,
      sf_id = tr_id t, sf_data = out, sf_entries = entries \<rparr>"
    by (subst add_entries_all) (use es in simp_all)
  have "\<not> length out < sizeof_trailer" by (simp add: ol)
  then show ?thesis
    unfolding parse_processed_def Let_def tr t(2-4,6) offs(3) offs(2) offs(1)
    using aligned t(1) sum offs(4-6) last by (simp add: cs ue ll ae del: length_append)
qed


text \<open>Writing: the same layout.\<close>

lemma padded_string:
  assumes "length s < n"
  shows "string_to_bytes s @ replicate (n - length s) 0 = string_to_bytes s @ replicate (Suc (n - length s - 1)) 0"
  using assms by (simp add: Suc_diff_Suc del: replicate_Suc)

lemma padded_size: "length s < padTo8 (length s + 1)" "padTo8 (length s + 1) \<le> length s + 8"
  using padTo8_bounds(1,2) [of "length s + 1"] by linarith+

text \<open>
  Property C20. A binary to which its table of entries has been appended (what \<open>getProcessedData\<close> builds for system mode) is
  parsed back to the same file name, options, id and entries. This holds for at least one and at most 65535 entries,
  a result below 4 GB, a name and options without NUL, and a padded name no longer than the padded options, the table and
  the trailer together: the code ends the name with a zero byte counted from the start of the options, and for a longer
  name that byte is written behind the block.
\<close>

theorem processed_file_roundtrip:
  assumes "sf_entries f \<noteq> []" "length (sf_entries f) < 2 ^ 16"
    and "NUL \<notin> set (sf_filename f)" "NUL \<notin> set (sf_options f)"
    and "length (sf_data f) + length (sf_filename f) + length (sf_options f) + 8 * length (sf_entries f) + 55 < 2 ^ 32"
    and "padTo8 (length (sf_filename f) + 1) \<le> padTo8 (length (sf_options f) + 1) + 8 * length (sf_entries f) + 32"
  shows "\<exists>out. getProcessedData le f = Some out \<and> fromProcessedFile le out = Some (Some (f\<lparr>sf_data := out\<rparr>))"
proof -
  let ?fs = "padTo8 (length (sf_filename f) + 1)" and ?os = "padTo8 (length (sf_options f) + 1)"
  let ?n = "length (sf_entries f)" and ?fn = "string_to_bytes (sf_filename f)" and ?ops = "string_to_bytes (sf_options f)"
  let ?dat = "sf_data f @ replicate (padTo8 (length (sf_data f)) - length (sf_data f)) 0"
  let ?es = "concat (map (store le) (sf_entries f))"
  define F where "F = ?fn @ replicate (?fs - length (sf_filename f)) 0"
  define P where "P = ?ops @ replicate (?os - length (sf_options f)) 0"
  define t where "t = \<lparr> tr_magic = TRAILER_MAGIC, tr_version = TRAILER_VERSION,
      tr_compressed_size = of_nat (?n * 8), tr_uncompressed_size = of_nat (?n * 8), tr_id = sf_id f,
      tr_filename_size = of_nat ?fs, tr_options_size = of_nat ?os, tr_n_entries = of_nat ?n \<rparr>"
  define out where "out = ?dat @ F @ P @ ?es @ put_trailer le t"
  note b = padded_size [of "sf_filename f"] padded_size [of "sf_options f"] padTo8_bounds(1) [of "length (sf_data f)"]
  have u: "unat (of_nat ?fs :: u32) = ?fs" "unat (of_nat ?os :: u32) = ?os" "unat (of_nat (?n * 8) :: u32) = ?n * 8"
    using b assms(5) by (auto intro!: unat_of_nat_small simp del: of_nat_mult)
  have un: "unat (of_nat ?n :: u16) = ?n" using assms(2) by (intro unat_of_nat_small) simp
  have len: "length F = ?fs" "length P = ?os" using b by (simp_all add: F_def P_def)
  have ol: "length out = padTo8 (length (sf_data f)) + ?fs + ?os + ?n * 8 + sizeof_trailer"
    using b nat64.length_table [of le "sf_entries f"] by (simp add: out_def len)
  have st: "length out - sizeof_trailer = padTo8 (length (sf_data f)) + ?fs + ?os + ?n * 8" by (simp add: ol)
  have al: "(length out - sizeof_trailer) mod 8 = 0"
    unfolding st using padTo8_mod [of "length (sf_data f)"] padTo8_mod [of "length (sf_filename f) + 1"]
      padTo8_mod [of "length (sf_options f) + 1"] by presburger
  have get: "getProcessedData le f = Some out"
  proof -
    have "padTo8 (length (sf_data f)) + ?fs + ?fs - 1 < length out"
      using assms(6) b by (simp add: ol sizeof_trailer_def)
    moreover have "getProcessedData le f = (if padTo8 (length (sf_data f)) + ?fs + ?fs - 1 < length out then Some out else None)"
      unfolding getProcessedData_def Let_def u padTo8_bounds(4)
      using assms(1,3,4) ol by (simp add: out_def F_def P_def t_def c_str_id del: of_nat_mult)
    ultimately show ?thesis by simp
  qed
  have "parse_processed le out = Some (True, f\<lparr>sf_data := out\<rparr>)"
    using parse_processed_layout [OF out_def _ _ _ _ refl assms(2), of ?fn "?fs - length (sf_filename f) - 1" ?ops
        "?os - length (sf_options f) - 1"] b al un u len assms(3,4)
    by (simp add: F_def P_def t_def padded_string string_to_bytes_no_zero unmarshalTrailer_def and_7_of_nat
        mult.commute del: of_nat_mult replicate_Suc)
  moreover have "out \<noteq> []" using ol by (auto simp: sizeof_trailer_def)
  ultimately have "fromProcessedFile le out = Some (Some (f\<lparr>sf_data := out\<rparr>))" by (simp add: fromProcessedFile_def)
  with get show ?thesis by blast
qed

theorem processed_file_roundtrip_witness:
  "\<exists>out. getProcessedData True \<lparr> sf_filename = ''f'', sf_options = ''-o'', sf_id = 3, sf_data = [1, 2, 3], sf_entries = [7, 9] \<rparr> = Some out \<and>
     map_option (map_option sf_entries) (fromProcessedFile True out) = Some (Some [7, 9])"
proof -
  let ?f = "\<lparr> sf_filename = ''f'', sf_options = ''-o'', sf_id = 3, sf_data = [1, 2, 3], sf_entries = [7, 9] \<rparr> :: SystemModeFile"
  have "sf_entries ?f \<noteq> []" "length (sf_entries ?f) < 2 ^ 16" "NUL \<notin> set (sf_filename ?f)" "NUL \<notin> set (sf_options ?f)"
    "length (sf_data ?f) + length (sf_filename ?f) + length (sf_options ?f) + 8 * length (sf_entries ?f) + 55 < 2 ^ 32"
    "padTo8 (length (sf_filename ?f) + 1) \<le> padTo8 (length (sf_options ?f) + 1) + 8 * length (sf_entries ?f) + 32"
    by (simp_all add: NUL_def padTo8_def)
  from processed_file_roundtrip [OF this, of True] show ?thesis by auto
qed

text \<open>
  For a file name longer than the options, the table and the trailer together,
  writing the processed file stores a byte behind the end of the block.
\<close>

lemma processed_file_overflow:
  assumes "sf_entries f \<noteq> []"
    and "length (sf_data f) + length (sf_filename f) + length (sf_options f) + 8 * length (sf_entries f) + 55 < 2 ^ 32"
    and "padTo8 (length (sf_filename f) + 1) > padTo8 (length (sf_options f) + 1) + 8 * length (sf_entries f) + 32"
  shows "getProcessedData le f = None"
proof -
  let ?fs = "padTo8 (length (sf_filename f) + 1)" and ?os = "padTo8 (length (sf_options f) + 1)" and ?n = "length (sf_entries f)"
  have b: "?fs \<le> length (sf_filename f) + 8" "?os \<le> length (sf_options f) + 8"
    using padTo8_bounds(2) [of "length (sf_filename f) + 1"] padTo8_bounds(2) [of "length (sf_options f) + 1"] by simp_all
  have u: "unat (of_nat ?fs :: u32) = ?fs" "unat (of_nat ?os :: u32) = ?os" "unat (of_nat (?n * 8) :: u32) = ?n * 8"
    using b assms(2) by (auto intro!: unat_of_nat_small simp del: of_nat_mult)
  have p8: "padTo8 (?n * 8) = ?n * 8" by (rule padTo8_bounds(4))
  have "\<not> padTo8 (length (sf_data f)) + ?fs + ?fs - 1 < padTo8 (length (sf_data f)) + ?fs + ?os + ?n * 8 + sizeof_trailer"
    using assms(3) by (simp add: sizeof_trailer_def)
  with assms(1) show ?thesis
    unfolding getProcessedData_def Let_def u p8 by simp
qed

lemma processed_file_overflow_witness:
  "getProcessedData True \<lparr> sf_filename = replicate 63 (CHR ''a''), sf_options = [], sf_id = 3, sf_data = [1], sf_entries = [7] \<rparr> = None"
  by (rule processed_file_overflow) (simp_all add: padTo8_def)

end
