(* ===== verification/Kcov_SystemMode_Term.thy ===== *)
theory Kcov_SystemMode_Term
  imports Kcov_SystemMode_Props
begin

text \<open>
  The loop of \<open>reportIndex\<close> around the compare-and-swap ends, however the processes interfere: a
  failed attempt means that another process has set a bit of the word since it was read, and bits
  are never cleared.
\<close>

inductive active_step :: "system_mode_memory \<times> report_pc list \<Rightarrow> system_mode_memory \<times> report_pc list \<Rightarrow> bool" where
  "k < length pcs \<Longrightarrow> pcs ! k \<noteq> Done (pc_index (pcs ! k)) \<Longrightarrow> report_step m (pcs ! k) = (m', pc) \<Longrightarrow>
     active_step (m, pcs) (m', pcs[k := pc])"

section \<open>The work that is left\<close>

definition zeros :: "u32 \<Rightarrow> nat" where
  "zeros w = card {n. n < 32 \<and> \<not> bit w n}"

fun pc_rank :: "system_mode_memory \<Rightarrow> report_pc \<Rightarrow> nat" where
  "pc_rank m (Check i) = 68"
| "pc_rank m (ReadVal i) = 2 * zeros (smm_data m ! unat (i div 32)) + 3"
| "pc_rank m (Cas i v) = 2 * zeros v + 2"
| "pc_rank m (Bump i) = 1"
| "pc_rank m (Done i) = 0"

definition bits_in :: "u32 \<Rightarrow> u32 \<Rightarrow> bool" where
  "bits_in v w = (\<forall>n. bit v n \<longrightarrow> bit w n)"

lemma zeros_le: "zeros w \<le> 32"
proof -
  have "zeros w \<le> card {n. n < (32 :: nat)}" unfolding zeros_def by (rule card_mono) auto
  then show ?thesis by simp
qed

lemma zeros_mono: "bits_in v w \<Longrightarrow> zeros w \<le> zeros v"
  unfolding zeros_def bits_in_def by (rule card_mono) auto

lemma zeros_strict: "bits_in v w \<Longrightarrow> v \<noteq> w \<Longrightarrow> zeros w < zeros v"
proof -
  assume b: "bits_in v w" "v \<noteq> w"
  have "\<exists>n < 32. bit v n \<noteq> bit w n"
  proof (rule ccontr)
    assume "\<not> (\<exists>n < 32. bit v n \<noteq> bit w n)"
    then have "v = w" by (intro bit_word_eqI) simp
    with b(2) show False ..
  qed
  then obtain n where "n < 32" "bit w n" "\<not> bit v n" using b(1) by (auto simp: bits_in_def)
  with b(1) have "{n. n < 32 \<and> \<not> bit w n} \<subset> {n. n < 32 \<and> \<not> bit v n}" by (auto simp: bits_in_def)
  then show ?thesis unfolding zeros_def by (intro psubset_card_mono) simp_all
qed

text \<open>What a process has read is still set.\<close>

fun pc_seen :: "system_mode_memory \<Rightarrow> report_pc \<Rightarrow> bool" where
  "pc_seen m (ReadVal i) = in_range m i"
| "pc_seen m (Cas i v) = (in_range m i \<and> bits_in v (smm_data m ! unat (i div 32)))"
| "pc_seen m pc = True"

definition data_grows :: "system_mode_memory \<Rightarrow> system_mode_memory \<Rightarrow> bool" where
  "data_grows m m' \<longleftrightarrow> smm_n_entries m' = smm_n_entries m \<and> length (smm_data m') = length (smm_data m) \<and>
     (\<forall>k < length (smm_data m). bits_in (smm_data m ! k) (smm_data m' ! k))"

lemma bits_in_trans: "bits_in u v \<Longrightarrow> bits_in v w \<Longrightarrow> bits_in u w"
  by (simp add: bits_in_def)

lemma seen_grows:
  assumes "smm_ok m" "pc_seen m pc" "data_grows m m'"
  shows "pc_seen m' pc" "pc_rank m' pc \<le> pc_rank m pc"
proof -
  have g: "in_range m i \<Longrightarrow> in_range m' i \<and> bits_in (smm_data m ! unat (i div 32)) (smm_data m' ! unat (i div 32))" for i
    using assms(1,3) in_range_index [of m i] by (simp add: data_grows_def in_range_def)
  show "pc_seen m' pc" using assms(2) g bits_in_trans by (cases pc) auto
  show "pc_rank m' pc \<le> pc_rank m pc" using assms(2) g zeros_mono by (cases pc) auto
qed

lemma bits_in_or: "bits_in v (v OR b)" "bits_in v v"
  by (simp_all add: bits_in_def bit_or_iff)

lemma report_step_rank:
  assumes "smm_ok m" "pc_seen m pc" "report_step m pc = (m', pc')" "pc \<noteq> Done (pc_index pc)"
  shows "smm_ok m'" "data_grows m m'" "pc_seen m' pc'" "pc_rank m' pc' < pc_rank m pc"
proof -
  have "smm_ok m' \<and> data_grows m m' \<and> pc_seen m' pc' \<and> pc_rank m' pc' < pc_rank m pc"
  proof (cases pc)
    case (Check i)
    with assms zeros_le [of "smm_data m ! unat (i div 32)"] show ?thesis
      by (auto simp: data_grows_def bits_in_or in_range_def not_le split: if_splits)
  next
    case (Cas i v)
    show ?thesis
    proof (cases "smm_data m ! unat (i div 32) = v")
      case True
      have "bits_in (smm_data m ! k) (smm_data m' ! k)" if "k < length (smm_data m)" for k
        using assms(2,3) Cas True that bits_in_or in_range_index [OF assms(1), of i] by (auto simp: nth_list_update)
      with assms Cas True show ?thesis by (auto simp: data_grows_def smm_ok_def)
    next
      case False
      with assms(2) Cas zeros_strict [of v "smm_data m ! unat (i div 32)"] have "zeros (smm_data m ! unat (i div 32)) < zeros v" by auto
      with assms Cas False show ?thesis by (auto simp: data_grows_def bits_in_or)
    qed
  qed (use assms in \<open>auto simp: data_grows_def bits_in_or smm_ok_def\<close>)
  then show "smm_ok m'" "data_grows m m'" "pc_seen m' pc'" "pc_rank m' pc' < pc_rank m pc" by simp_all
qed

section \<open>All processes\<close>

definition total_rank :: "system_mode_memory \<times> report_pc list \<Rightarrow> nat" where
  "total_rank s = (case s of (m, pcs) \<Rightarrow> sum_list (map (pc_rank m) pcs))"

definition seen_inv :: "system_mode_memory \<times> report_pc list \<Rightarrow> bool" where
  "seen_inv s = (case s of (m, pcs) \<Rightarrow> smm_ok m \<and> (\<forall>pc \<in> set pcs. pc_seen m pc))"

lemma sum_list_update_less:
  assumes "k < length xs" "\<And>x. x \<in> set xs \<Longrightarrow> g x \<le> f x" "g y < f (xs ! k)"
  shows "sum_list (map g (xs[k := y])) < (sum_list (map f xs) :: nat)"
  using assms
proof (induction xs arbitrary: k)
  case (Cons x xs)
  show ?case
  proof (cases k)
    case 0
    have "sum_list (map g xs) \<le> sum_list (map f xs)" using Cons.prems(2) by (intro sum_list_mono) simp
    with 0 Cons.prems(3) show ?thesis by simp
  next
    case (Suc j)
    with Cons.IH [of j] Cons.prems have "sum_list (map g (xs[j := y])) < sum_list (map f xs)" by simp
    moreover have "g x \<le> f x" using Cons.prems(2) by simp
    ultimately show ?thesis using Suc by simp
  qed
qed simp

lemma active_step_rank:
  assumes "seen_inv s" "active_step s t"
  shows "seen_inv t" "total_rank t < total_rank s"
proof -
  obtain k pcs m m' pc where st: "s = (m, pcs)" "t = (m', pcs[k := pc])" "k < length pcs"
    "pcs ! k \<noteq> Done (pc_index (pcs ! k))" "report_step m (pcs ! k) = (m', pc)"
    using assms(2) by (cases rule: active_step.cases)
  have ok: "smm_ok m" "\<forall>pc \<in> set pcs. pc_seen m pc" using assms(1) st(1) by (simp_all add: seen_inv_def)
  note r = report_step_rank [OF ok(1) _ st(5,4)]
  have r': "smm_ok m'" "data_grows m m'" "pc_seen m' pc" "pc_rank m' pc < pc_rank m (pcs ! k)"
    using r ok(2) st(3) by simp_all
  have "\<forall>x \<in> set (pcs[k := pc]). pc_seen m' x"
    using seen_grows(1) [OF ok(1) _ r'(2)] ok(2) r'(3) set_update_subset_insert [of pcs k pc] by blast
  then show "seen_inv t" by (simp add: seen_inv_def st(2) r'(1))
  show "total_rank t < total_rank s"
    unfolding total_rank_def st(1,2) prod.case
    using st(3) seen_grows(2) [OF ok(1) _ r'(2)] ok(2) r'(4) by (intro sum_list_update_less) blast+
qed

text \<open>
  Property C10. Marking entries of the shared memory ends: however the accesses of the processes
  interleave, all calls of \<open>reportIndex\<close> together take at most 68 steps per call, repeated
  compare-and-swap attempts included.
\<close>

theorem reports_end:
  assumes "smm_ok m0" "(active_step ^^ n) (m0, map Check reqs) s"
  shows "n \<le> 68 * length reqs"
proof -
  have "seen_inv s \<and> total_rank s + n \<le> 68 * length reqs"
    using assms(2)
  proof (induction n arbitrary: s)
    case 0
    have "total_rank (m0, map Check reqs) = 68 * length reqs"
      by (induction reqs) (simp_all add: total_rank_def)
    with 0 assms(1) show ?case by (auto simp: seen_inv_def)
  next
    case (Suc n)
    then obtain u where u: "(active_step ^^ n) (m0, map Check reqs) u" "active_step u s" by (auto elim: relpowp_Suc_E)
    with Suc.IH [OF u(1)] active_step_rank [OF _ u(2)] show ?case by auto
  qed
  then show ?thesis by simp
qed

theorem reports_end_witness:
  "\<exists>s. (active_step ^^ 2) (mk_system_mode_memory ''f'' [] 1, map Check [3, 40]) s \<and> (2 :: nat) \<le> 68 * length [3 :: u32, 40]"
proof -
  let ?m = "mk_system_mode_memory ''f'' [] 1"
  have "report_step ?m (Check 3) = (?m, ReadVal 3)" "report_step ?m (Check 40) = (?m, Done 40)"
    by (simp_all add: mk_system_mode_memory_def)
  then have "active_step (?m, [Check 3, Check 40]) (?m, [ReadVal 3, Check 40])"
    "active_step (?m, [ReadVal 3, Check 40]) (?m, [ReadVal 3, Done 40])"
    using active_step.intros [of 0 "[Check 3, Check 40]" ?m ?m] active_step.intros [of 1 "[ReadVal 3, Check 40]" ?m ?m] by simp_all
  then have r: "(active_step ^^ 2) (?m, map Check [3, 40]) (?m, [ReadVal 3, Done 40])"
    by (auto simp: numeral_2_eq_2)
  moreover have "smm_ok ?m" by (simp add: smm_ok_def mk_system_mode_memory_def)
  ultimately show ?thesis using reports_end [OF _ r] by blast
qed

end
