(* ===== verification/Kcov_Script.thy ===== *)
theory Kcov_Script
  imports Kcov_Utils Kcov_Memory Kcov_SourceCache
begin

text \<open>
  What the script engines share (\<open>src/src/engines/script-engine-base.hh\<close>,
  \<open>src/src/include/lineid.hh\<close>): the table of line addresses and the report of a line of code.

  A parser of source text is a function that gives the numbers of the lines it takes for code, in
  the order it reports them; the engine reports each of them once.
\<close>

record script_env =
  se_getLines :: "string \<Rightarrow> string list"
  se_getCrc :: "string \<Rightarrow> u32"
  se_std_hash :: "string \<Rightarrow> u64"
  se_rp :: "string \<Rightarrow> string"

datatype script_event =
    SFile string
  | SLine string u32 u64
  | SBreakpoint u64
  | SExitFirst u32
  | SError

record ScriptEngine =
  sc_reportedFiles :: "string \<Rightarrow> bool"
  sc_lineIdToAddress :: "u64 \<rightharpoonup> u64"
  sc_listener :: bool

definition mk_ScriptEngine :: ScriptEngine where
  "mk_ScriptEngine = \<lparr> sc_reportedFiles = (\<lambda>_. False), sc_lineIdToAddress = (\<lambda>_. None), sc_listener = False \<rparr>"

definition getLineId :: "script_env \<Rightarrow> string \<Rightarrow> u32 \<Rightarrow> u64" where
  "getLineId e fileName nr = (se_std_hash e fileName AND 0xffffffff) OR push_bit 32 (ucast nr)"

definition line_address :: "u32 \<Rightarrow> u32 \<Rightarrow> u64" where
  "line_address crc lineNo = ucast crc OR push_bit 32 (ucast lineNo)"

definition fileLineFound ::
  "script_env \<Rightarrow> ScriptEngine \<Rightarrow> u32 \<Rightarrow> string \<Rightarrow> u32 \<Rightarrow> ScriptEngine \<times> script_event list" where
  "fileLineFound e s crc filename lineNo =
     (let id = getLineId e filename lineNo; address = line_address crc lineNo
      in if sc_lineIdToAddress s id \<noteq> None then (s, [])
         else (s\<lparr>sc_lineIdToAddress := (sc_lineIdToAddress s)(id \<mapsto> address)\<rparr>,
               [SLine (c_str (se_rp e filename)) lineNo address]))"

fun report_lines ::
  "script_env \<Rightarrow> ScriptEngine \<Rightarrow> u32 \<Rightarrow> string \<Rightarrow> u32 list \<Rightarrow> ScriptEngine \<times> script_event list" where
  "report_lines e s crc filename [] = (s, [])"
| "report_lines e s crc filename (n # ns) =
     (case fileLineFound e s crc filename n of
        (s1, evs) \<Rightarrow> (case report_lines e s1 crc filename ns of (s2, evs') \<Rightarrow> (s2, evs @ evs')))"

definition script_parseFile ::
  "(string list \<Rightarrow> u32 list) \<Rightarrow> script_env \<Rightarrow> ScriptEngine \<Rightarrow> string \<Rightarrow> ScriptEngine \<times> script_event list" where
  "script_parseFile code_lines e s filename =
     (if \<not> sc_listener s then (s, [])
      else report_lines e s (se_getCrc e filename) filename (code_lines (se_getLines e filename)))"

definition reportEvent :: "ScriptEngine \<Rightarrow> script_event \<Rightarrow> script_event list" where
  "reportEvent s ev = (if \<not> sc_listener s then [] else [ev])"

text \<open>
  The tail of both \<open>checkEvents\<close>: a file seen for the first time is announced and parsed, then
  the line's breakpoint event is sent, with address 0 when the line is not known.
\<close>

definition script_hit ::
  "(string list \<Rightarrow> u32 list) \<Rightarrow> script_env \<Rightarrow> ScriptEngine \<Rightarrow> string \<Rightarrow> u32 \<Rightarrow> ScriptEngine \<times> script_event list" where
  "script_hit code_lines e s filename lineNo =
     (let (s1, evs) =
            (if sc_reportedFiles s filename then (s, [])
             else (case script_parseFile code_lines e
                          (s\<lparr>sc_reportedFiles := (sc_reportedFiles s)(filename := True)\<rparr>) filename of
                     (s1, evs) \<Rightarrow> (s1, SFile filename # evs)));
          address = (case sc_lineIdToAddress s1 (getLineId e filename lineNo) of None \<Rightarrow> 0 | Some a \<Rightarrow> a)
      in (s1, evs @ (if sc_listener s1 then [SBreakpoint address] else [])))"

text \<open>What \<open>waitpid\<close> says of the child, and the event the engines make of it.\<close>

datatype wait_status = WExited u32 | WOther

definition report_wait :: "ScriptEngine \<Rightarrow> wait_status \<Rightarrow> script_event list" where
  "report_wait s st = (case st of WExited code \<Rightarrow> reportEvent s (SExitFirst code) | WOther \<Rightarrow> reportEvent s SError)"

section \<open>Reports\<close>

lemma fileLineFound_known:
  "sc_lineIdToAddress (fst (fileLineFound e s crc fn n)) (getLineId e fn n) \<noteq> None"
  by (auto simp: fileLineFound_def Let_def)

lemma fileLineFound_frame:
  "sc_listener (fst (fileLineFound e s crc fn n)) = sc_listener s"
  "sc_reportedFiles (fst (fileLineFound e s crc fn n)) = sc_reportedFiles s"
  "sc_lineIdToAddress s i = Some a \<Longrightarrow> sc_lineIdToAddress (fst (fileLineFound e s crc fn n)) i = Some a"
  by (auto simp: fileLineFound_def Let_def)

lemma report_lines_effect:
  "sc_listener (fst (report_lines e s crc fn ns)) = sc_listener s \<and>
   sc_reportedFiles (fst (report_lines e s crc fn ns)) = sc_reportedFiles s \<and>
   (\<forall>n \<in> set ns. sc_lineIdToAddress (fst (report_lines e s crc fn ns)) (getLineId e fn n) \<noteq> None) \<and>
   (\<forall>i a. sc_lineIdToAddress s i = Some a \<longrightarrow> sc_lineIdToAddress (fst (report_lines e s crc fn ns)) i = Some a)"
proof (induction ns arbitrary: s)
  case (Cons n ns)
  obtain s1 evs where s1: "fileLineFound e s crc fn n = (s1, evs)" by fastforce
  have k: "sc_lineIdToAddress s1 (getLineId e fn n) \<noteq> None" using fileLineFound_known [of e s crc fn n] s1 by simp
  note f = fileLineFound_frame [where e = e and s = s and crc = crc and fn = fn and n = n, unfolded s1 fst_conv]
  show ?case using Cons.IH [of s1] k f s1 by (auto split: prod.splits)
qed simp

lemma report_lines_known:
  "\<forall>n \<in> set ns. sc_lineIdToAddress s (getLineId e fn n) \<noteq> None \<Longrightarrow> report_lines e s crc fn ns = (s, [])"
  by (induction ns) (auto simp: fileLineFound_def Let_def)

text \<open>The ids of different lines of a file are different, and so are their addresses.\<close>

lemma bit_getLineId: "bit (getLineId e fn n) (32 + k) \<longleftrightarrow> k < 32 \<and> bit n k"
proof -
  have m: "(0xffffffff :: u64) = mask 32" by (simp add: mask_eq_exp_minus_1)
  show ?thesis unfolding getLineId_def m by (auto simp: bit_simps dest: bit_imp_le_length)
qed

lemma getLineId_inj: "getLineId e fn n = getLineId e fn m \<Longrightarrow> n = m"
proof (rule bit_word_eqI)
  fix k assume eq: "getLineId e fn n = getLineId e fn m" and "k < LENGTH(32)"
  then have k: "k < 32" by simp
  from eq bit_getLineId [of e fn n k] bit_getLineId [of e fn m k] k show "bit n k = bit m k" by simp
qed

lemma line_address_inj: "line_address c n = line_address c m \<Longrightarrow> n = m"
proof (rule bit_word_eqI)
  fix k assume eq: "line_address c n = line_address c m" and "k < LENGTH(32)"
  then have k: "k < 32" by simp
  have "bit (line_address c n) (32 + k) \<longleftrightarrow> bit n k" for n :: u32
    using k by (auto simp: line_address_def bit_simps dest: bit_imp_le_length)
  with eq show "bit n k = bit m k" by metis
qed

text \<open>Lines that are all new are all reported, in order.\<close>

lemma report_lines_new:
  assumes "distinct ns" "\<forall>n \<in> set ns. sc_lineIdToAddress s (getLineId e fn n) = None"
  shows "snd (report_lines e s crc fn ns) = map (\<lambda>n. SLine (c_str (se_rp e fn)) n (line_address crc n)) ns \<and>
    (\<forall>n \<in> set ns. sc_lineIdToAddress (fst (report_lines e s crc fn ns)) (getLineId e fn n) = Some (line_address crc n))"
  using assms
proof (induction ns arbitrary: s)
  case (Cons n ns)
  let ?s = "s\<lparr>sc_lineIdToAddress := (sc_lineIdToAddress s)(getLineId e fn n \<mapsto> line_address crc n)\<rparr>"
  have f: "fileLineFound e s crc fn n = (?s, [SLine (c_str (se_rp e fn)) n (line_address crc n)])"
    using Cons.prems(2) by (simp add: fileLineFound_def Let_def)
  have "\<forall>m \<in> set ns. sc_lineIdToAddress ?s (getLineId e fn m) = None"
    using Cons.prems getLineId_inj by fastforce
  from Cons.IH [OF _ this] Cons.prems(1)
  have ih: "snd (report_lines e ?s crc fn ns) = map (\<lambda>n. SLine (c_str (se_rp e fn)) n (line_address crc n)) ns"
    "\<forall>n \<in> set ns. sc_lineIdToAddress (fst (report_lines e ?s crc fn ns)) (getLineId e fn n) = Some (line_address crc n)"
    by simp_all
  have "sc_lineIdToAddress (fst (report_lines e ?s crc fn ns)) (getLineId e fn n) = Some (line_address crc n)"
    using report_lines_effect [of e ?s crc fn ns] by simp
  with f ih show ?case by (auto split: prod.splits)
qed simp

end
