(* ===== verification/Kcov_Bash.thy ===== *)
theory Kcov_Bash
  imports Kcov_Script
begin

text \<open>
  The bash engine (\<open>src/src/engines/bash-engine.cc\<close>): which lines of a script are code, and what it
  makes of the trace lines bash writes to its standard error.

  \<^item> \<open>bash_line\<close> is the body of the loop of \<open>parseFileFull\<close>: from the state of the parser and a line
    to whether the line is reported and the next state. \<open>basic_line\<close> is that of \<open>parseFileBasic\<close>.
  \<^item> \<open>BashEngine\<close> adds to the script engine the quoting state of the trace.
  \<^item> A line of the trace is an argument of \<open>checkEvents\<close>, \<open>None\<close> at the end of the pipe; what is
    echoed to the standard error is part of the result.
  \<^item> Starting and waiting for the child process and its pipes are not modelled.
\<close>

section \<open>Lines of a script\<close>

definition dquote :: char where
  "dquote = CHR 0x22"

definition squote :: char where
  "squote = CHR 0x27"

definition str_starts :: "string \<Rightarrow> string \<Rightarrow> bool" where
  "str_starts s p = (str_find s p = Some 0)"

definition found_before :: "string \<Rightarrow> string \<Rightarrow> nat \<Rightarrow> bool" where
  "found_before s p pos = (case str_find s p of None \<Rightarrow> False | Some i \<Rightarrow> i < pos)"

definition remove_comment :: "string \<Rightarrow> string" where
  "remove_comment s =
     (case str_find s ''#'' of
        None \<Rightarrow> s
      | Some comment \<Rightarrow>
          if (comment \<ge> 1 \<and> s ! (comment - 1) = CHR ''$'')
             \<or> (comment \<ge> 2 \<and> str_rfind_from s ''${'' comment \<noteq> None \<and> str_find_from s ''}'' comment \<noteq> None)
          then s
          else if comment \<ge> 1 \<and> (found_before s [dquote] comment \<or> found_before s [squote] comment)
          then s
          else str_substr (trim_string s) 0 comment)"

definition block_keywords :: "string list" where
  "block_keywords = [''esac'', ''fi'', ''do'', ''done'', ''else'', ''then'']"

text \<open>\<open>parseFileBasic\<close>\<close>

definition basic_line :: "string \<Rightarrow> bool" where
  "basic_line raw =
     (let s = remove_comment (trim_string raw)
      in if s = [] then False
         else if s \<in> set (block_keywords @ [''}'', ''{'', '')'', ''('']) then False
         else if str_starts s ''function'' then False
         else True)"

fun basic_lines :: "u32 \<Rightarrow> string list \<Rightarrow> u32 list" where
  "basic_lines lineNo [] = []"
| "basic_lines lineNo (l # ls) =
     (if basic_line l then (lineNo + 1) # basic_lines (lineNo + 1) ls else basic_lines (lineNo + 1) ls)"

text \<open>\<open>parseFileFull\<close>\<close>

datatype bash_state = BNone | BBackslash | BQuote | BHeredoc

record bash_parser =
  bp_state :: bash_state
  bp_caseActive :: bool
  bp_arithmeticActive :: bool
  bp_heredocMarker :: string

definition mk_bash_parser :: bash_parser where
  "mk_bash_parser =
     \<lparr> bp_state = BNone, bp_caseActive = False, bp_arithmeticActive = False, bp_heredocMarker = [] \<rparr>"

text \<open>\<open>s[s.size () - 1]\<close> on a string that is not empty, and \<open>s[0]\<close>, which is 0 on the empty string.\<close>

definition first_char :: "string \<Rightarrow> char" where
  "first_char s = (case s of [] \<Rightarrow> NUL | c # _ \<Rightarrow> c)"

fun function_end :: "string \<Rightarrow> nat \<Rightarrow> nat" where
  "function_end s 0 = 0"
| "function_end s (Suc n) = (if Suc n > 1 \<and> s ! n = CHR '' '' then function_end s n else Suc n)"

definition is_function :: "string \<Rightarrow> bool" where
  "is_function s =
     (case str_find s ''()'' of
        None \<Rightarrow> False
      | Some fnPos \<Rightarrow> \<not> str_contains (str_substr s 0 (function_end s fnPos)) '' '')"

text \<open>The lines that are skipped whatever the state.\<close>

definition never_code :: "string \<Rightarrow> bool" where
  "never_code s =
     (s = [] \<or> prefix '';;'' s \<or> s \<in> {''{'', ''}''} \<or> s \<in> {''('', '')''} \<or> s \<in> set block_keywords \<or>
      str_starts s ''function'' \<or> is_function s)"

definition heredoc_marker :: "string \<Rightarrow> nat \<Rightarrow> string" where
  "heredoc_marker s heredocStart =
     (let m = str_substr s (heredocStart + 2) (length s);
          m = (if first_char m = CHR ''-'' then drop 1 m else m);
          m = trim_string m;
          m = takeWhile (\<lambda>c. c \<noteq> CHR '' '' \<and> c \<noteq> CHR 0x09) m
      in if length m > 2 \<and> (first_char m = dquote \<or> first_char m = squote) \<and> first_char m = last m
         then str_substr m 1 (length m - 2) else m)"

text \<open>
  From the classification of the end of a line to the end of the loop body: case labels and
  arithmetic.
\<close>

definition bash_tail :: "bash_parser \<Rightarrow> string \<Rightarrow> bool \<times> bash_parser" where
  "bash_tail p s =
     (let p1 = (if str_starts s ''case'' then p\<lparr>bp_caseActive := True\<rparr>
                else if str_starts s ''esac'' then p\<lparr>bp_caseActive := False\<rparr> else p);
          p2 = (if str_contains s ''))'' \<or> str_contains s '']'' then p1\<lparr>bp_arithmeticActive := False\<rparr> else p1)
      in if bp_arithmeticActive p2 then (False, p2)
         else if bp_caseActive p2 \<and> last s = CHR '')'' \<and>
                 (case str_find s ''('' of None \<Rightarrow> True | Some i \<Rightarrow> i = 0)
         then (False, p2)
         else (True, p2))"

definition bash_code :: "bash_parser \<Rightarrow> string \<Rightarrow> bool \<times> bash_parser" where
  "bash_code p0 s =
     (let p = (if str_contains s ''$(('' \<or> str_contains s ''$['' then p0\<lparr>bp_arithmeticActive := True\<rparr> else p0)
      in if last s = CHR 0x5C then bash_tail (p\<lparr>bp_state := BBackslash\<rparr>) s
         else if (str_contains s [CHR ''='', dquote] \<or> str_contains s [CHR ''='', CHR '' '', dquote])
                 \<and> count_list s dquote = 1
         then (False, p\<lparr>bp_state := BQuote\<rparr>)
         else (case str_find s ''<<'' of
                 None \<Rightarrow> bash_tail p s
               | Some heredocStart \<Rightarrow>
                   if \<not> bp_arithmeticActive p \<and> \<not> str_starts s ''let '' \<and> \<not> str_contains s ''$((''
                      \<and> \<not> str_contains s ''))''
                   then (let m = heredoc_marker s heredocStart;
                             p1 = p\<lparr>bp_heredocMarker := m\<rparr>;
                             p2 = (if length m > 0 \<and> first_char m \<noteq> CHR ''<'' then p1\<lparr>bp_state := BHeredoc\<rparr> else p1)
                         in if trim_string (str_substr s 0 heredocStart) = ''done'' then (False, p2)
                            else bash_tail p2 s)
                   else bash_tail p s))"

definition heredoc_trim :: string where
  "heredoc_trim = [CHR '' '', CHR 0x09, CHR 0x0D, CHR 0x0A, CHR ''`'']"

definition bash_line :: "bash_parser \<Rightarrow> string \<Rightarrow> bool \<times> bash_parser" where
  "bash_line p raw =
     (let s = remove_comment (trim_string raw)
      in if never_code s then (False, p)
         else case bp_state p of
           BBackslash \<Rightarrow> (False, if last s \<noteq> CHR 0x5C then p\<lparr>bp_state := BNone\<rparr> else p)
         | BQuote \<Rightarrow> (if str_find s [dquote] = Some (length s - 1) then bash_code (p\<lparr>bp_state := BNone\<rparr>) s
                      else (False, p))
         | BHeredoc \<Rightarrow> (False, if trim_string_chars s heredoc_trim = bp_heredocMarker p
                               then p\<lparr>bp_state := BNone\<rparr> else p)
         | BNone \<Rightarrow> bash_code p s)"

fun full_lines :: "bash_parser \<Rightarrow> u32 \<Rightarrow> string list \<Rightarrow> u32 list" where
  "full_lines p lineNo [] = []"
| "full_lines p lineNo (l # ls) =
     (case bash_line p l of (code, p') \<Rightarrow>
        if code then (lineNo + 1) # full_lines p' (lineNo + 1) ls else full_lines p' (lineNo + 1) ls)"

definition bash_code_lines :: "bool \<Rightarrow> string list \<Rightarrow> u32 list" where
  "bash_code_lines use_basic ls = (if use_basic then basic_lines 0 ls else full_lines mk_bash_parser 0 ls)"

section \<open>The trace of a running script\<close>

datatype InputType = INPUT_NORMAL | INPUT_QUOTE | INPUT_SINGLE_QUOTE | INPUT_MULTILINE

fun getInputType :: "InputType \<Rightarrow> string \<Rightarrow> InputType" where
  "getInputType out [] = out"
| "getInputType out (c # s) =
     (if c = CHR 0x5C \<and> out = INPUT_NORMAL
      then (case s of [] \<Rightarrow> out | _ # s' \<Rightarrow> getInputType out s')
      else if c = squote
      then getInputType (if out = INPUT_NORMAL then INPUT_SINGLE_QUOTE else INPUT_NORMAL) s
      else getInputType out s)"

record BashEngine =
  be_script :: ScriptEngine
  be_inputType :: InputType

definition bash_parseFile :: "bool \<Rightarrow> script_env \<Rightarrow> ScriptEngine \<Rightarrow> string \<Rightarrow> ScriptEngine \<times> script_event list" where
  "bash_parseFile use_basic = script_parseFile (bash_code_lines use_basic)"

text \<open>\<open>string_to_integer\<close> cannot throw here: the string has been checked before.\<close>

definition bash_checkEvents ::
  "bool \<Rightarrow> script_env \<Rightarrow> BashEngine \<Rightarrow> string option \<Rightarrow> bool \<times> BashEngine \<times> script_event list \<times> string" where
  "bash_checkEvents use_basic e b curLine =
     (case curLine of
        None \<Rightarrow> (False, b, [], [])
      | Some line \<Rightarrow>
          let cur = c_str line
          in if be_inputType b = INPUT_SINGLE_QUOTE
             then (True, b\<lparr>be_inputType := getInputType (be_inputType b) cur\<rparr>, [], [])
             else case str_find cur ''kcov@'' of
               None \<Rightarrow> (True, b, [], cur)
             | Some kcovStr \<Rightarrow>
                 let b1 = b\<lparr>be_inputType := getInputType (be_inputType b) cur\<rparr>;
                     parts = split_string (drop kcovStr cur) ''@''
                 in if length parts < 3 then (True, b1, [], [])
                    else let filename = se_rp e (parts ! 1); lineNo = parts ! 2
                         in if str_contains filename ''bash-helper.sh'' then (True, b1, [], [])
                            else if str_contains filename ''bash-helper-debug-trap.sh'' then (True, b1, [], [])
                            else if \<not> string_is_integer lineNo 0 then (False, b1, [], [])
                            else case script_hit (bash_code_lines use_basic) e (be_script b1) filename
                                        (case string_to_integer lineNo 0 of Inl _ \<Rightarrow> 0 | Inr n \<Rightarrow> ucast n) of
                                   (s, evs) \<Rightarrow> (True, b1\<lparr>be_script := s\<rparr>, evs, []))"

text \<open>
  One round of the engine: the next line of the trace, and at its end the state of the child
  (\<open>None\<close> while it runs) and what was left in the pipe when it had exited.
\<close>

definition bash_continueExecution ::
  "bool \<Rightarrow> script_env \<Rightarrow> BashEngine \<Rightarrow> string option \<Rightarrow> wait_status option \<Rightarrow> string option \<Rightarrow>
   bool \<times> BashEngine \<times> script_event list \<times> string" where
  "bash_continueExecution use_basic e b curLine wait lastLine =
     (case bash_checkEvents use_basic e b curLine of (cont, b1, evs, out) \<Rightarrow>
        if cont then (True, b1, evs, out)
        else case wait of
          None \<Rightarrow> (True, b1, evs, out)
        | Some st \<Rightarrow>
            (case bash_checkEvents use_basic e b1 lastLine of (_, b2, evs', out') \<Rightarrow>
               (False, b2, evs @ evs' @ report_wait (be_script b2) st, out @ out')))"

section \<open>Which files are bash scripts\<close>

text \<open>The score of a file; the code reads 80 bytes of it whatever its size.\<close>

definition bash_matchParser :: "string \<Rightarrow> string \<Rightarrow> nat" where
  "bash_matchParser filename data =
     (let s = take 80 data
      in if length filename \<ge> 3 \<and> drop (length filename - 3) filename = ''.sh'' then 200
         else if str_contains s ''#!/bin/bash'' then 400
         else if str_contains s ''#!/bin/sh'' then 300
         else if str_contains s ''bash'' then 100
         else if str_contains s ''sh'' then 50
         else match_none)"

text \<open>
  \<open>parseDirectoryForFiles\<close>: the files of a tree that look like bash scripts, in the order of the
  directory entries.
\<close>

datatype dir_node = DFile string string | DDir string "dir_node list option"

fun parseDirectoryForFiles ::
  "bool \<Rightarrow> script_env \<Rightarrow> ScriptEngine \<Rightarrow> string \<Rightarrow> dir_node list \<Rightarrow> ScriptEngine \<times> script_event list" where
  "parseDirectoryForFiles ub e s base [] = (s, [])"
| "parseDirectoryForFiles ub e s base (DFile name data # ns) =
     (let cur = base @ ''/'' @ name;
          (s1, evs) = (if bash_matchParser cur data \<noteq> match_none then bash_parseFile ub e s cur else (s, []));
          (s2, evs') = parseDirectoryForFiles ub e s1 base ns
      in (s2, evs @ evs'))"
| "parseDirectoryForFiles ub e s base (DDir name sub # ns) =
     (let cur = base @ ''/'' @ name;
          (s1, evs) = (if name = ''.'' \<or> name = ''..'' then (s, [])
                       else case sub of None \<Rightarrow> (s, []) | Some ds \<Rightarrow> parseDirectoryForFiles ub e s cur ds);
          (s2, evs') = parseDirectoryForFiles ub e s1 base ns
      in (s2, evs @ evs'))"

text \<open>\<open>handleStdout\<close> without trace descriptor: the marker lines of a script are not shown.\<close>

definition shown_stdout :: "string list \<Rightarrow> string list" where
  "shown_stdout ls =
     filter (\<lambda>l. str_find (c_str l) ''kcov@'' \<noteq> Some 0 \<and> str_find (c_str l) ''kcov@'' \<noteq> Some 1) ls"

text \<open>The version \<open>major.minor\<close> of bash from which on the trace has a descriptor of its own.\<close>

definition bash_xtrace_version :: "int \<Rightarrow> int \<Rightarrow> bool" where
  "bash_xtrace_version major minor = (major > 4 \<or> (major = 4 \<and> minor \<ge> 2))"

end
