(* ===== verification/Kcov_Bash_Props.thy ===== *)
theory Kcov_Bash_Props
  imports Kcov_Bash
begin

text \<open>
  Properties of the bash engine: the line numbers it reports, the regions of a script that are no
  code, and the events of a trace line.
\<close>

section \<open>Line numbers\<close>

lemma unat_inc_small: "unat (n :: u32) + Suc k < 2 ^ 32 \<Longrightarrow> unat (n + 1) = Suc (unat n)"
  by (rule unat_inc) simp

lemma upt_step: "[Suc a..<Suc (a + Suc k)] = Suc a # [Suc (Suc a)..<Suc (Suc a + k)]"
  by (simp add: upt_conv_Cons)

lemma full_lines_numbers:
  "unat n + length ls < 2 ^ 32 \<Longrightarrow>
     subseq (map unat (full_lines p n ls)) [Suc (unat n)..<Suc (unat n + length ls)]"
proof (induction ls arbitrary: p n)
  case (Cons l ls)
  have n: "unat (n + 1) = Suc (unat n)" using Cons.prems by (intro unat_inc_small) simp
  obtain c p' where l: "bash_line p l = (c, p')" by fastforce
  have ih: "subseq (map unat (full_lines p' (n + 1) ls)) [Suc (Suc (unat n))..<Suc (Suc (unat n) + length ls)]"
    using Cons.IH [of "n + 1" p'] Cons.prems n by simp
  have "[Suc (unat n)..<Suc (unat n + length (l # ls))] =
      Suc (unat n) # [Suc (Suc (unat n))..<Suc (Suc (unat n) + length ls)]"
    using upt_step [of "unat n" "length ls"] by simp
  with ih l n show ?case by (auto simp del: upt_Suc)
qed simp

lemma basic_lines_numbers:
  "unat n + length ls < 2 ^ 32 \<Longrightarrow>
     subseq (map unat (basic_lines n ls)) [Suc (unat n)..<Suc (unat n + length ls)]"
proof (induction ls arbitrary: n)
  case (Cons l ls)
  have n: "unat (n + 1) = Suc (unat n)" using Cons.prems by (intro unat_inc_small) simp
  have ih: "subseq (map unat (basic_lines (n + 1) ls)) [Suc (Suc (unat n))..<Suc (Suc (unat n) + length ls)]"
    using Cons.IH [of "n + 1"] Cons.prems n by simp
  have "[Suc (unat n)..<Suc (unat n + length (l # ls))] =
      Suc (unat n) # [Suc (Suc (unat n))..<Suc (Suc (unat n) + length ls)]"
    using upt_step [of "unat n" "length ls"] by simp
  with ih n show ?case by (auto simp del: upt_Suc)
qed simp

lemma bash_code_lines_numbers:
  assumes "length ls < 2 ^ 32"
  shows "subseq (map unat (bash_code_lines ub ls)) [1..<Suc (length ls)]"
  using full_lines_numbers [of 0 ls mk_bash_parser] basic_lines_numbers [of 0 ls] assms
  by (simp add: bash_code_lines_def del: upt_Suc)

lemma bash_code_lines_distinct: "length ls < 2 ^ 32 \<Longrightarrow> distinct (bash_code_lines ub ls)"
proof -
  assume "length ls < 2 ^ 32"
  then obtain N where "map unat (bash_code_lines ub ls) = nths [1..<Suc (length ls)] N"
    using bash_code_lines_numbers subseq_conv_nths by blast
  then have "distinct (map unat (bash_code_lines ub ls))" by (simp del: upt_Suc)
  then show ?thesis by (simp add: distinct_map)
qed

section \<open>Regions that are no code\<close>

abbreviation clean_line :: "string \<Rightarrow> string" where
  "clean_line raw \<equiv> remove_comment (trim_string raw)"

lemma remove_comment_hash: "prefix ''#'' s \<Longrightarrow> remove_comment s = []"
  by (cases s) (auto simp: remove_comment_def str_substr_def)

lemma bash_line_never: "never_code (clean_line l) \<Longrightarrow> bash_line p l = (False, p)"
  by (simp add: bash_line_def Let_def)

text \<open>
  Blank lines and lines that hold nothing but a comment are no code, in both
  parsers, and leave the state of the parser alone, so they may stand anywhere.
\<close>

lemma bash_comment_no_code:
  assumes "trim_string l = [] \<or> prefix ''#'' (trim_string l)"
  shows "bash_line p l = (False, p) \<and> \<not> basic_line l"
proof -
  have "clean_line l = []" using assms remove_comment_hash by (auto simp: remove_comment_def)
  then show ?thesis by (simp add: bash_line_def never_code_def basic_line_def)
qed

lemma heredoc_body:
  assumes "bp_state p = BHeredoc"
    and "\<forall>l \<in> set body. trim_string_chars (clean_line l) heredoc_trim \<noteq> bp_heredocMarker p"
  shows "full_lines p n (body @ rest) = full_lines p (n + of_nat (length body)) rest"
  using assms(2)
proof (induction body arbitrary: n)
  case (Cons l body)
  have "bash_line p l = (False, p)" using Cons.prems assms(1) by (simp add: bash_line_def Let_def)
  with Cons.IH [of "n + 1"] Cons.prems show ?case by (simp add: ac_simps)
qed simp

text \<open>
  Inside a here document no line is code: from a line that puts the parser into the
  here-document state up to and including the first line that is the marker, and parsing goes on
  behind it in the ordinary state. (A marker that looks like a line the parser always skips,
  such as the word done, does not end the document; hence the premise on the last line.)
\<close>

lemma bash_heredoc_no_code:
  assumes "bash_line p0 l0 = (c, p)" "bp_state p = BHeredoc"
    and "\<forall>l \<in> set body. trim_string_chars (clean_line l) heredoc_trim \<noteq> bp_heredocMarker p"
    and "\<not> never_code (clean_line l1)" "trim_string_chars (clean_line l1) heredoc_trim = bp_heredocMarker p"
  shows "full_lines p0 n (l0 # body @ l1 # rest) =
     (if c then [n + 1] else []) @ full_lines (p\<lparr>bp_state := BNone\<rparr>) (n + of_nat (length body) + 2) rest"
proof -
  have "bash_line p l1 = (False, p\<lparr>bp_state := BNone\<rparr>)" using assms(2,4,5) by (simp add: bash_line_def Let_def)
  then have "full_lines p (n + 1) (body @ l1 # rest) =
      full_lines (p\<lparr>bp_state := BNone\<rparr>) (n + 1 + of_nat (length body) + 1) rest"
    using heredoc_body [OF assms(2,3), of "n + 1" "l1 # rest"] by simp
  moreover have "n + 1 + of_nat (length body) + 1 = n + of_nat (length body) + 2" by simp
  ultimately show ?thesis using assms(1) by simp
qed

definition demo_heredoc :: "bool \<times> bash_parser" where
  "demo_heredoc = bash_line mk_bash_parser ''cat <<EOF''"

lemma bash_heredoc_no_code_witness:
  "full_lines mk_bash_parser 0 (''cat <<EOF'' # [''exit 1'', ''x=2''] @ ''EOF'' # [''exit 0'']) = [1, 5]"
proof -
  have st: "fst demo_heredoc" "bp_state (snd demo_heredoc) = BHeredoc"
    "\<forall>l \<in> set [''exit 1'', ''x=2'']. trim_string_chars (clean_line l) heredoc_trim \<noteq> bp_heredocMarker (snd demo_heredoc)"
    "\<not> never_code (clean_line ''EOF'')" "trim_string_chars (clean_line ''EOF'') heredoc_trim = bp_heredocMarker (snd demo_heredoc)"
    "full_lines ((snd demo_heredoc)\<lparr>bp_state := BNone\<rparr>) 4 [''exit 0''] = [5]"
    by code_simp+
  have l: "bash_line mk_bash_parser ''cat <<EOF'' = (fst demo_heredoc, snd demo_heredoc)" by (simp add: demo_heredoc_def)
  from bash_heredoc_no_code [OF l st(2-5), of 0 "[''exit 0'']"] st(1,6) show ?thesis by simp
qed

text \<open>
  Of a command continued by backslashes only the first line can be code: the lines
  that follow are skipped up to and including the first one that does not end in a backslash.
\<close>

lemma bash_continuation_no_code:
  assumes "bp_state p = BBackslash"
    and "\<forall>l \<in> set cont. never_code (clean_line l) \<or> last (clean_line l) = CHR 0x5C"
    and "\<not> never_code (clean_line l1)" "last (clean_line l1) \<noteq> CHR 0x5C"
  shows "full_lines p n (cont @ l1 # rest) = full_lines (p\<lparr>bp_state := BNone\<rparr>) (n + of_nat (length cont) + 1) rest"
  using assms(2)
proof (induction cont arbitrary: n)
  case Nil
  have "bash_line p l1 = (False, p\<lparr>bp_state := BNone\<rparr>)" using assms(1,3,4) by (simp add: bash_line_def Let_def)
  then show ?case by simp
next
  case (Cons l cont)
  have "bash_line p l = (False, p)" using Cons.prems assms(1) by (auto simp: bash_line_def Let_def)
  with Cons.IH [of "n + 1"] Cons.prems show ?case by (simp add: ac_simps)
qed

text \<open>
  A block keyword followed by a comment keeps the blank before the comment, is then no longer one of
  the keywords, and is reported as code.
\<close>

lemma bash_keyword_with_comment:
  "fst (bash_line mk_bash_parser ''fi # end'')" "\<not> fst (bash_line mk_bash_parser ''fi'')"
  by code_simp+

section \<open>Trace lines\<close>

lemma split_cons: "d \<notin> set x \<Longrightarrow> split d (x @ d # r) = x # split d r"
proof -
  assume "d \<notin> set x"
  then have t: "takeWhile (\<lambda>c. c \<noteq> d) (x @ d # r) = x" by (auto simp: takeWhile_append)
  show ?thesis by (subst split.simps) (simp add: t)
qed

lemma c_str_append: "NUL \<notin> set s \<Longrightarrow> c_str s = s"
  by (rule c_str_id)

lemma script_hit_new:
  assumes "sc_listener s" "\<not> sc_reportedFiles s fn" "\<forall>n. sc_lineIdToAddress s (getLineId e fn n) = None"
    and "distinct (f (se_getLines e fn))"
  shows "\<exists>s'. script_hit f e s fn n =
     (s', SFile fn # map (\<lambda>n. SLine (c_str (se_rp e fn)) n (line_address (se_getCrc e fn) n)) (f (se_getLines e fn)) @
        [SBreakpoint (if n \<in> set (f (se_getLines e fn)) then line_address (se_getCrc e fn) n else 0)])"
proof -
  let ?ns = "f (se_getLines e fn)" and ?c = "se_getCrc e fn"
  let ?s = "s\<lparr>sc_reportedFiles := (sc_reportedFiles s)(fn := True)\<rparr>"
  have "\<forall>n \<in> set ?ns. sc_lineIdToAddress ?s (getLineId e fn n) = None" using assms(3) by simp
  note new = report_lines_new [OF assms(4) this, of ?c] and eff = report_lines_effect [of e ?s ?c fn ?ns]
  obtain s1 evs where s1: "report_lines e ?s ?c fn ?ns = (s1, evs)" by fastforce
  have other: "sc_lineIdToAddress s1 (getLineId e fn n) = None" if "n \<notin> set ?ns"
  proof -
    have "sc_lineIdToAddress (fst (report_lines e s c fn ns)) (getLineId e fn n) = sc_lineIdToAddress s (getLineId e fn n)"
      if "n \<notin> set ns" for s :: ScriptEngine and c ns
      using that
    proof (induction ns arbitrary: s)
      case (Cons k ns)
      obtain s2 evs2 where s2: "fileLineFound e s c fn k = (s2, evs2)" by fastforce
      have "sc_lineIdToAddress s2 (getLineId e fn n) = sc_lineIdToAddress s (getLineId e fn n)"
        using s2 Cons.prems getLineId_inj by (auto simp: fileLineFound_def Let_def split: if_splits)
      with Cons.IH [of s2] Cons.prems s2 show ?case by (auto split: prod.splits)
    qed simp
    from this [OF that, of ?s ?c] s1 assms(3) show ?thesis by simp
  qed
  have "script_hit f e s fn n = (s1, (SFile fn # evs) @ [SBreakpoint (if n \<in> set ?ns then line_address ?c n else 0)])"
    using assms(1,2) new eff s1 other by (auto simp: script_hit_def script_parseFile_def Let_def)
  with new s1 show ?thesis by simp
qed

text \<open>A decimal number without leading zero is read back whole.\<close>

lemma stoull_decimal:
  assumes "s \<noteq> []" "list_all (is_digit_in 10) s" "hd s \<noteq> CHR ''0''" "digits_value 10 s < 2 ^ 64"
  shows "stoull s 0 = Inr (of_nat (digits_value 10 s), length s)"
proof -
  obtain c t where s: "s = c # t" using assms(1) by (cases s) auto
  have d: "is_digit_in 10 c" using assms(2) s by simp
  have sp: "\<not> isspace c" and sg: "c \<noteq> CHR ''-''" "c \<noteq> CHR ''+''"
    using d by (auto simp: is_digit_in_def digit_val_def isspace_def Let_def split: if_splits)
  from sp have "takeWhile isspace s = []" using s by simp
  moreover have "\<not> hex_prefix s" using assms(3) s by (simp add: hex_prefix_def)
  moreover have tw: "takeWhile (is_digit_in 10) s = s" using assms(2) by (simp add: takeWhile_eq_all_conv list_all_iff)
  moreover have "hd s = c" using s by simp
  ultimately show ?thesis using assms sg unfolding stoull_def Let_def by (simp add: not_le tw del: power_numeral takeWhile_eq_all_conv)
qed

lemma bash_new_file_events:
  assumes "be_inputType b \<noteq> INPUT_SINGLE_QUOTE" "sc_listener (be_script b)"
    and "CHR ''@'' \<notin> set fn" "CHR ''@'' \<notin> set num" "NUL \<notin> set (fn @ num @ rest)"
    and "stoull num 0 = Inr (v, length num)"
    and "\<not> str_contains (se_rp e fn) ''bash-helper.sh''" "\<not> str_contains (se_rp e fn) ''bash-helper-debug-trap.sh''"
    and "\<not> sc_reportedFiles (be_script b) (se_rp e fn)"
    and "\<forall>n. sc_lineIdToAddress (be_script b) (getLineId e (se_rp e fn) n) = None"
    and "length (se_getLines e (se_rp e fn)) < 2 ^ 32"
  shows "\<exists>b'. bash_checkEvents ub e b (Some (''kcov@'' @ fn @ ''@'' @ num @ ''@'' @ rest)) =
     (True, b',
      SFile (se_rp e fn) #
      map (\<lambda>n. SLine (c_str (se_rp e (se_rp e fn))) n (line_address (se_getCrc e (se_rp e fn)) n))
        (bash_code_lines ub (se_getLines e (se_rp e fn))) @
      [SBreakpoint (if ucast v \<in> set (bash_code_lines ub (se_getLines e (se_rp e fn)))
                    then line_address (se_getCrc e (se_rp e fn)) (ucast v) else 0)], [])"
proof -
  let ?line = "''kcov@'' @ fn @ ''@'' @ num @ ''@'' @ rest" and ?f = "se_rp e fn"
  define t where "t = getInputType (be_inputType b) ?line"
  define b1 where "b1 = b\<lparr>be_inputType := t\<rparr>"
  have c: "c_str ?line = ?line" using assms(5) by (intro c_str_id) (simp add: NUL_def)
  have find: "str_find ?line ''kcov@'' = Some 0" by simp
  have parts: "split_string (drop 0 ?line) ''@'' = ''kcov'' # fn # num # split (CHR ''@'') rest"
    using split_cons [of "CHR ''@''" "''kcov''" "fn @ ''@'' @ num @ ''@'' @ rest"] split_cons [OF assms(3)] split_cons [OF assms(4)]
    by (simp add: split_string_def)
  have int: "string_is_integer num 0" "string_to_integer num 0 = Inr v"
    using assms(6) by (simp_all add: string_is_integer_def string_to_integer_def)
  obtain s' where s': "script_hit (bash_code_lines ub) e (be_script b1) ?f (ucast v) =
     (s', SFile ?f # map (\<lambda>n. SLine (c_str (se_rp e ?f)) n (line_address (se_getCrc e ?f) n))
        (bash_code_lines ub (se_getLines e ?f)) @
      [SBreakpoint (if ucast v \<in> set (bash_code_lines ub (se_getLines e ?f)) then line_address (se_getCrc e ?f) (ucast v) else 0)])"
    using script_hit_new [of "be_script b1" ?f e "bash_code_lines ub" "ucast v"] assms(2,9,10) bash_code_lines_distinct [OF assms(11)]
    by (auto simp: b1_def)
  have "bash_checkEvents ub e b (Some ?line) = (True, b1\<lparr>be_script := s'\<rparr>, snd (script_hit (bash_code_lines ub) e (be_script b1) ?f (ucast v)), [])"
    unfolding bash_checkEvents_def option.case Let_def c find parts t_def [symmetric] b1_def [symmetric]
    using assms(1,7,8) by (simp add: int s')
  with s' show ?thesis by simp
qed

text \<open>
  Property C36. A trace line kcov@FILE@LINE@... about a script that has not been seen before
  announces the file, reports each of its lines of code once, in order, with an address that is
  different for different lines, and then sends the hit of that line: its address when the
  line was taken for code, and address 0 otherwise. The record is well formed (no at sign or NUL in name and number),
  the file is none of kcov's own helpers, and the engine is not within a single-quoted string.
\<close>

theorem bash_trace_events:
  assumes "be_inputType b \<noteq> INPUT_SINGLE_QUOTE" "sc_listener (be_script b)"
    and "CHR ''@'' \<notin> set fn" "CHR ''@'' \<notin> set num" "NUL \<notin> set (fn @ num @ rest)"
    and "stoull num 0 = Inr (v, length num)"
    and "\<not> str_contains (se_rp e fn) ''bash-helper.sh''" "\<not> str_contains (se_rp e fn) ''bash-helper-debug-trap.sh''"
    and "\<not> sc_reportedFiles (be_script b) (se_rp e fn)"
    and "\<forall>n. sc_lineIdToAddress (be_script b) (getLineId e (se_rp e fn) n) = None"
    and "length (se_getLines e (se_rp e fn)) < 2 ^ 32"
  shows "\<exists>b'. bash_checkEvents ub e b (Some (''kcov@'' @ fn @ ''@'' @ num @ ''@'' @ rest)) =
     (True, b',
      SFile (se_rp e fn) #
      map (\<lambda>n. SLine (c_str (se_rp e (se_rp e fn))) n (line_address (se_getCrc e (se_rp e fn)) n))
        (bash_code_lines ub (se_getLines e (se_rp e fn))) @
      [SBreakpoint (if ucast v \<in> set (bash_code_lines ub (se_getLines e (se_rp e fn)))
                    then line_address (se_getCrc e (se_rp e fn)) (ucast v) else 0)], [])"
  by (rule bash_new_file_events [OF assms])

definition demo_script_env :: script_env where
  "demo_script_env =
     \<lparr> se_getLines = (\<lambda>_. [''#!/bin/bash'', ''ls'', ''exit 0'']), se_getCrc = (\<lambda>_. 9),
       se_std_hash = (\<lambda>s. of_nat (length s)), se_rp = (\<lambda>p. p) \<rparr>"

definition demo_bash :: BashEngine where
  "demo_bash = \<lparr> be_script = mk_ScriptEngine\<lparr>sc_listener := True\<rparr>, be_inputType = INPUT_NORMAL \<rparr>"

theorem bash_trace_events_witness:
  "\<exists>b'. bash_checkEvents False demo_script_env demo_bash (Some (''kcov@'' @ ''a.sh'' @ ''@'' @ ''2'' @ ''@'' @ ''ls'')) =
     (True, b', [SFile ''a.sh'', SLine ''a.sh'' 2 0x200000009, SLine ''a.sh'' 3 0x300000009, SBreakpoint 0x200000009], [])"
proof -
  have "be_inputType demo_bash \<noteq> INPUT_SINGLE_QUOTE" "sc_listener (be_script demo_bash)"
    "\<not> sc_reportedFiles (be_script demo_bash) (se_rp demo_script_env ''a.sh'')"
    by (simp_all add: demo_bash_def mk_ScriptEngine_def)
  moreover have "CHR ''@'' \<notin> set ''a.sh''" "CHR ''@'' \<notin> set ''2''" "NUL \<notin> set (''a.sh'' @ ''2'' @ ''ls'')"
    by (simp_all add: NUL_def)
  moreover have "\<not> str_contains (se_rp demo_script_env ''a.sh'') ''bash-helper.sh''"
    "\<not> str_contains (se_rp demo_script_env ''a.sh'') ''bash-helper-debug-trap.sh''" by code_simp+
  moreover have "stoull ''2'' 0 = Inr (2, length ''2'')"
    using stoull_decimal [of "''2''"] by (simp add: is_digit_in_def digit_val_def digits_value_def)
  moreover have "\<forall>n. sc_lineIdToAddress (be_script demo_bash) (getLineId demo_script_env (se_rp demo_script_env ''a.sh'') n) = None"
    "length (se_getLines demo_script_env (se_rp demo_script_env ''a.sh'')) < 2 ^ 32"
    by (simp_all add: demo_bash_def mk_ScriptEngine_def demo_script_env_def)
  moreover have "bash_code_lines False (se_getLines demo_script_env ''a.sh'') = [2, 3]" "se_rp demo_script_env ''a.sh'' = ''a.sh''"
    "c_str ''a.sh'' = ''a.sh''" "line_address (se_getCrc demo_script_env ''a.sh'') 2 = 0x200000009"
    "line_address (se_getCrc demo_script_env ''a.sh'') 3 = 0x300000009" by code_simp+
  ultimately show ?thesis
    using bash_trace_events [of demo_bash "''a.sh''" "''2''" "''ls''" 2 demo_script_env False] by simp
qed

text \<open>
  Parsing a script that has been parsed before reports nothing, so each line of code
  is reported to the listeners once.
\<close>

lemma bash_parseFile_once:
  "snd (bash_parseFile ub e (fst (bash_parseFile ub e s fn)) fn) = []"
proof (cases "sc_listener s")
  case True
  let ?ns = "bash_code_lines ub (se_getLines e fn)" and ?c = "se_getCrc e fn"
  have "\<forall>n \<in> set ?ns. sc_lineIdToAddress (fst (report_lines e s ?c fn ?ns)) (getLineId e fn n) \<noteq> None"
    using report_lines_effect [of e s ?c fn ?ns] by blast
  with report_lines_known [of ?ns "fst (report_lines e s ?c fn ?ns)" e fn ?c] True show ?thesis
    using report_lines_effect [of e s ?c fn ?ns] by (simp add: bash_parseFile_def script_parseFile_def)
qed (simp add: bash_parseFile_def script_parseFile_def)

end
