(* ===== verification/Kcov_Python.thy ===== *)
theory Kcov_Python
  imports Kcov_Script
begin

text \<open>
  The Python engine (\<open>src/src/engines/python-engine.cc\<close>) and the records its helper script
  (\<open>src/src/engines/python-helper.py\<close>) sends it.

  \<^item> \<open>python_line\<close> is the body of the loop of \<open>parseFile\<close>: from the state of the parser and a
    line to whether the line is reported and the next state.
  \<^item> The pipe is what a read can get from it: whether its end has been seen, whether it has data
    within the time-out, and the bytes up to the end.
  \<^item> \<open>readCoverageDatum\<close> gives \<open>None\<close> when the read runs over the end of the buffer, and otherwise
    the datum, if there is one, and the rest of the pipe.
  \<^item> Starting the child process and creating the pipe are not modelled.
\<close>

section \<open>Lines of a script\<close>

definition multilineIdx :: "string \<Rightarrow> nat option" where
  "multilineIdx s =
     (case str_find s (replicate 3 (CHR 0x27)) of
        None \<Rightarrow> str_find s (replicate 3 (CHR 0x22))
      | Some idx \<Rightarrow> Some idx)"

definition isStringDelimiter :: "char \<Rightarrow> bool" where
  "isStringDelimiter c = (c = CHR 0x27 \<or> c = CHR 0x22)"

definition isPythonString :: "string \<Rightarrow> bool" where
  "isPythonString s =
     (if length s < 2 then False
      else if \<not> isStringDelimiter (s ! 0) then False
      else if \<not> isStringDelimiter (s ! (length s - 1)) then False
      else if length (takeWhile isStringDelimiter s) = length s then False
      else True)"

datatype python_state = PStart | PMultiline

record python_parser =
  pp_state :: python_state
  pp_multiLineStartLine :: bool

definition mk_python_parser :: python_parser where
  "mk_python_parser = \<lparr> pp_state = PStart, pp_multiLineStartLine = False \<rparr>"

text \<open>The lines that are skipped before the state is looked at.\<close>

definition python_skipped :: "string \<Rightarrow> bool" where
  "python_skipped s =
     (if s = [] then True
      else if s ! 0 = CHR ''#'' then True
      else if s = ''}'' \<or> s = ''},'' then True
      else if s = '']'' \<or> s = ''],'' then True
      else if s = ''['' then True
      else if str_contains s ''else:'' then True
      else if str_contains s ''finally:'' then True
      else isPythonString s)"

definition python_line :: "python_parser \<Rightarrow> string \<Rightarrow> bool \<times> python_parser" where
  "python_line p raw =
     (let s = trim_string raw
      in if python_skipped s then (False, p)
         else case pp_state p of
           PStart \<Rightarrow>
             (case multilineIdx s of
                None \<Rightarrow> (True, p)
              | Some idx \<Rightarrow>
                  if multilineIdx (str_substr s (idx + 3) (length s)) = None
                  then (False, if idx > 0 then p\<lparr>pp_state := PMultiline, pp_multiLineStartLine := True\<rparr>
                               else p\<lparr>pp_state := PMultiline\<rparr>)
                  else (True, p))
         | PMultiline \<Rightarrow>
             (case multilineIdx s of
                None \<Rightarrow> (False, p)
              | Some _ \<Rightarrow> (pp_multiLineStartLine p, \<lparr> pp_state = PStart, pp_multiLineStartLine = False \<rparr>)))"

fun python_lines :: "python_parser \<Rightarrow> u32 \<Rightarrow> string list \<Rightarrow> u32 list" where
  "python_lines p lineNo [] = []"
| "python_lines p lineNo (l # ls) =
     (case python_line p l of (code, p') \<Rightarrow>
        if code then (lineNo + 1) # python_lines p' (lineNo + 1) ls else python_lines p' (lineNo + 1) ls)"

definition python_code_lines :: "string list \<Rightarrow> u32 list" where
  "python_code_lines ls = python_lines mk_python_parser 0 ls"

definition python_parseFile :: "script_env \<Rightarrow> ScriptEngine \<Rightarrow> string \<Rightarrow> ScriptEngine \<times> script_event list" where
  "python_parseFile = script_parseFile python_code_lines"

section \<open>The records of the helper\<close>

definition COVERAGE_MAGIC :: u64 where
  "COVERAGE_MAGIC = 0x6d6574616c6c6775"

definition sizeof_coverage_data :: nat where
  "sizeof_coverage_data = 16"

text \<open>The structure; \<open>cd_rest\<close> is what has been read into the flexible array member.\<close>

record coverage_data =
  cd_magic :: u64
  cd_size :: u32
  cd_line :: u32
  cd_rest :: "byte list"

definition unmarshalCoverageData :: "bool \<Rightarrow> byte list \<Rightarrow> coverage_data" where
  "unmarshalCoverageData le buf =
     \<lparr> cd_magic = get_be le (take 8 buf), cd_size = get_be le (take 4 (drop 8 buf)),
       cd_line = get_be le (take 4 (drop 12 buf)), cd_rest = [] \<rparr>"

definition readCoverageDatum ::
  "bool \<Rightarrow> bool \<Rightarrow> bool \<Rightarrow> byte list \<Rightarrow> nat \<Rightarrow> (coverage_data option \<times> byte list) option" where
  "readCoverageDatum le eof readable pipe totalSize =
     (if eof then Some (None, pipe)
      else if \<not> readable then Some (None, pipe)
      else let hdr = take sizeof_coverage_data pipe; rest = drop sizeof_coverage_data pipe
           in if length hdr < sizeof_coverage_data then Some (None, rest)
              else let p = unmarshalCoverageData le hdr
                   in if \<not> (cd_magic p = COVERAGE_MAGIC \<and> unat (cd_size p) < totalSize) then Some (None, rest)
                      else let remainder = ucast (cd_size p) - of_nat sizeof_coverage_data :: u64;
                               got = take (unat remainder) rest
                           in if sizeof_coverage_data + length got > totalSize then None
                              else if int (length got) < sint remainder then Some (None, drop (unat remainder) rest)
                              else Some (Some (p\<lparr>cd_rest := got\<rparr>), drop (unat remainder) rest))"

text \<open>The name in the record: it has to end within the bytes that were read.\<close>

definition datum_filename :: "coverage_data \<Rightarrow> string option" where
  "datum_filename p = map_option bytes_to_string (c_string_at (cd_rest p) 0)"

definition sizeof_buf :: nat where
  "sizeof_buf = 8192"

definition python_checkEvents ::
  "bool \<Rightarrow> script_env \<Rightarrow> ScriptEngine \<Rightarrow> bool \<Rightarrow> bool \<Rightarrow> byte list \<Rightarrow>
   (bool \<times> ScriptEngine \<times> script_event list \<times> byte list) option" where
  "python_checkEvents le e s eof readable pipe =
     (case readCoverageDatum le eof readable pipe sizeof_buf of
        None \<Rightarrow> None
      | Some (None, rest) \<Rightarrow> Some (False, s, reportEvent s SError, rest)
      | Some (Some p, rest) \<Rightarrow>
          (case datum_filename p of
             None \<Rightarrow> None
           | Some filename \<Rightarrow>
               (case script_hit python_code_lines e s filename (cd_line p) of
                  (s1, evs) \<Rightarrow> Some (True, s1, evs, rest))))"

definition python_continueExecution ::
  "bool \<Rightarrow> script_env \<Rightarrow> ScriptEngine \<Rightarrow> bool \<Rightarrow> bool \<Rightarrow> byte list \<Rightarrow> wait_status option \<Rightarrow>
   (bool \<times> ScriptEngine \<times> script_event list \<times> byte list) option" where
  "python_continueExecution le e s eof readable pipe wait =
     (case python_checkEvents le e s eof readable pipe of
        None \<Rightarrow> None
      | Some (True, s1, evs, rest) \<Rightarrow> Some (True, s1, evs, rest)
      | Some (False, s1, evs, rest) \<Rightarrow>
          (case wait of
             None \<Rightarrow> Some (True, s1, evs, rest)
           | Some st \<Rightarrow> Some (False, s1, evs @ report_wait s1 st, rest)))"

text \<open>The score of a file; the code reads 80 bytes of it whatever its size.\<close>

definition python_matchParser :: "string \<Rightarrow> string \<Rightarrow> nat" where
  "python_matchParser filename data =
     (let s = take 80 data
      in if length filename \<ge> 3 \<and> drop (length filename - 3) filename = ''.py'' then 200
         else if str_contains s ''python'' then 100
         else match_none)"

text \<open>
  \<open>report_trace_real\<close> of the helper: \<open>struct.pack\<close> cuts or pads the name to the given number of
  bytes and raises an exception, which is ignored, when a number does not fit. The encoding
  of the name is UTF-8 under Python 3 and none under Python 2.
\<close>

definition pack_s :: "nat \<Rightarrow> byte list \<Rightarrow> byte list" where
  "pack_s n bs = take n bs @ replicate (n - length bs) 0"

definition report_trace_real :: "('c list \<Rightarrow> byte list) \<Rightarrow> 'c list \<Rightarrow> nat \<Rightarrow> byte list option" where
  "report_trace_real encode fname line =
     (let size = length fname + 1 + 8 + 4 + 4
      in if size < 2 ^ 32 \<and> line < 2 ^ 32
         then Some (bytes_be COVERAGE_MAGIC @ bytes_be (of_nat size :: u32) @ bytes_be (of_nat line :: u32) @
                    pack_s (length fname) (encode fname) @ [0])
         else None)"

end
