(* ===== verification/Kcov_Python_Props.thy ===== *)
theory Kcov_Python_Props
  imports Kcov_Python
begin

text \<open>
  Correctness of the Python engine: the strings over several lines, the records of the helper and
  the memory safety of the read.
\<close>

section \<open>Strings over several lines\<close>

lemma python_line_inside:
  "pp_state p = PMultiline \<Longrightarrow> multilineIdx (trim_string l) = None \<Longrightarrow> python_line p l = (False, p)"
  by (simp add: python_line_def Let_def)

lemma python_lines_inside:
  "pp_state p = PMultiline \<Longrightarrow> \<forall>l \<in> set body. multilineIdx (trim_string l) = None \<Longrightarrow>
   python_lines p n (body @ ls) = python_lines p (n + of_nat (length body)) ls"
  by (induction body arbitrary: n) (simp_all add: python_line_inside add.assoc)

text \<open>
  A string over several lines: from the line that opens it, through lines
  without delimiter, to the line that closes it, no line is taken for code, except the closing
  line of a string that does not begin its line (an assignment), which is where Python reports
  the statement. After it the parser is where it was.
\<close>

lemma python_multiline_string:
  assumes "\<not> python_skipped (trim_string opening)" "multilineIdx (trim_string opening) = Some idx"
    and "multilineIdx (str_substr (trim_string opening) (idx + 3) (length (trim_string opening))) = None"
    and "\<forall>l \<in> set body. multilineIdx (trim_string l) = None"
    and "\<not> python_skipped (trim_string closing)" "multilineIdx (trim_string closing) \<noteq> None"
  shows "python_lines mk_python_parser n (opening # body @ closing # ls) =
    (if idx = 0 then [] else [n + 1 + of_nat (length body) + 1]) @
    python_lines mk_python_parser (n + 1 + of_nat (length body) + 1) ls"
proof -
  let ?p = "\<lparr> pp_state = PMultiline, pp_multiLineStartLine = idx > 0 \<rparr>"
  have 1: "python_line mk_python_parser opening = (False, ?p)"
    using assms(1-3) by (simp add: python_line_def Let_def mk_python_parser_def)
  have 2: "python_line ?p closing = (idx > 0, mk_python_parser)"
    using assms(5,6) by (auto simp: python_line_def Let_def mk_python_parser_def)
  show ?thesis using 1 2 python_lines_inside [OF _ assms(4), of ?p "n + 1"] by simp
qed

definition demo_doc :: "string list" where
  "demo_doc = [''x = '' @ replicate 3 (CHR 0x27), ''if a:'', replicate 3 (CHR 0x27), ''y = 1'']"

lemma python_multiline_string_witness:
  "python_lines mk_python_parser 0 demo_doc = [3, 4]"
proof -
  let ?o = "''x = '' @ replicate 3 (CHR 0x27)"
  have "\<not> python_skipped (trim_string ?o)" "multilineIdx (trim_string ?o) = Some 4"
    "multilineIdx (str_substr (trim_string ?o) (4 + 3) (length (trim_string ?o))) = None"
    "\<forall>l \<in> set [''if a:'']. multilineIdx (trim_string l) = None"
    "\<not> python_skipped (trim_string (replicate 3 (CHR 0x27)))" "multilineIdx (trim_string (replicate 3 (CHR 0x27))) \<noteq> None"
    by code_simp+
  from python_multiline_string [OF this, of 0 "[''y = 1'']"]
  have "python_lines mk_python_parser 0 demo_doc = 3 # python_lines mk_python_parser 3 [''y = 1'']"
    by (simp add: demo_doc_def numeral_3_eq_3)
  also have "python_lines mk_python_parser 3 [''y = 1''] = [4]" by code_simp
  finally show ?thesis .
qed

section \<open>The read of a record\<close>

lemma unat_remainder:
  "unat (ucast (x :: u32) - 16 :: u64) = (if 16 \<le> unat x then unat x - 16 else 2 ^ 64 - 16 + unat x)"
proof -
  have "unat (ucast x :: u64) = unat x" using unsigned_less [where w = x and ?'a = nat] by (simp add: unsigned_ucast_eq take_bit_nat_eq_self)
  then show ?thesis by (simp add: unat_sub_if' size_word.rep_eq)
qed

text \<open>
  The read of a record runs over its 8192-byte buffer exactly when the header is
  complete and has the right magic, the record claims to be smaller than its own header and more
  than 8192 bytes are in the pipe; all other contents of the pipe are handled within the buffer.
\<close>

lemma python_read_overflow:
  "readCoverageDatum le eof readable pipe sizeof_buf = None \<longleftrightarrow>
     \<not> eof \<and> readable \<and> sizeof_buf < length pipe \<and>
     cd_magic (unmarshalCoverageData le pipe) = COVERAGE_MAGIC \<and>
     unat (cd_size (unmarshalCoverageData le pipe)) < sizeof_coverage_data"
proof -
  let ?p = "unmarshalCoverageData le pipe" and ?rest = "drop 16 pipe"
  have p: "unmarshalCoverageData le (take 16 pipe) = ?p"
    by (simp add: unmarshalCoverageData_def min_def drop_take)
  define m where "m = unat (ucast (cd_size ?p) - 16 :: u64)"
  have m: "m = (if 16 \<le> unat (cd_size ?p) then unat (cd_size ?p) - 16 else 2 ^ 64 - 16 + unat (cd_size ?p))"
    unfolding m_def by (rule unat_remainder)
  have "readCoverageDatum le eof readable pipe sizeof_buf = None \<longleftrightarrow>
     \<not> eof \<and> readable \<and> 16 \<le> length pipe \<and> cd_magic ?p = COVERAGE_MAGIC \<and> unat (cd_size ?p) < 8192 \<and>
     16 + length (take m ?rest) > 8192"
    by (auto simp: readCoverageDatum_def Let_def sizeof_coverage_data_def sizeof_buf_def p m_def [symmetric] min_def)
  also have "\<dots> \<longleftrightarrow> \<not> eof \<and> readable \<and> 8192 < length pipe \<and> cd_magic ?p = COVERAGE_MAGIC \<and> unat (cd_size ?p) < 16"
    by (cases "16 \<le> unat (cd_size ?p)") (auto simp: m min_def)
  finally show ?thesis by (simp add: sizeof_buf_def sizeof_coverage_data_def)
qed

lemma sint_small:
  assumes "unat (x :: u64) < 2 ^ 63"
  shows "sint x = int (unat x)"
proof -
  have "uint x = int (unat x)" by simp
  moreover have "int (unat x) < 2 ^ 63" using assms of_nat_less_iff [where ?'a = int and m = "unat x" and n = "2 ^ 63"]
    by (simp only: of_nat_power of_nat_numeral)
  ultimately have "uint x < 2 ^ 63" by simp
  moreover have "- (2 ^ 63) \<le> uint x" by (rule order_trans [OF _ unsigned_greater_eq]) simp
  ultimately have "signed_take_bit 63 (uint x) = uint x" by (intro signed_take_bit_int_eq_self)
  then show ?thesis by (simp add: sint_uint)
qed

text \<open>A record the helper has written is read back.\<close>

lemma readCoverageDatum_record:
  assumes "report_trace_real string_to_bytes fn n = Some bs" "NUL \<notin> set fn" "length fn + 17 < sizeof_buf"
  shows "\<exists>p. readCoverageDatum le False True (bs @ rest) sizeof_buf = Some (Some p, rest) \<and>
    datum_filename p = Some fn \<and> cd_line p = of_nat n"
proof -
  let ?sz = "of_nat (length fn + 17) :: u32" and ?tail = "string_to_bytes fn @ [0]"
  have be: "put_be le (x :: u64) = bytes_be x" "put_be le (y :: u32) = bytes_be y" for x y
    by (rule put_be_eq; simp)+
  have bs: "bs = put_be le COVERAGE_MAGIC @ put_be le ?sz @ put_be le (of_nat n :: u32) @ ?tail"
    using assms(1) by (auto simp: report_trace_real_def Let_def pack_s_def be ac_simps split: if_splits)
  have sz: "unat ?sz = length fn + 17" using assms(3) by (intro unat_of_nat_small) (simp add: sizeof_buf_def)
  define hdr where "hdr = put_be le COVERAGE_MAGIC @ put_be le ?sz @ put_be le (of_nat n :: u32)"
  have len: "length hdr = 16" by (simp add: hdr_def)
  have u: "unmarshalCoverageData le hdr = \<lparr> cd_magic = COVERAGE_MAGIC, cd_size = ?sz, cd_line = of_nat n, cd_rest = [] \<rparr>"
    by (simp add: unmarshalCoverageData_def hdr_def)
  have bs': "bs @ rest = hdr @ ?tail @ rest" by (simp add: bs hdr_def)
  have hd: "take 16 (hdr @ ?tail @ rest) = hdr" and tl: "drop 16 (hdr @ ?tail @ rest) = ?tail @ rest" using len by simp_all
  note cd = coverage_data.select_convs
  let ?r = "ucast ?sz - 16 :: u64"
  have r': "(of_nat 16 :: u64) = 16" by simp
  have r: "unat ?r = length fn + 1" using unat_remainder [of ?sz] sz by simp
  have s: "sint ?r = int (length fn + 1)"
    using r assms(3) sint_small [of ?r] by (simp add: sizeof_buf_def)
  have "readCoverageDatum le False True (bs @ rest) sizeof_buf = Some (Some
      \<lparr> cd_magic = COVERAGE_MAGIC, cd_size = ?sz, cd_line = of_nat n, cd_rest = ?tail \<rparr>, rest)"
    unfolding bs' readCoverageDatum_def Let_def sizeof_coverage_data_def hd tl u cd r'
    using assms(3) len by (simp add: sz r s del: of_nat_add)
  moreover have "c_string_at ?tail 0 = Some (string_to_bytes fn)"
    using c_string_at_middle [of "[]" 0 "string_to_bytes fn" "[]"] string_to_bytes_no_zero [OF assms(2)] by simp
  ultimately show ?thesis by (simp add: datum_filename_def)
qed

text \<open>Rounds of \<open>checkEvents\<close> while the pipe has data, and the hits one after the other.\<close>

fun python_rounds ::
  "bool \<Rightarrow> script_env \<Rightarrow> nat \<Rightarrow> ScriptEngine \<Rightarrow> byte list \<Rightarrow> (ScriptEngine \<times> script_event list \<times> byte list) option" where
  "python_rounds le e 0 s pipe = Some (s, [], pipe)"
| "python_rounds le e (Suc k) s pipe =
     (case python_checkEvents le e s False True pipe of
        Some (True, s1, evs, rest) \<Rightarrow>
          map_option (\<lambda>(s2, evs', rest'). (s2, evs @ evs', rest')) (python_rounds le e k s1 rest)
      | _ \<Rightarrow> None)"

fun python_hits :: "script_env \<Rightarrow> ScriptEngine \<Rightarrow> (string \<times> nat) list \<Rightarrow> ScriptEngine \<times> script_event list" where
  "python_hits e s [] = (s, [])"
| "python_hits e s ((fn, n) # hs) =
     (case script_hit python_code_lines e s fn (of_nat n) of
        (s1, evs) \<Rightarrow> (case python_hits e s1 hs of (s2, evs') \<Rightarrow> (s2, evs @ evs')))"

text \<open>
  Property C35. Whatever lines of files with plain names the traced program runs through, the engine reads one
  record of the helper per round and makes of it the hit of that file and line, in the order in which they were
  run, and leaves the rest of the pipe untouched. A name is plain when each of its characters is one byte (ASCII), none
  is NUL, and the record with the name fits the engine's buffer of 8192 bytes; the helper could pack each record. (A
  name whose encoding is longer than it has characters is cut, see \<open>python_name_cut\<close>.)
\<close>

theorem python_stream:
  assumes "list_all2 (\<lambda>(fn, n) r. report_trace_real string_to_bytes fn n = Some r) hs recs"
    and "\<forall>(fn, n) \<in> set hs. NUL \<notin> set fn \<and> length fn + 17 < sizeof_buf"
  shows "python_rounds le e (length hs) s (concat recs @ rest) =
    Some (fst (python_hits e s hs), snd (python_hits e s hs), rest)"
  using assms
proof (induction arbitrary: s rule: list_all2_induct)
  case (Cons h hs r recs)
  obtain fn n where h: "h = (fn, n)" by fastforce
  have "NUL \<notin> set fn" "length fn + 17 < sizeof_buf" "report_trace_real string_to_bytes fn n = Some r"
    using Cons.hyps(1) Cons.prems h by auto
  from readCoverageDatum_record [OF this(3,1,2), of le "concat recs @ rest"]
  obtain p where p: "readCoverageDatum le False True (r @ concat recs @ rest) sizeof_buf = Some (Some p, concat recs @ rest)"
    "datum_filename p = Some fn" "cd_line p = of_nat n" by blast
  obtain s1 evs where s1: "script_hit python_code_lines e s fn (of_nat n) = (s1, evs)" by fastforce
  have "python_checkEvents le e s False True (r @ concat recs @ rest) = Some (True, s1, evs, concat recs @ rest)"
    using p s1 by (simp add: python_checkEvents_def)
  with Cons.IH [of s1] Cons.prems h s1 show ?case by (auto split: prod.splits)
qed simp

definition demo_python_env :: script_env where
  "demo_python_env =
     \<lparr> se_getLines = (\<lambda>_. [''import os'', ''x = 1'']), se_getCrc = (\<lambda>_. 5), se_std_hash = (\<lambda>s. of_nat (length s)),
       se_rp = (\<lambda>p. p) \<rparr>"

theorem python_stream_witness:
  "\<exists>bs s. python_rounds True demo_python_env 1 (mk_ScriptEngine\<lparr>sc_listener := True\<rparr>) (bs @ [7]) =
     Some (s, [SFile ''a.py'', SLine ''a.py'' 1 0x100000005, SLine ''a.py'' 2 0x200000005, SBreakpoint 0x200000005], [7])"
proof -
  let ?s = "mk_ScriptEngine\<lparr>sc_listener := True\<rparr>" and ?h = "[(''a.py'', 2 :: nat)]"
  obtain r where r: "report_trace_real string_to_bytes ''a.py'' 2 = Some r" by (simp add: report_trace_real_def Let_def)
  have "list_all2 (\<lambda>(fn, n) r. report_trace_real string_to_bytes fn n = Some r) ?h [r]" using r by simp
  moreover have "\<forall>(fn, n) \<in> set ?h. NUL \<notin> set fn \<and> length fn + 17 < sizeof_buf" by (simp add: NUL_def sizeof_buf_def)
  moreover have "snd (python_hits demo_python_env ?s ?h) =
      [SFile ''a.py'', SLine ''a.py'' 1 0x100000005, SLine ''a.py'' 2 0x200000005, SBreakpoint 0x200000005]" by code_simp
  ultimately have "python_rounds True demo_python_env 1 ?s (concat [r] @ [7]) =
     Some (fst (python_hits demo_python_env ?s ?h),
       [SFile ''a.py'', SLine ''a.py'' 1 0x100000005, SLine ''a.py'' 2 0x200000005, SBreakpoint 0x200000005], [7])"
    using python_stream [of ?h "[r]" True demo_python_env ?s "[7]"] by simp
  then show ?thesis by blast
qed

text \<open>
  A name that is longer in its encoding than in characters is cut by the helper: the engine is
  told of another file.
\<close>

lemma python_name_cut:
  assumes "length (encode fname) > length fname" "length fname + 17 < 2 ^ 32" "line < 2 ^ 32"
  shows "\<exists>hdr. length hdr = 16 \<and>
    report_trace_real encode fname line = Some (hdr @ take (length fname) (encode fname) @ [0])"
  using assms
  by (intro exI [of _ "bytes_be COVERAGE_MAGIC @ bytes_be (of_nat (length fname + 1 + 8 + 4 + 4) :: u32) @ bytes_be (of_nat line :: u32)"])
    (simp add: report_trace_real_def Let_def pack_s_def)

end
