(* ===== verification/Kcov_Collector.thy ===== *)
theory Kcov_Collector
  imports Kcov_Filter
begin

text \<open>
  The collector (\<open>src/src/collector.cc\<close>), which runs an engine and hands the addresses it hits on
  to its listeners, and the choice of a parser and an engine for a file
  (\<open>src/src/parser-manager.cc\<close>, \<open>src/src/engine-factory.cc\<close>).

  \<^item> Listeners are numbered; \<open>col_out\<close> is what the collector does to them and to the engine.
  \<^item> An engine is a function from its state to whether it wants to go on, the events of the round
    and its next state; the loop of \<open>run\<close> need not end, so \<open>collector_loop\<close> is a partial function.
  \<^item> The lines the parser reports in \<open>parse\<close> are an argument of \<open>run\<close>.
  \<^item> The debugging output of \<open>onEvent\<close> is not modelled.
\<close>

section \<open>Events\<close>

datatype event_type = ev_error | ev_breakpoint | ev_signal | ev_exit | ev_exit_first_process | ev_signal_exit

record Event =
  ev_type :: event_type
  ev_data :: u32
  ev_addr :: u64

definition mk_Event :: "event_type \<Rightarrow> u32 \<Rightarrow> u64 \<Rightarrow> Event" where
  "mk_Event t d a = \<lparr> ev_type = t, ev_data = d, ev_addr = a \<rparr>"

section \<open>The collector\<close>

record collector_conf =
  cc_daemonize_on_first_process_exit :: bool
  cc_target_directory :: string

datatype col_out =
    CAddressHit nat u64 u64
  | CTick nat
  | CRegisterBreakpoint u64
  | CWriteFile string string

record Collector =
  cl_listeners :: "nat list"
  cl_eventTickListeners :: "nat list"
  cl_exitCode :: u32
  cl_signalExit :: bool

definition mk_Collector :: Collector where
  "mk_Collector = \<lparr> cl_listeners = [], cl_eventTickListeners = [], cl_exitCode = - 1, cl_signalExit = False \<rparr>"

definition registerListener :: "Collector \<Rightarrow> nat \<Rightarrow> Collector" where
  "registerListener c l = c\<lparr>cl_listeners := cl_listeners c @ [l]\<rparr>"

definition registerEventTickListener :: "Collector \<Rightarrow> nat \<Rightarrow> Collector" where
  "registerEventTickListener c l = c\<lparr>cl_eventTickListeners := cl_eventTickListeners c @ [l]\<rparr>"

definition collector_tick :: "Collector \<Rightarrow> col_out list" where
  "collector_tick c = map CTick (cl_eventTickListeners c)"

definition onEvent :: "collector_conf \<Rightarrow> Collector \<Rightarrow> Event \<Rightarrow> Collector \<times> col_out list" where
  "onEvent cf c ev =
     (case ev_type ev of
        ev_error \<Rightarrow> (c, [])
      | ev_signal \<Rightarrow> (c, [])
      | ev_signal_exit \<Rightarrow> (c\<lparr>cl_exitCode := ev_data ev, cl_signalExit := True\<rparr>, [])
      | ev_exit_first_process \<Rightarrow>
          (c\<lparr>cl_exitCode := ev_data ev\<rparr>,
           if cc_daemonize_on_first_process_exit cf
           then [CWriteFile (fmt_u (ev_data ev)) (cc_target_directory cf @ ''/done.fifo'')] else [])
      | ev_exit \<Rightarrow> (if \<not> cl_signalExit c then c\<lparr>cl_exitCode := ev_data ev\<rparr> else c, [])
      | ev_breakpoint \<Rightarrow> (c, map (\<lambda>l. CAddressHit l (ev_addr ev) 1) (cl_listeners c)))"

fun onEvents :: "collector_conf \<Rightarrow> Collector \<Rightarrow> Event list \<Rightarrow> Collector \<times> col_out list" where
  "onEvents cf c [] = (c, [])"
| "onEvents cf c (ev # evs) =
     (case onEvent cf c ev of (c1, outs) \<Rightarrow> (case onEvents cf c1 evs of (c2, outs') \<Rightarrow> (c2, outs @ outs')))"

definition collector_onLine :: "(string \<Rightarrow> bool) \<Rightarrow> string \<Rightarrow> u64 \<Rightarrow> col_out list" where
  "collector_onLine run_filters fname addr = (if \<not> run_filters fname then [] else [CRegisterBreakpoint addr])"

text \<open>The loop of \<open>run\<close>\<close>

partial_function (option) collector_loop ::
  "('e \<Rightarrow> bool \<times> Event list \<times> 'e) \<Rightarrow> collector_conf \<Rightarrow> Collector \<Rightarrow> 'e \<Rightarrow> (Collector \<times> col_out list) option" where
  "collector_loop continueExecution cf c e =
     (case continueExecution e of (shouldContinue, evs, e') \<Rightarrow>
        (case onEvents cf c evs of (c1, outs) \<Rightarrow>
           if \<not> shouldContinue then Some (c1, outs @ collector_tick c1)
           else Option.bind (collector_loop continueExecution cf c1 e')
                  (\<lambda>(c2, outs'). Some (c2, outs @ collector_tick c1 @ outs'))))"

definition collector_run ::
  "('e \<Rightarrow> bool \<times> Event list \<times> 'e) \<Rightarrow> collector_conf \<Rightarrow> (string \<Rightarrow> bool) \<Rightarrow> bool \<Rightarrow> (string \<times> u32 \<times> u64) list \<Rightarrow>
   Collector \<Rightarrow> 'e \<Rightarrow> (u32 \<times> Collector \<times> col_out list) option" where
  "collector_run continueExecution cf run_filters started lines c e =
     (if \<not> started then Some (- 1, c, [])
      else Option.bind (collector_loop continueExecution cf c e)
             (\<lambda>(c1, outs). Some (cl_exitCode c1, c1,
                concat (map (\<lambda>(fname, _, addr). collector_onLine run_filters fname addr) lines) @ outs)))"

section \<open>The parser and the engine for a file\<close>

text \<open>
  A registered parser is its \<open>matchParser\<close>: from the name and the first bytes to a score. The
  result is the position of the parser; \<open>preVal\<close> starts at the greatest value but is not looked at
  before there is a best parser.
\<close>

fun matchParser_loop ::
  "string \<Rightarrow> string \<Rightarrow> (string \<Rightarrow> string \<Rightarrow> nat) list \<Rightarrow> nat \<Rightarrow> nat option \<Rightarrow> nat \<Rightarrow> nat option" where
  "matchParser_loop fileName data [] i best preVal = best"
| "matchParser_loop fileName data (p # ps) i best preVal =
     (let myVal = p fileName data
      in if myVal = 0 then matchParser_loop fileName data ps (Suc i) best preVal
         else if best = None \<or> myVal > preVal then matchParser_loop fileName data ps (Suc i) (Some i) myVal
         else matchParser_loop fileName data ps (Suc i) best preVal)"

definition matchParser ::
  "(string \<Rightarrow> string option) \<Rightarrow> (string \<Rightarrow> string \<Rightarrow> nat) list \<Rightarrow> string \<Rightarrow> nat option" where
  "matchParser peek_file parsers fileName =
     (case peek_file fileName of
        None \<Rightarrow> None
      | Some data \<Rightarrow> matchParser_loop fileName data parsers 0 None (2 ^ 64 - 1))"

text \<open>
  \<open>matchEngine\<close> scores the best engine anew at each step; an empty list of engines is a panic
  (\<open>None\<close>). The data is what could be read of the file, if anything.
\<close>

fun matchEngine_loop :: "nat list \<Rightarrow> nat \<Rightarrow> (nat \<times> nat) option \<Rightarrow> (nat \<times> nat) option" where
  "matchEngine_loop [] i best = best"
| "matchEngine_loop (v # vs) i best =
     (let b = (case best of None \<Rightarrow> (i, v) | Some b \<Rightarrow> b)
      in matchEngine_loop vs (Suc i) (Some (if v > snd b then (i, v) else b)))"

definition matchEngine ::
  "(string \<Rightarrow> string option) \<Rightarrow> (string \<Rightarrow> string option \<Rightarrow> nat) list \<Rightarrow> string \<Rightarrow> nat option" where
  "matchEngine peek_file engines fileName =
     map_option fst (matchEngine_loop (map (\<lambda>m. m fileName (peek_file fileName)) engines) 0 None)"

end
