(* ===== verification/Kcov_Collector_Props.thy ===== *)
theory Kcov_Collector_Props
  imports Kcov_Collector
begin

text \<open>
  Correctness of the collector: it returns exactly when the engine stops, with the exit status
  of the traced program, and every listener sees every breakpoint once, in order. Correctness of
  the choice of a parser and an engine: the first of those with the best score.
\<close>

section \<open>Runs of an engine\<close>

text \<open>The events of each round until the engine stops.\<close>

inductive rounds :: "('e \<Rightarrow> bool \<times> Event list \<times> 'e) \<Rightarrow> 'e \<Rightarrow> Event list list \<Rightarrow> bool" for cont where
  last_round: "cont e = (False, evs, e') \<Longrightarrow> rounds cont e [evs]"
| more_rounds: "cont e = (True, evs, e') \<Longrightarrow> rounds cont e' evss \<Longrightarrow> rounds cont e (evs # evss)"

fun round_outs :: "collector_conf \<Rightarrow> Collector \<Rightarrow> Event list list \<Rightarrow> col_out list" where
  "round_outs cf c [] = []"
| "round_outs cf c (evs # evss) =
     snd (onEvents cf c evs) @ collector_tick (fst (onEvents cf c evs)) @ round_outs cf (fst (onEvents cf c evs)) evss"

lemma onEvents_append:
  "onEvents cf c (xs @ ys) =
     (fst (onEvents cf (fst (onEvents cf c xs)) ys), snd (onEvents cf c xs) @ snd (onEvents cf (fst (onEvents cf c xs)) ys))"
  by (induction xs arbitrary: c) (auto split: prod.splits)

lemma collector_loop_rounds:
  "rounds cont e evss \<Longrightarrow>
   collector_loop cont cf c e = Some (fst (onEvents cf c (concat evss)), round_outs cf c evss)"
proof (induction arbitrary: c rule: rounds.induct)
  case (last_round e evs e')
  then show ?case by (simp add: collector_loop.simps split: prod.splits)
next
  case (more_rounds e evs e' evss)
  obtain c1 outs where c1: "onEvents cf c evs = (c1, outs)" by fastforce
  show ?case
    using more_rounds.hyps(1) more_rounds.IH [of c1] c1
    by (subst collector_loop.simps) (simp add: onEvents_append)
qed

text \<open>Conversely, a loop that returns has gone through such rounds.\<close>

lemma collector_loop_stops:
  assumes "collector_loop cont cf c e = Some r"
  shows "\<exists>evss. rounds cont e evss"
proof (rule collector_loop.raw_induct [OF _ assms, where P = "\<lambda>cont cf c e r. \<exists>evss. rounds cont e evss"])
  fix loop and cont :: "'a \<Rightarrow> bool \<times> Event list \<times> 'a" and cf c e and r :: "Collector \<times> col_out list"
  assume ih: "\<And>cont cf c e r. loop cont cf c e = Some r \<Longrightarrow> \<exists>evss. rounds cont e evss"
    and eq: "(case cont e of (again, evs, e') \<Rightarrow> case onEvents cf c evs of (c1, outs) \<Rightarrow>
      if \<not> again then Some (c1, outs @ collector_tick c1)
      else Option.bind (loop cont cf c1 e') (\<lambda>(c2, outs'). Some (c2, outs @ collector_tick c1 @ outs'))) = Some r"
  obtain again evs e' where ce: "cont e = (again, evs, e')" by (metis prod_cases3)
  obtain c1 outs where c1: "onEvents cf c evs = (c1, outs)" by fastforce
  show "\<exists>evss. rounds cont e evss"
  proof (cases again)
    case True
    with eq ce c1 obtain r' where "loop cont cf c1 e' = Some r'" by (auto split: bind_splits)
    from ih [OF this] obtain evss where "rounds cont e' evss" by blast
    with ce True show ?thesis using more_rounds [of cont e evs e' evss] by auto
  next
    case False
    with ce show ?thesis using last_round [of cont e evs e'] by auto
  qed
qed

section \<open>The exit status\<close>

definition sets_status :: "Event list \<Rightarrow> nat \<Rightarrow> bool" where
  "sets_status evs i =
     (i < length evs \<and>
      (ev_type (evs ! i) \<in> {ev_signal_exit, ev_exit_first_process} \<or>
       ev_type (evs ! i) = ev_exit \<and> (\<forall>j < i. ev_type (evs ! j) \<noteq> ev_signal_exit)))"

lemma signalExit_onEvents:
  "cl_signalExit (fst (onEvents cf c evs)) \<longleftrightarrow> cl_signalExit c \<or> (\<exists>ev \<in> set evs. ev_type ev = ev_signal_exit)"
proof (induction evs arbitrary: c)
  case (Cons ev evs)
  obtain c1 outs where c1: "onEvent cf c ev = (c1, outs)" by fastforce
  have "cl_signalExit c1 \<longleftrightarrow> cl_signalExit c \<or> ev_type ev = ev_signal_exit"
    using c1 by (auto simp: onEvent_def split: event_type.splits if_splits)
  with Cons.IH [of c1] c1 show ?case by (auto split: prod.splits)
qed simp

lemma sets_status_append:
  "sets_status (evs @ [ev]) i \<longleftrightarrow>
     (if i = length evs
      then ev_type ev \<in> {ev_signal_exit, ev_exit_first_process} \<or>
           ev_type ev = ev_exit \<and> (\<forall>e \<in> set evs. ev_type e \<noteq> ev_signal_exit)
      else sets_status evs i)"
  by (auto simp: sets_status_def nth_append all_set_conv_all_nth)

lemma exitCode_onEvents:
  assumes "\<not> cl_signalExit c"
  shows "(\<exists>i. sets_status evs i \<and> (\<forall>j > i. \<not> sets_status evs j) \<and> cl_exitCode (fst (onEvents cf c evs)) = ev_data (evs ! i)) \<or>
    (\<forall>i. \<not> sets_status evs i) \<and> cl_exitCode (fst (onEvents cf c evs)) = cl_exitCode c"
proof (induction evs rule: rev_induct)
  case (snoc ev evs)
  define c1 where "c1 = fst (onEvents cf c evs)"
  have sig: "cl_signalExit c1 \<longleftrightarrow> (\<exists>e \<in> set evs. ev_type e = ev_signal_exit)"
    using assms signalExit_onEvents [of cf c evs] by (simp add: c1_def)
  have step: "cl_exitCode (fst (onEvents cf c (evs @ [ev]))) =
      (if sets_status (evs @ [ev]) (length evs) then ev_data ev else cl_exitCode c1)"
    using sig by (auto simp: onEvents_append c1_def [symmetric] onEvent_def sets_status_append
        split: prod.splits event_type.splits if_splits)
  have out: "\<not> sets_status (evs @ [ev]) j" if "length evs < j" for j using that by (simp add: sets_status_def)
  have old: "sets_status (evs @ [ev]) j \<longleftrightarrow> sets_status evs j" if "j \<noteq> length evs" for j
    using that by (simp add: sets_status_append)
  show ?case
  proof (cases "sets_status (evs @ [ev]) (length evs)")
    case True
    with step out show ?thesis by (intro disjI1 exI [of _ "length evs"]) simp
  next
    case False
    then have eq: "sets_status (evs @ [ev]) j \<longleftrightarrow> sets_status evs j" for j
      using old [of j] by (cases "j = length evs") (auto simp: sets_status_def [of evs "length evs"])
    have "i < length evs" if "sets_status evs i" for i using that by (simp add: sets_status_def)
    with snoc.IH False step eq show ?thesis by (auto simp: c1_def nth_append)
  qed
qed (simp add: sets_status_def)

section \<open>What the listeners see\<close>

definition hits_to :: "nat \<Rightarrow> col_out list \<Rightarrow> (u64 \<times> u64) list" where
  "hits_to l outs = concat (map (\<lambda>out. case out of CAddressHit l' a h \<Rightarrow> if l' = l then [(a, h)] else [] | _ \<Rightarrow> []) outs)"

definition breakpoints :: "Event list \<Rightarrow> (u64 \<times> u64) list" where
  "breakpoints evs = map (\<lambda>ev. (ev_addr ev, 1)) (filter (\<lambda>ev. ev_type ev = ev_breakpoint) evs)"

lemma hits_to_append [simp]: "hits_to l (xs @ ys) = hits_to l xs @ hits_to l ys"
  by (simp add: hits_to_def)

lemma hits_to_tick [simp]: "hits_to l (collector_tick c) = []"
  by (simp add: hits_to_def collector_tick_def)

lemma hits_to_listeners:
  "distinct ls \<Longrightarrow> l \<in> set ls \<Longrightarrow> hits_to l (map (\<lambda>l. CAddressHit l a h) ls) = [(a, h)]"
proof (induction ls)
  case (Cons k ls)
  have "hits_to l (map (\<lambda>l. CAddressHit l a h) ls) = []" if "l \<notin> set ls"
    using that by (auto simp: hits_to_def)
  with Cons show ?case by (cases "k = l") (auto simp: hits_to_def)
qed simp

lemma onEvents_listeners [simp]:
  "cl_listeners (fst (onEvents cf c evs)) = cl_listeners c"
  "cl_eventTickListeners (fst (onEvents cf c evs)) = cl_eventTickListeners c"
proof -
  have "cl_listeners (fst (onEvents cf c evs)) = cl_listeners c \<and>
    cl_eventTickListeners (fst (onEvents cf c evs)) = cl_eventTickListeners c"
  proof (induction evs arbitrary: c)
    case (Cons ev evs)
    obtain c1 outs where c1: "onEvent cf c ev = (c1, outs)" by fastforce
    have "cl_listeners c1 = cl_listeners c \<and> cl_eventTickListeners c1 = cl_eventTickListeners c"
      using c1 by (auto simp: onEvent_def split: event_type.splits if_splits)
    with Cons.IH [of c1] c1 show ?case by (auto split: prod.splits)
  qed simp
  then show "cl_listeners (fst (onEvents cf c evs)) = cl_listeners c"
    "cl_eventTickListeners (fst (onEvents cf c evs)) = cl_eventTickListeners c" by simp_all
qed

lemma hits_to_onEvents:
  assumes "distinct (cl_listeners c)" "l \<in> set (cl_listeners c)"
  shows "hits_to l (snd (onEvents cf c evs)) = breakpoints evs"
proof (induction evs rule: rev_induct)
  case (snoc ev evs)
  define c1 where "c1 = fst (onEvents cf c evs)"
  have "hits_to l (snd (onEvent cf c1 ev)) = breakpoints [ev]"
    using hits_to_listeners [OF assms] by (auto simp: onEvent_def breakpoints_def c1_def hits_to_def [of l "[]"]
        hits_to_def [of l "[CWriteFile _ _]"] split: event_type.split)
  with snoc.IH show ?case by (auto simp: onEvents_append c1_def breakpoints_def split: prod.splits)
qed (simp add: hits_to_def breakpoints_def)

lemma hits_to_rounds:
  "distinct (cl_listeners c) \<Longrightarrow> l \<in> set (cl_listeners c) \<Longrightarrow>
   hits_to l (round_outs cf c evss) = breakpoints (concat evss)"
  by (induction evss arbitrary: c) (simp_all add: hits_to_onEvents, simp_all add: hits_to_def breakpoints_def)

lemma hits_to_lines [simp]:
  "hits_to l (concat (map (\<lambda>(fname, _, addr). collector_onLine rf fname addr) lines)) = []"
  by (induction lines) (auto simp: hits_to_def collector_onLine_def)

text \<open>
  Property C13. Once the engine has started, \<open>run\<close> returns exactly when the engine stops after finitely
  many rounds. Its result is then the data of the last event that sets the exit status, and -1 when there is none:
  the exit of the first process and the death of a process by a signal always set it, the exit of any other
  process only as long as none was killed by a signal. Each listener (each registered once) has been told of each
  breakpoint the engine reported, once and in order. When the engine cannot be started the result is -1 and
  nothing is reported.
\<close>

theorem collector_run_spec:
  assumes "distinct ls"
  defines "c \<equiv> foldl registerListener mk_Collector ls"
  shows "(collector_run cont cf rf True lines c e \<noteq> None \<longleftrightarrow> (\<exists>evss. rounds cont e evss)) \<and>
    (\<forall>evss. rounds cont e evss \<longrightarrow>
       (\<exists>code c' outs. collector_run cont cf rf True lines c e = Some (code, c', outs) \<and>
          (\<forall>l \<in> set ls. hits_to l outs = breakpoints (concat evss)) \<and>
          ((\<exists>i. sets_status (concat evss) i \<and> (\<forall>j > i. \<not> sets_status (concat evss) j) \<and> code = ev_data (concat evss ! i)) \<or>
           (\<forall>i. \<not> sets_status (concat evss) i) \<and> code = - 1))) \<and>
    collector_run cont cf rf False lines c e = Some (- 1, c, [])"
proof -
  have "cl_listeners (foldl registerListener c0 ls) = cl_listeners c0 @ ls \<and>
      cl_exitCode (foldl registerListener c0 ls) = cl_exitCode c0 \<and>
      cl_signalExit (foldl registerListener c0 ls) = cl_signalExit c0" for c0
    by (induction ls arbitrary: c0) (simp_all add: registerListener_def)
  from this [of mk_Collector] have c: "cl_listeners c = ls" "\<not> cl_signalExit c" "cl_exitCode c = - 1"
    by (simp_all add: c_def mk_Collector_def)
  have run: "collector_run cont cf rf True lines c e = Some (cl_exitCode (fst (onEvents cf c (concat evss))),
      fst (onEvents cf c (concat evss)),
      concat (map (\<lambda>(fname, _, addr). collector_onLine rf fname addr) lines) @ round_outs cf c evss)"
    if "rounds cont e evss" for evss
    using collector_loop_rounds [OF that] by (simp add: collector_run_def)
  have "\<exists>evss. rounds cont e evss" if "collector_run cont cf rf True lines c e = Some r" for r
    using that by (auto simp: collector_run_def split: bind_splits intro: collector_loop_stops)
  with run have "collector_run cont cf rf True lines c e \<noteq> None \<longleftrightarrow> (\<exists>evss. rounds cont e evss)" by fastforce
  moreover have "hits_to l (round_outs cf c evss) = breakpoints (concat evss)" if "l \<in> set ls" for l evss
    using that c(1) assms(1) by (intro hits_to_rounds) simp_all
  moreover have "collector_run cont cf rf False lines c e = Some (- 1, c, [])" by (simp add: collector_run_def)
  ultimately show ?thesis using run exitCode_onEvents [OF c(2)] c(3) by auto
qed

definition demo_engine :: "nat \<Rightarrow> bool \<times> Event list \<times> nat" where
  "demo_engine n =
     (if n = 0 then (True, [mk_Event ev_breakpoint 1 0x10], 1) else (False, [mk_Event ev_exit 3 0], 2))"

definition demo_collector_conf :: collector_conf where
  "demo_collector_conf = \<lparr> cc_daemonize_on_first_process_exit = False, cc_target_directory = ''/tmp'' \<rparr>"

theorem collector_run_spec_witness:
  "\<exists>c' outs. collector_run demo_engine demo_collector_conf (\<lambda>_. True) True [] (foldl registerListener mk_Collector [7]) 0
       = Some (3, c', outs) \<and> hits_to 7 outs = [(0x10, 1)]"
proof -
  let ?evs = "[mk_Event ev_breakpoint 1 0x10, mk_Event ev_exit 3 0]"
  have "rounds demo_engine 1 [[mk_Event ev_exit 3 0]]" by (rule last_round [where e' = 2]) (simp add: demo_engine_def)
  then have r: "rounds demo_engine 0 [[mk_Event ev_breakpoint 1 0x10], [mk_Event ev_exit 3 0]]"
    by (rule more_rounds [where e' = 1, rotated]) (simp add: demo_engine_def)
  have 1: "sets_status ?evs 1" by (auto simp: sets_status_def mk_Event_def)
  have lt: "i < 2" if "sets_status ?evs i" for i using that by (simp add: sets_status_def)
  have "code = 3" if "(\<exists>i. sets_status ?evs i \<and> (\<forall>j > i. \<not> sets_status ?evs j) \<and> code = ev_data (?evs ! i)) \<or>
      (\<forall>i. \<not> sets_status ?evs i) \<and> code = - 1" for code
  proof -
    from that 1 obtain i where i: "sets_status ?evs i" "\<forall>j > i. \<not> sets_status ?evs j" "code = ev_data (?evs ! i)" by blast
    have "i = 1" using i(1,2) 1 lt [OF i(1)] by (metis One_nat_def less_2_cases zero_less_one)
    with i(3) show ?thesis by (simp add: mk_Event_def)
  qed
  moreover have "breakpoints ?evs = [(0x10, 1)]" by (simp add: breakpoints_def mk_Event_def)
  ultimately show ?thesis
    using r collector_run_spec [of "[7]" demo_engine demo_collector_conf "\<lambda>_. True" "[]" 0] by fastforce
qed

section \<open>The parser and the engine of a file\<close>

definition first_best :: "nat list \<Rightarrow> nat \<Rightarrow> bool" where
  "first_best vs i = (i < length vs \<and> (\<forall>j < length vs. vs ! j \<le> vs ! i \<and> (j < i \<longrightarrow> vs ! j < vs ! i)))"

lemma first_best_unique: "first_best vs i \<Longrightarrow> first_best vs k \<Longrightarrow> i = k"
  unfolding first_best_def by (meson leD linorder_neqE_nat)

lemma first_best_snoc:
  "first_best vs k \<Longrightarrow> first_best (vs @ [v]) (if v > vs ! k then length vs else k)"
  by (auto simp: first_best_def nth_append not_less less_Suc_eq intro: le_less_trans less_imp_le)

lemma first_best_single: "\<forall>x \<in> set vs. x < v \<Longrightarrow> first_best (vs @ [v]) (length vs)"
  by (auto simp: first_best_def nth_append less_Suc_eq intro: less_imp_le)

definition best_so_far :: "nat list \<Rightarrow> nat option \<Rightarrow> nat \<Rightarrow> bool" where
  "best_so_far vs best preVal =
     (case best of None \<Rightarrow> \<forall>v \<in> set vs. v = 0 | Some k \<Rightarrow> first_best vs k \<and> 0 < vs ! k \<and> preVal = vs ! k)"

lemma matchParser_loop_best:
  "best_so_far vs best preVal \<Longrightarrow> i = length vs \<Longrightarrow>
   best_so_far (vs @ map (\<lambda>p. p fn data) ps) (matchParser_loop fn data ps i best preVal)
     (case matchParser_loop fn data ps i best preVal of None \<Rightarrow> 0 | Some k \<Rightarrow> (vs @ map (\<lambda>p. p fn data) ps) ! k)"
proof (induction ps arbitrary: vs i best preVal)
  case Nil
  then show ?case by (auto simp: best_so_far_def split: option.splits)
next
  case (Cons p ps)
  let ?v = "p fn data"
  define best' where "best' = (if ?v = 0 then best else if best = None \<or> ?v > preVal then Some i else best)"
  define preVal' where "preVal' = (if ?v = 0 then preVal else if best = None \<or> ?v > preVal then ?v else preVal)"
  have loop: "matchParser_loop fn data (p # ps) i best preVal = matchParser_loop fn data ps (Suc i) best' preVal'"
    by (simp add: best'_def preVal'_def Let_def)
  have "best_so_far (vs @ [?v]) best' preVal'"
  proof (cases best)
    case None
    with Cons.prems show ?thesis
      by (auto simp: best_so_far_def best'_def preVal'_def intro!: first_best_single)
  next
    case (Some k)
    with Cons.prems have k: "first_best vs k" "0 < vs ! k" "preVal = vs ! k" by (simp_all add: best_so_far_def)
    then have "k < length vs" by (simp add: first_best_def)
    with first_best_snoc [OF k(1), of ?v] k Some Cons.prems(2) show ?thesis
      by (auto simp: best_so_far_def best'_def preVal'_def nth_append split: if_splits)
  qed
  moreover have "(vs @ [?v]) @ map (\<lambda>p. p fn data) ps = vs @ map (\<lambda>p. p fn data) (p # ps)" by simp
  ultimately show ?case using Cons.IH [of "vs @ [?v]" best' preVal' "Suc i"] Cons.prems(2) unfolding loop
    by (simp only: length_append_singleton)
qed

lemma matchEngine_loop_best:
  "first_best vs k \<Longrightarrow> i = length vs \<Longrightarrow>
   \<exists>k'. matchEngine_loop ws i (Some (k, vs ! k)) = Some (k', (vs @ ws) ! k') \<and> first_best (vs @ ws) k'"
proof (induction ws arbitrary: vs i k)
  case (Cons v ws)
  have "k < length vs" using Cons.prems by (simp add: first_best_def)
  with Cons.IH [OF first_best_snoc [OF Cons.prems(1), of v], of "Suc i"] Cons.prems(2)
  show ?case by (auto simp: nth_append Let_def split: if_splits)
qed (simp)

text \<open>
  A file is given to the first of the registered parsers with the highest score, to
  none when the file cannot be read or no parser claims it; and to the first of the
  registered engines with the highest score, whatever it is.
\<close>

lemma match_first_best:
  "(matchParser peek ps fn = Some i \<longleftrightarrow>
     (\<exists>data. peek fn = Some data \<and> first_best (map (\<lambda>p. p fn data) ps) i \<and> 0 < (ps ! i) fn data)) \<and>
   (matchEngine peek es fn = Some k \<longleftrightarrow> first_best (map (\<lambda>m. m fn (peek fn)) es) k)"
proof
  show "matchParser peek ps fn = Some i \<longleftrightarrow>
     (\<exists>data. peek fn = Some data \<and> first_best (map (\<lambda>p. p fn data) ps) i \<and> 0 < (ps ! i) fn data)"
  proof (cases "peek fn")
    case (Some data)
    let ?vs = "map (\<lambda>p. p fn data) ps" and ?r = "matchParser_loop fn data ps 0 None (2 ^ 64 - 1)"
    have b: "best_so_far ?vs ?r (case ?r of None \<Rightarrow> 0 | Some k \<Rightarrow> ?vs ! k)"
      using matchParser_loop_best [of "[]" None "2 ^ 64 - 1" 0 fn data ps, unfolded append_Nil]
      by (simp add: best_so_far_def [of "[]"])
    have nth: "j < length ps \<and> ?vs ! j = (ps ! j) fn data" if "first_best ?vs j" for j
      using that by (simp add: first_best_def)
    have r: "matchParser peek ps fn = ?r" by (simp add: matchParser_def Some)
    have "?r = Some i \<longleftrightarrow> first_best ?vs i \<and> 0 < (ps ! i) fn data"
    proof (cases ?r)
      case None
      with b have "\<forall>j < length ps. (ps ! j) fn data = 0" by (simp add: best_so_far_def)
      with None nth [of i] show ?thesis by auto
    next
      case (Some k)
      with b have "first_best ?vs k" "0 < ?vs ! k" by (simp_all add: best_so_far_def)
      with Some nth [of k] first_best_unique [of ?vs i k] show ?thesis by auto
    qed
    with r Some show ?thesis by simp
  qed (simp add: matchParser_def)
next
  show "matchEngine peek es fn = Some k \<longleftrightarrow> first_best (map (\<lambda>m. m fn (peek fn)) es) k"
  proof (cases "map (\<lambda>m. m fn (peek fn)) es")
    case (Cons v vs)
    have "first_best [v] 0" by (simp add: first_best_def)
    from matchEngine_loop_best [OF this, of 1 vs] obtain k' where
      "matchEngine_loop vs 1 (Some (0, v)) = Some (k', (v # vs) ! k')" "first_best (v # vs) k'" by auto
    with first_best_unique [of "v # vs"] Cons show ?thesis by (auto simp: matchEngine_def)
  qed (simp add: matchEngine_def first_best_def)
qed

end
