(* ===== verification/Kcov_Config.thy ===== *)
theory Kcov_Config
  imports Kcov_Filter
begin

text \<open>
  The configuration (\<open>src/src/configuration.cc\<close>): the keys and their values, the defaults and the
  command line.

  \<^item> The three maps from keys are \<open>cf_strings\<close>, \<open>cf_ints\<close> and \<open>cf_stringVectors\<close>; \<open>cf_notified\<close> is the
    log of the calls to listeners. An \<open>int\<close> is kept at its 32 bits.
  \<^item> The definitions start from what \<open>getopt_long\<close> returns, a list of option characters with their
    arguments and the index of the first argument that is no option; \<open>Kcov_Options\<close> has the way there.
  \<^item> \<open>conf_error\<close> has one value for each way out other than success: the usage text, a panic,
    \<open>exit\<close>, an exception nobody catches and an access outside of a string.
  \<^item> What the code asks the system for is \<open>conf_env\<close>. The usage texts are not modelled.
\<close>

section \<open>Keys and values\<close>

datatype conf_error = EUsage | EPanic | EExit | EThrow | EUndefined

datatype key_val = KStr string | KInt u32 | KVec "string list"

record Configuration =
  cf_strings :: "string \<rightharpoonup> string"
  cf_ints :: "string \<rightharpoonup> u32"
  cf_stringVectors :: "string \<rightharpoonup> string list"
  cf_programArgs :: "string list"
  cf_printUncommon :: bool
  cf_listeners :: "string \<rightharpoonup> nat"
  cf_notified :: "(nat \<times> string) list"
  cf_debug_mask :: u32

record conf_env =
  ce_lstat :: "string \<Rightarrow> stat option"
  ce_realpath :: "string \<Rightarrow> string option"
  ce_PATH :: "string option"
  ce_HOME :: "string option"
  ce_parserType :: "string \<Rightarrow> string option"
  ce_std_hash :: "string \<Rightarrow> u64"
  ce_hash_file :: "string \<Rightarrow> u32"

definition rbind :: "'e + 'a \<Rightarrow> ('a \<Rightarrow> 'e + 'b) \<Rightarrow> 'e + 'b" where
  "rbind r f = (case r of Inl e \<Rightarrow> Inl e | Inr x \<Rightarrow> f x)"

lemma rbind_simps [simp]: "rbind (Inl e) f = Inl e" "rbind (Inr x) f = f x"
  by (simp_all add: rbind_def)

lemma rbind_Inr_iff: "rbind r f = Inr y \<longleftrightarrow> (\<exists>x. r = Inr x \<and> f x = Inr y)"
  by (cases r) auto

definition keyAsString :: "Configuration \<Rightarrow> string \<Rightarrow> conf_error + string" where
  "keyAsString c key = (case cf_strings c key of None \<Rightarrow> Inl EPanic | Some v \<Rightarrow> Inr v)"

definition keyAsInt :: "Configuration \<Rightarrow> string \<Rightarrow> conf_error + u32" where
  "keyAsInt c key = (case cf_ints c key of None \<Rightarrow> Inl EPanic | Some v \<Rightarrow> Inr v)"

definition keyAsList :: "Configuration \<Rightarrow> string \<Rightarrow> conf_error + string list" where
  "keyAsList c key = (case cf_stringVectors c key of None \<Rightarrow> Inl EPanic | Some v \<Rightarrow> Inr v)"

definition conf_registerListener :: "Configuration \<Rightarrow> nat \<Rightarrow> string list \<Rightarrow> Configuration" where
  "conf_registerListener c l keys = foldl (\<lambda>c k. c\<lparr>cf_listeners := (cf_listeners c)(k \<mapsto> l)\<rparr>) c keys"

definition notifyKeyListeners :: "Configuration \<Rightarrow> string \<Rightarrow> Configuration" where
  "notifyKeyListeners c key =
     (case cf_listeners c key of
        None \<Rightarrow> c
      | Some l \<Rightarrow> c\<lparr>cf_notified := cf_notified c @ [(l, key)]\<rparr>)"

definition setKey :: "Configuration \<Rightarrow> string \<Rightarrow> key_val \<Rightarrow> Configuration" where
  "setKey c key val =
     notifyKeyListeners
       (case val of
          KStr v \<Rightarrow> c\<lparr>cf_strings := (cf_strings c)(key \<mapsto> v)\<rparr>
        | KInt v \<Rightarrow> c\<lparr>cf_ints := (cf_ints c)(key \<mapsto> v)\<rparr>
        | KVec v \<Rightarrow> c\<lparr>cf_stringVectors := (cf_stringVectors c)(key \<mapsto> v)\<rparr>) key"

definition setKeys :: "Configuration \<Rightarrow> (string \<times> key_val) list \<Rightarrow> Configuration" where
  "setKeys c kvs = foldl (\<lambda>c (k, v). setKey c k v) c kvs"

text \<open>\<open>RunMode_t\<close>\<close>

definition MODE_COLLECT_ONLY :: u32 where "MODE_COLLECT_ONLY = 1"

definition MODE_REPORT_ONLY :: u32 where "MODE_REPORT_ONLY = 2"

definition MODE_COLLECT_AND_REPORT :: u32 where "MODE_COLLECT_AND_REPORT = 3"

definition MODE_MERGE_ONLY :: u32 where "MODE_MERGE_ONLY = 4"

definition MODE_SYSTEM_RECORD :: u32 where "MODE_SYSTEM_RECORD = 5"

definition MODE_SYSTEM_REPORT :: u32 where "MODE_SYSTEM_REPORT = 6"

definition conf_defaults :: "(string \<times> key_val) list" where
  "conf_defaults =
     [(''kcov-binary-path'', KStr []), (''binary-path'', KStr []), (''python-command'', KStr ''python''),
      (''bash-command'', KStr ''bash''), (''kernel-coverage-path'', KStr ''/sys/kernel/debug/kprobe-coverage''),
      (''path-strip-level'', KInt 2), (''attach-pid'', KInt 0), (''parse-solibs'', KInt 1),
      (''clean-output'', KInt 0), (''low-limit'', KInt 25), (''high-limit'', KInt 75),
      (''output-interval'', KInt 5000), (''daemonize-on-first-process-exit'', KInt 0), (''dump-summary'', KInt 0),
      (''coveralls-id'', KStr []), (''strip-path'', KStr []), (''exclude-line'', KStr []),
      (''exclude-region'', KStr []), (''orig-path-prefix'', KStr []), (''new-path-prefix'', KStr []),
      (''running-mode'', KInt MODE_COLLECT_AND_REPORT), (''exclude-pattern'', KVec []), (''include-pattern'', KVec []),
      (''exclude-path'', KVec []), (''include-path'', KVec []), (''bash-force-stderr-input'', KInt 0),
      (''bash-handle-sh-invocation'', KInt 0), (''bash-tracefd-cloexec'', KInt 0), (''bash-use-basic-parser'', KInt 0),
      (''bash-use-ps4'', KInt 1), (''bash-parse-file-dir'', KVec []), (''bash-parse-binary-dir'', KInt 1),
      (''verify'', KInt 0), (''command-name'', KStr []), (''merged-name'', KStr ''[merged]''),
      (''css-file'', KStr []), (''lldb-use-raw-breakpoint-writes'', KInt 0), (''system-mode-write-file'', KStr []),
      (''system-mode-write-file-mode'', KInt 420), (''system-mode-read-results-file'', KStr []),
      (''patchelf-command'', KStr ''patchelf''), (''coveralls-service-name'', KStr ''travis-ci''),
      (''cobertura-full-paths'', KInt 0), (''codecov-full-paths'', KInt 0), (''cobertura-only'', KInt 0),
      (''is-go-binary'', KInt 0)]"

definition setupDefaults :: "Configuration \<Rightarrow> Configuration" where
  "setupDefaults c = setKeys c conf_defaults"

definition mk_Configuration :: Configuration where
  "mk_Configuration =
     setupDefaults \<lparr> cf_strings = (\<lambda>_. None), cf_ints = (\<lambda>_. None), cf_stringVectors = (\<lambda>_. None), cf_programArgs = [],
       cf_printUncommon = False, cf_listeners = (\<lambda>_. None), cf_notified = [], cf_debug_mask = 0 \<rparr>"

section \<open>Values on the command line\<close>

text \<open>\<open>std::stoul\<close>: the exception for a number that does not fit is not caught by \<open>isInteger\<close>.\<close>

definition isInteger :: "string \<Rightarrow> conf_error + bool" where
  "isInteger str =
     (case stoull str 10 of
        Inl invalid_argument \<Rightarrow> Inr False
      | Inl out_of_range \<Rightarrow> Inl EThrow
      | Inr (_, pos) \<Rightarrow> Inr (pos = length str))"

definition stoul :: "string \<Rightarrow> conf_error + u64" where
  "stoul str = (case stoull str 10 of Inl _ \<Rightarrow> Inl EThrow | Inr (v, _) \<Rightarrow> Inr v)"

definition integer_arg :: "conf_error \<Rightarrow> string \<Rightarrow> conf_error + u64" where
  "integer_arg err str = rbind (isInteger str) (\<lambda>ok. if \<not> ok then Inl err else stoul str)"

text \<open>The loop of \<open>getCommaSeparatedList\<close> from \<open>lastPos\<close> on; \<open>pos\<close> is the place of the next comma.\<close>

function comma_parts :: "string \<Rightarrow> nat \<Rightarrow> string list" where
  "comma_parts str lastPos =
     (case str_find_from str '','' lastPos of
        None \<Rightarrow> [str_substr str lastPos (length str - lastPos)]
      | Some pos \<Rightarrow>
          if pos < lastPos \<or> pos \<ge> length str then []
          else str_substr str lastPos (pos - lastPos) # comma_parts str (pos + 1))"
  by pat_completeness auto
termination
  by (relation "measure (\<lambda>(str, lastPos). length str - lastPos)") auto

declare comma_parts.simps [simp del]

definition getCommaSeparatedList :: "string \<Rightarrow> string list" where
  "getCommaSeparatedList str = (if \<not> str_contains str '','' then [str] else comma_parts str 0)"

fun expandPath :: "string option \<Rightarrow> string list \<Rightarrow> conf_error + string list" where
  "expandPath home [] = Inr []"
| "expandPath home (s # ss) =
     (if s \<noteq> [] \<and> hd s = CHR ''~''
      then (case home of
              None \<Rightarrow> Inl EUndefined
            | Some h \<Rightarrow> rbind (expandPath home ss) (\<lambda>ss'. Inr ((h @ tl s) # ss')))
      else rbind (expandPath home ss) (\<lambda>ss'. Inr (s # ss')))"

definition integer_keys :: "string list" where
  "integer_keys = [''low-limit'', ''high-limit'', ''bash-use-basic-parser'', ''cobertura-full-paths'', ''codecov-full-paths'']"

definition number_keys :: "string list" where
  "number_keys =
     [''low-limit'', ''high-limit'', ''system-mode-read-results-file'', ''bash-use-basic-parser'',
      ''lldb-use-raw-breakpoint-writes'', ''cobertura-full-paths'', ''codecov-full-paths'']"

definition text_keys :: "string list" where
  "text_keys = [''system-mode-write-file'', ''command-name'', ''css-file'', ''merged-name'', ''coveralls-service-name'']"

definition configure :: "Configuration \<Rightarrow> string \<Rightarrow> string \<Rightarrow> conf_error + Configuration" where
  "configure c key val =
     rbind (if key \<in> set integer_keys then rbind (isInteger val) (\<lambda>ok. if \<not> ok then Inl EPanic else Inr ()) else Inr ())
       (\<lambda>_.
        if key \<in> set number_keys then rbind (stoul val) (\<lambda>v. Inr (setKey c key (KInt (ucast v))))
        else if key \<in> set text_keys then Inr (setKey c key (KStr val))
        else Inl EPanic)"

fun configure_all :: "Configuration \<Rightarrow> string list \<Rightarrow> conf_error + Configuration" where
  "configure_all c [] = Inr c"
| "configure_all c (v # vs) =
     (let keyValue = split_string v ''=''
      in if length keyValue \<noteq> 2 then Inl EUsage
         else rbind (configure c (keyValue ! 0) (keyValue ! 1)) (\<lambda>c'. configure_all c' vs))"

section \<open>The options\<close>

record parse_state =
  ps_conf :: Configuration
  ps_extraNeeded :: nat
  ps_printUsage :: bool

definition set1 :: "parse_state \<Rightarrow> string \<Rightarrow> key_val \<Rightarrow> conf_error + parse_state" where
  "set1 st key val = Inr (st\<lparr>ps_conf := setKey (ps_conf st) key val\<rparr>)"

text \<open>\<open>file_exists\<close>, whose cache is transparent.\<close>

definition conf_file_exists :: "conf_env \<Rightarrow> string \<Rightarrow> bool" where
  "conf_file_exists e path = (ce_lstat e path \<noteq> None)"

definition opt_path_strip_level :: "parse_state \<Rightarrow> string \<Rightarrow> conf_error + parse_state" where
  "opt_path_strip_level st optarg =
     rbind (integer_arg EUsage optarg) (\<lambda>v.
       let pathStripLevel = ucast v :: u32
       in set1 st ''path-strip-level'' (KInt (if pathStripLevel = 0 then 2147483647 else pathStripLevel)))"

definition opt_pid :: "conf_env \<Rightarrow> parse_state \<Rightarrow> string \<Rightarrow> conf_error + parse_state" where
  "opt_pid e st optarg =
     rbind (integer_arg EUsage optarg) (\<lambda>pid.
       rbind (set1 st ''attach-pid'' (KInt (ucast pid))) (\<lambda>st1.
         Inr (if conf_file_exists e (''/proc/'' @ fmt_nat (unat pid) @ ''/exe'') then st1\<lparr>ps_extraNeeded := 1\<rparr> else st1)))"

definition opt_path_list :: "conf_env \<Rightarrow> parse_state \<Rightarrow> string \<Rightarrow> string \<Rightarrow> conf_error + parse_state" where
  "opt_path_list e st key optarg =
     rbind (expandPath (ce_HOME e) (getCommaSeparatedList optarg)) (\<lambda>ps. set1 st key (KVec ps))"

definition opt_limits :: "parse_state \<Rightarrow> string \<Rightarrow> conf_error + parse_state" where
  "opt_limits st optarg =
     (let vec = getCommaSeparatedList optarg
      in if length vec \<noteq> 2 then Inl EUsage
         else rbind (isInteger (vec ! 0)) (\<lambda>ok0.
              if \<not> ok0 then Inl EUsage
              else rbind (isInteger (vec ! 1)) (\<lambda>ok1.
              if \<not> ok1 then Inl EUsage
              else rbind (stoul (vec ! 0)) (\<lambda>lo.
                   rbind (set1 st ''low-limit'' (KInt (ucast lo))) (\<lambda>st1.
                   rbind (stoul (vec ! 1)) (\<lambda>hi. set1 st1 ''high-limit'' (KInt (ucast hi))))))))"

definition opt_replace_src_path :: "conf_env \<Rightarrow> parse_state \<Rightarrow> string \<Rightarrow> conf_error + parse_state" where
  "opt_replace_src_path e st optarg =
     (case str_find optarg '':'' of
        None \<Rightarrow> Inl EPanic
      | Some tokenPosFront \<Rightarrow>
          if str_rfind_from optarg '':'' (length optarg) \<noteq> Some tokenPosFront then Inl EPanic
          else let originalPathPrefix = str_substr optarg 0 tokenPosFront;
                   newPathPrefix = drop (tokenPosFront + 1) optarg
               in if ce_realpath e newPathPrefix = None then Inl EPanic
                  else rbind (set1 st ''orig-path-prefix'' (KStr originalPathPrefix)) (\<lambda>st1.
                       set1 st1 ''new-path-prefix'' (KStr newPathPrefix)))"

definition opt_bash_method :: "parse_state \<Rightarrow> string \<Rightarrow> conf_error + parse_state" where
  "opt_bash_method st s =
     (if s = ''DEBUG'' then set1 st ''bash-use-ps4'' (KInt 0)
      else if s = ''PS4'' then set1 st ''bash-use-ps4'' (KInt 1)
      else Inl EPanic)"

definition parse_option :: "conf_env \<Rightarrow> parse_state \<Rightarrow> char \<Rightarrow> string \<Rightarrow> conf_error + parse_state" where
  "parse_option e st c optarg =
     (if c = NUL then Inr st
      else if c = CHR ''h'' then Inr (st\<lparr>ps_printUsage := True\<rparr>)
      else if c = CHR ''U'' then Inr (st\<lparr>ps_conf := (ps_conf st)\<lparr>cf_printUncommon := True\<rparr>\<rparr>)
      else if c = CHR ''V'' then set1 st ''verify'' (KInt 1)
      else if c = CHR ''v'' then Inl EExit
      else if c = CHR ''L'' then set1 st ''parse-solibs'' (KInt 0)
      else if c = CHR ''F'' then set1 st ''daemonize-on-first-process-exit'' (KInt 1)
      else if c = CHR ''E'' then set1 st ''clean-output'' (KInt 1)
      else if c = CHR ''p'' then opt_pid e st optarg
      else if c = CHR ''O'' then rbind (integer_arg EUsage optarg) (\<lambda>v. set1 st ''output-interval'' (KInt (ucast v)))
      else if c = CHR ''o'' then set1 st ''cobertura-only'' (KInt 1)
      else if c = CHR ''S'' then opt_path_strip_level st optarg
      else if c = CHR ''D''
      then rbind (integer_arg EUsage optarg) (\<lambda>v. Inr (st\<lparr>ps_conf := (ps_conf st)\<lparr>cf_debug_mask := ucast v\<rparr>\<rparr>))
      else if c = CHR ''M''
      then rbind (configure_all (ps_conf st) (split_string optarg '','')) (\<lambda>cf. Inr (st\<lparr>ps_conf := cf\<rparr>))
      else if c = CHR ''i'' then set1 st ''include-pattern'' (KVec (getCommaSeparatedList optarg))
      else if c = CHR ''P'' then set1 st ''python-command'' (KStr optarg)
      else if c = CHR ''e'' then set1 st ''patchelf-command'' (KStr optarg)
      else if c = CHR ''B'' then set1 st ''bash-command'' (KStr optarg)
      else if c = CHR ''T'' then set1 st ''coveralls-id'' (KStr optarg)
      else if c = CHR ''Z'' then set1 st ''strip-path'' (KStr optarg)
      else if c = CHR ''u'' then set1 st ''exclude-line'' (KStr optarg)
      else if c = CHR ''G'' then set1 st ''exclude-region'' (KStr optarg)
      else if c = CHR ''x'' then set1 st ''exclude-pattern'' (KVec (getCommaSeparatedList optarg))
      else if c = CHR ''I'' then opt_path_list e st ''include-path'' optarg
      else if c = CHR ''X'' then opt_path_list e st ''exclude-path'' optarg
      else if c = CHR ''d''
      then rbind (set1 st ''bash-force-stderr-input'' (KInt 1)) (\<lambda>st1. set1 st1 ''bash-use-ps4'' (KInt 1))
      else if c = CHR ''s'' then set1 st ''bash-handle-sh-invocation'' (KInt 1)
      else if c = CHR ''t'' then set1 st ''bash-tracefd-cloexec'' (KInt 1)
      else if c = CHR ''4'' then opt_bash_method st optarg
      else if c = CHR ''C'' then set1 st ''running-mode'' (KInt MODE_COLLECT_ONLY)
      else if c = CHR ''r'' then set1 st ''running-mode'' (KInt MODE_REPORT_ONLY)
      else if c = CHR ''m'' then set1 st ''running-mode'' (KInt MODE_MERGE_ONLY)
      else if c = CHR ''5'' then set1 st ''dump-summary'' (KInt 1)
      else if c = CHR ''8''
      then rbind (set1 st ''running-mode'' (KInt MODE_SYSTEM_RECORD)) (\<lambda>st1. set1 st1 ''parse-solibs'' (KInt 0))
      else if c = CHR ''9''
      then rbind (set1 st ''running-mode'' (KInt MODE_SYSTEM_REPORT)) (\<lambda>st1. set1 st1 ''parse-solibs'' (KInt 0))
      else if c = CHR ''l'' then opt_limits st optarg
      else if c = CHR ''j'' then set1 st ''bash-parse-binary-dir'' (KInt 0)
      else if c = CHR ''J'' then set1 st ''bash-parse-file-dir'' (KVec (getCommaSeparatedList optarg))
      else if c = CHR ''R'' then opt_replace_src_path e st optarg
      else if c = CHR '':'' \<or> c = CHR ''?'' then Inl EUsage
      else Inl EPanic)"

fun parse_options :: "conf_env \<Rightarrow> parse_state \<Rightarrow> (char \<times> string) list \<Rightarrow> conf_error + parse_state" where
  "parse_options e st [] = Inr st"
| "parse_options e st ((c, optarg) # opts) =
     rbind (parse_option e st c optarg) (\<lambda>st1. parse_options e st1 opts)"

section \<open>The arguments after the options\<close>

definition arg_at :: "string list \<Rightarrow> nat \<Rightarrow> conf_error + string" where
  "arg_at argv i = (if i < length argv then Inr (argv ! i) else Inl EThrow)"

definition out_directory :: "string \<Rightarrow> conf_error + string" where
  "out_directory arg = (if arg = [] then Inl EUndefined else Inr (if last arg \<noteq> CHR ''/'' then arg @ ''/'' else arg))"

definition target_name :: "string \<Rightarrow> string \<Rightarrow> u64 \<Rightarrow> string" where
  "target_name outDirectory binaryName hash =
     outDirectory @ ''/'' @ binaryName @ ''.'' @ pad0 8 (fmt_hex (unat hash))"

definition conf_target_directory ::
  "conf_env \<Rightarrow> Configuration \<Rightarrow> string \<Rightarrow> string \<Rightarrow> string \<Rightarrow> conf_error + Configuration" where
  "conf_target_directory e c outDirectory binaryName binaryPath =
     rbind (keyAsInt c ''cobertura-only'') (\<lambda>only.
       Inr (setKey c ''target-directory'' (KStr
         (if only \<noteq> 0 then outDirectory
          else if ce_parserType e binaryPath \<in> {Some ''bash'', Some ''python''}
          then target_name outDirectory binaryName (ce_std_hash e binaryName)
          else target_name outDirectory binaryName (ucast (ce_hash_file e (real_path (ce_realpath e) binaryPath)))))))"

definition binary_arg :: "conf_env \<Rightarrow> Configuration \<Rightarrow> string list \<Rightarrow> nat \<Rightarrow> conf_error + string" where
  "binary_arg e c argv afterOpts =
     rbind (keyAsInt c ''attach-pid'') (\<lambda>pid.
       if pid = 0 then arg_at argv (afterOpts + 1)
       else let path = real_path (ce_realpath e) (''/proc/'' @ fmt_d pid @ ''/exe'')
            in if \<not> conf_file_exists e path then arg_at argv (afterOpts + 1) else Inr path)"

definition parse_binary ::
  "conf_env \<Rightarrow> Configuration \<Rightarrow> string \<Rightarrow> string list \<Rightarrow> nat \<Rightarrow> conf_error + Configuration" where
  "parse_binary e c outDirectory argv afterOpts =
     rbind (binary_arg e c argv afterOpts) (\<lambda>path.
       let binaryPath = (case look_path (ce_lstat e) (real_path (ce_realpath e)) (ce_PATH e) path of
                           None \<Rightarrow> path | Some p \<Rightarrow> p);
           (dir, binaryName) = split_path binaryPath;
           c1 = setKey c ''binary-path'' (KStr dir);
           c2 = setKey c1 ''binary-name'' (KStr binaryName)
       in rbind (conf_target_directory e c2 outDirectory binaryName binaryPath) (\<lambda>c3.
          rbind (keyAsInt c3 ''running-mode'') (\<lambda>mode.
          rbind (keyAsString c3 ''target-directory'') (\<lambda>target.
            if mode = MODE_REPORT_ONLY \<and> \<not> conf_file_exists e target then Inl EUsage
            else rbind (keyAsString c3 ''command-name'') (\<lambda>cmd.
                 Inr (if cmd = [] then setKey c3 ''command-name'' (KStr binaryName) else c3))))))"

definition parse_arguments :: "conf_env \<Rightarrow> parse_state \<Rightarrow> string list \<Rightarrow> nat \<Rightarrow> conf_error + Configuration" where
  "parse_arguments e st argv afterOpts =
     (if ps_printUsage st then Inl EUsage
      else if length argv < afterOpts + ps_extraNeeded st then Inl EUsage
      else rbind (arg_at argv afterOpts) (\<lambda>arg.
           rbind (out_directory arg) (\<lambda>outDirectory.
             let c = setKey (ps_conf st) ''out-directory'' (KStr outDirectory)
             in rbind (keyAsInt c ''running-mode'') (\<lambda>mode.
                rbind (if mode = MODE_MERGE_ONLY
                       then Inr (setKey (setKey c ''binary-name'' (KStr ''merged-kcov-output''))
                                   ''target-directory'' (KStr (outDirectory @ ''/merged-kcov-output'')))
                       else parse_binary e c outDirectory argv afterOpts) (\<lambda>c1.
                Inr (c1\<lparr>cf_programArgs := drop (afterOpts + 1) argv\<rparr>))))))"

definition config_parse ::
  "conf_env \<Rightarrow> Configuration \<Rightarrow> (char \<times> string) list \<Rightarrow> nat \<Rightarrow> string list \<Rightarrow> conf_error + Configuration" where
  "config_parse e c opts optind argv =
     rbind (arg_at argv 0) (\<lambda>argv0.
       let c1 = setKey (setupDefaults c) ''kcov-binary-path'' (KStr (real_path (ce_realpath e) argv0))
       in rbind (parse_options e \<lparr> ps_conf = c1, ps_extraNeeded = 2, ps_printUsage = False \<rparr> opts) (\<lambda>st.
          parse_arguments e st argv optind))"

text \<open>The keys the filters read.\<close>

definition conf_filter :: "Configuration \<Rightarrow> conf_error + filter_conf" where
  "conf_filter c =
     rbind (keyAsString c ''exclude-line'') (\<lambda>el.
     rbind (keyAsString c ''exclude-region'') (\<lambda>er.
     rbind (keyAsList c ''include-pattern'') (\<lambda>ip.
     rbind (keyAsList c ''exclude-pattern'') (\<lambda>ep.
     rbind (keyAsList c ''include-path'') (\<lambda>ipath.
     rbind (keyAsList c ''exclude-path'') (\<lambda>epath.
     rbind (keyAsString c ''orig-path-prefix'') (\<lambda>op.
     rbind (keyAsString c ''new-path-prefix'') (\<lambda>np.
       Inr \<lparr> conf_exclude_line = el, conf_exclude_region = er, conf_include_pattern = ip, conf_exclude_pattern = ep,
             conf_include_path = ipath, conf_exclude_path = epath, conf_orig_path_prefix = op,
             conf_new_path_prefix = np \<rparr>))))))))"

end
