(* ===== verification/Kcov_Config_Props.thy ===== *)
theory Kcov_Config_Props
  imports Kcov_Config
begin

text \<open>
  Correctness of the configuration: lists on the command line, the keys a successful parse leaves
  behind, and how the patterns given on the command line decide on files.
\<close>

section \<open>Lists separated by commas\<close>

lemma comma_parts_eq:
  "lastPos \<le> length str \<Longrightarrow>
   join CHR '','' (comma_parts str lastPos) = drop lastPos str \<and> comma_parts str lastPos \<noteq> [] \<and>
   (\<forall>p \<in> set (comma_parts str lastPos). CHR '','' \<notin> set p)"
proof (induction str lastPos rule: comma_parts.induct)
  case (1 str lastPos)
  let ?d = "drop lastPos str" and ?tw = "takeWhile (\<lambda>c. c \<noteq> CHR '','') (drop lastPos str)"
  have find: "str_find_from str '','' lastPos = (if CHR '','' \<in> set ?d then Some (lastPos + length ?tw) else None)"
    using "1.prems" by (simp add: str_find_from_def str_find_single)
  show ?case
  proof (cases "CHR '','' \<in> set ?d")
    case False
    then show ?thesis by (subst (1 2 3) comma_parts.simps) (simp add: find str_substr_def)
  next
    case True
    let ?pos = "lastPos + length ?tw"
    have sp: "?d = ?tw @ CHR '','' # drop (Suc (length ?tw)) ?d" using True by (rule split_at_first)
    have pos: "?pos < length str"
      using arg_cong [OF sp, of length] "1.prems" by simp
    have parts: "comma_parts str lastPos = ?tw # comma_parts str (?pos + 1)"
      using pos True by (subst comma_parts.simps) (simp add: find str_substr_def takeWhile_eq_take [symmetric])
    have ih: "join CHR '','' (comma_parts str (?pos + 1)) = drop (?pos + 1) str" "comma_parts str (?pos + 1) \<noteq> []"
      "\<forall>p \<in> set (comma_parts str (?pos + 1)). CHR '','' \<notin> set p"
      using "1.IH" [of ?pos] pos True by (simp_all add: find)
    have "drop (?pos + 1) str = drop (Suc (length ?tw)) ?d" by (simp add: add.commute)
    with ih(1) sp have "?d = ?tw @ CHR '','' # join CHR '','' (comma_parts str (?pos + 1))" by simp
    moreover have "join d (x # xs) = x @ d # join d xs" if "xs \<noteq> []" for d x xs using that by (cases xs) simp_all
    ultimately show ?thesis using ih parts by (auto dest: set_takeWhileD)
  qed
qed

lemma getCommaSeparatedList_parts:
  "join CHR '','' (getCommaSeparatedList s) = s \<and> getCommaSeparatedList s \<noteq> [] \<and>
   (\<forall>p \<in> set (getCommaSeparatedList s). CHR '','' \<notin> set p)"
  using comma_parts_eq [of 0 s]
  by (auto simp: getCommaSeparatedList_def str_contains_def str_find_single split: if_splits)

text \<open>The parts are determined by that.\<close>

lemma join_inj:
  "xs \<noteq> [] \<Longrightarrow> ys \<noteq> [] \<Longrightarrow> \<forall>p \<in> set xs. d \<notin> set p \<Longrightarrow> \<forall>p \<in> set ys. d \<notin> set p \<Longrightarrow> join d xs = join d ys \<Longrightarrow> xs = ys"
proof (induction xs arbitrary: ys)
  case (Cons x xs)
  have tw: "takeWhile (\<lambda>c. c \<noteq> d) (join d (z # zs)) = z" if "d \<notin> set z" for z zs
    using that by (cases zs) (auto simp: takeWhile_append1 takeWhile_tail takeWhile_eq_all_conv)
  obtain y ys' where ys: "ys = y # ys'" using Cons.prems(2) by (cases ys) auto
  have xy: "x = y" using tw [of x xs] tw [of y ys'] Cons.prems ys by simp
  show ?case
  proof (cases "xs = [] \<or> ys' = []")
    case True
    with xy ys Cons.prems(5) show ?thesis by (cases xs; cases ys') auto
  next
    case False
    then obtain a as b bs where ab: "xs = a # as" "ys' = b # bs" by (meson neq_Nil_conv)
    from Cons.prems(5) xy have "join d xs = join d ys'" by (simp add: ab ys)
    with Cons.IH [of ys'] Cons.prems False ys xy show ?thesis by simp
  qed
qed simp

section \<open>The keys after a successful parse\<close>

definition conf_le :: "Configuration \<Rightarrow> Configuration \<Rightarrow> bool" where
  "conf_le c c' =
     (dom (cf_strings c) \<subseteq> dom (cf_strings c') \<and> dom (cf_ints c) \<subseteq> dom (cf_ints c') \<and>
      dom (cf_stringVectors c) \<subseteq> dom (cf_stringVectors c'))"

lemma conf_le_refl [simp]: "conf_le c c"
  by (simp add: conf_le_def)

lemma conf_le_trans: "conf_le a b \<Longrightarrow> conf_le b c \<Longrightarrow> conf_le a c"
  unfolding conf_le_def by blast

lemma notify_fields [simp]:
  "cf_strings (notifyKeyListeners c k) = cf_strings c" "cf_ints (notifyKeyListeners c k) = cf_ints c"
  "cf_stringVectors (notifyKeyListeners c k) = cf_stringVectors c"
  by (simp_all add: notifyKeyListeners_def split: option.splits)

lemma setKey_fields:
  "cf_strings (setKey c k v) = (case v of KStr s \<Rightarrow> (cf_strings c)(k \<mapsto> s) | _ \<Rightarrow> cf_strings c)"
  "cf_ints (setKey c k v) = (case v of KInt n \<Rightarrow> (cf_ints c)(k \<mapsto> n) | _ \<Rightarrow> cf_ints c)"
  "cf_stringVectors (setKey c k v) = (case v of KVec s \<Rightarrow> (cf_stringVectors c)(k \<mapsto> s) | _ \<Rightarrow> cf_stringVectors c)"
  by (simp_all add: setKey_def split: key_val.splits)

lemma setKey_le [simp, intro]: "conf_le c c' \<Longrightarrow> conf_le c (setKey c' k v)"
  by (cases v) (auto simp: conf_le_def setKey_fields)

lemma conf_le_other [simp]:
  "conf_le c (c'\<lparr>cf_printUncommon := b\<rparr>) = conf_le c c'" "conf_le c (c'\<lparr>cf_debug_mask := m\<rparr>) = conf_le c c'"
  "conf_le c (c'\<lparr>cf_programArgs := as\<rparr>) = conf_le c c'"
  by (simp_all add: conf_le_def)

lemma setKeys_le: "conf_le c (setKeys c kvs)"
proof (induction kvs arbitrary: c)
  case (Cons kv kvs)
  have "setKeys c (kv # kvs) = setKeys (setKey c (fst kv) (snd kv)) kvs" by (simp add: setKeys_def split_beta)
  then show ?case using conf_le_trans [OF setKey_le [OF conf_le_refl] Cons.IH] by (simp only:)
qed (simp add: setKeys_def)

lemma configure_cases:
  "configure c k v = Inr c' \<Longrightarrow> \<exists>val. c' = setKey c k val \<and> k \<in> set number_keys \<union> set text_keys \<and> (\<forall>xs. val \<noteq> KVec xs)"
  by (auto simp: configure_def rbind_Inr_iff split: if_splits)

lemma configure_le: "configure c k v = Inr c' \<Longrightarrow> conf_le c c'"
  by (auto dest: configure_cases)

lemma configure_all_le: "configure_all c vs = Inr c' \<Longrightarrow> conf_le c c'"
proof (induction vs arbitrary: c)
  case (Cons v vs)
  then show ?case
    by (auto simp: Let_def rbind_Inr_iff split: if_splits dest!: configure_le intro: conf_le_trans)
qed simp

lemma set1_Inr [simp]: "set1 st k v = Inr st' \<longleftrightarrow> st' = st\<lparr>ps_conf := setKey (ps_conf st) k v\<rparr>"
  by (auto simp: set1_def)

lemmas opt_defs = opt_path_strip_level_def opt_pid_def opt_path_list_def opt_limits_def
  opt_replace_src_path_def opt_bash_method_def

lemma opt_le:
  "opt_path_strip_level st a = Inr st' \<Longrightarrow> conf_le (ps_conf st) (ps_conf st')"
  "opt_pid e st a = Inr st' \<Longrightarrow> conf_le (ps_conf st) (ps_conf st')"
  "opt_path_list e st k a = Inr st' \<Longrightarrow> conf_le (ps_conf st) (ps_conf st')"
  "opt_limits st a = Inr st' \<Longrightarrow> conf_le (ps_conf st) (ps_conf st')"
  "opt_replace_src_path e st a = Inr st' \<Longrightarrow> conf_le (ps_conf st) (ps_conf st')"
  "opt_bash_method st a = Inr st' \<Longrightarrow> conf_le (ps_conf st) (ps_conf st')"
  by (auto simp: opt_defs rbind_Inr_iff Let_def split: if_splits option.splits)

lemma parse_option_le: "parse_option e st c a = Inr st' \<Longrightarrow> conf_le (ps_conf st) (ps_conf st')"
  unfolding parse_option_def
  by (auto simp: rbind_Inr_iff dest: opt_le configure_all_le split: if_splits)

lemma parse_options_le: "parse_options e st opts = Inr st' \<Longrightarrow> conf_le (ps_conf st) (ps_conf st')"
proof (induction opts arbitrary: st)
  case (Cons opt opts)
  obtain c a where opt: "opt = (c, a)" by fastforce
  from Cons.prems opt obtain st1 where "parse_option e st c a = Inr st1" "parse_options e st1 opts = Inr st'"
    by (auto simp: rbind_Inr_iff)
  with Cons.IH parse_option_le conf_le_trans show ?case by blast
qed simp

lemma conf_target_directory_Inr:
  "conf_target_directory e c out n p = Inr c3 \<Longrightarrow> \<exists>x. c3 = setKey c ''target-directory'' (KStr x)"
  unfolding conf_target_directory_def rbind_Inr_iff by blast

lemma dom_setKey_mono: "k \<in> dom (cf_strings c) \<Longrightarrow> k \<in> dom (cf_strings (setKey c k' v))"
  by (cases v) (auto simp: setKey_fields)

lemma dom_setKey_same: "k \<in> dom (cf_strings (setKey c k (KStr v)))"
  by (simp add: setKey_fields)

lemma parse_binary_Inr:
  assumes "parse_binary e c out argv n = Inr c'"
  shows "\<exists>dir nm tgt. let c3 = setKey (setKey (setKey c ''binary-path'' (KStr dir)) ''binary-name'' (KStr nm)) ''target-directory'' (KStr tgt)
    in c' = c3 \<or> c' = setKey c3 ''command-name'' (KStr nm)"
proof -
  from assms obtain dir nm p c3 where c3:
    "conf_target_directory e (setKey (setKey c ''binary-path'' (KStr dir)) ''binary-name'' (KStr nm)) out nm p = Inr c3"
    "c' = c3 \<or> c' = setKey c3 ''command-name'' (KStr nm)"
    unfolding parse_binary_def rbind_Inr_iff Let_def split_beta
    by (fastforce simp: rbind_Inr_iff split: if_split_asm)
  with conf_target_directory_Inr [OF c3(1)] show ?thesis unfolding Let_def by blast
qed

lemma parse_binary_le:
  assumes "parse_binary e c out argv n = Inr c'"
  shows "conf_le c c' \<and> {''binary-name'', ''target-directory''} \<subseteq> dom (cf_strings c')"
proof -
  obtain dir nm tgt c3 where c3: "c3 = setKey (setKey (setKey c ''binary-path'' (KStr dir)) ''binary-name'' (KStr nm)) ''target-directory'' (KStr tgt)"
    and c': "c' = c3 \<or> c' = setKey c3 ''command-name'' (KStr nm)"
    using parse_binary_Inr [OF assms] unfolding Let_def by blast
  have "conf_le c c3" unfolding c3 by (intro setKey_le conf_le_refl)
  moreover have "''binary-name'' \<in> dom (cf_strings c3)" unfolding c3 by (rule dom_setKey_mono, rule dom_setKey_same)
  moreover have "''target-directory'' \<in> dom (cf_strings c3)" unfolding c3 by (rule dom_setKey_same)
  ultimately have c3': "conf_le c c3 \<and> {''binary-name'', ''target-directory''} \<subseteq> dom (cf_strings c3)" by simp
  from c' show ?thesis
  proof
    assume "c' = setKey c3 ''command-name'' (KStr nm)"
    with c3' show ?thesis by (simp add: setKey_le dom_setKey_mono del: domIff)
  qed (use c3' in simp)
qed

text \<open>The keys that the program reads anywhere, by the type it reads them as.\<close>

definition read_strings :: "string list" where
  "read_strings =
     [''bash-command'', ''binary-name'', ''binary-path'', ''command-name'', ''coveralls-id'', ''coveralls-service-name'',
      ''css-file'', ''exclude-line'', ''exclude-region'', ''kcov-binary-path'', ''kernel-coverage-path'', ''merged-name'',
      ''new-path-prefix'', ''orig-path-prefix'', ''out-directory'', ''patchelf-command'', ''python-command'', ''strip-path'',
      ''system-mode-read-results-file'', ''system-mode-write-file'', ''target-directory'']"

definition read_ints :: "string list" where
  "read_ints =
     [''attach-pid'', ''bash-force-stderr-input'', ''bash-handle-sh-invocation'', ''bash-parse-binary-dir'',
      ''bash-tracefd-cloexec'', ''bash-use-basic-parser'', ''bash-use-ps4'', ''clean-output'', ''cobertura-full-paths'',
      ''cobertura-only'', ''codecov-full-paths'', ''daemonize-on-first-process-exit'', ''dump-summary'', ''high-limit'',
      ''is-go-binary'', ''low-limit'', ''output-interval'', ''parse-solibs'', ''path-strip-level'', ''running-mode'', ''verify'']"

definition read_lists :: "string list" where
  "read_lists = [''bash-parse-file-dir'', ''exclude-path'', ''exclude-pattern'', ''include-path'', ''include-pattern'']"

fun is_str :: "key_val \<Rightarrow> bool" where "is_str (KStr _) = True" | "is_str _ = False"

fun is_int :: "key_val \<Rightarrow> bool" where "is_int (KInt _) = True" | "is_int _ = False"

fun is_vec :: "key_val \<Rightarrow> bool" where "is_vec (KVec _) = True" | "is_vec _ = False"

lemma dom_setKeys:
  "map fst (filter (is_str \<circ> snd) kvs) = ks \<Longrightarrow> set ks \<subseteq> dom (cf_strings (setKeys c kvs))"
  "map fst (filter (is_int \<circ> snd) kvs) = ks \<Longrightarrow> set ks \<subseteq> dom (cf_ints (setKeys c kvs))"
  "map fst (filter (is_vec \<circ> snd) kvs) = ks \<Longrightarrow> set ks \<subseteq> dom (cf_stringVectors (setKeys c kvs))"
proof -
  have "set (map fst (filter (is_str \<circ> snd) kvs)) \<subseteq> dom (cf_strings (setKeys c kvs)) \<and>
    set (map fst (filter (is_int \<circ> snd) kvs)) \<subseteq> dom (cf_ints (setKeys c kvs)) \<and>
    set (map fst (filter (is_vec \<circ> snd) kvs)) \<subseteq> dom (cf_stringVectors (setKeys c kvs))"
  proof (induction kvs arbitrary: c)
    case (Cons kv kvs)
    obtain k v where kv: "kv = (k, v)" by fastforce
    have eq: "setKeys c ((k, v) # kvs) = setKeys (setKey c k v) kvs" by (simp add: setKeys_def)
    have "is_str v \<Longrightarrow> k \<in> dom (cf_strings (setKey c k v))" "is_int v \<Longrightarrow> k \<in> dom (cf_ints (setKey c k v))"
      "is_vec v \<Longrightarrow> k \<in> dom (cf_stringVectors (setKey c k v))" by (cases v; simp add: setKey_fields)+
    with Cons.IH [of "setKey c k v"] setKeys_le [of "setKey c k v" kvs] show ?case
      unfolding conf_le_def kv eq filter.simps comp_def snd_conv by (simp del: domIff) blast
  qed simp
  then show "map fst (filter (is_str \<circ> snd) kvs) = ks \<Longrightarrow> set ks \<subseteq> dom (cf_strings (setKeys c kvs))"
    "map fst (filter (is_int \<circ> snd) kvs) = ks \<Longrightarrow> set ks \<subseteq> dom (cf_ints (setKeys c kvs))"
    "map fst (filter (is_vec \<circ> snd) kvs) = ks \<Longrightarrow> set ks \<subseteq> dom (cf_stringVectors (setKeys c kvs))" by blast+
qed

lemma defaults_check:
  "list_all (\<lambda>k. k \<in> set [''binary-name'', ''out-directory'', ''target-directory''] \<or>
     k \<in> set (map fst (filter (is_str \<circ> snd) conf_defaults))) read_strings"
  "list_all (\<lambda>k. k \<in> set (map fst (filter (is_int \<circ> snd) conf_defaults))) read_ints"
  "list_all (\<lambda>k. k \<in> set (map fst (filter (is_vec \<circ> snd) conf_defaults))) read_lists"
  by code_simp+

lemma defaults_keys:
  "set read_strings \<subseteq> {''binary-name'', ''out-directory'', ''target-directory''} \<union> dom (cf_strings (setupDefaults c))"
  "set read_ints \<subseteq> dom (cf_ints (setupDefaults c))" "set read_lists \<subseteq> dom (cf_stringVectors (setupDefaults c))"
proof -
  note d = dom_setKeys [OF refl, of conf_defaults c, folded setupDefaults_def]
  show "set read_strings \<subseteq> {''binary-name'', ''out-directory'', ''target-directory''} \<union> dom (cf_strings (setupDefaults c))"
    using defaults_check(1) d(1) unfolding list_all_iff list.set by blast
  show "set read_ints \<subseteq> dom (cf_ints (setupDefaults c))" using defaults_check(2) d(2) unfolding list_all_iff by blast
  show "set read_lists \<subseteq> dom (cf_stringVectors (setupDefaults c))" using defaults_check(3) d(3) unfolding list_all_iff by blast
qed

lemma parse_arguments_le:
  "parse_arguments e st argv n = Inr c' \<Longrightarrow>
   conf_le (ps_conf st) c' \<and> {''binary-name'', ''target-directory'', ''out-directory''} \<subseteq> dom (cf_strings c')"
proof -
  assume *: "parse_arguments e st argv n = Inr c'"
  then obtain out c1 where c1: "c' = c1\<lparr>cf_programArgs := drop (n + 1) argv\<rparr>"
    "c1 = setKey (setKey (setKey (ps_conf st) ''out-directory'' (KStr out)) ''binary-name'' (KStr ''merged-kcov-output''))
            ''target-directory'' (KStr (out @ ''/merged-kcov-output'')) \<or>
     parse_binary e (setKey (ps_conf st) ''out-directory'' (KStr out)) out argv n = Inr c1"
    unfolding parse_arguments_def by (auto simp: rbind_Inr_iff Let_def split: if_splits)
  have o: "''out-directory'' \<in> dom (cf_strings (setKey (ps_conf st) ''out-directory'' (KStr out)))"
    by (simp add: setKey_fields)
  from c1(2) show ?thesis
  proof
    assume "c1 = setKey (setKey (setKey (ps_conf st) ''out-directory'' (KStr out)) ''binary-name'' (KStr ''merged-kcov-output''))
            ''target-directory'' (KStr (out @ ''/merged-kcov-output''))"
    with c1(1) show ?thesis by (auto simp: setKey_fields)
  next
    assume "parse_binary e (setKey (ps_conf st) ''out-directory'' (KStr out)) out argv n = Inr c1"
    note pb = parse_binary_le [OF this]
    have "conf_le (ps_conf st) c1" using conf_le_trans [OF setKey_le [OF conf_le_refl] conjunct1 [OF pb]] .
    moreover have "''out-directory'' \<in> dom (cf_strings c1)" using pb o unfolding conf_le_def by blast
    ultimately show ?thesis using pb c1(1) by (simp del: domIff)
  qed
qed

lemma keyAs_Inr:
  "(\<exists>v. keyAsString c k = Inr v) \<longleftrightarrow> k \<in> dom (cf_strings c)" "(\<exists>v. keyAsInt c k = Inr v) \<longleftrightarrow> k \<in> dom (cf_ints c)"
  "(\<exists>v. keyAsList c k = Inr v) \<longleftrightarrow> k \<in> dom (cf_stringVectors c)"
  by (auto simp: keyAsString_def keyAsInt_def keyAsList_def split: option.splits)

definition parse_start :: "Configuration \<Rightarrow> string \<Rightarrow> parse_state" where
  "parse_start c p =
     \<lparr> ps_conf = setKey (setupDefaults c) ''kcov-binary-path'' (KStr p), ps_extraNeeded = 2, ps_printUsage = False \<rparr>"

lemma config_parse_Inr:
  "config_parse e c opts optind argv = Inr c' \<Longrightarrow>
   \<exists>p st. parse_options e (parse_start c p) opts = Inr st \<and> parse_arguments e st argv optind = Inr c'"
  by (auto simp: config_parse_def rbind_Inr_iff Let_def parse_start_def)

lemma config_parse_keys:
  assumes "config_parse e c opts optind argv = Inr c'"
  shows "set read_strings \<subseteq> dom (cf_strings c')" "set read_ints \<subseteq> dom (cf_ints c')" "set read_lists \<subseteq> dom (cf_stringVectors c')"
proof -
  from config_parse_Inr [OF assms] obtain p st
    where st: "parse_options e (parse_start c p) opts = Inr st" and c': "parse_arguments e st argv optind = Inr c'" by blast
  have "conf_le (setupDefaults c) (ps_conf (parse_start c p))" by (simp add: parse_start_def)
  from conf_le_trans [OF conf_le_trans [OF this parse_options_le [OF st]]] parse_arguments_le [OF c']
  have "conf_le (setupDefaults c) c'" by blast
  then have dom: "dom (cf_strings (setupDefaults c)) \<subseteq> dom (cf_strings c')" "dom (cf_ints (setupDefaults c)) \<subseteq> dom (cf_ints c')"
    "dom (cf_stringVectors (setupDefaults c)) \<subseteq> dom (cf_stringVectors c')" by (simp_all add: conf_le_def)
  show "set read_strings \<subseteq> dom (cf_strings c')"
    using parse_arguments_le [OF c'] dom(1) by (intro order_trans [OF defaults_keys(1) [of c]] Un_least) (simp_all del: domIff)
  show "set read_ints \<subseteq> dom (cf_ints c')" by (rule order_trans [OF defaults_keys(2) dom(2)])
  show "set read_lists \<subseteq> dom (cf_stringVectors c')" by (rule order_trans [OF defaults_keys(3) dom(3)])
qed

text \<open>
  Property C38. A command line that is accepted leaves every key defined, at its type, that any
  part of the program reads: \<open>keyAsString\<close>, \<open>keyAsInt\<close> and \<open>keyAsList\<close> do not panic afterwards.
\<close>

theorem config_keys_defined:
  assumes "config_parse e c opts optind argv = Inr c'"
  shows "(\<forall>k \<in> set read_strings. \<exists>v. keyAsString c' k = Inr v) \<and>
    (\<forall>k \<in> set read_ints. \<exists>v. keyAsInt c' k = Inr v) \<and> (\<forall>k \<in> set read_lists. \<exists>v. keyAsList c' k = Inr v)"
  unfolding keyAs_Inr using config_parse_keys [OF assms] by blast

section \<open>Patterns on the command line\<close>

lemma configure_vectors: "configure c k v = Inr c' \<Longrightarrow> cf_stringVectors c' = cf_stringVectors c"
  by (auto dest!: configure_cases simp: setKey_fields split: key_val.splits)

lemma configure_all_vectors: "configure_all c vs = Inr c' \<Longrightarrow> cf_stringVectors c' = cf_stringVectors c"
  by (induction vs arbitrary: c) (auto simp: Let_def rbind_Inr_iff split: if_splits dest!: configure_vectors)

lemma opt_vectors:
  "opt_path_strip_level st a = Inr st' \<Longrightarrow> cf_stringVectors (ps_conf st') = cf_stringVectors (ps_conf st)"
  "opt_pid e st a = Inr st' \<Longrightarrow> cf_stringVectors (ps_conf st') = cf_stringVectors (ps_conf st)"
  "opt_limits st a = Inr st' \<Longrightarrow> cf_stringVectors (ps_conf st') = cf_stringVectors (ps_conf st)"
  "opt_replace_src_path e st a = Inr st' \<Longrightarrow> cf_stringVectors (ps_conf st') = cf_stringVectors (ps_conf st)"
  "opt_bash_method st a = Inr st' \<Longrightarrow> cf_stringVectors (ps_conf st') = cf_stringVectors (ps_conf st)"
  by (auto simp: opt_defs rbind_Inr_iff Let_def setKey_fields split: if_splits option.splits)

lemma opt_path_list_vectors:
  "opt_path_list e st k a = Inr st' \<Longrightarrow> \<exists>ps. cf_stringVectors (ps_conf st') = (cf_stringVectors (ps_conf st))(k \<mapsto> ps)"
  by (auto simp: opt_path_list_def rbind_Inr_iff setKey_fields)

definition vector_key :: "char \<Rightarrow> string" where
  "vector_key c =
     (if c = CHR ''i'' then ''include-pattern'' else if c = CHR ''x'' then ''exclude-pattern''
      else if c = CHR ''I'' then ''include-path'' else if c = CHR ''X'' then ''exclude-path''
      else if c = CHR ''J'' then ''bash-parse-file-dir'' else [])"

lemma parse_option_vectors:
  assumes "parse_option e st c a = Inr st'"
  shows "if c \<in> set ''ixIXJ''
    then \<exists>ps. cf_stringVectors (ps_conf st') = (cf_stringVectors (ps_conf st))(vector_key c \<mapsto> ps) \<and>
           (c \<in> set ''ix'' \<longrightarrow> ps = getCommaSeparatedList a)
    else cf_stringVectors (ps_conf st') = cf_stringVectors (ps_conf st)"
  using assms unfolding parse_option_def
  by (auto simp: rbind_Inr_iff setKey_fields vector_key_def NUL_def dest: opt_vectors configure_all_vectors opt_path_list_vectors
      split: if_splits)

lemma vector_key_inj: "c \<in> set ''ixIXJ'' \<Longrightarrow> d \<in> set ''ixIXJ'' \<Longrightarrow> vector_key c = vector_key d \<longleftrightarrow> c = d"
  by (auto simp: vector_key_def)

lemma parse_option_vector:
  assumes "parse_option e st c a = Inr st'" "d \<in> set ''ixIXJ''"
  shows "c \<noteq> d \<Longrightarrow> cf_stringVectors (ps_conf st') (vector_key d) = cf_stringVectors (ps_conf st) (vector_key d)"
    "c = d \<Longrightarrow> d \<in> set ''ix'' \<Longrightarrow> cf_stringVectors (ps_conf st') (vector_key d) = Some (getCommaSeparatedList a)"
  using parse_option_vectors [OF assms(1)] vector_key_inj [of c d] assms(2)
  by (auto split: if_split_asm simp del: list.set)

text \<open>The last of several options of a kind counts.\<close>

lemma parse_options_vector:
  assumes "parse_options e st opts = Inr st'" "d \<in> set ''ixIXJ''" "d \<in> set ''ix'' \<or> d \<notin> fst ` set opts"
  shows "cf_stringVectors (ps_conf st') (vector_key d) =
    (case map_of (rev opts) d of
       None \<Rightarrow> cf_stringVectors (ps_conf st) (vector_key d) | Some a \<Rightarrow> Some (getCommaSeparatedList a))"
  using assms(1,3)
proof (induction opts arbitrary: st)
  case (Cons opt opts)
  obtain c a where opt: "opt = (c, a)" by fastforce
  from Cons.prems opt obtain st1 where st1: "parse_option e st c a = Inr st1" and rest: "parse_options e st1 opts = Inr st'"
    by (auto simp: rbind_Inr_iff)
  have "d \<in> set ''ix'' \<or> d \<notin> fst ` set opts" and cd: "c = d \<Longrightarrow> d \<in> set ''ix''" using Cons.prems(2) opt by auto
  note ih = Cons.IH [OF rest this(1)]
  show ?case
  proof (cases "c = d")
    case True
    with ih parse_option_vector(2) [OF st1 assms(2) True cd [OF True]] opt show ?thesis
      by (simp add: map_add_def split: option.split)
  next
    case False
    with ih parse_option_vector(1) [OF st1 assms(2) False] opt show ?thesis
      by (simp add: map_add_def split: option.split)
  qed
qed simp

lemma parse_arguments_vectors:
  "parse_arguments e st argv n = Inr c' \<Longrightarrow> cf_stringVectors c' = cf_stringVectors (ps_conf st)"
proof -
  have pb: "cf_stringVectors c1 = cf_stringVectors c" if "parse_binary e c out argv n = Inr c1" for c c1 out
    using parse_binary_Inr [OF that] unfolding Let_def by (elim exE disjE) (simp_all add: setKey_fields)
  assume "parse_arguments e st argv n = Inr c'"
  then show ?thesis
    unfolding parse_arguments_def by (auto simp: rbind_Inr_iff Let_def setKey_fields split: if_split_asm dest!: pb)
qed

lemma defaults_vectors:
  "d \<in> set ''ixIX'' \<Longrightarrow> cf_stringVectors (ps_conf (parse_start c p)) (vector_key d) = Some []"
  unfolding parse_start_def setupDefaults_def setKeys_def conf_defaults_def
  by (auto simp: setKey_fields vector_key_def)

definition option_patterns :: "(char \<times> string) list \<Rightarrow> char \<Rightarrow> string list" where
  "option_patterns opts d = (case map_of (rev opts) d of None \<Rightarrow> [] | Some a \<Rightarrow> getCommaSeparatedList a)"

lemma config_filter_patterns:
  assumes "config_parse e c opts optind argv = Inr c'"
  shows "\<exists>fc. conf_filter c' = Inr fc \<and> conf_include_pattern fc = option_patterns opts CHR ''i'' \<and>
    conf_exclude_pattern fc = option_patterns opts CHR ''x'' \<and>
    (CHR ''I'' \<notin> fst ` set opts \<longrightarrow> conf_include_path fc = []) \<and> (CHR ''X'' \<notin> fst ` set opts \<longrightarrow> conf_exclude_path fc = [])"
proof -
  from config_parse_Inr [OF assms] obtain p st
    where st: "parse_options e (parse_start c p) opts = Inr st" and c': "parse_arguments e st argv optind = Inr c'" by blast
  have vec: "keyAsList c' (vector_key d) = Inr (option_patterns opts d)"
    if "d \<in> set ''ixIX''" "d \<in> set ''ix'' \<or> d \<notin> fst ` set opts" for d
    using parse_options_vector [OF st, of d] defaults_vectors [OF that(1), of c p] parse_arguments_vectors [OF c'] that
    by (auto simp: keyAsList_def option_patterns_def split: option.splits)
  have none: "option_patterns opts d = []" if "d \<notin> fst ` set opts" for d
    using that map_of_eq_None_iff [of "rev opts" d] by (simp add: option_patterns_def)
  have "\<exists>v. keyAsString c' k = Inr v" if "k \<in> {''exclude-line'', ''exclude-region'', ''orig-path-prefix'', ''new-path-prefix''}" for k
    unfolding keyAs_Inr using that by (intro subsetD [OF config_parse_keys(1) [OF assms]]) (auto simp: read_strings_def)
  then obtain el er op np where str: "keyAsString c' ''exclude-line'' = Inr el" "keyAsString c' ''exclude-region'' = Inr er"
    "keyAsString c' ''orig-path-prefix'' = Inr op" "keyAsString c' ''new-path-prefix'' = Inr np" by (meson insertCI)
  have "\<exists>v. keyAsList c' k = Inr v" if "k \<in> {''include-path'', ''exclude-path''}" for k
    unfolding keyAs_Inr using that by (intro subsetD [OF config_parse_keys(3) [OF assms]]) (auto simp: read_lists_def)
  then obtain ip ep where path: "keyAsList c' ''include-path'' = Inr ip" "keyAsList c' ''exclude-path'' = Inr ep" by (meson insertCI)
  have pat: "keyAsList c' ''include-pattern'' = Inr (option_patterns opts CHR ''i'')"
    "keyAsList c' ''exclude-pattern'' = Inr (option_patterns opts CHR ''x'')"
    using vec [of "CHR ''i''"] vec [of "CHR ''x''"] by (simp_all add: vector_key_def)
  have "CHR ''I'' \<notin> fst ` set opts \<longrightarrow> ip = []" "CHR ''X'' \<notin> fst ` set opts \<longrightarrow> ep = []"
    using vec [of "CHR ''I''"] vec [of "CHR ''X''"] none path by (auto simp: vector_key_def)
  then show ?thesis by (simp add: conf_filter_def str path pat)
qed

text \<open>
  The command line decides on files as documented: after an accepted command line
  without path options, a file is reported exactly when its name contains one of the
  comma-separated parts of the last \<open>--include-pattern\<close>, if there is one, and none of the parts of
  the last \<open>--exclude-pattern\<close>.
\<close>

lemma command_line_patterns:
  assumes "config_parse e c opts optind argv = Inr c'" "\<forall>opt \<in> set opts. fst opt \<noteq> CHR ''I'' \<and> fst opt \<noteq> CHR ''X''"
  shows "\<exists>fc. conf_filter c' = Inr fc \<and>
    (runFilters rp (mk_Filter rp fc) path \<longleftrightarrow>
       (\<forall>s. map_of (rev opts) CHR ''i'' = Some s \<longrightarrow> (\<exists>p \<in> set (getCommaSeparatedList s). sublist p path)) \<and>
       (\<forall>s. map_of (rev opts) CHR ''x'' = Some s \<longrightarrow> (\<forall>p \<in> set (getCommaSeparatedList s). \<not> sublist p path)))"
proof -
  obtain fc where fc: "conf_filter c' = Inr fc" "conf_include_pattern fc = option_patterns opts CHR ''i''"
    "conf_exclude_pattern fc = option_patterns opts CHR ''x''" "conf_include_path fc = []" "conf_exclude_path fc = []"
    using config_filter_patterns [OF assms(1)] assms(2) by fastforce
  have "(option_patterns opts CHR ''i'' = [] \<or> (\<exists>p \<in> set (option_patterns opts CHR ''i''). sublist p path)) \<longleftrightarrow>
      (\<forall>s. map_of (rev opts) CHR ''i'' = Some s \<longrightarrow> (\<exists>p \<in> set (getCommaSeparatedList s). sublist p path))"
    using getCommaSeparatedList_parts by (cases "map_of (rev opts) CHR ''i''") (simp_all add: option_patterns_def)
  moreover have "(\<forall>p \<in> set (option_patterns opts CHR ''x''). \<not> sublist p path) \<longleftrightarrow>
      (\<forall>s. map_of (rev opts) CHR ''x'' = Some s \<longrightarrow> (\<forall>p \<in> set (getCommaSeparatedList s). \<not> sublist p path))"
    by (cases "map_of (rev opts) CHR ''x''") (simp_all add: option_patterns_def)
  ultimately show ?thesis
    using fc by (simp add: runFilters_iff path_includeFile_iff pattern_includeFile_iff mk_Filter_def mk_PathHandler_def)
qed

lemma getCommaSeparatedList_trailing: "[] \<in> set (getCommaSeparatedList (s @ '',''))"
proof -
  let ?xs = "getCommaSeparatedList (s @ '','')"
  note parts = getCommaSeparatedList_parts [of "s @ '',''"]
  have last_join: "last (join d xs) = last (last xs)" if "xs \<noteq> []" "last xs \<noteq> []" for d :: char and xs
  proof -
    have "join d (y # ys) \<noteq> []" if "ys \<noteq> []" for y ys using that by (cases ys) auto
    with that show ?thesis by (induction d xs rule: join.induct) auto
  qed
  have "last ?xs = []"
  proof (rule ccontr)
    assume ne: "last ?xs \<noteq> []"
    with last_join [of ?xs "CHR '',''"] parts have "CHR '','' = last (last ?xs)" by simp
    with ne have "CHR '','' \<in> set (last ?xs)" by (metis last_in_set)
    moreover have "last ?xs \<in> set ?xs" using parts by simp
    ultimately show False using parts by blast
  qed
  with parts show ?thesis by (metis last_in_set)
qed

text \<open>
  A comma at the end of the exclude patterns adds the empty pattern, which occurs in
  every name: no file is reported then.
\<close>

lemma trailing_comma_excludes_all:
  assumes "config_parse e c opts optind argv = Inr c'" "map_of (rev opts) CHR ''x'' = Some (s @ '','')"
  shows "\<exists>fc. conf_filter c' = Inr fc \<and> (\<forall>path. \<not> runFilters rp (mk_Filter rp fc) path)"
proof -
  obtain fc where fc: "conf_filter c' = Inr fc" "conf_exclude_pattern fc = getCommaSeparatedList (s @ '','')"
    using config_filter_patterns [OF assms(1)] assms(2) by (auto simp: option_patterns_def)
  have "\<not> runFilters rp (mk_Filter rp fc) path" for path
    using getCommaSeparatedList_trailing [of s] fc(2)
    by (auto simp: runFilters_iff path_includeFile_iff pattern_includeFile_iff mk_Filter_def intro!: bexI [of _ "[]"])
  with fc(1) show ?thesis by blast
qed

definition demo_conf_env :: conf_env where
  "demo_conf_env =
     \<lparr> ce_lstat = (\<lambda>_. Some \<lparr> st_isdir = False, st_exec = True \<rparr>), ce_realpath = Some, ce_PATH = None, ce_HOME = None,
       ce_parserType = (\<lambda>_. None), ce_std_hash = (\<lambda>_. 0), ce_hash_file = (\<lambda>_. 0xab) \<rparr>"

definition demo_argv :: "string list" where
  "demo_argv = [''kcov'', ''--exclude-pattern=/usr,'', ''/tmp/out'', ''/bin/ls'']"

lemma demo_parse:
  "\<exists>c'. config_parse demo_conf_env mk_Configuration [(CHR ''x'', ''/usr,'')] 2 demo_argv = Inr c'"
proof -
  have "\<not> isl (config_parse demo_conf_env mk_Configuration [(CHR ''x'', ''/usr,'')] 2 demo_argv)" by code_simp
  then show ?thesis by (metis isl_def sum.exhaust)
qed

theorem config_keys_defined_witness:
  "\<exists>c' v. config_parse demo_conf_env mk_Configuration [(CHR ''x'', ''/usr,'')] 2 demo_argv = Inr c' \<and>
     keyAsString c' ''target-directory'' = Inr v"
proof -
  obtain c' where c': "config_parse demo_conf_env mk_Configuration [(CHR ''x'', ''/usr,'')] 2 demo_argv = Inr c'"
    using demo_parse by blast
  have "''target-directory'' \<in> set read_strings" by (simp add: read_strings_def)
  with config_keys_defined [OF c'] c' show ?thesis by blast
qed

lemma command_line_patterns_witness:
  "\<exists>c' fc. config_parse demo_conf_env mk_Configuration [(CHR ''x'', ''/usr,'')] 2 demo_argv = Inr c' \<and> conf_filter c' = Inr fc \<and>
     \<not> runFilters (\<lambda>p. p) (mk_Filter (\<lambda>p. p) fc) ''/usr/a.c''"
proof -
  obtain c' where c': "config_parse demo_conf_env mk_Configuration [(CHR ''x'', ''/usr,'')] 2 demo_argv = Inr c'"
    using demo_parse by blast
  have "sublist ''/usr'' ''/usr/a.c''" "''/usr'' \<in> set (getCommaSeparatedList ''/usr,'')" by code_simp+
  with command_line_patterns [OF c', of "\<lambda>p. p" "''/usr/a.c''"] c' show ?thesis by fastforce
qed

lemma trailing_comma_excludes_all_witness:
  "\<exists>c' fc. config_parse demo_conf_env mk_Configuration [(CHR ''x'', ''/usr,'')] 2 demo_argv = Inr c' \<and> conf_filter c' = Inr fc \<and>
     \<not> runFilters (\<lambda>p. p) (mk_Filter (\<lambda>p. p) fc) ''/home/me/a.c''"
proof -
  obtain c' where c': "config_parse demo_conf_env mk_Configuration [(CHR ''x'', ''/usr,'')] 2 demo_argv = Inr c'"
    using demo_parse by blast
  with trailing_comma_excludes_all [OF c', of "''/usr''" "\<lambda>p. p"] show ?thesis by auto
qed

end
