(* ===== verification/Kcov_Ptrace.thy ===== *)
theory Kcov_Ptrace
  imports Kcov_Collector
begin

text \<open>
  The ptrace engine (\<open>src/src/engines/ptrace.cc\<close> with \<open>ptrace_linux.cc\<close>) on the 64-bit
  architectures: breakpoints in the text of the traced processes and the events made of what
  \<open>waitpid\<close> reports.

  \<^item> \<open>tracee\<close> is what the kernel lets kcov see and change: for each process the words of its memory, by
    aligned address, and its program counter register.
  \<^item> \<open>Ptrace\<close> is the state of the engine; \<open>lastSignalAddress\<close>, a static variable of \<open>waitEvent\<close>, is
    a field.
  \<^item> What happens while the processes run is an argument of \<open>continueExecution\<close>: the result of the
    \<open>PTRACE_CONT\<close> call, the change of the tracees and the answer of \<open>waitpid\<close>, \<open>None\<close> for an error.
  \<^item> Registers as the kernel gives them, launching and attaching are in \<open>Kcov_PtraceSys\<close>; CPU affinity
    and waiting for the solib thread have no effect on these states.
\<close>

section \<open>Breakpoints of the architectures\<close>

datatype arch = x86_64 | powerpc | aarch64 | riscv | loongarch | sparc64

definition getAligned :: "u64 \<Rightarrow> u64" where
  "getAligned addr = (addr div 8) * 8"

definition arch_shift :: "u64 \<Rightarrow> nat" where
  "arch_shift addr = 8 * unat (addr - getAligned addr)"

definition patch :: "u64 \<Rightarrow> nat \<Rightarrow> u64 \<Rightarrow> u64 \<Rightarrow> u64" where
  "patch data shift m val = (data AND NOT (push_bit shift m)) OR push_bit shift val"

definition arch_setupBreakpoint :: "arch \<Rightarrow> u64 \<Rightarrow> u64 \<Rightarrow> u64" where
  "arch_setupBreakpoint ar addr old_data =
     (case ar of
        x86_64 \<Rightarrow> patch old_data (arch_shift addr) 0xff 0xcc
      | powerpc \<Rightarrow> 0x7fe00008
      | aarch64 \<Rightarrow> patch old_data (arch_shift addr) 0xffffffff 0xd4200000
      | riscv \<Rightarrow> 0x00100073
      | loongarch \<Rightarrow> patch old_data (arch_shift addr) 0xffffffff 0x002a0004
      | sparc64 \<Rightarrow> patch old_data (arch_shift addr) 0xffffffff 0x91d02001)"

definition arch_clearBreakpoint :: "arch \<Rightarrow> u64 \<Rightarrow> u64 \<Rightarrow> u64 \<Rightarrow> u64" where
  "arch_clearBreakpoint ar addr old_data cur_data =
     (case ar of
        x86_64 \<Rightarrow> patch cur_data (arch_shift addr) 0xff (drop_bit (arch_shift addr) old_data AND 0xff)
      | _ \<Rightarrow> old_data)"

section \<open>The traced processes: \<open>ptrace_sys\<close>\<close>

record tracee =
  tr_mem :: "int \<Rightarrow> u64 \<Rightarrow> u64"
  tr_pc :: "int \<Rightarrow> u64"

definition peekWord :: "tracee \<Rightarrow> int \<Rightarrow> u64 \<Rightarrow> u64" where
  "peekWord w pid aligned_addr = tr_mem w pid aligned_addr"

definition pokeWord :: "tracee \<Rightarrow> int \<Rightarrow> u64 \<Rightarrow> u64 \<Rightarrow> tracee" where
  "pokeWord w pid aligned_addr val = w\<lparr>tr_mem := (tr_mem w)(pid := (tr_mem w pid)(aligned_addr := val))\<rparr>"

definition getPc :: "arch \<Rightarrow> tracee \<Rightarrow> int \<Rightarrow> u64" where
  "getPc ar w pid = (if ar = x86_64 then tr_pc w pid - 1 else tr_pc w pid)"

definition singleStep :: "arch \<Rightarrow> tracee \<Rightarrow> int \<Rightarrow> tracee" where
  "singleStep ar w pid = (if ar = x86_64 then w\<lparr>tr_pc := (tr_pc w)(pid := tr_pc w pid - 1)\<rparr> else w)"

definition skipInstruction :: "arch \<Rightarrow> tracee \<Rightarrow> int \<Rightarrow> tracee" where
  "skipInstruction ar w pid =
     (if ar \<in> {powerpc, aarch64, loongarch} then w\<lparr>tr_pc := (tr_pc w)(pid := tr_pc w pid + 4)\<rparr> else w)"

definition SIGILL :: u32 where "SIGILL = 4"

definition SIGTRAP :: u32 where "SIGTRAP = 5"

definition SIGSTOP :: u32 where "SIGSTOP = 19"

definition SIGSYS :: u32 where "SIGSYS = 31"

text \<open>The status word of \<open>waitpid\<close>: stopped by a signal with an event, terminated by a signal, exited.\<close>

datatype pt_status = PStopped u32 u32 | PSignaled u32 | PExited u32 | POther

definition eventIsForky :: "u32 \<Rightarrow> u32 \<Rightarrow> bool" where
  "eventIsForky sig event = (sig = SIGTRAP \<and> event \<in> {1, 2, 3})"

definition eventIsNewChild :: "u32 \<Rightarrow> u32 \<Rightarrow> bool" where
  "eventIsNewChild sig event = False"

section \<open>The engine\<close>

record Ptrace =
  pt_instructionMap :: "u64 \<rightharpoonup> u64"
  pt_pendingBreakpoints :: "u64 list"
  pt_firstBreakpoint :: bool
  pt_activeChild :: int
  pt_firstChild :: int
  pt_children :: "int set"
  pt_signal :: u32
  pt_lastSignalAddress :: u64

definition mk_Ptrace :: Ptrace where
  "mk_Ptrace =
     \<lparr> pt_instructionMap = (\<lambda>_. None), pt_pendingBreakpoints = [], pt_firstBreakpoint = True, pt_activeChild = 0,
       pt_firstChild = 0, pt_children = {}, pt_signal = 0, pt_lastSignalAddress = 0 \<rparr>"

text \<open>The state after \<open>start\<close> has forked or attached to a process.\<close>

definition started :: "int \<Rightarrow> Ptrace" where
  "started pid = mk_Ptrace\<lparr>pt_activeChild := pid, pt_firstChild := pid\<rparr>"

definition registerBreakpoint :: "Ptrace \<Rightarrow> tracee \<Rightarrow> u64 \<Rightarrow> int \<times> Ptrace" where
  "registerBreakpoint p w addr =
     (if addr = 0 then (- 1, p)
      else if pt_instructionMap p addr \<noteq> None then (0, p)
      else let data = peekWord w (pt_activeChild p) (getAligned addr)
           in (0, p\<lparr>pt_instructionMap := (pt_instructionMap p)(addr \<mapsto> data),
                    pt_pendingBreakpoints := pt_pendingBreakpoints p @ [addr]\<rparr>))"

definition clearBreakpoint :: "arch \<Rightarrow> Ptrace \<Rightarrow> tracee \<Rightarrow> u64 \<Rightarrow> bool \<times> tracee" where
  "clearBreakpoint ar p w addr =
     (case pt_instructionMap p addr of
        None \<Rightarrow> (False, w)
      | Some old \<Rightarrow>
          (let val = arch_clearBreakpoint ar addr old (peekWord w (pt_activeChild p) (getAligned addr))
           in (True, pokeWord w (pt_activeChild p) (getAligned addr) val)))"

fun setup_breakpoints :: "arch \<Rightarrow> int \<Rightarrow> tracee \<Rightarrow> u64 list \<Rightarrow> tracee" where
  "setup_breakpoints ar pid w [] = w"
| "setup_breakpoints ar pid w (addr # addrs) =
     (let cur_data = peekWord w pid (getAligned addr)
      in setup_breakpoints ar pid (pokeWord w pid (getAligned addr) (arch_setupBreakpoint ar addr cur_data)) addrs)"

definition setupAllBreakpoints :: "arch \<Rightarrow> Ptrace \<Rightarrow> tracee \<Rightarrow> Ptrace \<times> tracee" where
  "setupAllBreakpoints ar p w =
     (p\<lparr>pt_pendingBreakpoints := []\<rparr>, setup_breakpoints ar (pt_activeChild p) w (pt_pendingBreakpoints p))"

definition childrenLeft :: "Ptrace \<Rightarrow> bool" where
  "childrenLeft p = (pt_children p \<noteq> {} \<and> pt_firstChild p \<in> pt_children p)"

definition stop_signal :: "arch \<Rightarrow> u32 \<Rightarrow> bool" where
  "stop_signal ar sig = (sig = SIGTRAP \<or> sig = SIGSTOP \<or> sig = (if ar = aarch64 then SIGILL else SIGSYS))"

definition waitEvent :: "arch \<Rightarrow> Ptrace \<Rightarrow> tracee \<Rightarrow> (int \<times> pt_status) option \<Rightarrow> Event \<times> Ptrace \<times> tracee" where
  "waitEvent ar p w wait =
     (case wait of
        None \<Rightarrow> (mk_Event ev_error (- 1) 0, p, w)
      | Some (who, status) \<Rightarrow>
          let p = p\<lparr>pt_children := insert who (pt_children p), pt_activeChild := who\<rparr>; addr = getPc ar w who
          in case status of
            PStopped sig event \<Rightarrow>
              if eventIsNewChild sig event \<or> eventIsForky sig event
              then (mk_Event ev_signal 0 addr, p\<lparr>pt_lastSignalAddress := addr\<rparr>, w)
              else if stop_signal ar sig
              then let insnFound = (pt_instructionMap p addr \<noteq> None);
                       w = (if insnFound then singleStep ar w who
                            else if sig \<noteq> SIGSTOP then skipInstruction ar w who else w);
                       p = (if pt_firstBreakpoint p \<and> insnFound then p\<lparr>pt_firstBreakpoint := False\<rparr> else p)
                   in (mk_Event ev_breakpoint (- 1) addr, p, w)
              else (mk_Event ev_signal sig addr, p\<lparr>pt_lastSignalAddress := addr\<rparr>, w)
          | PSignaled sig \<Rightarrow>
              let p = p\<lparr>pt_children := pt_children p - {who}\<rparr>
              in (mk_Event (if childrenLeft p then ev_signal else ev_signal_exit) sig (pt_lastSignalAddress p), p, w)
          | PExited code \<Rightarrow>
              (mk_Event (if who = pt_firstChild p then ev_exit_first_process else ev_exit) code addr,
               p\<lparr>pt_children := pt_children p - {who}\<rparr>, w)
          | POther \<Rightarrow> (mk_Event ev_error (- 1) addr, p, w))"

definition continueExecution ::
  "arch \<Rightarrow> Ptrace \<Rightarrow> tracee \<Rightarrow> bool \<Rightarrow> (tracee \<Rightarrow> tracee) \<Rightarrow> (int \<times> pt_status) option \<Rightarrow> bool \<times> Event \<times> Ptrace \<times> tracee" where
  "continueExecution ar p w contFailed run wait =
     (let (p1, w1) = setupAllBreakpoints ar p w;
          p2 = (if contFailed then p1\<lparr>pt_children := pt_children p1 - {pt_activeChild p1}\<rparr> else p1);
          (ev, p3, w3) = waitEvent ar p2 (run w1) wait;
          p4 = p3\<lparr>pt_signal := (if ev_type ev = ev_signal then ev_data ev else 0)\<rparr>;
          w4 = (if ev_type ev = ev_breakpoint then snd (clearBreakpoint ar p4 w3 (ev_addr ev)) else w3)
      in (ev_type ev \<noteq> ev_error, ev, p4, w4))"

text \<open>\<open>PtraceEngineCreator::matchFile\<close>\<close>

definition ptrace_matchFile :: "string \<Rightarrow> nat" where
  "ptrace_matchFile data = (if prefix [CHR 0x7F, CHR ''E'', CHR ''L'', CHR ''F''] data then match_perfect else 1)"

end
