(* ===== verification/Kcov_Ptrace_Props.thy ===== *)
theory Kcov_Ptrace_Props
  imports Kcov_Ptrace
begin

text \<open>
  Correctness of the ptrace engine: breakpoints change one byte of the traced text each, a hit
  breakpoint is taken out again and stays out, and everything else of the text is what it was.
\<close>

section \<open>Bytes of the text\<close>

definition byte_at :: "(u64 \<Rightarrow> u64) \<Rightarrow> u64 \<Rightarrow> byte" where
  "byte_at mem a = ucast (drop_bit (arch_shift a) (mem (getAligned a)))"

lemma arch_shift_eq: "arch_shift a = 8 * (unat a mod 8)"
proof -
  have "a - getAligned a = a mod 8" by (simp add: getAligned_def minus_div_mult_eq_mod)
  then show ?thesis by (simp add: arch_shift_def unat_mod)
qed

lemma arch_shift_less: "arch_shift a < 64" "8 dvd arch_shift a"
  by (auto simp: arch_shift_eq)

lemma address_eq: "getAligned a = getAligned b \<Longrightarrow> arch_shift a = arch_shift b \<Longrightarrow> a = b"
proof -
  assume eq: "getAligned a = getAligned b" "arch_shift a = arch_shift b"
  have "unat (a mod 8) = unat (b mod 8)" using eq(2) by (simp add: arch_shift_eq unat_mod)
  then have "a mod 8 = b mod 8" by (rule unsigned_word_eqI)
  moreover have "a = getAligned a + a mod 8" "b = getAligned b + b mod 8"
    unfolding getAligned_def by (simp_all only: div_mult_mod_eq)
  ultimately show "a = b" using eq(1) by metis
qed

lemma bit_patch:
  assumes "v AND 0xff = v" "n < 64"
  shows "bit (patch d s 0xff v) n \<longleftrightarrow> (if s \<le> n \<and> n < s + 8 then bit v (n - s) else bit d n)"
proof -
  have m: "(0xff :: u64) = mask 8" by (simp add: mask_eq_exp_minus_1)
  have v: "bit v k \<Longrightarrow> k < 8" for k using assms(1) by (metis m bit_and_iff bit_mask_iff)
  show ?thesis using assms(2) by (auto simp: patch_def m bit_simps dest: v)
qed

lemma byte_patch:
  fixes v :: u64
  assumes "v AND 0xff = v" "s < 64" "8 dvd s" "t < 64" "8 dvd t"
  shows "(ucast (drop_bit t (patch d s 0xff v)) :: byte) = (if s = t then ucast v else ucast (drop_bit t d))"
proof (rule bit_word_eqI)
  fix n assume "n < LENGTH(8)"
  then have n: "n < 8" by simp
  have tn: "t + n < 64" using assms(4,5) n by (auto elim!: dvdE)
  have "s \<le> t + n \<and> t + n < s + 8 \<longleftrightarrow> s = t" using assms(3,5) n by (auto elim!: dvdE)
  with bit_patch [OF assms(1) tn, of d s]
  have p: "bit (patch d s 0xff v) (t + n) \<longleftrightarrow> (if s = t then bit v n else bit d (t + n))" by auto
  have u: "bit (ucast x :: byte) n = bit x n" for x :: u64 using n by (simp add: bit_ucast_iff)
  show "bit (ucast (drop_bit t (patch d s 0xff v)) :: byte) n = bit (if s = t then ucast v else ucast (drop_bit t d) :: byte) n"
    using p by (cases "s = t") (simp_all only: u bit_drop_bit_eq comp_def if_True if_False simp_thms)
qed

definition patch_mem :: "(u64 \<Rightarrow> u64) \<Rightarrow> u64 \<Rightarrow> u64 \<Rightarrow> u64 \<Rightarrow> u64" where
  "patch_mem mem a v = mem(getAligned a := patch (mem (getAligned a)) (arch_shift a) 0xff v)"

lemma byte_at_patch_mem:
  assumes "v AND 0xff = v"
  shows "byte_at (patch_mem mem a v) b = (if b = a then ucast v else byte_at mem b)"
proof (cases "getAligned b = getAligned a")
  case True
  then have "byte_at (patch_mem mem a v) b = ucast (drop_bit (arch_shift b) (patch (mem (getAligned a)) (arch_shift a) 0xff v))"
    unfolding byte_at_def patch_mem_def by (simp only: fun_upd_same)
  also have "\<dots> = (if arch_shift a = arch_shift b then ucast v else byte_at mem b)"
    unfolding byte_at_def True using assms arch_shift_less by (intro byte_patch)
  also have "arch_shift a = arch_shift b \<longleftrightarrow> b = a" using True address_eq [of a b] by metis
  finally show ?thesis .
next
  case False
  then have "b \<noteq> a" by blast
  with False show ?thesis unfolding byte_at_def patch_mem_def by (simp only: fun_upd_apply if_False simp_thms)
qed

section \<open>The operations on x86\<close>

lemma setup_mem:
  "tr_mem (pokeWord w pid (getAligned a) (arch_setupBreakpoint x86_64 a (peekWord w pid (getAligned a)))) pid =
   patch_mem (tr_mem w pid) a 0xcc"
  by (simp add: pokeWord_def peekWord_def patch_mem_def arch_setupBreakpoint_def)

lemma setup_breakpoints_byte:
  "byte_at (tr_mem (setup_breakpoints x86_64 pid w as) pid) b = (if b \<in> set as then 0xcc else byte_at (tr_mem w pid) b)"
proof (induction as arbitrary: w)
  case (Cons a as)
  have "byte_at (patch_mem (tr_mem w pid) a 0xcc) c = (if c = a then 0xcc else byte_at (tr_mem w pid) c)" for c
    using byte_at_patch_mem [of "0xcc" "tr_mem w pid" a c] by simp
  with Cons.IH show ?case by (simp add: Let_def setup_mem)
qed simp

lemma clear_byte:
  assumes "pt_instructionMap p a = Some old"
  shows "byte_at (tr_mem (snd (clearBreakpoint x86_64 p w a)) (pt_activeChild p)) b =
    (if b = a then ucast (drop_bit (arch_shift a) old) else byte_at (tr_mem w (pt_activeChild p)) b)"
proof -
  let ?v = "drop_bit (arch_shift a) old AND 0xff"
  have "tr_mem (snd (clearBreakpoint x86_64 p w a)) (pt_activeChild p) = patch_mem (tr_mem w (pt_activeChild p)) a ?v"
    using assms by (simp add: clearBreakpoint_def pokeWord_def peekWord_def patch_mem_def arch_clearBreakpoint_def Let_def)
  moreover have "?v AND 0xff = ?v" by (simp add: and.assoc)
  moreover have "(ucast ?v :: byte) = ucast (drop_bit (arch_shift a) old)"
  proof (rule bit_word_eqI)
    fix n assume "n < LENGTH(8)"
    moreover have m: "(0xff :: u64) = mask 8" by (simp add: mask_eq_exp_minus_1)
    ultimately show "bit (ucast ?v :: byte) n = bit (ucast (drop_bit (arch_shift a) old) :: byte) n"
      unfolding m by (auto simp: bit_simps)
  qed
  ultimately show ?thesis using byte_at_patch_mem [of ?v] by simp
qed

section \<open>Runs of one process\<close>

text \<open>
  The engine with one process (its threads share the text): lines found by the parser register
  breakpoints, and the process runs until \<open>waitpid\<close> reports it. The program does not write to its
  own text.
\<close>

definition text_kept :: "int \<Rightarrow> (tracee \<Rightarrow> tracee) \<Rightarrow> bool" where
  "text_kept pid run = (\<forall>w. tr_mem (run w) pid = tr_mem w pid)"

inductive pt_step :: "int \<Rightarrow> Ptrace \<times> tracee \<Rightarrow> Ptrace \<times> tracee \<Rightarrow> bool" for pid where
  register: "pt_step pid (p, w) (snd (registerBreakpoint p w a), w)"
| go_on: "text_kept pid run \<Longrightarrow> \<forall>who st. wait = Some (who, st) \<longrightarrow> who = pid \<Longrightarrow>
     continueExecution x86_64 p w cf run wait = (r, ev, p', w') \<Longrightarrow> pt_step pid (p, w) (p', w')"

definition pt_init :: "(u64 \<Rightarrow> u64) \<Rightarrow> int \<Rightarrow> Ptrace \<times> tracee \<Rightarrow> bool" where
  "pt_init m0 pid s = (fst s = started pid \<and> tr_mem (snd s) pid = m0)"

definition bp_inv :: "(u64 \<Rightarrow> u64) \<Rightarrow> int \<Rightarrow> u64 set \<Rightarrow> Ptrace \<times> tracee \<Rightarrow> bool" where
  "bp_inv m0 pid act s =
     (case s of (p, w) \<Rightarrow>
        pt_activeChild p = pid \<and> set (pt_pendingBreakpoints p) \<subseteq> dom (pt_instructionMap p) \<and>
        act \<subseteq> dom (pt_instructionMap p) - set (pt_pendingBreakpoints p) \<and>
        (\<forall>a. byte_at (tr_mem w pid) a = (if a \<in> act then 0xcc else byte_at m0 a)) \<and>
        (\<forall>a old. pt_instructionMap p a = Some old \<longrightarrow> ucast (drop_bit (arch_shift a) old) = byte_at m0 a))"

lemma register_inv:
  assumes "bp_inv m0 pid act (p, w)"
  shows "bp_inv m0 pid act (snd (registerBreakpoint p w a), w)"
proof (cases "a = 0 \<or> pt_instructionMap p a \<noteq> None")
  case True
  then show ?thesis using assms by (auto simp: registerBreakpoint_def)
next
  case False
  then have "a \<notin> act" using assms by (auto simp: bp_inv_def)
  then have "byte_at (tr_mem w pid) a = byte_at m0 a" using assms by (simp add: bp_inv_def)
  then have "ucast (drop_bit (arch_shift a) (tr_mem w pid (getAligned a))) = byte_at m0 a"
    by (simp add: byte_at_def)
  with False assms show ?thesis by (auto simp: registerBreakpoint_def bp_inv_def peekWord_def Let_def)
qed

lemma waitEvent_frame:
  assumes "waitEvent ar p w wait = (ev, p', w')" "\<forall>who st. wait = Some (who, st) \<longrightarrow> who = pid" "pt_activeChild p = pid"
  shows "tr_mem w' = tr_mem w" "pt_instructionMap p' = pt_instructionMap p"
    "pt_pendingBreakpoints p' = pt_pendingBreakpoints p" "pt_activeChild p' = pid"
proof -
  have "tr_mem w' = tr_mem w \<and> pt_instructionMap p' = pt_instructionMap p \<and>
    pt_pendingBreakpoints p' = pt_pendingBreakpoints p \<and> pt_activeChild p' = pid"
    using assms
    by (cases wait)
       (auto simp: waitEvent_def Let_def singleStep_def skipInstruction_def split: prod.splits pt_status.splits if_splits)
  then show "tr_mem w' = tr_mem w" "pt_instructionMap p' = pt_instructionMap p"
    "pt_pendingBreakpoints p' = pt_pendingBreakpoints p" "pt_activeChild p' = pid" by simp_all
qed

lemma go_on_inv:
  assumes "bp_inv m0 pid act (p, w)" "text_kept pid run" "\<forall>who st. wait = Some (who, st) \<longrightarrow> who = pid"
    and "continueExecution x86_64 p w cf run wait = (r, ev, p', w')"
  shows "bp_inv m0 pid (act \<union> set (pt_pendingBreakpoints p) - (if ev_type ev = ev_breakpoint then {ev_addr ev} else {})) (p', w')"
    and "pt_instructionMap p' = pt_instructionMap p" "pt_pendingBreakpoints p' = []"
proof -
  let ?act = "act \<union> set (pt_pendingBreakpoints p)"
  let ?w1 = "setup_breakpoints x86_64 pid w (pt_pendingBreakpoints p)"
  have pid: "pt_activeChild p = pid" using assms(1) by (simp add: bp_inv_def)
  define p2 where "p2 = (if cf then p\<lparr>pt_pendingBreakpoints := [], pt_children := pt_children p - {pid}\<rparr>
    else p\<lparr>pt_pendingBreakpoints := []\<rparr>)"
  obtain p3 w3 where w3: "waitEvent x86_64 p2 (run ?w1) wait = (ev, p3, w3)"
    and p': "p' = p3\<lparr>pt_signal := (if ev_type ev = ev_signal then ev_data ev else 0)\<rparr>"
    and w': "w' = (if ev_type ev = ev_breakpoint then snd (clearBreakpoint x86_64 p' w3 (ev_addr ev)) else w3)"
    using assms(4) pid by (auto simp: continueExecution_def setupAllBreakpoints_def Let_def p2_def split: prod.splits if_splits)
  have fr: "tr_mem w3 = tr_mem (run ?w1)" "pt_instructionMap p3 = pt_instructionMap p" "pt_pendingBreakpoints p3 = []"
    "pt_activeChild p3 = pid"
    using waitEvent_frame [OF w3 assms(3)] pid by (simp_all add: p2_def split: if_splits)
  then show "pt_instructionMap p' = pt_instructionMap p" "pt_pendingBreakpoints p' = []" by (simp_all add: p')
  have m3: "byte_at (tr_mem w3 pid) a = (if a \<in> ?act then 0xcc else byte_at m0 a)" for a
    using setup_breakpoints_byte [of pid w "pt_pendingBreakpoints p" a] assms(1,2) fr(1)
    by (auto simp: text_kept_def bp_inv_def)
  have old: "ucast (drop_bit (arch_shift a) old) = byte_at m0 a" if "pt_instructionMap p a = Some old" for a old
    using that assms(1) by (simp add: bp_inv_def)
  have dom: "?act \<subseteq> dom (pt_instructionMap p)" using assms(1) by (auto simp: bp_inv_def)
  have "byte_at (tr_mem w' pid) a =
      (if a \<in> ?act - (if ev_type ev = ev_breakpoint then {ev_addr ev} else {}) then 0xcc else byte_at m0 a)" for a
  proof (cases "ev_type ev = ev_breakpoint \<and> ev_addr ev \<in> dom (pt_instructionMap p)")
    case True
    then obtain v where v: "pt_instructionMap p (ev_addr ev) = Some v" by blast
    have "pt_instructionMap p' (ev_addr ev) = Some v" "pt_activeChild p' = pid" using v fr by (simp_all add: p')
    from clear_byte [OF this(1), of w3 a] this(2) True m3 old [OF v] w' show ?thesis by auto
  next
    case False
    then have "w' = w3" using fr(2) by (auto simp: w' p' clearBreakpoint_def split: option.splits)
    moreover have "ev_type ev = ev_breakpoint \<Longrightarrow> ev_addr ev \<notin> ?act" using False dom by blast
    ultimately show ?thesis using m3 by auto
  qed
  with dom old fr show "bp_inv m0 pid (?act - (if ev_type ev = ev_breakpoint then {ev_addr ev} else {})) (p', w')"
    by (auto simp: bp_inv_def p')
qed

interpretation breakpoints: step_invariant "pt_init m0 pid" "pt_step pid" "\<lambda>s. \<exists>act. bp_inv m0 pid act s"
proof unfold_locales
  fix s assume "pt_init m0 pid s"
  then have "bp_inv m0 pid {} s" by (cases s) (simp add: pt_init_def bp_inv_def started_def mk_Ptrace_def)
  then show "\<exists>act. bp_inv m0 pid act s" ..
next
  fix s t assume "\<exists>act. bp_inv m0 pid act s" "pt_step pid s t"
  then obtain act where act: "bp_inv m0 pid act s" by blast
  from \<open>pt_step pid s t\<close> show "\<exists>act. bp_inv m0 pid act t"
  proof cases
    case (register p w a)
    with act show ?thesis using register_inv by blast
  next
    case (go_on run wait p w cf r ev p' w')
    from go_on_inv(1) [OF _ go_on(3,4,5)] act go_on(1,2) show ?thesis by blast
  qed
qed

text \<open>A breakpoint that has been taken out: registered, not waiting to be set, not set.\<close>

definition bp_cleared :: "(u64 \<Rightarrow> u64) \<Rightarrow> int \<Rightarrow> u64 \<Rightarrow> Ptrace \<times> tracee \<Rightarrow> bool" where
  "bp_cleared m0 pid a s =
     (\<exists>act. bp_inv m0 pid act s \<and> a \<notin> act \<and> a \<in> dom (pt_instructionMap (fst s)) \<and> a \<notin> set (pt_pendingBreakpoints (fst s)))"

lemma register_keeps:
  "a \<in> dom (pt_instructionMap p) \<Longrightarrow> a \<in> dom (pt_instructionMap (snd (registerBreakpoint p w b)))"
  "a \<in> dom (pt_instructionMap p) \<Longrightarrow> a \<notin> set (pt_pendingBreakpoints p) \<Longrightarrow>
     a \<notin> set (pt_pendingBreakpoints (snd (registerBreakpoint p w b)))"
  by (auto simp: registerBreakpoint_def Let_def)

interpretation cleared: step_invariant "bp_cleared m0 pid a" "pt_step pid" "bp_cleared m0 pid a"
proof unfold_locales
  fix s t assume "bp_cleared m0 pid a s" and step: "pt_step pid s t"
  then obtain act where act: "bp_inv m0 pid act s" "a \<notin> act" "a \<in> dom (pt_instructionMap (fst s))"
    "a \<notin> set (pt_pendingBreakpoints (fst s))" by (auto simp: bp_cleared_def)
  from step show "bp_cleared m0 pid a t"
  proof cases
    case (register p w b)
    with act register_keeps [of a p] register_inv show ?thesis
      unfolding bp_cleared_def by (intro exI [of _ act]) auto
  next
    case (go_on run wait p w cf r ev p' w')
    have "bp_inv m0 pid act (p, w)" using act go_on(1) by simp
    note i = go_on_inv [OF this go_on(3,4,5)]
    show ?thesis unfolding bp_cleared_def using i act go_on(1,2)
      by (intro exI [of _ "act \<union> set (pt_pendingBreakpoints p) - (if ev_type ev = ev_breakpoint then {ev_addr ev} else {})"])
        auto
  qed
qed

lemma cleared_byte: "bp_cleared m0 pid a (p, w) \<Longrightarrow> byte_at (tr_mem w pid) a = byte_at m0 a"
  by (auto simp: bp_cleared_def bp_inv_def)

text \<open>After a breakpoint at a registered address the program counter is moved back to that address.\<close>

lemma pc_at_breakpoint:
  assumes "continueExecution x86_64 p w cf run wait = (r, ev, p', w')" "\<forall>who st. wait = Some (who, st) \<longrightarrow> who = pid"
    and "ev_type ev = ev_breakpoint" "ev_addr ev \<in> dom (pt_instructionMap p)"
  shows "tr_pc w' pid = ev_addr ev"
  using assms
  by (cases wait)
     (auto simp: continueExecution_def setupAllBreakpoints_def waitEvent_def Let_def mk_Event_def getPc_def singleStep_def
       clearBreakpoint_def pokeWord_def split: prod.splits pt_status.splits if_splits option.splits)

section \<open>Properties\<close>

text \<open>
  Property C17. On x86-64, with one traced process that does not write to its own text: whatever breakpoints are
  registered between the steps and however often the process is continued and stops, each byte of its text is
  what it was when the engine started, or it is the breakpoint instruction at an address that was registered and
  set. So setting and clearing breakpoints that share a word leaves the other bytes of the word alone. (On the other
  architectures the code replaces whole words, where this is not so.)
\<close>

theorem breakpoint_text:
  assumes "pt_init m0 pid s" "(pt_step pid)\<^sup>*\<^sup>* s (p, w)"
  shows "byte_at (tr_mem w pid) a = byte_at m0 a \<or>
    byte_at (tr_mem w pid) a = 0xcc \<and> a \<in> dom (pt_instructionMap p) - set (pt_pendingBreakpoints p)"
proof -
  obtain act where "bp_inv m0 pid act (p, w)" using breakpoints.inv_reachable [OF assms] by blast
  then show ?thesis by (cases "a \<in> act") (auto simp: bp_inv_def)
qed

lemma run_example:
  "(pt_step 7)\<^sup>*\<^sup>* (started 7, \<lparr>tr_mem = \<lambda>_ _. 0, tr_pc = \<lambda>_. 0\<rparr>)
     (snd (registerBreakpoint (started 7) \<lparr>tr_mem = \<lambda>_ _. 0, tr_pc = \<lambda>_. 0\<rparr> 0x401001), \<lparr>tr_mem = \<lambda>_ _. 0, tr_pc = \<lambda>_. 0\<rparr>)"
  by (rule r_into_rtranclp) (rule pt_step.register)

theorem breakpoint_text_witness:
  "let p = snd (registerBreakpoint (started 7) \<lparr>tr_mem = \<lambda>_ _. 0, tr_pc = \<lambda>_. 0\<rparr> 0x401001);
       (r, ev, p', w') = continueExecution x86_64 p \<lparr>tr_mem = \<lambda>_ _. 0, tr_pc = \<lambda>_. 0\<rparr> False (\<lambda>w. w) (Some (7, PExited 0))
   in pt_instructionMap p' 0x401001 = Some 0 \<and>
      (byte_at (tr_mem w' 7) 0x401001 = byte_at (\<lambda>_. 0) 0x401001 \<or>
       byte_at (tr_mem w' 7) 0x401001 = 0xcc \<and> 0x401001 \<in> dom (pt_instructionMap p') - set (pt_pendingBreakpoints p'))"
proof -
  let ?w = "\<lparr>tr_mem = \<lambda>_ _. 0, tr_pc = \<lambda>_. 0\<rparr>" and ?p = "snd (registerBreakpoint (started 7) \<lparr>tr_mem = \<lambda>_ _. 0, tr_pc = \<lambda>_. 0\<rparr> 0x401001)"
  obtain r ev p' w' where c: "continueExecution x86_64 ?p ?w False (\<lambda>w. w) (Some (7, PExited 0)) = (r, ev, p', w')"
    by (rule prod_cases4)
  then have "pt_step 7 (?p, ?w) (p', w')" by (intro pt_step.go_on [OF _ _ c]) (auto simp: text_kept_def)
  with run_example have "(pt_step 7)\<^sup>*\<^sup>* (started 7, ?w) (p', w')" by (rule rtranclp.rtrancl_into_rtrancl)
  moreover have "pt_init (\<lambda>_. 0) 7 (started 7, ?w)" by (simp add: pt_init_def)
  ultimately have t: "byte_at (tr_mem w' 7) 0x401001 = byte_at (\<lambda>_. 0) 0x401001 \<or>
       byte_at (tr_mem w' 7) 0x401001 = 0xcc \<and> 0x401001 \<in> dom (pt_instructionMap p') - set (pt_pendingBreakpoints p')"
    using breakpoint_text by blast
  have "pt_instructionMap p' 0x401001 = Some 0" using c
    by (auto simp: continueExecution_def setupAllBreakpoints_def waitEvent_def registerBreakpoint_def started_def mk_Ptrace_def
      peekWord_def Let_def mk_Event_def)
  with t c show ?thesis by (simp only: Let_def prod.case)
qed

text \<open>
  Property C18. On x86-64, with one traced process that does not write to its own text, a breakpoint is a
  one-shot: when \<open>continueExecution\<close> has reported a breakpoint at a registered address, the byte there is the
  original one, and the program counter has been moved back to it, so that the process goes on with the original
  instruction; and the byte stays the original one for the rest of the run, however often the line at that
  address is registered again.
\<close>

theorem breakpoint_once:
  assumes "pt_init m0 pid s" "(pt_step pid)\<^sup>*\<^sup>* s (p, w)" "text_kept pid run"
    and "\<forall>who st. wait = Some (who, st) \<longrightarrow> who = pid"
    and "continueExecution x86_64 p w cf run wait = (r, ev, p', w')"
    and "ev_type ev = ev_breakpoint" "ev_addr ev \<in> dom (pt_instructionMap p)"
    and "(pt_step pid)\<^sup>*\<^sup>* (p', w') (p'', w'')"
  shows "tr_pc w' pid = ev_addr ev \<and> byte_at (tr_mem w' pid) (ev_addr ev) = byte_at m0 (ev_addr ev) \<and>
    byte_at (tr_mem w'' pid) (ev_addr ev) = byte_at m0 (ev_addr ev)"
proof -
  obtain act where "bp_inv m0 pid act (p, w)" using breakpoints.inv_reachable [OF assms(1,2)] by blast
  from go_on_inv [OF this assms(3-5)] assms(6,7)
  have "bp_cleared m0 pid (ev_addr ev) (p', w')"
    unfolding bp_cleared_def by (intro exI [of _ "act \<union> set (pt_pendingBreakpoints p) - {ev_addr ev}"]) auto
  then show ?thesis
    using cleared.inv_steps [OF assms(8)] cleared_byte pc_at_breakpoint [OF assms(5,4,6,7)] by blast
qed

lemma run_stop_example:
  "\<exists>p' w'. continueExecution x86_64 (snd (registerBreakpoint (started 7) \<lparr>tr_mem = \<lambda>_ _. 0, tr_pc = \<lambda>_. 0\<rparr> 0x401001))
      \<lparr>tr_mem = \<lambda>_ _. 0, tr_pc = \<lambda>_. 0\<rparr> False (\<lambda>w. w\<lparr>tr_pc := \<lambda>_. 0x401002\<rparr>) (Some (7, PStopped 5 0)) =
    (True, mk_Event ev_breakpoint (- 1) 0x401001, p', w')"
  by (simp add: continueExecution_def setupAllBreakpoints_def waitEvent_def registerBreakpoint_def started_def
      mk_Ptrace_def Let_def mk_Event_def eventIsNewChild_def eventIsForky_def SIGTRAP_def stop_signal_def getPc_def
      peekWord_def singleStep_def pokeWord_def)

theorem breakpoint_once_witness:
  "\<exists>r ev p' w'. continueExecution x86_64 (snd (registerBreakpoint (started 7) \<lparr>tr_mem = \<lambda>_ _. 0, tr_pc = \<lambda>_. 0\<rparr> 0x401001))
      \<lparr>tr_mem = \<lambda>_ _. 0, tr_pc = \<lambda>_. 0\<rparr> False (\<lambda>w. w\<lparr>tr_pc := \<lambda>_. 0x401002\<rparr>) (Some (7, PStopped 5 0)) = (r, ev, p', w') \<and>
     ev_type ev = ev_breakpoint \<and> ev_addr ev = 0x401001 \<and> tr_pc w' 7 = 0x401001 \<and> byte_at (tr_mem w' 7) 0x401001 = byte_at (\<lambda>_. 0) 0x401001"
proof -
  let ?w = "\<lparr>tr_mem = \<lambda>_ _. 0, tr_pc = \<lambda>_. 0\<rparr>" and ?p = "snd (registerBreakpoint (started 7) \<lparr>tr_mem = \<lambda>_ _. 0, tr_pc = \<lambda>_. 0\<rparr> 0x401001)"
  let ?ev = "mk_Event ev_breakpoint (- 1) 0x401001"
  obtain p' w' where c: "continueExecution x86_64 ?p ?w False (\<lambda>w. w\<lparr>tr_pc := \<lambda>_. 0x401002\<rparr>) (Some (7, PStopped 5 0)) = (True, ?ev, p', w')"
    using run_stop_example by blast
  have "pt_init (\<lambda>_. 0) 7 (started 7, ?w)" by (simp add: pt_init_def)
  moreover have "ev_addr ?ev \<in> dom (pt_instructionMap ?p)"
    by (simp add: mk_Event_def registerBreakpoint_def started_def mk_Ptrace_def Let_def)
  ultimately have "tr_pc w' 7 = ev_addr ?ev \<and> byte_at (tr_mem w' 7) (ev_addr ?ev) = byte_at (\<lambda>_. 0) (ev_addr ?ev)"
    using breakpoint_once [OF _ run_example _ _ c _ _ rtranclp.rtrancl_refl] by (simp add: mk_Event_def text_kept_def)
  with c show ?thesis by (auto simp: mk_Event_def)
qed

text \<open>
  On AArch64 an 8-byte word holds two instructions, and clearing a breakpoint puts back
  the whole word as it was when the address was registered: a breakpoint that is still waiting at
  the second instruction of the word is lost, so a line that starts there is never reported. This
  holds for every text and every such pair of addresses.
\<close>

lemma aarch64_clear_drops_neighbour:
  assumes "getAligned a = a" "a \<noteq> 0" "pt_activeChild p = pid"
    and "pt_instructionMap p a = None" "pt_instructionMap p (a + 4) = None"
  shows "let p1 = snd (registerBreakpoint p w a); p2 = snd (registerBreakpoint p1 w (a + 4));
             (p3, w3) = setupAllBreakpoints aarch64 p2 w; (ok, w4) = clearBreakpoint aarch64 p3 w3 a
         in pt_instructionMap p3 (a + 4) \<noteq> None \<and> ok \<and> tr_mem w4 pid a = tr_mem w pid a"
proof -
  let ?p1 = "snd (registerBreakpoint p w a)"
  let ?p2 = "snd (registerBreakpoint ?p1 w (a + 4))"
  have "a \<noteq> a + 4" by simp
  then have m: "pt_instructionMap ?p2 a = Some (tr_mem w pid a)" "pt_activeChild ?p2 = pid"
    using assms by (auto simp: registerBreakpoint_def peekWord_def Let_def)
  have z: "a + 4 \<noteq> 0"
  proof
    assume "a + 4 = 0"
    then have "a = - 4" by (simp add: eq_neg_iff_add_eq_0)
    with assms(1) show False by (simp add: getAligned_def)
  qed
  have n: "pt_instructionMap ?p2 (a + 4) \<noteq> None"
    using z assms by (auto simp: registerBreakpoint_def Let_def)
  show ?thesis using m n assms(1)
    by (simp add: setupAllBreakpoints_def clearBreakpoint_def Let_def pokeWord_def arch_clearBreakpoint_def)
qed

lemma aarch64_clear_drops_neighbour_witness:
  "let p1 = snd (registerBreakpoint (started 7) \<lparr>tr_mem = \<lambda>_ _. 0xd503201fd503201f, tr_pc = \<lambda>_. 0\<rparr> 0x401000);
       p2 = snd (registerBreakpoint p1 \<lparr>tr_mem = \<lambda>_ _. 0xd503201fd503201f, tr_pc = \<lambda>_. 0\<rparr> (0x401000 + 4));
       (p3, w3) = setupAllBreakpoints aarch64 p2 \<lparr>tr_mem = \<lambda>_ _. 0xd503201fd503201f, tr_pc = \<lambda>_. 0\<rparr>;
       (ok, w4) = clearBreakpoint aarch64 p3 w3 0x401000
   in pt_instructionMap p3 (0x401000 + 4) \<noteq> None \<and> ok \<and>
      tr_mem w4 7 0x401000 = tr_mem \<lparr>tr_mem = \<lambda>_ _. 0xd503201fd503201f, tr_pc = \<lambda>_. 0\<rparr> 7 0x401000"
  by (rule aarch64_clear_drops_neighbour) (simp_all add: getAligned_def started_def mk_Ptrace_def)

end
