(* ===== verification/Kcov_Elf.thy ===== *)
theory Kcov_Elf
  imports Kcov_Filter Kcov_Memory Kcov_SourceCache
begin

text \<open>
  The parser of ELF files (\<open>src/src/parsers/elf-parser.cc\<close>) with what it reads of them
  (\<open>elf.cc\<close>, \<open>include/elf.hh\<close>) and of their debug information (\<open>dwarf.cc\<close>).

  \<^item> What libelf finds in a file is an \<open>elf_view\<close> (the sections, for \<open>elf_memory\<close>) and an
    \<open>elf_info\<close> (the header, for \<open>elf_begin\<close>); what libdw finds is a \<open>dwarf\<close>: the units in the
    order \<open>dwarf_nextcu\<close> goes through them, and the answers of its other functions. A call that
    fails is \<open>None\<close> there.
  \<^item> The disassembler that verifies addresses is the record \<open>verifier\<close> of its operations.
  \<^item> \<open>None\<close> as the result of an operation is a panic or an access outside of an object.
\<close>

section \<open>Segments\<close>

record Segment =
  seg_data :: "byte list option"
  seg_paddr :: u64
  seg_vaddr :: u64
  seg_size :: u64

definition addressIsWithinSegment :: "Segment \<Rightarrow> u64 \<Rightarrow> bool" where
  "addressIsWithinSegment s addr = (seg_paddr s \<le> addr \<and> addr < seg_paddr s + seg_size s)"

definition adjustAddress :: "Segment \<Rightarrow> u64 \<Rightarrow> u64" where
  "adjustAddress s addr =
     (if addressIsWithinSegment s addr then addr - seg_paddr s + seg_vaddr s else addr)"

text \<open>\<open>Segment(data, paddr, vaddr, size)\<close> copies \<open>size\<close> bytes from \<open>data\<close>, here an offset in the file.\<close>

definition mk_Segment :: "byte list \<Rightarrow> u64 \<Rightarrow> u64 \<Rightarrow> u64 \<Rightarrow> u64 \<Rightarrow> Segment option" where
  "mk_Segment fd off paddr vaddr sz =
     map_option (\<lambda>d. \<lparr>seg_data = Some d, seg_paddr = paddr, seg_vaddr = vaddr, seg_size = sz\<rparr>)
       (read_at fd (unat off) (unat sz))"

section \<open>Sections: \<open>ElfImpl\<close>\<close>

record elf_section =
  sh_type :: u64
  sh_addr :: u64
  sh_size :: u64
  sh_flags :: u64
  sh_offset :: u64
  sec_data :: "byte list option"
  sec_name :: "string option"

record elf_view =
  ev_shstrndx :: bool
  ev_sections :: "elf_section list"

record ElfImpl =
  ei_buildId :: string
  ei_debugLink :: "(string \<times> u32) option"
  ei_segments :: "Segment list"
  ei_fileData :: "byte list"

definition SHT_NOTE :: u64 where
  "SHT_NOTE = 7"

definition NT_GNU_BUILD_ID :: u32 where
  "NT_GNU_BUILD_ID = 3"

definition sizeof_Nhdr :: nat where
  "sizeof_Nhdr = 12"

text \<open>\<open>strcmp (p, s) == 0\<close> on bytes in memory; it stops at the first difference.\<close>

fun strcmp_eq :: "byte list \<Rightarrow> byte list \<Rightarrow> bool option" where
  "strcmp_eq [] s = None"
| "strcmp_eq (b # bs) [] = Some (b = 0)"
| "strcmp_eq (b # bs) (c # cs) = (if b = c then strcmp_eq bs cs else Some False)"

definition ELF_NOTE_GNU :: "byte list" where
  "ELF_NOTE_GNU = [0x47, 0x4e, 0x55]"

definition build_id_digits :: "byte list \<Rightarrow> string" where
  "build_id_digits bs =
     concat (map (\<lambda>b. [hex_digit (unat (drop_bit 4 b AND 0xf)), hex_digit (unat (b AND 0xf))]) bs)"

definition note_build_id :: "bool \<Rightarrow> byte list \<Rightarrow> string option" where
  "note_build_id le d =
     Option.bind (load32 le d 0) (\<lambda>n_namesz.
     Option.bind (load32 le d 4) (\<lambda>n_descsz.
     Option.bind (load32 le d 8) (\<lambda>n_type.
     Option.bind (strcmp_eq (drop sizeof_Nhdr d) ELF_NOTE_GNU) (\<lambda>gnu.
       if gnu \<and> n_type = NT_GNU_BUILD_ID
       then map_option build_id_digits (read_at d (sizeof_Nhdr + unat n_namesz) (unat n_descsz))
       else Some []))))"

definition parse_debuglink :: "bool \<Rightarrow> byte list \<Rightarrow> (byte list \<times> u32) option" where
  "parse_debuglink le d =
     Option.bind (c_string_at d 0) (\<lambda>name.
       let addr = length name + 1;
           offs = (if addr mod 4 \<noteq> 0 then 4 - addr mod 4 else 0)
       in map_option (Pair name) (load32 le d (addr + offs)))"

definition sec_notes :: "bool \<Rightarrow> elf_section \<Rightarrow> byte list \<Rightarrow> ElfImpl \<Rightarrow> ElfImpl option" where
  "sec_notes le s d i =
     (if sh_type s = SHT_NOTE
      then map_option (\<lambda>b. i\<lparr>ei_buildId := ei_buildId i @ b\<rparr>) (note_build_id le d) else Some i)"

definition sec_debuglink :: "bool \<Rightarrow> elf_section \<Rightarrow> byte list \<Rightarrow> ElfImpl \<Rightarrow> ElfImpl option" where
  "sec_debuglink le s d i =
     Option.bind (sec_name s) (\<lambda>name.
       if name = ''.gnu_debuglink''
       then map_option (\<lambda>(n, crc). i\<lparr>ei_debugLink :=
              Some ((case ei_debugLink i of None \<Rightarrow> [] | Some (n0, _) \<Rightarrow> n0) @ bytes_to_string n, crc)\<rparr>)
              (parse_debuglink le d)
       else Some i)"

definition sec_segment :: "elf_section \<Rightarrow> ElfImpl \<Rightarrow> ElfImpl option" where
  "sec_segment s i =
     (if sh_flags s AND 6 \<noteq> 6 then Some i
      else map_option (\<lambda>g. i\<lparr>ei_segments := ei_segments i @ [g]\<rparr>)
             (mk_Segment (ei_fileData i) (sh_offset s) (sh_addr s) (sh_addr s) (sh_size s)))"

definition parse_section :: "bool \<Rightarrow> elf_section \<Rightarrow> ElfImpl \<Rightarrow> ElfImpl option" where
  "parse_section le s i =
     (case sec_data s of
        None \<Rightarrow> Some i
      | Some d \<Rightarrow>
          Option.bind (sec_notes le s d i) (\<lambda>i1.
          Option.bind (sec_debuglink le s d i1) (\<lambda>i2. sec_segment s i2)))"

fun parse_sections :: "bool \<Rightarrow> elf_section list \<Rightarrow> ElfImpl \<Rightarrow> ElfImpl option" where
  "parse_sections le [] i = Some i"
| "parse_sections le (s # ss) i = Option.bind (parse_section le s i) (parse_sections le ss)"

definition ElfImpl_parse :: "bool \<Rightarrow> elf_view option \<Rightarrow> byte list \<Rightarrow> ElfImpl option" where
  "ElfImpl_parse le view fd =
     (let i = \<lparr>ei_buildId = [], ei_debugLink = None, ei_segments = [], ei_fileData = fd\<rparr>
      in case view of
           None \<Rightarrow> Some i
         | Some v \<Rightarrow> if \<not> ev_shstrndx v then Some i else parse_sections le (ev_sections v) i)"

section \<open>Debug information: \<open>DwarfParser\<close>\<close>

record dwarf_line =
  dl_lineno :: "int option"
  dl_linesrc :: "string option"
  dl_beginstatement :: "bool option"
  dl_lineaddr :: "u64 option"

record dwarf_die =
  die_srclines :: "dwarf_line option list option"
  die_srcfiles :: bool
  die_srcdirs :: "string option list option"
  die_getsrc :: "u64 \<Rightarrow> dwarf_line option"

record dwarf =
  dw_nextcu :: "(u64 \<times> u64) list"
  dw_offdie :: "u64 \<Rightarrow> dwarf_die option"

type_synonym source_line = "string \<times> u32 \<times> u64"

definition fullPath :: "string option list \<Rightarrow> string \<Rightarrow> string option" where
  "fullPath srcDirs filename =
     (case srcDirs of
        [] \<Rightarrow> None
      | d # _ \<Rightarrow>
          map_option (\<lambda>full. if filename = [] \<or> hd filename \<noteq> CHR ''/'' then full else filename)
            (dir_concat (case d of None \<Rightarrow> [] | Some dir \<Rightarrow> dir) filename))"

text \<open>What one line of the table is reported as: nothing, or a file, a number and an address.\<close>

definition dwarf_one_line :: "string option list \<Rightarrow> dwarf_line option \<Rightarrow> source_line list option" where
  "dwarf_one_line srcDirs line =
     (case line of
        None \<Rightarrow> Some []
      | Some l \<Rightarrow>
          (case (dl_lineno l, dl_linesrc l, dl_beginstatement l, dl_lineaddr l) of
             (Some lineNr, Some lineSource, Some isCode, Some addr) \<Rightarrow>
               if lineNr = 0 \<or> \<not> isCode then Some []
               else map_option (\<lambda>p. [(p, of_int lineNr, addr)]) (fullPath srcDirs lineSource)
           | _ \<Rightarrow> Some []))"

definition die_lines :: "dwarf_die \<Rightarrow> source_line list option" where
  "die_lines die =
     (case (die_srclines die, die_srcfiles die, die_srcdirs die) of
        (Some lines, True, Some srcDirs) \<Rightarrow>
          if srcDirs = [] then Some [] else bind_all (dwarf_one_line srcDirs) lines
      | _ \<Rightarrow> Some [])"

text \<open>The loop of \<open>forEachLine\<close>: a unit that cannot be read leaves \<open>lastOffset\<close> as it was.\<close>

fun forEachLine_from :: "(u64 \<Rightarrow> dwarf_die option) \<Rightarrow> u64 \<Rightarrow> (u64 \<times> u64) list \<Rightarrow> source_line list option" where
  "forEachLine_from offdie lastOffset [] = Some []"
| "forEachLine_from offdie lastOffset ((offset, headerSize) # cus) =
     (case offdie (lastOffset + headerSize) of
        None \<Rightarrow> forEachLine_from offdie lastOffset cus
      | Some die \<Rightarrow>
          Option.bind (die_lines die) (\<lambda>ls.
            map_option ((@) ls) (forEachLine_from offdie offset cus)))"

definition forEachLine :: "dwarf \<Rightarrow> source_line list option" where
  "forEachLine d = forEachLine_from (dw_offdie d) 0 (dw_nextcu d)"

text \<open>\<open>forAddress\<close>: a line without a source file ends the whole search.\<close>

fun forAddress_from ::
  "(u64 \<Rightarrow> dwarf_die option) \<Rightarrow> u64 \<Rightarrow> u64 \<Rightarrow> (u64 \<times> u64) list \<Rightarrow> source_line list option" where
  "forAddress_from offdie address lastOffset [] = Some []"
| "forAddress_from offdie address lastOffset ((offset, headerSize) # cus) =
     (let continue = forAddress_from offdie address offset cus
      in case offdie (lastOffset + headerSize) of
           None \<Rightarrow> continue
         | Some die \<Rightarrow>
             (case die_getsrc die address of
                None \<Rightarrow> continue
              | Some l \<Rightarrow>
                  if \<not> die_srcfiles die then continue
                  else case dl_linesrc l of
                         None \<Rightarrow> Some []
                       | Some lineSource \<Rightarrow>
                           (case (die_srcdirs die, dl_lineno l) of
                              (Some srcDirs, Some lineNr) \<Rightarrow>
                                Option.bind (fullPath srcDirs lineSource) (\<lambda>p.
                                  map_option ((#) (p, of_int lineNr, address)) continue)
                            | _ \<Rightarrow> continue)))"

definition forAddress :: "dwarf \<Rightarrow> u64 \<Rightarrow> source_line list option" where
  "forAddress d address = forAddress_from (dw_offdie d) address 0 (dw_nextcu d)"

text \<open>
  The variant for libdwarf (\<open>src/src/parsers/dwarf-libdwarf.cc\<close>): each unit is what
  \<open>dwarf_siblingof\<close> and \<open>dwarf_srclines\<close> give for it, and there is no compilation directory.
\<close>

definition libdwarf_forEachLine :: "dwarf_line list option option list \<Rightarrow> source_line list option" where
  "libdwarf_forEachLine units =
     bind_all (\<lambda>u. case u of
         Some (Some lines) \<Rightarrow> bind_all (\<lambda>l. dwarf_one_line [None] (Some l)) lines
       | _ \<Rightarrow> Some []) units"

section \<open>The CRC of debug links\<close>

definition crc32_table :: "u32 list" where
  "crc32_table = [
     0x00000000, 0x77073096, 0xee0e612c, 0x990951ba, 0x076dc419, 0x706af48f, 0xe963a535, 0x9e6495a3,
     0x0edb8832, 0x79dcb8a4, 0xe0d5e91e, 0x97d2d988, 0x09b64c2b, 0x7eb17cbd, 0xe7b82d07, 0x90bf1d91,
     0x1db71064, 0x6ab020f2, 0xf3b97148, 0x84be41de, 0x1adad47d, 0x6ddde4eb, 0xf4d4b551, 0x83d385c7,
     0x136c9856, 0x646ba8c0, 0xfd62f97a, 0x8a65c9ec, 0x14015c4f, 0x63066cd9, 0xfa0f3d63, 0x8d080df5,
     0x3b6e20c8, 0x4c69105e, 0xd56041e4, 0xa2677172, 0x3c03e4d1, 0x4b04d447, 0xd20d85fd, 0xa50ab56b,
     0x35b5a8fa, 0x42b2986c, 0xdbbbc9d6, 0xacbcf940, 0x32d86ce3, 0x45df5c75, 0xdcd60dcf, 0xabd13d59,
     0x26d930ac, 0x51de003a, 0xc8d75180, 0xbfd06116, 0x21b4f4b5, 0x56b3c423, 0xcfba9599, 0xb8bda50f,
     0x2802b89e, 0x5f058808, 0xc60cd9b2, 0xb10be924, 0x2f6f7c87, 0x58684c11, 0xc1611dab, 0xb6662d3d,
     0x76dc4190, 0x01db7106, 0x98d220bc, 0xefd5102a, 0x71b18589, 0x06b6b51f, 0x9fbfe4a5, 0xe8b8d433,
     0x7807c9a2, 0x0f00f934, 0x9609a88e, 0xe10e9818, 0x7f6a0dbb, 0x086d3d2d, 0x91646c97, 0xe6635c01,
     0x6b6b51f4, 0x1c6c6162, 0x856530d8, 0xf262004e, 0x6c0695ed, 0x1b01a57b, 0x8208f4c1, 0xf50fc457,
     0x65b0d9c6, 0x12b7e950, 0x8bbeb8ea, 0xfcb9887c, 0x62dd1ddf, 0x15da2d49, 0x8cd37cf3, 0xfbd44c65,
     0x4db26158, 0x3ab551ce, 0xa3bc0074, 0xd4bb30e2, 0x4adfa541, 0x3dd895d7, 0xa4d1c46d, 0xd3d6f4fb,
     0x4369e96a, 0x346ed9fc, 0xad678846, 0xda60b8d0, 0x44042d73, 0x33031de5, 0xaa0a4c5f, 0xdd0d7cc9,
     0x5005713c, 0x270241aa, 0xbe0b1010, 0xc90c2086, 0x5768b525, 0x206f85b3, 0xb966d409, 0xce61e49f,
     0x5edef90e, 0x29d9c998, 0xb0d09822, 0xc7d7a8b4, 0x59b33d17, 0x2eb40d81, 0xb7bd5c3b, 0xc0ba6cad,
     0xedb88320, 0x9abfb3b6, 0x03b6e20c, 0x74b1d29a, 0xead54739, 0x9dd277af, 0x04db2615, 0x73dc1683,
     0xe3630b12, 0x94643b84, 0x0d6d6a3e, 0x7a6a5aa8, 0xe40ecf0b, 0x9309ff9d, 0x0a00ae27, 0x7d079eb1,
     0xf00f9344, 0x8708a3d2, 0x1e01f268, 0x6906c2fe, 0xf762575d, 0x806567cb, 0x196c3671, 0x6e6b06e7,
     0xfed41b76, 0x89d32be0, 0x10da7a5a, 0x67dd4acc, 0xf9b9df6f, 0x8ebeeff9, 0x17b7be43, 0x60b08ed5,
     0xd6d6a3e8, 0xa1d1937e, 0x38d8c2c4, 0x4fdff252, 0xd1bb67f1, 0xa6bc5767, 0x3fb506dd, 0x48b2364b,
     0xd80d2bda, 0xaf0a1b4c, 0x36034af6, 0x41047a60, 0xdf60efc3, 0xa867df55, 0x316e8eef, 0x4669be79,
     0xcb61b38c, 0xbc66831a, 0x256fd2a0, 0x5268e236, 0xcc0c7795, 0xbb0b4703, 0x220216b9, 0x5505262f,
     0xc5ba3bbe, 0xb2bd0b28, 0x2bb45a92, 0x5cb36a04, 0xc2d7ffa7, 0xb5d0cf31, 0x2cd99e8b, 0x5bdeae1d,
     0x9b64c2b0, 0xec63f226, 0x756aa39c, 0x026d930a, 0x9c0906a9, 0xeb0e363f, 0x72076785, 0x05005713,
     0x95bf4a82, 0xe2b87a14, 0x7bb12bae, 0x0cb61b38, 0x92d28e9b, 0xe5d5be0d, 0x7cdcefb7, 0x0bdbdf21,
     0x86d3d2d4, 0xf1d4e242, 0x68ddb3f8, 0x1fda836e, 0x81be16cd, 0xf6b9265b, 0x6fb077e1, 0x18b74777,
     0x88085ae6, 0xff0f6a70, 0x66063bca, 0x11010b5c, 0x8f659eff, 0xf862ae69, 0x616bffd3, 0x166ccf45,
     0xa00ae278, 0xd70dd2ee, 0x4e048354, 0x3903b3c2, 0xa7672661, 0xd06016f7, 0x4969474d, 0x3e6e77db,
     0xaed16a4a, 0xd9d65adc, 0x40df0b66, 0x37d83bf0, 0xa9bcae53, 0xdebb9ec5, 0x47b2cf7f, 0x30b5ffe9,
     0xbdbdf21c, 0xcabac28a, 0x53b39330, 0x24b4a3a6, 0xbad03605, 0xcdd70693, 0x54de5729, 0x23d967bf,
     0xb3667a2e, 0xc4614ab8, 0x5d681b02, 0x2a6f2b94, 0xb40bbe37, 0xc30c8ea1, 0x5a05df1b, 0x2d02ef8d
  ]"

definition debugLinkCrc32 :: "u32 \<Rightarrow> byte list \<Rightarrow> u32" where
  "debugLinkCrc32 crc buf =
     NOT (foldl (\<lambda>crc b. crc32_table ! unat ((crc XOR ucast b) AND 0xff) XOR drop_bit 8 crc) (NOT crc) buf)"

end
