(* ===== verification/Kcov_Elf_Crc.thy ===== *)
theory Kcov_Elf_Crc
  imports Kcov_Elf
begin

text \<open>
  The CRC of debug links: the table of the code against the bitwise definition.
\<close>

section \<open>The CRC bit by bit\<close>

text \<open>One step of the CRC-32 with the reversed polynomial, and a byte as eight of them.\<close>

definition crc_bit :: "u32 \<Rightarrow> u32" where
  "crc_bit c = (if bit c 0 then drop_bit 1 c XOR 0xedb88320 else drop_bit 1 c)"

definition crc_bits :: "u32 \<Rightarrow> byte list \<Rightarrow> u32" where
  "crc_bits crc buf = foldl (\<lambda>c b. (crc_bit ^^ 8) (c XOR ucast b)) crc buf"

lemma crc_bit_xor: "crc_bit (x XOR y) = crc_bit x XOR crc_bit y"
proof -
  have "drop_bit 1 (x XOR y) = drop_bit 1 x XOR drop_bit 1 y" by simp
  moreover have "bit (x XOR y) 0 \<longleftrightarrow> bit x 0 \<noteq> bit y 0" by (simp add: bit_simps)
  ultimately show ?thesis by (auto simp: crc_bit_def ac_simps)
qed

lemma crc_bits_xor: "(crc_bit ^^ n) (x XOR y) = (crc_bit ^^ n) x XOR (crc_bit ^^ n) y"
  by (induction n) (simp_all add: crc_bit_xor)

lemma crc_bit_zeros: "take_bit n x = 0 \<Longrightarrow> (crc_bit ^^ n) x = drop_bit n x"
proof (induction n arbitrary: x)
  case 0
  then show ?case by simp
next
  case (Suc n)
  have b: "bit x i \<Longrightarrow> i \<ge> Suc n" for i
    using Suc.prems by (metis bit_take_bit_iff bit_0_eq bot_apply bot_bool_def not_less)
  then have "crc_bit x = drop_bit 1 x" by (auto simp: crc_bit_def)
  moreover have "take_bit n (drop_bit 1 x) = 0"
    by (rule bit_eqI) (auto simp: bit_simps dest: b)
  ultimately show ?case by (simp add: funpow_swap1 Suc.IH del: funpow.simps add: funpow_Suc_right)
qed

lemma crc_bit8:
  "(crc_bit ^^ 8) c = crc_bit (crc_bit (crc_bit (crc_bit (crc_bit (crc_bit (crc_bit (crc_bit c)))))))"
  by (simp add: eval_nat_numeral)

lemma crc_bit_numeral:
  "crc_bit 0 = 0" "crc_bit 1 = 0xedb88320"
  "crc_bit (numeral (num.Bit0 n)) = drop_bit 1 (numeral (num.Bit0 n))"
  "crc_bit (numeral (num.Bit1 n)) = drop_bit 1 (numeral (num.Bit1 n)) XOR 0xedb88320"
  by (simp_all add: crc_bit_def)

text \<open>The table entry by entry, with the index as a word.\<close>

fun crc_table_from :: "u32 list \<Rightarrow> u32 \<Rightarrow> bool" where
  "crc_table_from [] n = True"
| "crc_table_from (t # ts) n = (t = (crc_bit ^^ 8) n \<and> crc_table_from ts (n + 1))"

lemma crc_table_from_nth: "crc_table_from ts n \<Longrightarrow> i < length ts \<Longrightarrow> ts ! i = (crc_bit ^^ 8) (n + of_nat i)"
proof (induction ts n arbitrary: i rule: crc_table_from.induct)
  case (2 t ts n)
  then show ?case by (cases i) (auto simp: algebra_simps)
qed simp

lemma crc_table_ok: "crc_table_from crc32_table 0"
  by (simp add: crc32_table_def crc_bit8 crc_bit_numeral)

lemma crc_table_entry: "crc32_table ! unat (c AND 0xff) = (crc_bit ^^ 8) (c AND 0xff)"
proof -
  have "c AND 0xff = take_bit 8 c" by (simp add: take_bit_eq_mask mask_eq_exp_minus_1)
  then have "unat (c AND 0xff) < 256" using take_bit_nat_less_exp [of 8 "unat c"] by (simp add: unsigned_take_bit_eq)
  moreover have "length crc32_table = 256" by (simp add: crc32_table_def)
  ultimately show ?thesis using crc_table_from_nth [OF crc_table_ok, of "unat (c AND 0xff)"] by simp
qed

lemma crc_byte: "crc32_table ! unat ((crc XOR b) AND 0xff) XOR drop_bit 8 crc = (crc_bit ^^ 8) (crc XOR b)"
  if "drop_bit 8 b = 0" for b :: u32
proof -
  let ?x = "crc XOR b"
  have "?x = (?x AND 0xff) XOR (?x AND NOT 0xff)"
    by (rule bit_eqI) (auto simp: bit_simps)
  moreover have "take_bit 8 (?x AND NOT 0xff) = 0"
  proof (rule bit_eqI)
    fix i
    have "(0xff :: u32) = mask 8" by (simp add: mask_eq_exp_minus_1)
    then show "bit (take_bit 8 (?x AND NOT 0xff)) i = bit (0 :: u32) i" by (auto simp: bit_simps)
  qed
  ultimately have "(crc_bit ^^ 8) ?x = (crc_bit ^^ 8) (?x AND 0xff) XOR drop_bit 8 (?x AND NOT 0xff)"
    by (metis crc_bits_xor crc_bit_zeros)
  moreover have "drop_bit 8 (?x AND NOT 0xff) = drop_bit 8 crc"
  proof (rule bit_eqI)
    fix i assume "possible_bit TYPE(u32) i"
    have m: "(0xff :: u32) = mask 8" by (simp add: mask_eq_exp_minus_1)
    have "\<not> bit b (8 + i)" using that by (metis bit_0_eq bit_drop_bit_eq bot_apply bot_bool_def comp_apply)
    then show "bit (drop_bit 8 (?x AND NOT 0xff)) i = bit (drop_bit 8 crc) i"
      by (auto simp: bit_simps m dest: bit_imp_le_length)
  qed
  ultimately show ?thesis by (simp add: crc_table_entry)
qed


lemma foldl_crc:
  "foldl (\<lambda>crc b. crc32_table ! unat ((crc XOR ucast b) AND 0xff) XOR drop_bit 8 crc) crc buf = crc_bits crc buf"
proof (induction buf arbitrary: crc)
  case Nil
  then show ?case by (simp add: crc_bits_def)
next
  case (Cons b buf)
  have "drop_bit 8 (ucast b :: u32) = 0"
    by (rule bit_eqI) (auto simp: bit_simps dest: bit_imp_le_length)
  from crc_byte [OF this] show ?case by (simp add: Cons.IH crc_bits_def)
qed

lemma debugLinkCrc32_bits: "debugLinkCrc32 crc buf = NOT (crc_bits (NOT crc) buf)"
  unfolding debugLinkCrc32_def foldl_crc ..

text \<open>
  Property C30. The table-driven CRC of debug links is the bitwise CRC-32 (reversed polynomial
  0xedb88320, inverted before and after) of the file's bytes, and continues a CRC of what comes
  before: the CRC of two pieces is the CRC of the second started with that of the first.
\<close>

theorem debuglink_crc_bitwise:
  "debugLinkCrc32 crc buf = NOT (crc_bits (NOT crc) buf) \<and>
   debugLinkCrc32 crc (buf @ buf2) = debugLinkCrc32 (debugLinkCrc32 crc buf) buf2"
  by (simp add: debugLinkCrc32_bits crc_bits_def)

text \<open>The check value of this CRC: that of the digits 1 to 9.\<close>

lemma debuglink_crc_check: "debugLinkCrc32 0 (map of_nat [0x31..<0x3a]) = 0xcbf43926"
proof -
  have "crc_bits 0xffffffff (map of_nat [0x31..<0x3a]) = 0x340bc6d9"
    by (simp add: crc_bits_def crc_bit8 crc_bit_numeral upt_rec_numeral)
  moreover have "(NOT 0 :: u32) = 0xffffffff" by simp
  ultimately have "debugLinkCrc32 0 (map of_nat [0x31..<0x3a]) = NOT 0x340bc6d9"
    unfolding debugLinkCrc32_bits by (simp only:)
  then show ?thesis by simp
qed

end
