(* ===== verification/Kcov_Phdr.thy ===== *)
theory Kcov_Phdr
  imports Kcov_Memory Kcov_SourceCache
begin

text \<open>
  The program headers that the preloaded library passes to kcov
  (\<open>src/src/solib-parser/phdr_data.c\<close> and \<open>lib.c\<close>, \<open>src/src/include/phdr_data.h\<close>): the table in the
  traced process, the bytes it is written as, and how kcov reads them. The table is a static
  area of four megabytes; an entry that does not fit there is \<open>None\<close>.
\<close>

record phdr_data_segment =
  ps_paddr :: u64
  ps_vaddr :: u64
  ps_size :: u64

record phdr_data_entry =
  pe_name :: string
  pe_segments :: "phdr_data_segment list"

record phdr_data =
  pd_relocation :: u64
  pd_entries :: "phdr_data_entry list"

definition PHDR_MAGIC :: u32 where
  "PHDR_MAGIC = 0x6b636f76"

definition KCOV_SOLIB_VERSION :: u32 where
  "KCOV_SOLIB_VERSION = 3"

definition max_segments :: nat where
  "max_segments = 64"

definition sizeof_name :: nat where
  "sizeof_name = 1024"

definition sizeof_segment :: nat where
  "sizeof_segment = 24"

definition sizeof_phdr_data_entry :: nat where
  "sizeof_phdr_data_entry = sizeof_name + 8 + max_segments * sizeof_segment"

definition sizeof_phdr_data :: nat where
  "sizeof_phdr_data = 24"

definition sizeof_data_area :: nat where
  "sizeof_data_area = 4 * 1024 * 1024"

section \<open>In the traced process\<close>

definition phdr_data_new :: "nat \<Rightarrow> phdr_data option" where
  "phdr_data_new allocSize =
     (if allocSize > sizeof_data_area then None else Some \<lparr>pd_relocation = 0, pd_entries = []\<rparr>)"

record Phdr =
  p_type :: u32
  p_vaddr :: u64
  p_paddr :: u64
  p_memsz :: u64

record dl_phdr_info =
  dlpi_addr :: u64
  dlpi_name :: string
  dlpi_phdr :: "Phdr list"

definition PT_LOAD :: u32 where
  "PT_LOAD = 1"

text \<open>The loop over the program headers; \<open>None\<close> is the return on too many segments.\<close>

fun add_segments :: "u64 \<Rightarrow> Phdr list \<Rightarrow> phdr_data_segment list \<Rightarrow> phdr_data_segment list option" where
  "add_segments base [] segs = Some segs"
| "add_segments base (h # hs) segs =
     (if p_type h \<noteq> PT_LOAD then add_segments base hs segs
      else if length segs \<ge> max_segments then None
      else add_segments base hs
             (segs @ [\<lparr>ps_paddr = p_paddr h, ps_vaddr = base + p_vaddr h, ps_size = p_memsz h\<rparr>]))"

definition phdr_data_add :: "phdr_data \<Rightarrow> dl_phdr_info \<Rightarrow> phdr_data option" where
  "phdr_data_add p info =
     (if sizeof_phdr_data + sizeof_phdr_data_entry * (length (pd_entries p) + 1) > sizeof_data_area then None
      else case add_segments (dlpi_addr info) (dlpi_phdr info) [] of
             None \<Rightarrow> Some p
           | Some segs \<Rightarrow>
               Some (p\<lparr>pd_entries := pd_entries p @
                 [\<lparr>pe_name = take (sizeof_name - 1) (c_str (dlpi_name info)), pe_segments = segs\<rparr>]\<rparr>))"

definition phdrCallback :: "phdr_data \<Rightarrow> dl_phdr_info \<Rightarrow> phdr_data option" where
  "phdrCallback p info =
     phdr_data_add (if pd_entries p = [] then p\<lparr>pd_relocation := dlpi_addr info\<rparr> else p) info"

definition phdrSizeCallback :: "nat \<Rightarrow> dl_phdr_info \<Rightarrow> nat" where
  "phdrSizeCallback sz info = sz + sizeof_phdr_data_entry"

definition put_segment :: "bool \<Rightarrow> phdr_data_segment \<Rightarrow> byte list" where
  "put_segment le s = store le (ps_paddr s) @ store le (ps_vaddr s) @ store le (ps_size s)"

definition put_entry :: "bool \<Rightarrow> phdr_data_entry \<Rightarrow> byte list" where
  "put_entry le en =
     string_to_bytes (pe_name en) @ replicate (sizeof_name - length (pe_name en)) 0 @
     store le (of_nat (length (pe_segments en)) :: u32) @ replicate 4 0 @
     concat (map (put_segment le) (pe_segments en)) @
     replicate ((max_segments - length (pe_segments en)) * sizeof_segment) 0"

definition phdr_data_marshal :: "bool \<Rightarrow> phdr_data \<Rightarrow> byte list" where
  "phdr_data_marshal le p =
     store le PHDR_MAGIC @ store le KCOV_SOLIB_VERSION @ store le (pd_relocation p) @
     store le (of_nat (length (pd_entries p)) :: u32) @ replicate 4 0 @
     concat (map (put_entry le) (pd_entries p))"

fun phdr_callbacks :: "phdr_data \<Rightarrow> dl_phdr_info list \<Rightarrow> phdr_data option" where
  "phdr_callbacks p [] = Some p"
| "phdr_callbacks p (i # is) = Option.bind (phdrCallback p i) (\<lambda>p'. phdr_callbacks p' is)"

text \<open>
  \<open>parse_solibs\<close>: what is written to the pipe, \<open>Some None\<close> when it gives up. The two arguments
  are what \<open>dl_iterate_phdr\<close> goes through in its two calls.
\<close>

definition parse_solibs ::
  "bool \<Rightarrow> string option \<Rightarrow> dl_phdr_info list \<Rightarrow> dl_phdr_info list \<Rightarrow> byte list option option" where
  "parse_solibs le kcov_solib_path infos1 infos2 =
     (case kcov_solib_path of
        None \<Rightarrow> Some None
      | Some _ \<Rightarrow>
          (case phdr_data_new (foldl phdrSizeCallback sizeof_phdr_data infos1) of
             None \<Rightarrow> Some None
           | Some p \<Rightarrow> map_option (\<lambda>q. Some (phdr_data_marshal le q)) (phdr_callbacks p infos2)))"

section \<open>In kcov\<close>

text \<open>\<open>phdr_data_unmarshal\<close> on a buffer: the number of entries, when it is accepted.\<close>

definition phdr_data_unmarshal :: "bool \<Rightarrow> byte list \<Rightarrow> u32 option option" where
  "phdr_data_unmarshal le buf =
     Option.bind (load32 le buf 0) (\<lambda>magic.
     Option.bind (load32 le buf 4) (\<lambda>version.
     Option.bind (load32 le buf 16) (\<lambda>n_entries.
       Some (if magic \<noteq> PHDR_MAGIC then None
             else if version \<noteq> KCOV_SOLIB_VERSION then None
             else if n_entries > 0x10000 then None
             else Some n_entries))))"

fun get_segments :: "bool \<Rightarrow> byte list \<Rightarrow> nat \<Rightarrow> nat \<Rightarrow> phdr_data_segment list option" where
  "get_segments le buf off 0 = Some []"
| "get_segments le buf off (Suc n) =
     Option.bind (load64 le buf off) (\<lambda>pa.
     Option.bind (load64 le buf (off + 8)) (\<lambda>va.
     Option.bind (load64 le buf (off + 16)) (\<lambda>sz.
     map_option ((#) \<lparr>ps_paddr = pa, ps_vaddr = va, ps_size = sz\<rparr>)
       (get_segments le buf (off + sizeof_segment) n))))"

definition get_entry :: "bool \<Rightarrow> byte list \<Rightarrow> nat \<Rightarrow> phdr_data_entry option" where
  "get_entry le buf off =
     Option.bind (c_string_at buf off) (\<lambda>name.
     Option.bind (load32 le buf (off + sizeof_name)) (\<lambda>n.
       if unat n > max_segments then None
       else map_option (\<lambda>segs. \<lparr>pe_name = bytes_to_string name, pe_segments = segs\<rparr>)
              (get_segments le buf (off + sizeof_name + 8) (unat n))))"

fun get_entries :: "bool \<Rightarrow> byte list \<Rightarrow> nat \<Rightarrow> nat \<Rightarrow> phdr_data_entry list option" where
  "get_entries le buf off 0 = Some []"
| "get_entries le buf off (Suc n) =
     Option.bind (get_entry le buf off) (\<lambda>en.
       map_option ((#) en) (get_entries le buf (off + sizeof_phdr_data_entry) n))"


section \<open>What the traced process collects\<close>

definition loads :: "dl_phdr_info \<Rightarrow> Phdr list" where
  "loads i = filter (\<lambda>h. p_type h = PT_LOAD) (dlpi_phdr i)"

definition segment_of :: "u64 \<Rightarrow> Phdr \<Rightarrow> phdr_data_segment" where
  "segment_of base h = \<lparr>ps_paddr = p_paddr h, ps_vaddr = base + p_vaddr h, ps_size = p_memsz h\<rparr>"

definition entry_of :: "dl_phdr_info \<Rightarrow> phdr_data_entry" where
  "entry_of i =
     \<lparr>pe_name = take (sizeof_name - 1) (c_str (dlpi_name i)),
      pe_segments = map (segment_of (dlpi_addr i)) (loads i)\<rparr>"

abbreviation fits :: "dl_phdr_info \<Rightarrow> bool" where
  "fits i \<equiv> length (loads i) \<le> max_segments"

lemma add_segments_eq:
  "length segs \<le> max_segments \<Longrightarrow> add_segments base hs segs =
     (let ls = filter (\<lambda>h. p_type h = PT_LOAD) hs
      in if length segs + length ls \<le> max_segments then Some (segs @ map (segment_of base) ls) else None)"
  by (induction base hs segs rule: add_segments.induct) (auto simp: Let_def segment_of_def)

lemma phdr_data_add_eq:
  assumes "sizeof_phdr_data + sizeof_phdr_data_entry * (length (pd_entries p) + 1) \<le> sizeof_data_area"
  shows "phdr_data_add p i = Some (if fits i then p\<lparr>pd_entries := pd_entries p @ [entry_of i]\<rparr> else p)"
  using assms by (simp add: phdr_data_add_def add_segments_eq Let_def loads_def entry_of_def)

lemma phdrCallback_eq:
  assumes "sizeof_phdr_data + sizeof_phdr_data_entry * (length (pd_entries p) + 1) \<le> sizeof_data_area"
  shows "phdrCallback p i = Some (p\<lparr>
      pd_relocation := (if pd_entries p = [] then dlpi_addr i else pd_relocation p),
      pd_entries := pd_entries p @ map entry_of (filter fits [i])\<rparr>)"
  using assms by (simp add: phdrCallback_def phdr_data_add_eq)

lemma phdr_callbacks_eq:
  assumes "sizeof_phdr_data + sizeof_phdr_data_entry * (length (pd_entries p) + length is) \<le> sizeof_data_area"
    and "pd_entries p \<noteq> []"
  shows "phdr_callbacks p is = Some (p\<lparr>pd_entries := pd_entries p @ map entry_of (filter fits is)\<rparr>)"
  using assms
proof (induction "is" arbitrary: p)
  case Nil
  then show ?case by simp
next
  case (Cons i "is")
  let ?p = "p\<lparr>pd_entries := pd_entries p @ map entry_of (filter fits [i])\<rparr>"
  have "phdrCallback p i = Some ?p"
    using Cons.prems by (subst phdrCallback_eq) (auto simp: distrib_left)
  moreover have "length (pd_entries ?p) + length is \<le> length (pd_entries p) + length (i # is)" by simp
  then have "sizeof_phdr_data_entry * (length (pd_entries ?p) + length is) \<le>
      sizeof_phdr_data_entry * (length (pd_entries p) + length (i # is))" by (rule mult_le_mono2)
  then have "phdr_callbacks ?p is = Some (?p\<lparr>pd_entries := pd_entries ?p @ map entry_of (filter fits is)\<rparr>)"
    using Cons.prems by (intro Cons.IH) auto
  ultimately show ?case by simp
qed

section \<open>What kcov reads\<close>

definition entry_ok :: "phdr_data_entry \<Rightarrow> bool" where
  "entry_ok en = (NUL \<notin> set (pe_name en) \<and> length (pe_name en) < sizeof_name \<and>
     length (pe_segments en) \<le> max_segments)"

lemma entry_of_ok: "fits i \<Longrightarrow> entry_ok (entry_of i)"
  using c_str_no_NUL [of "dlpi_name i"]
  by (auto simp: entry_ok_def entry_of_def sizeof_name_def dest: in_set_takeD)

lemma length_put_segment [simp]: "length (put_segment le s) = sizeof_segment"
  by (simp add: put_segment_def sizeof_segment_def)

lemma length_put_segments [simp]: "length (concat (map (put_segment le) ss)) = length ss * sizeof_segment"
  by (induction ss) auto

lemma length_put_entry:
  assumes "entry_ok en"
  shows "length (put_entry le en) = sizeof_phdr_data_entry"
proof -
  have "length (pe_segments en) \<le> max_segments" "length (pe_name en) < sizeof_name"
    using assms by (simp_all add: entry_ok_def)
  moreover from this(1) have "length (pe_segments en) * sizeof_segment +
      (max_segments - length (pe_segments en)) * sizeof_segment = max_segments * sizeof_segment"
    by (metis add_mult_distrib le_add_diff_inverse)
  ultimately show ?thesis by (simp add: put_entry_def sizeof_phdr_data_entry_def)
qed

lemma get_segments_ok:
  "length pre = off \<Longrightarrow> get_segments le (pre @ concat (map (put_segment le) ss) @ post) off (length ss) = Some ss"
proof (induction ss arbitrary: pre off)
  case Nil
  then show ?case by simp
next
  case (Cons s ss)
  let ?tl = "concat (map (put_segment le) ss) @ post"
  have "get_segments le ((pre @ put_segment le s) @ ?tl) (off + sizeof_segment) (length ss) = Some ss"
    using Cons.prems by (intro Cons.IH) simp
  moreover have "load64 le (pre @ put_segment le s @ ?tl) off = Some (ps_paddr s)"
    "load64 le (pre @ put_segment le s @ ?tl) (off + 8) = Some (ps_vaddr s)"
    "load64 le (pre @ put_segment le s @ ?tl) (off + 16) = Some (ps_size s)"
    using Cons.prems load64_middle [of pre off le "ps_paddr s" "store le (ps_vaddr s) @ store le (ps_size s) @ ?tl"]
      load64_middle [of "pre @ store le (ps_paddr s)" "off + 8" le "ps_vaddr s" "store le (ps_size s) @ ?tl"]
      load64_middle [of "pre @ store le (ps_paddr s) @ store le (ps_vaddr s)" "off + 16" le "ps_size s" ?tl]
    by (simp_all add: put_segment_def)
  ultimately show ?case by simp
qed

lemma get_entry_ok:
  assumes "length pre = off" "entry_ok en"
  shows "get_entry le (pre @ put_entry le en @ post) off = Some en"
proof -
  define nm where "nm = string_to_bytes (pe_name en)"
  define z where "z = replicate (sizeof_name - length (pe_name en)) (0 :: byte)"
  define segs where "segs = concat (map (put_segment le) (pe_segments en))"
  define n where "n = (of_nat (length (pe_segments en)) :: u32)"
  define tl where "tl = replicate ((max_segments - length (pe_segments en)) * sizeof_segment) 0 @ post"
  have mem: "pre @ put_entry le en @ post = pre @ nm @ z @ store le n @ replicate 4 0 @ segs @ tl"
    by (simp add: put_entry_def nm_def z_def segs_def n_def tl_def)
  have ok: "NUL \<notin> set (pe_name en)" "length (pe_name en) < sizeof_name" "length (pe_segments en) \<le> max_segments"
    using assms(2) by (simp_all add: entry_ok_def)
  then have len: "length nm + length z = sizeof_name" by (simp add: nm_def z_def)
  obtain z' where z: "z = 0 # z'" using ok(2) by (cases "sizeof_name - length (pe_name en)") (auto simp: z_def)
  have "c_string_at (pre @ nm @ 0 # z' @ store le n @ replicate 4 0 @ segs @ tl) off = Some nm"
    using c_string_at_middle [OF assms(1)] string_to_bytes_no_zero [OF ok(1)] by (simp add: nm_def)
  then have nm: "c_string_at (pre @ put_entry le en @ post) off = Some nm" by (simp add: mem z)
  have cnt: "load32 le (pre @ put_entry le en @ post) (off + sizeof_name) = Some n"
    using load32_middle [of "pre @ nm @ z" "off + sizeof_name" le n "replicate 4 0 @ segs @ tl"] assms(1) len
    by (simp add: mem)
  have un: "unat n = length (pe_segments en)"
    unfolding n_def using ok(3) by (intro unat_of_nat_small) (simp add: max_segments_def)
  have "get_segments le ((pre @ nm @ z @ store le n @ replicate 4 0) @ segs @ tl) (off + sizeof_name + 8)
      (length (pe_segments en)) = Some (pe_segments en)"
    unfolding segs_def using assms(1) len by (intro get_segments_ok) simp
  then have segs: "get_segments le (pre @ put_entry le en @ post) (off + sizeof_name + 8) (unat n) =
      Some (pe_segments en)" by (simp add: mem un)
  have "bytes_to_string nm = pe_name en"
    by (simp add: nm_def)
  with ok(3) show ?thesis by (simp add: get_entry_def nm cnt segs [unfolded un] un)
qed

lemma get_entries_ok:
  "length pre = off \<Longrightarrow> \<forall>en \<in> set ens. entry_ok en \<Longrightarrow>
     get_entries le (pre @ concat (map (put_entry le) ens) @ post) off (length ens) = Some ens"
proof (induction ens arbitrary: pre off)
  case Nil
  then show ?case by simp
next
  case (Cons en ens)
  have "get_entries le ((pre @ put_entry le en) @ concat (map (put_entry le) ens) @ post)
      (off + sizeof_phdr_data_entry) (length ens) = Some ens"
    using Cons.prems by (intro Cons.IH) (simp_all add: length_put_entry)
  moreover have "get_entry le (pre @ put_entry le en @ concat (map (put_entry le) ens) @ post) off = Some en"
    using Cons.prems by (intro get_entry_ok) simp_all
  ultimately show ?case by simp
qed


lemma length_put_entries:
  "\<forall>en \<in> set ens. entry_ok en \<Longrightarrow> length (concat (map (put_entry le) ens)) = sizeof_phdr_data_entry * length ens"
  by (induction ens) (simp_all add: length_put_entry)

lemma phdr_data_marshal_fields:
  "load32 le (phdr_data_marshal le p @ rest) 0 = Some PHDR_MAGIC"
  "load32 le (phdr_data_marshal le p @ rest) 4 = Some KCOV_SOLIB_VERSION"
  "load64 le (phdr_data_marshal le p @ rest) 8 = Some (pd_relocation p)"
  "load32 le (phdr_data_marshal le p @ rest) 16 = Some (of_nat (length (pd_entries p)))"
proof -
  define m v r where "m = (store le PHDR_MAGIC :: byte list)" and "v = (store le KCOV_SOLIB_VERSION :: byte list)"
    and "r = (store le (pd_relocation p) :: byte list)"
  define n where "n = (of_nat (length (pd_entries p)) :: u32)"
  define tl where "tl = replicate 4 0 @ concat (map (put_entry le) (pd_entries p)) @ rest"
  have mem: "phdr_data_marshal le p @ rest = m @ v @ r @ store le n @ tl"
    by (simp add: phdr_data_marshal_def m_def v_def r_def n_def tl_def)
  have len: "length m = 4" "length v = 4" "length r = 8" by (simp_all add: m_def v_def r_def)
  show "load32 le (phdr_data_marshal le p @ rest) 0 = Some PHDR_MAGIC"
    using load32_middle [of "[]" 0 le PHDR_MAGIC] by (simp add: mem m_def)
  show "load32 le (phdr_data_marshal le p @ rest) 4 = Some KCOV_SOLIB_VERSION"
    using load32_middle [OF len(1), of le KCOV_SOLIB_VERSION] by (simp add: mem v_def)
  show "load64 le (phdr_data_marshal le p @ rest) 8 = Some (pd_relocation p)"
    using load64_middle [of "m @ v" 8 le "pd_relocation p"] len by (simp add: mem r_def)
  show "load32 le (phdr_data_marshal le p @ rest) 16 = Some (of_nat (length (pd_entries p)))"
    using load32_middle [of "m @ v @ r" 16 le n] len by (simp add: mem n_def)
qed

lemma phdr_data_marshal_entries:
  assumes "\<forall>en \<in> set (pd_entries p). entry_ok en"
  shows "get_entries le (phdr_data_marshal le p @ rest) sizeof_phdr_data (length (pd_entries p)) =
    Some (pd_entries p)"
  using get_entries_ok [OF _ assms, of "store le PHDR_MAGIC @ store le KCOV_SOLIB_VERSION @
      store le (pd_relocation p) @ store le (of_nat (length (pd_entries p)) :: u32) @ replicate 4 0"
      sizeof_phdr_data le rest]
  by (simp add: phdr_data_marshal_def sizeof_phdr_data_def)

lemma length_phdr_data_marshal:
  assumes "\<forall>en \<in> set (pd_entries p). entry_ok en"
  shows "length (phdr_data_marshal le p) = sizeof_phdr_data + sizeof_phdr_data_entry * length (pd_entries p)"
  using length_put_entries [OF assms] by (simp add: phdr_data_marshal_def sizeof_phdr_data_def)

lemma foldl_phdrSizeCallback:
  "foldl phdrSizeCallback sz is = sz + sizeof_phdr_data_entry * length is"
  by (induction "is" arbitrary: sz) (simp_all add: phdrSizeCallback_def)

text \<open>What the process of the objects \<open>i # is\<close> sends, as long as the table fits in its area.\<close>

definition sent_table :: "dl_phdr_info list \<Rightarrow> phdr_data" where
  "sent_table is = \<lparr>pd_relocation = dlpi_addr (hd is), pd_entries = map entry_of (filter fits is)\<rparr>"

lemma parse_solibs_sent:
  assumes "sizeof_phdr_data + sizeof_phdr_data_entry * length (i # is) \<le> sizeof_data_area" "fits i"
  shows "parse_solibs le (Some path) (i # is) (i # is) = Some (Some (phdr_data_marshal le (sent_table (i # is))))"
proof -
  let ?p = "\<lparr>pd_relocation = 0, pd_entries = []\<rparr>"
  let ?q = "\<lparr>pd_relocation = dlpi_addr i, pd_entries = [entry_of i]\<rparr>"
  have "phdrCallback ?p i = Some ?q"
    using assms by (subst phdrCallback_eq) (auto simp: distrib_left)
  moreover have "phdr_callbacks ?q is = Some (sent_table (i # is))"
    using assms by (subst phdr_callbacks_eq) (auto simp: sent_table_def)
  moreover have "\<not> sizeof_data_area < foldl phdrSizeCallback sizeof_phdr_data (i # is)"
    unfolding foldl_phdrSizeCallback using assms(1) by simp
  then have "phdr_data_new (foldl phdrSizeCallback sizeof_phdr_data (i # is)) = Some ?p"
    unfolding phdr_data_new_def by (rule if_not_P)
  ultimately show ?thesis unfolding parse_solibs_def by simp
qed

lemma sent_table_ok: "\<forall>en \<in> set (pd_entries (sent_table is)). entry_ok en"
  by (auto simp: sent_table_def entry_of_ok)

lemma sent_table_accepted:
  assumes "sizeof_phdr_data + sizeof_phdr_data_entry * length is \<le> sizeof_data_area"
  shows "phdr_data_unmarshal le (phdr_data_marshal le (sent_table is) @ rest) =
      Some (Some (of_nat (length (pd_entries (sent_table is)))))"
    and "unat (of_nat (length (pd_entries (sent_table is))) :: u32) = length (pd_entries (sent_table is))"
proof -
  have "length (pd_entries (sent_table is)) \<le> length is" by (simp add: sent_table_def)
  then have "length (pd_entries (sent_table is)) \<le> 1633"
    using assms by (simp add: sizeof_phdr_data_def sizeof_phdr_data_entry_def sizeof_data_area_def
        sizeof_name_def max_segments_def sizeof_segment_def)
  moreover from this
  show n: "unat (of_nat (length (pd_entries (sent_table is))) :: u32) = length (pd_entries (sent_table is))"
    by (intro unat_of_nat_small) simp
  ultimately have "\<not> (of_nat (length (pd_entries (sent_table is))) :: u32) > 0x10000"
    by (simp add: word_less_nat_alt)
  then show "phdr_data_unmarshal le (phdr_data_marshal le (sent_table is) @ rest) =
      Some (Some (of_nat (length (pd_entries (sent_table is)))))"
    by (simp add: phdr_data_unmarshal_def phdr_data_marshal_fields)
qed

end
