(* ===== verification/Kcov_ElfParser.thy ===== *)
theory Kcov_ElfParser
  imports Kcov_Elf Kcov_Phdr
begin

text \<open>
  The class \<open>ElfInstance\<close> of \<open>src/src/parsers/elf-parser.cc\<close>, with the capabilities of
  \<open>src/src/capabilities.cc\<close> it sets. What it tells its listeners is a list of outputs, in order.
\<close>

section \<open>Capabilities\<close>

type_synonym Capabilities = "string \<rightharpoonup> bool"

definition mk_Capabilities :: Capabilities where
  "mk_Capabilities = [''handle-solibs'' \<mapsto> False]"

definition addCapability :: "Capabilities \<Rightarrow> string \<Rightarrow> Capabilities option" where
  "addCapability c name = (if c name = None then None else Some (c(name \<mapsto> True)))"

definition removeCapability :: "Capabilities \<Rightarrow> string \<Rightarrow> Capabilities option" where
  "removeCapability c name = (if c name = None then None else Some (c(name \<mapsto> False)))"

definition hasCapability :: "Capabilities \<Rightarrow> string \<Rightarrow> bool option" where
  "hasCapability c name = c name"

section \<open>State and surroundings\<close>

text \<open>The operations of \<open>IDisassembler\<close> that the parser uses.\<close>

record 'v verifier =
  vf_setup :: "byte list \<Rightarrow> 'v \<Rightarrow> 'v option"
  vf_addSection :: "byte list option \<Rightarrow> u64 \<Rightarrow> u64 \<Rightarrow> 'v \<Rightarrow> 'v option"
  vf_verify :: "u64 \<Rightarrow> 'v \<Rightarrow> (bool \<times> 'v) option"

record elf_info =
  fi_kind_none :: bool
  fi_ident :: "byte list option"
  fi_type :: "bool \<Rightarrow> u16 option"
  fi_checksum :: "bool \<Rightarrow> u64"

record 'v elf_env =
  ee_little_endian :: bool
  ee_machine_is_64bit :: bool
  ee_elf_version :: bool
  ee_verify :: bool
  ee_parse_solibs :: bool
  ee_open :: "string \<Rightarrow> bool"
  ee_elf_begin :: "string \<Rightarrow> elf_info option"
  ee_exists :: "string \<Rightarrow> bool"
  ee_read_file :: "string \<Rightarrow> byte list option"
  ee_elf_memory :: "byte list \<Rightarrow> elf_view option"
  ee_dwarf :: "string \<Rightarrow> dwarf option"
  ee_rp :: "string \<Rightarrow> string"
  ee_regex_replace :: "string \<Rightarrow> string \<Rightarrow> string \<Rightarrow> string"
  ee_verifier :: "'v verifier"

record 'v ElfInstance =
  ep_curSegments :: "Segment list"
  ep_executableSegments :: "Segment list"
  ep_addressVerifier :: 'v
  ep_verifyAddresses :: bool
  ep_elfIs32Bit :: bool
  ep_elfIsShared :: bool
  ep_lineListeners :: "nat list"
  ep_fileListeners :: "nat list"
  ep_filename :: string
  ep_buildId :: string
  ep_debuglink :: string
  ep_debuglinkCrc :: u32
  ep_isMainFile :: bool
  ep_checksum :: u64
  ep_initialized :: bool
  ep_relocation :: u64
  ep_invalidBreakpoints :: u32
  ep_filter :: Filter

datatype FileFlags = FLG_NONE | FLG_TYPE_SOLIB

datatype elf_out =
  EFile nat string FileFlags
| ELine nat string u32 u64
| ECapability string bool

definition mk_ElfInstance :: "'v \<Rightarrow> Filter \<Rightarrow> 'v ElfInstance" where
  "mk_ElfInstance v flt =
     \<lparr>ep_curSegments = [], ep_executableSegments = [], ep_addressVerifier = v, ep_verifyAddresses = False,
      ep_elfIs32Bit = True, ep_elfIsShared = False, ep_lineListeners = [], ep_fileListeners = [],
      ep_filename = [], ep_buildId = [], ep_debuglink = [], ep_debuglinkCrc = 0, ep_isMainFile = True,
      ep_checksum = 0, ep_initialized = False, ep_relocation = 0, ep_invalidBreakpoints = 0,
      ep_filter = flt\<rparr>"

definition elf_registerLineListener :: "'v ElfInstance \<Rightarrow> nat \<Rightarrow> 'v ElfInstance" where
  "elf_registerLineListener p l = p\<lparr>ep_lineListeners := ep_lineListeners p @ [l]\<rparr>"

definition elf_registerFileListener :: "'v ElfInstance \<Rightarrow> nat \<Rightarrow> 'v ElfInstance" where
  "elf_registerFileListener p l = p\<lparr>ep_fileListeners := ep_fileListeners p @ [l]\<rparr>"

definition elf_setupParser :: "'v ElfInstance \<Rightarrow> Filter \<Rightarrow> 'v ElfInstance" where
  "elf_setupParser p flt = p\<lparr>ep_filter := flt\<rparr>"

definition ELFMAG :: "byte list" where
  "ELFMAG = [0x7f, 0x45, 0x4c, 0x46]"

definition elf_matchParser :: "byte list \<Rightarrow> bool" where
  "elf_matchParser d = (take 4 d = ELFMAG)"

section \<open>A new file\<close>

definition EI_CLASS :: nat where
  "EI_CLASS = 4"

definition read_class :: "'v elf_env \<Rightarrow> elf_info \<Rightarrow> 'v ElfInstance \<Rightarrow> 'v ElfInstance \<times> elf_out list" where
  "read_class e fi p =
     (case fi_ident fi of
        None \<Rightarrow> (p, [])
      | Some raw \<Rightarrow>
          if length raw > EI_CLASS
          then let is32 = (raw ! EI_CLASS = 1)
               in (p\<lparr>ep_elfIs32Bit := is32\<rparr>,
                   [ECapability ''handle-solibs'' ((\<not> is32) = ee_machine_is_64bit e)])
          else (p, []))"

definition checkFile :: "'v elf_env \<Rightarrow> 'v ElfInstance \<Rightarrow> (bool \<times> 'v ElfInstance \<times> elf_out list) option" where
  "checkFile e p =
     (if \<not> ee_open e (ep_filename p) then Some (False, p, [])
      else case ee_elf_begin e (ep_filename p) of
        None \<Rightarrow> Some (False, p, [])
      | Some fi \<Rightarrow>
          if \<not> ep_isMainFile p then Some (\<not> fi_kind_none fi, p, [])
          else case read_class e fi p of (p1, outs) \<Rightarrow>
            map_option (\<lambda>e_type.
              (\<not> fi_kind_none fi,
               p1\<lparr>ep_elfIsShared := (e_type = 3),
                  ep_checksum := (if ep_checksum p1 = 0 then fi_checksum fi (ep_elfIs32Bit p1) else ep_checksum p1)\<rparr>,
               outs)) (fi_type fi (ep_elfIs32Bit p1)))"

definition phdr_segment :: "phdr_data_segment \<Rightarrow> Segment" where
  "phdr_segment s = \<lparr>seg_data = None, seg_paddr = ps_paddr s, seg_vaddr = ps_vaddr s, seg_size = ps_size s\<rparr>"

definition elf_init :: "'v elf_env \<Rightarrow> 'v ElfInstance \<Rightarrow> 'v ElfInstance option" where
  "elf_init e p =
     (if ep_initialized p then Some p
      else if \<not> ee_elf_version e then None
      else Some (p\<lparr>ep_verifyAddresses := ee_verify e, ep_initialized := True\<rparr>))"

definition elf_addFile ::
  "'v elf_env \<Rightarrow> 'v ElfInstance \<Rightarrow> string \<Rightarrow> phdr_data_entry option \<Rightarrow> (bool \<times> 'v ElfInstance \<times> elf_out list) option" where
  "elf_addFile e p filename entry =
     Option.bind (elf_init e p) (\<lambda>p0.
       let p1 = p0\<lparr>ep_filename := filename, ep_buildId := [], ep_debuglink := [],
                   ep_curSegments := (case entry of None \<Rightarrow> [] | Some en \<Rightarrow> map phdr_segment (pe_segments en)),
                   ep_executableSegments := []\<rparr>
       in map_option (\<lambda>(ok, p2, outs).
            if \<not> ok then (False, p2, outs)
            else (True, p2, outs @ map (\<lambda>l. EFile l (ep_filename p2)
                    (if ep_isMainFile p2 then FLG_NONE else FLG_TYPE_SOLIB)) (ep_fileListeners p2)))
            (checkFile e p1))"

section \<open>Lines\<close>

fun addressIsValid :: "'v verifier \<Rightarrow> bool \<Rightarrow> Segment list \<Rightarrow> u64 \<Rightarrow> 'v \<Rightarrow> u32 \<Rightarrow> (bool \<times> 'v \<times> u32) option" where
  "addressIsValid vf vfy [] addr v invalid = Some (False, v, invalid)"
| "addressIsValid vf vfy (s # ss) addr v invalid =
     (if addressIsWithinSegment s addr
      then if vfy
           then map_option (\<lambda>(out, v'). (out, v', if out then invalid else invalid + 1)) (vf_verify vf addr v)
           else Some (True, v, invalid)
      else addressIsValid vf vfy ss addr v invalid)"

fun adjustAddressBySegment :: "Segment list \<Rightarrow> u64 \<Rightarrow> u64" where
  "adjustAddressBySegment [] addr = addr"
| "adjustAddressBySegment (s # ss) addr =
     (if addressIsWithinSegment s addr then adjustAddress s addr else adjustAddressBySegment ss addr)"

definition elf_onLine :: "'v elf_env \<Rightarrow> 'v ElfInstance \<Rightarrow> source_line \<Rightarrow> ('v ElfInstance \<times> elf_out list) option" where
  "elf_onLine e p ln =
     (case ln of (path, lineNr, addr) \<Rightarrow>
        map_option (\<lambda>(valid, v, invalid).
            let p1 = p\<lparr>ep_addressVerifier := v, ep_invalidBreakpoints := invalid\<rparr>;
                rp = mangleSourcePath (ee_rp e) (ee_regex_replace e) (ep_filter p) path
            in if \<not> valid then (p1, [])
               else (p1, map (\<lambda>l. ELine l rp lineNr (adjustAddressBySegment (ep_curSegments p) addr + ep_relocation p))
                           (ep_lineListeners p)))
          (addressIsValid (ee_verifier e) (ep_verifyAddresses p) (ep_executableSegments p) addr
             (ep_addressVerifier p) (ep_invalidBreakpoints p)))"

fun elf_onLines :: "'v elf_env \<Rightarrow> 'v ElfInstance \<Rightarrow> source_line list \<Rightarrow> ('v ElfInstance \<times> elf_out list) option" where
  "elf_onLines e p [] = Some (p, [])"
| "elf_onLines e p (l # ls) =
     Option.bind (elf_onLine e p l) (\<lambda>(p1, outs1).
       map_option (\<lambda>(p2, outs2). (p2, outs1 @ outs2)) (elf_onLines e p1 ls))"

section \<open>Separate debug information\<close>

text \<open>\<open>dirname\<close> of the C library.\<close>

definition strip_slashes :: "string \<Rightarrow> string" where
  "strip_slashes s = rev (dropWhile (\<lambda>c. c = CHR ''/'') (rev s))"

definition dirname :: "string \<Rightarrow> string" where
  "dirname path =
     (let q = strip_slashes path;
          r = (if q = [] then path else rev (dropWhile (\<lambda>c. c \<noteq> CHR ''/'') (rev q)));
          s = strip_slashes r
      in if r = [] then ''.'' else if s = [] then (if length r = 2 then ''//'' else ''/'') else s)"

definition tryDebugLink :: "'v elf_env \<Rightarrow> u32 \<Rightarrow> string \<Rightarrow> string" where
  "tryDebugLink e debuglinkCrc path =
     (if \<not> ee_exists e path then []
      else case ee_read_file e path of
        None \<Rightarrow> []
      | Some p \<Rightarrow> if debugLinkCrc32 0 p \<noteq> debuglinkCrc then [] else path)"

definition lookupDebuglinkFile :: "'v elf_env \<Rightarrow> string \<Rightarrow> string \<Rightarrow> u32 \<Rightarrow> string" where
  "lookupDebuglinkFile e filename debuglink crc =
     (let filePath = dirname filename;
          d1 = tryDebugLink e crc (filePath @ ''/'' @ debuglink);
          d2 = tryDebugLink e crc (filePath @ ''/.debug/'' @ debuglink)
      in if d1 \<noteq> [] then d1
         else if d2 \<noteq> [] then d2
         else tryDebugLink e crc (''/usr/lib/debug/'' @ ee_rp e filePath @ ''/'' @ debuglink))"

definition build_id_file :: "string \<Rightarrow> string" where
  "build_id_file buildId =
     ''/usr/lib/debug/.build-id/'' @ str_substr buildId 0 2 @ ''/'' @ drop 2 buildId @ ''.debug''"

definition open_dwarf :: "'v elf_env \<Rightarrow> 'v ElfInstance \<Rightarrow> dwarf option" where
  "open_dwarf e p =
     (let rv0 = ee_dwarf e (ep_filename p);
          rv1 = (if Option.is_none rv0 \<and> ep_buildId p \<noteq> [] then ee_dwarf e (build_id_file (ep_buildId p)) else rv0)
      in if Option.is_none rv1 \<and> ep_debuglink p \<noteq> []
         then let debugPath = lookupDebuglinkFile e (ep_filename p) (ep_debuglink p) (ep_debuglinkCrc p)
              in if debugPath = [] \<and> ep_isMainFile p then None else ee_dwarf e debugPath
         else rv1)"

definition parseOneDwarf ::
  "'v elf_env \<Rightarrow> 'v ElfInstance \<Rightarrow> u64 \<Rightarrow> (bool \<times> 'v ElfInstance \<times> elf_out list) option" where
  "parseOneDwarf e p relocation =
     (let p1 = p\<lparr>ep_invalidBreakpoints := 0, ep_relocation := relocation\<rparr>
      in case open_dwarf e p1 of
           None \<Rightarrow> Some (False, p1, [])
         | Some d \<Rightarrow>
             Option.bind (forEachLine d) (\<lambda>ls.
               map_option (\<lambda>(p2, outs). (True, p2, outs)) (elf_onLines e p1 ls)))"

section \<open>Parsing\<close>

definition parseOneElf :: "'v elf_env \<Rightarrow> 'v ElfInstance \<Rightarrow> 'v ElfInstance option" where
  "parseOneElf e p =
     (case ee_read_file e (ep_filename p) of
        None \<Rightarrow> Some p
      | Some fd \<Rightarrow>
          Option.bind (ElfImpl_parse (ee_little_endian e) (ee_elf_memory e fd) fd) (\<lambda>i.
          Option.bind (vf_setup (ee_verifier e) fd (ep_addressVerifier p)) (\<lambda>v.
            let p1 = p\<lparr>ep_addressVerifier := v,
                       ep_curSegments := (if ep_curSegments p = [] then ei_segments i else ep_curSegments p),
                       ep_executableSegments := ep_executableSegments p @ ei_segments i,
                       ep_buildId := ei_buildId i\<rparr>
            in Some (case ei_debugLink i of
                       None \<Rightarrow> p1
                     | Some (name, crc) \<Rightarrow> p1\<lparr>ep_debuglink := name, ep_debuglinkCrc := crc\<rparr>))))"

fun add_sections :: "'v verifier \<Rightarrow> Segment list \<Rightarrow> 'v \<Rightarrow> 'v option" where
  "add_sections vf [] v = Some v"
| "add_sections vf (s # ss) v =
     Option.bind (vf_addSection vf (seg_data s) (seg_size s) (seg_vaddr s) v) (add_sections vf ss)"

definition setupSections :: "'v elf_env \<Rightarrow> 'v ElfInstance \<Rightarrow> 'v ElfInstance option" where
  "setupSections e p =
     map_option (\<lambda>v. p\<lparr>ep_addressVerifier := v\<rparr>)
       (add_sections (ee_verifier e) (ep_executableSegments p) (ep_addressVerifier p))"

definition doParse :: "'v elf_env \<Rightarrow> 'v ElfInstance \<Rightarrow> u64 \<Rightarrow> (bool \<times> 'v ElfInstance \<times> elf_out list) option" where
  "doParse e p relocation =
     (if \<not> ee_exists e (ep_filename p) then Some (False, p, [])
      else Option.bind (parseOneElf e p) (\<lambda>p1.
           Option.bind (setupSections e p1) (\<lambda>p2.
             map_option (\<lambda>(_, p3, outs). (True, p3, outs)) (parseOneDwarf e p2 relocation))))"

definition setMainFileRelocation ::
  "'v elf_env \<Rightarrow> 'v ElfInstance \<Rightarrow> u64 \<Rightarrow> (bool \<times> 'v ElfInstance \<times> elf_out list) option" where
  "setMainFileRelocation e p relocation =
     (if ep_elfIsShared p then doParse e p relocation else Some (True, p, []))"

definition elf_parse :: "'v elf_env \<Rightarrow> 'v ElfInstance \<Rightarrow> (bool \<times> 'v ElfInstance \<times> elf_out list) option" where
  "elf_parse e p =
     map_option (\<lambda>(out, p1, outs). (out, p1\<lparr>ep_isMainFile := False\<rparr>, outs))
       (if ep_isMainFile p \<and> ep_elfIsShared p
        then if \<not> ee_parse_solibs e
             then map_option (\<lambda>(_, p1, outs). (True, p1, outs)) (setMainFileRelocation e p 0)
             else Some (True, p, [])
        else doParse e p 0)"


section \<open>The dummy disassembler\<close>

text \<open>\<open>src/src/parsers/dummy-disassembler.cc\<close>, which is used where binutils is not there.\<close>

datatype dummy_arch = dis_arm | dis_powerpc | dis_other

definition dummy_verify :: "dummy_arch \<Rightarrow> u64 \<Rightarrow> bool" where
  "dummy_verify ar offset =
     (case ar of
        dis_arm \<Rightarrow> offset AND 1 = 0
      | dis_powerpc \<Rightarrow> offset AND 3 = 0
      | dis_other \<Rightarrow> True)"

definition DummyDisassembler :: "dummy_arch \<Rightarrow> unit verifier" where
  "DummyDisassembler ar =
     \<lparr>vf_setup = \<lambda>hdr v. Some v, vf_addSection = \<lambda>d sz base v. Some v,
      vf_verify = \<lambda>addr v. Some (dummy_verify ar addr, v)\<rparr>"

lemma add_sections_Dummy [simp]: "add_sections (DummyDisassembler ar) ss () = Some ()"
  by (induction ss) (simp_all add: DummyDisassembler_def)

end
