(* ===== verification/Kcov_Solib.thy ===== *)
theory Kcov_Solib
  imports Kcov_ElfParser
begin

text \<open>
  The handler of shared libraries (\<open>src/src/solib-handler.cc\<close>): it reads the tables of program
  headers from the pipe in one thread and, at each tick of the collector, gives the libraries of
  one table to the ELF parser.
\<close>

record SolibHandler =
  sv_phdrs :: "byte list list"
  sv_foundSolibs :: "string \<rightharpoonup> bool"
  sv_hasSetupRelocation :: bool

definition mk_SolibHandler :: SolibHandler where
  "mk_SolibHandler = \<lparr>sv_phdrs = [], sv_foundSolibs = Map.empty, sv_hasSetupRelocation = False\<rparr>"

section \<open>Start\<close>

datatype startup_out = Putenv string | StartThread string

text \<open>
  \<open>startup\<close>. \<open>mkfifo\<close> says where a FIFO can be made, \<open>mkdtemp\<close> is the temporary directory that is
  used otherwise. \<open>None\<close> is a panic.
\<close>

definition solib_pipe :: "(string \<Rightarrow> bool) \<Rightarrow> string option \<Rightarrow> string \<Rightarrow> string option" where
  "solib_pipe mkfifo mkdtemp outDirectory =
     (if mkfifo (outDirectory @ ''kcov-solib.pipe'') then Some (outDirectory @ ''kcov-solib.pipe'')
      else case mkdtemp of
        None \<Rightarrow> None
      | Some dir \<Rightarrow> if mkfifo (dir @ ''/kcov-solib.pipe'') then Some (dir @ ''/kcov-solib.pipe'') else None)"

definition solib_startup ::
  "'v elf_env \<Rightarrow> Capabilities \<Rightarrow> (string \<Rightarrow> bool) \<Rightarrow> string option \<Rightarrow> string \<Rightarrow> string \<Rightarrow> string \<Rightarrow>
   SolibHandler \<Rightarrow> (SolibHandler \<times> startup_out list) option" where
  "solib_startup e caps mkfifo mkdtemp parserType outDirectory baseDirectory h =
     (if parserType \<noteq> ''ELF'' then Some (h, [])
      else let lib = baseDirectory @ ''libkcov_sowrapper.so'';
               h1 = h\<lparr>sv_foundSolibs := (sv_foundSolibs h)(ee_rp e lib \<mapsto> True)\<rparr>
           in Option.bind (solib_pipe mkfifo mkdtemp outDirectory) (\<lambda>pipe.
                map_option (\<lambda>cap.
                    (h1, (if ee_parse_solibs e \<and> cap \<and> ee_exists e lib then [Putenv (''LD_PRELOAD='' @ lib)] else []) @
                         [Putenv (''KCOV_SOLIB_PATH='' @ pipe), StartThread pipe]))
                  (if ee_parse_solibs e then hasCapability caps ''handle-solibs'' else Some False)))"

section \<open>The thread that reads the pipe\<close>

text \<open>
  One round of \<open>solibThreadParse\<close>: the bytes of one \<open>read\<close> overwrite the beginning of the
  buffer; a table that is accepted is copied with the size it claims to have.
\<close>

definition solib_read :: "bool \<Rightarrow> byte list \<Rightarrow> byte list \<Rightarrow> SolibHandler \<Rightarrow> (byte list \<times> SolibHandler) option" where
  "solib_read le buf r h =
     (if length r \<ge> length buf then None
      else let buf' = r @ drop (length r) buf
           in Option.bind (phdr_data_unmarshal le buf') (\<lambda>p.
                case p of
                  None \<Rightarrow> Some (buf', h)
                | Some n \<Rightarrow>
                    map_option (\<lambda>cpy. (buf', h\<lparr>sv_phdrs := sv_phdrs h @ [cpy]\<rparr>))
                      (read_at buf' 0 (sizeof_phdr_data + unat n * sizeof_phdr_data_entry))))"

fun solib_reads :: "bool \<Rightarrow> byte list \<Rightarrow> byte list list \<Rightarrow> SolibHandler \<Rightarrow> (byte list \<times> SolibHandler) option" where
  "solib_reads le buf [] h = Some (buf, h)"
| "solib_reads le buf (r # rs) h =
     (if r = [] then Some (buf, h)
      else Option.bind (solib_read le buf r h) (\<lambda>(buf', h'). solib_reads le buf' rs h'))"

section \<open>The libraries of a table\<close>

fun check_entries ::
  "'v elf_env \<Rightarrow> byte list \<Rightarrow> nat \<Rightarrow> nat \<Rightarrow> SolibHandler \<Rightarrow> 'v ElfInstance \<Rightarrow>
   (SolibHandler \<times> 'v ElfInstance \<times> elf_out list) option" where
  "check_entries e msg off 0 h p = Some (h, p, [])"
| "check_entries e msg off (Suc n) h p =
     Option.bind (c_string_at msg off) (\<lambda>bs.
       let name = bytes_to_string bs; off' = off + sizeof_phdr_data_entry
       in if name = [] \<or> sv_foundSolibs h name \<noteq> None then check_entries e msg off' n h p
          else Option.bind (get_entry (ee_little_endian e) msg off) (\<lambda>cur.
               Option.bind (elf_addFile e p name (Some cur)) (\<lambda>(_, p1, outs1).
               Option.bind (elf_parse e p1) (\<lambda>(_, p2, outs2).
               map_option (\<lambda>(h', p3, outs3). (h', p3, outs1 @ outs2 @ outs3))
                 (check_entries e msg off' n (h\<lparr>sv_foundSolibs := (sv_foundSolibs h)(name \<mapsto> True)\<rparr>) p2)))))"

definition setup_relocation ::
  "'v elf_env \<Rightarrow> byte list \<Rightarrow> SolibHandler \<Rightarrow> 'v ElfInstance \<Rightarrow> (SolibHandler \<times> 'v ElfInstance \<times> elf_out list) option" where
  "setup_relocation e msg h p =
     (if sv_hasSetupRelocation h then Some (h, p, [])
      else Option.bind (load64 (ee_little_endian e) msg 8) (\<lambda>reloc.
             map_option (\<lambda>(_, p1, outs). (h\<lparr>sv_hasSetupRelocation := True\<rparr>, p1, outs))
               (setMainFileRelocation e p reloc)))"

definition checkSolibData ::
  "'v elf_env \<Rightarrow> SolibHandler \<Rightarrow> 'v ElfInstance \<Rightarrow> (SolibHandler \<times> 'v ElfInstance \<times> elf_out list) option" where
  "checkSolibData e h p =
     (case sv_phdrs h of
        [] \<Rightarrow> Some (h, p, [])
      | msg # rest \<Rightarrow>
          Option.bind (setup_relocation e msg (h\<lparr>sv_phdrs := rest\<rparr>) p) (\<lambda>(h1, p1, outs1).
          Option.bind (load32 (ee_little_endian e) msg 16) (\<lambda>n.
          map_option (\<lambda>(h2, p2, outs2). (h2, p2, outs1 @ outs2))
            (check_entries e msg sizeof_phdr_data (unat n) h1 p1))))"

end
