(* ===== verification/Kcov_Elf_Props.thy ===== *)
theory Kcov_Elf_Props
  imports Kcov_Solib
begin

text \<open>
  Properties of the ELF parser: the identifiers read from the sections, the lines of the debug
  information, and the addresses they are reported at for the main file and for libraries.
\<close>

section \<open>Segments of a file\<close>

text \<open>Sections are reported at the address they are at: only the program headers move them.\<close>

definition unmoved :: "Segment list \<Rightarrow> bool" where
  "unmoved ss = (\<forall>s \<in> set ss. seg_vaddr s = seg_paddr s)"

lemma parse_section_unmoved:
  assumes "parse_section le s i = Some j" "unmoved (ei_segments i)"
  shows "unmoved (ei_segments j)"
proof (cases "sec_data s")
  case None
  with assms show ?thesis by (simp add: parse_section_def)
next
  case (Some d)
  with assms(1) obtain i1 i2 where steps: "sec_notes le s d i = Some i1" "sec_debuglink le s d i1 = Some i2"
    "sec_segment s i2 = Some j" by (auto simp: parse_section_def Option.bind_eq_Some_conv)
  then have "ei_segments i1 = ei_segments i" by (auto simp: sec_notes_def split: if_splits)
  moreover from steps have "ei_segments i2 = ei_segments i1"
    by (auto simp: sec_debuglink_def Option.bind_eq_Some_conv split: if_splits)
  ultimately show ?thesis using steps(3) assms(2)
    by (auto simp: sec_segment_def mk_Segment_def unmoved_def split: if_splits)
qed

lemma parse_sections_unmoved:
  "parse_sections le ss i = Some j \<Longrightarrow> unmoved (ei_segments i) \<Longrightarrow> unmoved (ei_segments j)"
  by (induction ss arbitrary: i) (auto simp: Option.bind_eq_Some_conv dest: parse_section_unmoved)

lemma ElfImpl_parse_unmoved: "ElfImpl_parse le view fd = Some i \<Longrightarrow> unmoved (ei_segments i)"
  by (auto simp: ElfImpl_parse_def unmoved_def Let_def split: option.splits if_splits
      dest!: parse_sections_unmoved)

lemma adjust_unmoved: "unmoved ss \<Longrightarrow> adjustAddressBySegment ss addr = addr"
  by (induction ss) (auto simp: unmoved_def adjustAddress_def)

section \<open>Lines and their addresses\<close>

definition covered_by :: "Segment list \<Rightarrow> u64 \<Rightarrow> bool" where
  "covered_by ss addr = (\<exists>s \<in> set ss. addressIsWithinSegment s addr)"

lemma addressIsValid_off: "addressIsValid vf False ss addr v n = Some (covered_by ss addr, v, n)"
  by (induction ss) (auto simp: covered_by_def)

text \<open>What the listeners are told of the lines \<open>ls\<close> whose address is in \<open>P\<close>, each address moved by \<open>f\<close>.\<close>

definition line_reports :: "'v elf_env \<Rightarrow> 'v ElfInstance \<Rightarrow> (u64 \<Rightarrow> bool) \<Rightarrow> (u64 \<Rightarrow> u64) \<Rightarrow> source_line list \<Rightarrow> elf_out list" where
  "line_reports e p P f ls =
     concat (map (\<lambda>(path, n, a). map (\<lambda>l. ELine l (mangleSourcePath (ee_rp e) (ee_regex_replace e) (ep_filter p) path) n (f a))
                    (ep_lineListeners p))
       (filter (\<lambda>(_, _, a). P a) ls))"

lemma elf_onLines_reports:
  assumes "\<not> ep_verifyAddresses p"
  shows "elf_onLines e p ls = Some (p, line_reports e p (covered_by (ep_executableSegments p))
     (\<lambda>a. adjustAddressBySegment (ep_curSegments p) a + ep_relocation p) ls)"
  by (induction ls) (use assms in \<open>auto simp: elf_onLine_def addressIsValid_off line_reports_def\<close>)

text \<open>The parser after the ELF part of \<open>doParse\<close>, up to the disassembler.\<close>

lemma parseOneElf_fields:
  assumes "ee_read_file e (ep_filename p) = Some fd" "ElfImpl_parse (ee_little_endian e) (ee_elf_memory e fd) fd = Some i"
    and "vf_setup (ee_verifier e) fd (ep_addressVerifier p) = Some v"
  shows "\<exists>q. parseOneElf e p = Some q \<and> ep_executableSegments q = ep_executableSegments p @ ei_segments i \<and>
    ep_curSegments q = (if ep_curSegments p = [] then ei_segments i else ep_curSegments p) \<and>
    ep_verifyAddresses q = ep_verifyAddresses p \<and> ep_filter q = ep_filter p \<and>
    ep_lineListeners q = ep_lineListeners p \<and> ep_filename q = ep_filename p \<and> ep_addressVerifier q = v"
  using assms by (auto simp: parseOneElf_def Let_def split: option.splits)

lemma parse_lines:
  assumes "ee_exists e (ep_filename p)" "parseOneElf e p = Some q"
    and "add_sections (ee_verifier e) (ep_executableSegments q) (ep_addressVerifier q) = Some v"
    and "ee_dwarf e (ep_filename q) = Some d" "forEachLine d = Some ls"
    and "elf_onLines e (q\<lparr>ep_addressVerifier := v, ep_invalidBreakpoints := 0, ep_relocation := relocation\<rparr>) ls =
      Some (q', outs)"
  shows "doParse e p relocation = Some (True, q', outs)"
proof -
  have "open_dwarf e (q\<lparr>ep_addressVerifier := v, ep_invalidBreakpoints := 0, ep_relocation := relocation\<rparr>) = Some d"
    using assms(4) by (simp add: open_dwarf_def Option.is_none_def)
  then show ?thesis using assms by (simp add: doParse_def parseOneDwarf_def setupSections_def)
qed

lemma parse_no_verify:
  assumes "ee_exists e (ep_filename p)" "parseOneElf e p = Some q" "\<not> ep_verifyAddresses q"
    and "add_sections (ee_verifier e) (ep_executableSegments q) (ep_addressVerifier q) = Some v"
    and "ee_dwarf e (ep_filename q) = Some d" "forEachLine d = Some ls"
  shows "\<exists>p'. doParse e p relocation = Some (True, p',
     line_reports e q (covered_by (ep_executableSegments q))
       (\<lambda>a. adjustAddressBySegment (ep_curSegments q) a + relocation) ls)"
  using parse_lines [OF assms(1,2,4-6) elf_onLines_reports] assms(3) by (auto simp: line_reports_def)

section \<open>What the parser expects of an address verifier\<close>

text \<open>
  The contract of \<open>IDisassembler::verify\<close>: on the addresses \<open>secs\<close> of the sections that were added, the
  answer is \<open>valid\<close>, whatever was asked before.
\<close>

locale address_verifier =
  fixes vf :: "'v verifier"
    and inv :: "'v \<Rightarrow> bool"
    and secs :: "u64 \<Rightarrow> bool"
    and valid :: "u64 \<Rightarrow> bool"
  assumes verify: "inv v \<Longrightarrow> secs a \<Longrightarrow> \<exists>v'. vf_verify vf a v = Some (valid a, v') \<and> inv v'"
begin

lemma addressIsValid_on:
  assumes "inv v" "covered_by ss a \<Longrightarrow> secs a"
  shows "\<exists>v' n'. addressIsValid vf True ss a v n = Some (covered_by ss a \<and> valid a, v', n') \<and> inv v'"
  using assms
proof (induction ss)
  case (Cons s ss)
  show ?case
  proof (cases "addressIsWithinSegment s a")
    case True
    then have "covered_by (s # ss) a" by (simp add: covered_by_def)
    moreover from this Cons.prems obtain v' where "vf_verify vf a v = Some (valid a, v')" "inv v'"
      using verify by blast
    ultimately show ?thesis using True by simp
  next
    case False
    then have "covered_by (s # ss) a = covered_by ss a" by (simp add: covered_by_def)
    with False Cons show ?thesis by simp
  qed
qed (simp add: covered_by_def)

lemma onLines_verified:
  assumes "ee_verifier e = vf" "ep_verifyAddresses p" "inv (ep_addressVerifier p)"
    and "\<And>a. covered_by (ep_executableSegments p) a \<Longrightarrow> secs a"
  shows "\<exists>p'. elf_onLines e p ls = Some (p', line_reports e p (\<lambda>a. covered_by (ep_executableSegments p) a \<and> valid a)
     (\<lambda>a. adjustAddressBySegment (ep_curSegments p) a + ep_relocation p) ls)"
  using assms(2-)
proof (induction ls arbitrary: p)
  case (Cons l ls)
  obtain path n a where l: "l = (path, n, a)" by (cases l)
  obtain v' n' where v: "addressIsValid vf True (ep_executableSegments p) a (ep_addressVerifier p) (ep_invalidBreakpoints p) =
      Some (covered_by (ep_executableSegments p) a \<and> valid a, v', n')" "inv v'"
    using addressIsValid_on Cons.prems by blast
  let ?p = "p\<lparr>ep_addressVerifier := v', ep_invalidBreakpoints := n'\<rparr>"
  obtain p' where "elf_onLines e ?p ls = Some (p', line_reports e ?p (\<lambda>a. covered_by (ep_executableSegments p) a \<and> valid a)
     (\<lambda>a. adjustAddressBySegment (ep_curSegments p) a + ep_relocation p) ls)"
    using Cons.IH [of ?p] Cons.prems v(2) by auto
  then show ?case using Cons.prems(1) v(1) assms(1) by (simp add: l elf_onLine_def line_reports_def Let_def)
qed (simp add: line_reports_def)

end

interpretation dummy: address_verifier "DummyDisassembler ar" "\<lambda>_. True" "\<lambda>_. True" "dummy_verify ar" for ar
  by unfold_locales (simp add: DummyDisassembler_def)

section \<open>Units of the debug information\<close>

text \<open>Where the units begin: each at the end of the one before.\<close>

fun unit_dies :: "(u64 \<Rightarrow> dwarf_die option) \<Rightarrow> u64 \<Rightarrow> (u64 \<times> u64) list \<Rightarrow> dwarf_die option list" where
  "unit_dies offdie start [] = []"
| "unit_dies offdie start ((next, hdr) # cus) = offdie (start + hdr) # unit_dies offdie next cus"

lemma forEachLine_all_units:
  "unit_dies offdie start cus = map Some dies \<Longrightarrow>
     forEachLine_from offdie start cus = bind_all die_lines dies"
proof (induction offdie start cus arbitrary: dies rule: unit_dies.induct)
  case (2 offdie start nxt hdr cus)
  then obtain d ds where "dies = d # ds" "offdie (start + hdr) = Some d" "unit_dies offdie nxt cus = map Some ds"
    by (cases dies) auto
  with "2.IH" show ?case by simp
qed simp

text \<open>
  A unit whose entry cannot be read leaves the offset of the next one behind: the entry of the
  unit after it is looked up at the wrong place.
\<close>

lemma forEachLine_after_unreadable:
  "offdie (start + hdr) = None \<Longrightarrow>
     forEachLine_from offdie start ((next1, hdr) # (next2, hdr2) # cus) =
     (case offdie (start + hdr2) of
        None \<Rightarrow> forEachLine_from offdie start cus
      | Some die \<Rightarrow> Option.bind (die_lines die) (\<lambda>ls. map_option ((@) ls) (forEachLine_from offdie next2 cus)))"
  by simp

text \<open>The lines of a unit whose table is in order: the statements with a line number.\<close>

definition dir_of :: "string option list \<Rightarrow> string" where
  "dir_of srcDirs = (case srcDirs of Some d # _ \<Rightarrow> d | _ \<Rightarrow> [])"

definition statement :: "dwarf_line option \<Rightarrow> (string \<times> u32 \<times> u64) option" where
  "statement line =
     (case line of
        Some l \<Rightarrow>
          (case (dl_lineno l, dl_linesrc l, dl_beginstatement l, dl_lineaddr l) of
             (Some n, Some src, Some True, Some a) \<Rightarrow> if n = 0 then None else Some (src, of_int n, a)
           | _ \<Rightarrow> None)
      | None \<Rightarrow> None)"

definition absolute :: "string \<Rightarrow> bool" where
  "absolute s = (s \<noteq> [] \<and> hd s = CHR ''/'')"

definition source_path :: "string \<Rightarrow> string \<Rightarrow> string" where
  "source_path dir src =
     (if absolute src then src else the (dir_concat dir src))"

lemma fullPath_eq:
  assumes "srcDirs \<noteq> []" "strip_trailing_slashes (dir_of srcDirs) \<noteq> None \<or> dir_of srcDirs = []"
  shows "fullPath srcDirs src = Some (source_path (dir_of srcDirs) src)"
proof -
  obtain d ds where "srcDirs = d # ds" using assms(1) by (cases srcDirs) auto
  moreover have "\<exists>q. dir_concat (dir_of srcDirs) src = Some q" using assms(2) by (auto simp: dir_concat_def)
  ultimately show ?thesis
    by (auto simp: fullPath_def dir_of_def source_path_def absolute_def split: option.splits)
qed

lemma dwarf_one_line_eq:
  assumes "srcDirs \<noteq> []" "strip_trailing_slashes (dir_of srcDirs) \<noteq> None \<or> dir_of srcDirs = []"
  shows "dwarf_one_line srcDirs line =
    Some (case statement line of None \<Rightarrow> [] | Some (src, n, a) \<Rightarrow> [(source_path (dir_of srcDirs) src, n, a)])"
  using fullPath_eq [OF assms]
  by (auto simp: dwarf_one_line_def statement_def split: option.splits bool.splits)

lemma die_lines_eq:
  assumes "die_srclines die = Some lines" "die_srcfiles die" "die_srcdirs die = Some srcDirs" "srcDirs \<noteq> []"
    and "strip_trailing_slashes (dir_of srcDirs) \<noteq> None \<or> dir_of srcDirs = []"
  shows "die_lines die =
    Some (map (\<lambda>(src, n, a). (source_path (dir_of srcDirs) src, n, a)) (List.map_filter statement lines))"
proof -
  have "bind_all (dwarf_one_line srcDirs) lines =
      Some (map (\<lambda>(src, n, a). (source_path (dir_of srcDirs) src, n, a)) (List.map_filter statement lines))"
    by (induction lines) (auto simp: dwarf_one_line_eq [OF assms(4,5)] map_filter_simps split: option.splits)
  then show ?thesis using assms by (simp add: die_lines_def)
qed


section \<open>Results\<close>

text \<open>A unit that libdw has read without error, with a compilation directory.\<close>

definition unit_ok :: "dwarf_die \<Rightarrow> bool" where
  "unit_ok die =
     (die_srclines die \<noteq> None \<and> die_srcfiles die \<and>
      (case die_srcdirs die of
         None \<Rightarrow> False
       | Some ds \<Rightarrow> ds \<noteq> [] \<and> (strip_trailing_slashes (dir_of ds) \<noteq> None \<or> dir_of ds = [])))"

definition unit_lines :: "dwarf_die \<Rightarrow> source_line list" where
  "unit_lines die =
     map (\<lambda>(src, n, a). (source_path (dir_of (the (die_srcdirs die))) src, n, a))
       (List.map_filter statement (the (die_srclines die)))"

lemma die_lines_unit: "unit_ok die \<Longrightarrow> die_lines die = Some (unit_lines die)"
  using die_lines_eq by (auto simp: unit_ok_def unit_lines_def split: option.splits)

lemma forEachLine_units:
  assumes "unit_dies (dw_offdie d) 0 (dw_nextcu d) = map Some dies" "\<forall>die \<in> set dies. unit_ok die"
  shows "forEachLine d = Some (concat (map unit_lines dies))"
  using assms forEachLine_all_units bind_all_Some [of dies die_lines unit_lines]
  by (simp add: forEachLine_def die_lines_unit)

text \<open>
  Property C15. Parsing an executable reports, to every line listener and in the order of the
  debug information, exactly the statements with a line number whose address lies in an executable
  section of the file: under the source path (the compilation directory in front of a relative
  name) after the filter's replacement, at the address plus the relocation of the file. Stated
  for address verification off, all units of the debug information readable, and no program
  headers given for the file.
\<close>

theorem elf_reports_lines:
  assumes "ee_exists e (ep_filename p)" "ee_read_file e (ep_filename p) = Some fd"
    and "ElfImpl_parse (ee_little_endian e) (ee_elf_memory e fd) fd = Some i"
    and "vf_setup (ee_verifier e) fd (ep_addressVerifier p) = Some v"
    and "add_sections (ee_verifier e) (ei_segments i) v = Some v'"
    and "\<not> ep_verifyAddresses p" "ep_curSegments p = []" "ep_executableSegments p = []"
    and "ee_dwarf e (ep_filename p) = Some d"
    and "unit_dies (dw_offdie d) 0 (dw_nextcu d) = map Some dies" "\<forall>die \<in> set dies. unit_ok die"
  shows "\<exists>p'. doParse e p relocation = Some (True, p',
    line_reports e p (covered_by (ei_segments i)) (\<lambda>a. a + relocation) (concat (map unit_lines dies)))"
proof -
  obtain q where q: "parseOneElf e p = Some q" "ep_executableSegments q = ei_segments i"
    "ep_curSegments q = ei_segments i" "\<not> ep_verifyAddresses q" "ep_filter q = ep_filter p"
    "ep_lineListeners q = ep_lineListeners p" "ep_filename q = ep_filename p" "ep_addressVerifier q = v"
    using parseOneElf_fields [OF assms(2,3,4)] assms(6,7,8) by auto
  have "adjustAddressBySegment (ei_segments i) a = a" for a
    using adjust_unmoved ElfImpl_parse_unmoved [OF assms(3)] .
  moreover have "line_reports e q = line_reports e p" by (simp add: line_reports_def fun_eq_iff q)
  ultimately show ?thesis
    using parse_no_verify [OF assms(1) q(1,4) _ _ forEachLine_units [OF assms(10,11)], of v' relocation] assms(5,9) q
    by simp
qed

definition demo_die :: dwarf_die where
  "demo_die =
     \<lparr>die_srclines = Some [Some \<lparr>dl_lineno = Some 3, dl_linesrc = Some ''a.c'', dl_beginstatement = Some True,
        dl_lineaddr = Some 0x1004\<rparr>, Some \<lparr>dl_lineno = Some 4, dl_linesrc = Some ''a.c'',
        dl_beginstatement = Some True, dl_lineaddr = Some 0x2000\<rparr>],
      die_srcfiles = True, die_srcdirs = Some [Some ''/src/''], die_getsrc = \<lambda>_. None\<rparr>"

definition demo_dwarf :: dwarf where
  "demo_dwarf = \<lparr>dw_nextcu = [(0x80, 11)], dw_offdie = \<lambda>off. if off = 11 then Some demo_die else None\<rparr>"

definition demo_text :: elf_section where
  "demo_text = \<lparr>sh_type = 1, sh_addr = 0x1000, sh_size = 8, sh_flags = 6, sh_offset = 4,
     sec_data = Some (replicate 8 0x90), sec_name = Some ''.text''\<rparr>"

definition demo_elf_env :: "unit elf_env" where
  "demo_elf_env =
     \<lparr>ee_little_endian = True, ee_machine_is_64bit = True, ee_elf_version = True, ee_verify = False,
      ee_parse_solibs = True, ee_open = \<lambda>_. True,
      ee_elf_begin = \<lambda>_. Some \<lparr>fi_kind_none = False, fi_ident = Some [0x7f, 0x45, 0x4c, 0x46, 2],
        fi_type = \<lambda>_. Some 3, fi_checksum = \<lambda>_. 0x1234\<rparr>,
      ee_exists = \<lambda>_. True, ee_read_file = \<lambda>_. Some (ELFMAG @ replicate 8 0x90),
      ee_elf_memory = \<lambda>_. Some \<lparr>ev_shstrndx = True, ev_sections = [demo_text]\<rparr>,
      ee_dwarf = \<lambda>_. Some demo_dwarf, ee_rp = id, ee_regex_replace = \<lambda>s _ _. s,
      ee_verifier = DummyDisassembler dis_other\<rparr>"

definition demo_elf :: "unit ElfInstance" where
  "demo_elf = (elf_registerLineListener (mk_ElfInstance () (mk_BasicFilter \<lparr>conf_exclude_line = [], conf_exclude_region = [],
     conf_include_pattern = [], conf_exclude_pattern = [], conf_include_path = [], conf_exclude_path = [],
     conf_orig_path_prefix = [], conf_new_path_prefix = []\<rparr>)) 7)\<lparr>ep_filename := ''/bin/a'', ep_elfIsShared := True\<rparr>"

definition demo_im :: ElfImpl where
  "demo_im = \<lparr>ei_buildId = [], ei_debugLink = None,
     ei_segments = [\<lparr>seg_data = Some (replicate 8 0x90), seg_paddr = 0x1000, seg_vaddr = 0x1000, seg_size = 8\<rparr>],
     ei_fileData = ELFMAG @ replicate 8 0x90\<rparr>"

lemma demo_impl:
  "ElfImpl_parse (ee_little_endian demo_elf_env) (ee_elf_memory demo_elf_env (ELFMAG @ replicate 8 0x90))
     (ELFMAG @ replicate 8 0x90) = Some demo_im"
  by (simp add: ElfImpl_parse_def demo_elf_env_def demo_text_def demo_im_def ELFMAG_def parse_section_def
      sec_notes_def SHT_NOTE_def sec_debuglink_def sec_segment_def mk_Segment_def read_at_def)

lemma demo_unit:
  "unit_ok demo_die" "unit_lines demo_die = [(''/src/a.c'', 3, 0x1004), (''/src/a.c'', 4, 0x2000)]"
  by (simp_all add: unit_ok_def unit_lines_def demo_die_def dir_of_def statement_def source_path_def
      absolute_def dir_concat_def strip_trailing_slashes.simps map_filter_simps)

lemma demo_reports:
  "line_reports demo_elf_env demo_elf (covered_by (ei_segments demo_im)) f
     (concat (map unit_lines [demo_die])) = [ELine 7 ''/src/a.c'' 3 (f 0x1004)]"
  by (simp add: demo_unit demo_im_def line_reports_def covered_by_def addressIsWithinSegment_def mangleSourcePath_def
      demo_elf_def mk_ElfInstance_def mk_BasicFilter_def elf_registerLineListener_def)

lemmas demo_elf_defs = demo_elf_env_def demo_elf_def demo_dwarf_def mk_ElfInstance_def
  elf_registerLineListener_def

theorem elf_reports_lines_witness:
  "\<exists>p'. doParse demo_elf_env demo_elf 0x550000 = Some (True, p', [ELine 7 ''/src/a.c'' 3 0x551004])"
proof -
  have "\<exists>p'. doParse demo_elf_env demo_elf 0x550000 = Some (True, p', line_reports demo_elf_env demo_elf
      (covered_by (ei_segments demo_im)) (\<lambda>a. a + 0x550000) (concat (map unit_lines [demo_die])))"
    by (rule elf_reports_lines [where d = demo_dwarf and v = "()" and v' = "()", OF _ _ demo_impl])
      (simp_all add: demo_elf_defs demo_unit, simp_all add: DummyDisassembler_def)
  then show ?thesis unfolding demo_reports by simp
qed

lemma strcmp_eq_append: "0 \<notin> set bs \<Longrightarrow> strcmp_eq (bs @ 0 # rest) bs = Some True"
  by (induction bs) auto

lemma note_build_id_ok:
  assumes "length ident < 2 ^ 32"
  shows "note_build_id le (store le (4 :: u32) @ store le (of_nat (length ident) :: u32) @ store le NT_GNU_BUILD_ID @
      ELF_NOTE_GNU @ 0 # ident @ rest) = Some (build_id_digits ident)"
proof -
  let ?n = "of_nat (length ident) :: u32"
  define a b c where "a = (store le (4 :: u32) :: byte list)" and "b = (store le ?n :: byte list)"
    and "c = (store le NT_GNU_BUILD_ID :: byte list)"
  define tl where "tl = ELF_NOTE_GNU @ 0 # ident @ rest"
  have len: "length a = 4" "length b = 4" "length c = 4" by (simp_all add: a_def b_def c_def)
  have u: "unat ?n = length ident" using assms by (intro unat_of_nat_small) simp
  have "load32 le (a @ b @ c @ tl) 0 = Some 4" "load32 le (a @ b @ c @ tl) 4 = Some ?n"
    "load32 le (a @ b @ c @ tl) 8 = Some NT_GNU_BUILD_ID"
    using load32_middle [of "[]" 0 le 4 "b @ c @ tl"] load32_middle [OF len(1), of le ?n "c @ tl"]
      load32_middle [of "a @ b" 8 le NT_GNU_BUILD_ID tl] len by (simp_all add: a_def b_def c_def)
  moreover have "drop sizeof_Nhdr (a @ b @ c @ tl) = tl" by (simp add: sizeof_Nhdr_def len)
  moreover have "strcmp_eq tl ELF_NOTE_GNU = Some True"
    unfolding tl_def by (rule strcmp_eq_append) (simp add: ELF_NOTE_GNU_def)
  moreover have "read_at (a @ b @ c @ tl) (sizeof_Nhdr + unat (4 :: u32)) (unat ?n) = Some ident"
    using read_at_middle [of "a @ b @ c @ ELF_NOTE_GNU @ [0]" 16 ident "length ident" rest] len
    by (simp add: tl_def ELF_NOTE_GNU_def sizeof_Nhdr_def u)
  ultimately show ?thesis by (simp add: note_build_id_def a_def b_def c_def tl_def)
qed

lemma parse_debuglink_ok:
  assumes "0 \<notin> set name" "length pad = (if (length name + 1) mod 4 = 0 then 0 else 4 - (length name + 1) mod 4)"
  shows "parse_debuglink le (name @ 0 # pad @ store le crc @ rest) = Some (name, crc)"
proof -
  have "c_string_at (name @ 0 # pad @ store le crc @ rest) 0 = Some name"
    using c_string_at_middle [of "[]" 0 name] assms(1) by simp
  moreover have "load32 le ((name @ 0 # pad) @ store le crc @ rest) (length name + 1 + length pad) = Some crc"
    by (rule load32_middle) simp
  moreover have "(if (length name + 1) mod 4 \<noteq> 0 then 4 - (length name + 1) mod 4 else 0) = length pad"
    using assms(2) by simp
  ultimately show ?thesis unfolding parse_debuglink_def Let_def by (simp del: add_Suc_right)
qed

text \<open>
  What the link editor writes is read back: a GNU build-id note gives the two
  hexadecimal digits of each of its bytes, and a debug link section, with its name padded to four
  bytes, gives the name and the CRC.
\<close>

lemma elf_identifiers_roundtrip:
  assumes "length ident < 2 ^ 32" "0 \<notin> set name"
    and "length pad = (if (length name + 1) mod 4 = 0 then 0 else 4 - (length name + 1) mod 4)"
  shows "note_build_id le (store le (4 :: u32) @ store le (of_nat (length ident) :: u32) @ store le NT_GNU_BUILD_ID @
      ELF_NOTE_GNU @ 0 # ident @ rest) = Some (build_id_digits ident) \<and>
    parse_debuglink le (name @ 0 # pad @ store le crc @ rest) = Some (name, crc)"
  using note_build_id_ok [OF assms(1)] parse_debuglink_ok [OF assms(2,3)] by blast

lemma elf_identifiers_roundtrip_witness:
  "note_build_id True (store True (4 :: u32) @ store True (2 :: u32) @ store True NT_GNU_BUILD_ID @
      ELF_NOTE_GNU @ 0 # [0xab, 0x0c]) = Some ''ab0c'' \<and>
   parse_debuglink True ([0x61, 0x2e, 0x64] @ 0 # store True (0xcbf43926 :: u32)) = Some ([0x61, 0x2e, 0x64], 0xcbf43926)"
  using elf_identifiers_roundtrip [where ident = "[0xab, 0x0c]" and name = "[0x61, 0x2e, 0x64]" and
      pad = "[]" and le = True and rest = "[]" and crc = "0xcbf43926"]
  by (simp add: build_id_digits_def hex_digit_def char_of_def bit_0)

end
