(* ===== verification/Kcov_Solib_Props.thy ===== *)
theory Kcov_Solib_Props
  imports Kcov_Elf_Props
begin

text \<open>
  Properties of the handling of shared libraries: the table of program headers on its way from
  the traced process to the parser, and the addresses of the lines of a library.
\<close>

section \<open>From the pipe to the parser\<close>

text \<open>The libraries of a decoded table: each name is parsed once, an empty name never.\<close>

fun parse_libs ::
  "'v elf_env \<Rightarrow> phdr_data_entry list \<Rightarrow> SolibHandler \<Rightarrow> 'v ElfInstance \<Rightarrow>
   (SolibHandler \<times> 'v ElfInstance \<times> elf_out list) option" where
  "parse_libs e [] h p = Some (h, p, [])"
| "parse_libs e (en # ens) h p =
     (if pe_name en = [] \<or> sv_foundSolibs h (pe_name en) \<noteq> None then parse_libs e ens h p
      else Option.bind (elf_addFile e p (pe_name en) (Some en)) (\<lambda>(_, p1, outs1).
           Option.bind (elf_parse e p1) (\<lambda>(_, p2, outs2).
           map_option (\<lambda>(h', p3, outs3). (h', p3, outs1 @ outs2 @ outs3))
             (parse_libs e ens (h\<lparr>sv_foundSolibs := (sv_foundSolibs h)(pe_name en \<mapsto> True)\<rparr>) p2))))"

lemma entry_name_at:
  assumes "length pre = off" "entry_ok en"
  shows "map_option bytes_to_string (c_string_at (pre @ put_entry le en @ post) off) = Some (pe_name en)"
  using get_entry_ok [OF assms, of le post]
  by (auto simp: get_entry_def Option.bind_eq_Some_conv split: if_splits)

lemma check_entries_eq:
  "length pre = off \<Longrightarrow> \<forall>en \<in> set ens. entry_ok en \<Longrightarrow> ee_little_endian e = le \<Longrightarrow>
     check_entries e (pre @ concat (map (put_entry le) ens) @ post) off (length ens) h p = parse_libs e ens h p"
proof (induction ens arbitrary: pre off h p)
  case Nil
  then show ?case by simp
next
  case (Cons en ens)
  let ?msg = "pre @ put_entry le en @ concat (map (put_entry le) ens) @ post"
  have "check_entries e ((pre @ put_entry le en) @ concat (map (put_entry le) ens) @ post)
      (off + sizeof_phdr_data_entry) (length ens) h p = parse_libs e ens h p" for h p
    using Cons.prems by (intro Cons.IH) (simp_all add: length_put_entry)
  then have rest: "check_entries e ?msg (off + sizeof_phdr_data_entry) (length ens) h p = parse_libs e ens h p" for h p
    by simp
  have "get_entry le ?msg off = Some en" using Cons.prems by (intro get_entry_ok) simp_all
  moreover obtain bs where "c_string_at ?msg off = Some bs" "bytes_to_string bs = pe_name en"
    using entry_name_at [of pre off en le "concat (map (put_entry le) ens) @ post"] Cons.prems by auto
  ultimately show ?case using Cons.prems by (simp add: rest Let_def)
qed

lemma solib_read_table:
  assumes "\<forall>en \<in> set (pd_entries t). entry_ok en"
    and "phdr_data_unmarshal le (phdr_data_marshal le t @ drop (length (phdr_data_marshal le t)) buf) =
           Some (Some (of_nat (length (pd_entries t))))"
    and "unat (of_nat (length (pd_entries t)) :: u32) = length (pd_entries t)"
    and "length (phdr_data_marshal le t) < length buf"
  shows "solib_read le buf (phdr_data_marshal le t) h =
    Some (phdr_data_marshal le t @ drop (length (phdr_data_marshal le t)) buf,
          h\<lparr>sv_phdrs := sv_phdrs h @ [phdr_data_marshal le t]\<rparr>)"
  using assms length_phdr_data_marshal [OF assms(1), of le]
  by (simp add: solib_read_def read_at_def Let_def mult.commute)

lemma checkSolibData_table:
  assumes "sv_phdrs h = phdr_data_marshal le t # rest" "ee_little_endian e = le"
    and "\<forall>en \<in> set (pd_entries t). entry_ok en"
    and "unat (of_nat (length (pd_entries t)) :: u32) = length (pd_entries t)" "\<not> sv_hasSetupRelocation h"
  shows "checkSolibData e h p =
    Option.bind (setMainFileRelocation e p (pd_relocation t)) (\<lambda>(_, p1, outs1).
      map_option (\<lambda>(h2, p2, outs2). (h2, p2, outs1 @ outs2))
        (parse_libs e (pd_entries t) (h\<lparr>sv_phdrs := rest, sv_hasSetupRelocation := True\<rparr>) p1))"
proof -
  define hd where "hd = store le PHDR_MAGIC @ store le KCOV_SOLIB_VERSION @ store le (pd_relocation t) @
    store le (of_nat (length (pd_entries t)) :: u32) @ replicate 4 (0 :: byte)"
  have msg: "phdr_data_marshal le t = hd @ concat (map (put_entry le) (pd_entries t)) @ []"
    by (simp add: phdr_data_marshal_def hd_def)
  have "length hd = sizeof_phdr_data" by (simp add: hd_def sizeof_phdr_data_def)
  from check_entries_eq [OF this assms(3,2), of "[]"]
  have "check_entries e (phdr_data_marshal le t) sizeof_phdr_data (length (pd_entries t)) h p = parse_libs e (pd_entries t) h p"
    for h p unfolding msg .
  moreover have "load64 le (phdr_data_marshal le t) 8 = Some (pd_relocation t)"
    "load32 le (phdr_data_marshal le t) 16 = Some (of_nat (length (pd_entries t)))"
    using phdr_data_marshal_fields(3,4) [of le t "[]"] by simp_all
  ultimately show ?thesis
    using assms by (cases "setMainFileRelocation e p (pd_relocation t)")
      (auto simp: checkSolibData_def setup_relocation_def)
qed

text \<open>
  Property C29. The table that the preloaded library sends for the objects of a process, when one
  read of the pipe delivers it, reaches the parser unchanged: at the next tick the main file is
  parsed at the address of the first object, then every object of the table, in order, with its
  load segments, leaving out empty names, names seen before and objects with more than 64 load
  segments. Stated for a first table, of a size that fits the areas of both sides, and a first object that is
  not left out.
\<close>

theorem solib_table_delivered:
  assumes "sizeof_phdr_data + sizeof_phdr_data_entry * length (i # is) \<le> sizeof_data_area" "fits i"
    and "parse_solibs (ee_little_endian e) (Some pipe) (i # is) (i # is) = Some (Some msg)"
    and "length msg < length buf" "sv_phdrs h = []" "\<not> sv_hasSetupRelocation h"
  shows "\<exists>buf' h1. solib_read (ee_little_endian e) buf msg h = Some (buf', h1) \<and>
    checkSolibData e h1 p =
      Option.bind (setMainFileRelocation e p (dlpi_addr i)) (\<lambda>(_, p1, outs1).
        map_option (\<lambda>(h2, p2, outs2). (h2, p2, outs1 @ outs2))
          (parse_libs e (map entry_of (filter fits (i # is))) (h\<lparr>sv_hasSetupRelocation := True\<rparr>) p1))"
proof -
  let ?t = "sent_table (i # is)" and ?le = "ee_little_endian e"
  have msg: "msg = phdr_data_marshal ?le ?t" using parse_solibs_sent [OF assms(1,2)] assms(3) by simp
  have read: "solib_read ?le buf msg h = Some (msg @ drop (length msg) buf, h\<lparr>sv_phdrs := [msg]\<rparr>)"
    using solib_read_table [OF sent_table_ok sent_table_accepted [OF assms(1)], of ?le buf h] assms(4,5)
    by (simp add: msg)
  have "checkSolibData e (h\<lparr>sv_phdrs := [msg]\<rparr>) p =
      Option.bind (setMainFileRelocation e p (pd_relocation ?t)) (\<lambda>(_, p1, outs1).
        map_option (\<lambda>(h2, p2, outs2). (h2, p2, outs1 @ outs2))
          (parse_libs e (pd_entries ?t) (h\<lparr>sv_phdrs := [], sv_hasSetupRelocation := True\<rparr>) p1))"
    using checkSolibData_table [OF _ refl sent_table_ok sent_table_accepted(2) [OF assms(1)], of _ e "[]" p] assms(6)
    by (simp add: msg)
  moreover have "h\<lparr>sv_phdrs := [], sv_hasSetupRelocation := True\<rparr> = h\<lparr>sv_hasSetupRelocation := True\<rparr>"
    using assms(5) by (cases h) simp
  ultimately show ?thesis using read by (auto simp: sent_table_def)
qed


definition demo_main :: dl_phdr_info where
  "demo_main = \<lparr>dlpi_addr = 0x550000, dlpi_name = [], dlpi_phdr = []\<rparr>"

definition demo_lib :: dl_phdr_info where
  "demo_lib = \<lparr>dlpi_addr = 0x7f0000, dlpi_name = ''/lib/libx.so'',
     dlpi_phdr = [\<lparr>p_type = 6, p_vaddr = 0, p_paddr = 0, p_memsz = 0x40\<rparr>,
                  \<lparr>p_type = PT_LOAD, p_vaddr = 0x1000, p_paddr = 0x1000, p_memsz = 0x800\<rparr>]\<rparr>"

theorem solib_table_delivered_witness:
  "\<exists>msg buf' h1. parse_solibs True (Some ''/tmp/p'') [demo_main, demo_lib] [demo_main, demo_lib] = Some (Some msg) \<and>
     solib_read True (replicate 10000 0) msg mk_SolibHandler = Some (buf', h1) \<and>
     checkSolibData demo_elf_env h1 demo_elf =
       Option.bind (setMainFileRelocation demo_elf_env demo_elf 0x550000) (\<lambda>(_, p1, outs1).
         map_option (\<lambda>(h2, p2, outs2). (h2, p2, outs1 @ outs2))
           (parse_libs demo_elf_env [entry_of demo_main, entry_of demo_lib]
              (mk_SolibHandler\<lparr>sv_hasSetupRelocation := True\<rparr>) p1))"
proof -
  let ?is = "[demo_main, demo_lib]"
  let ?msg = "phdr_data_marshal True (sent_table ?is)"
  have sz: "sizeof_phdr_data + sizeof_phdr_data_entry * length ?is \<le> sizeof_data_area"
    by (simp add: sizeof_phdr_data_def sizeof_phdr_data_entry_def sizeof_data_area_def sizeof_name_def
        max_segments_def sizeof_segment_def)
  have f: "fits demo_main" "fits demo_lib"
    by (simp_all add: loads_def demo_main_def demo_lib_def max_segments_def)
  have le: "ee_little_endian demo_elf_env = True" by (simp add: demo_elf_env_def)
  have sent: "parse_solibs (ee_little_endian demo_elf_env) (Some ''/tmp/p'') ?is ?is = Some (Some ?msg)"
    using parse_solibs_sent [OF sz f(1)] by (simp add: le)
  have "length (pd_entries (sent_table ?is)) = 2" by (simp add: sent_table_def f)
  then have len: "length ?msg < length (replicate 10000 (0 :: byte))"
    using length_phdr_data_marshal [OF sent_table_ok, of True ?is]
    by (simp add: sizeof_phdr_data_def sizeof_phdr_data_entry_def sizeof_name_def max_segments_def sizeof_segment_def)
  have "sv_phdrs mk_SolibHandler = []" "\<not> sv_hasSetupRelocation mk_SolibHandler"
    by (simp_all add: mk_SolibHandler_def)
  from solib_table_delivered [OF sz f(1) sent len this, of demo_elf] sent
  show ?thesis by (auto simp: le f demo_main_def [THEN arg_cong [of _ _ dlpi_addr]])
qed

section \<open>The lines of a library\<close>

lemma adjust_loads:
  assumes "\<forall>h \<in> set hs. p_paddr h = p_vaddr h"
    and "covered_by (map phdr_segment (map (segment_of base) hs)) a"
  shows "adjustAddressBySegment (map phdr_segment (map (segment_of base) hs)) a = base + a"
  using assms
  by (induction hs) (auto simp: covered_by_def phdr_segment_def segment_of_def addressIsWithinSegment_def adjustAddress_def)

lemma line_reports_cong:
  assumes "ep_filter q = ep_filter p" "ep_lineListeners q = ep_lineListeners p" "\<And>a. covered_by ss a \<Longrightarrow> f a = g a"
  shows "line_reports e q (covered_by ss) f ls = line_reports e p (covered_by ss) g ls"
  by (induction ls) (auto simp: line_reports_def assms)

text \<open>
  Property C16. For a library of the process: when address verification is off, the file can be opened and parsed and
  has debug information all units of which can be read, the load segments have equal physical and virtual
  addresses and hold the executable sections of the file, the main file has been set up before and the library is not the
  main file, then the parser announces the file as a shared library and reports the lines of its debug
  information that lie in its executable sections, at the load address of the library plus their address in the
  file. (With --verify, lines whose address the verifier rejects are left out.)
\<close>

theorem library_lines:
  assumes "\<not> ep_isMainFile p" "ep_initialized p" "\<not> ep_verifyAddresses p"
    and "ee_open e name" "ee_elf_begin e name = Some fi" "\<not> fi_kind_none fi"
    and "ee_exists e name" "ee_read_file e name = Some fd"
    and "ElfImpl_parse (ee_little_endian e) (ee_elf_memory e fd) fd = Some im"
    and "vf_setup (ee_verifier e) fd (ep_addressVerifier p) = Some v"
    and "add_sections (ee_verifier e) (ei_segments im) v = Some v'"
    and "ee_dwarf e name = Some d"
    and "unit_dies (dw_offdie d) 0 (dw_nextcu d) = map Some dies" "\<forall>die \<in> set dies. unit_ok die"
    and "\<forall>h \<in> set (loads i). p_paddr h = p_vaddr h" "loads i \<noteq> []"
    and "\<And>a. covered_by (ei_segments im) a \<Longrightarrow> covered_by (map phdr_segment (pe_segments (entry_of i))) a"
  shows "\<exists>p1 p2. elf_addFile e p name (Some (entry_of i)) =
      Some (True, p1, map (\<lambda>l. EFile l name FLG_TYPE_SOLIB) (ep_fileListeners p)) \<and>
    elf_parse e p1 = Some (True, p2,
      line_reports e p (covered_by (ei_segments im)) (\<lambda>a. dlpi_addr i + a) (concat (map unit_lines dies)))"
proof -
  let ?segs = "map phdr_segment (pe_segments (entry_of i))"
  let ?p1 = "p\<lparr>ep_filename := name, ep_buildId := [], ep_debuglink := [],
    ep_curSegments := ?segs, ep_executableSegments := []\<rparr>"
  have add: "elf_addFile e p name (Some (entry_of i)) =
      Some (True, ?p1, map (\<lambda>l. EFile l name FLG_TYPE_SOLIB) (ep_fileListeners p))"
    using assms by (simp add: elf_addFile_def elf_init_def checkFile_def)
  have "?segs \<noteq> []" using assms(16) by (simp add: entry_of_def)
  then obtain q where q: "parseOneElf e ?p1 = Some q" "ep_executableSegments q = ei_segments im"
    "ep_curSegments q = ?segs" "\<not> ep_verifyAddresses q" "ep_filter q = ep_filter p"
    "ep_lineListeners q = ep_lineListeners p" "ep_filename q = name" "ep_addressVerifier q = v"
    using parseOneElf_fields [of e ?p1 fd im v] assms by auto
  obtain p2 where parse: "doParse e ?p1 0 = Some (True, p2, line_reports e q (covered_by (ei_segments im))
      (\<lambda>a. adjustAddressBySegment ?segs a + 0) (concat (map unit_lines dies)))"
    using parse_no_verify [OF _ q(1,4) _ _ forEachLine_units [OF assms(13,14)], of v' 0] assms(7,11,12) q by auto
  have "line_reports e q (covered_by (ei_segments im)) (\<lambda>a. adjustAddressBySegment ?segs a + 0) (concat (map unit_lines dies)) =
      line_reports e p (covered_by (ei_segments im)) (\<lambda>a. dlpi_addr i + a) (concat (map unit_lines dies))"
    using adjust_loads [OF assms(15), of "dlpi_addr i"] assms(17) q by (intro line_reports_cong) (auto simp: entry_of_def)
  with parse have "elf_parse e ?p1 = Some (True, p2\<lparr>ep_isMainFile := False\<rparr>,
      line_reports e p (covered_by (ei_segments im)) (\<lambda>a. dlpi_addr i + a) (concat (map unit_lines dies)))"
    using assms(1) by (simp add: elf_parse_def)
  with add show ?thesis by blast
qed


theorem library_lines_witness:
  "\<exists>p1 p2. elf_addFile demo_elf_env (demo_elf\<lparr>ep_isMainFile := False, ep_initialized := True\<rparr>) ''/lib/libx.so''
      (Some (entry_of demo_lib)) = Some (True, p1, []) \<and>
    elf_parse demo_elf_env p1 = Some (True, p2, [ELine 7 ''/src/a.c'' 3 0x7f1004])"
proof -
  let ?p = "demo_elf\<lparr>ep_isMainFile := False, ep_initialized := True\<rparr>"
  let ?segs = "ei_segments demo_im"
  have l: "loads demo_lib = [\<lparr>p_type = PT_LOAD, p_vaddr = 0x1000, p_paddr = 0x1000, p_memsz = 0x800\<rparr>]"
    by (simp add: loads_def demo_lib_def PT_LOAD_def)
  have cov: "covered_by ?segs a \<Longrightarrow> covered_by (map phdr_segment (pe_segments (entry_of demo_lib))) a" for a :: u64
    by (auto simp: covered_by_def demo_im_def entry_of_def l phdr_segment_def segment_of_def addressIsWithinSegment_def
        elim: order.strict_trans2 less_le_trans [rotated])
  have "\<exists>p1 p2. elf_addFile demo_elf_env ?p ''/lib/libx.so'' (Some (entry_of demo_lib)) =
      Some (True, p1, map (\<lambda>l. EFile l ''/lib/libx.so'' FLG_TYPE_SOLIB) (ep_fileListeners ?p)) \<and>
    elf_parse demo_elf_env p1 = Some (True, p2,
      line_reports demo_elf_env ?p (covered_by ?segs) (\<lambda>a. dlpi_addr demo_lib + a) (concat (map unit_lines [demo_die])))"
    by (rule library_lines [where d = demo_dwarf and v = "()" and v' = "()" and e = demo_elf_env and p = ?p and i = demo_lib and
          name = "''/lib/libx.so''" and fi = "the (ee_elf_begin demo_elf_env [])", OF _ _ _ _ _ _ _ _ demo_impl])
      (use cov in \<open>simp_all add: demo_elf_defs demo_unit l\<close>, simp_all add: DummyDisassembler_def)
  moreover have "line_reports demo_elf_env ?p = line_reports demo_elf_env demo_elf"
    by (simp add: line_reports_def fun_eq_iff)
  ultimately show ?thesis by (simp only: demo_reports) (simp add: demo_elf_defs demo_lib_def)
qed


section \<open>Reads that do not deliver a whole table\<close>

text \<open>
  A pipe gives at most what it holds, 64 KiB by default, which is 25 objects. What is missing of a
  table is taken from the buffer as it was, and the rest of it, which comes with the next read,
  does not begin with the magic number and is left out.
\<close>

lemma solib_short_read:
  assumes "\<forall>en \<in> set (pd_entries t). entry_ok en"
    and "sizeof_phdr_data \<le> k" "k \<le> length (phdr_data_marshal le t)" "length (phdr_data_marshal le t) < n"
    and "phdr_data_unmarshal le (take k (phdr_data_marshal le t) @ replicate (n - k) 0) =
           Some (Some (of_nat (length (pd_entries t))))"
    and "unat (of_nat (length (pd_entries t)) :: u32) = length (pd_entries t)"
  shows "\<exists>buf'. solib_read le (replicate n 0) (take k (phdr_data_marshal le t)) h =
    Some (buf', h\<lparr>sv_phdrs := sv_phdrs h @
      [take k (phdr_data_marshal le t) @ replicate (length (phdr_data_marshal le t) - k) 0]\<rparr>)"
proof -
  define m where "m = phdr_data_marshal le t"
  have len: "length (take k m) = k" using assms(3) by (simp add: m_def)
  have sz: "sizeof_phdr_data + length (pd_entries t) * sizeof_phdr_data_entry = length m"
    unfolding m_def by (simp add: length_phdr_data_marshal [OF assms(1)])
  have "read_at (take k m @ replicate (n - k) 0) 0 (length m) = Some (take k m @ replicate (length m - k) 0)"
    using assms(3,4) len unfolding m_def [symmetric] by (auto simp: read_at_def min_def)
  then show ?thesis
    using assms(3-6) len unfolding m_def [symmetric] by (simp add: solib_read_def Let_def sz)
qed

lemma solib_rest_ignored:
  assumes "load32 le (r @ drop (length r) buf) 0 \<noteq> Some PHDR_MAGIC" "20 \<le> length buf" "length r < length buf"
  shows "solib_read le buf r h = Some (r @ drop (length r) buf, h)"
proof -
  let ?b = "r @ drop (length r) buf"
  have "length ?b = length buf" using assms(3) by simp
  then obtain m v n where "load32 le ?b 0 = Some m" "load32 le ?b 4 = Some v" "load32 le ?b 16 = Some n"
    using assms(2) by (simp add: load32_def read_at_def)
  with assms show ?thesis by (simp add: solib_read_def phdr_data_unmarshal_def)
qed

text \<open>The number of entries that is accepted can exceed what the buffer holds.\<close>

lemma solib_claimed_size:
  assumes "length r < length buf" "phdr_data_unmarshal le (r @ drop (length r) buf) = Some (Some n)"
    and "length buf < sizeof_phdr_data + unat n * sizeof_phdr_data_entry"
  shows "solib_read le buf r h = None"
  using assms by (simp add: solib_read_def read_at_def Let_def)

end
