(* ===== verification/Kcov_Disasm.thy ===== *)
theory Kcov_Disasm
  imports Kcov_ElfParser
begin

text \<open>
  The disassembler on binutils (\<open>src/src/parsers/bfd-disassembler.cc\<close>): sections by address, the
  addresses of instructions, and basic blocks.

  \<^item> \<open>m_cache\<close> is a \<open>std::map\<close>: an association list in the order of its keys.
  \<^item> \<open>m_orderedInstructions\<close> points into \<open>m_instructions\<close> at the same address; it is the list of its
    keys, in order.
  \<^item> A pointer to a basic block is its index in \<open>m_bbs\<close>, whose first entry is the null pointer.
  \<^item> \<open>print_insn_i386\<close> of binutils is an argument: for the machine, the bytes and an offset it gives the
    pieces it prints and the length of the instruction, negative at an error.
  \<^item> \<open>None\<close> is a panic, an exception, or undefined behaviour.
\<close>

type_synonym insn_decoder = "bool \<Rightarrow> byte list \<Rightarrow> u64 \<Rightarrow> string list \<times> int"

definition BT_INVALID :: u64 where
  "BT_INVALID = 0xfffffffffffffffe"

definition x86BranchInstructions :: "string list" where
  "x86BranchInstructions =
     [''ja'', ''jae'', ''jbe'', ''jc'', ''je'', ''jg'', ''jge'', ''jl'', ''jle'', ''jna'', ''jnae'', ''jnb'',
      ''jnbe'', ''jnc'', ''jne'', ''jng'', ''jnge'', ''jnl'', ''jnle'', ''jno'', ''jnp'', ''jns'', ''jnz'',
      ''jo'', ''jp'', ''jpe'', ''jpo'', ''js'', ''jz'', ''jczx'', ''jezx'', ''loop'', ''jmp'', ''call'', ''ret'']"

section \<open>State\<close>

record Instruction =
  in_branchTarget :: u64
  in_leader :: bool
  in_bb :: "nat option"

definition mk_Instruction :: "u64 \<Rightarrow> Instruction" where
  "mk_Instruction branchTarget = \<lparr>in_branchTarget = branchTarget, in_leader = False, in_bb = None\<rparr>"

definition isBranch :: "Instruction \<Rightarrow> bool" where
  "isBranch i = (in_branchTarget i \<noteq> BT_INVALID)"

record Section =
  bs_data :: "byte list"
  bs_startAddress :: u64
  bs_disassembled :: bool

record BfdDisassembler =
  dis_x86_64 :: bool
  dis_cache :: "(u64 \<times> Section) list"
  dis_instructions :: "u64 \<rightharpoonup> Instruction"
  dis_ordered :: "u64 list"
  dis_bbs :: "u64 list option list"

definition mk_BfdDisassembler :: BfdDisassembler where
  "mk_BfdDisassembler =
     \<lparr>dis_x86_64 = False, dis_cache = [], dis_instructions = Map.empty, dis_ordered = [], dis_bbs = []\<rparr>"

section \<open>Set-up\<close>

definition dis_setup :: "byte list \<Rightarrow> BfdDisassembler \<Rightarrow> BfdDisassembler option" where
  "dis_setup header d =
     (if length header \<le> 4 then None
      else Some (d\<lparr>dis_cache := [], dis_instructions := Map.empty, dis_ordered := [], dis_bbs := [],
                   dis_x86_64 := (header ! 4 = 2)\<rparr>))"

text \<open>The section copies its bytes; a null pointer or too few of them is undefined behaviour.\<close>

definition mk_Section :: "byte list option \<Rightarrow> u64 \<Rightarrow> u64 \<Rightarrow> Section option" where
  "mk_Section data sz startAddress =
     (case data of
        None \<Rightarrow> None
      | Some bs \<Rightarrow>
          map_option (\<lambda>copy. \<lparr>bs_data = copy, bs_startAddress = startAddress, bs_disassembled = False\<rparr>)
            (read_at bs 0 (unat sz)))"

definition dis_addSection :: "byte list option \<Rightarrow> u64 \<Rightarrow> u64 \<Rightarrow> BfdDisassembler \<Rightarrow> BfdDisassembler option" where
  "dis_addSection data sz baseAddress d =
     (if map_of (dis_cache d) baseAddress \<noteq> None then Some d
      else map_option (\<lambda>s. d\<lparr>dis_cache := insort_key fst (baseAddress, s) (dis_cache d)\<rparr>)
             (mk_Section data sz baseAddress))"

section \<open>Instructions\<close>

text \<open>A piece of output, cut by \<open>vsnprintf\<close> to 62 characters.\<close>

definition opcodesFprintFunc :: "string \<Rightarrow> string" where
  "opcodesFprintFunc str = trim_string (take 62 str)"

text \<open>
  \<open>1 << 31\<close> is negative as an \<open>int\<close>: the bits from 31 on are looked at. \<open>string_to_integer\<close> does not
  throw on what \<open>string_is_integer\<close> accepts.
\<close>

definition instructionFactory :: "u64 \<Rightarrow> string list \<Rightarrow> Instruction" where
  "instructionFactory pc vec =
     (case vec of
        [] \<Rightarrow> mk_Instruction 0
      | [opcode] \<Rightarrow> mk_Instruction BT_INVALID
      | opcode # operand # _ \<Rightarrow>
          if opcode \<in> set x86BranchInstructions \<and> string_is_integer operand 0
          then case string_to_integer operand 0 of
                 Inl _ \<Rightarrow> mk_Instruction BT_INVALID
               | Inr offset \<Rightarrow>
                   mk_Instruction (pc + (if offset AND 0xffffffff80000000 \<noteq> 0 then offset OR 0xffffffff00000000
                                         else offset))
          else mk_Instruction BT_INVALID)"

definition add_instruction :: "u64 \<Rightarrow> Instruction \<Rightarrow> BfdDisassembler \<Rightarrow> BfdDisassembler" where
  "add_instruction addr i d =
     d\<lparr>dis_instructions := (dis_instructions d)(addr \<mapsto> i), dis_ordered := insort_insert addr (dis_ordered d)\<rparr>"

text \<open>The loop of \<open>Section::disassemble\<close>. The section is in memory, so that \<open>pc + count\<close> does not wrap.\<close>

function disassemble_from ::
  "(u64 \<Rightarrow> string list \<times> int) \<Rightarrow> u64 \<Rightarrow> nat \<Rightarrow> nat \<Rightarrow> BfdDisassembler \<Rightarrow> BfdDisassembler" where
  "disassemble_from f startAddress n pc d =
     (case f (of_nat pc) of (strs, count) \<Rightarrow>
        if count < 0 then d
        else let d1 = add_instruction (of_nat pc + startAddress)
                        (instructionFactory (of_nat pc) (map opcodesFprintFunc strs)) d
             in if 0 < count \<and> pc + nat count < n then disassemble_from f startAddress n (pc + nat count) d1
                else d1)"
  by pat_completeness auto
termination
  by (relation "measure (\<lambda>(f, s, n, pc, d). n - pc)") auto

declare disassemble_from.simps [simp del]

definition mark_disassembled :: "u64 \<Rightarrow> (u64 \<times> Section) list \<Rightarrow> (u64 \<times> Section) list" where
  "mark_disassembled k cache = map (\<lambda>(j, s). (j, if j = k then s\<lparr>bs_disassembled := True\<rparr> else s)) cache"

definition disassemble :: "insn_decoder \<Rightarrow> u64 \<times> Section \<Rightarrow> BfdDisassembler \<Rightarrow> BfdDisassembler" where
  "disassemble f ks d =
     (case ks of (k, s) \<Rightarrow>
        if bs_disassembled s then d
        else disassemble_from (f (dis_x86_64 d) (bs_data s)) (bs_startAddress s) (length (bs_data s)) 0
               (d\<lparr>dis_cache := mark_disassembled k (dis_cache d)\<rparr>))"

section \<open>Looking up an address\<close>

text \<open>
  The iterator after \<open>lower_bound\<close> points behind \<open>lo\<close>. Stepping back from the beginning of the map is
  undefined.
\<close>

definition lookupSection :: "BfdDisassembler \<Rightarrow> u64 \<Rightarrow> (u64 \<times> Section) option option" where
  "lookupSection d address =
     (let lo = takeWhile (\<lambda>(k, s). k < address) (dis_cache d);
          hi = dropWhile (\<lambda>(k, s). k < address) (dis_cache d)
      in if hi \<noteq> [] \<and> fst (hd hi) = address then Some (Some (hd hi))
         else if lo = [] then None
         else let cur = snd (last lo);
                  end' = bs_startAddress cur + of_nat (length (bs_data cur)) - 1
              in if address < bs_startAddress cur then None
                 else if address > end' then Some None
                 else Some (Some (last lo)))"

definition dis_verify :: "insn_decoder \<Rightarrow> u64 \<Rightarrow> BfdDisassembler \<Rightarrow> (bool \<times> BfdDisassembler) option" where
  "dis_verify f address d =
     map_option (\<lambda>p.
       case p of
         None \<Rightarrow> (True, d)
       | Some ks \<Rightarrow> let d1 = disassemble f ks d in (dis_instructions d1 address \<noteq> None, d1))
       (lookupSection d address)"

definition BfdVerifier :: "insn_decoder \<Rightarrow> BfdDisassembler verifier" where
  "BfdVerifier f = \<lparr>vf_setup = dis_setup, vf_addSection = dis_addSection, vf_verify = dis_verify f\<rparr>"

section \<open>Basic blocks\<close>

text \<open>\<open>m_instructions[address].makeLeader()\<close>: an address that is not there is entered.\<close>

definition makeLeader :: "u64 \<Rightarrow> BfdDisassembler \<Rightarrow> BfdDisassembler" where
  "makeLeader a d =
     (let i = (case dis_instructions d a of None \<Rightarrow> mk_Instruction 0 | Some i \<Rightarrow> i)
      in d\<lparr>dis_instructions := (dis_instructions d)(a \<mapsto> i\<lparr>in_leader := True\<rparr>)\<rparr>)"

fun mark_leaders :: "u64 list \<Rightarrow> BfdDisassembler \<Rightarrow> BfdDisassembler" where
  "mark_leaders (cur # next # as) d =
     mark_leaders (next # as)
       (case dis_instructions d cur of
          Some i \<Rightarrow> if isBranch i then makeLeader next (makeLeader (in_branchTarget i) d) else d
        | None \<Rightarrow> d)"
| "mark_leaders as d = d"

fun populate_blocks :: "u64 list \<Rightarrow> nat option \<Rightarrow> BfdDisassembler \<Rightarrow> BfdDisassembler option" where
  "populate_blocks [] bb d = Some d"
| "populate_blocks (a # as) bb d =
     Option.bind (dis_instructions d a) (\<lambda>cur.
       let new = in_leader cur;
           bbs = (if new then dis_bbs d @ [Some []] else dis_bbs d)
       in Option.bind (if new then Some (length (dis_bbs d)) else bb) (\<lambda>j.
            populate_blocks as (Some j)
              (d\<lparr>dis_bbs := bbs[j := map_option (\<lambda>b. b @ [a]) (bbs ! j)],
                 dis_instructions := (dis_instructions d)(a \<mapsto> cur\<lparr>in_bb := Some j\<rparr>)\<rparr>)))"

definition setupBasicBlocks :: "insn_decoder \<Rightarrow> BfdDisassembler \<Rightarrow> BfdDisassembler option" where
  "setupBasicBlocks f d =
     (let d1 = foldl (\<lambda>d ks. disassemble f ks d) d (dis_cache d)
      in case dis_ordered d1 of
           [] \<Rightarrow> Some d1
         | [a] \<Rightarrow> Some (makeLeader a d1)
         | a # b # as \<Rightarrow>
             let d2 = mark_leaders (a # b # as) (makeLeader a d1)
             in populate_blocks (a # b # as) None (d2\<lparr>dis_bbs := dis_bbs d2 @ [None]\<rparr>))"

definition getBasicBlock :: "insn_decoder \<Rightarrow> u64 \<Rightarrow> BfdDisassembler \<Rightarrow> (u64 list \<times> BfdDisassembler) option" where
  "getBasicBlock f address d =
     Option.bind (if dis_bbs d = [] then setupBasicBlocks f d else Some d) (\<lambda>d1.
       case dis_instructions d1 address of
         None \<Rightarrow> Some ([], d1)
       | Some i \<Rightarrow> Option.bind (in_bb i) (\<lambda>j. map_option (\<lambda>b. (b, d1)) (dis_bbs d1 ! j)))"

end
