(* ===== verification/Kcov_Disasm_Props.thy ===== *)
theory Kcov_Disasm_Props
  imports Kcov_Disasm Kcov_Elf_Props
begin

text \<open>
  The disassembler on binutils: which addresses it accepts, the lines that are reported with it, and
  its basic blocks.
\<close>

section \<open>Where instructions start\<close>

text \<open>The offsets a linear disassembly of \<open>n\<close> bytes passes, from \<open>pc\<close> on.\<close>

function insn_starts :: "(u64 \<Rightarrow> string list \<times> int) \<Rightarrow> nat \<Rightarrow> nat \<Rightarrow> nat list" where
  "insn_starts f n pc =
     (let count = snd (f (of_nat pc))
      in if count < 0 then []
         else pc # (if 0 < count \<and> pc + nat count < n then insn_starts f n (pc + nat count) else []))"
  by pat_completeness auto
termination
  by (relation "measure (\<lambda>(f, n, pc). n - pc)") auto

declare insn_starts.simps [simp del]

lemma insn_starts_bound: "x \<in> set (insn_starts f n pc) \<Longrightarrow> pc < n \<Longrightarrow> x < n"
proof (induction f n pc rule: insn_starts.induct)
  case (1 f n pc)
  from 1(2) show ?case
    by (subst (asm) insn_starts.simps) (use 1(1) [OF refl] 1(3) in \<open>auto simp: Let_def split: if_splits\<close>)
qed

abbreviation starts_at :: "(u64 \<Rightarrow> string list \<times> int) \<Rightarrow> u64 \<Rightarrow> nat \<Rightarrow> nat \<Rightarrow> u64 set" where
  "starts_at f b n pc \<equiv> (\<lambda>pc. of_nat pc + b) ` set (insn_starts f n pc)"

lemma add_instruction_fields [simp]:
  "dis_cache (add_instruction a i d) = dis_cache d" "dis_bbs (add_instruction a i d) = dis_bbs d"
  "dis_x86_64 (add_instruction a i d) = dis_x86_64 d"
  "dis_instructions (add_instruction a i d) = (dis_instructions d)(a \<mapsto> i)"
  "dis_ordered (add_instruction a i d) = insort_insert a (dis_ordered d)"
  by (simp_all add: add_instruction_def)

lemma disassemble_from_fields:
  "dis_cache (disassemble_from f b n pc d) = dis_cache d \<and> dis_bbs (disassemble_from f b n pc d) = dis_bbs d \<and>
   dis_x86_64 (disassemble_from f b n pc d) = dis_x86_64 d \<and>
   dom (dis_instructions (disassemble_from f b n pc d)) = dom (dis_instructions d) \<union> starts_at f b n pc \<and>
   set (dis_ordered (disassemble_from f b n pc d)) = set (dis_ordered d) \<union> starts_at f b n pc"
proof (induction f b n pc d rule: disassemble_from.induct)
  case (1 f b n pc d)
  obtain strs count where f: "f (of_nat pc) = (strs, count)" by (cases "f (of_nat pc)")
  note ih = 1 [OF f [symmetric] _ refl]
  show ?case
    by (subst (1 2 3 4 5) disassemble_from.simps, subst (1 2) insn_starts.simps)
      (use ih in \<open>auto simp: f Let_def set_insort_insert split: if_splits\<close>)
qed

lemma disassemble_from_ordered:
  "sorted (dis_ordered d) \<Longrightarrow> distinct (dis_ordered d) \<Longrightarrow>
     sorted (dis_ordered (disassemble_from f b n pc d)) \<and> distinct (dis_ordered (disassemble_from f b n pc d))"
proof (induction f b n pc d rule: disassemble_from.induct)
  case (1 f b n pc d)
  obtain strs count where f: "f (of_nat pc) = (strs, count)" by (cases "f (of_nat pc)")
  note ih = 1(1) [OF f [symmetric] _ refl]
  show ?case
    by (subst (1 2) disassemble_from.simps)
      (use ih 1(2,3) in \<open>auto simp: f Let_def sorted_insort_insert distinct_insort_insert split: if_splits\<close>)
qed

section \<open>Sections\<close>

definition seg_end :: "Segment \<Rightarrow> nat" where
  "seg_end s = unat (seg_vaddr s) + unat (seg_size s)"

text \<open>Executable sections as a linker places them: with contents, apart from each other.\<close>

definition segs_ok :: "Segment list \<Rightarrow> bool" where
  "segs_ok segs =
     ((\<forall>s \<in> set segs. seg_paddr s = seg_vaddr s \<and> 0 < seg_size s \<and> seg_end s < 2 ^ 64 \<and>
         map_option length (seg_data s) = Some (unat (seg_size s))) \<and>
      (\<forall>s \<in> set segs. \<forall>t \<in> set segs. s = t \<or> seg_end s \<le> unat (seg_vaddr t) \<or> seg_end t \<le> unat (seg_vaddr s)))"

definition seg_starts :: "insn_decoder \<Rightarrow> bool \<Rightarrow> Segment \<Rightarrow> u64 set" where
  "seg_starts f m s = starts_at (f m (the (seg_data s))) (seg_vaddr s) (unat (seg_size s)) 0"

text \<open>An instruction starts at the address.\<close>

definition at_instruction :: "insn_decoder \<Rightarrow> bool \<Rightarrow> Segment list \<Rightarrow> u64 \<Rightarrow> bool" where
  "at_instruction f m segs a = (\<exists>s \<in> set segs. a \<in> seg_starts f m s)"

lemma segs_okD:
  assumes "segs_ok segs" "s \<in> set segs"
  shows "seg_paddr s = seg_vaddr s" "0 < unat (seg_size s)" "seg_end s < 2 ^ 64"
    "\<exists>bs. seg_data s = Some bs \<and> length bs = unat (seg_size s)"
  using assms by (auto simp: segs_ok_def unat_gt_0 word_gt_0)

lemma segs_ok_disjoint:
  assumes "segs_ok segs" "s \<in> set segs" "t \<in> set segs"
    and "unat (seg_vaddr s) \<le> x" "x < seg_end s" "unat (seg_vaddr t) \<le> x" "x < seg_end t"
  shows "s = t"
proof -
  have "s = t \<or> seg_end s \<le> unat (seg_vaddr t) \<or> seg_end t \<le> unat (seg_vaddr s)"
    using assms(1-3) unfolding segs_ok_def by blast
  with assms(4-7) show ?thesis by linarith
qed

lemma unat_of_nat_add:
  assumes "unat b + n < 2 ^ 64"
  shows "unat (of_nat n + b :: u64) = unat b + n"
proof -
  have "unat (of_nat n :: u64) = n" using assms by (simp add: unsigned_of_nat take_bit_eq_mod)
  then show ?thesis using assms by (subst unat_word_ariths(1)) simp
qed

lemma seg_starts_range:
  assumes "segs_ok segs" "s \<in> set segs" "a \<in> seg_starts f m s"
  shows "unat (seg_vaddr s) \<le> unat a" "unat a < seg_end s"
proof -
  obtain pc where "a = of_nat pc + seg_vaddr s" "pc < unat (seg_size s)"
    using assms(3) segs_okD(2) [OF assms(1,2)] by (auto simp: seg_starts_def dest: insn_starts_bound)
  moreover from this have "unat a = unat (seg_vaddr s) + pc"
    using segs_okD(3) [OF assms(1,2)] by (simp add: seg_end_def unat_of_nat_add)
  ultimately show "unat (seg_vaddr s) \<le> unat a" "unat a < seg_end s" by (simp_all add: seg_end_def)
qed

lemma covered_range:
  assumes "segs_ok segs" "s \<in> set segs"
  shows "addressIsWithinSegment s a \<longleftrightarrow> unat (seg_vaddr s) \<le> unat a \<and> unat a < seg_end s"
proof -
  have "unat (seg_vaddr s + seg_size s) = seg_end s"
    using segs_okD(3) [OF assms] by (simp add: seg_end_def unat_word_ariths(1))
  then show ?thesis using segs_okD(1) [OF assms] by (simp add: addressIsWithinSegment_def word_le_nat_alt word_less_nat_alt)
qed

text \<open>The state while addresses are verified.\<close>

definition sec_of :: "u64 \<times> Section \<Rightarrow> Segment \<Rightarrow> bool" where
  "sec_of ks s = (fst ks = seg_vaddr s \<and> bs_startAddress (snd ks) = seg_vaddr s \<and> Some (bs_data (snd ks)) = seg_data s)"

definition dis_inv :: "insn_decoder \<Rightarrow> bool \<Rightarrow> Segment list \<Rightarrow> BfdDisassembler \<Rightarrow> bool" where
  "dis_inv f m segs d =
     (segs_ok segs \<and> dis_x86_64 d = m \<and> sorted_wrt (<) (map fst (dis_cache d)) \<and>
      (\<forall>ks \<in> set (dis_cache d). \<exists>s \<in> set segs. sec_of ks s) \<and>
      (\<forall>s \<in> set segs. \<exists>ks \<in> set (dis_cache d). sec_of ks s) \<and>
      (\<forall>a. a \<in> dom (dis_instructions d) \<longleftrightarrow>
         (\<exists>ks \<in> set (dis_cache d). \<exists>s \<in> set segs. sec_of ks s \<and> bs_disassembled (snd ks) \<and> a \<in> seg_starts f m s)))"

lemma dis_invD:
  assumes "dis_inv f m segs d"
  shows "segs_ok segs" "dis_x86_64 d = m" "sorted_wrt (<) (map fst (dis_cache d))"
    and "ks \<in> set (dis_cache d) \<Longrightarrow> \<exists>s \<in> set segs. sec_of ks s"
    and "s \<in> set segs \<Longrightarrow> \<exists>ks \<in> set (dis_cache d). sec_of ks s"
    and "(a \<in> dom (dis_instructions d)) \<longleftrightarrow> (\<exists>ks \<in> set (dis_cache d). \<exists>s \<in> set segs.
        sec_of ks s \<and> bs_disassembled (snd ks) \<and> a \<in> seg_starts f m s)"
  using assms by (simp_all add: dis_inv_def)

text \<open>Looking up an address in a section.\<close>

lemma lookup_found:
  assumes "sorted_wrt (<) (map fst (dis_cache d))" "(k, c) \<in> set (dis_cache d)" "bs_startAddress c = k"
    and "unat k \<le> unat a" "unat a < unat k + length (bs_data c)" "unat k + length (bs_data c) < 2 ^ 64"
    and "\<And>k' c'. (k', c') \<in> set (dis_cache d) \<Longrightarrow> k < k' \<Longrightarrow> a < k'"
  shows "lookupSection d a = Some (Some (k, c))"
proof -
  obtain pre post where split: "dis_cache d = pre @ (k, c) # post" using assms(2) by (auto dest: split_list)
  have pre: "\<forall>p \<in> set pre. fst p < k" and post: "\<forall>p \<in> set post. k < fst p"
    using assms(1) by (auto simp: split sorted_wrt_append)
  have ka: "k \<le> a" using assms(4) by (simp add: word_le_nat_alt)
  have post': "\<forall>p \<in> set post. a < fst p" using assms(7) [of "fst p" "snd p" for p] post by (force simp: split)
  have lo: "takeWhile (\<lambda>(k, s). k < a) (pre @ xs) = pre @ takeWhile (\<lambda>(k, s). k < a) xs"
    "dropWhile (\<lambda>(k, s). k < a) (pre @ xs) = dropWhile (\<lambda>(k, s). k < a) xs" for xs :: "(u64 \<times> Section) list"
    using pre ka by (auto intro!: takeWhile_append2 dropWhile_append2)
  have hi: "takeWhile (\<lambda>(k, s). k < a) post = []" "dropWhile (\<lambda>(k, s). k < a) post = post"
    using post' by (cases post; auto)+
  show ?thesis
  proof (cases "k = a")
    case True
    then show ?thesis by (simp add: lookupSection_def split lo Let_def)
  next
    case False
    with ka have "k < a" by simp
    have len: "0 < length (bs_data c)" "length (bs_data c) < 2 ^ 64" using assms(4-6) by linarith+
    have e: "k + of_nat (length (bs_data c)) - 1 = of_nat (length (bs_data c) - 1) + k"
      using len(1) by (cases "bs_data c") simp_all
    have "unat (k + of_nat (length (bs_data c)) - 1) = unat k + (length (bs_data c) - 1)"
      unfolding e using assms(6) by (intro unat_of_nat_add) linarith
    then have "\<not> a > k + of_nat (length (bs_data c)) - 1" using assms(5) by (simp add: word_less_nat_alt)
    with \<open>k < a\<close> hi ka show ?thesis
      using post' by (cases post) (auto simp: lookupSection_def split lo Let_def assms(3) not_less)
  qed
qed


lemma segs_ok_same_base:
  assumes "segs_ok segs" "s \<in> set segs" "t \<in> set segs" "seg_vaddr s = seg_vaddr t"
  shows "s = t"
  using segs_ok_disjoint [OF assms(1-3), of "unat (seg_vaddr s)"] assms(4) segs_okD(2) [OF assms(1,2)] segs_okD(2) [OF assms(1,3)]
  by (simp add: seg_end_def)

definition mark_sec :: "u64 \<Rightarrow> u64 \<times> Section \<Rightarrow> u64 \<times> Section" where
  "mark_sec k ks = (fst ks, if fst ks = k then (snd ks)\<lparr>bs_disassembled := True\<rparr> else snd ks)"

lemma mark_disassembled_set: "set (mark_disassembled k cache) = mark_sec k ` set cache"
  by (force simp: mark_disassembled_def mark_sec_def)

lemma mark_disassembled_keys: "map fst (mark_disassembled k cache) = map fst cache"
  by (simp add: mark_disassembled_def case_prod_beta comp_def)

lemma mark_sec_simps [simp]:
  "sec_of (mark_sec k ks) s = sec_of ks s"
  "bs_disassembled (snd (mark_sec k ks)) \<longleftrightarrow> bs_disassembled (snd ks) \<or> fst ks = k"
  by (simp_all add: mark_sec_def sec_of_def)

lemma sec_of_base: "sec_of ks s \<Longrightarrow> fst ks = seg_vaddr s"
  by (simp add: sec_of_def)

lemma starts_marked:
  assumes "ks \<in> C" "s \<in> S" "sec_of ks s" "\<And>ks' t. sec_of ks' t \<Longrightarrow> fst ks' = fst ks \<Longrightarrow> t \<in> S \<Longrightarrow> t = s"
  shows "(\<exists>ks' \<in> C. \<exists>t \<in> S. sec_of ks' t \<and> (bs_disassembled (snd ks') \<or> fst ks' = fst ks) \<and> a \<in> g t) \<longleftrightarrow>
    (\<exists>ks' \<in> C. \<exists>t \<in> S. sec_of ks' t \<and> bs_disassembled (snd ks') \<and> a \<in> g t) \<or> a \<in> g s" (is "?L \<longleftrightarrow> ?R")
proof
  assume ?L
  then obtain ks' t where t: "ks' \<in> C" "t \<in> S" "sec_of ks' t" "bs_disassembled (snd ks') \<or> fst ks' = fst ks" "a \<in> g t"
    by (elim bexE conjE)
  from t(4) show ?R
  proof
    assume "bs_disassembled (snd ks')"
    with t show ?R by (intro disjI1 bexI [of _ ks'] bexI [of _ t]) simp_all
  next
    assume "fst ks' = fst ks"
    with assms(4) [OF t(3) _ t(2)] t(5) show ?R by simp
  qed
next
  assume ?R
  then show ?L
  proof
    assume "a \<in> g s"
    with assms(1-3) show ?L by (intro bexI [of _ ks] bexI [of _ s]) simp_all
  qed (elim bexE, intro bexI, simp_all)
qed

lemma disassemble_inv:
  assumes inv: "dis_inv f m segs d" and ks: "ks \<in> set (dis_cache d)" "s \<in> set segs" "sec_of ks s"
  shows "dis_inv f m segs (disassemble f ks d)"
    and "seg_starts f m s \<subseteq> dom (dis_instructions (disassemble f ks d))"
proof -
  let ?d = "disassemble f ks d"
  note ok = dis_invD(1,2) [OF inv]
  have "dis_inv f m segs ?d \<and> seg_starts f m s \<subseteq> dom (dis_instructions ?d)"
  proof (cases "bs_disassembled (snd ks)")
    case True
    then have "?d = d" by (simp add: disassemble_def case_prod_beta)
    moreover have "seg_starts f m s \<subseteq> dom (dis_instructions d)"
      using dis_invD(6) [OF inv] ks True by blast
    ultimately show ?thesis using inv by simp
  next
    case False
    let ?m = "mark_disassembled (fst ks)"
    have data: "bs_data (snd ks) = the (seg_data s)" "length (bs_data (snd ks)) = unat (seg_size s)"
      "bs_startAddress (snd ks) = seg_vaddr s"
      using ks(3) segs_okD(4) [OF ok(1) ks(2)] by (auto simp: sec_of_def)
    then have d: "?d = disassemble_from (f m (the (seg_data s))) (seg_vaddr s) (unat (seg_size s)) 0
        (d\<lparr>dis_cache := ?m (dis_cache d)\<rparr>)"
      using False ok(2) by (simp add: disassemble_def case_prod_beta)
    have f: "dis_cache ?d = ?m (dis_cache d)" "dis_x86_64 ?d = m"
      "dom (dis_instructions ?d) = dom (dis_instructions d) \<union> seg_starts f m s"
      unfolding d seg_starts_def using ok(2) by (simp_all add: disassemble_from_fields)
    have same: "t = s" if "sec_of ks' t" "fst ks' = fst ks" "t \<in> set segs" for ks' t
      using segs_ok_same_base [OF ok(1) that(3) ks(2)] sec_of_base [OF that(1)] sec_of_base [OF ks(3)] that(2) by simp
    have "(a \<in> dom (dis_instructions ?d)) \<longleftrightarrow> (\<exists>ks' \<in> set (dis_cache ?d). \<exists>t \<in> set segs.
        sec_of ks' t \<and> bs_disassembled (snd ks') \<and> a \<in> seg_starts f m t)" (is "_ \<longleftrightarrow> ?R") for a
    proof -
      have "?R \<longleftrightarrow> (\<exists>ks' \<in> set (dis_cache d). \<exists>t \<in> set segs.
          sec_of ks' t \<and> (bs_disassembled (snd ks') \<or> fst ks' = fst ks) \<and> a \<in> seg_starts f m t)"
        by (simp add: f(1) mark_disassembled_set)
      also have "\<dots> \<longleftrightarrow> a \<in> dom (dis_instructions d) \<or> a \<in> seg_starts f m s"
        unfolding dis_invD(6) [OF inv] by (rule starts_marked [OF ks same])
      finally show ?thesis by (simp add: f(3))
    qed
    moreover have "\<forall>ks \<in> set (dis_cache ?d). \<exists>s \<in> set segs. sec_of ks s"
      using inv by (simp add: f(1) mark_disassembled_set dis_inv_def)
    moreover have "\<forall>s \<in> set segs. \<exists>ks \<in> set (dis_cache ?d). sec_of ks s"
      using inv by (simp add: f(1) mark_disassembled_set dis_inv_def)
    moreover have "sorted_wrt (<) (map fst (dis_cache ?d))"
      unfolding f(1) mark_disassembled_keys using inv by (simp add: dis_inv_def)
    ultimately show ?thesis using ok(1) f(2,3) by (simp add: dis_inv_def)
  qed
  then show "dis_inv f m segs ?d" "seg_starts f m s \<subseteq> dom (dis_instructions ?d)" by simp_all
qed

lemma lookup_covered:
  assumes inv: "dis_inv f m segs d" and s: "s \<in> set segs" "addressIsWithinSegment s a"
  shows "\<exists>ks \<in> set (dis_cache d). sec_of ks s \<and> lookupSection d a = Some (Some ks)"
proof -
  note ok = dis_invD(1) [OF inv]
  obtain k c where c: "(k, c) \<in> set (dis_cache d)" "sec_of (k, c) s"
    using dis_invD(5) [OF inv s(1)] by (metis surj_pair)
  have len: "length (bs_data c) = unat (seg_size s)" and base: "bs_startAddress c = k" "k = seg_vaddr s"
    using c(2) segs_okD(4) [OF ok s(1)] by (auto simp: sec_of_def)
  have r: "unat (seg_vaddr s) \<le> unat a" "unat a < seg_end s" using covered_range [OF ok s(1)] s(2) by simp_all
  have "a < k'" if l: "(k', c') \<in> set (dis_cache d)" "k < k'" for k' c'
  proof (rule ccontr)
    assume "\<not> a < k'"
    then have "unat k' \<le> unat a" by (simp add: word_less_nat_alt)
    moreover obtain t where t: "t \<in> set segs" "k' = seg_vaddr t"
      using dis_invD(4) [OF inv l(1)] sec_of_base by fastforce
    moreover have "k \<noteq> k'" "unat k < unat k'" using l(2) by (auto simp: word_less_nat_alt)
    ultimately have "s = t"
      using r segs_ok_disjoint [OF ok s(1) t(1), of "unat k'"] segs_okD(2) [OF ok t(1)]
      by (simp add: base seg_end_def)
    with t(2) base(2) \<open>k \<noteq> k'\<close> show False by simp
  qed
  with dis_invD(3) [OF inv] have "lookupSection d a = Some (Some (k, c))"
    using c(1) base r len segs_okD(3) [OF ok s(1)] by (intro lookup_found) (auto simp: seg_end_def)
  with c show ?thesis by blast
qed

lemma dis_verify_inv:
  assumes "dis_inv f m segs d" "covered_by segs a"
  shows "\<exists>d'. dis_verify f a d = Some (at_instruction f m segs a, d') \<and> dis_inv f m segs d'"
proof -
  note ok = dis_invD(1) [OF assms(1)]
  obtain s where s: "s \<in> set segs" "addressIsWithinSegment s a" using assms(2) by (auto simp: covered_by_def)
  obtain ks where ks: "ks \<in> set (dis_cache d)" "sec_of ks s" "lookupSection d a = Some (Some ks)"
    using lookup_covered [OF assms(1) s] by blast
  let ?d = "disassemble f ks d"
  note inv = disassemble_inv [OF assms(1) ks(1) s(1) ks(2)]
  have "unat (seg_vaddr s) \<le> unat a" "unat a < seg_end s" using covered_range [OF ok s(1)] s(2) by simp_all
  then have "a \<in> seg_starts f m s" if "a \<in> seg_starts f m t" "t \<in> set segs" for t
    using segs_ok_disjoint [OF ok s(1) that(2)] seg_starts_range [OF ok that(2,1)] that(1) by blast
  then have "a \<in> dom (dis_instructions ?d) \<longleftrightarrow> at_instruction f m segs a"
    using inv(2) s(1) dis_invD(6) [OF inv(1), of a] unfolding at_instruction_def by blast
  then show ?thesis using inv(1) by (auto simp: dis_verify_def ks(3) Let_def dom_def)
qed


interpretation bfd: address_verifier "BfdVerifier f" "dis_inv f m segs" "covered_by segs" "at_instruction f m segs" for f m segs
  by unfold_locales (auto simp: BfdVerifier_def dis_verify_inv)

section \<open>Adding the sections of a file\<close>

lemma map_fst_insort: "map fst (insort_key fst x xs) = insort (fst x) (map fst xs)"
  by (induction xs) auto

definition fresh :: "BfdDisassembler \<Rightarrow> bool" where
  "fresh d = (dis_instructions d = Map.empty \<and> (\<forall>ks \<in> set (dis_cache d). \<not> bs_disassembled (snd ks)))"

lemma segs_ok_prefix: "segs_ok (ss @ ts) \<Longrightarrow> segs_ok ss"
  by (simp add: segs_ok_def)

lemma addSection_inv:
  assumes "dis_inv f m ss d" "fresh d" "segs_ok (ss @ [s])"
  shows "\<exists>d'. dis_addSection (seg_data s) (seg_size s) (seg_vaddr s) d = Some d' \<and> dis_inv f m (ss @ [s]) d' \<and> fresh d'"
proof (cases "map_of (dis_cache d) (seg_vaddr s)")
  case None
  obtain bs where bs: "seg_data s = Some bs" "length bs = unat (seg_size s)"
    using segs_okD(4) [OF assms(3), of s] by auto
  let ?k = "(seg_vaddr s, \<lparr>bs_data = bs, bs_startAddress = seg_vaddr s, bs_disassembled = False\<rparr>)"
  let ?d = "d\<lparr>dis_cache := insort_key fst ?k (dis_cache d)\<rparr>"
  have add: "dis_addSection (seg_data s) (seg_size s) (seg_vaddr s) d = Some ?d"
    using None bs by (simp add: dis_addSection_def mk_Section_def read_at_def)
  have "seg_vaddr s \<notin> set (map fst (dis_cache d))" using None by (simp add: map_of_eq_None_iff)
  then have "sorted_wrt (<) (map fst (dis_cache ?d))"
    using dis_invD(3) [OF assms(1)] by (simp add: map_fst_insort strict_sorted_iff sorted_insort distinct_insort)
  moreover have "sec_of ?k s" by (simp add: sec_of_def bs)
  moreover have "fresh ?d" using assms(2) by (simp add: fresh_def set_insort_key)
  ultimately have "dis_inv f m (ss @ [s]) ?d"
    using assms(1,3) unfolding dis_inv_def fresh_def by (simp add: set_insort_key)
  with add \<open>fresh ?d\<close> show ?thesis by blast
next
  case (Some c)
  then have c: "(seg_vaddr s, c) \<in> set (dis_cache d)" by (rule map_of_SomeD)
  obtain t where t: "t \<in> set ss" "sec_of (seg_vaddr s, c) t" using dis_invD(4) [OF assms(1) c] by blast
  then have "t = s" using segs_ok_same_base [OF assms(3), of t s] by (simp add: sec_of_def)
  with t have "dis_inv f m (ss @ [s]) d"
    using assms(1,3) unfolding dis_inv_def by (simp add: insert_absorb)
  with assms(2) show ?thesis using Some by (simp add: dis_addSection_def)
qed

lemma add_sections_inv:
  assumes "dis_inv f m ss d" "fresh d" "segs_ok (ss @ ts)"
  shows "\<exists>d'. add_sections (BfdVerifier f) ts d = Some d' \<and> dis_inv f m (ss @ ts) d' \<and> fresh d'"
  using assms
proof (induction ts arbitrary: ss d)
  case (Cons t ts)
  obtain d1 where d1: "dis_addSection (seg_data t) (seg_size t) (seg_vaddr t) d = Some d1"
    "dis_inv f m (ss @ [t]) d1" "fresh d1"
    using addSection_inv [OF Cons.prems(1,2)] Cons.prems(3) segs_ok_prefix [of "ss @ [t]" ts] by auto
  with Cons.IH [of "ss @ [t]" d1] Cons.prems(3) show ?case by (simp add: BfdVerifier_def)
qed simp

lemma setup_inv:
  assumes "4 < length header"
  shows "\<exists>d'. dis_setup header d = Some d' \<and> dis_inv f (header ! 4 = 2) [] d' \<and> fresh d'"
  using assms by (simp add: dis_setup_def dis_inv_def fresh_def segs_ok_def)

lemma at_instruction_covered: "segs_ok segs \<Longrightarrow> at_instruction f m segs a \<Longrightarrow> covered_by segs a"
  unfolding at_instruction_def covered_by_def by (meson covered_range seg_starts_range)

text \<open>
  Property C14. With the disassembler and address verification on, parsing an executable that can be opened, whose
  executable sections do not overlap and all of whose units of debug information can be read, reports exactly the statements of its debug information that
  are at the start of an instruction of the linear disassembly of their section, however the
  statements are ordered; and it does so without undefined behaviour.
\<close>

theorem elf_verified_lines:
  assumes "ee_exists e (ep_filename p)" "ee_read_file e (ep_filename p) = Some fd" "4 < length fd"
    and "ElfImpl_parse (ee_little_endian e) (ee_elf_memory e fd) fd = Some i"
    and "ee_verifier e = BfdVerifier f" "segs_ok (ei_segments i)"
    and "ep_verifyAddresses p" "ep_curSegments p = []" "ep_executableSegments p = []"
    and "ee_dwarf e (ep_filename p) = Some d"
    and "unit_dies (dw_offdie d) 0 (dw_nextcu d) = map Some dies" "\<forall>die \<in> set dies. unit_ok die"
  shows "\<exists>p'. doParse e p relocation = Some (True, p',
    line_reports e p (at_instruction f (fd ! 4 = 2) (ei_segments i)) (\<lambda>a. a + relocation) (concat (map unit_lines dies)))"
proof -
  let ?segs = "ei_segments i" and ?m = "fd ! 4 = 2"
  obtain v0 where v0: "dis_setup fd (ep_addressVerifier p) = Some v0" "dis_inv f ?m [] v0" "fresh v0"
    using setup_inv [OF assms(3)] by blast
  obtain v where v: "add_sections (BfdVerifier f) ?segs v0 = Some v" "dis_inv f ?m ?segs v"
    using add_sections_inv [OF v0(2,3), of ?segs] assms(6) by auto
  have "vf_setup (ee_verifier e) fd (ep_addressVerifier p) = Some v0" using v0(1) by (simp add: assms(5) BfdVerifier_def)
  then obtain q where q: "parseOneElf e p = Some q" "ep_executableSegments q = ?segs" "ep_curSegments q = ?segs"
    "ep_verifyAddresses q" "ep_filter q = ep_filter p" "ep_lineListeners q = ep_lineListeners p"
    "ep_filename q = ep_filename p" "ep_addressVerifier q = v0"
    using parseOneElf_fields [OF assms(2,4)] assms(7-9) by auto
  let ?q = "q\<lparr>ep_addressVerifier := v, ep_invalidBreakpoints := 0, ep_relocation := relocation\<rparr>"
  have unmoved: "adjustAddressBySegment ?segs a = a" for a using adjust_unmoved ElfImpl_parse_unmoved [OF assms(4)] .
  have "(\<lambda>a. covered_by ?segs a \<and> at_instruction f ?m ?segs a) = at_instruction f ?m ?segs"
    using at_instruction_covered [OF assms(6)] by auto
  moreover have "line_reports e ?q = line_reports e p" by (simp add: line_reports_def fun_eq_iff q)
  ultimately obtain q' where "elf_onLines e ?q (concat (map unit_lines dies)) = Some (q',
      line_reports e p (at_instruction f ?m ?segs) (\<lambda>a. a + relocation) (concat (map unit_lines dies)))"
    using bfd.onLines_verified [of e f ?q ?m ?segs] assms(5) q v(2) by (auto simp: unmoved)
  then show ?thesis
    using parse_lines [OF assms(1) q(1) _ _ forEachLine_units [OF assms(11,12)]] q v(1) assms(5,10) by auto
qed


definition demo_decoder :: insn_decoder where
  "demo_decoder m bs pc = ([''nop''], 4)"

definition demo_bfd_env :: "BfdDisassembler elf_env" where
  "demo_bfd_env =
     (let e = demo_elf_env in
      \<lparr>ee_little_endian = ee_little_endian e, ee_machine_is_64bit = True, ee_elf_version = True, ee_verify = True,
       ee_parse_solibs = True, ee_open = \<lambda>_. True, ee_elf_begin = ee_elf_begin e, ee_exists = \<lambda>_. True,
       ee_read_file = ee_read_file e, ee_elf_memory = ee_elf_memory e, ee_dwarf = \<lambda>_. Some demo_dwarf, ee_rp = id,
       ee_regex_replace = \<lambda>s _ _. s, ee_verifier = BfdVerifier demo_decoder\<rparr>)"

definition demo_bfd_elf :: "BfdDisassembler ElfInstance" where
  "demo_bfd_elf = (elf_registerLineListener (mk_ElfInstance mk_BfdDisassembler (ep_filter demo_elf)) 7)
     \<lparr>ep_filename := ''/bin/a'', ep_verifyAddresses := True\<rparr>"

lemma demo_starts: "insn_starts (demo_decoder m bs) 8 0 = [0, 4]"
  by (simp add: insn_starts.simps demo_decoder_def Let_def)

lemma demo_at_instruction: "at_instruction demo_decoder m (ei_segments demo_im) a \<longleftrightarrow> a = 0x1000 \<or> a = 0x1004"
  by (auto simp: at_instruction_def seg_starts_def demo_im_def demo_starts)

lemma demo_bfd_reports:
  "line_reports demo_bfd_env demo_bfd_elf (at_instruction demo_decoder m (ei_segments demo_im)) f
     (concat (map unit_lines [demo_die])) = [ELine 7 ''/src/a.c'' 3 (f 0x1004)]"
  by (simp add: demo_unit line_reports_def demo_at_instruction mangleSourcePath_def demo_bfd_elf_def demo_bfd_env_def
      Let_def demo_elf_def mk_ElfInstance_def mk_BasicFilter_def elf_registerLineListener_def)

theorem elf_verified_lines_witness:
  "\<exists>p'. doParse demo_bfd_env demo_bfd_elf 0x550000 = Some (True, p', [ELine 7 ''/src/a.c'' 3 0x551004])"
proof -
  let ?fd = "ELFMAG @ replicate 8 0x90 :: byte list"
  have im: "ElfImpl_parse (ee_little_endian demo_bfd_env) (ee_elf_memory demo_bfd_env ?fd) ?fd = Some demo_im"
    using demo_impl by (simp add: demo_bfd_env_def Let_def)
  have ok: "segs_ok (ei_segments demo_im)" by (simp add: segs_ok_def demo_im_def seg_end_def)
  have "\<exists>p'. doParse demo_bfd_env demo_bfd_elf 0x550000 = Some (True, p',
      line_reports demo_bfd_env demo_bfd_elf (at_instruction demo_decoder (?fd ! 4 = 2) (ei_segments demo_im))
        (\<lambda>a. a + 0x550000) (concat (map unit_lines [demo_die])))"
    by (rule elf_verified_lines [where d = demo_dwarf and f = demo_decoder, OF _ _ _ im _ ok])
      (simp_all add: demo_bfd_env_def demo_bfd_elf_def Let_def demo_elf_defs demo_unit ELFMAG_def)
  then show ?thesis unfolding demo_bfd_reports by simp
qed

end
