(* ===== verification/Kcov_Disasm_Blocks.thy ===== *)
theory Kcov_Disasm_Blocks
  imports Kcov_Disasm_Props
begin

text \<open>
  Basic blocks: \<open>getBasicBlock\<close> against the usual definition, by leaders in the sequence of all
  instructions.
\<close>

section \<open>The blocks of a program\<close>

text \<open>A leader is the first instruction, the target of a branch, or what comes after a branch.\<close>

definition branch_marks :: "(u64 \<rightharpoonup> Instruction) \<Rightarrow> u64 list \<Rightarrow> u64 \<Rightarrow> bool" where
  "branch_marks ins as x =
     (\<exists>(c, n) \<in> set (zip as (tl as)). \<exists>i. ins c = Some i \<and> isBranch i \<and> (x = n \<or> x = in_branchTarget i))"

definition is_leader :: "(u64 \<rightharpoonup> Instruction) \<Rightarrow> u64 list \<Rightarrow> u64 \<Rightarrow> bool" where
  "is_leader ins as x = (x = hd as \<or> branch_marks ins as x)"

text \<open>A block goes from a leader to the instruction before the next one.\<close>

function blocks :: "(u64 \<Rightarrow> bool) \<Rightarrow> u64 list \<Rightarrow> u64 list list" where
  "blocks L [] = []"
| "blocks L (a # as) = (a # takeWhile (\<lambda>x. \<not> L x) as) # blocks L (dropWhile (\<lambda>x. \<not> L x) as)"
  by pat_completeness auto
termination
  by (relation "measure (\<lambda>(L, as). length as)") (auto simp: le_imp_less_Suc length_dropWhile_le)

lemma concat_blocks: "concat (blocks L as) = as"
  by (induction L as rule: blocks.induct) simp_all

lemma blocks_cong: "(\<And>x. x \<in> set as \<Longrightarrow> L x = M x) \<Longrightarrow> blocks L as = blocks M as"
proof (induction L as rule: blocks.induct)
  case (2 L a as)
  have "takeWhile (\<lambda>x. \<not> L x) as = takeWhile (\<lambda>x. \<not> M x) as" "dropWhile (\<lambda>x. \<not> L x) as = dropWhile (\<lambda>x. \<not> M x) as"
    using 2(2) by (auto intro: takeWhile_cong dropWhile_cong)
  with 2 show ?case by (auto dest: set_dropWhileD)
qed simp

section \<open>Instructions before the blocks are made\<close>

definition insns_plain :: "BfdDisassembler \<Rightarrow> bool" where
  "insns_plain d =
     (distinct (dis_ordered d) \<and> sorted (dis_ordered d) \<and> dis_bbs d = [] \<and>
      (\<forall>a \<in> set (dis_ordered d). \<exists>i. dis_instructions d a = Some i \<and> \<not> in_leader i \<and> in_bb i = None))"

lemma instructionFactory_plain [simp]:
  "\<not> in_leader (instructionFactory pc vec)" "in_bb (instructionFactory pc vec) = None"
  by (auto simp: instructionFactory_def mk_Instruction_def split: list.splits sum.splits)

lemma add_instruction_plain:
  "insns_plain d \<Longrightarrow> \<not> in_leader i \<Longrightarrow> in_bb i = None \<Longrightarrow> insns_plain (add_instruction a i d)"
  by (auto simp: insns_plain_def set_insort_insert sorted_insort_insert distinct_insort_insert)

lemma disassemble_from_plain: "insns_plain d \<Longrightarrow> insns_plain (disassemble_from f b n pc d)"
proof (induction f b n pc d rule: disassemble_from.induct)
  case (1 f b n pc d)
  obtain strs count where f: "f (of_nat pc) = (strs, count)" by (cases "f (of_nat pc)")
  note ih = 1(1) [OF f [symmetric] _ refl] add_instruction_plain [OF 1(2) instructionFactory_plain]
  show ?case
    by (subst disassemble_from.simps) (use ih 1(2) in \<open>simp add: f Let_def\<close>)
qed

lemma disassemble_plain: "insns_plain d \<Longrightarrow> insns_plain (disassemble f ks d)"
  by (auto simp: disassemble_def insns_plain_def [of "d\<lparr>dis_cache := c\<rparr>" for c] insns_plain_def [of d]
      intro!: disassemble_from_plain split: prod.splits)

lemma plain_init: "insns_plain mk_BfdDisassembler"
  by (simp add: insns_plain_def mk_BfdDisassembler_def)

lemma setup_plain: "dis_setup header d = Some d' \<Longrightarrow> insns_plain d'"
  by (auto simp: dis_setup_def insns_plain_def split: if_splits)

lemma addSection_plain: "insns_plain d \<Longrightarrow> dis_addSection data sz b d = Some d' \<Longrightarrow> insns_plain d'"
  by (auto simp: dis_addSection_def insns_plain_def split: if_splits)

lemma verify_plain: "insns_plain d \<Longrightarrow> dis_verify f a d = Some (r, d') \<Longrightarrow> insns_plain d'"
  by (auto simp: dis_verify_def Let_def disassemble_plain split: option.splits)

definition disassemble_all :: "insn_decoder \<Rightarrow> BfdDisassembler \<Rightarrow> BfdDisassembler" where
  "disassemble_all f d = foldl (\<lambda>d ks. disassemble f ks d) d (dis_cache d)"

lemma disassemble_all_plain: "insns_plain d \<Longrightarrow> insns_plain (disassemble_all f d)"
proof -
  have "insns_plain d \<Longrightarrow> insns_plain (foldl (\<lambda>d ks. disassemble f ks d) d kss)" for kss
    by (induction kss arbitrary: d) (auto intro: disassemble_plain)
  then show "insns_plain d \<Longrightarrow> ?thesis" by (simp add: disassemble_all_def)
qed

section \<open>Leaders\<close>

lemma makeLeader_fields [simp]:
  "dis_ordered (makeLeader a d) = dis_ordered d" "dis_bbs (makeLeader a d) = dis_bbs d"
  by (simp_all add: makeLeader_def Let_def)

text \<open>An instruction that was there is kept, up to its mark as a leader.\<close>

definition keeps :: "(u64 \<rightharpoonup> Instruction) \<Rightarrow> (u64 \<rightharpoonup> Instruction) \<Rightarrow> (u64 \<Rightarrow> bool) \<Rightarrow> bool" where
  "keeps I J P = (\<forall>x i. I x = Some i \<longrightarrow> J x = Some (i\<lparr>in_leader := in_leader i \<or> P x\<rparr>))"

lemma keeps_makeLeader: "keeps (dis_instructions d) (dis_instructions (makeLeader a d)) (\<lambda>x. x = a)"
  by (auto simp: keeps_def makeLeader_def Let_def)

lemma keeps_refl: "keeps I I (\<lambda>_. False)"
  by (simp add: keeps_def)

lemma keeps_trans: "keeps I J P \<Longrightarrow> keeps J K Q \<Longrightarrow> keeps I K (\<lambda>x. P x \<or> Q x)"
  by (fastforce simp: keeps_def)

lemma keeps_cong: "keeps I J P \<Longrightarrow> (\<And>x. P x = Q x) \<Longrightarrow> keeps I J Q"
  by (simp add: keeps_def)

lemma branch_marks_Cons:
  "branch_marks I (c # n # as) x \<longleftrightarrow>
     (\<exists>i. I c = Some i \<and> isBranch i \<and> (x = n \<or> x = in_branchTarget i)) \<or> branch_marks I (n # as) x"
  by (auto simp: branch_marks_def)

lemma branch_marks_keeps:
  assumes "keeps I J P" "\<forall>a \<in> set as. I a \<noteq> None"
  shows "branch_marks J as x = branch_marks I as x"
proof -
  have marks: "(\<exists>j. J c = Some j \<and> isBranch j \<and> (x = n \<or> x = in_branchTarget j)) \<longleftrightarrow>
      (\<exists>i. I c = Some i \<and> isBranch i \<and> (x = n \<or> x = in_branchTarget i))" if "(c, n) \<in> set (zip as (tl as))" for c n
    using assms set_zip_leftD [OF that] by (fastforce simp: keeps_def isBranch_def)
  show ?thesis
    unfolding branch_marks_def by (intro bex_cong refl) (clarsimp simp only: split_paired_all prod.case marks)
qed

lemma mark_leaders_keeps:
  "\<forall>a \<in> set as. dis_instructions d a \<noteq> None \<Longrightarrow>
     keeps (dis_instructions d) (dis_instructions (mark_leaders as d)) (branch_marks (dis_instructions d) as) \<and>
     dis_ordered (mark_leaders as d) = dis_ordered d \<and> dis_bbs (mark_leaders as d) = dis_bbs d"
proof (induction as d rule: mark_leaders.induct)
  case (1 c n as d)
  obtain i where i: "dis_instructions d c = Some i" using 1(2) by auto
  let ?d = "if isBranch i then makeLeader n (makeLeader (in_branchTarget i) d) else d"
  have k: "keeps (dis_instructions d) (dis_instructions ?d) (\<lambda>x. isBranch i \<and> (x = n \<or> x = in_branchTarget i))"
    using keeps_refl [of "dis_instructions d"]
      keeps_cong [OF keeps_trans [OF keeps_makeLeader keeps_makeLeader], of "in_branchTarget i" n "\<lambda>x. x = n \<or> x = in_branchTarget i" d]
    by auto
  have in': "\<forall>a \<in> set (n # as). dis_instructions ?d a \<noteq> None"
    using 1(2) k unfolding keeps_def by fastforce
  have "mark_leaders (c # n # as) d = mark_leaders (n # as) ?d" by (simp add: i)
  moreover have "dis_ordered ?d = dis_ordered d" "dis_bbs ?d = dis_bbs d" by simp_all
  ultimately show ?case
    using keeps_trans [OF k, of "dis_instructions (mark_leaders (n # as) ?d)"] 1(1) in' branch_marks_keeps [OF k, of "n # as"] 1(2)
    by (auto simp: i branch_marks_Cons intro: keeps_cong)
qed (auto simp: branch_marks_def keeps_def)


section \<open>Filling the blocks\<close>

text \<open>The instruction at \<open>x\<close> belongs to a block that has it.\<close>

definition in_block :: "BfdDisassembler \<Rightarrow> u64 \<Rightarrow> bool" where
  "in_block d x = (\<exists>i j b. dis_instructions d x = Some i \<and> in_bb i = Some j \<and> j < length (dis_bbs d) \<and>
     dis_bbs d ! j = Some b \<and> x \<in> set b)"

lemma populate_open_block:
  assumes "distinct as" "\<forall>a \<in> set as. dis_instructions d a \<noteq> None" "dis_bbs d = B @ [Some b]" "L = (\<lambda>x. in_leader (the (dis_instructions d x)))"
  shows "\<exists>d'. populate_blocks as (Some (length B)) d = Some d' \<and>
    dis_bbs d' = B @ map Some ((b @ takeWhile (\<lambda>x. \<not> L x) as) # blocks L (dropWhile (\<lambda>x. \<not> L x) as)) \<and>
    (\<forall>x. x \<notin> set as \<longrightarrow> dis_instructions d' x = dis_instructions d x) \<and> (\<forall>x \<in> set as. in_block d' x)"
  using assms
proof (induction as arbitrary: d B b L)
  case (Cons a as)
  obtain i where i: "dis_instructions d a = Some i" using Cons.prems(2) by auto
  let ?ins = "\<lambda>j. (dis_instructions d)(a \<mapsto> i\<lparr>in_bb := Some j\<rparr>)"
  have ins: "\<forall>x \<in> set as. ?ins j x \<noteq> None" "L = (\<lambda>x. in_leader (the (?ins j x)))" for j
    using Cons.prems(2,4) i by auto
  have a: "a \<notin> set as" "distinct as" using Cons.prems(1) by auto
  show ?case
  proof (cases "in_leader i")
    case True
    let ?d = "d\<lparr>dis_bbs := (B @ [Some b]) @ [Some [a]], dis_instructions := ?ins (length (B @ [Some b]))\<rparr>"
    have step: "populate_blocks (a # as) (Some (length B)) d = populate_blocks as (Some (length (B @ [Some b]))) ?d"
      using True Cons.prems(3) by (simp add: i Let_def nth_append list_update_append)
    have pre: "\<forall>x \<in> set as. dis_instructions ?d x \<noteq> None" "dis_bbs ?d = (B @ [Some b]) @ [Some [a]]"
      "L = (\<lambda>x. in_leader (the (dis_instructions ?d x)))"
      using ins [of "length (B @ [Some b])"] by simp_all
    from Cons.IH [OF a(2) this] obtain d' where d': "populate_blocks as (Some (length (B @ [Some b]))) ?d = Some d'"
      "dis_bbs d' = (B @ [Some b]) @ map Some (([a] @ takeWhile (\<lambda>x. \<not> L x) as) # blocks L (dropWhile (\<lambda>x. \<not> L x) as))"
      "\<forall>x. x \<notin> set as \<longrightarrow> dis_instructions d' x = dis_instructions ?d x" "\<forall>x \<in> set as. in_block d' x"
      by blast
    moreover have "in_block d' a" using d'(2,3) a(1) by (simp add: in_block_def nth_append)
    moreover have "L a" using True Cons.prems(4) i by simp
    ultimately show ?thesis using step by (auto simp: i)
  next
    case False
    let ?d = "d\<lparr>dis_bbs := B @ [Some (b @ [a])], dis_instructions := ?ins (length B)\<rparr>"
    have step: "populate_blocks (a # as) (Some (length B)) d = populate_blocks as (Some (length B)) ?d"
      using False Cons.prems(3) by (simp add: i Let_def nth_append list_update_append)
    have pre: "\<forall>x \<in> set as. dis_instructions ?d x \<noteq> None" "dis_bbs ?d = B @ [Some (b @ [a])]"
      "L = (\<lambda>x. in_leader (the (dis_instructions ?d x)))"
      using ins [of "length B"] by simp_all
    from Cons.IH [OF a(2) this] obtain d' where d': "populate_blocks as (Some (length B)) ?d = Some d'"
      "dis_bbs d' = B @ map Some (((b @ [a]) @ takeWhile (\<lambda>x. \<not> L x) as) # blocks L (dropWhile (\<lambda>x. \<not> L x) as))"
      "\<forall>x. x \<notin> set as \<longrightarrow> dis_instructions d' x = dis_instructions ?d x" "\<forall>x \<in> set as. in_block d' x"
      by blast
    moreover have "in_block d' a" using d'(2,3) a(1) by (simp add: in_block_def nth_append)
    moreover have "\<not> L a" using False Cons.prems(4) i by simp
    ultimately show ?thesis using step by (auto simp: i)
  qed
qed simp

lemma populate_all:
  assumes "distinct (a # as)" "\<forall>a \<in> set (a # as). dis_instructions d a \<noteq> None" "dis_bbs d = [None]"
    and "L = (\<lambda>x. in_leader (the (dis_instructions d x)))" "L a"
  shows "\<exists>d'. populate_blocks (a # as) None d = Some d' \<and> dis_bbs d' = None # map Some (blocks L (a # as)) \<and>
    (\<forall>x \<in> set (a # as). in_block d' x)"
proof -
  obtain i where i: "dis_instructions d a = Some i" using assms(2) by auto
  let ?d = "d\<lparr>dis_bbs := [None] @ [Some [a]], dis_instructions := (dis_instructions d)(a \<mapsto> i\<lparr>in_bb := Some 1\<rparr>)\<rparr>"
  have step: "populate_blocks (a # as) None d = populate_blocks as (Some (length [None :: u64 list option])) ?d"
    using assms(3-5) by (simp add: i Let_def)
  have "distinct as" "\<forall>x \<in> set as. dis_instructions ?d x \<noteq> None" "dis_bbs ?d = [None] @ [Some [a]]"
    "L = (\<lambda>x. in_leader (the (dis_instructions ?d x)))"
    using assms i by auto
  from populate_open_block [OF this] obtain d' where d': "populate_blocks as (Some (length [None :: u64 list option])) ?d = Some d'"
    "dis_bbs d' = [None] @ map Some (([a] @ takeWhile (\<lambda>x. \<not> L x) as) # blocks L (dropWhile (\<lambda>x. \<not> L x) as))"
    "\<forall>x. x \<notin> set as \<longrightarrow> dis_instructions d' x = dis_instructions ?d x" "\<forall>x \<in> set as. in_block d' x" by blast
  have "in_block d' a" using d'(2,3) assms(1) by (simp add: in_block_def)
  then show ?thesis using d' step by auto
qed

lemma setupBasicBlocks_blocks:
  assumes "insns_plain d" "2 \<le> length (dis_ordered (disassemble_all f d))"
  shows "\<exists>d'. setupBasicBlocks f d = Some d' \<and> (\<forall>x \<in> set (dis_ordered (disassemble_all f d)). in_block d' x) \<and>
    dis_bbs d' = None # map Some (blocks (is_leader (dis_instructions (disassemble_all f d)) (dis_ordered (disassemble_all f d)))
       (dis_ordered (disassemble_all f d)))"
proof -
  let ?d = "disassemble_all f d"
  let ?I = "dis_instructions ?d"
  obtain a b as where O: "dis_ordered ?d = a # b # as" using assms(2) by (cases "dis_ordered ?d" rule: remdups_adj.cases) auto
  let ?O = "a # b # as"
  have p: "insns_plain ?d" using disassemble_all_plain [OF assms(1)] .
  then have ins: "\<forall>x \<in> set ?O. \<exists>i. ?I x = Some i \<and> \<not> in_leader i \<and> in_bb i = None" and dist: "distinct ?O"
    by (simp_all add: insns_plain_def O)
  let ?d2 = "mark_leaders ?O (makeLeader a ?d)"
  have k1: "keeps ?I (dis_instructions (makeLeader a ?d)) (\<lambda>x. x = a)" by (rule keeps_makeLeader)
  then have some: "\<forall>x \<in> set ?O. dis_instructions (makeLeader a ?d) x \<noteq> None"
    using ins unfolding keeps_def by fastforce
  from mark_leaders_keeps [OF this] have k2: "keeps (dis_instructions (makeLeader a ?d)) (dis_instructions ?d2)
      (branch_marks (dis_instructions (makeLeader a ?d)) ?O)" and bbs: "dis_bbs ?d2 = []"
    using p by (simp_all add: insns_plain_def)
  have "branch_marks (dis_instructions (makeLeader a ?d)) ?O x = branch_marks ?I ?O x" for x
    using branch_marks_keeps [OF k1, of ?O] ins by fastforce
  then have k: "keeps ?I (dis_instructions ?d2) (is_leader ?I ?O)"
    using keeps_trans [OF k1 k2] by (auto simp: is_leader_def intro: keeps_cong)
  let ?d3 = "?d2\<lparr>dis_bbs := dis_bbs ?d2 @ [None]\<rparr>"
  have L: "in_leader (the (dis_instructions ?d3 x)) = is_leader ?I ?O x" if "x \<in> set ?O" for x
    using ins k that unfolding keeps_def by fastforce
  have "\<forall>x \<in> set ?O. dis_instructions ?d3 x \<noteq> None" using ins k unfolding keeps_def by fastforce
  moreover have "is_leader ?I ?O a" by (simp add: is_leader_def)
  ultimately obtain d' where "populate_blocks ?O None ?d3 = Some d'"
    "dis_bbs d' = None # map Some (blocks (\<lambda>x. in_leader (the (dis_instructions ?d3 x))) ?O)" "\<forall>x \<in> set ?O. in_block d' x"
    using populate_all [OF dist, of ?d3] bbs L [of a] by auto
  moreover have "setupBasicBlocks f d = populate_blocks ?O None ?d3"
    using O by (simp add: setupBasicBlocks_def disassemble_all_def [symmetric] Let_def del: populate_blocks.simps mark_leaders.simps)
  moreover have "blocks (\<lambda>x. in_leader (the (dis_instructions ?d3 x))) ?O = blocks (is_leader ?I ?O) ?O"
    using L by (rule blocks_cong)
  ultimately show ?thesis by (simp only: O) blast
qed

text \<open>
  The basic block of an instruction is the block it is in when the sequence of all
  instructions is cut before every leader, that is before what the code computes as targets of branches and after
  branches. Stated for a program of at least two instructions whose blocks are asked for the
  first time.
\<close>

lemma basic_blocks:
  assumes "insns_plain d" "2 \<le> length (dis_ordered (disassemble_all f d))" "a \<in> set (dis_ordered (disassemble_all f d))"
  shows "\<exists>d'. \<exists>b \<in> set (blocks (is_leader (dis_instructions (disassemble_all f d)) (dis_ordered (disassemble_all f d)))
      (dis_ordered (disassemble_all f d))). getBasicBlock f a d = Some (b, d') \<and> a \<in> set b"
proof -
  let ?O = "dis_ordered (disassemble_all f d)"
  let ?B = "blocks (is_leader (dis_instructions (disassemble_all f d)) ?O) ?O"
  obtain d' where d': "setupBasicBlocks f d = Some d'" "in_block d' a" "dis_bbs d' = None # map Some ?B"
    using setupBasicBlocks_blocks [OF assms(1,2)] assms(3) by blast
  then obtain i j b where b: "dis_instructions d' a = Some i" "in_bb i = Some j" "j < length (dis_bbs d')"
    "dis_bbs d' ! j = Some b" "a \<in> set b" by (auto simp: in_block_def)
  then have "Some b \<in> set (dis_bbs d')" by (metis nth_mem)
  then have "b \<in> set ?B" by (auto simp: d'(3))
  moreover have "getBasicBlock f a d = Some (b, d')"
    using assms(1) d'(1) b by (simp add: getBasicBlock_def insns_plain_def)
  ultimately show ?thesis using b(5) by blast
qed


text \<open>A program for the examples: a branch of two bytes, which goes to offset 5, and a \<open>nop\<close>.\<close>

definition branch_decoder :: insn_decoder where
  "branch_decoder m bs pc = (if pc = 0 then ([''jmp'', ''0x5''], 2) else ([''nop''], 2))"

definition demo_section :: "nat \<Rightarrow> Section" where
  "demo_section n = \<lparr>bs_data = replicate n 0x90, bs_startAddress = 0x1000, bs_disassembled = False\<rparr>"

definition demo_dis :: "nat \<Rightarrow> BfdDisassembler" where
  "demo_dis n = mk_BfdDisassembler\<lparr>dis_cache := [(0x1000, demo_section n)]\<rparr>"

lemma demo_dis_plain: "insns_plain (demo_dis n)"
  by (simp add: demo_dis_def insns_plain_def mk_BfdDisassembler_def)

lemma demo_factory:
  "instructionFactory 0 (map opcodesFprintFunc [''jmp'', ''0x5'']) = mk_Instruction 5"
  "instructionFactory pc (map opcodesFprintFunc [''nop'']) = mk_Instruction BT_INVALID"
proof -
  have t: "opcodesFprintFunc ''jmp'' = ''jmp''" "opcodesFprintFunc ''0x5'' = ''0x5''" "opcodesFprintFunc ''nop'' = ''nop''"
    by (simp_all add: opcodesFprintFunc_def trim_string_def trim_string_chars_eq trimEndChars_default_def)
  have "stoull ''0x5'' 0 = Inr (5, 3)"
    by (simp add: stoull_def hex_prefix_def is_digit_in_def digit_val_def digits_value_def isspace_def)
  then have "string_is_integer ''0x5'' 0" "string_to_integer ''0x5'' 0 = Inr 5"
    by (simp_all add: string_is_integer_def string_to_integer_def)
  then show "instructionFactory 0 (map opcodesFprintFunc [''jmp'', ''0x5'']) = mk_Instruction 5"
    "instructionFactory pc (map opcodesFprintFunc [''nop'']) = mk_Instruction BT_INVALID"
    by (simp_all add: t instructionFactory_def x86BranchInstructions_def)
qed

lemma demo_dis_all:
  "disassemble_all branch_decoder (demo_dis 4) = mk_BfdDisassembler\<lparr>dis_cache := [(0x1000, demo_section 4\<lparr>bs_disassembled := True\<rparr>)],
     dis_instructions := [0x1000 \<mapsto> mk_Instruction 5, 0x1002 \<mapsto> mk_Instruction BT_INVALID], dis_ordered := [0x1000, 0x1002]\<rparr>"
  by (simp add: disassemble_all_def demo_dis_def demo_section_def disassemble_def mk_BfdDisassembler_def mark_disassembled_def
      disassemble_from.simps branch_decoder_def add_instruction_def demo_factory insort_insert_key_def del: list.map) simp


lemma demo_blocks:
  "blocks (is_leader (dis_instructions (disassemble_all branch_decoder (demo_dis 4))) [0x1000, 0x1002]) [0x1000, 0x1002] =
     [[0x1000], [0x1002]]"
  by (simp add: demo_dis_all is_leader_def branch_marks_def isBranch_def mk_Instruction_def BT_INVALID_def)

lemma basic_blocks_witness: "\<exists>d'. getBasicBlock branch_decoder 0x1002 (demo_dis 4) = Some ([0x1002], d')"
proof -
  have O: "dis_ordered (disassemble_all branch_decoder (demo_dis 4)) = [0x1000, 0x1002]" by (simp add: demo_dis_all)
  have "\<exists>d'. \<exists>b \<in> set [[0x1000], [0x1002]]. getBasicBlock branch_decoder 0x1002 (demo_dis 4) = Some (b, d') \<and>
      (0x1002 :: u64) \<in> set b"
    using basic_blocks [OF demo_dis_plain [of 4], of branch_decoder "0x1002", unfolded O demo_blocks] by simp
  then show ?thesis by auto
qed

section \<open>Where no block is found\<close>

text \<open>
  A program of one instruction is left without blocks; the target of a branch where no instruction
  starts is entered among the instructions, accepted as a place for a breakpoint from then on,
  and has no block either. Both end in a null pointer.
\<close>

lemma one_instruction_block:
  assumes "insns_plain d" "dis_ordered (disassemble_all f d) = [a]"
  shows "getBasicBlock f a d = None"
proof -
  have "insns_plain (disassemble_all f d)" using disassemble_all_plain [OF assms(1)] .
  then obtain i where "dis_instructions (disassemble_all f d) a = Some i" "in_bb i = None"
    using assms(2) by (auto simp: insns_plain_def)
  moreover have "setupBasicBlocks f d = Some (makeLeader a (disassemble_all f d))"
    using assms(2) by (simp add: setupBasicBlocks_def disassemble_all_def [symmetric])
  ultimately show ?thesis using assms(1) by (simp add: getBasicBlock_def insns_plain_def makeLeader_def)
qed

lemma branch_target_block: "getBasicBlock branch_decoder 5 (demo_dis 4) = None"
proof -
  have "dis_ordered (disassemble_all branch_decoder (demo_dis 4)) = [0x1000, 0x1002]" by (simp add: demo_dis_all)
  then have "\<exists>d'. setupBasicBlocks branch_decoder (demo_dis 4) = Some d' \<and>
      dis_instructions d' 5 = Some ((mk_Instruction 0)\<lparr>in_leader := True\<rparr>)"
    by (simp add: setupBasicBlocks_def disassemble_all_def [symmetric])
      (simp add: demo_dis_all makeLeader_def isBranch_def mk_Instruction_def BT_INVALID_def mk_BfdDisassembler_def)
  then show ?thesis using demo_dis_plain [of 4] by (auto simp: getBasicBlock_def insns_plain_def mk_Instruction_def)
qed

text \<open>An address below every section steps back from the beginning of the map.\<close>

lemma lookup_before_first:
  assumes "\<forall>ks \<in> set (dis_cache d). a < fst ks"
  shows "lookupSection d a = None"
  using assms by (cases "dis_cache d") (auto simp: lookupSection_def)

end
