(* ===== verification/Kcov_SysDaemon.thy ===== *)
theory Kcov_SysDaemon
  imports Kcov_SystemMode Kcov_Collector Kcov_Config
begin

text \<open>
  The programs of the system mode around its data: the engine that records a binary and reads the
  results back (\<open>src/src/engines/system-mode-engine.cc\<close>), the library in the traced program that
  registers it (\<open>system-mode-binary-lib.cc\<close>), and the daemon (\<open>src/src/main-system-daemon.cc\<close>).
  \<open>None\<close> as a result is a panic or an access outside of an object; files, environment and the
  hash of a block are arguments.
\<close>

section \<open>The engine\<close>

datatype sys_mode = mode_unset | mode_write_file | mode_read_file

record SystemModeEngine =
  se_mode :: sys_mode
  se_listener :: bool
  se_breakpointIdx :: u32
  se_indexToAddress :: "u64 list"
  se_filename :: string

definition mk_SystemModeEngine :: "sys_mode \<Rightarrow> SystemModeEngine" where
  "mk_SystemModeEngine mode =
     \<lparr>se_mode = mode, se_listener = False, se_breakpointIdx = 0, se_indexToAddress = [], se_filename = []\<rparr>"

definition sys_registerBreakpoint :: "SystemModeEngine \<Rightarrow> u64 \<Rightarrow> u32 \<times> SystemModeEngine" where
  "sys_registerBreakpoint e addr =
     (se_breakpointIdx e,
      e\<lparr>se_indexToAddress := se_indexToAddress e @ [addr], se_breakpointIdx := se_breakpointIdx e + 1\<rparr>)"

definition sys_start :: "SystemModeEngine \<Rightarrow> string \<Rightarrow> bool \<times> SystemModeEngine" where
  "sys_start e executable = (True, e\<lparr>se_filename := executable, se_listener := True\<rparr>)"

definition sys_reportEvent :: "SystemModeEngine \<Rightarrow> event_type \<Rightarrow> u32 \<Rightarrow> u64 \<Rightarrow> Event list" where
  "sys_reportEvent e t d a = (if se_listener e then [mk_Event t d a] else [])"

definition keyListAsString :: "string list \<Rightarrow> string" where
  "keyListAsString list = (let out = concat (map (\<lambda>s. s @ '','') list) in take (length out - 1) out)"

definition getKcovOptionsString :: "Configuration \<Rightarrow> conf_error + string" where
  "getKcovOptionsString conf =
     rbind (keyAsList conf ''include-pattern'') (\<lambda>ip.
     rbind (keyAsList conf ''exclude-pattern'') (\<lambda>xp.
     rbind (keyAsList conf ''include-path'') (\<lambda>id.
     rbind (keyAsList conf ''exclude-path'') (\<lambda>xd.
     rbind (keyAsString conf ''exclude-line'') (\<lambda>xl.
     rbind (keyAsString conf ''exclude-region'') (\<lambda>xr.
       Inr (keyListAsString ip @ '' '' @ keyListAsString xp @ '' '' @ keyListAsString id @ '' '' @
            keyListAsString xd @ '' '' @ xl @ '' '' @ xr @ '' '')))))))"

record sys_env =
  sye_little_endian :: bool
  sye_read_file :: "string \<Rightarrow> byte list option"
  sye_stat_mode :: "string \<Rightarrow> u32 option"
  sye_hash_block :: "byte list \<Rightarrow> u32"
  sye_conf :: Configuration

datatype sys_out = SysWrite string "byte list" u32 | SysCommand string | SysEvent Event

text \<open>
  \<open>handleWriter\<close>: the processed binary, with the mode of the original, and the call of patchelf,
  which is made whether or not a binary was written.
\<close>

definition handleWriter :: "sys_env \<Rightarrow> SystemModeEngine \<Rightarrow> byte list \<Rightarrow> u32 \<Rightarrow> sys_out list option" where
  "handleWriter se e p checksum =
     (case (getKcovOptionsString (sye_conf se), keyAsString (sye_conf se) ''system-mode-write-file'',
            keyAsString (sye_conf se) ''patchelf-command'') of
        (Inr options, Inr dst, Inr patchelf) \<Rightarrow>
          (case sye_stat_mode se (se_filename e) of
             None \<Rightarrow> Some []
           | Some mode \<Rightarrow>
               (case fromRawFile checksum (se_filename e) (c_str options) p of
                  None \<Rightarrow> Some []
                | Some f \<Rightarrow>
                    Option.bind (add_entries f 0 (se_indexToAddress e)) (\<lambda>f1.
                    map_option (\<lambda>out.
                        [SysWrite dst out mode, SysCommand (patchelf @ '' --add-needed libkcov_system.so '' @ dst)])
                      (getProcessedData (sye_little_endian se) f1))))
      | _ \<Rightarrow> None)"

definition handleReadFile :: "sys_env \<Rightarrow> SystemModeEngine \<Rightarrow> Event list option" where
  "handleReadFile se e =
     (case keyAsString (sye_conf se) ''system-mode-read-results-file'' of
        Inl _ \<Rightarrow> None
      | Inr src \<Rightarrow>
          Option.bind (diskToMemory (sye_little_endian se) (sye_read_file se) src) (\<lambda>results.
            case results of
              None \<Rightarrow> Some []
            | Some m \<Rightarrow>
                bind_all (\<lambda>i. if indexIsHit m (of_nat i)
                              then if i < length (se_indexToAddress e)
                                   then Some (sys_reportEvent e ev_breakpoint 0 (se_indexToAddress e ! i)) else None
                              else Some [])
                  [0..<unat (smm_n_entries m * 32)]))"

definition sys_continueExecution :: "sys_env \<Rightarrow> SystemModeEngine \<Rightarrow> (bool \<times> sys_out list) option" where
  "sys_continueExecution se e =
     (case sye_read_file se (se_filename e) of
        None \<Rightarrow> Some (False, [])
      | Some p \<Rightarrow>
          map_option (\<lambda>outs. (False, outs @ map SysEvent (sys_reportEvent e ev_exit 0 0)))
            (case se_mode e of
               mode_write_file \<Rightarrow> handleWriter se e p (sye_hash_block se p)
             | mode_read_file \<Rightarrow> map_option (map SysEvent) (handleReadFile se e)
             | mode_unset \<Rightarrow> None))"

definition sys_create :: "Configuration \<Rightarrow> conf_error + SystemModeEngine" where
  "sys_create conf =
     rbind (keyAsString conf ''system-mode-write-file'') (\<lambda>f.
       Inr (mk_SystemModeEngine (if f \<noteq> [] then mode_write_file else mode_read_file)))"

definition sys_matchFile :: "Configuration \<Rightarrow> conf_error + nat" where
  "sys_matchFile conf =
     rbind (keyAsString conf ''system-mode-write-file'') (\<lambda>f.
       if f \<noteq> [] then Inr match_perfect
       else rbind (keyAsString conf ''system-mode-read-results-file'') (\<lambda>r.
         Inr (if r \<noteq> [] then match_perfect else match_none)))"

section \<open>In the traced program\<close>

text \<open>
  \<open>connectToDaemon\<close>: the FIFO the daemon answers through and the message written to its pipe.
  \<open>ce_exe\<close> is the result of \<open>readlink\<close> with the buffer's size. The process id of the message has 16 bits.
\<close>

record connect_env =
  ce_getenv :: "string \<Rightarrow> string option"
  ce_lstat :: "string \<Rightarrow> bool"
  ce_exe :: "string option"
  ce_pid :: u32
  ce_mkfifo :: "string \<Rightarrow> bool"

definition connectToDaemon :: "bool \<Rightarrow> connect_env \<Rightarrow> (string \<times> string \<times> byte list) option" where
  "connectToDaemon le ce =
     (let pipe = (case ce_getenv ce ''KCOV_SYSTEM_PIPE'' of None \<Rightarrow> ''/tmp/kcov-system.pipe'' | Some p \<Rightarrow> p);
          outputDir = (case ce_getenv ce ''KCOV_SYSTEM_DESTINATION_DIR'' of None \<Rightarrow> ''/tmp/kcov-data/'' | Some d \<Rightarrow> d)
      in if \<not> ce_lstat ce pipe then None
         else case ce_exe ce of
           None \<Rightarrow> None
         | Some exe \<Rightarrow>
             let filename = c_str (take 4095 exe);
                 readback = outputDir @ ''/'' @ fmt_nat (unat (ce_pid ce))
             in if \<not> ce_mkfifo ce readback then None
                else Some (readback, pipe, createProcessEntry le (ucast (ce_pid ce)) filename))"

section \<open>The daemon\<close>

record ProcessHandler =
  ph_indexByAddress :: "u64 \<rightharpoonup> u32"
  ph_id :: u32

fun index_entries :: "u64 list \<Rightarrow> u32 \<Rightarrow> (u64 \<rightharpoonup> u32) \<Rightarrow> (u64 \<rightharpoonup> u32)" where
  "index_entries [] index m = m"
| "index_entries (a # as) index m = index_entries as (index + 1) (m(a \<mapsto> index))"

text \<open>\<open>attach\<close> with an engine that has started: the handler and the breakpoints it registers.\<close>

definition ph_attach :: "SystemModeFile \<Rightarrow> ProcessHandler \<times> u64 list" where
  "ph_attach sysFile =
     (\<lparr>ph_indexByAddress = index_entries (sf_entries sysFile) 0 Map.empty, ph_id = sf_id sysFile\<rparr>, sf_entries sysFile)"

definition ph_onEvent :: "ProcessHandler \<Rightarrow> system_mode_memory \<Rightarrow> Event \<Rightarrow> system_mode_memory" where
  "ph_onEvent h m ev =
     (if ev_type ev = ev_breakpoint
      then case ph_indexByAddress h (ev_addr ev) of None \<Rightarrow> m | Some i \<Rightarrow> reportIndex m i
      else m)"

definition getSystemModeFileFromFilename :: "sys_env \<Rightarrow> string \<Rightarrow> SystemModeFile option option" where
  "getSystemModeFileFromFilename se filename =
     (case sye_read_file se filename of None \<Rightarrow> Some None | Some p \<Rightarrow> fromProcessedFile (sye_little_endian se) p)"

record daemon =
  dm_destinationDir :: string
  dm_outputFiles :: "(u32 \<times> system_mode_memory) list"
  dm_doExit :: bool

definition process_output :: "SystemModeFile \<Rightarrow> (u32 \<times> system_mode_memory) list \<Rightarrow> (u32 \<times> system_mode_memory) list" where
  "process_output f outputs =
     (case map_of outputs (sf_id f) of
        Some _ \<Rightarrow> outputs
      | None \<Rightarrow> alist_upd (sf_id f)
                  (mk_system_mode_memory (sf_filename f) (sf_options f) (of_nat (length (sf_entries f)))) outputs)"

text \<open>\<open>processOne\<close>: the table of outputs, and the binary the child attaches to, if it is one of ours.\<close>

definition processOne :: "sys_env \<Rightarrow> daemon \<Rightarrow> string \<Rightarrow> (daemon \<times> SystemModeFile option) option" where
  "processOne se d filename =
     map_option (\<lambda>r. case r of
         None \<Rightarrow> (d, None)
       | Some f \<Rightarrow> (d\<lparr>dm_outputFiles := process_output f (dm_outputFiles d)\<rparr>, Some f))
       (getSystemModeFileFromFilename se filename)"

text \<open>One round of the main loop on the bytes of one \<open>read\<close>; the last output releases the process.\<close>

datatype daemon_out = DAttach u16 SystemModeFile | DRelease string

definition STOPME :: "byte list" where
  "STOPME = [0x53, 0x54, 0x4f, 0x50, 0x4d, 0x45]"

definition daemon_round :: "sys_env \<Rightarrow> daemon \<Rightarrow> byte list \<Rightarrow> (daemon \<times> daemon_out list) option" where
  "daemon_round se d r =
     (if r = [] then Some (d, [])
      else if take 6 r = STOPME then Some (d\<lparr>dm_doExit := True\<rparr>, [])
      else if length r < sizeof_new_process_entry then Some (d, [])
      else Option.bind (parseProcessEntry (sye_little_endian se) (r @ replicate (4096 - length r) 0)) (\<lambda>e.
             case e of
               None \<Rightarrow> Some (d, [])
             | Some (pid, filename) \<Rightarrow>
                 map_option (\<lambda>(d', f). (d', (case f of None \<Rightarrow> [] | Some sf \<Rightarrow> [DAttach pid sf]) @
                      [DRelease (dm_destinationDir d @ ''/'' @ fmt_nat (unat pid))]))
                   (processOne se d filename)))"

fun daemon_loop :: "sys_env \<Rightarrow> daemon \<Rightarrow> byte list list \<Rightarrow> (daemon \<times> daemon_out list) option" where
  "daemon_loop se d [] = Some (d, [])"
| "daemon_loop se d (r # rs) =
     (if dm_doExit d then Some (d, [])
      else Option.bind (daemon_round se d r) (\<lambda>(d1, o1).
             map_option (\<lambda>(d2, o2). (d2, o1 @ o2)) (daemon_loop se d1 rs)))"

text \<open>A round of \<open>outputThread\<close> after its wait: the files it writes.\<close>

definition output_one :: "bool \<Rightarrow> string \<Rightarrow> u32 \<times> system_mode_memory \<Rightarrow> (u32 \<times> system_mode_memory) \<times> (string \<times> byte list) list" where
  "output_one le dir x =
     (case x of (i, cur) \<Rightarrow>
        if \<not> isDirty cur then (x, [])
        else ((i, markClean cur),
              case memoryToFile le (markClean cur) of
                None \<Rightarrow> []
              | Some dst \<Rightarrow> [(dir @ ''/'' @ pad0 8 (fmt_hex (unat i)), dst)]))"

definition output_round :: "sys_env \<Rightarrow> daemon \<Rightarrow> daemon \<times> (string \<times> byte list) list" where
  "output_round se d =
     (if dm_doExit d then (d, [])
      else let rs = map (output_one (sye_little_endian se) (dm_destinationDir d)) (dm_outputFiles d)
           in (d\<lparr>dm_outputFiles := map fst rs\<rparr>, concat (map snd rs)))"

end
