(* ===== verification/Kcov_Float.thy ===== *)
theory Kcov_Float
  imports Kcov_Strings "HOL-Library.Log_Nat"
begin

text \<open>
  The floating-point arithmetic of the report writers: quotients of line counts as \<open>float\<close> and
  percentages as \<open>double\<close>, compared with a limit and printed with a number of decimals.

  A value is a fraction of natural numbers whose denominator is a power of two. The counts are
  32-bit numbers, so neither overflow nor subnormal numbers nor negative values occur; what matters is
  the rounding to the nearest number with 24 or 53 significant bits, ties to even.
\<close>

type_synonym fp = "nat \<times> nat"

definition round_even :: "nat \<Rightarrow> nat \<Rightarrow> nat" where
  "round_even n d =
     (let q = n div d; r = n mod d
      in if 2 * r < d \<or> (2 * r = d \<and> even q) then q else q + 1)"

definition fp_scale :: "int \<Rightarrow> fp \<Rightarrow> fp" where
  "fp_scale s x = (if s \<ge> 0 then (fst x * 2 ^ nat s, snd x) else (fst x, snd x * 2 ^ nat (- s)))"

text \<open>
  The nearest number with \<open>p\<close> significant bits: \<open>fp_exp\<close> is the power of two that scales the value to
  at least \<open>2 ^ (p - 1)\<close> and less than \<open>2 ^ p\<close>.
\<close>

definition fp_exp :: "nat \<Rightarrow> fp \<Rightarrow> int" where
  "fp_exp p x =
     (let s0 = int p - (int (floorlog 2 (fst x)) - int (floorlog 2 (snd x))); y = fp_scale s0 x
      in if fst y \<ge> 2 ^ p * snd y then s0 - 1 else s0)"

definition fp_round :: "nat \<Rightarrow> fp \<Rightarrow> fp" where
  "fp_round p x =
     (if fst x = 0 then (0, 1)
      else let s = fp_exp p x; y = fp_scale s x in fp_scale (- s) (round_even (fst y) (snd y), 1))"

definition flt_of_u32 :: "u32 \<Rightarrow> fp" where
  "flt_of_u32 w = fp_round 24 (unat w, 1)"

definition flt_div :: "fp \<Rightarrow> fp \<Rightarrow> fp" where
  "flt_div x y = fp_round 24 (fst x * snd y, snd x * fst y)"

definition dbl_of_u32 :: "u32 \<Rightarrow> fp" where
  "dbl_of_u32 w = (unat w, 1)"

definition dbl_div :: "fp \<Rightarrow> fp \<Rightarrow> fp" where
  "dbl_div x y = fp_round 53 (fst x * snd y, snd x * fst y)"

definition dbl_mult :: "fp \<Rightarrow> fp \<Rightarrow> fp" where
  "dbl_mult x y = fp_round 53 (fst x * fst y, snd x * snd y)"

definition dbl_ge_int :: "fp \<Rightarrow> u32 \<Rightarrow> bool" where
  "dbl_ge_int x k = (int (fst x) \<ge> sint k * int (snd x))"

definition dbl_gt_int :: "fp \<Rightarrow> u32 \<Rightarrow> bool" where
  "dbl_gt_int x k = (int (fst x) > sint k * int (snd x))"

text \<open>\<open>%.<digits>f\<close>\<close>

definition fmt_f :: "nat \<Rightarrow> fp \<Rightarrow> string" where
  "fmt_f digits x =
     (let r = round_even (fst x * 10 ^ digits) (snd x)
      in fmt_nat (r div 10 ^ digits) @ ''.'' @ pad0 digits (fmt_nat (r mod 10 ^ digits)))"

section \<open>Facts\<close>

lemma round_even_exact [simp]: "0 < d \<Longrightarrow> round_even (k * d) d = k"
  by (simp add: round_even_def)

lemma round_even_1 [simp]: "round_even n (Suc 0) = n"
  by (simp add: round_even_def)

lemma round_even_mono_ge: "0 < d \<Longrightarrow> k * d \<le> n \<Longrightarrow> k \<le> round_even n d"
  using div_le_mono [of "k * d" n d] by (simp add: round_even_def Let_def)

lemma round_even_mono_le: "0 < d \<Longrightarrow> n \<le> k * d \<Longrightarrow> round_even n d \<le> k"
proof -
  assume d: "0 < d" and n: "n \<le> k * d"
  show ?thesis
  proof (cases "n mod d = 0")
    case True
    with d have "round_even n d = n div d" by (simp add: round_even_def)
    also have "\<dots> \<le> k" using div_le_mono [OF n, of d] d by simp
    finally show ?thesis .
  next
    case False
    have "n div d < k"
    proof (rule ccontr)
      assume "\<not> n div d < k"
      then have "k * d \<le> n div d * d" by simp
      also have "\<dots> < n" using False by (metis div_mult_mod_eq less_add_same_cancel1 neq0_conv)
      finally show False using n by simp
    qed
    then show ?thesis by (simp add: round_even_def Let_def)
  qed
qed

end
