(* ===== verification/Kcov_Writer.thy ===== *)
theory Kcov_Writer
  imports Kcov_Reporter Kcov_Config Kcov_Float
begin

text \<open>
  The common part of the report writers (\<open>src/src/writers/writer-base.cc\<close>): the files with their
  source lines, the path they have in common and the summary that one run leaves for the next.

  \<^item> \<open>wfile\<close> is \<open>WriterBase::File\<close>; line \<open>n\<close> of \<open>m_lineMap\<close> is entry \<open>n - 1\<close> of \<open>wf_lineMap\<close>.
  \<^item> \<open>m_files\<close> is an association list, its order being the iteration order of the container.
  \<^item> \<open>wr_conf\<close> are the configuration keys the writers read.
  \<^item> A source file that cannot be opened is a panic: \<open>None\<close>.
\<close>

section \<open>Texts\<close>

abbreviation nl :: string where
  "nl \<equiv> [CHR 0x0A]"

abbreviation quot :: string where
  "quot \<equiv> [CHR 0x22]"

definition tabs :: "nat \<Rightarrow> string" where
  "tabs n = replicate n (CHR 0x09)"

definition quoted :: "string \<Rightarrow> string" where
  "quoted s = quot @ s @ quot"

section \<open>\<open>WriterBase::File\<close>\<close>

record wfile =
  wf_name :: string
  wf_fileName :: string
  wf_outFileName :: string
  wf_jsonOutFileName :: string
  wf_crc :: u32
  wf_lineMap :: "string list"
  wf_codeLines :: u32
  wf_executedLines :: u32
  wf_lastLineNr :: u32

text \<open>The lines \<open>getline\<close> returns, without their line ends.\<close>

function getlines :: "string \<Rightarrow> string list" where
  "getlines s =
     (if s = [] then []
      else let l = takeWhile (\<lambda>c. c \<noteq> CHR 0x0A) s in l # getlines (drop (length l + 1) s))"
  by pat_completeness auto
termination
  by (relation "measure length") (auto simp: Let_def)

declare getlines.simps [simp del]

definition erase_trailing :: "string \<Rightarrow> string" where
  "erase_trailing s =
     (case str_find_last_not_of s ('' '' @ nl @ [CHR 0x0D, CHR 0x09]) of None \<Rightarrow> [] | Some p \<Rightarrow> take (p + 1) s)"

definition writer_readFile :: "string \<Rightarrow> string list" where
  "writer_readFile content = map (\<lambda>l. erase_trailing (c_str l)) (getlines content)"

definition mk_wfile :: "rep_env \<Rightarrow> string \<Rightarrow> wfile option" where
  "mk_wfile e filename =
     (case e_read e filename of
        None \<Rightarrow> None
      | Some data \<Rightarrow>
          let fileName = (case str_rfind_from filename ''/'' (length filename) of
                            None \<Rightarrow> filename | Some pos \<Rightarrow> drop (pos + 1) filename);
              crc = e_crc32 e (string_to_bytes filename);
              ls = writer_readFile (bytes_to_string data)
          in Some \<lparr> wf_name = filename, wf_fileName = fileName,
                    wf_outFileName = fileName @ ''.'' @ fmt_hex (unat crc) @ ''.html'',
                    wf_jsonOutFileName = fileName @ ''.'' @ fmt_hex (unat crc) @ ''.js'',
                    wf_crc = crc, wf_lineMap = ls, wf_codeLines = 0, wf_executedLines = 0,
                    wf_lastLineNr = of_nat (length ls) + 1 \<rparr>)"

section \<open>\<open>WriterBase\<close>\<close>

record Writer =
  w_files :: "(string \<times> wfile) list"
  w_commonPath :: string

definition mk_Writer :: Writer where
  "mk_Writer = \<lparr> w_files = [], w_commonPath = ''not set'' \<rparr>"

definition writer_onLine :: "rep_env \<Rightarrow> Reporter \<Rightarrow> Writer \<Rightarrow> string \<Rightarrow> u32 \<Rightarrow> u64 \<Rightarrow> Writer option" where
  "writer_onLine e r w file lineNr addr =
     (if \<not> fileIsIncluded e r file then Some w
      else if map_of (w_files w) file \<noteq> None then Some w
      else if \<not> e_exists e file then Some w
      else case mk_wfile e file of
             None \<Rightarrow> None
           | Some f \<Rightarrow> Some (w\<lparr>w_files := alist_upd file f (w_files w)\<rparr>))"

text \<open>The inner loop of \<open>setupCommonPaths\<close>: directories are taken off until the path fits the name.\<close>

lemma str_rfind_slash_less: "str_rfind_from s (c # cs) n = Some i \<Longrightarrow> i < length s"
  by (auto dest!: str_rfind_from_Some simp: le_less)

function shorten_path :: "string \<Rightarrow> string \<Rightarrow> string" where
  "shorten_path name commonPath =
     (case str_rfind_from commonPath ''/'' (length commonPath) of
        None \<Rightarrow> commonPath
      | Some pos \<Rightarrow>
          let p = str_substr commonPath 0 pos
          in if str_find name p = Some 0 then p else shorten_path name p)"
  by pat_completeness auto
termination
  by (relation "measure (\<lambda>(_, p). length p)") (auto simp: str_substr_def dest: str_rfind_slash_less)

declare shorten_path.simps [simp del]

definition common_path_step :: "string \<Rightarrow> string \<Rightarrow> string" where
  "common_path_step commonPath name =
     (let p = (if commonPath = ''not set'' then name else commonPath)
      in if str_find name p = Some 0 then p else shorten_path name p)"

definition setupCommonPaths :: "Writer \<Rightarrow> Writer" where
  "setupCommonPaths w =
     w\<lparr>w_commonPath := foldl (\<lambda>p (_, f). common_path_step p (wf_name f)) (w_commonPath w) (w_files w)\<rparr>"

text \<open>The line numbers a writer goes through: \<open>for (n = 1; n < file->m_lastLineNr; n++)\<close>.\<close>

definition line_numbers :: "wfile \<Rightarrow> u32 list" where
  "line_numbers f = map of_nat [1..<unat (wf_lastLineNr f)]"

definition hits_of :: "rep_env \<Rightarrow> Reporter \<Rightarrow> wfile \<Rightarrow> u32 \<Rightarrow> u32" where
  "hits_of e r f n = lec_hits (getLineExecutionCount e r (wf_name f) n)"

section \<open>The summary of a run\<close>

definition SUMMARY_MAGIC :: u32 where "SUMMARY_MAGIC = 0x456d696c"

definition SUMMARY_VERSION :: u32 where "SUMMARY_VERSION = 2"

definition summary_name_size :: nat where "summary_name_size = 256"

definition sizeof_summaryStruct :: nat where "sizeof_summaryStruct = 5 * 4 + summary_name_size"

text \<open>\<open>strncpy\<close> of at most 255 bytes into 256 zero bytes.\<close>

definition summary_name :: "string \<Rightarrow> byte list" where
  "summary_name name =
     (let s = string_to_bytes (take (summary_name_size - 1) (c_str name))
      in s @ replicate (summary_name_size - length s) 0)"

definition marshalSummary :: "bool \<Rightarrow> ExecutionSummary \<Rightarrow> bool \<Rightarrow> string \<Rightarrow> byte list" where
  "marshalSummary le summary includeInTotals name =
     put_be le SUMMARY_MAGIC @ put_be le SUMMARY_VERSION @ put_be le (if includeInTotals then 1 else 0 :: u32) @
     put_be le (es_lines summary) @ put_be le (es_executedLines summary) @ summary_name name"

definition unMarshalSummary :: "bool \<Rightarrow> byte list \<Rightarrow> (ExecutionSummary \<times> bool \<times> string) option" where
  "unMarshalSummary le data =
     (if length data \<noteq> sizeof_summaryStruct then None
      else if get_be le (chunk 4 0 data) \<noteq> SUMMARY_MAGIC then None
      else if get_be le (chunk 4 1 data) \<noteq> SUMMARY_VERSION then None
      else Some (\<lparr> es_lines = get_be le (chunk 4 3 data), es_executedLines = get_be le (chunk 4 4 data) \<rparr>,
                 get_be le (chunk 4 2 data) \<noteq> (0 :: u32), c_str (bytes_to_string (drop 20 data))))"

section \<open>The configuration of the writers\<close>

record wr_conf =
  wc_cobertura_only :: u32
  wc_cobertura_full_paths :: u32
  wc_codecov_full_paths :: u32
  wc_command_name :: string
  wc_low_limit :: u32
  wc_high_limit :: u32
  wc_path_strip_level :: u32
  wc_merged_name :: string
  wc_strip_path :: string
  wc_coveralls_id :: string
  wc_coveralls_service_name :: string
  wc_css_file :: string
  wc_dump_summary :: u32

definition conf_writer :: "Configuration \<Rightarrow> conf_error + wr_conf" where
  "conf_writer c =
     rbind (keyAsInt c ''cobertura-only'') (\<lambda>co.
     rbind (keyAsInt c ''cobertura-full-paths'') (\<lambda>cfp.
     rbind (keyAsInt c ''codecov-full-paths'') (\<lambda>vfp.
     rbind (keyAsString c ''command-name'') (\<lambda>cmd.
     rbind (keyAsInt c ''low-limit'') (\<lambda>lo.
     rbind (keyAsInt c ''high-limit'') (\<lambda>hi.
     rbind (keyAsInt c ''path-strip-level'') (\<lambda>psl.
     rbind (keyAsString c ''merged-name'') (\<lambda>mn.
     rbind (keyAsString c ''strip-path'') (\<lambda>sp.
     rbind (keyAsString c ''coveralls-id'') (\<lambda>ci.
     rbind (keyAsString c ''coveralls-service-name'') (\<lambda>cs.
     rbind (keyAsString c ''css-file'') (\<lambda>css.
     rbind (keyAsInt c ''dump-summary'') (\<lambda>ds.
       Inr \<lparr> wc_cobertura_only = co, wc_cobertura_full_paths = cfp, wc_codecov_full_paths = vfp,
             wc_command_name = cmd, wc_low_limit = lo, wc_high_limit = hi, wc_path_strip_level = psl,
             wc_merged_name = mn, wc_strip_path = sp, wc_coveralls_id = ci, wc_coveralls_service_name = cs,
             wc_css_file = css, wc_dump_summary = ds \<rparr>)))))))))))))"

end
