(* ===== verification/Kcov_Writers.thy ===== *)
theory Kcov_Writers
  imports Kcov_Writer
begin

text \<open>
  The writers of machine-readable reports under \<open>src/src/writers/\<close>: Cobertura, Codecov, SonarQube, JSON
  and Coveralls. What \<open>write\<close> puts into its file is the result of the definition; the date and the time
  stamp, the answers of \<open>git\<close> and the upload to the service are arguments or left out. A file that
  cannot be opened for writing is left out too: nothing is written then.
\<close>

section \<open>Cobertura\<close>

definition cobertura_outFiles :: "wr_conf \<Rightarrow> string \<Rightarrow> string list" where
  "cobertura_outFiles c outDir =
     (if wc_cobertura_only c = 0 then [outDir @ ''/cobertura.xml''] else []) @ [outDir @ ''/cov.xml'']"

definition mangleFileName :: "string \<Rightarrow> string" where
  "mangleFileName name = map (\<lambda>c. if c = CHR ''.'' \<or> c = CHR ''-'' then CHR ''_'' else c) name"

text \<open>The counters of a file change only when a line of code is found.\<close>

definition sumOne_step :: "rep_env \<Rightarrow> Reporter \<Rightarrow> u32 \<times> u32 \<times> wfile \<Rightarrow> u32 \<Rightarrow> u32 \<times> u32 \<times> wfile" where
  "sumOne_step e r st n =
     (case st of (nExecutedLines, nCodeLines, file) \<Rightarrow>
        if \<not> lineIsCode r (wf_name file) n then st
        else let nE = nExecutedLines + (if hits_of e r file n \<noteq> 0 then 1 else 0); nC = nCodeLines + 1
             in (nE, nC, file\<lparr>wf_executedLines := nE, wf_codeLines := nC\<rparr>))"

definition sumOne :: "rep_env \<Rightarrow> Reporter \<Rightarrow> wfile \<Rightarrow> wfile" where
  "sumOne e r file = snd (snd (foldl (sumOne_step e r) (0, 0, file) (line_numbers file)))"

definition cobertura_hits :: "rep_env \<Rightarrow> Reporter \<Rightarrow> wfile \<Rightarrow> u32 \<Rightarrow> u32" where
  "cobertura_hits e r file n =
     (let hits = hits_of e r file n in if hits \<noteq> 0 \<and> e_maxPossibleHits e = HITS_SINGLE then 1 else hits)"

definition cobertura_line :: "u32 \<Rightarrow> u32 \<Rightarrow> string" where
  "cobertura_line n hits = tabs 6 @ ''<line number='' @ quoted (fmt_u n) @ '' hits='' @ quoted (fmt_u hits) @ ''/>'' @ nl"

definition cobertura_lines :: "rep_env \<Rightarrow> Reporter \<Rightarrow> wfile \<Rightarrow> string" where
  "cobertura_lines e r file =
     concat (map (\<lambda>n. cobertura_line n (cobertura_hits e r file n)) (filter (lineIsCode r (wf_name file)) (line_numbers file)))"

definition strip_common :: "string \<Rightarrow> string \<Rightarrow> string" where
  "strip_common commonPath filename =
     (if str_find filename commonPath \<noteq> None \<and> length filename > length commonPath
      then drop (length commonPath + 1) filename else filename)"

definition line_rate :: "u32 \<Rightarrow> u32 \<Rightarrow> string" where
  "line_rate executed lines =
     fmt_f 3 (flt_div (flt_of_u32 executed) (flt_of_u32 (if lines = 0 then 1 else lines)))"

definition cobertura_writeOne ::
  "wr_conf \<Rightarrow> rep_env \<Rightarrow> Reporter \<Rightarrow> string \<Rightarrow> u32 \<Rightarrow> wfile \<Rightarrow> string" where
  "cobertura_writeOne c e r commonPath counter file =
     (let mangledName = mangleFileName (wf_fileName file) @ ''__'' @ fmt_u counter;
          filename = (if wc_cobertura_full_paths c = 0 then strip_common commonPath (wf_name file) else wf_name file)
      in tabs 4 @ ''<class name='' @ quoted mangledName @ '' filename='' @ quoted filename @
         '' branch-rate='' @ quoted ''1.0'' @ '' complexity='' @ quoted ''1.0'' @ '' line-rate='' @
         quoted (line_rate (wf_executedLines file) (wf_codeLines file)) @ ''>'' @ nl @
         tabs 5 @ ''<lines>'' @ nl @ cobertura_lines e r file @ tabs 5 @ ''</lines>'' @ nl @
         tabs 4 @ ''</class>'' @ nl)"

fun cobertura_classes :: "wr_conf \<Rightarrow> rep_env \<Rightarrow> Reporter \<Rightarrow> string \<Rightarrow> u32 \<Rightarrow> wfile list \<Rightarrow> string \<times> u32" where
  "cobertura_classes c e r commonPath counter [] = ([], counter)"
| "cobertura_classes c e r commonPath counter (f # fs) =
     (case cobertura_classes c e r commonPath (counter + 1) fs of
        (s, counter') \<Rightarrow> (cobertura_writeOne c e r commonPath counter f @ s, counter'))"

definition cobertura_rates :: "u32 \<Rightarrow> u32 \<Rightarrow> string" where
  "cobertura_rates nCodeLines nExecutedLines =
     '' line-rate='' @ quoted (line_rate nExecutedLines nCodeLines) @ '' lines-covered='' @ quoted (fmt_u nExecutedLines) @
     '' lines-valid='' @ quoted (fmt_u nCodeLines) @ '' branch-rate='' @ quoted ''1.0''"

definition cobertura_header :: "wr_conf \<Rightarrow> string \<Rightarrow> string \<Rightarrow> u32 \<Rightarrow> u32 \<Rightarrow> string" where
  "cobertura_header c timestamp commonPath nCodeLines nExecutedLines =
     ''<?xml version='' @ quoted ''1.0'' @ '' ?>'' @ nl @
     ''<!DOCTYPE coverage SYSTEM '' @ [CHR 0x27] @ ''http://cobertura.sourceforge.net/xml/coverage-04.dtd'' @ [CHR 0x27] @ ''>'' @ nl @
     ''<coverage'' @ cobertura_rates nCodeLines nExecutedLines @ '' branches-covered='' @ quoted ''1.0'' @
     '' branches-rate='' @ quoted ''1.0'' @ '' complexity='' @ quoted ''1.0'' @ '' version='' @ quoted ''1.9'' @
     '' timestamp='' @ quoted timestamp @ ''>'' @ nl @
     tabs 1 @ ''<sources>'' @ nl @ tabs 2 @ ''<source>'' @ commonPath @ ''/</source>'' @ nl @ tabs 1 @ ''</sources>'' @ nl @
     tabs 1 @ ''<packages>'' @ nl @
     tabs 2 @ ''<package name='' @ quoted (mangleFileName (wc_command_name c)) @
     cobertura_rates nCodeLines nExecutedLines @ '' complexity='' @ quoted ''1.0'' @ ''>'' @ nl @
     tabs 3 @ ''<classes>'' @ nl"

definition cobertura_footer :: string where
  "cobertura_footer =
     tabs 3 @ ''</classes>'' @ nl @ tabs 2 @ ''</package>'' @ nl @ tabs 1 @ ''</packages>'' @ nl @ ''</coverage>'' @ nl"

definition total_code :: "(string \<times> wfile) list \<Rightarrow> u32" where
  "total_code fs = foldl (\<lambda>n (_, f). n + wf_codeLines f) 0 fs"

definition total_executed :: "(string \<times> wfile) list \<Rightarrow> u32" where
  "total_executed fs = foldl (\<lambda>n (_, f). n + wf_executedLines f) 0 fs"

text \<open>\<open>counter\<close> is the static counter of \<open>writeOne\<close>, which makes the class names unique.\<close>

definition cobertura_write ::
  "wr_conf \<Rightarrow> rep_env \<Rightarrow> Reporter \<Rightarrow> string \<Rightarrow> Writer \<Rightarrow> u32 \<Rightarrow> string \<times> Writer \<times> u32" where
  "cobertura_write c e r timestamp w0 counter =
     (let w1 = setupCommonPaths w0;
          fs = map (\<lambda>(n, f). (n, sumOne e r f)) (w_files w1);
          (classes, counter') = cobertura_classes c e r (w_commonPath w1) counter (map snd fs)
      in (cobertura_header c timestamp (w_commonPath w1) (total_code fs) (total_executed fs) @ classes @ cobertura_footer,
          w1\<lparr>w_files := fs\<rparr>, counter'))"

section \<open>Codecov\<close>

definition codecov_filename :: "wr_conf \<Rightarrow> string \<Rightarrow> string \<Rightarrow> string" where
  "codecov_filename c commonPath filename =
     (if wc_codecov_full_paths c = 0
      then strip_common (if wc_strip_path c = [] then commonPath else wc_strip_path c) filename
      else filename)"

definition codecov_score :: "rep_env \<Rightarrow> LineExecutionCount \<Rightarrow> string" where
  "codecov_score e cnt =
     (if e_maxPossibleHits e = HITS_UNLIMITED \<or> e_maxPossibleHits e = HITS_SINGLE
      then (if lec_hits cnt \<noteq> 0 then fmt_u (lec_hits cnt) else ''0'')
      else quoted (fmt_u (lec_hits cnt) @ ''/'' @ fmt_u (lec_possibleHits cnt)))"

definition codecov_entry :: "rep_env \<Rightarrow> Reporter \<Rightarrow> wfile \<Rightarrow> u32 \<Rightarrow> string" where
  "codecov_entry e r file n =
     ''      '' @ quoted (fmt_u n) @ '': '' @ codecov_score e (getLineExecutionCount e r (wf_name file) n)"

definition join_lines :: "string list \<Rightarrow> string" where
  "join_lines ss = foldl (\<lambda>out s. (if out \<noteq> [] then out @ '','' @ nl else out) @ s) [] ss"

text \<open>Unlike \<open>sumOne\<close>, the loop of \<open>writeOne\<close> stores the counters for every line.\<close>

definition count_lines :: "rep_env \<Rightarrow> Reporter \<Rightarrow> wfile \<Rightarrow> u32 \<times> u32" where
  "count_lines e r file =
     foldl (\<lambda>(nE, nC) n. if lineIsCode r (wf_name file) n then (nE + (if hits_of e r file n \<noteq> 0 then 1 else 0), nC + 1) else (nE, nC))
       (0, 0) (line_numbers file)"

definition store_counts :: "rep_env \<Rightarrow> Reporter \<Rightarrow> wfile \<Rightarrow> wfile" where
  "store_counts e r file =
     (if line_numbers file = [] then file
      else case count_lines e r file of (nE, nC) \<Rightarrow> file\<lparr>wf_executedLines := nE, wf_codeLines := nC\<rparr>)"

definition codecov_writeOne :: "wr_conf \<Rightarrow> rep_env \<Rightarrow> Reporter \<Rightarrow> string \<Rightarrow> wfile \<Rightarrow> string \<times> wfile" where
  "codecov_writeOne c e r commonPath file =
     (let entries = map (codecov_entry e r file) (filter (lineIsCode r (wf_name file)) (line_numbers file))
      in (''    '' @ quoted (codecov_filename c commonPath (wf_name file)) @ '': {'' @ nl @
          join_lines entries @ nl @ ''    }'', store_counts e r file))"

definition codecov_write :: "wr_conf \<Rightarrow> rep_env \<Rightarrow> Reporter \<Rightarrow> Writer \<Rightarrow> string \<times> Writer" where
  "codecov_write c e r w0 =
     (let w1 = setupCommonPaths w0;
          fs = map (\<lambda>(n, f). (n, sumOne e r f)) (w_files w1);
          out = map (\<lambda>(n, f). (n, codecov_writeOne c e r (w_commonPath w1) f)) fs;
          body = (case map (\<lambda>(_, s, _). s) out of [] \<Rightarrow> [] | s # ss \<Rightarrow> s @ concat (map (\<lambda>t. '','' @ nl @ t) ss))
      in (''{'' @ nl @ ''  '' @ quoted ''coverage'' @ '': {'' @ nl @ body @ nl @ ''  }'' @ nl @ ''}'' @ nl,
          w1\<lparr>w_files := map (\<lambda>(n, _, f). (n, f)) out\<rparr>))"

section \<open>SonarQube\<close>

definition sonar_line :: "rep_env \<Rightarrow> Reporter \<Rightarrow> wfile \<Rightarrow> u32 \<Rightarrow> string" where
  "sonar_line e r file n =
     tabs 2 @ ''<lineToCover lineNumber='' @ quoted (fmt_d n) @ '' covered='' @
     quoted (if hits_of e r file n \<noteq> 0 then ''true'' else ''false'') @ ''/>'' @ nl"

definition sonar_writeOne :: "rep_env \<Rightarrow> Reporter \<Rightarrow> wfile \<Rightarrow> string" where
  "sonar_writeOne e r file =
     tabs 1 @ ''<file path='' @ quoted (wf_name file) @ ''>'' @ nl @
     concat (map (sonar_line e r file) (filter (lineIsCode r (wf_name file)) (line_numbers file))) @
     tabs 1 @ ''</file>'' @ nl"

definition sonar_write :: "rep_env \<Rightarrow> Reporter \<Rightarrow> Writer \<Rightarrow> string \<times> Writer" where
  "sonar_write e r w0 =
     (let w1 = setupCommonPaths w0
      in (''<!-- Generated by kcov (https://simonkagstrom.github.io/kcov/) -->'' @ nl @
          ''<coverage version='' @ quoted ''1'' @ ''>'' @ nl @
          concat (map (\<lambda>(_, f). sonar_writeOne e r f) (w_files w1)) @ ''</coverage>'' @ nl, w1))"

section \<open>JSON\<close>

definition percent_of :: "u32 \<Rightarrow> u32 \<Rightarrow> fp" where
  "percent_of executed lines = dbl_mult (dbl_div (dbl_of_u32 executed) (dbl_of_u32 lines)) (100, 1)"

definition json_field :: "string \<Rightarrow> string \<Rightarrow> string" where
  "json_field name val = quoted name @ '': '' @ val"

text \<open>\<open>percentCovered\<close> is declared outside of the loop over the files and kept for a file without code.\<close>

record json_state =
  js_out :: string
  js_totalExecuted :: u32
  js_totalCode :: u32
  js_percentCovered :: fp
  js_first :: bool

definition json_file :: "bool \<Rightarrow> rep_env \<Rightarrow> Reporter \<Rightarrow> json_state \<Rightarrow> wfile \<Rightarrow> json_state" where
  "json_file details e r st file =
     (case count_lines e r file of (nExecutedLines, nCodeLines) \<Rightarrow>
        let percentCovered = (if nCodeLines > 0 then percent_of nExecutedLines nCodeLines else js_percentCovered st)
        in \<lparr> js_out = js_out st @ (if js_first st then [] else '','' @ nl) @ ''    {'' @
               json_field ''file'' (quoted (wf_name file)) @ '', '' @
               json_field ''percent_covered'' (quoted (fmt_f 2 percentCovered)) @
               (if details
                then '', '' @ json_field ''covered_lines'' (quoted (fmt_d nExecutedLines)) @ '', '' @
                     json_field ''total_lines'' (quoted (fmt_d nCodeLines))
                else []) @ ''}'',
             js_totalExecuted = js_totalExecuted st + nExecutedLines, js_totalCode = js_totalCode st + nCodeLines,
             js_percentCovered = percentCovered, js_first = False \<rparr>)"

definition json_files :: "bool \<Rightarrow> rep_env \<Rightarrow> Reporter \<Rightarrow> Writer \<Rightarrow> json_state" where
  "json_files details e r w =
     foldl (json_file details e r)
       \<lparr> js_out = ''{'' @ nl @ ''  '' @ quoted ''files'' @ '': ['' @ nl, js_totalExecuted = 0, js_totalCode = 0,
         js_percentCovered = (0, 1), js_first = True \<rparr> (map snd (w_files w))"

definition json_totals :: "json_state \<Rightarrow> string" where
  "json_totals st =
     nl @ ''  ],'' @ nl @ ''  '' @
     json_field ''percent_covered''
       (quoted (fmt_f 2 (if js_totalCode st > 0 then percent_of (js_totalExecuted st) (js_totalCode st) else (0, 1)))) @ '','' @ nl @
     ''  '' @ json_field ''covered_lines'' (fmt_d (js_totalExecuted st)) @ '','' @ nl @
     ''  '' @ json_field ''total_lines'' (fmt_d (js_totalCode st))"

text \<open>\<open>onStop\<close> prints the summary on the standard output when it is asked for.\<close>

definition json_onStop :: "wr_conf \<Rightarrow> rep_env \<Rightarrow> Reporter \<Rightarrow> Writer \<Rightarrow> string" where
  "json_onStop c e r w =
     (if wc_dump_summary c = 0 then []
      else let st = json_files False e r w in js_out st @ json_totals st @ nl @ ''}'' @ nl)"

definition json_write :: "wr_conf \<Rightarrow> rep_env \<Rightarrow> Reporter \<Rightarrow> string \<Rightarrow> Writer \<Rightarrow> string option" where
  "json_write c e r date w =
     (let st = json_files True e r w
      in map_option (\<lambda>command.
           js_out st @ json_totals st @ '','' @ nl @
           ''  '' @ json_field ''percent_low'' (fmt_d (wc_low_limit c)) @ '','' @ nl @
           ''  '' @ json_field ''percent_high'' (fmt_d (wc_high_limit c)) @ '','' @ nl @
           ''  '' @ json_field ''command'' (quoted (c_str command)) @ '','' @ nl @
           ''  '' @ json_field ''date'' (quoted date) @ nl @ ''}'' @ nl) (escape_json (wc_command_name c)))"

section \<open>Coveralls\<close>

text \<open>\<open>fgets\<close> with a buffer of 128 bytes: at most 127 characters, up to and including a line end.\<close>

definition run_command_buffer :: nat where "run_command_buffer = 128"

function fgets_lines :: "string \<Rightarrow> string list" where
  "fgets_lines s =
     (if s = [] then []
      else let l = takeWhile (\<lambda>c. c \<noteq> CHR 0x0A) s; n = min (length l + 1) (run_command_buffer - 1)
           in take n s # fgets_lines (drop n s))"
  by pat_completeness auto
termination
  by (relation "measure length") (auto simp: Let_def run_command_buffer_def)

declare fgets_lines.simps [simp del]

definition run_command :: "string \<Rightarrow> string list" where
  "run_command output =
     map (\<lambda>line. if last line = CHR 0x0A then butlast line else line) (filter (\<lambda>l. l \<noteq> []) (map c_str (fgets_lines output)))"

text \<open>What the four \<open>git\<close> commands print.\<close>

record git_output =
  git_insideWorkTree :: string
  git_log :: string
  git_branch :: string
  git_rootPath :: string

record gitInfo =
  gi_commitHash :: string
  gi_authorName :: string
  gi_authorEmail :: string
  gi_committerName :: string
  gi_committerEmail :: string
  gi_commitMessage :: string
  gi_gitBranch :: string
  gi_gitRootPath :: string

definition front_or_empty :: "string list \<Rightarrow> string" where
  "front_or_empty ss = (case ss of [] \<Rightarrow> [] | s # _ \<Rightarrow> s)"

definition getGitInfoMap :: "git_output \<Rightarrow> gitInfo option" where
  "getGitInfoMap g =
     (if run_command (git_insideWorkTree g) \<noteq> [''true''] then None
      else let info = run_command (git_log g)
           in if length info \<noteq> 6 then None
              else Some \<lparr> gi_commitHash = info ! 0, gi_authorName = info ! 1, gi_authorEmail = info ! 2,
                          gi_committerName = info ! 3, gi_committerEmail = info ! 4, gi_commitMessage = info ! 5,
                          gi_gitBranch = front_or_empty (run_command (git_branch g)),
                          gi_gitRootPath = front_or_empty (run_command (git_rootPath g)) \<rparr>)"

definition isRepoToken :: "string \<Rightarrow> bool" where
  "isRepoToken str = (length str \<ge> 32)"

definition coveralls_git :: "gitInfo option \<Rightarrow> string" where
  "coveralls_git gi =
     (case gi of
        None \<Rightarrow> []
      | Some g \<Rightarrow>
          '' '' @ quoted ''git'' @ '': {'' @ nl @ ''  '' @ quoted ''head'' @ '': {'' @ nl @
          concat (map (\<lambda>(k, v). ''   '' @ json_field k (quoted v) @ '','' @ nl)
            [(''id'', gi_commitHash g), (''author_name'', gi_authorName g), (''author_email'', gi_authorEmail g),
             (''committer_name'', gi_committerName g), (''committer_email'', gi_committerEmail g)]) @
          ''   '' @ json_field ''message'' (quoted (gi_commitMessage g)) @ nl @ ''  },'' @ nl @
          ''  '' @ json_field ''branch'' (quoted (gi_gitBranch g)) @ nl @ '' },'' @ nl)"

definition coveralls_strip_path :: "wr_conf \<Rightarrow> gitInfo option \<Rightarrow> string \<Rightarrow> string" where
  "coveralls_strip_path c gi commonPath =
     (let strip_path = (if wc_strip_path c = [] then commonPath @ ''/'' else wc_strip_path c)
      in case gi of
           None \<Rightarrow> strip_path
         | Some g \<Rightarrow> if gi_gitRootPath g \<noteq> [] then gi_gitRootPath g @ ''/'' else strip_path)"

definition coveralls_line :: "rep_env \<Rightarrow> Reporter \<Rightarrow> wfile \<Rightarrow> u32 \<Rightarrow> string" where
  "coveralls_line e r file n =
     (if \<not> lineIsCode r (wf_name file) n then ''null'' else fmt_u (hits_of e r file n)) @
     (if n \<noteq> wf_lastLineNr file - 1 then '','' else [])"

definition coveralls_file :: "rep_env \<Rightarrow> Reporter \<Rightarrow> string \<Rightarrow> wfile \<Rightarrow> string option" where
  "coveralls_file e r strip_path file =
     (let fileName = (if prefix strip_path (wf_name file) then drop (length strip_path) (wf_name file) else wf_fileName file)
      in map_option (\<lambda>name.
           ''  {'' @ nl @ ''   '' @ json_field ''name'' (quoted name) @ '','' @ nl @
           ''   '' @ json_field ''source_digest'' (quoted (''0x'' @ pad0 8 (fmt_hex (unat (wf_crc file))))) @ '','' @ nl @
           ''   '' @ quoted ''coverage'' @ '': ['' @ concat (map (coveralls_line e r file) (line_numbers file)) @ '']'' @ nl)
         (escape_json fileName))"

fun coveralls_files :: "rep_env \<Rightarrow> Reporter \<Rightarrow> string \<Rightarrow> wfile list \<Rightarrow> string option" where
  "coveralls_files e r strip_path [] = Some []"
| "coveralls_files e r strip_path (f # fs) =
     Option.bind (coveralls_file e r strip_path f) (\<lambda>s.
     Option.bind (coveralls_files e r strip_path fs) (\<lambda>t.
       Some (s @ (if fs \<noteq> [] then ''  },'' else ''  }'') @ nl @ t)))"

text \<open>The data is written once, after \<open>onStop\<close>, and only with a token. The outer \<open>None\<close> is undefined behaviour.\<close>

definition coveralls_write ::
  "wr_conf \<Rightarrow> rep_env \<Rightarrow> Reporter \<Rightarrow> gitInfo option \<Rightarrow> bool \<Rightarrow> Writer \<Rightarrow> (string option \<times> Writer) option" where
  "coveralls_write c e r gi doWrite w0 =
     (let id = wc_coveralls_id c
      in if \<not> doWrite \<or> id = [] then Some (None, w0)
         else let w1 = setupCommonPaths w0;
                  w2 = (if wc_strip_path c = [] then setupCommonPaths w1 else w1);
                  head = ''{'' @ nl @
                    (if isRepoToken id then '' '' @ json_field ''repo_token'' (quoted id) @ '','' @ nl
                     else '' '' @ json_field ''service_name'' (quoted (wc_coveralls_service_name c)) @ '','' @ nl @
                          '' '' @ json_field ''service_job_id'' (quoted id) @ '','' @ nl)
              in map_option (\<lambda>files.
                   (Some (head @ coveralls_git gi @ '' '' @ quoted ''source_files'' @ '': ['' @ nl @ files @
                          '' ]'' @ nl @ ''}'' @ nl), w2))
                 (coveralls_files e r (coveralls_strip_path c gi (w_commonPath w2)) (map snd (w_files w2))))"

end
