(* ===== verification/Kcov_Html.thy ===== *)
theory Kcov_Html
  imports Kcov_Writers
begin

text \<open>
  The HTML report (\<open>src/src/writers/html-writer.cc\<close>) and the output handler (\<open>src/src/output-handler.cc\<close>)
  that starts, stops and triggers the writers.

  \<^item> What is written is a list of file names with their contents. The pages, scripts and icons that the
    build generates are fields of \<open>html_data\<close>.
  \<^item> \<open>html_env\<close> is the directory the global index is made from, the date, and the escaping of
    \<open>libcurl\<close>.
  \<^item> \<open>None\<close> is a panic or an access outside of a string.
\<close>

section \<open>The HTML writer\<close>

record html_data =
  hd_css :: string
  hd_icon_amber :: string
  hd_icon_glass :: string
  hd_source_file :: string
  hd_index :: string
  hd_handlebars :: string
  hd_kcov :: string
  hd_jquery :: string
  hd_tablesorter :: string
  hd_tablesorter_widgets :: string
  hd_tablesorter_theme :: string

record html_env =
  he_date :: string
  he_readdir :: "string list option"
  he_islnk :: "string \<Rightarrow> bool option"
  he_curl_escape :: "string \<Rightarrow> string option"

record HtmlWriter =
  hw_outDirectory :: string
  hw_indexDirectory :: string
  hw_summaryDbFileName :: string
  hw_name :: string
  hw_includeInTotals :: bool

type_synonym out_files = "(string \<times> string) list"

definition mk_HtmlWriter :: "string \<Rightarrow> string \<Rightarrow> string \<Rightarrow> bool \<Rightarrow> HtmlWriter" where
  "mk_HtmlWriter indexDirectory outDirectory name includeInTotals =
     \<lparr> hw_outDirectory = outDirectory @ ''/'', hw_indexDirectory = indexDirectory @ ''/'',
       hw_summaryDbFileName = outDirectory @ ''/summary.db'', hw_name = name, hw_includeInTotals = includeInTotals \<rparr>"

definition escape_url :: "(string \<Rightarrow> string option) \<Rightarrow> string \<Rightarrow> string" where
  "escape_url curl_escape s =
     snd (foldl (\<lambda>(delim, out) el.
            (''/'', out @ delim @ (case curl_escape (c_str el) of None \<Rightarrow> el | Some p \<Rightarrow> c_str p)))
          ([], []) (split_string s ''/''))"

definition colorFromPercent :: "wr_conf \<Rightarrow> fp \<Rightarrow> string" where
  "colorFromPercent c percent =
     (if dbl_ge_int percent (wc_high_limit c) then ''lineCov''
      else if dbl_gt_int percent (wc_low_limit c) then ''linePartCov''
      else ''lineNoCov'')"

definition js_member :: "string \<Rightarrow> string \<Rightarrow> string" where
  "js_member name val = quoted name @ '':'' @ quoted val"

definition getIndexHeader :: "wr_conf \<Rightarrow> html_env \<Rightarrow> string \<Rightarrow> string \<Rightarrow> string \<Rightarrow> u32 \<Rightarrow> u32 \<Rightarrow> string" where
  "getIndexHeader c he linkName titleName summaryName lines executedLines =
     (let percent = (if lines \<noteq> 0 then percent_of executedLines lines else (0, 1))
      in ''{'' @ js_member ''link'' (escape_url (he_curl_escape he) linkName) @ '','' @
         js_member ''title'' titleName @ '','' @ js_member ''summary_name'' summaryName @ '','' @
         js_member ''covered_class'' (colorFromPercent c percent) @ '','' @
         js_member ''covered'' (fmt_f 1 percent) @ '','' @
         js_member ''covered_lines'' (fmt_d executedLines) @ '','' @
         js_member ''uncovered_lines'' (fmt_d (lines - executedLines)) @ '','' @
         quoted ''total_lines'' @ '' : '' @ quoted (fmt_d lines) @ ''},'' @ nl)"

definition getHeader :: "wr_conf \<Rightarrow> html_env \<Rightarrow> u32 \<Rightarrow> u32 \<Rightarrow> string option" where
  "getHeader c he lines executedLines =
     map_option (\<lambda>command.
       ''var percent_low = '' @ fmt_d (wc_low_limit c) @ '';'' @ ''var percent_high = '' @ fmt_d (wc_high_limit c) @ '';'' @ nl @
       ''var header = {'' @ '' '' @ quoted ''command'' @ '' : '' @ quoted (c_str command) @ '','' @
       '' '' @ quoted ''date'' @ '' : '' @ quoted (he_date he) @ '','' @
       '' '' @ quoted ''instrumented'' @ '' : '' @ fmt_d lines @ '','' @
       '' '' @ quoted ''covered'' @ '' : '' @ fmt_d executedLines @ '','' @ ''};'' @ nl) (escape_json (wc_command_name c))"

definition lineClass :: "rep_env \<Rightarrow> LineExecutionCount \<Rightarrow> string" where
  "lineClass e cnt =
     (if e_maxPossibleHits e = HITS_UNLIMITED \<or> e_maxPossibleHits e = HITS_SINGLE
      then (if lec_hits cnt \<noteq> 0 then ''lineCov'' else ''lineNoCov'')
      else if lec_hits cnt = lec_possibleHits cnt then ''lineCov''
      else if lec_hits cnt \<noteq> 0 then ''linePartCov''
      else ''lineNoCov'')"

definition pad_left :: "nat \<Rightarrow> string \<Rightarrow> string" where
  "pad_left n s = replicate (n - length s) (CHR '' '') @ s"

definition html_line_counts :: "rep_env \<Rightarrow> Reporter \<Rightarrow> wfile \<Rightarrow> u32 \<Rightarrow> string" where
  "html_line_counts e r file n =
     (if lineIsCode r (wf_name file) n
      then let cnt = getLineExecutionCount e r (wf_name file) n
           in '','' @ js_member ''class'' (lineClass e cnt) @ '','' @ js_member ''hits'' (fmt_u (lec_hits cnt)) @ '','' @
              (if lec_order cnt \<noteq> 0 then js_member ''order'' (fmt_nat (unat (lec_order cnt))) @ '','' else []) @
              (if e_maxPossibleHits e \<noteq> HITS_SINGLE
               then js_member ''possible_hits'' (fmt_u (lec_possibleHits cnt)) @ '','' else [])
      else [])"

definition line_text :: "wfile \<Rightarrow> u32 \<Rightarrow> string" where
  "line_text file n = (if n \<noteq> 0 \<and> unat n \<le> length (wf_lineMap file) then wf_lineMap file ! (unat n - 1) else [])"

fun html_lines :: "rep_env \<Rightarrow> Reporter \<Rightarrow> wfile \<Rightarrow> u32 list \<Rightarrow> string option" where
  "html_lines e r file [] = Some []"
| "html_lines e r file (n # ns) =
     Option.bind (escape_json (line_text file n)) (\<lambda>line.
     Option.bind (html_lines e r file ns) (\<lambda>rest.
       Some (''{'' @ js_member ''lineNum'' (pad_left 5 (fmt_u n)) @ '','' @ quoted ''line'' @ '':'' @ quoted line @
             html_line_counts e r file n @ ''},'' @ nl @ rest)))"

definition html_writeOne ::
  "html_data \<Rightarrow> wr_conf \<Rightarrow> html_env \<Rightarrow> rep_env \<Rightarrow> Reporter \<Rightarrow> HtmlWriter \<Rightarrow> wfile \<Rightarrow> (out_files \<times> wfile) option" where
  "html_writeOne gd c he e r hw file =
     Option.bind (html_lines e r file (line_numbers file)) (\<lambda>lines.
     case count_lines e r file of (nExecutedLines, nCodeLines) \<Rightarrow>
     Option.bind (getHeader c he nCodeLines nExecutedLines) (\<lambda>header.
       Some ([(hw_outDirectory hw @ ''/'' @ wf_jsonOutFileName file,
               ''var data = {lines:['' @ nl @ lines @ '']};'' @ nl @ header @ ''var merged_data = [];'' @ nl),
              (hw_outDirectory hw @ ''/'' @ wf_outFileName file,
               ''<script type='' @ quoted ''text/javascript'' @ '' src='' @ quoted (wf_jsonOutFileName file) @ ''></script>'' @ nl @
               hd_source_file gd)], store_counts e r file)))"

text \<open>The loop over the strip level, left when no slash is left.\<close>

fun strip_levels :: "nat \<Rightarrow> string \<Rightarrow> string" where
  "strip_levels 0 path = path"
| "strip_levels (Suc i) path =
     (case str_rfind_from path ''/'' (length path) of
        None \<Rightarrow> path
      | Some slashPos \<Rightarrow> strip_levels i (str_substr path 0 slashPos))"

definition list_name :: "wr_conf \<Rightarrow> string \<Rightarrow> string \<Rightarrow> string" where
  "list_name c commonPath name =
     (if str_find name commonPath \<noteq> None \<and> commonPath \<noteq> [] \<and> wc_path_strip_level c \<noteq> - 1
      then let pathToRemove = strip_levels (unat (wc_path_strip_level c)) commonPath
           in (if pathToRemove = [] then [] else ''[...]'') @ drop (length pathToRemove) name
      else name)"

definition html_writeIndex ::
  "html_data \<Rightarrow> wr_conf \<Rightarrow> html_env \<Rightarrow> rep_env \<Rightarrow> Reporter \<Rightarrow> HtmlWriter \<Rightarrow> Writer \<Rightarrow> out_files option" where
  "html_writeIndex gd c he e r hw w =
     (let entries = concat (map (\<lambda>(_, f). getIndexHeader c he (wf_outFileName f) (wf_fileName f)
                      (list_name c (w_commonPath w) (wf_name f)) (wf_codeLines f) (wf_executedLines f)) (w_files w))
      in map_option (\<lambda>header.
           [(hw_outDirectory hw @ ''index.js'',
             ''var data = {files:['' @ nl @ entries @ '']};'' @ nl @ header @ ''var merged_data = [];'' @ nl),
            (hw_outDirectory hw @ ''index.html'', hd_index gd),
            (hw_summaryDbFileName hw,
             bytes_to_string (marshalSummary (e_little_endian e) (getExecutionSummary e r) (hw_includeInTotals hw) (hw_name hw)))])
         (getHeader c he (total_code (w_files w)) (total_executed (w_files w))))"

record global_index =
  gx_out :: string
  gx_merged :: string
  gx_totalCode :: u32
  gx_totalExecuted :: u32

definition global_index_entry ::
  "wr_conf \<Rightarrow> html_env \<Rightarrow> rep_env \<Rightarrow> string \<Rightarrow> global_index \<Rightarrow> string \<Rightarrow> global_index" where
  "global_index_entry c he e idx gx d_name =
     (let curDir = idx @ d_name; cur = curDir @ ''/summary.db''
      in if he_islnk he curDir \<noteq> Some False then gx
         else if \<not> e_exists e cur then gx
         else case e_read e cur of
           None \<Rightarrow> gx
         | Some data \<Rightarrow>
             (case unMarshalSummary (e_little_endian e) data of
                None \<Rightarrow> gx
              | Some (summary, includeInTotals, name) \<Rightarrow>
                  let datum = getIndexHeader c he (d_name @ ''/index.html'') name name (es_lines summary) (es_executedLines summary);
                      gx1 = (if includeInTotals
                             then gx\<lparr>gx_totalCode := gx_totalCode gx + es_lines summary,
                                     gx_totalExecuted := gx_totalExecuted gx + es_executedLines summary\<rparr> else gx)
                  in if name = wc_merged_name c then gx1\<lparr>gx_merged := gx_merged gx1 @ datum\<rparr>
                     else gx1\<lparr>gx_out := gx_out gx1 @ datum\<rparr>))"

definition html_writeGlobalIndex ::
  "html_data \<Rightarrow> wr_conf \<Rightarrow> html_env \<Rightarrow> rep_env \<Rightarrow> HtmlWriter \<Rightarrow> out_files option" where
  "html_writeGlobalIndex gd c he e hw =
     Option.bind (he_readdir he) (\<lambda>names.
       let gx = foldl (global_index_entry c he e (hw_indexDirectory hw))
                  \<lparr> gx_out = ''var data = {files:['' @ nl, gx_merged = [], gx_totalCode = 0, gx_totalExecuted = 0 \<rparr> names
       in map_option (\<lambda>header.
            [(hw_indexDirectory hw @ ''index.js'', gx_out gx @ ''], merged_files:['' @ gx_merged gx @ '']};'' @ nl @ header),
             (hw_indexDirectory hw @ ''index.html'', hd_index gd)])
          (getHeader c he (gx_totalCode gx) (gx_totalExecuted gx)))"

fun html_writeFiles ::
  "html_data \<Rightarrow> wr_conf \<Rightarrow> html_env \<Rightarrow> rep_env \<Rightarrow> Reporter \<Rightarrow> HtmlWriter \<Rightarrow> (string \<times> wfile) list \<Rightarrow>
   (out_files \<times> (string \<times> wfile) list) option" where
  "html_writeFiles gd c he e r hw [] = Some ([], [])"
| "html_writeFiles gd c he e r hw ((n, f) # fs) =
     Option.bind (html_writeOne gd c he e r hw f) (\<lambda>(out, f').
     Option.bind (html_writeFiles gd c he e r hw fs) (\<lambda>(outs, fs').
       Some (out @ outs, (n, f') # fs')))"

definition html_write ::
  "html_data \<Rightarrow> wr_conf \<Rightarrow> html_env \<Rightarrow> rep_env \<Rightarrow> Reporter \<Rightarrow> HtmlWriter \<Rightarrow> Writer \<Rightarrow> (out_files \<times> Writer) option" where
  "html_write gd c he e r hw w0 =
     Option.bind (html_writeFiles gd c he e r hw (w_files w0)) (\<lambda>(outs, fs).
       let w1 = setupCommonPaths (w0\<lparr>w_files := fs\<rparr>)
       in Option.bind (html_writeIndex gd c he e r hw w1) (\<lambda>index.
          Option.bind (if hw_includeInTotals hw then html_writeGlobalIndex gd c he e hw else Some []) (\<lambda>global.
            Some (outs @ index @ global, w1))))"

definition writeHelperFiles :: "html_data \<Rightarrow> (string \<Rightarrow> string option) \<Rightarrow> wr_conf \<Rightarrow> string \<Rightarrow> out_files" where
  "writeHelperFiles gd read c dir =
     (let css = (if wc_css_file c \<noteq> []
                 then (case read (wc_css_file c) of None \<Rightarrow> hd_css gd | Some p \<Rightarrow> p) else hd_css gd)
      in map (\<lambda>(name, data). (dir @ name, data))
         [(''/amber.png'', hd_icon_amber gd), (''/glass.png'', hd_icon_glass gd), (''/bcov.css'', css),
          (''/data/amber.png'', hd_icon_amber gd), (''/data/glass.png'', hd_icon_glass gd), (''/data/bcov.css'', css),
          (''/data/js/handlebars.js'', hd_handlebars gd), (''/data/js/kcov.js'', hd_kcov gd),
          (''/data/js/jquery.min.js'', hd_jquery gd), (''/data/js/tablesorter.min.js'', hd_tablesorter gd),
          (''/data/js/jquery.tablesorter.widgets.min.js'', hd_tablesorter_widgets gd),
          (''/data/tablesorter-theme.css'', hd_tablesorter_theme gd)])"

definition html_onStartup :: "html_data \<Rightarrow> (string \<Rightarrow> string option) \<Rightarrow> wr_conf \<Rightarrow> HtmlWriter \<Rightarrow> out_files" where
  "html_onStartup gd read c hw =
     writeHelperFiles gd read c (hw_indexDirectory hw) @ writeHelperFiles gd read c (hw_outDirectory hw)"

section \<open>The output handler\<close>

datatype writer_call = OnStartup nat | OnStop nat | DoWrite nat

record OutputHandler =
  oh_baseDirectory :: string
  oh_outDirectory :: string
  oh_summaryDbFileName :: string
  oh_writers :: "nat list"
  oh_outputInterval :: u32
  oh_lastTimestamp :: u64

definition mk_OutputHandler :: "Configuration \<Rightarrow> u64 \<Rightarrow> conf_error + OutputHandler" where
  "mk_OutputHandler c now =
     rbind (keyAsString c ''out-directory'') (\<lambda>base.
     rbind (keyAsString c ''target-directory'') (\<lambda>target.
     rbind (keyAsInt c ''output-interval'') (\<lambda>interval.
       Inr \<lparr> oh_baseDirectory = base, oh_outDirectory = target @ ''/'', oh_summaryDbFileName = target @ ''/'' @ ''/summary.db'',
             oh_writers = [], oh_outputInterval = interval, oh_lastTimestamp = now \<rparr>)))"

definition registerWriter :: "OutputHandler \<Rightarrow> nat \<Rightarrow> OutputHandler" where
  "registerWriter oh w = oh\<lparr>oh_writers := oh_writers oh @ [w]\<rparr>"

definition oh_start :: "OutputHandler \<Rightarrow> writer_call list" where
  "oh_start oh = map OnStartup (oh_writers oh)"

definition oh_produce :: "OutputHandler \<Rightarrow> writer_call list" where
  "oh_produce oh = map DoWrite (oh_writers oh)"

definition oh_stop :: "OutputHandler \<Rightarrow> writer_call list" where
  "oh_stop oh = map OnStop (oh_writers oh) @ oh_produce oh"

text \<open>\<open>now\<close> is the time before the reports are produced and \<open>later\<close> the time after it.\<close>

definition oh_onTick :: "OutputHandler \<Rightarrow> u64 \<Rightarrow> u64 \<Rightarrow> writer_call list \<times> OutputHandler" where
  "oh_onTick oh now later =
     (if oh_outputInterval oh = 0 then ([], oh)
      else if now - oh_lastTimestamp oh \<ge> ucast (oh_outputInterval oh)
      then (oh_produce oh, oh\<lparr>oh_lastTimestamp := later\<rparr>)
      else ([], oh))"

end
