(* ===== verification/Kcov_Main.thy ===== *)
theory Kcov_Main
  imports Kcov_Html Kcov_Script Kcov_Collector Kcov_SystemMode
begin

text \<open>
  The main program (\<open>src/src/main.cc\<close>): which components a run is put together from, the system mode
  that goes through a directory tree, and how the events of a script engine reach the reporter.

  \<^item> Directories are lists of entries, in the order of \<open>readdir\<close>, with the mode \<open>lstat\<close> gives.
  \<^item> The order of the steps of a run, the daemon mode with its FIFO and the writing of the output
    directories are in \<open>Kcov_MainRun\<close>.
\<close>

section \<open>The writers of a run\<close>

datatype writer_kind =
    WHtml | WJson | WCobertura | WSonarqube | WCodecov | WCoveralls
  | WMergeHtml | WMergeJson | WMergeCobertura | WMergeSonarqube | WMergeCodecov | WMergeCoveralls | WMergeParser

definition is_other_coveree :: "string \<Rightarrow> string \<Rightarrow> bool" where
  "is_other_coveree binaryName name =
     (\<not> (binaryName = name \<or>
          (length name > length binaryName \<and> str_find name binaryName = Some 0 \<and> name ! length binaryName = CHR ''.'')))"

text \<open>\<open>metadata name\<close> are the entries of the metadata directory below \<open>name\<close>, if there is one.\<close>

definition countMetadata :: "string \<Rightarrow> string list option \<Rightarrow> (string \<Rightarrow> string list option) \<Rightarrow> u32" where
  "countMetadata binaryName base metadata =
     (case base of
        None \<Rightarrow> 0
      | Some names \<Rightarrow>
          foldl (\<lambda>out name.
            if \<not> is_other_coveree binaryName name then out
            else case metadata name of
              None \<Rightarrow> out
            | Some ds \<Rightarrow> out + (if (of_nat (length (filter (\<lambda>d. \<not> prefix ''.'' d) ds)) :: u32) \<noteq> 0 then 1 else 0)) 0 names)"

definition run_writers :: "u32 \<Rightarrow> bool \<Rightarrow> u32 \<Rightarrow> writer_kind list" where
  "run_writers runningMode coberturaOnly nMetadata =
     (if runningMode \<noteq> MODE_COLLECT_ONLY
      then (if \<not> coberturaOnly
            then (if nMetadata > 0
                  then [WMergeHtml, WMergeJson, WMergeCobertura, WMergeSonarqube, WMergeCoveralls, WMergeCodecov]
                  else [WCoveralls]) @ [WCobertura, WHtml, WJson, WSonarqube, WCodecov]
            else [WCobertura])
      else []) @
     (if \<not> coberturaOnly then [WMergeParser] else [])"

definition merge_writers :: "writer_kind list" where
  "merge_writers =
     [WMergeParser, WMergeHtml, WMergeJson, WMergeCobertura, WMergeSonarqube, WMergeCoveralls, WMergeCodecov]"

section \<open>What \<open>main\<close> runs\<close>

datatype run_kind = RunMerge | RunSystemRecord | RunSystemReport | RunKcov u32

definition main_run :: "Configuration \<Rightarrow> conf_error + run_kind" where
  "main_run c =
     rbind (keyAsInt c ''running-mode'') (\<lambda>mode.
       Inr (if mode = MODE_MERGE_ONLY then RunMerge
            else if mode = MODE_SYSTEM_RECORD then RunSystemRecord
            else if mode = MODE_SYSTEM_REPORT then RunSystemReport
            else RunKcov mode))"

section \<open>System mode\<close>

datatype fs_node = FReg string u32 | FDir string u32 "fs_node list option" | FOther string

definition is_exec :: "u32 \<Rightarrow> bool" where
  "is_exec mode = (mode AND 0x49 \<noteq> 0)"

text \<open>The files to instrument: directory, file, mode of the directory and of the file.\<close>

fun record_directory :: "string \<Rightarrow> u32 \<Rightarrow> fs_node list \<Rightarrow> (string \<times> string \<times> u32 \<times> u32) list" where
  "record_directory base mode [] = []"
| "record_directory base mode (FReg name m # ns) =
     (if name = ''.'' \<or> name = ''..'' then []
      else if is_exec m then [(base, base @ ''/'' @ name, mode, m)] else []) @ record_directory base mode ns"
| "record_directory base mode (FDir name m sub # ns) =
     (if name = ''.'' \<or> name = ''..'' then []
      else case sub of None \<Rightarrow> [] | Some ds \<Rightarrow> record_directory (base @ ''/'' @ name) m ds) @
     record_directory base mode ns"
| "record_directory base mode (FOther name # ns) = record_directory base mode ns"

text \<open>The configuration of the child that instruments one file; \<open>None\<close> is a directory that is too short.\<close>

definition record_file_conf ::
  "Configuration \<Rightarrow> string \<Rightarrow> string \<Rightarrow> u32 \<Rightarrow> conf_error + (string \<times> Configuration) option" where
  "record_file_conf c dir file mode =
     rbind (keyAsString c ''binary-path'') (\<lambda>bp.
     rbind (keyAsString c ''binary-name'') (\<lambda>bn.
     rbind (keyAsString c ''out-directory'') (\<lambda>out.
       let rootDir = bp @ bn
       in if length dir < length rootDir then Inr None
          else case dir_concat out (drop (length rootDir) dir) of
            None \<Rightarrow> Inl EUndefined
          | Some dstDir \<Rightarrow>
              (case dir_concat out (drop (length rootDir) file) of
                 None \<Rightarrow> Inl EUndefined
               | Some dstFile \<Rightarrow>
                   Inr (Some (dstDir,
                     setKey (setKey (setKey (setKey c ''system-mode-write-file'' (KStr dstFile))
                       ''system-mode-write-file-mode'' (KInt (mode AND 0xfff)))
                       ''binary-name'' (KStr file)) ''binary-path'' (KStr [])))))))"

definition optionsStringToConfigurationVector :: "string \<Rightarrow> string list" where
  "optionsStringToConfigurationVector s =
     (let parts = split_string s '' '' in if length parts \<noteq> 6 then [] else parts)"

definition report_file_conf :: "Configuration \<Rightarrow> string \<Rightarrow> string \<Rightarrow> string \<Rightarrow> conf_error + Configuration" where
  "report_file_conf c file data_filename data_options =
     rbind (keyAsString c ''out-directory'') (\<lambda>out.
       let (path, name) = split_path data_filename;
           c1 = setKey c ''system-mode-read-results-file'' (KStr file);
           c2 = setKey c1 ''binary-name'' (KStr name);
           c3 = setKey c2 ''binary-path'' (KStr path);
           c4 = setKey c3 ''target-directory'' (KStr (out @ ''/'' @ name));
           options = optionsStringToConfigurationVector data_options
       in Inr (if length options = 6
               then setKey (setKey (setKey (setKey (setKey (setKey c4
                      ''include-pattern'' (KStr (options ! 0))) ''exclude-pattern'' (KStr (options ! 1)))
                      ''include-path'' (KStr (options ! 2))) ''exclude-path'' (KStr (options ! 3)))
                      ''exclude-line'' (KStr (options ! 4))) ''exclude-region'' (KStr (options ! 5))
               else c4))"

section \<open>From the engine to the reporter\<close>

text \<open>
  A run with a script engine: the engine is also the parser, the reporter listens to its files and lines
  and, as listener 0 of the collector, to the addresses that are hit. \<open>db\<close> is the coverage database of
  an earlier run.
\<close>

fun addr_hits :: "rep_env \<Rightarrow> Reporter \<Rightarrow> col_out list \<Rightarrow> Reporter option" where
  "addr_hits e r [] = Some r"
| "addr_hits e r (CAddressHit l addr hits # outs) =
     (if l = 0 then Option.bind (onAddressHit e r addr hits) (\<lambda>(r1, _). addr_hits e r1 outs) else addr_hits e r outs)"
| "addr_hits e r (_ # outs) = addr_hits e r outs"

definition deliver ::
  "rep_env \<Rightarrow> collector_conf \<Rightarrow> (byte list \<times> u64) option \<Rightarrow> Collector \<times> Reporter \<Rightarrow> script_event \<Rightarrow>
   (Collector \<times> Reporter) option" where
  "deliver e cf db s ev =
     (let (c, r) = s;
          event = (\<lambda>t d a. case onEvent cf c (mk_Event t d a) of (c1, outs) \<Rightarrow> map_option (Pair c1) (addr_hits e r outs))
      in case ev of
        SFile _ \<Rightarrow> map_option (\<lambda>(r1, _). (c, r1)) (onFile e r db)
      | SLine fp nr addr \<Rightarrow> map_option (\<lambda>(r1, _). (c, r1)) (onLine e r fp nr addr)
      | SBreakpoint a \<Rightarrow> event ev_breakpoint (- 1) a
      | SExitFirst code \<Rightarrow> event ev_exit_first_process code 0
      | SError \<Rightarrow> event ev_error (- 1) 0)"

fun deliver_all ::
  "rep_env \<Rightarrow> collector_conf \<Rightarrow> (byte list \<times> u64) option \<Rightarrow> Collector \<times> Reporter \<Rightarrow> script_event list \<Rightarrow>
   (Collector \<times> Reporter) option" where
  "deliver_all e cf db s [] = Some s"
| "deliver_all e cf db s (ev # evs) = Option.bind (deliver e cf db s ev) (\<lambda>s1. deliver_all e cf db s1 evs)"

end
