(* ===== verification/Kcov_Digits.thy ===== *)
theory Kcov_Digits
  imports Kcov_Utils
begin

text \<open>Numbers that are printed and read back: \<open>%u\<close>, \<open>%x\<close>, \<open>0x%016lx\<close> and \<open>strtoull\<close>.\<close>

lemma digit_val_dec: "d < 10 \<Longrightarrow> digit_val (char_of (48 + d)) = Some d"
  by (simp add: digit_val_def)

lemma digit_val_hex: "d < 16 \<Longrightarrow> digit_val (hex_digit d) = Some d"
  by (simp add: digit_val_def hex_digit_def)

lemma digits_value_snoc: "digits_value b (s @ [c]) = digits_value b s * b + the (digit_val c)"
  by (simp add: digits_value_def)

lemma digits_value_fmt_nat: "digits_value 10 (fmt_nat n) = n"
proof (induction n rule: fmt_nat.induct)
  case (1 n)
  show ?case
  proof (cases "n < 10")
    case True
    then show ?thesis by (subst fmt_nat.simps) (simp add: digits_value_def digit_val_dec)
  next
    case False
    with 1 show ?thesis by (subst fmt_nat.simps) (simp add: digits_value_snoc digit_val_dec)
  qed
qed

lemma fmt_nat_inj: "fmt_nat m = fmt_nat n \<Longrightarrow> m = n"
  by (metis digits_value_fmt_nat)

lemma fmt_nat_digits: "c \<in> set (fmt_nat n) \<Longrightarrow> is_digit_in 10 c"
proof (induction n rule: fmt_nat.induct)
  case (1 n)
  then show ?case
    by (subst (asm) (2) fmt_nat.simps) (auto simp: is_digit_in_iff digit_val_dec split: if_splits)
qed

lemma digit_char:
  assumes "is_digit_in 10 c" shows "\<not> isspace c" "c \<noteq> NUL" "c \<noteq> CHR ''-''" "c \<noteq> CHR ''+''"
proof -
  have "c \<noteq> d" if "\<not> is_digit_in 10 d" for d using assms that by auto
  then show "\<not> isspace c" "c \<noteq> NUL" "c \<noteq> CHR ''-''" "c \<noteq> CHR ''+''"
    by (auto simp: isspace_def NUL_def is_digit_in_def digit_val_def)
qed

lemma fmt_nat_no_NUL: "NUL \<notin> set (fmt_nat n)"
  using fmt_nat_digits digit_char(2) by blast

lemma fmt_nat_length: "n < 10 ^ k \<Longrightarrow> 0 < k \<Longrightarrow> length (fmt_nat n) \<le> k"
proof (induction n arbitrary: k rule: fmt_nat.induct)
  case (1 n)
  show ?case
  proof (cases "n < 10")
    case True
    then show ?thesis using 1 by (subst fmt_nat.simps) simp
  next
    case False
    then obtain k' where k: "k = Suc k'" "0 < k'" using "1.prems" by (cases k; cases "k - 1") auto
    then have "n div 10 < 10 ^ k'" using "1.prems" by (simp add: less_mult_imp_div_less mult.commute)
    then have "length (fmt_nat (n div 10)) \<le> k'" using "1.IH" False k by blast
    then show ?thesis using False k by (subst fmt_nat.simps) simp
  qed
qed

lemma fmt_u_length: "length (fmt_u w) \<le> 10"
proof -
  have "unat w < 2 ^ 32" using unsigned_less [of w] by simp
  also have "(2::nat) ^ 32 < 10 ^ 10" by simp
  finally show ?thesis unfolding fmt_u_def by (intro fmt_nat_length) simp_all
qed

lemma fmt_nat_takeWhile: "takeWhile (is_digit_in 10) (fmt_nat n) = fmt_nat n"
  by (simp add: takeWhile_eq_all_conv fmt_nat_digits)

lemma fmt_nat_dropWhile: "dropWhile isspace (fmt_nat n) = fmt_nat n"
proof -
  obtain c s where cs: "fmt_nat n = c # s" using fmt_nat_nonempty by (meson neq_Nil_conv)
  then have "is_digit_in 10 c" using fmt_nat_digits [of c n] by simp
  then show ?thesis using cs digit_char(1) by simp
qed

lemma digits_value_fmt_hex: "digits_value 16 (fmt_hex n) = n"
proof (induction n rule: fmt_hex.induct)
  case (1 n)
  show ?case
  proof (cases "n < 16")
    case True
    then show ?thesis by (subst fmt_hex.simps) (simp add: digits_value_def digit_val_hex)
  next
    case False
    with 1 show ?thesis by (subst fmt_hex.simps) (simp add: digits_value_snoc digit_val_hex)
  qed
qed

lemma fmt_hex_digits: "c \<in> set (fmt_hex n) \<Longrightarrow> is_digit_in 16 c"
proof (induction n rule: fmt_hex.induct)
  case (1 n)
  then show ?case
    by (subst (asm) (2) fmt_hex.simps) (auto simp: is_digit_in_iff digit_val_hex split: if_splits)
qed

lemma digits_value_zeros: "digits_value b (replicate k (CHR ''0'') @ s) = digits_value b s"
proof -
  have "foldl (\<lambda>n c. n * b + the (digit_val c)) 0 (replicate k (CHR ''0'')) = 0"
    by (induction k) (auto simp: digit_val_def)
  then show ?thesis by (simp add: digits_value_def)
qed

lemma pad0_hex:
  "digits_value 16 (pad0 w (fmt_hex n)) = n" "c \<in> set (pad0 w (fmt_hex n)) \<Longrightarrow> is_digit_in 16 c"
  "pad0 w (fmt_hex n) \<noteq> []"
  using fmt_hex_digits fmt_hex_nonempty [of n]
  by (auto simp: pad0_def digits_value_zeros digits_value_fmt_hex is_digit_in_iff digit_val_def)

text \<open>\<open>0x\<close> and hexadecimal digits are read back in full.\<close>

lemma stoull_hex:
  assumes "s \<noteq> []" "\<forall>c \<in> set s. is_digit_in 16 c" "digits_value 16 s < 2 ^ 64"
  shows "stoull (''0x'' @ s) 16 = Inr (of_nat (digits_value 16 s), length (''0x'' @ s))"
proof -
  have d: "takeWhile (is_digit_in 16) s = s" using assms(2) by (simp add: takeWhile_eq_all_conv)
  have "hex_prefix (''0x'' @ s)" using assms(1,2) by (cases s) (auto simp: hex_prefix_def)
  moreover have "\<not> isspace (CHR ''0'')" by (simp add: isspace_def)
  ultimately show ?thesis using assms(1,3) by (simp add: stoull_def Let_def d)
qed

lemma hex_string_to_integer:
  assumes "n < 2 ^ 64"
  shows "string_is_integer (''0x'' @ pad0 w (fmt_hex n)) 16"
    and "string_to_integer (''0x'' @ pad0 w (fmt_hex n)) 16 = Inr (of_nat n)"
  using stoull_hex [of "pad0 w (fmt_hex n)"] pad0_hex(2) [of _ w n] pad0_hex(1,3) [of w n] assms
  by (simp_all add: string_is_integer_def string_to_integer_def)


lemma fmt_hex_length: "0 < w \<Longrightarrow> n < 16 ^ w \<Longrightarrow> length (fmt_hex n) \<le> w"
proof (induction w arbitrary: n)
  case (Suc w)
  show ?case
  proof (cases "n < 16")
    case True
    then show ?thesis by (subst fmt_hex.simps) simp
  next
    case False
    have "0 < w" using False Suc.prems by (cases w) auto
    moreover have "n div 16 < 16 ^ w" using Suc.prems(2) by (simp add: less_mult_imp_div_less mult.commute)
    ultimately show ?thesis using Suc.IH False by (subst fmt_hex.simps) simp
  qed
qed simp

end
