(* ===== verification/Kcov_SysDaemon_Props.thy ===== *)
theory Kcov_SysDaemon_Props
  imports Kcov_SysDaemon Kcov_SystemMode_Props Kcov_Main Kcov_Digits
begin

text \<open>
  Properties of the system mode as a whole: the options recorded with a binary, and the way of a
  hit from the traced process through the daemon, its files and the engine to the report.
\<close>

section \<open>The index of an address\<close>

text \<open>The index the daemon has for an address is the last one it was recorded under.\<close>

lemma index_entries_other: "a \<notin> set as \<Longrightarrow> index_entries as i m a = m a"
  by (induction as i m rule: index_entries.induct) auto

lemma index_entries_Some:
  "a \<in> set as \<Longrightarrow> \<exists>k. index_entries as i m a = Some (i + of_nat k) \<and> k < length as \<and> as ! k = a \<and>
     (\<forall>j. k < j \<and> j < length as \<longrightarrow> as ! j \<noteq> a)"
proof (induction as i m rule: index_entries.induct)
  case (2 b as i m)
  show ?case
  proof (cases "a \<in> set as")
    case True
    with "2.IH" obtain k where k: "index_entries as (i + 1) (m(b \<mapsto> i)) a = Some (i + 1 + of_nat k)" "k < length as"
      "as ! k = a" "\<forall>j. k < j \<and> j < length as \<longrightarrow> as ! j \<noteq> a" by blast
    have "(b # as) ! j \<noteq> a" if "Suc k < j" "j < length (b # as)" for j
      using that k(4) by (cases j) auto
    with k show ?thesis by (intro exI [of _ "Suc k"]) (auto simp: ac_simps)
  next
    case False
    with "2.prems" have "b = a" by simp
    moreover have "(b # as) ! j \<noteq> a" if "0 < j" "j < length (b # as)" for j
      using that False by (cases j) auto
    ultimately show ?thesis using False by (intro exI [of _ 0]) (auto simp: index_entries_other)
  qed
qed simp

definition last_index :: "u64 list \<Rightarrow> nat \<Rightarrow> bool" where
  "last_index as k = (k < length as \<and> (\<forall>j. k < j \<and> j < length as \<longrightarrow> as ! j \<noteq> as ! k))"

lemma index_entries_Some0:
  "index_entries as 0 Map.empty a = Some i \<Longrightarrow> \<exists>k. i = of_nat k \<and> last_index as k \<and> as ! k = a"
  using index_entries_other [of a as 0 Map.empty] index_entries_Some [of a as 0 Map.empty]
  unfolding last_index_def by (cases "a \<in> set as") force+

lemma last_index_inj: "last_index as i \<Longrightarrow> last_index as j \<Longrightarrow> as ! i = as ! j \<Longrightarrow> i = j"
  unfolding last_index_def by (metis nat_neq_iff)

lemma index_entries_iff:
  assumes "length as < 2 ^ 32" "i < 2 ^ 32"
  shows "index_entries as 0 Map.empty a = Some (of_nat i) \<longleftrightarrow> last_index as i \<and> as ! i = a"
proof
  assume "index_entries as 0 Map.empty a = Some (of_nat i)"
  from index_entries_Some0 [OF this] obtain k where k: "(of_nat i :: u32) = of_nat k" "last_index as k" "as ! k = a"
    by blast
  then have "unat (of_nat i :: u32) = unat (of_nat k :: u32)" by simp
  then have "i = k" using assms k(2) by (simp add: unat_of_nat_small last_index_def)
  with k show "last_index as i \<and> as ! i = a" by simp
next
  assume l: "last_index as i \<and> as ! i = a"
  then have "a \<in> set as" by (auto simp: last_index_def)
  then obtain k where k: "index_entries as 0 Map.empty a = Some (of_nat k)" "k < length as" "as ! k = a"
    "\<forall>j. k < j \<and> j < length as \<longrightarrow> as ! j \<noteq> a" using index_entries_Some [of a as 0 Map.empty] by auto
  then have "last_index as k" by (simp add: last_index_def)
  with l k(3) have "k = i" using last_index_inj by blast
  with k(1) show "index_entries as 0 Map.empty a = Some (of_nat i)" by simp
qed

lemma last_index_exists: "a \<in> set as \<Longrightarrow> \<exists>k. last_index as k \<and> as ! k = a"
  using index_entries_Some [of a as 0 Map.empty] unfolding last_index_def by blast

section \<open>Hits in the bit map\<close>

lemma ph_onEvents_hits:
  assumes "smm_ok m" "\<And>a i. ph_indexByAddress h a = Some i \<Longrightarrow> i div 32 < smm_n_entries m"
  shows "smm_ok (foldl (ph_onEvent h) m evs) \<and> smm_n_entries (foldl (ph_onEvent h) m evs) = smm_n_entries m \<and>
    smm_filename (foldl (ph_onEvent h) m evs) = smm_filename m \<and> smm_options (foldl (ph_onEvent h) m evs) = smm_options m \<and>
    (\<forall>j. indexIsHit (foldl (ph_onEvent h) m evs) j \<longleftrightarrow>
      indexIsHit m j \<or> (\<exists>ev \<in> set evs. ev_type ev = ev_breakpoint \<and> ph_indexByAddress h (ev_addr ev) = Some j))"
  using assms
proof (induction evs arbitrary: m)
  case Nil
  then show ?case by simp
next
  case (Cons ev evs)
  let ?m = "ph_onEvent h m ev"
  have fields: "smm_n_entries ?m = smm_n_entries m" "smm_filename ?m = smm_filename m" "smm_options ?m = smm_options m"
    by (auto simp: ph_onEvent_def reportIndex_def Let_def split: option.splits)
  have "smm_ok ?m" using Cons.prems(1) reportIndex_spec by (auto simp: ph_onEvent_def split: option.splits)
  moreover have "indexIsHit ?m j \<longleftrightarrow>
      indexIsHit m j \<or> (ev_type ev = ev_breakpoint \<and> ph_indexByAddress h (ev_addr ev) = Some j)" for j
    using Cons.prems reportIndex_spec [OF Cons.prems(1)] by (auto simp: ph_onEvent_def split: option.splits)
  ultimately show ?case using Cons.IH [of ?m] Cons.prems(2) fields by auto
qed

lemma fresh_no_hits: "\<not> indexIsHit (mk_system_mode_memory fn opts n) j"
proof -
  have "replicate (unat n) (0 :: u32) ! unat (j div 32) = 0" if "\<not> n \<le> j div 32"
    using that by (intro nth_replicate) (simp only: not_le word_less_nat_alt)
  then show ?thesis by (auto simp: indexIsHit_def mk_system_mode_memory_def)
qed


section \<open>From the traced process to the report\<close>

text \<open>What the engine reports of a bit map, in the order of the indices.\<close>

lemma handleReadFile_events:
  assumes "keyAsString (sye_conf se) ''system-mode-read-results-file'' = Inr src"
    and "diskToMemory (sye_little_endian se) (sye_read_file se) src = Some (Some m)"
    and "se_listener e" "\<And>i. indexIsHit m (of_nat i) \<Longrightarrow> i < unat (smm_n_entries m * 32) \<Longrightarrow> i < length (se_indexToAddress e)"
  shows "handleReadFile se e = Some (map (\<lambda>i. mk_Event ev_breakpoint 0 (se_indexToAddress e ! i))
    (filter (\<lambda>i. indexIsHit m (of_nat i)) [0..<unat (smm_n_entries m * 32)]))"
proof -
  let ?is = "[0..<unat (smm_n_entries m * 32)]"
  let ?ev = "\<lambda>i. mk_Event ev_breakpoint 0 (se_indexToAddress e ! i)"
  have "bind_all (\<lambda>i. if indexIsHit m (of_nat i)
      then if i < length (se_indexToAddress e)
           then Some (sys_reportEvent e ev_breakpoint 0 (se_indexToAddress e ! i)) else None
      else Some []) ?is = Some (concat (map (\<lambda>i. if indexIsHit m (of_nat i) then [?ev i] else []) ?is))"
    using assms(3,4) by (intro bind_all_Some) (auto simp: sys_reportEvent_def)
  moreover have "concat (map (\<lambda>i. if indexIsHit m (of_nat i) then [?ev i] else []) xs) =
      map ?ev (filter (\<lambda>i. indexIsHit m (of_nat i)) xs)" for xs by (induction xs) auto
  ultimately show ?thesis using assms(1,2) by (simp add: handleReadFile_def)
qed

text \<open>The addresses with a hit, in the order of their last index.\<close>

lemma hit_addresses:
  fixes as :: "u64 list" and P :: "u64 \<Rightarrow> bool"
  defines "xs \<equiv> map ((!) as) (filter (\<lambda>i. last_index as i \<and> P (as ! i)) [0..<32 * length as])"
  shows "distinct xs" "set xs = {a \<in> set as. P a}"
proof -
  have "inj_on ((!) as) {i. last_index as i}" by (auto intro: inj_onI last_index_inj)
  then show "distinct xs" unfolding xs_def by (auto simp: distinct_map intro: inj_on_subset)
  have "a \<in> set xs" if a: "a \<in> set as" "P a" for a
  proof -
    obtain k where "last_index as k" "as ! k = a" using last_index_exists [OF a(1)] by blast
    moreover from this have "k \<in> set [0..<32 * length as]" by (simp add: last_index_def)
    ultimately show ?thesis using a(2) unfolding xs_def by (force simp: image_iff)
  qed
  then show "set xs = {a \<in> set as. P a}" unfolding xs_def by (auto simp: last_index_def)
qed

text \<open>The bit map of a binary after the events of its processes.\<close>

lemma daemon_bitmap:
  assumes "length as < 2 ^ 16"
    and "ph_attach \<lparr>sf_filename = fn, sf_options = opts, sf_id = ident, sf_data = d, sf_entries = as\<rparr> = (h, bps)"
    and "m = foldl (ph_onEvent h) (mk_system_mode_memory fn opts (of_nat (length as))) evs"
  shows "smm_ok m" "smm_n_entries m = of_nat (length as)" "smm_filename m = fn" "smm_options m = opts"
    and "i < 2 ^ 32 \<Longrightarrow> indexIsHit m (of_nat i) \<longleftrightarrow>
      last_index as i \<and> (\<exists>ev \<in> set evs. ev_type ev = ev_breakpoint \<and> ev_addr ev = as ! i)"
proof -
  let ?m0 = "mk_system_mode_memory fn opts (of_nat (length as))"
  have ix: "ph_indexByAddress h = index_entries as 0 Map.empty" using assms(2) by (auto simp: ph_attach_def)
  have "j div 32 < (of_nat (length as) :: u32)" if "index_entries as 0 Map.empty a = Some j" for a j
    using index_entries_Some0 [OF that] assms(1)
    by (auto simp: word_less_nat_alt unat_div_distrib unat_of_nat_small last_index_def)
  moreover have "smm_ok ?m0" "smm_n_entries ?m0 = of_nat (length as)" "smm_filename ?m0 = fn" "smm_options ?m0 = opts"
    by (simp_all add: smm_ok_def mk_system_mode_memory_def)
  ultimately show "smm_ok m" "smm_n_entries m = of_nat (length as)" "smm_filename m = fn" "smm_options m = opts"
    and "i < 2 ^ 32 \<Longrightarrow> indexIsHit m (of_nat i) \<longleftrightarrow>
      last_index as i \<and> (\<exists>ev \<in> set evs. ev_type ev = ev_breakpoint \<and> ev_addr ev = as ! i)"
    using ph_onEvents_hits [of ?m0 h evs] index_entries_iff [of as i] assms(1)
    by (auto simp: assms(3) ix fresh_no_hits)
qed

text \<open>
  Property C19. A binary is recorded with the (fewer than 65536) addresses of its lines, under a name and options without NUL, run under the daemon and
  reported: whatever events the daemon gets from the traced process, the file it writes makes the
  engine of the report, which has the same addresses, report exactly the recorded addresses a
  breakpoint was hit at, each once. Two lines with the same address share their index.
\<close>

theorem system_mode_hits:
  assumes "se_indexToAddress e = as" "length as < 2 ^ 16" "se_listener e"
    and "ph_attach \<lparr>sf_filename = fn, sf_options = opts, sf_id = ident, sf_data = d, sf_entries = as\<rparr> = (h, bps)"
    and "m = foldl (ph_onEvent h) (mk_system_mode_memory fn opts (of_nat (length as))) evs"
    and "NUL \<notin> set fn" "NUL \<notin> set opts" "length fn < 2 ^ 31"
    and "memoryToFile (sye_little_endian se) (markClean m) = Some buf"
    and "keyAsString (sye_conf se) ''system-mode-read-results-file'' = Inr src" "sye_read_file se src = Some buf"
  shows "\<exists>hits. handleReadFile se e = Some (map (mk_Event ev_breakpoint 0) hits) \<and> distinct hits \<and>
    set hits = {a \<in> set as. \<exists>ev \<in> set evs. ev_type ev = ev_breakpoint \<and> ev_addr ev = a}"
proof -
  define P where "P = (\<lambda>a. \<exists>ev \<in> set evs. ev_type ev = ev_breakpoint \<and> ev_addr ev = a)"
  note m = daemon_bitmap [OF assms(2,4,5)]
  let ?m1 = "m\<lparr>smm_dirtyCount := 0, smm_cleanCount := 0\<rparr>"
  have n: "unat (of_nat (length as) :: u32) = length as" using assms(2) by (intro unat_of_nat_small) simp
  have "smm_ok (markClean m)" "smm_n_entries (markClean m) = of_nat (length as)"
    "smm_filename (markClean m) = fn" "smm_options (markClean m) = opts"
    using m(1-4) by (simp_all add: markClean_def smm_ok_def)
  then have "fileToMemory (sye_little_endian se) buf = Some (Some ?m1)"
    using memoryToFile_roundtrip [of "markClean m" "sye_little_endian se"] assms(2,6-9) n
    by (auto simp: markClean_def)
  then have disk: "diskToMemory (sye_little_endian se) (sye_read_file se) src = Some (Some ?m1)"
    using assms(11) by (simp add: diskToMemory_def)
  have hits: "indexIsHit ?m1 (of_nat i) \<longleftrightarrow> last_index as i \<and> P (as ! i)" if "i < 2 ^ 32" for i
  proof -
    have "indexIsHit ?m1 (of_nat i) = indexIsHit m (of_nat i)" by (simp add: indexIsHit_def)
    then show ?thesis using m(5) [OF that] unfolding P_def by blast
  qed
  have n32: "unat (smm_n_entries ?m1 * 32) = 32 * length as"
    using assms(2) n m(2) by (simp add: unat_word_ariths)
  have "handleReadFile se e = Some (map (\<lambda>i. mk_Event ev_breakpoint 0 (as ! i))
      (filter (\<lambda>i. indexIsHit ?m1 (of_nat i)) [0..<32 * length as]))"
    using handleReadFile_events [OF assms(10) disk assms(3)] hits assms(1,2) n32 by (simp add: last_index_def)
  also have "filter (\<lambda>i. indexIsHit ?m1 (of_nat i)) [0..<32 * length as] =
      filter (\<lambda>i. last_index as i \<and> P (as ! i)) [0..<32 * length as]"
    using assms(2) by (intro filter_cong) (auto simp: hits)
  finally have "handleReadFile se e = Some (map (mk_Event ev_breakpoint 0)
      (map ((!) as) (filter (\<lambda>i. last_index as i \<and> P (as ! i)) [0..<32 * length as])))"
    by (simp add: comp_def)
  with hit_addresses [of as P] show ?thesis unfolding P_def by blast
qed


definition demo_events :: "Event list" where
  "demo_events = [mk_Event ev_breakpoint 5 0x2000, mk_Event ev_signal 0 0x1000, mk_Event ev_breakpoint 5 0x2000]"

definition demo_sys_conf :: Configuration where
  "demo_sys_conf = setKey mk_Configuration ''system-mode-read-results-file'' (KStr ''r'')"

theorem system_mode_hits_witness:
  "\<exists>m buf. m = foldl (ph_onEvent (fst (ph_attach \<lparr>sf_filename = ''f'', sf_options = [], sf_id = 9, sf_data = [],
         sf_entries = [0x1000, 0x2000, 0x2000]\<rparr>))) (mk_system_mode_memory ''f'' [] 3) demo_events \<and>
     memoryToFile True (markClean m) = Some buf \<and>
     handleReadFile \<lparr>sye_little_endian = True, sye_read_file = \<lambda>_. Some buf, sye_stat_mode = \<lambda>_. None,
         sye_hash_block = \<lambda>_. 0, sye_conf = demo_sys_conf\<rparr>
       ((mk_SystemModeEngine mode_read_file)\<lparr>se_indexToAddress := [0x1000, 0x2000, 0x2000], se_listener := True\<rparr>) =
     Some [mk_Event ev_breakpoint 0 0x2000]"
proof -
  let ?as = "[0x1000, 0x2000, 0x2000] :: u64 list"
  obtain h bps where h: "ph_attach \<lparr>sf_filename = ''f'', sf_options = [], sf_id = 9, sf_data = [], sf_entries = ?as\<rparr> = (h, bps)"
    by (cases "ph_attach \<lparr>sf_filename = ''f'', sf_options = [], sf_id = 9, sf_data = [], sf_entries = ?as\<rparr>") auto
  define m where "m = foldl (ph_onEvent h) (mk_system_mode_memory ''f'' [] (of_nat (length ?as))) demo_events"
  have "smm_ok m" "smm_n_entries m = 3" "smm_filename m = ''f''" "smm_options m = []"
    using daemon_bitmap(1-4) [OF _ h m_def] by simp_all
  then obtain buf where buf: "memoryToFile True (markClean m) = Some buf"
    using memoryToFile_roundtrip [of "markClean m" True] by (auto simp: markClean_def smm_ok_def NUL_def)
  let ?se = "\<lparr>sye_little_endian = True, sye_read_file = \<lambda>_. Some buf, sye_stat_mode = \<lambda>_. None,
         sye_hash_block = \<lambda>_. 0, sye_conf = demo_sys_conf\<rparr>"
  let ?e = "(mk_SystemModeEngine mode_read_file)\<lparr>se_indexToAddress := ?as, se_listener := True\<rparr>"
  have "keyAsString (sye_conf ?se) ''system-mode-read-results-file'' = Inr ''r''"
    by (simp add: demo_sys_conf_def keyAsString_def setKey_def notifyKeyListeners_def split: option.splits)
  then obtain hits where hits: "handleReadFile ?se ?e = Some (map (mk_Event ev_breakpoint 0) hits)" "distinct hits"
    "set hits = {a \<in> set ?as. \<exists>ev \<in> set demo_events. ev_type ev = ev_breakpoint \<and> ev_addr ev = a}"
    using system_mode_hits [of ?e ?as "''f''" "[]" 9 "[]" h bps m demo_events ?se buf "''r''"] h m_def buf
    by (auto simp: mk_SystemModeEngine_def NUL_def)
  from hits(3) have "set hits = {0x2000}" by (auto simp: demo_events_def mk_Event_def)
  with hits(2) have "hits = [0x2000]"
    by (metis distinct_length_2_or_more insert_not_empty list.exhaust list.set_intros(1,2) set_empty2 singletonD)
  with hits(1) h m_def buf show ?thesis by simp
qed


section \<open>The recorded options\<close>

lemma split_blocks: "\<forall>p \<in> set ps. d \<notin> set p \<Longrightarrow> split d (concat (map (\<lambda>p. p @ [d]) ps)) = ps"
proof (induction ps)
  case Nil
  then show ?case by simp
next
  case (Cons p ps)
  let ?s = "p @ d # concat (map (\<lambda>p. p @ [d]) ps)"
  have "takeWhile (\<lambda>c. c \<noteq> d) ?s = p" using Cons.prems by (auto intro: takeWhile_eq_all_conv [THEN iffD2] simp: takeWhile_tail)
  with Cons show ?case by (subst split.simps) auto
qed

text \<open>The six parts are found again when none of them has a blank.\<close>

lemma options_string_roundtrip:
  assumes "keyAsList c ''include-pattern'' = Inr ip" "keyAsList c ''exclude-pattern'' = Inr xp"
    and "keyAsList c ''include-path'' = Inr idp" "keyAsList c ''exclude-path'' = Inr xd"
    and "keyAsString c ''exclude-line'' = Inr xl" "keyAsString c ''exclude-region'' = Inr xr"
    and "\<forall>p \<in> set [keyListAsString ip, keyListAsString xp, keyListAsString idp, keyListAsString xd, xl, xr]. CHR '' '' \<notin> set p"
  shows "\<exists>s. getKcovOptionsString c = Inr s \<and> optionsStringToConfigurationVector s =
    [keyListAsString ip, keyListAsString xp, keyListAsString idp, keyListAsString xd, xl, xr]"
  using split_blocks [OF assms(7)] assms(1-6)
  by (simp add: getKcovOptionsString_def optionsStringToConfigurationVector_def split_string_def)

section \<open>Losses\<close>

text \<open>The thread that writes the bit maps stops before a last write: what is dirty then is lost.\<close>

lemma daemon_stop_loses:
  assumes "(i, m) \<in> set (dm_outputFiles d)" "isDirty m"
  shows "\<exists>d'. daemon_round se d STOPME = Some (d', []) \<and> output_round se d' = (d', []) \<and>
    (i, m) \<in> set (dm_outputFiles d') \<and> isDirty m"
  using assms by (simp add: daemon_round_def STOPME_def output_round_def)

text \<open>
  A process id beyond 16 bits is cut in the message: the daemon writes to another FIFO than the one
  the process waits at.
\<close>

lemma daemon_answers_elsewhere:
  assumes "connectToDaemon le ce = Some (readback, pipe, msg)" "unat (ce_pid ce) \<ge> 2 ^ 16"
    and "ce_getenv ce ''KCOV_SYSTEM_DESTINATION_DIR'' = Some dir"
  shows "readback \<noteq> dir @ ''/'' @ fmt_nat (unat (ucast (ce_pid ce) :: u16))"
proof -
  have "readback = dir @ ''/'' @ fmt_nat (unat (ce_pid ce))"
    using assms(1,3) by (auto simp: connectToDaemon_def Let_def split: if_splits option.splits)
  moreover have "unat (ucast (ce_pid ce) :: u16) < 2 ^ 16" using unsigned_less [of "ucast (ce_pid ce) :: u16"] by simp
  then have "unat (ce_pid ce) \<noteq> unat (ucast (ce_pid ce) :: u16)" using assms(2) by linarith
  ultimately show ?thesis using fmt_nat_inj by fastforce
qed

end
