(* ===== verification/Kcov_Kernel.thy ===== *)
theory Kcov_Kernel
  imports Kcov_Digits Kcov_Collector
begin

text \<open>
  Coverage of the Linux kernel: the engine (\<open>src/src/engines/kernel-engine.cc\<close>) and the kernel module
  it talks to through two debugfs files (\<open>src/src/kernel/kprobe-coverage.c\<close>).

  \<^item> The entries of the module are numbered in the order of their allocation. The three lists hold
    the live ones; an access to an entry that is on none of them is a use after free, \<open>None\<close>.
  \<^item> The work queue has one thread. A work item can be queued again as soon as it has started,
    and the probe of its entry can trigger until it is unregistered.
  \<^item> Whether an allocation succeeds, where modules are loaded and which addresses
    \<open>register_kprobe\<close> accepts, the page size and whether the user's buffer is readable are
    arguments.
\<close>

section \<open>The module\<close>

record kprobe_coverage_entry =
  kce_id :: nat
  kce_addr :: u64
  kce_name_index :: int
  kce_base_addr :: u64

record kprobe_coverage =
  kpc_deferred :: "kprobe_coverage_entry list"
  kpc_pending :: "kprobe_coverage_entry list"
  kpc_hit :: "kprobe_coverage_entry list"
  kpc_module_names :: "string list"
  kpc_next :: nat
  kpc_queue :: "nat list"
  kpc_running :: "nat option"

definition kpc_init :: kprobe_coverage where
  "kpc_init = \<lparr>kpc_deferred = [], kpc_pending = [], kpc_hit = [], kpc_module_names = [], kpc_next = 0,
     kpc_queue = [], kpc_running = None\<rparr>"

record kernel_env =
  kn_alloc :: bool
  kn_find_module :: "string \<Rightarrow> u64 option"
  kn_register :: "u64 \<Rightarrow> bool"
  kn_page_size :: nat
  kn_readable :: bool

definition max_names :: nat where
  "max_names = 32"

fun index_of :: "string \<Rightarrow> string list \<Rightarrow> nat option" where
  "index_of n [] = None"
| "index_of n (x # xs) = (if x = n then Some 0 else map_option Suc (index_of n xs))"

text \<open>Index 0 is the kernel; the names are the entries from 1 on.\<close>

definition module_name_to_index :: "kprobe_coverage \<Rightarrow> string option \<Rightarrow> int" where
  "module_name_to_index k name =
     (case name of
        None \<Rightarrow> 0
      | Some n \<Rightarrow> (case index_of n (kpc_module_names k) of None \<Rightarrow> - 1 | Some i \<Rightarrow> int i + 1))"

definition kpc_allocate_module_name_index :: "kprobe_coverage \<Rightarrow> string option \<Rightarrow> int \<times> kprobe_coverage" where
  "kpc_allocate_module_name_index k name =
     (let index = module_name_to_index k name
      in case name of
           Some n \<Rightarrow>
             if index < 0 \<and> length (kpc_module_names k) + 1 < max_names
             then (int (length (kpc_module_names k)) + 1, k\<lparr>kpc_module_names := kpc_module_names k @ [n]\<rparr>)
             else (index, k)
         | None \<Rightarrow> (index, k))"

definition new_entry ::
  "kernel_env \<Rightarrow> kprobe_coverage \<Rightarrow> string option \<Rightarrow> u64 option \<Rightarrow> u64 \<Rightarrow> (kprobe_coverage_entry \<times> kprobe_coverage) option" where
  "new_entry e k name md where' =
     (if \<not> kn_alloc e then None
      else let base = (case md of None \<Rightarrow> 0 | Some b \<Rightarrow> b)
           in case kpc_allocate_module_name_index k name of (index, k1) \<Rightarrow>
                Some (\<lparr>kce_id = kpc_next k1, kce_addr = base + where', kce_name_index = index, kce_base_addr = base\<rparr>,
                      k1\<lparr>kpc_next := kpc_next k1 + 1\<rparr>))"

text \<open>\<open>enable_probe\<close>: an entry whose probe is refused is freed by the callers.\<close>

definition enable_probe :: "kernel_env \<Rightarrow> kprobe_coverage \<Rightarrow> kprobe_coverage_entry \<Rightarrow> kprobe_coverage" where
  "enable_probe e k entry =
     (if kn_register e (kce_addr entry) then k\<lparr>kpc_pending := entry # kpc_pending k\<rparr> else k)"

definition kpc_add_probe :: "kernel_env \<Rightarrow> kprobe_coverage \<Rightarrow> string option \<Rightarrow> u64 \<Rightarrow> kprobe_coverage option" where
  "kpc_add_probe e k name where' =
     (let md = Option.bind name (kn_find_module e)
      in Option.bind (new_entry e k name md where') (\<lambda>(entry, k1).
           Some (if name \<noteq> None \<and> md = None then k1\<lparr>kpc_deferred := entry # kpc_deferred k1\<rparr>
                 else enable_probe e k1 entry)))"

definition kpc_clear :: "kprobe_coverage \<Rightarrow> kprobe_coverage" where
  "kpc_clear k = k\<lparr>kpc_deferred := [], kpc_pending := [], kpc_hit := [], kpc_module_names := []\<rparr>"

subsection \<open>Triggered probes\<close>

definition entry_ids :: "kprobe_coverage_entry list \<Rightarrow> nat list" where
  "entry_ids es = map kce_id es"

definition kpc_pre_handler :: "kprobe_coverage \<Rightarrow> nat \<Rightarrow> kprobe_coverage" where
  "kpc_pre_handler k i = (if i \<in> set (kpc_queue k) then k else k\<lparr>kpc_queue := kpc_queue k @ [i]\<rparr>)"

text \<open>The work queue starts an item.\<close>

definition work_start :: "kprobe_coverage \<Rightarrow> kprobe_coverage" where
  "work_start k =
     (case (kpc_running k, kpc_queue k) of
        (None, i # q) \<Rightarrow> k\<lparr>kpc_running := Some i, kpc_queue := q\<rparr>
      | _ \<Rightarrow> k)"

definition take_entry :: "nat \<Rightarrow> kprobe_coverage_entry list \<Rightarrow> kprobe_coverage_entry option" where
  "take_entry i es = find (\<lambda>x. kce_id x = i) es"

definition drop_entry :: "nat \<Rightarrow> kprobe_coverage_entry list \<Rightarrow> kprobe_coverage_entry list" where
  "drop_entry i es = filter (\<lambda>x. kce_id x \<noteq> i) es"

definition kpc_probe_work :: "kprobe_coverage \<Rightarrow> kprobe_coverage option" where
  "kpc_probe_work k =
     (case kpc_running k of
        None \<Rightarrow> Some k
      | Some i \<Rightarrow>
          map_option (\<lambda>entry. k\<lparr>kpc_running := None, kpc_deferred := drop_entry i (kpc_deferred k),
                        kpc_pending := drop_entry i (kpc_pending k),
                        kpc_hit := drop_entry i (kpc_hit k) @ [entry]\<rparr>)
            (take_entry i (kpc_pending k @ kpc_hit k @ kpc_deferred k)))"

subsection \<open>Reading the hits\<close>

definition kpc_unlink_next :: "kprobe_coverage \<Rightarrow> kprobe_coverage_entry option \<times> kprobe_coverage" where
  "kpc_unlink_next k =
     (case kpc_hit k of [] \<Rightarrow> (None, k) | x # xs \<Rightarrow> (Some x, k\<lparr>kpc_hit := xs\<rparr>))"

text \<open>The line of an entry. An index that is not in the table reads outside of it.\<close>

definition kpc_seq_show :: "kprobe_coverage \<Rightarrow> kprobe_coverage_entry \<Rightarrow> string option" where
  "kpc_seq_show k entry =
     (let i = kce_name_index entry; addr = kce_addr entry - kce_base_addr entry;
          num = ''0x'' @ pad0 16 (fmt_hex (unat addr)) @ [CHR 0x0A]
      in if i = 0 then Some num
         else if 0 < i \<and> nat i \<le> length (kpc_module_names k)
              then Some (kpc_module_names k ! (nat i - 1) @ '':'' @ num)
         else if 0 < i \<and> nat i < max_names then Some num
         else None)"

subsection \<open>Modules that come and go\<close>

fun coming_entries ::
  "kernel_env \<Rightarrow> int \<Rightarrow> u64 \<Rightarrow> kprobe_coverage_entry list \<Rightarrow> kprobe_coverage \<Rightarrow> kprobe_coverage" where
  "coming_entries e index base [] k = k"
| "coming_entries e index base (x # xs) k =
     (if index \<noteq> kce_name_index x then coming_entries e index base xs k
      else coming_entries e index base xs
             (enable_probe e (k\<lparr>kpc_deferred := drop_entry (kce_id x) (kpc_deferred k)\<rparr>)
                (x\<lparr>kce_base_addr := base, kce_addr := kce_addr x + base\<rparr>)))"

definition kpc_handle_coming_module :: "kernel_env \<Rightarrow> kprobe_coverage \<Rightarrow> string \<Rightarrow> u64 \<Rightarrow> kprobe_coverage" where
  "kpc_handle_coming_module e k name base =
     coming_entries e (module_name_to_index k (Some name)) base (kpc_deferred k) k"

definition kpc_handle_going_module :: "kprobe_coverage \<Rightarrow> string \<Rightarrow> kprobe_coverage" where
  "kpc_handle_going_module k name =
     k\<lparr>kpc_pending := filter (\<lambda>x. module_name_to_index k (Some name) \<noteq> kce_name_index x) (kpc_pending k)\<rparr>"

subsection \<open>The control file\<close>

text \<open>\<open>simple_strtoul\<close> with base 16: the value, modulo the word size, and what is left.\<close>

definition simple_strtoul16 :: "string \<Rightarrow> u64 \<times> string" where
  "simple_strtoul16 s =
     (let t = (if length s \<ge> 2 \<and> s ! 0 = CHR ''0'' \<and> (s ! 1 = CHR ''x'' \<or> s ! 1 = CHR ''X'') then drop 2 s else s);
          ds = takeWhile (is_digit_in 16) t
      in (of_nat (digits_value 16 ds), drop (length ds) t))"

definition control_line :: "kernel_env \<Rightarrow> kprobe_coverage \<Rightarrow> string \<Rightarrow> kprobe_coverage option" where
  "control_line e k line =
     (let colon = str_find line '':'';
          name = map_option (\<lambda>i. take i line) colon;
          addr_p = (case colon of None \<Rightarrow> line | Some i \<Rightarrow> drop (i + 1) line)
      in case simple_strtoul16 addr_p of (addr, endp) \<Rightarrow>
           if endp = addr_p \<or> endp \<noteq> [] then Some k else kpc_add_probe e k name addr)"

definition line_end :: "char \<Rightarrow> bool" where
  "line_end c = (c = CHR 0x0D \<or> c = CHR 0x0A)"

text \<open>The loop over the lines: an empty line, or one that is not ended, stops it.\<close>

function control_lines :: "kernel_env \<Rightarrow> kprobe_coverage \<Rightarrow> string \<Rightarrow> nat \<Rightarrow> (kprobe_coverage \<times> nat) option" where
  "control_lines e k p out =
     (let line = takeWhile (\<lambda>c. \<not> line_end c) p; rest = drop (Suc (length line)) p
      in if line = [] \<or> length line = length p then Some (k, out)
         else if line = ''clear'' then Some (kpc_clear k, out + length line + 1)
         else Option.bind (control_line e k line) (\<lambda>k'. control_lines e k' rest (out + length line + 1)))"
  by pat_completeness auto
termination
  by (relation "measure (\<lambda>(e, k, p, out). length p)")
    (auto simp: Let_def dest: le_neq_implies_less [OF length_takeWhile_le])

declare control_lines.simps [simp del]

datatype write_result = WErr string | WOk nat

definition kpc_control_write :: "kernel_env \<Rightarrow> kprobe_coverage \<Rightarrow> string \<Rightarrow> (kprobe_coverage \<times> write_result) option" where
  "kpc_control_write e k user_buf =
     (if length user_buf > kn_page_size e then Some (k, WErr ''E2BIG'')
      else if \<not> kn_alloc e then Some (k, WErr ''ENOMEM'')
      else if \<not> kn_readable e then Some (k, WErr ''EFAULT'')
      else map_option (\<lambda>(k', out). (k', WOk out)) (control_lines e k (c_str user_buf) 0))"

section \<open>The engine\<close>

record KernelEngine =
  kne_control :: bool
  kne_show :: bool
  kne_addresses :: "u64 \<rightharpoonup> bool"
  kne_module :: string

definition mk_KernelEngine :: KernelEngine where
  "mk_KernelEngine = \<lparr>kne_control = False, kne_show = False, kne_addresses = Map.empty, kne_module = []\<rparr>"

text \<open>What is written to the control file, nothing for an address that is known.\<close>

definition kne_registerBreakpoint :: "KernelEngine \<Rightarrow> u64 \<Rightarrow> (KernelEngine \<times> string) option" where
  "kne_registerBreakpoint e addr =
     (if kne_addresses e addr \<noteq> None then Some (e, [])
      else if \<not> kne_control e then None
      else Some (e\<lparr>kne_addresses := (kne_addresses e)(addr \<mapsto> True)\<rparr>,
                 kne_module e @ ''0x'' @ fmt_hex (unat addr) @ [CHR 0x0A]))"

definition kne_kill :: "KernelEngine \<Rightarrow> KernelEngine \<times> string" where
  "kne_kill e =
     (e\<lparr>kne_control := False, kne_show := False\<rparr>, if kne_control e then ''clear'' @ [CHR 0x0A] else [])"

definition kne_start :: "KernelEngine \<Rightarrow> (string \<Rightarrow> bool) \<Rightarrow> string \<Rightarrow> bool \<times> KernelEngine \<times> string" where
  "kne_start e fopen path =
     (let e1 = e\<lparr>kne_control := fopen (path @ ''/control''), kne_show := fopen (path @ ''/show'')\<rparr>
      in if \<not> kne_control e1 \<or> \<not> kne_show e1 then (False, kne_kill e1) else (True, e1, []))"

definition kne_parseOneLine :: "string \<Rightarrow> Event list option" where
  "kne_parseOneLine line =
     (let addr = (case str_find line '':'' of None \<Rightarrow> line | Some pos \<Rightarrow> drop (pos + 1) line)
      in if \<not> string_is_integer addr 16 then Some []
         else case string_to_integer addr 16 of Inl _ \<Rightarrow> None | Inr value \<Rightarrow> Some [mk_Event ev_breakpoint 0 value])"

text \<open>\<open>fgets\<close> with a buffer of 255 bytes; the last character is cut off whatever it is.\<close>

definition kne_fgets_max :: nat where
  "kne_fgets_max = 254"

definition kne_continueExecution :: "string \<Rightarrow> (bool \<times> Event list \<times> string) option" where
  "kne_continueExecution show =
     (if show = [] then Some (False, [], [])
      else let n = min kne_fgets_max (Suc (length (takeWhile (\<lambda>c. c \<noteq> CHR 0x0A) show)));
               buf = c_str (take n show)
           in if buf = [] then None
              else map_option (\<lambda>evs. (True, evs, drop n show)) (kne_parseOneLine (butlast buf)))"

definition kne_matchFile :: "string \<Rightarrow> nat" where
  "kne_matchFile filename =
     (if str_contains filename ''vmlinux'' then match_perfect
      else if \<not> str_contains filename ''.ko'' then match_none
      else match_perfect)"

end
