(* ===== verification/Kcov_Kernel_Props.thy ===== *)
theory Kcov_Kernel_Props
  imports Kcov_Kernel "HOL-Library.Multiset"
begin

text \<open>
  Properties of the kernel coverage: the lists of the module under any interleaving of its
  callers, and an address on its way from the engine through the module and back.
\<close>

section \<open>The lists\<close>

definition live_ids :: "kprobe_coverage \<Rightarrow> nat list" where
  "live_ids k = entry_ids (kpc_deferred k) @ entry_ids (kpc_pending k) @ entry_ids (kpc_hit k)"

definition kpc_inv :: "kprobe_coverage \<times> nat list \<times> nat list \<Rightarrow> bool" where
  "kpc_inv s =
     (case s of (k, tr, sh) \<Rightarrow>
        distinct (live_ids k @ sh) \<and> (\<forall>i \<in> set (live_ids k @ sh). i < kpc_next k) \<and>
        set (kpc_queue k) \<union> set_option (kpc_running k) \<union> set (entry_ids (kpc_hit k)) \<union> set sh \<subseteq> set tr)"

text \<open>
  The module with its callers. Each step is one critical section of the module's lock, so that what a
  caller does with the lock released in between is a state of its own: an entry \<open>kpc_add_probe\<close> has made and
  not yet put on a list (with whether it will be deferred), and an entry that was taken off the list
  of hits and is not yet printed. What is triggered, printed (and thereby freed) and otherwise freed is kept in
  order. A probe may trigger as long as its entry is pending, which is more often than the kernel allows.

  A run that uses memory it must not use is in the state \<open>None\<close>: an entry that could not be allocated, the
  work of an entry that is on no list any more, a name outside of the table of names.
\<close>

record kpc_run =
  ks_kpc :: kprobe_coverage
  ks_adding :: "(kprobe_coverage_entry \<times> bool) list"
  ks_reading :: "kprobe_coverage_entry list"
  ks_triggered :: "nat list"
  ks_shown :: "nat list"
  ks_freed :: "nat list"

definition kpc_start :: kpc_run where
  "kpc_start = \<lparr>ks_kpc = kpc_init, ks_adding = [], ks_reading = [], ks_triggered = [], ks_shown = [], ks_freed = []\<rparr>"

text \<open>The entries each operation gives to \<open>free_entry\<close>.\<close>

definition freed_by_enable :: "kernel_env \<Rightarrow> kprobe_coverage_entry \<Rightarrow> nat list" where
  "freed_by_enable e x = (if kn_register e (kce_addr x) then [] else [kce_id x])"

definition freed_by_clear :: "kprobe_coverage \<Rightarrow> nat list" where
  "freed_by_clear k = entry_ids (kpc_deferred k) @ entry_ids (kpc_hit k) @ entry_ids (kpc_pending k)"

definition freed_by_coming :: "kernel_env \<Rightarrow> int \<Rightarrow> u64 \<Rightarrow> kprobe_coverage_entry list \<Rightarrow> nat list" where
  "freed_by_coming e index base xs =
     concat (map (\<lambda>x. if index = kce_name_index x then freed_by_enable e (x\<lparr>kce_addr := kce_addr x + base\<rparr>) else []) xs)"

definition freed_by_going :: "kprobe_coverage \<Rightarrow> string \<Rightarrow> nat list" where
  "freed_by_going k name = entry_ids (filter (\<lambda>x. module_name_to_index k (Some name) = kce_name_index x) (kpc_pending k))"

inductive kpc_step :: "kernel_env \<Rightarrow> kpc_run option \<Rightarrow> kpc_run option \<Rightarrow> bool" for e where
  alloc: "new_entry e (ks_kpc s) name (Option.bind name (kn_find_module e)) addr = Some (x, k) \<Longrightarrow>
    kpc_step e (Some s) (Some (s\<lparr>ks_kpc := k, ks_adding := (x, name \<noteq> None \<and> Option.bind name (kn_find_module e) = None) # ks_adding s\<rparr>))"
| no_memory: "new_entry e (ks_kpc s) name (Option.bind name (kn_find_module e)) addr = None \<Longrightarrow> kpc_step e (Some s) None"
| put_off: "(x, True) \<in> set (ks_adding s) \<Longrightarrow>
    kpc_step e (Some s) (Some (s\<lparr>ks_kpc := ks_kpc s\<lparr>kpc_deferred := x # kpc_deferred (ks_kpc s)\<rparr>,
      ks_adding := remove1 (x, True) (ks_adding s)\<rparr>))"
| enable: "(x, False) \<in> set (ks_adding s) \<Longrightarrow>
    kpc_step e (Some s) (Some (s\<lparr>ks_kpc := enable_probe e (ks_kpc s) x, ks_adding := remove1 (x, False) (ks_adding s),
      ks_freed := ks_freed s @ freed_by_enable e x\<rparr>))"
| trigger: "i \<in> set (entry_ids (kpc_pending (ks_kpc s))) \<Longrightarrow>
    kpc_step e (Some s) (Some (s\<lparr>ks_kpc := kpc_pre_handler (ks_kpc s) i, ks_triggered := ks_triggered s @ [i]\<rparr>))"
| start: "kpc_step e (Some s) (Some (s\<lparr>ks_kpc := work_start (ks_kpc s)\<rparr>))"
| work: "kpc_probe_work (ks_kpc s) = Some k \<Longrightarrow> kpc_step e (Some s) (Some (s\<lparr>ks_kpc := k\<rparr>))"
| work_gone: "kpc_probe_work (ks_kpc s) = None \<Longrightarrow> kpc_step e (Some s) None"
| unlink: "kpc_unlink_next (ks_kpc s) = (Some x, k) \<Longrightarrow>
    kpc_step e (Some s) (Some (s\<lparr>ks_kpc := k, ks_reading := ks_reading s @ [x]\<rparr>))"
| shown: "x \<in> set (ks_reading s) \<Longrightarrow> kpc_seq_show (ks_kpc s) x = Some line \<Longrightarrow>
    kpc_step e (Some s) (Some (s\<lparr>ks_reading := remove1 x (ks_reading s), ks_shown := ks_shown s @ [kce_id x]\<rparr>))"
| bad_name: "x \<in> set (ks_reading s) \<Longrightarrow> kpc_seq_show (ks_kpc s) x = None \<Longrightarrow> kpc_step e (Some s) None"
| clear: "kpc_step e (Some s) (Some (s\<lparr>ks_kpc := kpc_clear (ks_kpc s), ks_freed := ks_freed s @ freed_by_clear (ks_kpc s)\<rparr>))"
| coming: "kpc_step e (Some s) (Some (s\<lparr>ks_kpc := kpc_handle_coming_module e (ks_kpc s) name base,
    ks_freed := ks_freed s @ freed_by_coming e (module_name_to_index (ks_kpc s) (Some name)) base (kpc_deferred (ks_kpc s))\<rparr>))"
| going: "kpc_step e (Some s) (Some (s\<lparr>ks_kpc := kpc_handle_going_module (ks_kpc s) name,
    ks_freed := ks_freed s @ freed_by_going (ks_kpc s) name\<rparr>))"

text \<open>Alone, the two critical sections of \<open>kpc_add_probe\<close> are what the definition of it does.\<close>

lemma add_probe_steps:
  assumes "kpc_add_probe e (ks_kpc s) name addr = Some k"
  shows "\<exists>s'. (kpc_step e)\<^sup>*\<^sup>* (Some s) (Some s') \<and> ks_kpc s' = k \<and> ks_adding s' = ks_adding s"
proof -
  let ?md = "Option.bind name (kn_find_module e)" and ?d = "name \<noteq> None \<and> Option.bind name (kn_find_module e) = None"
  obtain x k1 where n: "new_entry e (ks_kpc s) name ?md addr = Some (x, k1)"
    and k: "k = (if ?d then k1\<lparr>kpc_deferred := x # kpc_deferred k1\<rparr> else enable_probe e k1 x)"
    using assms by (auto simp: kpc_add_probe_def Let_def Option.bind_eq_Some_conv)
  define s1 where "s1 = s\<lparr>ks_kpc := k1, ks_adding := (x, ?d) # ks_adding s\<rparr>"
  have "kpc_step e (Some s) (Some s1)" unfolding s1_def by (rule kpc_step.alloc [OF n])
  moreover have "\<exists>s'. kpc_step e (Some s1) (Some s') \<and> ks_kpc s' = k \<and> ks_adding s' = ks_adding s"
  proof (cases ?d)
    case True
    then show ?thesis using kpc_step.put_off [of x s1 e] unfolding k s1_def by auto
  next
    case False
    then show ?thesis using kpc_step.enable [of x s1 e] unfolding k s1_def by auto
  qed
  ultimately show ?thesis by (metis converse_rtranclp_into_rtranclp r_into_rtranclp)
qed

text \<open>Where an entry can be.\<close>

definition kpc_places :: "kpc_run \<Rightarrow> nat list" where
  "kpc_places s = live_ids (ks_kpc s) @ map (\<lambda>(x, _). kce_id x) (ks_adding s) @ entry_ids (ks_reading s) @ ks_shown s @ ks_freed s"

definition kpc_run_ok :: "kpc_run \<Rightarrow> bool" where
  "kpc_run_ok s \<longleftrightarrow>
     mset (kpc_places s) = mset [0..<kpc_next (ks_kpc s)] \<and>
     set (kpc_queue (ks_kpc s)) \<union> set_option (kpc_running (ks_kpc s)) \<union> set (entry_ids (kpc_hit (ks_kpc s))) \<union>
       set (entry_ids (ks_reading s)) \<union> set (ks_shown s) \<subseteq> set (ks_triggered s) \<and>
     (\<forall>i \<in> set (ks_triggered s). i < kpc_next (ks_kpc s) \<and> i \<notin> set (map (\<lambda>(x, _). kce_id x) (ks_adding s)))"

lemma entry_ids_simps [simp]:
  "entry_ids [] = []" "entry_ids (x # xs) = kce_id x # entry_ids xs" "entry_ids (xs @ ys) = entry_ids xs @ entry_ids ys"
  by (simp_all add: entry_ids_def)

lemma entry_ids_drop: "entry_ids (drop_entry i xs) = filter (\<lambda>j. j \<noteq> i) (entry_ids xs)"
  by (simp add: entry_ids_def drop_entry_def filter_map comp_def)

lemma take_entry_id: "take_entry i xs = Some x \<Longrightarrow> kce_id x = i \<and> i \<in> set (entry_ids xs)"
  by (auto simp: take_entry_def entry_ids_def find_Some_iff)


lemma mset_filter_out:
  assumes "distinct xs" "i \<in> set xs"
  shows "add_mset i (mset (filter (\<lambda>j. j \<noteq> i) xs)) = mset xs"
proof -
  have "filter (\<lambda>j. j \<noteq> i) xs = remove1 i xs"
    using assms(1) by (simp add: distinct_remove1_removeAll removeAll_filter_not_eq eq_commute)
  then show ?thesis using assms(2) by (simp only: mset_remove1) simp
qed

lemma mset_remove1_map: "x \<in> set xs \<Longrightarrow> add_mset (f x) (mset (map f (remove1 x xs))) = mset (map f xs)"
  by (induction xs) auto

lemma enable_probe_fields:
  "kpc_deferred (enable_probe e k x) = kpc_deferred k" "kpc_hit (enable_probe e k x) = kpc_hit k"
  "kpc_next (enable_probe e k x) = kpc_next k" "kpc_queue (enable_probe e k x) = kpc_queue k"
  "kpc_running (enable_probe e k x) = kpc_running k"
  "mset (entry_ids (kpc_pending (enable_probe e k x))) + mset (freed_by_enable e x) = add_mset (kce_id x) (mset (entry_ids (kpc_pending k)))"
  by (simp_all add: enable_probe_def freed_by_enable_def)

lemma new_entry_fields:
  assumes "new_entry e k name md addr = Some (x, k')"
  shows "kpc_deferred k' = kpc_deferred k" "kpc_pending k' = kpc_pending k" "kpc_hit k' = kpc_hit k"
    "kpc_next k' = Suc (kpc_next k)" "kpc_queue k' = kpc_queue k" "kpc_running k' = kpc_running k" "kce_id x = kpc_next k"
  using assms by (auto simp: new_entry_def kpc_allocate_module_name_index_def Let_def split: if_splits option.splits)

lemma kpc_run_okD:
  assumes "kpc_run_ok s"
  shows "distinct (kpc_places s)" and "set (kpc_places s) = {..<kpc_next (ks_kpc s)}"
proof -
  have m: "mset (kpc_places s) = mset [0..<kpc_next (ks_kpc s)]" using assms by (simp add: kpc_run_ok_def)
  from mset_eq_imp_distinct_iff [OF m] show "distinct (kpc_places s)" by simp
  from mset_eq_setD [OF m] show "set (kpc_places s) = {..<kpc_next (ks_kpc s)}"
    by (simp only: set_upt lessThan_atLeast0)
qed

text \<open>A step that makes no entry keeps them all somewhere.\<close>

lemma kpc_run_ok_keeps:
  assumes "kpc_run_ok s" "mset (kpc_places s') = mset (kpc_places s)" "kpc_next (ks_kpc s') = kpc_next (ks_kpc s)"
    and "set (kpc_queue (ks_kpc s')) \<union> set_option (kpc_running (ks_kpc s')) \<union> set (entry_ids (kpc_hit (ks_kpc s'))) \<union>
       set (entry_ids (ks_reading s')) \<union> set (ks_shown s') \<subseteq> set (ks_triggered s)"
    and "ks_triggered s' = ks_triggered s" "set (ks_adding s') \<subseteq> set (ks_adding s)"
  shows "kpc_run_ok s'"
proof -
  have "set (map (\<lambda>(x, _). kce_id x) (ks_adding s')) \<subseteq> set (map (\<lambda>(x, _). kce_id x) (ks_adding s))"
    using assms(6) by (simp add: image_mono)
  with assms show ?thesis unfolding kpc_run_ok_def by (simp only:) blast
qed

lemmas kpc_places_defs = kpc_places_def live_ids_def

lemma probe_work_ok:
  assumes "kpc_run_ok s" "kpc_probe_work (ks_kpc s) = Some k"
  shows "kpc_run_ok (s\<lparr>ks_kpc := k\<rparr>)"
proof (cases "kpc_running (ks_kpc s)")
  case None
  then have "k = ks_kpc s" using assms(2) by (simp add: kpc_probe_work_def)
  with assms(1) show ?thesis by simp
next
  case (Some i)
  let ?k = "ks_kpc s"
  from Some assms(2) obtain x where x: "take_entry i (kpc_pending ?k @ kpc_hit ?k @ kpc_deferred ?k) = Some x"
    and k: "k = ?k\<lparr>kpc_running := None, kpc_deferred := drop_entry i (kpc_deferred ?k),
      kpc_pending := drop_entry i (kpc_pending ?k), kpc_hit := drop_entry i (kpc_hit ?k) @ [x]\<rparr>"
    by (auto simp: kpc_probe_work_def)
  have i: "kce_id x = i" "i \<in> set (live_ids ?k)" using take_entry_id [OF x] by (auto simp: live_ids_def)
  have "distinct (live_ids ?k)" using kpc_run_okD(1) [OF assms(1)] by (simp add: kpc_places_def)
  from mset_filter_out [OF this i(2)] have "mset (live_ids k) = mset (live_ids ?k)"
    by (simp add: k live_ids_def entry_ids_drop i(1))
  moreover have "i \<in> set (ks_triggered s)" using assms(1) Some by (auto simp: kpc_run_ok_def)
  ultimately show ?thesis using assms(1) i(1)
    by (intro kpc_run_ok_keeps [OF assms(1)]) (auto simp: k kpc_places_def kpc_run_ok_def entry_ids_drop)
qed

lemma coming_entries_places:
  assumes "distinct (entry_ids (kpc_deferred k))" "distinct (entry_ids xs)"
    and "set (entry_ids xs) \<subseteq> set (entry_ids (kpc_deferred k))"
  shows "mset (live_ids (coming_entries e index base xs k)) + mset (freed_by_coming e index base xs) = mset (live_ids k) \<and>
    kpc_next (coming_entries e index base xs k) = kpc_next k \<and> kpc_queue (coming_entries e index base xs k) = kpc_queue k \<and>
    kpc_running (coming_entries e index base xs k) = kpc_running k \<and> kpc_hit (coming_entries e index base xs k) = kpc_hit k"
  using assms
proof (induction xs arbitrary: k)
  case Nil
  then show ?case by (simp add: freed_by_coming_def)
next
  case (Cons x xs)
  let ?x = "x\<lparr>kce_base_addr := base, kce_addr := kce_addr x + base\<rparr>"
  let ?k = "k\<lparr>kpc_deferred := drop_entry (kce_id x) (kpc_deferred k)\<rparr>"
  show ?case
  proof (cases "index = kce_name_index x")
    case True
    let ?k' = "enable_probe e ?k ?x"
    have "mset (live_ids ?k') + mset (freed_by_enable e ?x) = mset (live_ids k)"
      using mset_filter_out [OF Cons.prems(1), of "kce_id x"] Cons.prems(3) enable_probe_fields(6) [of e ?k ?x]
      by (simp add: live_ids_def enable_probe_fields(1,2) entry_ids_drop ac_simps)
    moreover have "distinct (entry_ids (kpc_deferred ?k'))" "set (entry_ids xs) \<subseteq> set (entry_ids (kpc_deferred ?k'))"
      using Cons.prems by (auto simp: enable_probe_fields entry_ids_drop)
    moreover have "freed_by_enable e ?x = freed_by_enable e (x\<lparr>kce_addr := kce_addr x + base\<rparr>)" by (simp add: freed_by_enable_def)
    ultimately show ?thesis using Cons.IH [of ?k'] Cons.prems(2) True
      by (simp add: freed_by_coming_def enable_probe_fields ac_simps)
  next
    case False
    then show ?thesis using Cons by (simp add: freed_by_coming_def)
  qed
qed

lemma going_places:
  "mset (live_ids (kpc_handle_going_module k name)) + mset (freed_by_going k name) = mset (live_ids k)"
proof -
  have "mset (entry_ids (filter P xs)) + mset (entry_ids (filter (\<lambda>x. \<not> P x) xs)) = mset (entry_ids xs)" for P xs
    by (induction xs) auto
  from this [of "\<lambda>x. module_name_to_index k (Some name) \<noteq> kce_name_index x" "kpc_pending k"] show ?thesis
    by (simp add: live_ids_def kpc_handle_going_module_def freed_by_going_def ac_simps)
qed

lemma alloc_ok:
  assumes "kpc_run_ok s" "new_entry e (ks_kpc s) name md addr = Some (x, k)"
  shows "kpc_run_ok (s\<lparr>ks_kpc := k, ks_adding := (x, d) # ks_adding s\<rparr>)"
proof -
  note f = new_entry_fields [OF assms(2)]
  let ?s = "s\<lparr>ks_kpc := k, ks_adding := (x, d) # ks_adding s\<rparr>"
  have "mset (kpc_places ?s) = add_mset (kpc_next (ks_kpc s)) (mset (kpc_places s))"
    by (simp add: kpc_places_defs f)
  moreover have "mset [0..<Suc n] = add_mset n (mset [0..<n])" for n by simp
  ultimately have "mset (kpc_places ?s) = mset [0..<kpc_next (ks_kpc ?s)]"
    using assms(1) by (simp only: kpc_run_ok_def f kpc_run.select_convs kpc_run.update_convs) (simp add: f)
  moreover have "i < kpc_next k \<and> i \<notin> set (map (\<lambda>(x, _). kce_id x) ((x, d) # ks_adding s))" if "i \<in> set (ks_triggered s)" for i
    using that assms(1) by (auto simp: kpc_run_ok_def f simp del: mset_upt)
  ultimately show ?thesis using assms(1) by (simp add: kpc_run_ok_def f del: mset_upt)
qed

lemma adding_removed:
  assumes "(x, d) \<in> set xs"
  shows "add_mset (kce_id x) (mset (map (\<lambda>(x, _). kce_id x) (remove1 (x, d) xs))) = mset (map (\<lambda>(x, _). kce_id x) xs)"
  using mset_remove1_map [OF assms, of "\<lambda>(x, _). kce_id x"] by simp

lemma mset_handed_over:
  assumes "p' + fr = add_mset i p" "add_mset i r = a"
  shows "p' + (r + fr) = p + a"
proof -
  have "p' + (r + fr) = (p' + fr) + r" by (simp add: ac_simps)
  then show ?thesis by (simp add: assms(1) flip: assms(2))
qed

lemma kpc_run_ok_in:
  "kpc_run_ok s \<Longrightarrow> set (kpc_queue (ks_kpc s)) \<union> set_option (kpc_running (ks_kpc s)) \<union> set (entry_ids (kpc_hit (ks_kpc s))) \<union>
     set (entry_ids (ks_reading s)) \<union> set (ks_shown s) \<subseteq> set (ks_triggered s)"
  unfolding kpc_run_ok_def by blast

lemma trigger_ok:
  assumes "kpc_run_ok s" "i \<in> set (entry_ids (kpc_pending (ks_kpc s)))"
  shows "kpc_run_ok (s\<lparr>ks_kpc := kpc_pre_handler (ks_kpc s) i, ks_triggered := ks_triggered s @ [i]\<rparr>)"
proof -
  have "i < kpc_next (ks_kpc s)" "i \<notin> set (map (\<lambda>(x, _). kce_id x) (ks_adding s))"
    using kpc_run_okD [OF assms(1)] assms(2) by (auto simp: kpc_places_defs)
  then show ?thesis using assms(1)
    by (auto simp: kpc_run_ok_def kpc_places_defs kpc_pre_handler_def simp del: mset_upt)
qed

lemma kpc_run_ok_step:
  assumes "kpc_step e (Some s) (Some t)" and ok: "kpc_run_ok s"
  shows "kpc_run_ok t"
  using assms(1)
proof cases
  case (alloc name addr x k)
  show ?thesis unfolding alloc(1) by (rule alloc_ok [OF ok alloc(2)])
next
  case (put_off x)
  then show ?thesis using kpc_run_ok_in [OF ok] adding_removed [OF put_off(2)]
    by (intro kpc_run_ok_keeps [OF ok]) (auto simp: kpc_places_defs dest: set_remove1_subset [THEN subsetD])
next
  case (enable x)
  then show ?thesis using kpc_run_ok_in [OF ok] mset_handed_over [OF enable_probe_fields(6) [of e "ks_kpc s" x] adding_removed [OF enable(2)]]
    by (intro kpc_run_ok_keeps [OF ok])
      (auto simp: kpc_places_defs enable_probe_fields(1-5) dest: set_remove1_subset [THEN subsetD])
next
  case (trigger i)
  show ?thesis unfolding trigger(1) by (rule trigger_ok [OF ok trigger(2)])
next
  case start
  then show ?thesis using kpc_run_ok_in [OF ok]
    by (intro kpc_run_ok_keeps [OF ok]) (auto simp: kpc_places_defs work_start_def split: option.splits list.splits)
next
  case (work k)
  show ?thesis unfolding work(1) by (rule probe_work_ok [OF ok work(2)])
next
  case (unlink x k)
  then show ?thesis using kpc_run_ok_in [OF ok]
    by (intro kpc_run_ok_keeps [OF ok]) (auto simp: kpc_places_defs kpc_unlink_next_def split: list.splits)
next
  case (shown x line)
  have "add_mset (kce_id x) (mset (entry_ids (remove1 x (ks_reading s)))) = mset (entry_ids (ks_reading s))"
    unfolding entry_ids_def by (rule mset_remove1_map [OF shown(2)])
  moreover have "kce_id x \<in> set (entry_ids (ks_reading s))" using shown by (simp add: entry_ids_def)
  moreover have "set (entry_ids (remove1 x (ks_reading s))) \<subseteq> set (entry_ids (ks_reading s))"
    unfolding entry_ids_def set_map by (intro image_mono set_remove1_subset)
  ultimately show ?thesis using kpc_run_ok_in [OF ok] unfolding shown(1)
    by (intro kpc_run_ok_keeps [OF ok]) (auto simp: kpc_places_defs)
next
  case clear
  then show ?thesis using kpc_run_ok_in [OF ok]
    by (intro kpc_run_ok_keeps [OF ok]) (auto simp: kpc_places_defs kpc_clear_def freed_by_clear_def)
next
  case (coming name base)
  have "distinct (entry_ids (kpc_deferred (ks_kpc s)))" using kpc_run_okD(1) [OF ok] by (simp add: kpc_places_defs)
  from coming_entries_places [OF this this, of e "module_name_to_index (ks_kpc s) (Some name)" base] show ?thesis
    using kpc_run_ok_in [OF ok] unfolding coming(1)
    by (intro kpc_run_ok_keeps [OF ok]) (auto simp: kpc_places_def kpc_handle_coming_module_def)
next
  case (going name)
  show ?thesis using going_places [of "ks_kpc s" name] kpc_run_ok_in [OF ok] unfolding going(1)
    by (intro kpc_run_ok_keeps [OF ok]) (auto simp: kpc_places_def kpc_handle_going_module_def live_ids_def)
qed

interpretation kprobes: step_invariant "\<lambda>s. s = Some kpc_start" "kpc_step e" "\<lambda>s. \<forall>r. s = Some r \<longrightarrow> kpc_run_ok r" for e
proof unfold_locales
  fix s assume "s = Some kpc_start"
  then show "\<forall>r. s = Some r \<longrightarrow> kpc_run_ok r"
    by (simp add: kpc_start_def kpc_init_def kpc_run_ok_def kpc_places_defs)
next
  fix s t assume "\<forall>r. s = Some r \<longrightarrow> kpc_run_ok r" "kpc_step e s t"
  moreover from \<open>kpc_step e s t\<close> obtain s0 where "s = Some s0" by (cases rule: kpc_step.cases) auto
  ultimately show "\<forall>r. t = Some r \<longrightarrow> kpc_run_ok r" using kpc_run_ok_step by blast
qed

lemma reachable_run_ok: "(kpc_step e)\<^sup>*\<^sup>* (Some kpc_start) (Some s) \<Longrightarrow> kpc_run_ok s"
  using kprobes.inv_reachable [OF refl] by blast

lemma reachable_kpc_inv: "(kpc_step e)\<^sup>*\<^sup>* (Some kpc_start) (Some s) \<Longrightarrow> kpc_inv (ks_kpc s, ks_triggered s, ks_shown s)"
  using kpc_run_okD [of s] reachable_run_ok [of e s] by (fastforce simp: kpc_inv_def kpc_places_def kpc_run_ok_def)




definition demo_kernel_env :: kernel_env where
  "demo_kernel_env = \<lparr>kn_alloc = True, kn_find_module = \<lambda>_. None, kn_register = \<lambda>_. True, kn_page_size = 4096,
     kn_readable = True\<rparr>"


section \<open>Accesses outside of the lists and the table\<close>

text \<open>
  Clearing the probes, or unloading their module, frees entries whose work is still queued: the
  work then runs on a freed entry.
\<close>

lemma clear_before_work:
  "kpc_running k = None \<Longrightarrow> kpc_queue k = i # q \<Longrightarrow> kpc_probe_work (work_start (kpc_clear k)) = None"
  by (simp add: kpc_probe_work_def work_start_def kpc_clear_def take_entry_def)

text \<open>The 32nd module gets no index, and the line of its entries is read outside of the table.\<close>

lemma index_of_None: "index_of n xs = None \<longleftrightarrow> n \<notin> set xs"
  by (induction xs) auto

lemma name_table_full:
  assumes "length (kpc_module_names k) = 31" "n \<notin> set (kpc_module_names k)" "kn_alloc e"
  shows "\<exists>x k'. new_entry e k (Some n) md addr = Some (x, k') \<and> kpc_seq_show k' x = None"
  using assms index_of_None [of n "kpc_module_names k"]
  by (auto simp: new_entry_def kpc_allocate_module_name_index_def module_name_to_index_def max_names_def
      kpc_seq_show_def Let_def split: prod.splits option.splits)

section \<open>An address on its way\<close>

lemma fmt_hex_no_special:
  assumes "c \<in> set (pad0 w (fmt_hex n))"
  shows "c \<noteq> CHR '':''" "c \<noteq> CHR 0x0A" "c \<noteq> CHR 0x0D" "c \<noteq> NUL"
  using pad0_hex(2) [OF assms] by (auto simp: is_digit_in_def digit_val_def NUL_def)

lemma pad0_0 [simp]: "pad0 0 s = s"
  by (simp add: pad0_def)

lemma simple_strtoul16_hex:
  "simple_strtoul16 (''0x'' @ fmt_hex n) = (of_nat n, [])"
proof -
  have d: "takeWhile (is_digit_in 16) (fmt_hex n) = fmt_hex n"
    using fmt_hex_digits by (auto simp: takeWhile_eq_all_conv)
  show ?thesis by (simp add: simple_strtoul16_def Let_def d digits_value_fmt_hex)
qed

lemma no_colon: "CHR '':'' \<notin> set s \<Longrightarrow> str_find s '':'' = None"
  using str_find_single [of s "CHR '':''"] by simp

lemma control_line_hex:
  "control_line e k (''0x'' @ fmt_hex (unat addr)) = kpc_add_probe e k None (addr :: u64)"
proof -
  have "CHR '':'' \<notin> set (''0x'' @ fmt_hex (unat addr))"
    using fmt_hex_no_special(1) [of _ 0 "unat addr"] by auto
  then show ?thesis using simple_strtoul16_hex [of "unat addr"] by (simp add: control_line_def no_colon)
qed

lemma control_write_hex:
  assumes "kn_alloc e" "kn_readable e" "length (fmt_hex (unat addr)) + 3 \<le> kn_page_size e"
  shows "kpc_control_write e k (''0x'' @ fmt_hex (unat addr) @ [CHR 0x0A]) =
    map_option (\<lambda>k'. (k', WOk (length (fmt_hex (unat addr)) + 3))) (kpc_add_probe e k None (addr :: u64))"
proof -
  let ?line = "''0x'' @ fmt_hex (unat addr)"
  have d: "c \<noteq> CHR 0x0A" "c \<noteq> CHR 0x0D" "c \<noteq> NUL" if "c \<in> set ?line" for c
    using fmt_hex_no_special [of c 0 "unat addr"] that by (auto simp: NUL_def)
  have "c_str (?line @ [CHR 0x0A]) = ?line @ [CHR 0x0A]"
    using d by (intro c_str_id) (auto simp: NUL_def)
  moreover have "takeWhile (\<lambda>c. \<not> line_end c) (?line @ [CHR 0x0A]) = ?line"
    using d by (subst takeWhile_append2) (auto simp: line_end_def)
  moreover have "?line \<noteq> ''clear''" by simp
  ultimately have "control_lines e k (c_str (?line @ [CHR 0x0A])) 0 =
      Option.bind (kpc_add_probe e k None addr) (\<lambda>k'. control_lines e k' [] (length ?line + 1))"
    using control_line_hex [of e k addr] by (subst control_lines.simps) (simp add: Let_def)
  then show ?thesis using assms
    by (cases "kpc_add_probe e k None addr") (simp_all add: kpc_control_write_def control_lines.simps)
qed


lemma takeWhile_upto: "(\<And>c. c \<in> set xs \<Longrightarrow> P c) \<Longrightarrow> \<not> P y \<Longrightarrow> takeWhile P (xs @ y # ys) = xs"
  by (induction xs) auto

lemma word_unat_eq: "of_nat (unat (w :: u64)) = w"
  by simp

lemma parseOneLine_number:
  assumes "CHR '':'' \<notin> set s" "string_is_integer s 16" "string_to_integer s 16 = Inr v"
  shows "kne_parseOneLine s = Some [mk_Event ev_breakpoint 0 v]"
  using assms by (simp add: kne_parseOneLine_def no_colon)

lemma continueExecution_line:
  assumes "CHR 0x0A \<notin> set s" "NUL \<notin> set s" "length s < 253" "kne_parseOneLine s = Some evs"
  shows "kne_continueExecution (s @ CHR 0x0A # more_lines) = Some (True, evs, more_lines)"
proof -
  have "takeWhile (\<lambda>c. c \<noteq> CHR 0x0A) (s @ CHR 0x0A # more_lines) = s"
    using assms(1) by (intro takeWhile_upto) auto
  moreover have "c_str (s @ [CHR 0x0A]) = s @ [CHR 0x0A]"
    using assms(2) by (intro c_str_id) (auto simp: NUL_def)
  ultimately show ?thesis
    using assms(3,4) by (simp add: kne_continueExecution_def kne_fgets_max_def Let_def min_def butlast_append)
qed

text \<open>What the engine makes of the line of an entry of the kernel itself.\<close>

lemma show_event:
  assumes "kpc_seq_show k x = Some line" "kce_name_index x = 0"
  shows "kne_continueExecution (line @ more_lines) =
    Some (True, [mk_Event ev_breakpoint 0 (kce_addr x - kce_base_addr x)], more_lines)"
proof -
  let ?a = "kce_addr x - kce_base_addr x"
  let ?num = "''0x'' @ pad0 16 (fmt_hex (unat ?a))"
  have line: "line = ?num @ [CHR 0x0A]" using assms by (simp add: kpc_seq_show_def)
  have d: "c \<noteq> CHR '':''" "c \<noteq> CHR 0x0A" "c \<noteq> NUL" if "c \<in> set ?num" for c
    using fmt_hex_no_special [of c 16 "unat ?a"] that by (auto simp: NUL_def)
  have lt: "unat ?a < 2 ^ 64" using unsigned_less [of ?a] by simp
  have "length (fmt_hex n) \<le> 16" if "n < 16 ^ 16" for n
    using fmt_hex_length [of 16 n] that by simp
  then have len: "length ?num = 18" using lt by (simp add: pad0_def)
  have "kne_parseOneLine ?num = Some [mk_Event ev_breakpoint 0 (of_nat (unat ?a))]"
    by (rule parseOneLine_number [OF _ hex_string_to_integer [OF lt]]) (use d(1) in blast)
  then have "kne_continueExecution (?num @ CHR 0x0A # more_lines) =
      Some (True, [mk_Event ev_breakpoint 0 (of_nat (unat ?a))], more_lines)"
    by (rule continueExecution_line [rotated 3]) (use d len in \<open>blast | simp\<close>)+
  then show ?thesis by (simp only: line append_assoc append_Cons append_Nil word_unat_eq)
qed

text \<open>
  Property C22. A breakpoint of the kernel engine comes back as the event of the same address: the
  line the engine writes makes the module register one probe there; once it triggers and its
  work has run, the line that is read from the module is parsed into a breakpoint event with the
  address.
\<close>

theorem kernel_probe_roundtrip:
  assumes "kne_registerBreakpoint en addr = Some (en', text)" "kne_addresses en addr = None" "kne_module en = []"
    and "kn_alloc e" "kn_register e addr" "32 \<le> kn_page_size e" "kpc_inv (k, tr, sh)" "kn_readable e"
    and "kpc_queue k = []" "kpc_running k = None" "kpc_hit k = []"
  shows "\<exists>k1 k2 x line. kpc_control_write e k text = Some (k1, WOk (length text)) \<and>
    kpc_probe_work (work_start (kpc_pre_handler k1 (kpc_next k))) = Some k2 \<and>
    kpc_unlink_next k2 = (Some x, k2\<lparr>kpc_hit := []\<rparr>) \<and> kpc_seq_show k2 x = Some line \<and>
    kne_continueExecution line = Some (True, [mk_Event ev_breakpoint 0 addr], [])"
proof -
  let ?x = "\<lparr>kce_id = kpc_next k, kce_addr = addr, kce_name_index = 0, kce_base_addr = 0\<rparr>"
  let ?k1 = "k\<lparr>kpc_next := kpc_next k + 1, kpc_pending := ?x # kpc_pending k\<rparr>"
  have tx: "text = ''0x'' @ fmt_hex (unat addr) @ [CHR 0x0A]"
    using assms(1-3) by (auto simp: kne_registerBreakpoint_def split: if_splits)
  have "unat addr < 16 ^ 16" using unsigned_less [of addr] by simp
  then have "length (fmt_hex (unat addr)) \<le> 16" using fmt_hex_length [of 16 "unat addr"] by simp
  moreover have "kpc_add_probe e k None addr = Some ?k1"
    using assms(4,5) by (simp add: kpc_add_probe_def new_entry_def kpc_allocate_module_name_index_def
        module_name_to_index_def enable_probe_def)
  ultimately have w: "kpc_control_write e k text = Some (?k1, WOk (length text))"
    using control_write_hex [of e addr k] assms(4,6,8) by (simp add: tx)
  have "kpc_next k \<notin> set (entry_ids (kpc_pending k))" "kpc_next k \<notin> set (entry_ids (kpc_deferred k))"
    using assms(7) by (auto simp: kpc_inv_def live_ids_def)
  then have drop: "drop_entry (kpc_next k) (kpc_pending k) = kpc_pending k"
    "drop_entry (kpc_next k) (kpc_deferred k) = kpc_deferred k"
    by (auto simp: drop_entry_def entry_ids_def filter_id_conv image_iff; metis)+
  let ?k2 = "k\<lparr>kpc_next := kpc_next k + 1, kpc_hit := [?x]\<rparr>"
  have "kpc_probe_work (work_start (kpc_pre_handler ?k1 (kpc_next k))) = Some ?k2"
    using assms(9-11) drop
    by (simp add: kpc_probe_work_def work_start_def kpc_pre_handler_def take_entry_def) (simp add: drop_entry_def)
  moreover have "kpc_unlink_next ?k2 = (Some ?x, ?k2\<lparr>kpc_hit := []\<rparr>)" by (simp add: kpc_unlink_next_def)
  moreover have "kpc_seq_show ?k2 ?x = Some (''0x'' @ pad0 16 (fmt_hex (unat addr)) @ [CHR 0x0A])"
    by (simp add: kpc_seq_show_def)
  ultimately show ?thesis
    using w show_event [of ?k2 ?x _ "[]"] by fastforce
qed

theorem kernel_probe_roundtrip_witness:
  "\<exists>k1 k2 x line. kpc_control_write demo_kernel_env kpc_init (''0x'' @ fmt_hex 4096 @ [CHR 0x0A]) = Some (k1, WOk 7) \<and>
    kpc_probe_work (work_start (kpc_pre_handler k1 0)) = Some k2 \<and>
    kpc_unlink_next k2 = (Some x, k2\<lparr>kpc_hit := []\<rparr>) \<and> kpc_seq_show k2 x = Some line \<and>
    kne_continueExecution line = Some (True, [mk_Event ev_breakpoint 0 4096], [])"
proof -
  have "kpc_inv (kpc_init, [], [])" by (simp add: kpc_inv_def kpc_init_def live_ids_def entry_ids_def)
  moreover have "length (fmt_hex 4096) = 4" by (simp add: fmt_hex.simps)
  ultimately show ?thesis
    using kernel_probe_roundtrip [of "mk_KernelEngine\<lparr>kne_control := True\<rparr>" 4096 _ _ demo_kernel_env kpc_init "[]" "[]"]
    by (simp add: kne_registerBreakpoint_def mk_KernelEngine_def demo_kernel_env_def kpc_init_def)
qed

end
