(* ===== verification/Kcov_Mach.thy ===== *)
theory Kcov_Mach
  imports Kcov_Ptrace Kcov_Memory Kcov_Config
begin

text \<open>
  The engine for macOS (\<open>src/src/engines/mach-engine.cc\<close>): breakpoints in the memory of the traced task
  and the exceptions it raises.

  \<^item> \<open>vm\<close> is the memory of the task by byte, with what the kernel lets kcov do at an address.
  \<^item> The answers of the kernel are arguments: the results of the calls of \<open>start\<close>, the message that
    \<open>mach_msg\<close> receives, and what the task does meanwhile.
  \<^item> \<open>None\<close> is a panic, an assertion that fails, or a shift by more than the width of the word, which
    is undefined in C++.
\<close>

section \<open>Breakpoints of the architectures\<close>

datatype mach_arch = mach_x86_64 | mach_arm64

text \<open>The address is converted to 32 bits on the way in.\<close>

definition mach_getAligned :: "u64 \<Rightarrow> u64" where
  "mach_getAligned addr = ucast ((ucast addr :: u32) div 4 * 4)"

text \<open>
  The shift count. For an address above 4 GB the aligned address has lost its upper half, the offset is
  4 GB or more, and the shift by eight times as much is undefined.
\<close>

definition mach_shift :: "u64 \<Rightarrow> nat option" where
  "mach_shift addr =
     (let shift = unat (8 * (addr - mach_getAligned addr)) in if shift < 64 then Some shift else None)"

definition mach_setupBreakpoint :: "mach_arch \<Rightarrow> u64 \<Rightarrow> u64 \<Rightarrow> u64 option" where
  "mach_setupBreakpoint ar addr old_data =
     map_option (\<lambda>shift.
       case ar of
         mach_x86_64 \<Rightarrow> patch old_data shift 0xff 0xcc
       | mach_arm64 \<Rightarrow> patch old_data shift 0xffffffff 0xd4200000) (mach_shift addr)"

definition mach_arch_clear :: "mach_arch \<Rightarrow> u64 \<Rightarrow> u64 \<Rightarrow> u64 \<Rightarrow> u64 option" where
  "mach_arch_clear ar addr old_data cur_data =
     (case ar of
        mach_x86_64 \<Rightarrow> map_option (\<lambda>shift. patch cur_data shift 0xff (drop_bit shift old_data AND 0xff)) (mach_shift addr)
      | mach_arm64 \<Rightarrow> Some old_data)"

text \<open>The program counter, and whether it is to be written back.\<close>

definition arch_adjustPcAfterBreakpoint :: "mach_arch \<Rightarrow> u64 \<Rightarrow> u64 \<times> bool" where
  "arch_adjustPcAfterBreakpoint ar pc = (case ar of mach_x86_64 \<Rightarrow> (pc - 1, True) | mach_arm64 \<Rightarrow> (pc, False))"

section \<open>The task\<close>

record vm =
  vm_mem :: "u64 \<Rightarrow> byte"
  vm_readable :: "u64 \<Rightarrow> bool"
  vm_writable :: "u64 \<Rightarrow> bool"
  vm_protectable :: "u64 \<Rightarrow> bool"

record MachEngine =
  me_instructionMap :: "u64 \<rightharpoonup> u32"
  me_pendingBreakpoints :: "u64 list"
  me_imageBase :: u64

definition mk_MachEngine :: MachEngine where
  "mk_MachEngine = \<lparr>me_instructionMap = Map.empty, me_pendingBreakpoints = [], me_imageBase = 0\<rparr>"

definition patch_addr :: "MachEngine \<Rightarrow> u64 \<Rightarrow> u64" where
  "patch_addr e aligned_addr = me_imageBase e + (aligned_addr AND 0xffffffff)"

definition word_at :: "(u64 \<Rightarrow> byte) \<Rightarrow> u64 \<Rightarrow> u32" where
  "word_at m p = word_le [m p, m (p + 1), m (p + 2), m (p + 3)]"

definition put_word :: "u64 \<Rightarrow> u32 \<Rightarrow> (u64 \<Rightarrow> byte) \<Rightarrow> u64 \<Rightarrow> byte" where
  "put_word p val m = m(p := ucast val, p + 1 := ucast (drop_bit 8 val), p + 2 := ucast (drop_bit 16 val),
     p + 3 := ucast (drop_bit 24 val))"

definition mach_peekWord :: "MachEngine \<Rightarrow> vm \<Rightarrow> u64 \<Rightarrow> u32 option" where
  "mach_peekWord e w aligned_addr =
     (if aligned_addr AND 3 \<noteq> 0 \<or> \<not> vm_readable w (patch_addr e aligned_addr) then None
      else Some (word_at (vm_mem w) (patch_addr e aligned_addr)))"

text \<open>A write that the kernel refuses leaves the page writable.\<close>

definition mach_pokeWord :: "MachEngine \<Rightarrow> vm \<Rightarrow> u64 \<Rightarrow> u32 \<Rightarrow> vm option" where
  "mach_pokeWord e w aligned_addr val =
     (let p = patch_addr e aligned_addr
      in if aligned_addr AND 3 \<noteq> 0 \<or> \<not> vm_protectable w p then None
         else if \<not> vm_writable w p then Some w
         else Some (w\<lparr>vm_mem := put_word p val (vm_mem w)\<rparr>))"

section \<open>Breakpoints\<close>

definition mach_registerBreakpoint :: "Configuration \<Rightarrow> MachEngine \<Rightarrow> vm \<Rightarrow> u64 \<Rightarrow> MachEngine option" where
  "mach_registerBreakpoint conf e w addr =
     (if me_instructionMap e addr \<noteq> None then Some e
      else case keyAsInt conf ''running-mode'' of
        Inl _ \<Rightarrow> None
      | Inr mode \<Rightarrow>
          map_option (\<lambda>data. e\<lparr>me_instructionMap := (me_instructionMap e)(addr \<mapsto> data),
                              me_pendingBreakpoints := insort_insert addr (me_pendingBreakpoints e)\<rparr>)
            (if mode \<noteq> MODE_REPORT_ONLY then mach_peekWord e w (mach_getAligned addr) else Some 0))"

fun mach_setup_breakpoints :: "mach_arch \<Rightarrow> MachEngine \<Rightarrow> vm \<Rightarrow> u64 list \<Rightarrow> vm option" where
  "mach_setup_breakpoints ar e w [] = Some w"
| "mach_setup_breakpoints ar e w (addr # addrs) =
     Option.bind (mach_peekWord e w (mach_getAligned addr)) (\<lambda>cur_data.
     Option.bind (mach_setupBreakpoint ar addr (ucast cur_data)) (\<lambda>val.
     Option.bind (mach_pokeWord e w (mach_getAligned addr) (ucast val))
       (\<lambda>w1. mach_setup_breakpoints ar e w1 addrs)))"

definition mach_setupAllBreakpoints :: "mach_arch \<Rightarrow> MachEngine \<Rightarrow> vm \<Rightarrow> (MachEngine \<times> vm) option" where
  "mach_setupAllBreakpoints ar e w =
     map_option (\<lambda>w1. (e\<lparr>me_pendingBreakpoints := []\<rparr>, w1)) (mach_setup_breakpoints ar e w (me_pendingBreakpoints e))"

definition mach_clearBreakpoint :: "mach_arch \<Rightarrow> MachEngine \<Rightarrow> vm \<Rightarrow> u64 \<Rightarrow> (bool \<times> vm) option" where
  "mach_clearBreakpoint ar e w addr =
     (case me_instructionMap e addr of
        None \<Rightarrow> Some (False, w)
      | Some val \<Rightarrow>
          Option.bind (mach_peekWord e w (mach_getAligned addr)) (\<lambda>cur.
          Option.bind (mach_arch_clear ar addr (ucast val) (ucast cur)) (\<lambda>val'.
            map_option (\<lambda>w1. (True, w1)) (mach_pokeWord e w (mach_getAligned addr) (ucast val')))))"

section \<open>Exceptions\<close>

text \<open>
  What \<open>mach_msg\<close> brings: an exception with its code, a breakpoint with the program counter of the
  thread (\<open>None\<close> if \<open>thread_get_state\<close> fails), or a message the generated server code refuses.
\<close>

datatype mach_exc = ExcSoftSignal u64 | ExcBadAccess u64 | ExcBreakpoint "u64 option" | ExcOther | ExcUnparsed

text \<open>The events, the signal passed on to the thread, its new program counter, and whether the exception is handled.\<close>

record exc_result =
  er_events :: "Event list"
  er_forward :: "u64 option"
  er_pc :: "u64 option"
  er_success :: bool

definition exc_none :: exc_result where
  "exc_none = \<lparr>er_events = [], er_forward = None, er_pc = None, er_success = True\<rparr>"

definition CatchMachExceptionRaise :: "mach_arch \<Rightarrow> MachEngine \<Rightarrow> vm \<Rightarrow> mach_exc \<Rightarrow> (exc_result \<times> vm) option" where
  "CatchMachExceptionRaise ar e w exc =
     (case exc of
        ExcSoftSignal sig \<Rightarrow> Some (exc_none\<lparr>er_forward := Some sig\<rparr>, w)
      | ExcBadAccess code \<Rightarrow>
          Some (exc_none\<lparr>er_events := [mk_Event ev_signal (ucast code) 0], er_success := False\<rparr>, w)
      | ExcBreakpoint None \<Rightarrow> Some (exc_none, w)
      | ExcBreakpoint (Some reg) \<Rightarrow>
          (case arch_adjustPcAfterBreakpoint ar reg of (pc, dirty) \<Rightarrow>
             map_option (\<lambda>(_, w1). (exc_none\<lparr>er_events := [mk_Event ev_breakpoint (- 1) pc],
                                           er_pc := (if dirty then Some pc else None)\<rparr>, w1))
               (if me_instructionMap e pc \<noteq> None then mach_clearBreakpoint ar e w pc else Some (True, w)))
      | ExcOther \<Rightarrow> Some (exc_none, w)
      | ExcUnparsed \<Rightarrow> Some (exc_none, w))"

text \<open>\<open>run\<close> is what the task does until the message \<open>msg\<close> comes; \<open>None\<close> once the port is gone.\<close>

definition mach_continueExecution ::
  "mach_arch \<Rightarrow> MachEngine \<Rightarrow> vm \<Rightarrow> (vm \<Rightarrow> vm) \<Rightarrow> mach_exc option \<Rightarrow> (bool \<times> exc_result \<times> MachEngine \<times> vm) option" where
  "mach_continueExecution ar e w run msg =
     Option.bind (mach_setupAllBreakpoints ar e w) (\<lambda>(e1, w1).
       case msg of
         None \<Rightarrow> Some (False, exc_none\<lparr>er_events := [mk_Event ev_exit 0 0]\<rparr>, e1, run w1)
       | Some exc \<Rightarrow> map_option (\<lambda>(r, w2). (True, r, e1, w2)) (CatchMachExceptionRaise ar e1 (run w1) exc))"

section \<open>Starting the program\<close>

definition MH_MAGIC_64 :: u32 where
  "MH_MAGIC_64 = 0xfeedfacf"

text \<open>
  The regions of the task in the order \<open>vm_region_recurse_64\<close> gives them, each with what is read at its
  start and how many bytes that was; \<open>None\<close> is the end of kcov.
\<close>

fun findImageAddress :: "(u64 \<times> (u32 \<times> nat) option) list \<Rightarrow> u64 option" where
  "findImageAddress [] = None"
| "findImageAddress ((addr, header) # regions) =
     (case header of
        None \<Rightarrow> None
      | Some (h, bytes_read) \<Rightarrow>
          if bytes_read \<noteq> 4 then None
          else if h = MH_MAGIC_64 then (if addr = 0 then None else Some addr)
          else findImageAddress regions)"

record mach_calls =
  mc_spawnattr_init :: bool
  mc_spawnattr_setflags :: bool
  mc_spawn :: bool
  mc_task_for_pid :: bool
  mc_regions :: "(u64 \<times> (u32 \<times> nat) option) list"
  mc_get_ports :: bool
  mc_port_allocate :: bool
  mc_set_ports :: bool
  mc_ptrace :: bool

datatype mach_start_result = MExit | MFailed | MStarted MachEngine

definition mach_start :: "Configuration \<Rightarrow> mach_calls \<Rightarrow> MachEngine \<Rightarrow> conf_error + mach_start_result" where
  "mach_start conf c e =
     rbind (keyAsInt conf ''attach-pid'') (\<lambda>pid.
       if pid \<noteq> 0 then Inr MExit
       else if \<not> mc_spawnattr_init c \<or> \<not> mc_spawnattr_setflags c \<or> \<not> mc_spawn c then Inr MFailed
       else if \<not> mc_task_for_pid c then Inr MExit
       else rbind (keyAsInt conf ''is-go-binary'') (\<lambda>go.
         case (if go = 0 then findImageAddress (mc_regions c) else Some (me_imageBase e)) of
           None \<Rightarrow> Inr MExit
         | Some base \<Rightarrow>
             if \<not> mc_get_ports c \<or> \<not> mc_port_allocate c \<or> \<not> mc_set_ports c \<or> \<not> mc_ptrace c then Inr MFailed
             else Inr (MStarted (e\<lparr>me_imageBase := base\<rparr>))))"

definition mach_matchFile :: nat where
  "mach_matchFile = 2"

end
