(* ===== verification/Kcov_Mach_Props.thy ===== *)
theory Kcov_Mach_Props
  imports Kcov_Mach Kcov_Ptrace_Props
begin

text \<open>
  The breakpoints of the macOS engine: setting and clearing them changes one byte of the text each.
\<close>

section \<open>Words and bytes\<close>

lemma byte_cast:
  "t \<le> 24 \<Longrightarrow> (ucast (drop_bit t (ucast (x :: u64) :: u32)) :: byte) = ucast (drop_bit t x)"
  "t \<le> 24 \<Longrightarrow> (ucast (drop_bit t (ucast (y :: u32) :: u64)) :: byte) = ucast (drop_bit t y)"
  by (rule bit_word_eqI; auto simp: bit_simps)+

lemma bytes_of_word_at:
  "(ucast (word_at m p) :: byte) = m p" "(ucast (drop_bit 8 (word_at m p)) :: byte) = m (p + 1)"
  "(ucast (drop_bit 16 (word_at m p)) :: byte) = m (p + 2)" "(ucast (drop_bit 24 (word_at m p)) :: byte) = m (p + 3)"
proof -
  have b: "bytes_le (word_at m p) = [m p, m (p + 1), m (p + 2), m (p + 3)]" unfolding word_at_def by (rule bytes_le_word_le) simp_all
  have "bytes_le (word_at m p) ! i = ucast (drop_bit (8 * i) (word_at m p))" if "i < 4" for i
    using that by (simp add: nth_bytes_le)
  from this [of 0] this [of 1] this [of 2] this [of 3] show
    "(ucast (word_at m p) :: byte) = m p" "(ucast (drop_bit 8 (word_at m p)) :: byte) = m (p + 1)"
    "(ucast (drop_bit 16 (word_at m p)) :: byte) = m (p + 2)" "(ucast (drop_bit 24 (word_at m p)) :: byte) = m (p + 3)"
    unfolding b by simp_all
qed

lemma byte_of_patch:
  assumes "v AND 0xff = v" "j < 4" "k < 4"
  shows "(ucast (drop_bit (8 * k) (ucast (patch (ucast (w :: u32)) (8 * j) 0xff v) :: u32)) :: byte) =
    (if j = k then ucast v else ucast (drop_bit (8 * k) w))"
  using byte_patch [OF assms(1), of "8 * j" "8 * k" "ucast w"] assms(2,3) by (simp add: byte_cast)

lemma put_patched:
  assumes "v AND 0xff = v" "j < 4"
  shows "put_word p (ucast (patch (ucast (word_at m p)) (8 * j) 0xff v)) m = m(p + of_nat j := ucast v)"
proof -
  define x where "x = (ucast (patch (ucast (word_at m p)) (8 * j) 0xff v) :: u32)"
  have b: "(ucast (drop_bit (8 * k) x) :: byte) = (if j = k then ucast v else ucast (drop_bit (8 * k) (word_at m p)))" if "k < 4" for k
    unfolding x_def using byte_of_patch [OF assms that] .
  have "(ucast x :: byte) = (if j = 0 then ucast v else m p)" "(ucast (drop_bit 8 x) :: byte) = (if j = 1 then ucast v else m (p + 1))"
    "(ucast (drop_bit 16 x) :: byte) = (if j = 2 then ucast v else m (p + 2))"
    "(ucast (drop_bit 24 x) :: byte) = (if j = 3 then ucast v else m (p + 3))"
    using b [of 0] b [of 1] b [of 2] b [of 3] by (simp_all add: bytes_of_word_at)
  moreover consider "j = 0" | "j = 1" | "j = 2" | "j = 3" using assms(2) by linarith
  ultimately show ?thesis unfolding put_word_def x_def [symmetric]
    by cases (auto simp: fun_eq_iff)
qed

section \<open>Addresses\<close>

text \<open>The byte a breakpoint at \<open>addr\<close> is put in.\<close>

definition target :: "u64 \<Rightarrow> u64 \<Rightarrow> u64" where
  "target base addr = base + (addr AND 0xffffffff)"

lemma mach_aligned: "unat (mach_getAligned addr) = unat addr mod 2 ^ 32 - unat addr mod 4"
proof -
  have "unat ((ucast addr :: u32) div 4 * 4) = unat (ucast addr :: u32) div 4 * 4"
    using unsigned_less [where w = "ucast addr :: u32" and ?'a = nat] by (simp add: unat_word_ariths unat_div)
  then show ?thesis
    by (simp add: mach_getAligned_def unat_ucast_32 minus_mod_eq_div_mult [symmetric] mod_mod_cancel)
qed

lemma aligned_plus: "unat addr mod 2 ^ 32 = unat (mach_getAligned addr) + unat addr mod 4"
proof -
  have "unat addr mod 4 = unat addr mod 2 ^ 32 mod 4" by (simp add: mod_mod_cancel)
  also have "\<dots> \<le> unat addr mod 2 ^ 32" by (rule mod_less_eq_dividend)
  finally show ?thesis by (simp add: mach_aligned)
qed

lemma mach_offset:
  "unat (8 * (addr - mach_getAligned addr)) = (unat addr div 2 ^ 32 * 2 ^ 35 + 8 * (unat addr mod 4)) mod 2 ^ 64"
proof -
  define r where "r = unat addr mod 4"
  have le: "unat (mach_getAligned addr) \<le> unat addr" using aligned_plus [of addr] mod_less_eq_dividend [of "unat addr" "2 ^ 32"] by linarith
  have "unat addr = unat addr div 2 ^ 32 * 2 ^ 32 + (unat (mach_getAligned addr) + r)"
    unfolding r_def aligned_plus [symmetric] by simp
  then have d: "unat (addr - mach_getAligned addr) = unat addr div 2 ^ 32 * 2 ^ 32 + r"
    using unat_sub [of "mach_getAligned addr" addr] le by (simp add: word_le_nat_alt)
  have "unat (8 * (addr - mach_getAligned addr)) = 8 * unat (addr - mach_getAligned addr) mod 2 ^ 64"
    by (subst unat_word_ariths(2)) (simp del: right_diff_distrib_numeral)
  also have "\<dots> = (unat addr div 2 ^ 32 * 2 ^ 35 + 8 * r) mod 2 ^ 64" unfolding d by (simp add: algebra_simps)
  finally show ?thesis by (simp only: r_def)
qed

text \<open>Where the shift is defined it is the offset in the word; above 4 GB it is not (below 2^61, where the product wraps).\<close>

lemma mach_shift_eq:
  assumes "mach_shift addr = Some s"
  shows "s = 8 * (unat addr mod 4)"
proof -
  have s: "s = (unat addr div 2 ^ 32 * 2 ^ 35 + 8 * (unat addr mod 4)) mod 2 ^ 64" "s < 64"
    using assms unfolding mach_shift_def Let_def mach_offset by (auto split: if_splits)
  have "s = s mod 64" using s(2) by simp
  also have "\<dots> = (unat addr div 2 ^ 32 * 2 ^ 35 + 8 * (unat addr mod 4)) mod 64" unfolding s(1) by (simp add: mod_mod_cancel)
  also have "\<dots> = 8 * (unat addr mod 4) mod 64"
    using mod_add_left_eq [of "unat addr div 2 ^ 32 * 2 ^ 35" 64 "8 * (unat addr mod 4)"] by simp
  also have "\<dots> = 8 * (unat addr mod 4)" by simp
  finally show ?thesis .
qed

lemma mach_shift_low: "drop_bit 32 addr = 0 \<Longrightarrow> mach_shift addr = Some (8 * (unat addr mod 4))"
proof -
  assume "drop_bit 32 addr = 0"
  then have "unat (drop_bit 32 addr) = 0" by simp
  then have "unat addr div 2 ^ 32 = 0" unfolding unat_drop_bit_eq by (simp only: drop_bit_eq_div)
  then have "unat (8 * (addr - mach_getAligned addr)) = 8 * (unat addr mod 4)" unfolding mach_offset by simp
  then show ?thesis by (simp add: mach_shift_def)
qed

lemma mach_shift_high:
  assumes "2 ^ 32 \<le> unat addr" "unat addr < 2 ^ 61"
  shows "mach_shift addr = None"
proof -
  have "1 \<le> unat addr div 2 ^ 32" "unat addr div 2 ^ 32 < 2 ^ 29"
    using assms by (simp_all add: div_less_iff_less_mult Suc_le_eq div_greater_zero_iff)
  then have "64 \<le> (unat addr div 2 ^ 32 * 2 ^ 35 + 8 * (unat addr mod 4)) mod 2 ^ 64"
    by (subst mod_less) simp_all
  then show ?thesis unfolding mach_shift_def Let_def mach_offset by (simp only: not_less [symmetric] if_False)
qed

lemma low_bits: "a AND 0xffffffff = (of_nat (unat a mod 2 ^ 32) :: u64)"
proof -
  have m: "(0xffffffff :: u64) = mask 32" by (simp add: mask_eq_exp_minus_1)
  have "a AND 0xffffffff = take_bit 32 a" unfolding m by (rule take_bit_eq_mask [symmetric])
  also have "\<dots> = of_nat (unat (take_bit 32 a))" by simp
  also have "unat (take_bit 32 a) = unat a mod 2 ^ 32" by (subst unsigned_take_bit_eq) (rule take_bit_eq_mod)
  finally show ?thesis .
qed

lemma target_eq: "target base addr = base + (mach_getAligned addr AND 0xffffffff) + of_nat (unat addr mod 4)"
proof -
  have "unat (mach_getAligned addr) mod 2 ^ 32 = unat (mach_getAligned addr)"
    using aligned_plus [of addr] mod_less_divisor [of "2 ^ 32" "unat addr"] by (intro mod_less) simp
  then have "mach_getAligned addr AND 0xffffffff = of_nat (unat (mach_getAligned addr))" by (simp only: low_bits)
  moreover have "addr AND 0xffffffff = of_nat (unat (mach_getAligned addr)) + of_nat (unat addr mod 4)"
    unfolding low_bits aligned_plus by (rule of_nat_add)
  ultimately show ?thesis by (simp only: target_def add.assoc)
qed

lemma aligned_and_3: "mach_getAligned addr AND 3 = 0"
proof -
  have m: "(3 :: u64) = mask 2" by (simp add: mask_eq_exp_minus_1)
  have "unat (take_bit 2 (mach_getAligned addr)) = unat (mach_getAligned addr) mod 4"
    by (subst unsigned_take_bit_eq) (simp add: take_bit_eq_mod)
  also have "\<dots> = (unat addr mod 2 ^ 32 - unat addr mod 2 ^ 32 mod 4) mod 4"
    unfolding mach_aligned by (simp add: mod_mod_cancel)
  also have "\<dots> = 0" by (simp add: minus_mod_eq_mult_div)
  finally show ?thesis unfolding m take_bit_eq_mask [symmetric] by (simp only: unsigned_eq_0_iff)
qed

section \<open>Runs\<close>

text \<open>
  The traced program runs until a message comes. It does not write to its text \<open>T\<close>, and its code is
  linked within 4 GB, at addresses that agree in their upper half \<open>hi\<close>.
\<close>

definition mach_text_kept :: "u64 set \<Rightarrow> (vm \<Rightarrow> vm) \<Rightarrow> bool" where
  "mach_text_kept T run = (\<forall>w. (\<forall>q \<in> T. vm_mem (run w) q = vm_mem w q) \<and> vm_writable (run w) = vm_writable w)"

definition in_text :: "u64 \<Rightarrow> u64 set \<Rightarrow> u64 \<Rightarrow> bool" where
  "in_text base T addr = (let p = base + (mach_getAligned addr AND 0xffffffff) in {p, p + 1, p + 2, p + 3} \<subseteq> T)"

inductive mach_step :: "Configuration \<Rightarrow> u64 \<Rightarrow> u64 \<Rightarrow> u64 set \<Rightarrow> MachEngine \<times> vm \<Rightarrow> MachEngine \<times> vm \<Rightarrow> bool"
  for conf base hi T where
  register: "drop_bit 32 a = hi \<Longrightarrow> in_text base T a \<Longrightarrow> mach_registerBreakpoint conf e w a = Some e' \<Longrightarrow>
    mach_step conf base hi T (e, w) (e', w)"
| go_on: "mach_text_kept T run \<Longrightarrow> mach_continueExecution mach_x86_64 e w run msg = Some (r, er, e', w') \<Longrightarrow>
    mach_step conf base hi T (e, w) (e', w')"

definition mach_inv :: "u64 \<Rightarrow> u64 \<Rightarrow> u64 set \<Rightarrow> (u64 \<Rightarrow> byte) \<Rightarrow> u64 set \<Rightarrow> MachEngine \<times> vm \<Rightarrow> bool" where
  "mach_inv base hi T m0 act s =
     (case s of (e, w) \<Rightarrow>
        me_imageBase e = base \<and> set (me_pendingBreakpoints e) \<subseteq> dom (me_instructionMap e) \<and>
        act \<subseteq> dom (me_instructionMap e) - set (me_pendingBreakpoints e) \<and>
        (\<forall>a \<in> dom (me_instructionMap e). drop_bit 32 a = hi \<and> in_text base T a) \<and>
        (\<forall>a \<in> act. vm_writable w (base + (mach_getAligned a AND 0xffffffff))) \<and>
        (\<forall>q \<in> T. vm_mem w q = (if q \<in> target base ` act then 0xcc else m0 q)) \<and>
        (\<forall>a old. me_instructionMap e a = Some old \<longrightarrow>
           (ucast (drop_bit (8 * (unat a mod 4)) old) :: byte) = m0 (target base a)))"

lemma target_inj: "drop_bit 32 a = drop_bit 32 b \<Longrightarrow> target base a = target base b \<Longrightarrow> a = b"
proof (rule bit_word_eqI)
  fix n assume d: "drop_bit 32 a = drop_bit 32 b" and t: "target base a = target base b"
  have m: "(0xffffffff :: u64) = mask 32" by (simp add: mask_eq_exp_minus_1)
  have "a AND mask 32 = b AND mask 32" using t by (simp add: target_def m)
  then have "bit (a AND mask 32) n = bit (b AND mask 32) n" by simp
  then have low: "n < 32 \<Longrightarrow> bit a n = bit b n" by (simp add: bit_and_iff bit_mask_iff)
  have "bit (drop_bit 32 a) (n - 32) = bit (drop_bit 32 b) (n - 32)" using d by simp
  then show "bit a n = bit b n" using low by (cases "n < 32") (simp_all add: bit_drop_bit_eq)
qed

lemma word_at_byte:
  assumes "j < 4"
  shows "(ucast (drop_bit (8 * j) (word_at m p)) :: byte) = m (p + of_nat j)"
proof -
  consider "j = 0" | "j = 1" | "j = 2" | "j = 3" using assms by linarith
  then show ?thesis by cases (simp_all add: bytes_of_word_at)
qed

lemma target_in_text: "in_text base T a \<Longrightarrow> target base a \<in> T"
proof -
  consider "unat a mod 4 = 0" | "unat a mod 4 = 1" | "unat a mod 4 = 2" | "unat a mod 4 = 3" by linarith
  then show "in_text base T a \<Longrightarrow> ?thesis" by cases (simp_all add: target_eq in_text_def Let_def)
qed

lemma poke_patched:
  assumes "v AND 0xff = v" "mach_peekWord e w (mach_getAligned a) = Some cur" "mach_shift a = Some shift"
    and "mach_pokeWord e w (mach_getAligned a) (ucast (patch (ucast cur) shift 0xff v)) = Some w'"
  shows "w' = (if vm_writable w (me_imageBase e + (mach_getAligned a AND 0xffffffff))
    then w\<lparr>vm_mem := (vm_mem w)(target (me_imageBase e) a := ucast v)\<rparr> else w)"
proof -
  have "cur = word_at (vm_mem w) (patch_addr e (mach_getAligned a))"
    using assms(2) by (simp add: mach_peekWord_def split: if_splits)
  then show ?thesis using assms(4) put_patched [OF assms(1), of "unat a mod 4"]
    by (auto simp: mach_pokeWord_def Let_def mach_shift_eq [OF assms(3)] target_eq patch_addr_def split: if_splits)
qed

abbreviation wr :: "u64 \<Rightarrow> vm \<Rightarrow> u64 \<Rightarrow> bool" where
  "wr base w a \<equiv> vm_writable w (base + (mach_getAligned a AND 0xffffffff))"

lemma mach_setup_byte:
  "mach_setup_breakpoints mach_x86_64 e w as = Some w' \<Longrightarrow> vm_writable w' = vm_writable w \<and>
     (\<forall>q. vm_mem w' q = (if q \<in> target (me_imageBase e) ` {a \<in> set as. wr (me_imageBase e) w a} then 0xcc else vm_mem w q))"
proof (induction as arbitrary: w)
  case (Cons a as)
  obtain cur shift w1 where c: "mach_peekWord e w (mach_getAligned a) = Some cur" "mach_shift a = Some shift"
    "mach_pokeWord e w (mach_getAligned a) (ucast (patch (ucast cur) shift 0xff 0xcc)) = Some w1"
    "mach_setup_breakpoints mach_x86_64 e w1 as = Some w'"
    using Cons.prems by (auto simp: Option.bind_eq_Some_conv mach_setupBreakpoint_def)
  have w1: "w1 = (if wr (me_imageBase e) w a then w\<lparr>vm_mem := (vm_mem w)(target (me_imageBase e) a := 0xcc)\<rparr> else w)"
    using poke_patched [OF _ c(1,2,3)] by simp
  then have same: "vm_writable w1 = vm_writable w" by simp
  show ?case using Cons.IH [OF c(4)] unfolding same by (auto simp: w1)
qed simp

lemma mach_clear_byte:
  assumes "me_instructionMap e a = Some old" "mach_clearBreakpoint mach_x86_64 e w a = Some (r, w')"
  shows "w' = (if wr (me_imageBase e) w a
    then w\<lparr>vm_mem := (vm_mem w)(target (me_imageBase e) a := ucast (drop_bit (8 * (unat a mod 4)) old))\<rparr> else w)"
proof -
  obtain cur shift where c: "mach_peekWord e w (mach_getAligned a) = Some cur" "mach_shift a = Some shift"
    "mach_pokeWord e w (mach_getAligned a) (ucast (patch (ucast cur) shift 0xff (drop_bit shift (ucast old :: u64) AND 0xff))) = Some w'"
    using assms by (auto simp: mach_clearBreakpoint_def mach_arch_clear_def Option.bind_eq_Some_conv)
  let ?v = "drop_bit shift (ucast old :: u64) AND 0xff"
  have v: "?v AND 0xff = ?v" by (simp add: and.assoc)
  have m: "(0xff :: u64) = mask 8" by (simp add: mask_eq_exp_minus_1)
  have "(ucast ?v :: byte) = ucast (drop_bit shift (ucast old :: u64))"
    unfolding m by (rule bit_word_eqI) (auto simp: bit_simps)
  also have "\<dots> = ucast (drop_bit (8 * (unat a mod 4)) old)"
    unfolding mach_shift_eq [OF c(2)] by (rule byte_cast(2)) simp
  finally show ?thesis using poke_patched [OF v c] by simp
qed

lemma mach_invD:
  assumes "mach_inv base hi T m0 act (e, w)"
  shows "me_imageBase e = base" "act \<subseteq> dom (me_instructionMap e) - set (me_pendingBreakpoints e)"
    "\<forall>a \<in> dom (me_instructionMap e). drop_bit 32 a = hi \<and> in_text base T a" "\<forall>a \<in> act. wr base w a"
    "\<forall>a old. me_instructionMap e a = Some old \<longrightarrow> (ucast (drop_bit (8 * (unat a mod 4)) old) :: byte) = m0 (target base a)"
  using assms by (simp_all add: mach_inv_def)

lemma mach_register_inv:
  assumes inv: "mach_inv base hi T m0 act (e, w)" and a: "drop_bit 32 a = hi" "in_text base T a"
    and reg: "mach_registerBreakpoint conf e w a = Some e'"
    and mode: "keyAsInt conf ''running-mode'' = Inr mode" "mode \<noteq> MODE_REPORT_ONLY"
  shows "mach_inv base hi T m0 act (e', w)"
proof (cases "me_instructionMap e a")
  case (Some d)
  with reg inv show ?thesis by (simp add: mach_registerBreakpoint_def)
next
  case None
  note base = mach_invD(1) [OF inv]
  obtain old where old: "mach_peekWord e w (mach_getAligned a) = Some old"
    and e': "e' = e\<lparr>me_instructionMap := (me_instructionMap e)(a \<mapsto> old),
      me_pendingBreakpoints := insort_insert a (me_pendingBreakpoints e)\<rparr>"
    using reg None mode by (auto simp: mach_registerBreakpoint_def)
  have "old = word_at (vm_mem w) (base + (mach_getAligned a AND 0xffffffff))"
    using old base by (simp add: mach_peekWord_def patch_addr_def split: if_splits)
  then have "(ucast (drop_bit (8 * (unat a mod 4)) old) :: byte) = vm_mem w (target base a)"
    using word_at_byte [of "unat a mod 4"] by (simp add: target_eq)
  moreover have "target base a \<notin> target base ` act"
  proof
    assume "target base a \<in> target base ` act"
    then obtain b where b: "b \<in> act" "target base a = target base b" by blast
    have d: "b \<in> dom (me_instructionMap e)" using mach_invD(2) [OF inv] b(1) by blast
    then have "drop_bit 32 b = hi" using mach_invD(3) [OF inv] by blast
    then have "a = b" using target_inj b(2) a(1) by blast
    with d None show False by auto
  qed
  ultimately have "(ucast (drop_bit (8 * (unat a mod 4)) old) :: byte) = m0 (target base a)"
    using inv target_in_text [OF a(2)] by (simp add: mach_inv_def)
  with inv a None show ?thesis by (auto simp: mach_inv_def e' set_insort_insert)
qed

lemma mach_setup_inv:
  assumes inv: "mach_inv base hi T m0 act (e, w)" and s: "mach_setupAllBreakpoints mach_x86_64 e w = Some (e1, w1)"
  shows "mach_inv base hi T m0 (act \<union> {a \<in> set (me_pendingBreakpoints e). wr base w a}) (e1, w1)"
    and "me_instructionMap e1 = me_instructionMap e"
proof -
  obtain w' where w': "mach_setup_breakpoints mach_x86_64 e w (me_pendingBreakpoints e) = Some w'" "w1 = w'"
    "e1 = e\<lparr>me_pendingBreakpoints := []\<rparr>" using s by (auto simp: mach_setupAllBreakpoints_def)
  with mach_setup_byte [OF w'(1)] inv
  show "mach_inv base hi T m0 (act \<union> {a \<in> set (me_pendingBreakpoints e). wr base w a}) (e1, w1)"
    by (auto simp: mach_inv_def)
  show "me_instructionMap e1 = me_instructionMap e" by (simp add: w'(3))
qed

lemma mach_run_inv:
  "mach_inv base hi T m0 act (e, w) \<Longrightarrow> mach_text_kept T run \<Longrightarrow> mach_inv base hi T m0 act (e, run w)"
  by (simp add: mach_inv_def mach_text_kept_def)

lemma mach_clear_inv:
  assumes inv: "mach_inv base hi T m0 act (e, w)" and c: "me_instructionMap e a = Some old"
    "mach_clearBreakpoint mach_x86_64 e w a = Some (r, w')" and p: "a \<notin> set (me_pendingBreakpoints e)"
  shows "mach_inv base hi T m0 (act - {a}) (e, w')"
proof -
  note base = mach_invD(1) [OF inv] and wr = mach_invD(4) [OF inv]
  have old: "(ucast (drop_bit (8 * (unat a mod 4)) old) :: byte) = m0 (target base a)"
    using mach_invD(5) [OF inv] c(1) by blast
  have hi: "drop_bit 32 b = hi" if "b \<in> act \<or> b = a" for b
    using mach_invD(2,3) [OF inv] that c(1) by blast
  have t: "target base a \<in> target base ` act \<longleftrightarrow> a \<in> act" "target base ` (act - {a}) = target base ` act - {target base a}"
    using target_inj hi by blast+
  note w' = mach_clear_byte [OF c, unfolded base old]
  show ?thesis
  proof (cases "wr base w a")
    case True
    then have "w' = w\<lparr>vm_mem := (vm_mem w)(target base a := m0 (target base a))\<rparr>" using w' by simp
    with inv show ?thesis unfolding mach_inv_def by (auto simp: t(2))
  next
    case False
    with wr have "a \<notin> act" by blast
    then show ?thesis using inv w' False by simp
  qed
qed


lemma mach_catch_inv:
  assumes inv: "mach_inv base hi T m0 act (e, w)" and none: "me_pendingBreakpoints e = []"
    and c: "CatchMachExceptionRaise mach_x86_64 e w exc = Some (er, w')"
  shows "\<exists>act'. mach_inv base hi T m0 act' (e, w')"
proof (cases "\<exists>reg old. exc = ExcBreakpoint (Some reg) \<and> me_instructionMap e (reg - 1) = Some old")
  case True
  then obtain reg old r where "exc = ExcBreakpoint (Some reg)" "me_instructionMap e (reg - 1) = Some old"
    "mach_clearBreakpoint mach_x86_64 e w (reg - 1) = Some (r, w')"
    using c by (auto simp: CatchMachExceptionRaise_def arch_adjustPcAfterBreakpoint_def)
  then have "mach_inv base hi T m0 (act - {reg - 1}) (e, w')" using mach_clear_inv [OF inv] none by simp
  then show ?thesis ..
next
  case False
  then have "w' = w"
    using c by (auto simp: CatchMachExceptionRaise_def arch_adjustPcAfterBreakpoint_def split: mach_exc.splits option.splits if_splits)
  with inv show ?thesis by blast
qed

lemma mach_go_on_inv:
  assumes inv: "mach_inv base hi T m0 act (e, w)" and run: "mach_text_kept T run"
    and c: "mach_continueExecution mach_x86_64 e w run msg = Some (r, er, e', w')"
  shows "\<exists>act'. mach_inv base hi T m0 act' (e', w')"
proof -
  obtain w1 where s: "mach_setupAllBreakpoints mach_x86_64 e w = Some (e', w1)" and
    k: "case msg of None \<Rightarrow> w' = run w1 | Some exc \<Rightarrow> CatchMachExceptionRaise mach_x86_64 e' (run w1) exc = Some (er, w')"
    using c by (auto simp: mach_continueExecution_def Option.bind_eq_Some_conv split: option.splits)
  have "mach_inv base hi T m0 (act \<union> {a \<in> set (me_pendingBreakpoints e). wr base w a}) (e', run w1)"
    using mach_run_inv [OF mach_setup_inv(1) [OF inv s] run] .
  moreover have "me_pendingBreakpoints e' = []" using s by (auto simp: mach_setupAllBreakpoints_def)
  ultimately show ?thesis using k mach_catch_inv by (cases msg) auto
qed

text \<open>The states in which a run starts: the engine knows the base of the image and no breakpoint.\<close>

definition mach_init :: "u64 \<Rightarrow> (u64 \<Rightarrow> byte) \<Rightarrow> MachEngine \<times> vm \<Rightarrow> bool" where
  "mach_init base m0 s = (fst s = mk_MachEngine\<lparr>me_imageBase := base\<rparr> \<and> vm_mem (snd s) = m0)"

definition collects :: "Configuration \<Rightarrow> bool" where
  "collects conf = (case keyAsInt conf ''running-mode'' of Inl _ \<Rightarrow> False | Inr mode \<Rightarrow> mode \<noteq> MODE_REPORT_ONLY)"

interpretation mach_breakpoints: step_invariant "\<lambda>s. mach_init base m0 s \<and> collects conf" "mach_step conf base hi T"
  "\<lambda>s. (\<exists>act. mach_inv base hi T m0 act s) \<and> collects conf"
proof unfold_locales
  fix s assume "mach_init base m0 s \<and> collects conf"
  then have "mach_inv base hi T m0 {} s" by (cases s) (simp add: mach_init_def mach_inv_def mk_MachEngine_def)
  then show "(\<exists>act. mach_inv base hi T m0 act s) \<and> collects conf" using \<open>mach_init base m0 s \<and> collects conf\<close> by blast
next
  fix s t assume s: "(\<exists>act. mach_inv base hi T m0 act s) \<and> collects conf" and "mach_step conf base hi T s t"
  from this(2) show "(\<exists>act. mach_inv base hi T m0 act t) \<and> collects conf"
  proof cases
    case (register a e w e')
    then show ?thesis using s mach_register_inv by (fastforce simp: collects_def split: sum.splits)
  next
    case (go_on run e w msg r er e' w')
    then show ?thesis using s mach_go_on_inv by blast
  qed
qed

text \<open>
  Property C31. On macOS with an Intel processor, when kcov collects, for a program whose breakpoint addresses are
  below 4 GB and which does not write to its text: whatever breakpoints are registered and whatever exceptions
  the program raises, each byte of its text is what it was at the start or the breakpoint instruction, and the
  latter only where a registered breakpoint has been set. (For an address from 4 GB on, where macOS links programs by
  default, setting or clearing the breakpoint shifts by more than the width of a word, which is undefined, see
  \<open>mach_shift_high\<close>.)
\<close>

theorem mach_breakpoint_text:
  assumes "mach_init base m0 s" "collects conf" "(mach_step conf base 0 T)\<^sup>*\<^sup>* s (e, w)" "q \<in> T"
  shows "vm_mem w q = m0 q \<or>
    vm_mem w q = 0xcc \<and> q \<in> target base ` (dom (me_instructionMap e) - set (me_pendingBreakpoints e))"
proof -
  obtain act where "mach_inv base 0 T m0 act (e, w)"
    using mach_breakpoints.inv_reachable [OF _ assms(3)] assms(1,2) by blast
  then show ?thesis using assms(4) by (cases "q \<in> target base ` act") (auto simp: mach_inv_def)
qed

definition demo_vm :: vm where
  "demo_vm = \<lparr>vm_mem = \<lambda>_. 0, vm_readable = \<lambda>_. True, vm_writable = \<lambda>_. True, vm_protectable = \<lambda>_. True\<rparr>"

definition collect_conf :: Configuration where
  "collect_conf = mk_Configuration\<lparr>cf_ints := [''running-mode'' \<mapsto> MODE_COLLECT_ONLY]\<rparr>"

theorem mach_breakpoint_text_witness:
  "\<exists>e w. (mach_step collect_conf 0x2000000 0 UNIV)\<^sup>*\<^sup>* (mk_MachEngine\<lparr>me_imageBase := 0x2000000\<rparr>, demo_vm) (e, w) \<and>
     vm_mem w 0x2001001 = 0xcc \<and>
     0x2001001 \<in> target 0x2000000 ` (dom (me_instructionMap e) - set (me_pendingBreakpoints e))"
proof -
  let ?a = "0x1001 :: u64" and ?b = "0x2000000 :: u64"
  let ?e0 = "mk_MachEngine\<lparr>me_imageBase := ?b\<rparr>"
  let ?e1 = "?e0\<lparr>me_instructionMap := [?a \<mapsto> word_at (\<lambda>_. 0) (?b + (mach_getAligned ?a AND 0xffffffff))], me_pendingBreakpoints := [?a]\<rparr>"
  let ?step = "mach_step collect_conf ?b 0 UNIV"
  have key: "keyAsInt collect_conf ''running-mode'' = Inr MODE_COLLECT_ONLY"
    by (simp add: keyAsInt_def collect_conf_def)
  have "mach_registerBreakpoint collect_conf ?e0 demo_vm ?a = Some ?e1"
    by (simp add: mach_registerBreakpoint_def key MODE_COLLECT_ONLY_def MODE_REPORT_ONLY_def mach_peekWord_def aligned_and_3
        mk_MachEngine_def demo_vm_def patch_addr_def insort_insert_key_def)
  then have s1: "?step (?e0, demo_vm) (?e1, demo_vm)"
    by (intro mach_step.register) (simp_all add: in_text_def Let_def)
  obtain w1 where w1: "mach_setup_breakpoints mach_x86_64 ?e1 demo_vm [?a] = Some w1"
    by (simp add: mach_peekWord_def mach_pokeWord_def aligned_and_3 demo_vm_def Let_def mach_setupBreakpoint_def mach_shift_low)
  have s2: "?step (?e1, demo_vm) (?e1\<lparr>me_pendingBreakpoints := []\<rparr>, w1)"
    by (rule mach_step.go_on [where run = id and msg = None and r = False and
          er = "exc_none\<lparr>er_events := [mk_Event ev_exit 0 0]\<rparr>"])
      (use w1 in \<open>simp_all add: mach_text_kept_def mach_continueExecution_def mach_setupAllBreakpoints_def\<close>)
  have r: "?step\<^sup>*\<^sup>* (?e0, demo_vm) (?e1\<lparr>me_pendingBreakpoints := []\<rparr>, w1)"
    using s1 s2 by (simp add: converse_rtranclp_into_rtranclp r_into_rtranclp)
  have tg: "target ?b ?a = 0x2001001" by (simp add: target_def)
  then have cc: "vm_mem w1 0x2001001 = 0xcc"
    using mach_setup_byte [OF w1] by (simp add: mk_MachEngine_def demo_vm_def)
  have "mach_init ?b (\<lambda>_. 0) (?e0, demo_vm)" "collects collect_conf"
    by (simp_all add: mach_init_def demo_vm_def collects_def key MODE_COLLECT_ONLY_def MODE_REPORT_ONLY_def)
  from mach_breakpoint_text [OF this r UNIV_I, of "0x2001001"] cc
  have "0x2001001 \<in> target ?b ` (dom (me_instructionMap (?e1\<lparr>me_pendingBreakpoints := []\<rparr>)) -
      set (me_pendingBreakpoints (?e1\<lparr>me_pendingBreakpoints := []\<rparr>)))" by (elim disjE) simp_all
  with r cc show ?thesis by blast
qed

section \<open>Breakpoint instructions of the program itself\<close>

text \<open>
  A breakpoint instruction that kcov has not set is reported, left in place, and executed again:
  the program counter is set back to it, and the exception counts as handled.
\<close>

lemma own_breakpoint_again:
  assumes "me_instructionMap e (pc - 1) = None"
  shows "CatchMachExceptionRaise mach_x86_64 e w (ExcBreakpoint (Some pc)) =
    Some (exc_none\<lparr>er_events := [mk_Event ev_breakpoint (- 1) (pc - 1)], er_pc := Some (pc - 1)\<rparr>, w)"
  using assms by (simp add: CatchMachExceptionRaise_def arch_adjustPcAfterBreakpoint_def)

text \<open>Whatever the program exits with, the engine reports status 0.\<close>

lemma mach_exit_status:
  assumes "mach_setupAllBreakpoints ar e w = Some (e1, w1)"
  shows "mach_continueExecution ar e w run None = Some (False, exc_none\<lparr>er_events := [mk_Event ev_exit 0 0]\<rparr>, e1, run w1)"
  using assms by (simp add: mach_continueExecution_def)

end
