(* ===== verification/Kcov_Macho.thy ===== *)
theory Kcov_Macho
  imports Kcov_Elf Kcov_Mach
begin

text \<open>
  The parser for Mach-O files (\<open>src/src/parsers/macho-parser.cc\<close>): the load commands of a file, and the
  lines of its debug information.

  \<^item> The file is a block of bytes of a little-endian machine; an access outside of it is \<open>None\<close>.
  \<^item> What libdwarf finds is an argument, a unit at a time; \<open>None\<close> is an error of the call.
\<close>

section \<open>Layout\<close>

text \<open>Sizes and offsets of \<open>mach_header_64\<close>, \<open>segment_command_64\<close> and \<open>section_64\<close>.\<close>

definition sizeof_mach_header_64 :: nat where
  "sizeof_mach_header_64 = 32"

definition sizeof_segment_command_64 :: nat where
  "sizeof_segment_command_64 = 72"

definition sizeof_section_64 :: nat where
  "sizeof_section_64 = 80"

definition LC_SEGMENT_64 :: u32 where
  "LC_SEGMENT_64 = 0x19"

definition FAT_MAGIC :: u32 where
  "FAT_MAGIC = 0xcafebabe"

definition FAT_MAGIC_64 :: u32 where
  "FAT_MAGIC_64 = 0xcafebabf"

definition MH_EXECUTE :: u32 where
  "MH_EXECUTE = 2"

definition MH_DSYM :: u32 where
  "MH_DSYM = 0xa"

definition bytes_of :: "string \<Rightarrow> byte list" where
  "bytes_of s = map of_char s"

text \<open>\<open>strcmp (p, name) == 0\<close> for a name in the file.\<close>

definition name_at :: "byte list \<Rightarrow> nat \<Rightarrow> string \<Rightarrow> bool option" where
  "name_at fd off name = strcmp_eq (drop off fd) (bytes_of name)"

section \<open>Go programs\<close>

text \<open>The sections of a segment: is one of them \<open>__go_buildinfo\<close>?\<close>

fun go_sections :: "byte list \<Rightarrow> nat \<Rightarrow> nat \<Rightarrow> bool option" where
  "go_sections fd off 0 = Some False"
| "go_sections fd off (Suc n) =
     Option.bind (name_at fd off ''__go_buildinfo'') (\<lambda>found.
       if found then Some True else go_sections fd (off + sizeof_section_64) n)"

fun go_commands :: "byte list \<Rightarrow> nat \<Rightarrow> nat \<Rightarrow> bool option" where
  "go_commands fd off 0 = Some False"
| "go_commands fd off (Suc n) =
     Option.bind (load32 True fd off) (\<lambda>cmd.
     Option.bind
       (if cmd = LC_SEGMENT_64
        then Option.bind (name_at fd (off + 8) ''__DATA'') (\<lambda>data.
               if data
               then Option.bind (load32 True fd (off + 64)) (\<lambda>nsects.
                      go_sections fd (off + sizeof_segment_command_64) (unat nsects))
               else Some False)
        else Some False)
       (\<lambda>found.
         if found then Some True
         else Option.bind (load32 True fd (off + 4)) (\<lambda>cmdsize. go_commands fd (off + unat cmdsize) n)))"

definition isGoBinary :: "byte list option \<Rightarrow> bool option" where
  "isGoBinary file =
     Option.bind file (\<lambda>fd.
     Option.bind (load32 True fd 16) (\<lambda>ncmds. go_commands fd sizeof_mach_header_64 (unat ncmds)))"

section \<open>Matching\<close>

definition macho_matchParser ::
  "Configuration \<Rightarrow> (string \<Rightarrow> byte list option) \<Rightarrow> string \<Rightarrow> byte list \<Rightarrow> (nat \<times> Configuration) option" where
  "macho_matchParser conf read_file filename data =
     Option.bind (load32 True data 0) (\<lambda>magic.
       if magic = FAT_MAGIC_64 then Some (match_none, conf)
       else if magic = MH_MAGIC_64
       then case keyAsInt conf ''is-go-binary'' of
              Inl _ \<Rightarrow> None
            | Inr go \<Rightarrow>
                if go \<noteq> 0 then Some (match_perfect, conf)
                else map_option (\<lambda>isGo. (match_perfect, if isGo then setKey conf ''is-go-binary'' (KInt 1) else conf))
                       (isGoBinary (read_file filename))
       else Some (match_none, conf))"

text \<open>The command that is run to make the debug information available.\<close>

definition macho_setupParser :: "Configuration \<Rightarrow> conf_error + string option" where
  "macho_setupParser conf =
     rbind (keyAsInt conf ''is-go-binary'') (\<lambda>go.
       if go \<noteq> 0 then Inr None
       else rbind (keyAsString conf ''binary-path'') (\<lambda>path.
            rbind (keyAsString conf ''binary-name'') (\<lambda>name. Inr (Some (''dsymutil '' @ path @ ''/'' @ name)))))"

section \<open>Parsing\<close>

text \<open>
  The loop over the load commands. The read pointer is moved over the sections of a \<open>__DWARF\<close>
  segment, and then by the size of the command once more.
\<close>

definition commandParseSegment64 :: "byte list \<Rightarrow> nat \<Rightarrow> (nat \<times> nat list) option" where
  "commandParseSegment64 fd readPtr =
     Option.bind (name_at fd (readPtr + 8) ''__DWARF'') (\<lambda>dwarf.
       if \<not> dwarf then Some (readPtr, [])
       else map_option (\<lambda>nsects.
              let first = readPtr + sizeof_segment_command_64
              in (first + unat nsects * sizeof_section_64,
                  map (\<lambda>i. first + i * sizeof_section_64) [0..<unat nsects]))
              (load32 True fd (readPtr + 64)))"

fun macho_commands :: "byte list \<Rightarrow> nat \<Rightarrow> nat \<Rightarrow> nat list option" where
  "macho_commands fd readPtr 0 = Some []"
| "macho_commands fd readPtr (Suc n) =
     Option.bind (load32 True fd readPtr) (\<lambda>cmd.
     Option.bind (if cmd = LC_SEGMENT_64 then commandParseSegment64 fd readPtr else Some (readPtr, [])) (\<lambda>(p, secs).
     Option.bind (load32 True fd (readPtr + 4)) (\<lambda>cmdsize.
       map_option (\<lambda>rest. secs @ rest) (macho_commands fd (p + unat cmdsize) n))))"

record macho_line =
  ml_linesrc :: "string option"
  ml_lineno :: "u64 option"
  ml_beginstatement :: "bool option"
  ml_diename :: bool
  ml_lineaddr :: "u64 option"
  ml_endsequence :: bool

definition macho_one_line :: "macho_line \<Rightarrow> source_line list" where
  "macho_one_line l =
     (case (ml_linesrc l, ml_lineno l, ml_beginstatement l, ml_lineaddr l) of
        (Some filename, Some lineno, Some is_code, Some addr) \<Rightarrow>
          if ml_diename l \<and> lineno \<noteq> 0 \<and> is_code \<and> \<not> ml_endsequence l then [(filename, ucast lineno, addr)] else []
      | _ \<Rightarrow> [])"

text \<open>A unit is \<open>None\<close> when its entry or its line table cannot be read.\<close>

definition macho_lines :: "macho_line list option list \<Rightarrow> source_line list" where
  "macho_lines units = concat (map (\<lambda>u. case u of None \<Rightarrow> [] | Some ls \<Rightarrow> concat (map macho_one_line ls)) units)"

record macho_env =
  mo_read_file :: "string \<Rightarrow> byte list option"
  mo_dwarf :: "string \<Rightarrow> macho_line list option list option"

definition macho_name :: "Configuration \<Rightarrow> conf_error + string" where
  "macho_name conf =
     rbind (keyAsString conf ''binary-path'') (\<lambda>path.
     rbind (keyAsString conf ''binary-name'') (\<lambda>name.
     rbind (keyAsInt conf ''is-go-binary'') (\<lambda>go.
       Inr (if go \<noteq> 0 then path @ ''/'' @ name
            else path @ ''/'' @ name @ ''.dSYM/Contents/Resources/DWARF/'' @ name))))"

text \<open>Whether it succeeds, and the lines that every line listener is told of.\<close>

definition macho_parse :: "Configuration \<Rightarrow> macho_env \<Rightarrow> (bool \<times> source_line list) option" where
  "macho_parse conf e =
     (case macho_name conf of
        Inl _ \<Rightarrow> None
      | Inr name \<Rightarrow>
          (case mo_read_file e name of
             None \<Rightarrow> Some (False, [])
           | Some fd \<Rightarrow>
               Option.bind (load32 True fd 0) (\<lambda>magic.
               if magic = FAT_MAGIC then Some (False, [])
               else Option.bind (load32 True fd 12) (\<lambda>filetype.
               if filetype \<noteq> MH_DSYM \<and> filetype \<noteq> MH_EXECUTE then Some (False, [])
               else Option.bind (load32 True fd 16) (\<lambda>ncmds.
               map_option (\<lambda>_. case mo_dwarf e name of None \<Rightarrow> (False, []) | Some units \<Rightarrow> (True, macho_lines units))
                 (macho_commands fd sizeof_mach_header_64 (unat ncmds)))))))"

end
