(* ===== verification/Kcov_Macho_Props.thy ===== *)
theory Kcov_Macho_Props
  imports Kcov_Macho
begin

text \<open>
  The Mach-O parser on files as a linker writes them: which programs are taken for Go programs, and what
  the loop of \<open>parse\<close> makes of a \<open>__DWARF\<close> segment.
\<close>

section \<open>Files\<close>

text \<open>A load command: a segment with the names of its sections, or another command with its contents.\<close>

datatype lc = LCSegment "byte list" "byte list list" | LCOther u32 "byte list"

definition put_name :: "byte list \<Rightarrow> byte list" where
  "put_name n = n @ replicate (16 - length n) 0"

definition put_section :: "byte list \<Rightarrow> byte list" where
  "put_section n = put_name n @ replicate 64 0"

fun lc_size :: "lc \<Rightarrow> nat" where
  "lc_size (LCSegment n secs) = sizeof_segment_command_64 + length secs * sizeof_section_64"
| "lc_size (LCOther c body) = 8 + length body"

fun put_lc :: "lc \<Rightarrow> byte list" where
  "put_lc (LCSegment n secs) =
     store True LC_SEGMENT_64 @ store True (of_nat (lc_size (LCSegment n secs)) :: u32) @ put_name n @ replicate 40 0 @
     store True (of_nat (length secs) :: u32) @ replicate 4 0 @ concat (map put_section secs)"
| "put_lc (LCOther c body) = store True c @ store True (of_nat (lc_size (LCOther c body)) :: u32) @ body"

definition put_macho :: "u32 \<Rightarrow> lc list \<Rightarrow> byte list \<Rightarrow> byte list" where
  "put_macho filetype lcs contents =
     store True MH_MAGIC_64 @ replicate 8 0 @ store True filetype @ store True (of_nat (length lcs) :: u32) @ replicate 12 0 @
     concat (map put_lc lcs) @ contents"

definition name_ok :: "byte list \<Rightarrow> bool" where
  "name_ok n = (length n < 16 \<and> 0 \<notin> set n)"

fun lc_ok :: "lc \<Rightarrow> bool" where
  "lc_ok (LCSegment n secs) = (name_ok n \<and> (\<forall>s \<in> set secs. name_ok s) \<and> lc_size (LCSegment n secs) < 2 ^ 32)"
| "lc_ok (LCOther c body) = (c \<noteq> LC_SEGMENT_64 \<and> lc_size (LCOther c body) < 2 ^ 32)"

fun go_lc :: "lc \<Rightarrow> bool" where
  "go_lc (LCSegment n secs) = (n = bytes_of ''__DATA'' \<and> bytes_of ''__go_buildinfo'' \<in> set secs)"
| "go_lc (LCOther c body) = False"

section \<open>Reading them\<close>

lemma strcmp_eq_terminated:
  "0 \<notin> set bs \<Longrightarrow> 0 \<notin> set cs \<Longrightarrow> strcmp_eq (bs @ 0 # rest) cs = Some (bs = cs)"
proof (induction bs arbitrary: cs)
  case Nil
  then show ?case by (cases cs) auto
next
  case (Cons b bs)
  then show ?case by (cases cs) auto
qed

lemma bytes_of_no_zero:
  "0 \<notin> set (bytes_of ''__DATA'')" "0 \<notin> set (bytes_of ''__go_buildinfo'')" "0 \<notin> set (bytes_of ''__DWARF'')"
  by (simp_all add: bytes_of_def)

lemma put_name_split: "name_ok n \<Longrightarrow> \<exists>z. put_name n = n @ 0 # z"
  by (auto simp: put_name_def name_ok_def intro!: exI [of _ "replicate (15 - length n) 0"] simp flip: replicate_Suc)

lemma length_put [simp]:
  "name_ok n \<Longrightarrow> length (put_name n) = 16" "name_ok n \<Longrightarrow> length (put_section n) = sizeof_section_64"
  by (simp_all add: put_name_def put_section_def name_ok_def sizeof_section_64_def)

lemma name_at_put:
  assumes "name_ok n" "length pre = off" "0 \<notin> set (bytes_of name)"
  shows "name_at (pre @ put_name n @ post) off name = Some (n = bytes_of name)"
proof -
  obtain z where "put_name n = n @ 0 # z" using put_name_split [OF assms(1)] by blast
  then show ?thesis using strcmp_eq_terminated [of n "bytes_of name" "z @ post"] assms by (simp add: name_at_def name_ok_def)
qed

lemma go_sections_put:
  "\<forall>s \<in> set secs. name_ok s \<Longrightarrow> length pre = off \<Longrightarrow>
     go_sections (pre @ concat (map put_section secs) @ post) off (length secs) = Some (bytes_of ''__go_buildinfo'' \<in> set secs)"
proof (induction secs arbitrary: pre off)
  case (Cons s secs)
  let ?tl = "concat (map put_section secs) @ post"
  have n: "name_at (pre @ put_section s @ ?tl) off ''__go_buildinfo'' = Some (s = bytes_of ''__go_buildinfo'')"
    using name_at_put [of s pre off "''__go_buildinfo''" "replicate 64 0 @ ?tl"] Cons.prems bytes_of_no_zero(2) by (simp add: put_section_def)
  have "go_sections ((pre @ put_section s) @ ?tl) (off + sizeof_section_64) (length secs) =
      Some (bytes_of ''__go_buildinfo'' \<in> set secs)"
    using Cons.prems by (intro Cons.IH) simp_all
  with n show ?case by auto
qed simp

lemma length_put_lc: "lc_ok c \<Longrightarrow> length (put_lc c) = lc_size c"
proof (cases c)
  case (LCSegment n secs)
  have "\<forall>s \<in> set secs. name_ok s \<Longrightarrow> length (concat (map put_section secs)) = length secs * sizeof_section_64"
    by (induction secs) simp_all
  then show "lc_ok c \<Longrightarrow> ?thesis" by (simp add: LCSegment sizeof_segment_command_64_def)
qed simp

lemma unat_of_nat_u32: "n < 2 ^ 32 \<Longrightarrow> unat (of_nat n :: u32) = n"
  by (simp add: unsigned_of_nat take_bit_eq_mod)

text \<open>The fields of a load command.\<close>

lemma lc_size_field:
  assumes "lc_ok c" "length pre = off"
  shows "load32 True (pre @ put_lc c @ post) (off + 4) = Some (of_nat (lc_size c))" "unat (of_nat (lc_size c) :: u32) = lc_size c"
proof -
  show "unat (of_nat (lc_size c) :: u32) = lc_size c" using assms(1) by (cases c) (simp_all add: unat_of_nat_u32 del: lc_size.simps)
  show "load32 True (pre @ put_lc c @ post) (off + 4) = Some (of_nat (lc_size c))"
  proof (cases c)
    case (LCSegment n secs)
    have "\<exists>r. pre @ put_lc c @ post = (pre @ store True LC_SEGMENT_64) @ store True (of_nat (lc_size c) :: u32) @ r"
      unfolding LCSegment by (simp del: lc_size.simps)
    then show ?thesis using load32_middle [of "pre @ store True LC_SEGMENT_64" "off + 4"] assms(2) by auto
  next
    case (LCOther k body)
    have "\<exists>r. pre @ put_lc c @ post = (pre @ store True k) @ store True (of_nat (lc_size c) :: u32) @ r"
      unfolding LCOther by (simp del: lc_size.simps)
    then show ?thesis using load32_middle [of "pre @ store True k" "off + 4"] assms(2) by auto
  qed
qed


text \<open>What the search makes of one command.\<close>

lemma go_command_step:
  assumes "lc_ok c" "length pre = off"
  shows "go_commands (pre @ put_lc c @ post) off (Suc n) =
    (if go_lc c then Some True else go_commands (pre @ put_lc c @ post) (off + lc_size c) n)"
proof (cases c)
  case (LCOther k body)
  have "load32 True (pre @ put_lc c @ post) off = Some k"
    using load32_middle [OF assms(2), of True k] by (simp add: LCOther)
  with lc_size_field [OF assms] show ?thesis using assms(1) by (simp add: LCOther del: lc_size.simps put_lc.simps)
next
  case (LCSegment nm secs)
  let ?fd = "pre @ put_lc c @ post"
  let ?hd = "store True LC_SEGMENT_64 @ store True (of_nat (lc_size c) :: u32)"
  let ?secs = "concat (map put_section secs)"
  have ok: "name_ok nm" "\<forall>s \<in> set secs. name_ok s" "length secs < 2 ^ 32"
    using assms(1) by (simp_all add: LCSegment sizeof_section_64_def)
  have l: "put_lc c = ?hd @ put_name nm @ replicate 40 0 @ store True (of_nat (length secs) :: u32) @ replicate 4 0 @ ?secs"
    by (simp add: LCSegment)
  have "load32 True ?fd off = Some LC_SEGMENT_64" using load32_middle [OF assms(2), of True LC_SEGMENT_64] by (simp add: l)
  moreover have "name_at ?fd (off + 8) ''__DATA'' = Some (nm = bytes_of ''__DATA'')"
    using name_at_put [OF ok(1), of "pre @ ?hd" "off + 8"] assms(2) bytes_of_no_zero(1) by (simp add: l)
  moreover have "load32 True ?fd (off + 64) = Some (of_nat (length secs))"
    using load32_middle [of "pre @ ?hd @ put_name nm @ replicate 40 0" "off + 64"] assms(2) ok(1) by (simp add: l)
  moreover have "go_sections ?fd (off + sizeof_segment_command_64) (length secs) = Some (bytes_of ''__go_buildinfo'' \<in> set secs)"
    using go_sections_put [OF ok(2), of "pre @ ?hd @ put_name nm @ replicate 40 0 @ store True (of_nat (length secs) :: u32) @ replicate 4 0"]
      assms(2) ok(1) by (simp add: l sizeof_segment_command_64_def)
  moreover have "go_lc c \<longleftrightarrow> nm = bytes_of ''__DATA'' \<and> bytes_of ''__go_buildinfo'' \<in> set secs" by (simp add: LCSegment)
  moreover note lc_size_field(1) [OF assms, of post] lc_size_field(2) [OF assms] unat_of_nat_u32 [OF ok(3)]
  ultimately show ?thesis unfolding go_commands.simps by simp
qed

lemma go_commands_put:
  "\<forall>c \<in> set lcs. lc_ok c \<Longrightarrow> length pre = off \<Longrightarrow>
     go_commands (pre @ concat (map put_lc lcs) @ post) off (length lcs) = Some (\<exists>c \<in> set lcs. go_lc c)"
proof (induction lcs arbitrary: pre off)
  case (Cons c lcs)
  let ?tl = "concat (map put_lc lcs) @ post"
  have "go_commands ((pre @ put_lc c) @ ?tl) (off + lc_size c) (length lcs) = Some (\<exists>c \<in> set lcs. go_lc c)"
    using Cons.prems length_put_lc [of c] by (intro Cons.IH) simp_all
  then show ?case using go_command_step [of c pre off ?tl] Cons.prems by simp
qed simp

text \<open>
  A Mach-O file is taken for a Go program exactly when a \<open>__DATA\<close> segment of it has a
  section named \<open>__go_buildinfo\<close>, wherever the segment is among the load commands and whatever the
  other commands are; and the search never leaves the file.
\<close>

lemma go_binary_found:
  assumes "\<forall>c \<in> set lcs. lc_ok c" "length lcs < 2 ^ 32"
  shows "isGoBinary (Some (put_macho filetype lcs contents)) = Some (\<exists>c \<in> set lcs. go_lc c)"
proof -
  let ?h = "store True MH_MAGIC_64 @ replicate 8 0 @ store True filetype"
  let ?n = "of_nat (length lcs) :: u32"
  have "load32 True (put_macho filetype lcs contents) 16 = Some ?n"
    using load32_middle [of ?h 16] by (simp add: put_macho_def)
  moreover have "go_commands (put_macho filetype lcs contents) sizeof_mach_header_64 (length lcs) = Some (\<exists>c \<in> set lcs. go_lc c)"
    using go_commands_put [OF assms(1), of "?h @ store True ?n @ replicate 12 0" sizeof_mach_header_64 contents]
    by (simp add: put_macho_def sizeof_mach_header_64_def)
  ultimately show ?thesis using unat_of_nat_u32 [OF assms(2)] by (simp add: isGoBinary_def)
qed

lemma go_binary_found_witness:
  "isGoBinary (Some (put_macho MH_EXECUTE [LCOther 2 [1, 2, 3, 4], LCSegment (bytes_of ''__TEXT'') [],
     LCSegment (bytes_of ''__DATA'') [bytes_of ''__data'', bytes_of ''__go_buildinfo'']] [])) = Some True"
  by (subst go_binary_found)
    (simp_all add: name_ok_def bytes_of_def sizeof_segment_command_64_def sizeof_section_64_def LC_SEGMENT_64_def)

section \<open>The load commands after \<open>__DWARF\<close>\<close>

text \<open>
  In \<open>parse\<close> the command after a \<open>__DWARF\<close> segment is looked for at twice its size: the pointer has
  been moved over the sections already when the size of the command is added. With further
  commands, as in an executable that has its debug information in it, the loop goes on in the
  middle of them or behind them.
\<close>

lemma dwarf_segment_moves:
  assumes "load32 True fd p = Some LC_SEGMENT_64" "name_at fd (p + 8) ''__DWARF'' = Some True"
    and "load32 True fd (p + 64) = Some nsects" "load32 True fd (p + 4) = Some cmdsize"
    and "unat cmdsize = sizeof_segment_command_64 + unat nsects * sizeof_section_64"
  shows "macho_commands fd p (Suc n) =
    map_option (\<lambda>rest. map (\<lambda>i. p + sizeof_segment_command_64 + i * sizeof_section_64) [0..<unat nsects] @ rest)
      (macho_commands fd (p + 2 * unat cmdsize) n)"
proof -
  have "p + sizeof_segment_command_64 + unat nsects * sizeof_section_64 + unat cmdsize = p + 2 * unat cmdsize"
    using assms(5) by simp
  then show ?thesis using assms(1-4) by (simp add: commandParseSegment64_def Let_def add.assoc mult_2)
qed

end
