(* ===== verification/Kcov_Writer_Props.thy ===== *)
theory Kcov_Writer_Props
  imports Kcov_Html Kcov_Reporter_Props
begin

text \<open>
  Correctness of the report writers: the summary file round trip, the path the files have in common,
  the line counts against those of the reporter, and the classification by percentage.
\<close>

section \<open>The summary\<close>

lemma length_summary_name [simp]: "length (summary_name name) = 256"
  by (simp add: summary_name_def summary_name_size_def Let_def)

lemma c_str_zeros: "NUL \<notin> set s \<Longrightarrow> c_str (s @ replicate n NUL) = s"
  by (auto simp: c_str_def takeWhile_append takeWhile_eq_all_conv takeWhile_replicate)

lemma NUL_notin_c_str: "NUL \<notin> set (c_str s)"
  by (auto simp: c_str_def dest: set_takeWhileD)

lemma bytes_to_string_append: "bytes_to_string (xs @ ys) = bytes_to_string xs @ bytes_to_string ys"
  by (simp add: bytes_to_string_def)

lemma bytes_to_string_zeros: "bytes_to_string (replicate n 0) = replicate n NUL"
  by (simp add: bytes_to_string_def NUL_def char_of_def)

lemma summary_name_read: "c_str (bytes_to_string (summary_name name)) = take 255 (c_str name)"
proof -
  have "NUL \<notin> set (take 255 (c_str name))" using NUL_notin_c_str set_take_subset by (metis subsetD)
  then show ?thesis
    by (simp add: summary_name_def summary_name_size_def Let_def bytes_to_string_append bytes_to_string_zeros c_str_zeros)
qed

text \<open>
  The summary one run leaves in \<open>summary.db\<close> is read back by a later run as it was: both
  line counts, the mark for the totals, and the name up to a zero byte and 255 characters.
\<close>

lemma summary_roundtrip:
  "unMarshalSummary le (marshalSummary le summary includeInTotals name) =
     Some (summary, includeInTotals, take 255 (c_str name))"
proof -
  let ?h = "put_be le SUMMARY_MAGIC @ put_be le SUMMARY_VERSION @ put_be le (if includeInTotals then 1 else 0 :: u32) @
     put_be le (es_lines summary) @ put_be le (es_executedLines summary)"
  have m: "marshalSummary le summary includeInTotals name = ?h @ summary_name name" by (simp add: marshalSummary_def)
  have l: "length ?h = 20" by simp
  have "chunk 4 0 (?h @ summary_name name) = put_be le SUMMARY_MAGIC"
    "chunk 4 1 (?h @ summary_name name) = put_be le SUMMARY_VERSION"
    "chunk 4 2 (?h @ summary_name name) = put_be le (if includeInTotals then 1 else 0 :: u32)"
    "chunk 4 3 (?h @ summary_name name) = put_be le (es_lines summary)"
    "chunk 4 4 (?h @ summary_name name) = put_be le (es_executedLines summary)"
    by (simp_all add: chunk_def)
  moreover have "drop 20 (?h @ summary_name name) = summary_name name" using l by (simp del: append_assoc)
  moreover have "length (?h @ summary_name name) = sizeof_summaryStruct"
    using l by (simp add: sizeof_summaryStruct_def summary_name_size_def)
  ultimately show ?thesis
    unfolding m unMarshalSummary_def using summary_name_read by simp
qed

section \<open>The common path\<close>

text \<open>\<open>q\<close> is the path \<open>p\<close>, or \<open>p\<close> cut off at one of its slashes.\<close>

definition path_cut :: "string \<Rightarrow> string \<Rightarrow> bool" where
  "path_cut q p = (q = p \<or> prefix (q @ ''/'') p)"

lemma path_cut_refl [simp]: "path_cut p p"
  by (simp add: path_cut_def)

lemma path_cut_prefix: "path_cut q p \<Longrightarrow> prefix q p"
  unfolding path_cut_def by (metis prefix_order.refl append_prefixD)

lemma path_cut_trans: "path_cut q p \<Longrightarrow> path_cut p r \<Longrightarrow> path_cut q r"
  unfolding path_cut_def by (metis append_prefixD prefix_order.trans)

lemma path_cut_last_slash:
  assumes "CHR ''/'' \<notin> set rest" "path_cut q (p @ ''/'' @ rest)" "q \<noteq> p @ ''/'' @ rest"
  shows "path_cut q p"
proof -
  obtain t where "q @ CHR ''/'' # t = p @ CHR ''/'' # rest" using assms by (auto simp: path_cut_def prefix_def)
  then obtain us where "q = p @ us \<and> us @ CHR ''/'' # t = CHR ''/'' # rest \<or> q @ us = p \<and> CHR ''/'' # t = us @ CHR ''/'' # rest"
    by (auto simp: append_eq_append_conv2)
  with assms(1) show ?thesis by (cases us) (auto simp: path_cut_def)
qed

lemma rfind_slash_split:
  assumes "str_rfind_from p ''/'' (length p) = Some pos"
  shows "p = take pos p @ ''/'' @ drop (Suc pos) p" "CHR ''/'' \<notin> set (drop (Suc pos) p)"
proof -
  have pos: "pos < length p" by (rule str_rfind_slash_less [OF assms])
  moreover have "p ! pos = CHR ''/''" using str_rfind_from_Some [OF assms] pos by (simp add: prefix_single_drop)
  ultimately show "p = take pos p @ ''/'' @ drop (Suc pos) p" using id_take_nth_drop [OF pos] by simp
  have "\<not> prefix ''/'' (drop j p)" if "pos < j" "j < length p" for j
    using str_rfind_from_last [OF assms that(1)] that(2) by simp
  then show "CHR ''/'' \<notin> set (drop (Suc pos) p)"
    by (auto simp: in_set_conv_nth prefix_single_drop)
qed

definition abs_path :: "string \<Rightarrow> bool" where
  "abs_path p = prefix ''/'' p"

lemma rfind_slash_abs: "abs_path p \<Longrightarrow> \<exists>pos. str_rfind_from p ''/'' (length p) = Some pos"
  by (cases "str_rfind_from p ''/'' (length p)") (auto simp: abs_path_def str_rfind_from_None_iff intro: exI [of _ 0])

lemma shorten_path_spec:
  "abs_path p \<Longrightarrow> \<not> prefix p name \<Longrightarrow>
     path_cut (shorten_path name p) p \<and> prefix (shorten_path name p) name \<and>
     (\<forall>q. path_cut q p \<and> prefix q name \<longrightarrow> path_cut q (shorten_path name p))"
proof (induction name p rule: shorten_path.induct)
  case (1 name p)
  obtain pos where pos: "str_rfind_from p ''/'' (length p) = Some pos" using rfind_slash_abs [OF 1(2)] by blast
  let ?p = "take pos p"
  note sp = rfind_slash_split [OF pos]
  have cut: "path_cut ?p p" unfolding path_cut_def using sp(1) by (metis append.assoc prefixI)
  have below: "path_cut q ?p" if "path_cut q p" "prefix q name" for q
    using path_cut_last_slash [OF sp(2), of q ?p] that 1(3) sp(1) by metis
  show ?case
  proof (cases "prefix ?p name")
    case True
    then have "shorten_path name p = ?p"
      by (subst shorten_path.simps) (simp add: pos str_substr_def str_find_0_iff)
    with True cut below show ?thesis by simp
  next
    case False
    then have rec: "shorten_path name p = shorten_path name ?p"
      by (subst shorten_path.simps) (simp add: pos str_substr_def str_find_0_iff Let_def)
    have "?p \<noteq> []" using False Nil_prefix by metis
    then have "abs_path ?p" using 1(2) by (cases p; cases pos) (auto simp: abs_path_def)
    with False 1(1) [OF pos refl] have "path_cut (shorten_path name ?p) ?p \<and> prefix (shorten_path name ?p) name \<and>
        (\<forall>q. path_cut q ?p \<and> prefix q name \<longrightarrow> path_cut q (shorten_path name ?p))"
      by (simp add: str_substr_def str_find_0_iff)
    with rec cut below path_cut_trans show ?thesis by metis
  qed
qed

lemma common_path_step_spec:
  assumes "p \<noteq> ''not set''" "p = [] \<or> abs_path p"
  shows "path_cut (common_path_step p name) p" "prefix (common_path_step p name) name"
    "path_cut q p \<Longrightarrow> prefix q name \<Longrightarrow> path_cut q (common_path_step p name)"
    "common_path_step p name \<noteq> ''not set''" "common_path_step p name = [] \<or> abs_path (common_path_step p name)"
proof -
  let ?r = "common_path_step p name"
  have all: "path_cut ?r p \<and> prefix ?r name \<and> (\<forall>q. path_cut q p \<and> prefix q name \<longrightarrow> path_cut q ?r)"
  proof (cases "prefix p name")
    case True
    then show ?thesis using assms(1) by (simp add: common_path_step_def str_find_0_iff)
  next
    case False
    then have "abs_path p" using assms(2) by auto
    with shorten_path_spec [OF this False] False assms(1) show ?thesis
      by (simp add: common_path_step_def str_find_0_iff)
  qed
  then show "path_cut ?r p" "prefix ?r name" "path_cut q p \<Longrightarrow> prefix q name \<Longrightarrow> path_cut q ?r" by simp_all
  from all have "prefix ?r p" using path_cut_prefix by blast
  with assms(2) show abs: "?r = [] \<or> abs_path ?r" by (cases p; cases ?r) (auto simp: abs_path_def)
  then show "?r \<noteq> ''not set''" by (auto simp: abs_path_def)
qed

lemma common_path_fold:
  assumes "p \<noteq> ''not set''" "p = [] \<or> abs_path p"
  shows "path_cut (foldl common_path_step p ns) p \<and> (\<forall>n \<in> set ns. prefix (foldl common_path_step p ns) n) \<and>
    (\<forall>q. path_cut q p \<and> (\<forall>n \<in> set ns. prefix q n) \<longrightarrow> path_cut q (foldl common_path_step p ns))"
  using assms
proof (induction ns arbitrary: p)
  case (Cons n ns)
  note st = common_path_step_spec [OF Cons.prems, where name = n]
  let ?r = "foldl common_path_step (common_path_step p n) ns"
  have ih: "path_cut ?r (common_path_step p n)" "\<forall>m \<in> set ns. prefix ?r m"
    "\<And>q. path_cut q (common_path_step p n) \<Longrightarrow> \<forall>m \<in> set ns. prefix q m \<Longrightarrow> path_cut q ?r"
    using Cons.IH [OF st(4,5)] by simp_all
  have "prefix ?r n" by (rule prefix_order.trans [OF path_cut_prefix [OF ih(1)] st(2)])
  moreover have "path_cut ?r p" by (rule path_cut_trans [OF ih(1) st(1)])
  moreover have "path_cut q ?r" if "path_cut q p" "\<forall>m \<in> set (n # ns). prefix q m" for q
    using that by (intro ih(3) st(3)) simp_all
  ultimately show ?case using ih(2) by simp
qed simp

lemma setupCommonPaths_fold:
  "w_commonPath (setupCommonPaths w) = foldl common_path_step (w_commonPath w) (map (\<lambda>(_, f). wf_name f) (w_files w))"
  by (simp add: setupCommonPaths_def foldl_map case_prod_unfold)

text \<open>
  With absolute file names, \<open>setupCommonPaths\<close> on a fresh writer finds the longest path
  that all file names start with among the first name and its cuts at a slash; the loop that takes
  directories off always ends.
\<close>

lemma common_path_spec:
  assumes "w_commonPath w = ''not set''" "map (\<lambda>(_, f). wf_name f) (w_files w) = n # ns"
    and "\<forall>m \<in> set (n # ns). prefix ''/'' m"
  defines "p \<equiv> w_commonPath (setupCommonPaths w)"
  shows "path_cut p n \<and> (\<forall>m \<in> set (n # ns). prefix p m) \<and>
    (\<forall>q. path_cut q n \<and> (\<forall>m \<in> set (n # ns). prefix q m) \<longrightarrow> path_cut q p)"
proof -
  have n: "abs_path n" "n \<noteq> ''not set''" using assms(3) by (auto simp: abs_path_def)
  have "common_path_step ''not set'' n = n" by (simp add: common_path_step_def str_find_0_iff)
  then have p: "p = foldl common_path_step n ns" unfolding p_def setupCommonPaths_fold assms(1,2) by simp
  have "n = [] \<or> abs_path n" using n(1) ..
  from common_path_fold [OF n(2) this, of ns] path_cut_prefix show ?thesis unfolding p by auto
qed

definition example_file :: "string \<Rightarrow> wfile" where
  "example_file n =
     \<lparr> wf_name = n, wf_fileName = n, wf_outFileName = [], wf_jsonOutFileName = [], wf_crc = 0, wf_lineMap = [],
       wf_codeLines = 0, wf_executedLines = 0, wf_lastLineNr = 1 \<rparr>"

lemma common_path_spec_witness:
  "prefix (w_commonPath (setupCommonPaths (mk_Writer\<lparr>w_files := [(''/a/b/x.c'', example_file ''/a/b/x.c''),
      (''/a/c/y.c'', example_file ''/a/c/y.c'')]\<rparr>))) ''/a/c/y.c'' \<and>
   path_cut ''/a'' (w_commonPath (setupCommonPaths (mk_Writer\<lparr>w_files := [(''/a/b/x.c'', example_file ''/a/b/x.c''),
      (''/a/c/y.c'', example_file ''/a/c/y.c'')]\<rparr>)))"
proof -
  let ?w = "mk_Writer\<lparr>w_files := [(''/a/b/x.c'', example_file ''/a/b/x.c''), (''/a/c/y.c'', example_file ''/a/c/y.c'')]\<rparr>"
  have w: "w_commonPath ?w = ''not set''" "map (\<lambda>(_, f). wf_name f) (w_files ?w) = ''/a/b/x.c'' # [''/a/c/y.c'']"
    "\<forall>m \<in> set (''/a/b/x.c'' # [''/a/c/y.c'']). prefix ''/'' m"
    by (simp_all add: mk_Writer_def example_file_def)
  have "path_cut ''/a'' ''/a/b/x.c'' \<and> (\<forall>m \<in> set (''/a/b/x.c'' # [''/a/c/y.c'']). prefix ''/a'' m)"
    by (simp add: path_cut_def)
  with common_path_spec [OF w] show ?thesis by (meson list.set_intros)
qed

text \<open>
  The common path is not always a directory: when the name of the first file is the
  beginning of the name of the second, as with \<open>x.c\<close> and \<open>x.cc\<close>, it is the first name itself. The
  second file is then reported to Cobertura and Codecov under its name less the common path and one more
  character, so the two names and the source directory of the report do not give the file back.
\<close>

lemma common_path_is_file:
  assumes "w_commonPath w = ''not set''" "w_files w = [(k1, f1), (k2, f2)]"
    and "wf_name f1 = n" "wf_name f2 = n @ c # s" "n \<noteq> ''not set''" "c \<noteq> CHR ''/''"
  shows "w_commonPath (setupCommonPaths w) = n \<and>
    strip_common (w_commonPath (setupCommonPaths w)) (wf_name f2) = s \<and>
    w_commonPath (setupCommonPaths w) @ ''/'' @ s \<noteq> wf_name f2"
proof -
  have "w_commonPath (setupCommonPaths w) = n"
    using assms by (simp add: setupCommonPaths_fold common_path_step_def str_find_0_iff)
  moreover have "str_find (n @ c # s) n = Some 0" by (simp add: str_find_0_iff)
  ultimately show ?thesis using assms(4,6) by (simp add: strip_common_def)
qed

lemma common_path_is_file_witness:
  "strip_common (w_commonPath (setupCommonPaths (mk_Writer\<lparr>w_files := [(''/a/x.c'', example_file ''/a/x.c''),
      (''/a/x.cc'', example_file ''/a/x.cc'')]\<rparr>))) ''/a/x.cc'' = []"
proof -
  let ?w = "mk_Writer\<lparr>w_files := [(''/a/x.c'', example_file ''/a/x.c''), (''/a/x.cc'', example_file ''/a/x.cc'')]\<rparr>"
  have w: "w_commonPath ?w = ''not set''"
    "w_files ?w = [(''/a/x.c'', example_file ''/a/x.c''), (''/a/x.cc'', example_file ''/a/x.cc'')]"
    by (simp_all add: mk_Writer_def)
  have n: "wf_name (example_file ''/a/x.c'') = ''/a/x.c''" "wf_name (example_file ''/a/x.cc'') = ''/a/x.c'' @ CHR ''c'' # []"
    by (simp_all add: example_file_def)
  have "strip_common (w_commonPath (setupCommonPaths ?w)) (wf_name (example_file ''/a/x.cc'')) = []"
    by (rule common_path_is_file [OF w n, THEN conjunct2, THEN conjunct1]) simp_all
  then show ?thesis unfolding n by simp
qed

section \<open>Line counts\<close>

definition count_step :: "rep_env \<Rightarrow> Reporter \<Rightarrow> wfile \<Rightarrow> u32 \<times> u32 \<Rightarrow> u32 \<Rightarrow> u32 \<times> u32" where
  "count_step e r file s n =
     (if lineIsCode r (wf_name file) n then (fst s + (if hits_of e r file n \<noteq> 0 then 1 else 0), snd s + 1)
      else (fst s, snd s))"

lemma count_lines_fold: "count_lines e r file = foldl (count_step e r file) (0, 0) (line_numbers file)"
  by (simp add: count_lines_def count_step_def [abs_def] case_prod_unfold)

lemma count_fold_eq:
  "foldl (count_step e r file) (a, b) ns =
     (a + of_nat (length (filter (\<lambda>n. lineIsCode r (wf_name file) n \<and> hits_of e r file n \<noteq> 0) ns)),
      b + of_nat (length (filter (lineIsCode r (wf_name file)) ns)))"
  by (induction ns arbitrary: a b) (auto simp: count_step_def)

lemma sumOne_fold:
  "foldl (sumOne_step e r) (a, b, f\<lparr>wf_executedLines := a, wf_codeLines := b\<rparr>) ns =
     (case foldl (count_step e r f) (a, b) ns of (a', b') \<Rightarrow> (a', b', f\<lparr>wf_executedLines := a', wf_codeLines := b'\<rparr>))"
proof (induction ns arbitrary: a b)
  case (Cons n ns)
  have "sumOne_step e r (a, b, f\<lparr>wf_executedLines := a, wf_codeLines := b\<rparr>) n =
      (case count_step e r f (a, b) n of (a', b') \<Rightarrow> (a', b', f\<lparr>wf_executedLines := a', wf_codeLines := b'\<rparr>))"
    by (simp add: sumOne_step_def count_step_def hits_of_def Let_def)
  with Cons.IH show ?case by (simp split: prod.splits)
qed simp

lemma sumOne_counts:
  assumes "wf_executedLines f = 0" "wf_codeLines f = 0"
  shows "(wf_executedLines (sumOne e r f), wf_codeLines (sumOne e r f)) = count_lines e r f"
proof -
  have "f = f\<lparr>wf_executedLines := 0, wf_codeLines := 0\<rparr>" using assms by simp
  with sumOne_fold [of e r 0 0 f "line_numbers f"] show ?thesis
    by (simp add: sumOne_def count_lines_fold split: prod.splits)
qed

lemma length_filter_map_filter:
  "length (filter (\<lambda>i. case xs ! i of None \<Rightarrow> False | Some p \<Rightarrow> Q p) [0..<length xs]) =
   length (filter Q (List.map_filter id xs))"
proof (induction xs rule: rev_induct)
  case (snoc x xs)
  have "filter (\<lambda>i. case (xs @ [x]) ! i of None \<Rightarrow> False | Some p \<Rightarrow> Q p) [0..<length xs] =
      filter (\<lambda>i. case xs ! i of None \<Rightarrow> False | Some p \<Rightarrow> Q p) [0..<length xs]"
    by (rule filter_cong) (auto simp: nth_append)
  with snoc.IH show ?case by (cases x) (simp_all add: List.map_filter_def)
qed (simp add: List.map_filter_def)

lemma count_from_1:
  assumes "length xs \<le> unat (l :: u32)" "xs \<noteq> [] \<Longrightarrow> xs ! 0 = None"
    and "\<And>n :: u32. P n \<longleftrightarrow> unat n < length xs \<and> (case xs ! unat n of None \<Rightarrow> False | Some p \<Rightarrow> Q p)"
  shows "length (filter P (map of_nat [1..<unat l])) = length (filter Q (List.map_filter id xs))"
proof -
  let ?R = "\<lambda>i. i < length xs \<and> (case xs ! i of None \<Rightarrow> False | Some p \<Rightarrow> Q p)"
  have P: "P (of_nat i) \<longleftrightarrow> ?R i" if "i < unat l" for i
  proof -
    have "i < 2 ^ 32" using that unsigned_less [of l, where 'a = nat] by simp
    then have "unat (of_nat i :: u32) = i" by (intro unat_of_nat_small) simp
    then show ?thesis using assms(3) [of "of_nat i"] by simp
  qed
  have "length (filter P (map of_nat [1..<unat l])) = length (filter ?R [1..<unat l])"
    unfolding filter_map length_map by (rule arg_cong [where f = length], rule filter_cong) (simp_all add: P)
  also have "\<dots> = length (filter ?R [0..<unat l])"
  proof (cases "unat l = 0")
    case False
    then have "[0..<unat l] = 0 # [1..<unat l]" by (simp add: upt_conv_Cons)
    moreover have "\<not> ?R 0" using assms(2) by (cases xs) auto
    ultimately show ?thesis by simp
  qed simp
  also have "[0..<unat l] = [0..<length xs] @ [length xs..<unat l]" using upt_add_eq_append [of 0 "length xs" "unat l - length xs"] assms(1) by simp
  also have "filter ?R ([0..<length xs] @ [length xs..<unat l]) = filter (\<lambda>i. case xs ! i of None \<Rightarrow> False | Some p \<Rightarrow> Q p) [0..<length xs]"
    by (auto intro: filter_cong)
  finally show ?thesis using length_filter_map_filter by metis
qed

lemma count_lines_reporter:
  assumes "map_of (r_files r) (wf_name f) = Some F" "length (fl_lines F) \<le> unat (wf_lastLineNr f)"
    and "fl_lines F \<noteq> [] \<Longrightarrow> fl_lines F ! 0 = None"
  shows "count_lines e r f = (of_nat (executed_lines (r_heap r) F), of_nat (reachable_lines (r_heap r) F))"
proof -
  let ?un = "\<lambda>p. \<not> ln_unreachable (r_heap r ! p)"
  have code: "lineIsCode r (wf_name f) n \<longleftrightarrow>
      unat n < length (fl_lines F) \<and> (case fl_lines F ! unat n of None \<Rightarrow> False | Some p \<Rightarrow> ?un p)" for n
    using assms(1) by (auto simp: lineIsCode_def file_lineIsCode_def split: option.splits)
  have hits: "lineIsCode r (wf_name f) n \<and> hits_of e r f n \<noteq> 0 \<longleftrightarrow>
      unat n < length (fl_lines F) \<and>
      (case fl_lines F ! unat n of None \<Rightarrow> False | Some p \<Rightarrow> ?un p \<and> line_hits (r_heap r ! p) \<noteq> 0)" for n
    using assms(1)
    by (auto simp: code hits_of_def getLineExecutionCount_def getLine_def Let_def split: option.splits)
  have "length (filter (lineIsCode r (wf_name f)) (line_numbers f)) = reachable_lines (r_heap r) F"
    using count_from_1 [where P = "lineIsCode r (wf_name f)" and Q = ?un, OF assms(2,3) code]
    by (simp add: line_numbers_def reachable_lines_def file_lines_def filter_map comp_def)
  moreover have "length (filter (\<lambda>n. lineIsCode r (wf_name f) n \<and> hits_of e r f n \<noteq> 0) (line_numbers f)) = executed_lines (r_heap r) F"
    using count_from_1 [where P = "\<lambda>n. lineIsCode r (wf_name f) n \<and> hits_of e r f n \<noteq> 0"
        and Q = "\<lambda>p. ?un p \<and> line_hits (r_heap r ! p) \<noteq> 0", OF assms(2,3) hits]
    by (simp add: line_numbers_def executed_lines_def file_lines_def filter_map comp_def)
  ultimately show ?thesis by (simp add: count_lines_fold count_fold_eq)
qed

text \<open>
  Property C7. The reports agree with the reporter: in every state the reporter can reach, the
  executed and the code lines that the JSON, HTML and Codecov writers count line by line, and those that
  Cobertura stores in a file that has just been read, are the numbers the reporter gives the summary for
  that file, provided the reporter knows no line after the end of the source file and no line 0.
\<close>

theorem writer_counts:
  assumes "(rep_step e)\<^sup>*\<^sup>* (mk_Reporter flt) r" "map_of (r_files r) (wf_name f) = Some F"
    and "length (fl_lines F) \<le> unat (wf_lastLineNr f)" "fl_lines F \<noteq> [] \<Longrightarrow> fl_lines F ! 0 = None"
  shows "count_lines e r f = (getExecutedLines (r_heap r) F, fl_nrLines F) \<and>
    (wf_executedLines f = 0 \<and> wf_codeLines f = 0 \<longrightarrow>
     (wf_executedLines (sumOne e r f), wf_codeLines (sumOne e r f)) = (getExecutedLines (r_heap r) F, fl_nrLines F))"
proof -
  have "count_ok (r_heap r) F"
    using reachable_ok [OF assms(1)] map_of_SomeD [OF assms(2)] by (auto simp: rep_inv_def rep_ok_def)
  then have "count_lines e r f = (getExecutedLines (r_heap r) F, fl_nrLines F)"
    using count_lines_reporter [OF assms(2-4)] by (simp add: getExecutedLines_eq count_ok_def)
  then show ?thesis using sumOne_counts [of f e r] by simp
qed

lemma demo_file: "map_of (r_files (demo_r3 HITS_UNLIMITED)) ''a.c'' = Some (the (map_of (r_files (demo_r3 HITS_UNLIMITED)) ''a.c''))"
  "length (fl_lines (the (map_of (r_files (demo_r3 HITS_UNLIMITED)) ''a.c''))) \<le> 10"
  "fl_lines (the (map_of (r_files (demo_r3 HITS_UNLIMITED)) ''a.c'')) ! 0 = None"
  by code_simp+

theorem writer_counts_witness:
  "count_lines (demo_env HITS_UNLIMITED) (demo_r3 HITS_UNLIMITED) (example_file ''a.c''\<lparr>wf_lastLineNr := 10\<rparr>) =
   (let F = the (map_of (r_files (demo_r3 HITS_UNLIMITED)) ''a.c'') in (getExecutedLines (r_heap (demo_r3 HITS_UNLIMITED)) F, fl_nrLines F))"
proof -
  have "wf_name (example_file ''a.c''\<lparr>wf_lastLineNr := 10\<rparr>) = ''a.c''" by (simp add: example_file_def)
  with writer_counts [OF demo_reachable(2), where f = "example_file ''a.c''\<lparr>wf_lastLineNr := 10\<rparr>"] demo_file
  show ?thesis by (simp add: Let_def)
qed

section \<open>Percentages\<close>

definition fp_val :: "fp \<Rightarrow> real" where
  "fp_val x = real (fst x) / real (snd x)"

lemma fp_val_scale: "0 < snd x \<Longrightarrow> fp_val (fp_scale s x) = fp_val x * 2 powi s" "0 < snd x \<Longrightarrow> 0 < snd (fp_scale s x)"
  by (auto simp: fp_val_def fp_scale_def power_int_def field_simps)

lemma round_even_error: "0 < d \<Longrightarrow> \<bar>real (round_even n d) - real n / real d\<bar> \<le> 1 / 2"
proof -
  assume d: "0 < d"
  have n: "real n = real (n div d) * real d + real (n mod d)" by (metis div_mult_mod_eq of_nat_add of_nat_mult)
  have q: "real n / real d = real (n div d) + real (n mod d) / real d" using d by (subst n) (simp add: field_simps)
  have m: "real (n mod d) / real d < 1" using d by simp
  show ?thesis
  proof (cases "2 * (n mod d) < d \<or> (2 * (n mod d) = d \<and> even (n div d))")
    case True
    then have "2 * real (n mod d) \<le> real d" by linarith
    then have "real (n mod d) / real d \<le> 1 / 2" using d by (simp add: field_simps)
    moreover have "round_even n d = n div d" using True by (simp add: round_even_def Let_def)
    ultimately show ?thesis using q by simp
  next
    case False
    then have "real d \<le> 2 * real (n mod d)" by linarith
    then have "1 / 2 \<le> real (n mod d) / real d" using d by (simp add: field_simps)
    moreover have "round_even n d = n div d + 1" using False by (simp add: round_even_def Let_def)
    ultimately show ?thesis using q m by simp
  qed
qed

lemma floorlog_powi: "0 < n \<Longrightarrow> 2 powi (int (floorlog 2 n) - 1) \<le> real n" "real n < 2 powi int (floorlog 2 n)"
proof -
  assume n: "0 < n"
  have "2 ^ (floorlog 2 n - 1) \<le> n" using floorlog_bounds [of n 2] n by simp
  then have "(2 :: real) ^ (floorlog 2 n - 1) \<le> real n" by (metis of_nat_le_iff of_nat_numeral of_nat_power)
  moreover have "0 < floorlog 2 n" using n by (simp add: floorlog_def)
  ultimately show "2 powi (int (floorlog 2 n) - 1) \<le> real n" by (simp add: power_int_def nat_diff_distrib)
next
  have "n < 2 ^ floorlog 2 n" using floorlog_bounds [of n 2] by (cases "n = 0") (simp_all add: floorlog_def)
  then have "real n < 2 ^ floorlog 2 n" by (metis of_nat_less_iff of_nat_numeral of_nat_power)
  then show "real n < 2 powi int (floorlog 2 n)" by simp
qed

lemma fp_exp_large:
  assumes "0 < snd x" "fst x \<noteq> 0"
  shows "2 powi (int p - 1) \<le> fp_val (fp_scale (fp_exp p x) x)"
proof -
  define a b where "a = int (floorlog 2 (fst x))" and "b = int (floorlog 2 (snd x))"
  define s0 where "s0 = int p - (a - b)"
  have "2 powi (a - 1) \<le> real (fst x)" "real (snd x) < 2 powi b"
    using floorlog_powi [of "fst x"] floorlog_powi [of "snd x"] assms(2) by (simp_all add: a_def b_def)
  then have "2 powi (a - 1) / 2 powi b \<le> fp_val x"
    using assms(1) unfolding fp_val_def by (intro frac_le) auto
  then have lo: "2 powi (a - b - 1) \<le> fp_val x" by (simp add: power_int_diff [symmetric] algebra_simps)
  have "2 powi (a - b - 1) * 2 powi s0 \<le> fp_val x * 2 powi s0" using lo by (intro mult_right_mono) auto
  then have "2 powi (int p - 1) \<le> fp_val x * 2 powi s0" by (simp add: s0_def power_int_add [symmetric])
  then have v0: "2 powi (int p - 1) \<le> fp_val (fp_scale s0 x)" using assms(1) by (simp add: fp_val_scale)
  show ?thesis
  proof (cases "fst (fp_scale s0 x) \<ge> 2 ^ p * snd (fp_scale s0 x)")
    case True
    then have s: "fp_exp p x = s0 - 1" by (simp add: fp_exp_def s0_def a_def b_def)
    have "0 < real (snd (fp_scale s0 x))" using fp_val_scale(2) [OF assms(1)] by simp
    moreover have "2 ^ p * real (snd (fp_scale s0 x)) \<le> real (fst (fp_scale s0 x))"
      using True by (metis of_nat_le_iff of_nat_mult of_nat_numeral of_nat_power)
    ultimately have "2 ^ p \<le> fp_val (fp_scale s0 x)" by (simp add: fp_val_def pos_le_divide_eq)
    then have "2 ^ p / 2 \<le> fp_val x * 2 powi (s0 - 1)" using assms(1) by (simp add: fp_val_scale power_int_diff)
    then show ?thesis using assms(1) by (simp add: s fp_val_scale power_int_diff)
  next
    case False
    then have "fp_exp p x = s0" by (simp add: fp_exp_def s0_def a_def b_def)
    then show ?thesis using v0 by simp
  qed
qed

lemma fp_round_error:
  assumes "0 < snd x"
  shows "\<bar>fp_val (fp_round p x) - fp_val x\<bar> \<le> fp_val x / 2 ^ p \<and> 0 < snd (fp_round p x)"
proof (cases "fst x = 0")
  case True
  then show ?thesis by (simp add: fp_round_def fp_val_def)
next
  case False
  define s y where "s = fp_exp p x" and "y = fp_scale s x"
  have r: "fp_round p x = fp_scale (- s) (round_even (fst y) (snd y), 1)"
    using False by (simp add: fp_round_def s_def y_def Let_def)
  have y: "0 < snd y" "fp_val y = fp_val x * 2 powi s" using assms fp_val_scale by (simp_all add: y_def)
  have "\<bar>real (round_even (fst y) (snd y)) - fp_val y\<bar> \<le> 1 / 2"
    using round_even_error [OF y(1)] by (simp add: fp_val_def)
  also have "\<dots> \<le> fp_val y / 2 ^ p"
    using fp_exp_large [OF assms False, of p] by (simp add: s_def y_def power_int_diff field_simps)
  finally have err: "\<bar>real (round_even (fst y) (snd y)) - fp_val y\<bar> \<le> fp_val y / 2 ^ p" .
  have m: "fp_val (fp_round p x) = real (round_even (fst y) (snd y)) * 2 powi (- s)"
    by (simp add: r fp_val_scale) (simp add: fp_val_def)
  have "fp_val x = fp_val y * 2 powi (- s)" by (simp add: y(2) power_int_minus)
  then have "\<bar>fp_val (fp_round p x) - fp_val x\<bar> = \<bar>real (round_even (fst y) (snd y)) - fp_val y\<bar> * 2 powi (- s)"
    by (simp add: m left_diff_distrib [symmetric] abs_mult)
  also have "\<dots> \<le> fp_val y / 2 ^ p * 2 powi (- s)" using err by (intro mult_right_mono) auto
  also have "\<dots> = fp_val x / 2 ^ p" by (simp add: y(2) power_int_minus)
  finally show ?thesis by (simp add: r fp_val_scale)
qed

lemma percent_error:
  assumes "0 < unat lines" "executed \<le> lines"
  defines "x \<equiv> real (unat executed) / real (unat lines)"
  shows "\<bar>fp_val (percent_of executed lines) - 100 * x\<bar> \<le> 1 / 2 ^ 44" "0 < snd (percent_of executed lines)"
proof -
  let ?q = "dbl_div (dbl_of_u32 executed) (dbl_of_u32 lines)"
  define E L where "E = unat executed" and "L = unat lines"
  have EL: "0 < L" "E \<le> L" "x = real E / real L" using assms by (simp_all only: word_le_nat_alt E_def L_def)
  then have x: "0 \<le> x" "x \<le> 1" by simp_all
  have q: "\<bar>fp_val ?q - x\<bar> \<le> x / 2 ^ 53" "0 < snd ?q"
    using fp_round_error [of "(E, L)" 53] EL(1)
    by (simp_all add: dbl_div_def dbl_of_u32_def E_def [symmetric] L_def [symmetric])
       (simp_all add: fp_val_def EL(3))
  have v: "fp_val (fst ?q * 100, snd ?q) = 100 * fp_val ?q" by (simp add: fp_val_def)
  have p: "\<bar>fp_val (percent_of executed lines) - 100 * fp_val ?q\<bar> \<le> 100 * fp_val ?q / 2 ^ 53"
    "0 < snd (percent_of executed lines)"
    using fp_round_error [of "(fst ?q * 100, snd ?q)" 53] q(2) by (simp_all add: percent_of_def dbl_mult_def v)
  then show "0 < snd (percent_of executed lines)" by simp
  have q1: "\<bar>fp_val ?q - x\<bar> \<le> 1 / 2 ^ 53" using q(1) x(2) by (rule order.trans [OF _ divide_right_mono]) simp
  then have q2: "fp_val ?q \<le> x + 1 / 2 ^ 53" "x - 1 / 2 ^ 53 \<le> fp_val ?q" by linarith+
  then have "100 * fp_val ?q / 2 ^ 53 \<le> 200 / 2 ^ 53" using x(2) by (intro divide_right_mono) simp_all
  with p(1) have "fp_val (percent_of executed lines) \<le> 100 * fp_val ?q + 200 / 2 ^ 53"
    "100 * fp_val ?q - 200 / 2 ^ 53 \<le> fp_val (percent_of executed lines)" by linarith+
  moreover have "(100 :: real) / 2 ^ 53 + 200 / 2 ^ 53 \<le> 1 / 2 ^ 44" by simp
  ultimately have "fp_val (percent_of executed lines) - 100 * x \<le> 1 / 2 ^ 44"
    "100 * x - fp_val (percent_of executed lines) \<le> 1 / 2 ^ 44" using q2 by linarith+
  then show "\<bar>fp_val (percent_of executed lines) - 100 * x\<bar> \<le> 1 / 2 ^ 44" by (intro abs_leI) simp_all
qed

lemma dbl_compare:
  assumes "0 < snd x"
  shows "dbl_ge_int x k \<longleftrightarrow> real_of_int (sint k) \<le> fp_val x" "dbl_gt_int x k \<longleftrightarrow> real_of_int (sint k) < fp_val x"
proof -
  have d: "0 < real (snd x)" using assms by simp
  have "dbl_ge_int x k \<longleftrightarrow> real_of_int (sint k * int (snd x)) \<le> real_of_int (int (fst x))"
    "dbl_gt_int x k \<longleftrightarrow> real_of_int (sint k * int (snd x)) < real_of_int (int (fst x))"
    unfolding dbl_ge_int_def dbl_gt_int_def by (simp_all only: of_int_le_iff of_int_less_iff)
  then show "dbl_ge_int x k \<longleftrightarrow> real_of_int (sint k) \<le> fp_val x" "dbl_gt_int x k \<longleftrightarrow> real_of_int (sint k) < fp_val x"
    unfolding fp_val_def of_int_mult of_int_of_nat_eq by (simp_all only: pos_le_divide_eq [OF d] pos_less_divide_eq [OF d])
qed

lemma percent_gap:
  fixes K :: int and E L :: nat
  assumes "0 < L"
  shows "K * int L < 100 * int E \<Longrightarrow> real_of_int K + 1 / real L \<le> 100 * (real E / real L)"
    "100 * int E < K * int L \<Longrightarrow> 100 * (real E / real L) + 1 / real L \<le> real_of_int K"
proof -
  assume "K * int L < 100 * int E"
  then have "real_of_int (K * int L + 1) \<le> real_of_int (100 * int E)" by (simp only: of_int_le_iff)
  then have "(real_of_int K * real L + 1) / real L \<le> (100 * real E) / real L" by (intro divide_right_mono) simp_all
  then show "real_of_int K + 1 / real L \<le> 100 * (real E / real L)" using assms by (simp add: add_divide_distrib)
next
  assume "100 * int E < K * int L"
  then have "real_of_int (100 * int E + 1) \<le> real_of_int (K * int L)" by (simp only: of_int_le_iff)
  then have "(100 * real E + 1) / real L \<le> (real_of_int K * real L) / real L" by (intro divide_right_mono) simp_all
  then show "100 * (real E / real L) + 1 / real L \<le> real_of_int K" using assms by (simp add: add_divide_distrib)
qed

lemma percent_compare:
  assumes "0 < unat lines" "executed \<le> lines"
  shows "sint k * int (unat lines) < 100 * int (unat executed) \<Longrightarrow>
      dbl_ge_int (percent_of executed lines) k \<and> dbl_gt_int (percent_of executed lines) k"
    and "100 * int (unat executed) < sint k * int (unat lines) \<Longrightarrow>
      \<not> dbl_ge_int (percent_of executed lines) k \<and> \<not> dbl_gt_int (percent_of executed lines) k"
proof -
  define E L where "E = unat executed" and "L = unat lines"
  let ?v = "fp_val (percent_of executed lines)"
  note err = percent_error [OF assms, folded E_def L_def]
  have L: "0 < real L" "1 / 2 ^ 32 \<le> 1 / real L"
  proof -
    show "0 < real L" using assms(1) unfolding L_def by (simp only: of_nat_0_less_iff)
    have "L < 2 ^ 32" unfolding L_def using unsigned_less [of lines, where 'a = nat] by simp
    then have "real L \<le> 2 ^ 32" by (metis less_imp_le of_nat_le_iff of_nat_numeral of_nat_power)
    with \<open>0 < real L\<close> show "1 / 2 ^ 32 \<le> 1 / real L" by (simp add: frac_le)
  qed
  note cmp = dbl_compare [OF err(2), of k]
  have small: "(1 :: real) / 2 ^ 44 < 1 / 2 ^ 32" by simp
  note gap = percent_gap [OF assms(1), folded E_def L_def, where K = "sint k" and E = E]
  show "dbl_ge_int (percent_of executed lines) k \<and> dbl_gt_int (percent_of executed lines) k"
    if "sint k * int (unat lines) < 100 * int (unat executed)"
    using gap(1) [OF that [folded E_def L_def]] err(1) L(2) small unfolding cmp by linarith
  show "\<not> dbl_ge_int (percent_of executed lines) k \<and> \<not> dbl_gt_int (percent_of executed lines) k"
    if "100 * int (unat executed) < sint k * int (unat lines)"
    using gap(2) [OF that [folded E_def L_def]] err(1) L(2) small unfolding cmp by linarith
qed

text \<open>
  The colour of a file or run in the HTML index is right whenever its percentage is not
  exactly at a limit, in spite of the two roundings: green above the high limit, yellow between the
  limits, red below the low limit, compared without rounding.
\<close>

lemma colour_from_percent:
  assumes "0 < unat lines" "executed \<le> lines"
    and "100 * int (unat executed) \<noteq> sint (wc_high_limit c) * int (unat lines)"
    and "100 * int (unat executed) \<noteq> sint (wc_low_limit c) * int (unat lines)"
  shows "colorFromPercent c (percent_of executed lines) =
    (if sint (wc_high_limit c) * int (unat lines) < 100 * int (unat executed) then ''lineCov''
     else if sint (wc_low_limit c) * int (unat lines) < 100 * int (unat executed) then ''linePartCov''
     else ''lineNoCov'')"
  using percent_compare [OF assms(1,2), of "wc_high_limit c"] percent_compare [OF assms(1,2), of "wc_low_limit c"] assms(3,4)
  unfolding colorFromPercent_def
  by (cases "sint (wc_high_limit c) * int (unat lines) < 100 * int (unat executed)";
      cases "sint (wc_low_limit c) * int (unat lines) < 100 * int (unat executed)")
     (simp_all del: of_nat_unat int_nat_eq)

definition example_conf :: wr_conf where
  "example_conf =
     \<lparr> wc_cobertura_only = 0, wc_cobertura_full_paths = 0, wc_codecov_full_paths = 0, wc_command_name = ''x'',
       wc_low_limit = 25, wc_high_limit = 75, wc_path_strip_level = 2, wc_merged_name = ''[merged]'', wc_strip_path = [],
       wc_coveralls_id = [], wc_coveralls_service_name = [], wc_css_file = [], wc_dump_summary = 0 \<rparr>"

lemma colour_from_percent_witness: "colorFromPercent example_conf (percent_of 2 3) = ''linePartCov''"
  using colour_from_percent [of 3 2 example_conf] by (simp add: example_conf_def)

text \<open>
  At a limit the roundings show: 29 of 100 lines are printed as 29.0 percent, but with a high limit of
  29 the class is that of a value below it, as 29 / 100 * 100 is less than 29 in double precision.
\<close>

lemma floorlog_eqI: "2 ^ k \<le> n \<Longrightarrow> n < 2 ^ Suc k \<Longrightarrow> floorlog 2 n = Suc k"
  by (rule antisym) (simp_all add: floorlog_leI floorlog_ge_SucI)

lemma percent_29: "percent_of 29 100 = (8162774324609023, 281474976710656)"
proof -
  have "floorlog 2 29 = Suc 4" "floorlog 2 100 = Suc 6" "floorlog 2 522417556774977500 = Suc 58"
    "floorlog 2 18014398509481984 = Suc 54"
    by (rule floorlog_eqI; simp)+
  then have "dbl_div (29, 1) (100, 1) = (5224175567749775, 18014398509481984)"
    "dbl_mult (5224175567749775, 18014398509481984) (100, 1) = (8162774324609023, 281474976710656)"
    by (simp_all add: dbl_div_def dbl_mult_def fp_round_def fp_exp_def fp_scale_def round_even_def Let_def)
  then show ?thesis by (simp add: percent_of_def dbl_of_u32_def)
qed

lemma percent_at_limit:
  "fmt_f 1 (percent_of 29 100) = ''29.0''"
  "colorFromPercent (example_conf\<lparr>wc_high_limit := 29\<rparr>) (percent_of 29 100) = ''linePartCov''"
  unfolding percent_29
  by (simp_all add: fmt_f_def round_even_def Let_def fmt_nat.simps pad0_def char_of_def colorFromPercent_def dbl_ge_int_def
      dbl_gt_int_def example_conf_def bit_0)

end
