(* ===== verification/Kcov_Main_Props.thy ===== *)
theory Kcov_Main_Props
  imports Kcov_Main Kcov_Bash_Props Kcov_Reporter_Props
begin

text \<open>
  Properties of the components put together: a line of a script that is traced is counted by the
  reporter, and which filters the second half of the system mode runs with.
\<close>

section \<open>A reporter that has seen lines of one file and no hits\<close>


















section \<open>Properties\<close>



lemma keys_setKey_KStr [simp]:
  "keyAsString (setKey c k (KStr v)) k' = (if k' = k then Inr v else keyAsString c k')"
  "keyAsList (setKey c k (KStr v)) k' = keyAsList c k'"
  by (auto simp: keyAsString_def keyAsList_def setKey_def notifyKeyListeners_def split: option.splits)

lemma conf_filter_iff:
  "conf_filter c = Inr flt \<longleftrightarrow>
     keyAsString c ''exclude-line'' = Inr (conf_exclude_line flt) \<and> keyAsString c ''exclude-region'' = Inr (conf_exclude_region flt) \<and>
     keyAsList c ''include-pattern'' = Inr (conf_include_pattern flt) \<and> keyAsList c ''exclude-pattern'' = Inr (conf_exclude_pattern flt) \<and>
     keyAsList c ''include-path'' = Inr (conf_include_path flt) \<and> keyAsList c ''exclude-path'' = Inr (conf_exclude_path flt) \<and>
     keyAsString c ''orig-path-prefix'' = Inr (conf_orig_path_prefix flt) \<and> keyAsString c ''new-path-prefix'' = Inr (conf_new_path_prefix flt)"
  by (cases flt) (auto simp: conf_filter_def rbind_Inr_iff)

text \<open>
  In system mode the pattern and path filters that were recorded with a binary are lost in
  the report: they are stored as strings under keys that the filter reads as lists, so it keeps the lists
  of the report's own command line. Only the markers for excluded lines and regions take effect.
\<close>

lemma system_report_filters:
  assumes "conf_filter c = Inr flt" "keyAsString c ''out-directory'' = Inr out"
    and "optionsStringToConfigurationVector options = [ip, ep, iP, eP, el, er]"
  shows "\<exists>c'. report_file_conf c file data_filename options = Inr c' \<and>
    conf_filter c' = Inr (flt\<lparr>conf_exclude_line := el, conf_exclude_region := er\<rparr>)"
proof -
  obtain path name where sp: "split_path data_filename = (path, name)" by fastforce
  show ?thesis using assms(1) unfolding report_file_conf_def assms(2,3) sp conf_filter_iff by (simp add: Let_def)
qed

definition report_conf :: Configuration where
  "report_conf =
     \<lparr> cf_strings = map_of [(''exclude-line'', []), (''exclude-region'', []), (''orig-path-prefix'', []), (''new-path-prefix'', []),
         (''out-directory'', ''/out'')], cf_ints = (\<lambda>_. None),
       cf_stringVectors = map_of [(''include-pattern'', [''x'']), (''exclude-pattern'', []), (''include-path'', []), (''exclude-path'', [])],
       cf_programArgs = [], cf_printUncommon = False, cf_listeners = (\<lambda>_. None), cf_notified = [], cf_debug_mask = 0 \<rparr>"

definition report_filter :: filter_conf where
  "report_filter =
     \<lparr> conf_exclude_line = [], conf_exclude_region = [], conf_include_pattern = [''x''], conf_exclude_pattern = [],
       conf_include_path = [], conf_exclude_path = [], conf_orig_path_prefix = [], conf_new_path_prefix = [] \<rparr>"

lemma system_report_filters_witness:
  "\<exists>c'. report_file_conf report_conf ''f'' ''/bin/ls'' ''a b c d e f'' = Inr c' \<and>
    conf_filter c' = Inr (report_filter\<lparr>conf_exclude_line := ''e'', conf_exclude_region := ''f''\<rparr>)"
proof -
  have "conf_filter report_conf = Inr report_filter"
    by (simp add: conf_filter_iff report_conf_def report_filter_def keyAsString_def keyAsList_def)
  moreover have "keyAsString report_conf ''out-directory'' = Inr ''/out''" by (simp add: report_conf_def keyAsString_def)
  moreover have "optionsStringToConfigurationVector ''a b c d e f'' = [''a'', ''b'', ''c'', ''d'', ''e'', ''f'']" by code_simp
  ultimately show ?thesis by (rule system_report_filters)
qed

end
