(* ===== verification/Kcov_Files.thy ===== *)
theory Kcov_Files
  imports Kcov_SourceCache Kcov_Memory "HOL-Library.Monad_Syntax"
begin

text \<open>
  The file and time helpers of \<open>src/src/utils.cc\<close>. The system calls are the fields of the record
  \<open>sys\<close>: functions of the state of the operating system, so that what they answer may change from
  one call to the next. The loop of \<open>read_file_int\<close> reads for as long as it gets full chunks, and
  \<open>read_write\<close> until the stream says that it is at its end: both may run for ever, which is \<open>None\<close>.
  A path is the string that the \<open>printf\<close> format and its arguments give.
\<close>

section \<open>System calls\<close>

datatype errno = ENXIO | EWOULDBLOCK | EOTHER

record timeval =
  tv_sec :: u64
  tv_usec :: u64

record timespec =
  ts_sec :: u64
  ts_nsec :: u64

record lstat_result =
  st_isdir :: bool
  st_mtime :: u64

record 'w sys =
  sys_open_r :: "string \<Rightarrow> 'w \<Rightarrow> (errno + nat) \<times> 'w"
  sys_open_w :: "string \<Rightarrow> 'w \<Rightarrow> (errno + nat) \<times> 'w"
  sys_select_r :: "nat \<Rightarrow> timeval \<Rightarrow> 'w \<Rightarrow> int \<times> timeval \<times> 'w"
  sys_select_w :: "nat \<Rightarrow> timeval \<Rightarrow> 'w \<Rightarrow> int \<times> timeval \<times> 'w"
  sys_read :: "nat \<Rightarrow> nat \<Rightarrow> 'w \<Rightarrow> byte list option \<times> 'w"
  sys_write :: "nat \<Rightarrow> byte list \<Rightarrow> 'w \<Rightarrow> int \<times> 'w"
  sys_close :: "nat \<Rightarrow> 'w \<Rightarrow> 'w"
  sys_nanosleep :: "timespec \<Rightarrow> 'w \<Rightarrow> 'w"
  sys_lstat :: "string \<Rightarrow> 'w \<Rightarrow> lstat_result option"
  sys_ifstream :: "string \<Rightarrow> 'w \<Rightarrow> byte list option"

text \<open>
  \<open>sys_open_r\<close> opens with \<open>O_RDONLY | O_NONBLOCK\<close>, \<open>sys_open_w\<close> with \<open>O_WRONLY | O_CREAT | O_TRUNC |
  O_NONBLOCK\<close>; \<open>sys_read\<close> gives \<open>None\<close> for \<open>-1\<close>; \<open>sys_ifstream\<close> gives the bytes a stream on the file
  yields up to the end or an error, \<open>None\<close> if it cannot be opened.
\<close>

text \<open>The callbacks that the unit tests install in place of the system calls.\<close>

type_synonym buffer = "nat \<times> byte list"

record 'w mocks =
  mocked_read_callback :: "(string \<Rightarrow> 'w \<Rightarrow> buffer option \<times> 'w) option"
  mocked_write_callback :: "(byte list \<Rightarrow> string \<Rightarrow> 'w \<Rightarrow> int \<times> 'w) option"
  mocked_file_exists_callback :: "(string \<Rightarrow> bool) option"
  mocked_get_file_timestamp_callback :: "(string \<Rightarrow> u64) option"

definition no_mocks :: "'w mocks" where
  "no_mocks = \<lparr> mocked_read_callback = None, mocked_write_callback = None,
     mocked_file_exists_callback = None, mocked_get_file_timestamp_callback = None \<rparr>"

definition mock_read_file ::
  "(string \<Rightarrow> 'w \<Rightarrow> buffer option \<times> 'w) option \<Rightarrow> 'w mocks \<Rightarrow> 'w mocks" where
  "mock_read_file callback g = g\<lparr>mocked_read_callback := callback\<rparr>"

definition mock_write_file ::
  "(byte list \<Rightarrow> string \<Rightarrow> 'w \<Rightarrow> int \<times> 'w) option \<Rightarrow> 'w mocks \<Rightarrow> 'w mocks" where
  "mock_write_file callback g = g\<lparr>mocked_write_callback := callback\<rparr>"

definition mock_file_exists :: "(string \<Rightarrow> bool) option \<Rightarrow> 'w mocks \<Rightarrow> 'w mocks" where
  "mock_file_exists callback g = g\<lparr>mocked_file_exists_callback := callback\<rparr>"

definition mock_get_file_timestamp :: "(string \<Rightarrow> u64) option \<Rightarrow> 'w mocks \<Rightarrow> 'w mocks" where
  "mock_get_file_timestamp callback g = g\<lparr>mocked_get_file_timestamp_callback := callback\<rparr>"

section \<open>Sleeping and time\<close>

definition msleep_ts :: "u64 \<Rightarrow> timespec" where
  "msleep_ts ms =
     (let ns = ms * 1000 * 1000
      in \<lparr> ts_sec = ns div (1000 * 1000 * 1000), ts_nsec = ns mod (1000 * 1000 * 1000) \<rparr>)"

definition msleep :: "'w sys \<Rightarrow> u64 \<Rightarrow> 'w \<Rightarrow> 'w" where
  "msleep s ms = sys_nanosleep s (msleep_ts ms)"

text \<open>\<open>ms * 1000 * 1000\<close> is a product of \<open>unsigned int\<close>s.\<close>

definition mdelay_ts :: "u32 \<Rightarrow> timespec" where
  "mdelay_ts ms = \<lparr> ts_sec = 0, ts_nsec = ucast (ms * 1000 * 1000) \<rparr>"

definition mdelay :: "'w sys \<Rightarrow> u32 \<Rightarrow> 'w \<Rightarrow> 'w" where
  "mdelay s ms = sys_nanosleep s (mdelay_ts ms)"

text \<open>The state is the static variable \<open>first\<close>.\<close>

definition get_ms_timestamp :: "timeval \<Rightarrow> u64 \<Rightarrow> u64 \<times> u64" where
  "get_ms_timestamp tv first =
     (let now = (tv_sec tv * 1000000 + tv_usec tv) div 1000;
          first' = (if first = 0 then now else first)
      in (now - first', first'))"

text \<open>The timeout of \<open>select\<close>, in the two ways the code computes it.\<close>

definition rw_timeout :: "u64 \<Rightarrow> timeval" where
  "rw_timeout timeout = \<lparr> tv_sec = timeout div 1000, tv_usec = (timeout mod 1000) * 10 \<rparr>"

definition readable_timeout :: "u32 \<Rightarrow> timeval" where
  "readable_timeout ms = \<lparr> tv_sec = ucast (ms div 1000), tv_usec = ucast ((ms mod 1000) * 1000) \<rparr>"

definition file_readable :: "'w sys \<Rightarrow> nat \<Rightarrow> u32 \<Rightarrow> 'w \<Rightarrow> bool \<times> 'w" where
  "file_readable s fd ms w =
     (case sys_select_r s fd (readable_timeout ms) w of (rv, _, w') \<Rightarrow> (rv > 0, w'))"

definition machine_is_64bit :: "nat \<Rightarrow> bool" where
  "machine_is_64bit sizeof_unsigned_long = (sizeof_unsigned_long = 8)"

section \<open>Reading\<close>

definition read_chunk_size :: nat where
  "read_chunk_size = 1024"

text \<open>\<open>memset(data + pos, 0, chunk)\<close> after the reallocation, then \<open>read(fd, data + pos, chunk)\<close>.\<close>

definition extended :: "byte list \<Rightarrow> nat \<Rightarrow> byte list" where
  "extended data pos = take pos data @ replicate read_chunk_size 0"

definition filled :: "byte list \<Rightarrow> nat \<Rightarrow> byte list \<Rightarrow> byte list" where
  "filled data pos bs = take pos data @ bs @ drop (pos + length bs) data"

partial_function (option) read_chunks ::
  "'w sys \<Rightarrow> nat \<Rightarrow> timeval \<Rightarrow> byte list \<Rightarrow> nat \<Rightarrow> 'w \<Rightarrow> (buffer option \<times> 'w) option" where
  "read_chunks s fd tv data pos w =
     (case sys_select_r s fd tv w of (ret, tv', w1) \<Rightarrow>
        if ret = -1 then Some (None, sys_close s fd w1)
        else if ret = 0 then Some (None, sys_close s fd w1)
        else (case sys_read s fd read_chunk_size w1 of
                (None, w2) \<Rightarrow> Some (None, sys_close s fd w2)
              | (Some bs, w2) \<Rightarrow>
                  if length bs = read_chunk_size
                  then read_chunks s fd tv' (filled (extended data pos) pos bs) (pos + length bs) w2
                  else Some (Some (pos + length bs, filled (extended data pos) pos bs), sys_close s fd w2)))"

definition must_wait :: "errno + nat \<Rightarrow> bool" where
  "must_wait r = (r = Inl ENXIO \<or> r = Inl EWOULDBLOCK)"

definition open_retrying ::
  "'w sys \<Rightarrow> (string \<Rightarrow> 'w \<Rightarrow> (errno + nat) \<times> 'w) \<Rightarrow> u64 \<Rightarrow> string \<Rightarrow> 'w \<Rightarrow> (errno + nat) \<times> 'w" where
  "open_retrying s op timeout path w =
     (case op path w of (r, w1) \<Rightarrow>
        if must_wait r then op path (msleep s timeout w1) else (r, w1))"

definition read_file_int ::
  "'w mocks \<Rightarrow> 'w sys \<Rightarrow> u64 \<Rightarrow> string \<Rightarrow> 'w \<Rightarrow> (buffer option \<times> 'w) option" where
  "read_file_int g s timeout path w =
     (case mocked_read_callback g of
        Some cb \<Rightarrow> Some (cb path w)
      | None \<Rightarrow>
          (case open_retrying s (sys_open_r s) timeout path w of
             (Inl _, w1) \<Rightarrow> Some (None, w1)
           | (Inr fd, w1) \<Rightarrow> read_chunks s fd (rw_timeout timeout) [] 0 w1))"

text \<open>\<open>panic_if\<close> ends the program.\<close>

datatype 'a outcome = Panics | Returns 'a

definition vsnprintf :: "nat \<Rightarrow> string \<Rightarrow> string \<times> nat" where
  "vsnprintf n s = (take (n - 1) s, length s)"

definition read_file ::
  "'w mocks \<Rightarrow> 'w sys \<Rightarrow> string \<Rightarrow> 'w \<Rightarrow> (buffer option \<times> 'w) outcome option" where
  "read_file g s formatted w =
     (case vsnprintf 2048 formatted of (path, r) \<Rightarrow>
        if r \<ge> 2048 then Some Panics else map_option Returns (read_file_int g s 0 path w))"

definition to_read :: nat where
  "to_read = 512"

definition peek_file :: "'w sys \<Rightarrow> string \<Rightarrow> 'w \<Rightarrow> buffer option outcome" where
  "peek_file s formatted w =
     (case vsnprintf 2048 formatted of (path, r) \<Rightarrow>
        if r \<ge> 2048 then Panics
        else (case sys_lstat s path w of
                None \<Rightarrow> Returns None
              | Some st \<Rightarrow>
                  if st_isdir st then Returns None
                  else (case sys_ifstream s path w of
                          None \<Rightarrow> Returns None
                        | Some bs \<Rightarrow>
                            let got = take to_read bs
                            in if length got > 0
                               then Returns (Some (length got, filled (replicate to_read 0) 0 got))
                               else Returns None)))"

text \<open>The bytes a caller sees of the buffer it gets.\<close>

definition buffer_bytes :: "buffer \<Rightarrow> byte list" where
  "buffer_bytes b = take (fst b) (snd b)"

definition hash_file ::
  "'w mocks \<Rightarrow> 'w sys \<Rightarrow> (byte list \<Rightarrow> u32) \<Rightarrow> string \<Rightarrow> 'w \<Rightarrow> (u32 \<times> 'w) outcome option" where
  "hash_file g s hash_block filename w =
     (case read_file g s filename w of
        None \<Rightarrow> None
      | Some Panics \<Rightarrow> Some Panics
      | Some (Returns (None, w')) \<Rightarrow> Some (Returns (0, w'))
      | Some (Returns (Some b, w')) \<Rightarrow> Some (Returns (hash_block (buffer_bytes b), w')))"

definition get_file_timestamp :: "'w mocks \<Rightarrow> 'w sys \<Rightarrow> string \<Rightarrow> 'w \<Rightarrow> u64" where
  "get_file_timestamp g s path w =
     (case mocked_get_file_timestamp_callback g of
        Some cb \<Rightarrow> cb path
      | None \<Rightarrow> (case sys_lstat s path w of None \<Rightarrow> 0 | Some st \<Rightarrow> st_mtime st))"

section \<open>Writing\<close>

text \<open>The cast \<open>(int)len\<close>.\<close>

definition c_int :: "nat \<Rightarrow> int" where
  "c_int len = sint (of_nat len :: u32)"

definition write_file_int ::
  "'w sys \<Rightarrow> byte list \<Rightarrow> u64 \<Rightarrow> string \<Rightarrow> 'w \<Rightarrow> int \<times> 'w" where
  "write_file_int s data timeout path w =
     (case open_retrying s (sys_open_w s) timeout path w of
        (Inl e, w1) \<Rightarrow>
          (if must_wait (Inl e) then -2 else -1, w1)
      | (Inr fd, w1) \<Rightarrow>
          (case sys_select_w s fd (rw_timeout timeout) w1 of (ret, _, w2) \<Rightarrow>
             if ret = -1 then (ret, sys_close s fd w2)
             else if ret = 0 then (-2, sys_close s fd w2)
             else (case sys_write s fd data w2 of (n, w3) \<Rightarrow>
                     if n \<noteq> c_int (length data) then (-3, w3) else (0, sys_close s fd w3))))"

text \<open>The path is cut to what fits \<open>path\<close>, without a check.\<close>

definition write_file ::
  "'w mocks \<Rightarrow> 'w sys \<Rightarrow> byte list \<Rightarrow> string \<Rightarrow> 'w \<Rightarrow> int \<times> 'w" where
  "write_file g s data formatted w =
     (case vsnprintf 2048 formatted of (path, _) \<Rightarrow>
        case mocked_write_callback g of
          Some cb \<Rightarrow> cb data path w
        | None \<Rightarrow> write_file_int s data 0 path w)"

section \<open>Formatting\<close>

text \<open>\<open>std::string(buf)\<close> ends at a zero character, \<open>result.resize(res)\<close> does not.\<close>

definition fmt :: "string \<Rightarrow> string" where
  "fmt formatted =
     (case vsnprintf 4096 formatted of (buf, res) \<Rightarrow>
        if res \<ge> 4096 then take res (fst (vsnprintf (res + 1) formatted))
        else takeWhile (\<lambda>c. c \<noteq> CHR 0x00) buf)"

section \<open>Concatenating files\<close>

text \<open>A \<open>FILE\<close> open for reading; on a directory every \<open>fread\<close> fails and sets the error indicator only.\<close>

record FILE =
  f_rest :: "byte list"
  f_eof :: bool
  f_isdir :: bool

definition fread :: "nat \<Rightarrow> FILE \<Rightarrow> byte list \<times> FILE" where
  "fread n f =
     (if f_isdir f then ([], f)
      else (take n (f_rest f),
            f\<lparr>f_rest := drop n (f_rest f), f_eof := f_eof f \<or> length (f_rest f) < n\<rparr>))"

partial_function (option) read_write :: "byte list \<Rightarrow> FILE \<Rightarrow> (byte list \<times> FILE) option" where
  "read_write dst src =
     (if f_eof src then Some (dst, src)
      else (case fread 1024 src of (buf, src') \<Rightarrow> read_write (dst @ buf) src'))"

datatype node = Regular "byte list" | Directory

definition fopen_w :: "(string \<Rightarrow> bool) \<Rightarrow> (string \<rightharpoonup> node) \<Rightarrow> string \<Rightarrow> (string \<rightharpoonup> node) option" where
  "fopen_w may_write fs p =
     (if fs p = Some Directory \<or> \<not> may_write p then None else Some (fs(p \<mapsto> Regular [])))"

definition node_file :: "node \<Rightarrow> FILE" where
  "node_file n =
     (case n of
        Regular bs \<Rightarrow> \<lparr> f_rest = bs, f_eof = False, f_isdir = False \<rparr>
      | Directory \<Rightarrow> \<lparr> f_rest = [], f_eof = False, f_isdir = True \<rparr>)"

definition fopen_r :: "(string \<Rightarrow> bool) \<Rightarrow> (string \<rightharpoonup> node) \<Rightarrow> string \<Rightarrow> FILE option" where
  "fopen_r may_read fs p = (if may_read p then map_option node_file (fs p) else None)"

text \<open>\<open>dst_name\<close> is another file than the two sources. The value of \<open>ret\<close> is never changed.\<close>

definition concat_files ::
  "(string \<Rightarrow> bool) \<Rightarrow> (string \<Rightarrow> bool) \<Rightarrow> string \<Rightarrow> string \<Rightarrow> string \<Rightarrow> (string \<rightharpoonup> node) \<Rightarrow>
   (int \<times> (string \<rightharpoonup> node)) option" where
  "concat_files may_read may_write dst_name file_a file_b fs =
     (let ret = -1 in
      case fopen_w may_write fs dst_name of
        None \<Rightarrow> Some (-1, fs)
      | Some fs1 \<Rightarrow>
          (case fopen_r may_read fs1 file_a of
             None \<Rightarrow> Some (ret, fs1)
           | Some s1 \<Rightarrow>
               (case fopen_r may_read fs1 file_b of
                  None \<Rightarrow> Some (ret, fs1)
                | Some s2 \<Rightarrow>
                    do {
                      (d1, _) \<leftarrow> read_write [] s1;
                      (d2, _) \<leftarrow> read_write d1 s2;
                      Some (ret, fs1(dst_name \<mapsto> Regular d2))
                    })))"

section \<open>Streams and environment\<close>

text \<open>\<open>fcntl(fd, F_GETFL)\<close> gives \<open>None\<close> for \<open>-1\<close>; the flag \<open>O_NONBLOCK\<close> is that of Linux.\<close>

definition O_NONBLOCK :: u32 where
  "O_NONBLOCK = 0x800"

definition make_file_non_blocking ::
  "(nat \<Rightarrow> u32 option) \<Rightarrow> (nat \<Rightarrow> u32 \<Rightarrow> bool) \<Rightarrow> nat \<Rightarrow> bool" where
  "make_file_non_blocking getfl setfl fd =
     (case getfl fd of None \<Rightarrow> False | Some flags \<Rightarrow> setfl fd (flags OR O_NONBLOCK))"

definition get_home :: "(string \<Rightarrow> string option) \<Rightarrow> string option" where
  "get_home getenv = getenv ''HOME''"

end
