(* ===== verification/Kcov_Files_Props.thy ===== *)
theory Kcov_Files_Props
  imports Kcov_Files
begin

text \<open>
  What the file helpers promise. The two predicates below are the documented behaviour of the
  system calls that the results rest on: \<open>fd_laws\<close> on which descriptors are open, for any kind of
  file, and \<open>file_laws\<close> on what is read and written, for regular files.
\<close>

section \<open>Descriptors\<close>

definition opens :: "('w \<Rightarrow> nat set) \<Rightarrow> 'w \<Rightarrow> (errno + nat) \<times> 'w \<Rightarrow> bool" where
  "opens opened w x \<longleftrightarrow>
     (case fst x of
        Inl _ \<Rightarrow> opened (snd x) = opened w
      | Inr fd \<Rightarrow> fd \<notin> opened w \<and> opened (snd x) = insert fd (opened w))"

definition fd_laws :: "'w sys \<Rightarrow> ('w \<Rightarrow> nat set) \<Rightarrow> bool" where
  "fd_laws s opened \<longleftrightarrow>
     (\<forall>p w. opens opened w (sys_open_r s p w)) \<and>
     (\<forall>p w. opens opened w (sys_open_w s p w)) \<and>
     (\<forall>fd tv w. opened (snd (snd (sys_select_r s fd tv w))) = opened w) \<and>
     (\<forall>fd tv w. opened (snd (snd (sys_select_w s fd tv w))) = opened w) \<and>
     (\<forall>fd n w. opened (snd (sys_read s fd n w)) = opened w) \<and>
     (\<forall>fd bs w. opened (snd (sys_write s fd bs w)) = opened w) \<and>
     (\<forall>fd w. opened (sys_close s fd w) = opened w - {fd}) \<and>
     (\<forall>ts w. opened (sys_nanosleep s ts w) = opened w)"

lemma fd_laws_open:
  assumes "fd_laws s opened"
  shows "opens opened w (sys_open_r s p w)" "opens opened w (sys_open_w s p w)"
  using assms by (simp_all add: fd_laws_def)

lemma fd_laws_kept:
  assumes "fd_laws s opened"
  shows "sys_select_r s fd tv w = (n, tv', w') \<Longrightarrow> opened w' = opened w"
    and "sys_select_w s fd tv w = (n, tv', w') \<Longrightarrow> opened w' = opened w"
    and "sys_read s fd k w = (b, w') \<Longrightarrow> opened w' = opened w"
    and "sys_write s fd bs w = (n, w') \<Longrightarrow> opened w' = opened w"
    and "opened (sys_close s fd w) = opened w - {fd}"
    and "opened (sys_nanosleep s ts w) = opened w"
proof -
  have "opened (snd (snd (sys_select_r s fd tv w))) = opened w"
    and "opened (snd (snd (sys_select_w s fd tv w))) = opened w"
    and "opened (snd (sys_read s fd k w)) = opened w"
    and "opened (snd (sys_write s fd bs w)) = opened w"
    using assms by (simp_all add: fd_laws_def)
  then show "sys_select_r s fd tv w = (n, tv', w') \<Longrightarrow> opened w' = opened w"
    and "sys_select_w s fd tv w = (n, tv', w') \<Longrightarrow> opened w' = opened w"
    and "sys_read s fd k w = (b, w') \<Longrightarrow> opened w' = opened w"
    and "sys_write s fd bs w = (n, w') \<Longrightarrow> opened w' = opened w"
    by simp_all
  show "opened (sys_close s fd w) = opened w - {fd}" "opened (sys_nanosleep s ts w) = opened w"
    using assms by (simp_all add: fd_laws_def)
qed

text \<open>Opening, with or without the second attempt.\<close>

lemma opens_Inl: "opens opened w (Inl e, w') \<longleftrightarrow> opened w' = opened w"
  by (simp add: opens_def)

lemma opens_Inr: "opens opened w (Inr fd, w') \<longleftrightarrow> fd \<notin> opened w \<and> opened w' = insert fd (opened w)"
  by (simp add: opens_def)

lemma open_retrying_opens:
  assumes laws: "fd_laws s opened" and op: "\<And>p w. opens opened w (op p w)"
  shows "opens opened w (open_retrying s op timeout path w)"
proof -
  obtain r1 w1 where o1: "op path w = (r1, w1)" by fastforce
  show ?thesis
  proof (cases "must_wait r1")
    case False
    then show ?thesis using op [of w path] o1 by (simp add: open_retrying_def)
  next
    case True
    then have "opened w1 = opened w" using op [of w path] o1 by (auto simp: must_wait_def opens_Inl)
    then have "opened (msleep s timeout w1) = opened w"
      using fd_laws_kept(6) [OF laws] by (simp add: msleep_def)
    then show ?thesis
      using op [of "msleep s timeout w1" path] o1 True by (simp add: open_retrying_def opens_def split: sum.splits)
  qed
qed

lemma read_chunks_closes:
  assumes laws: "fd_laws s opened"
    and run: "read_chunks s fd tv data pos w = Some y"
  shows "opened (snd y) = opened w - {fd}"
proof -
  have "s' = s \<longrightarrow> opened (snd y) = opened w - {fd}"
    if "read_chunks s' fd tv data pos w = Some y" for s'
    using that
  proof (rule read_chunks.raw_induct [rotated])
    fix rc and s' :: "'a sys" and fd tv data pos w y
    assume IH: "\<And>s' fd tv data pos w y. rc s' fd tv data pos w = Some y \<Longrightarrow>
                  s' = s \<longrightarrow> opened (snd y) = opened w - {fd}"
      and eq: "(case sys_select_r s' fd tv w of (ret, tv', w1) \<Rightarrow>
        if ret = -1 then Some (None, sys_close s' fd w1)
        else if ret = 0 then Some (None, sys_close s' fd w1)
        else (case sys_read s' fd read_chunk_size w1 of
                (None, w2) \<Rightarrow> Some (None, sys_close s' fd w2)
              | (Some bs, w2) \<Rightarrow>
                  if length bs = read_chunk_size
                  then rc s' fd tv' (filled (extended data pos) pos bs) (pos + length bs) w2
                  else Some (Some (pos + length bs, filled (extended data pos) pos bs), sys_close s' fd w2)))
        = Some y"
    show "s' = s \<longrightarrow> opened (snd y) = opened w - {fd}"
    proof
      assume s: "s' = s"
      obtain ret tv' w1 where sel: "sys_select_r s fd tv w = (ret, tv', w1)" by (metis prod_cases3)
      obtain b w2 where rd: "sys_read s fd read_chunk_size w1 = (b, w2)" by fastforce
      note kept = fd_laws_kept(1) [OF laws sel] fd_laws_kept(3) [OF laws rd] fd_laws_kept(5) [OF laws]
      have again: "opened (snd y) = opened w2 - {fd}" if "rc s fd tv' data' pos' w2 = Some y" for data' pos'
        using IH [OF that] by simp
      show "opened (snd y) = opened w - {fd}"
        using eq again kept unfolding s sel by (cases b) (auto simp: rd split: if_splits)
    qed
  qed
  then show ?thesis using run by blast
qed

lemma write_file_int_fds:
  assumes laws: "fd_laws s opened" and run: "write_file_int s data timeout p w = (r, w')"
  shows "(r \<noteq> -3 \<longrightarrow> opened w' = opened w) \<and>
         (r = -3 \<longrightarrow> (\<exists>fd. fd \<notin> opened w \<and> opened w' = insert fd (opened w)))"
proof -
  obtain o1 w1 where op: "open_retrying s (sys_open_w s) timeout p w = (o1, w1)" by fastforce
  have opens: "opens opened w (o1, w1)"
    using open_retrying_opens [OF laws, of "sys_open_w s" w timeout p] fd_laws_open(2) [OF laws]
    by (simp add: op)
  show ?thesis
  proof (cases o1)
    case (Inl e)
    then show ?thesis using run op opens by (auto simp: write_file_int_def opens_Inl split: if_splits)
  next
    case (Inr fd)
    obtain ret tv' w2 where sel: "sys_select_w s fd (rw_timeout timeout) w1 = (ret, tv', w2)"
      by (metis prod_cases3)
    obtain n w3 where wr: "sys_write s fd data w2 = (n, w3)" by fastforce
    have "opened w3 = insert fd (opened w)" "opened w2 = insert fd (opened w)" "fd \<notin> opened w"
      using opens Inr fd_laws_kept(2) [OF laws sel] fd_laws_kept(4) [OF laws wr]
      by (auto simp: opens_Inr)
    then show ?thesis
      using run fd_laws_kept(5) [OF laws]
      by (auto simp: write_file_int_def op Inr sel wr split: if_splits)
  qed
qed

lemma read_file_int_fds:
  assumes laws: "fd_laws s opened" and run: "read_file_int no_mocks s timeout p w = Some (r, w')"
  shows "opened w' = opened w"
proof -
  obtain o1 w1 where op: "open_retrying s (sys_open_r s) timeout p w = (o1, w1)" by fastforce
  have opens: "opens opened w (o1, w1)"
    using open_retrying_opens [OF laws, of "sys_open_r s" w timeout p] fd_laws_open(1) [OF laws]
    by (simp add: op)
  show ?thesis
  proof (cases o1)
    case (Inl e)
    then show ?thesis using run op opens by (auto simp: read_file_int_def no_mocks_def opens_Inl)
  next
    case (Inr fd)
    then have "read_chunks s fd (rw_timeout timeout) [] 0 w1 = Some (r, w')"
      using run op by (simp add: read_file_int_def no_mocks_def)
    then show ?thesis using read_chunks_closes [OF laws] opens Inr by (fastforce simp: opens_Inr)
  qed
qed

section \<open>Regular files\<close>

text \<open>
  \<open>files w p\<close> is the content of the regular file \<open>p\<close>, \<open>descs w fd\<close> the file and offset of a descriptor;
  \<open>regular p\<close> says that \<open>p\<close> names a regular file or nothing. A regular file is always ready for
  \<open>select\<close>; a read gives all that is left up to its count; a write may be short.
\<close>

definition file_laws ::
  "'w sys \<Rightarrow> (string \<Rightarrow> bool) \<Rightarrow> ('w \<Rightarrow> string \<rightharpoonup> byte list) \<Rightarrow> ('w \<Rightarrow> nat \<rightharpoonup> string \<times> nat) \<Rightarrow> bool" where
  "file_laws s regular files descs \<longleftrightarrow>
     (\<forall>p w fd w'. regular p \<longrightarrow> sys_open_r s p w = (Inr fd, w') \<longrightarrow>
        files w' = files w \<and> descs w' = (descs w)(fd \<mapsto> (p, 0))) \<and>
     (\<forall>p w fd w'. regular p \<longrightarrow> sys_open_w s p w = (Inr fd, w') \<longrightarrow>
        files w' = (files w)(p \<mapsto> []) \<and> descs w' = (descs w)(fd \<mapsto> (p, 0))) \<and>
     (\<forall>fd tv w. descs w fd \<noteq> None \<longrightarrow>
        (\<exists>tv' w'. sys_select_r s fd tv w = (1, tv', w') \<and> files w' = files w \<and> descs w' = descs w)) \<and>
     (\<forall>fd tv w. descs w fd \<noteq> None \<longrightarrow>
        (\<exists>tv' w'. sys_select_w s fd tv w = (1, tv', w') \<and> files w' = files w \<and> descs w' = descs w)) \<and>
     (\<forall>fd n w p off c. descs w fd = Some (p, off) \<longrightarrow> files w p = Some c \<longrightarrow>
        (\<exists>w'. sys_read s fd n w = (Some (take n (drop off c)), w') \<and> files w' = files w \<and>
              descs w' = (descs w)(fd \<mapsto> (p, off + length (take n (drop off c)))))) \<and>
     (\<forall>fd bs w p c n w'. descs w fd = Some (p, 0) \<longrightarrow> files w p = Some c \<longrightarrow>
        sys_write s fd bs w = (n, w') \<longrightarrow> 0 \<le> n \<longrightarrow>
        nat n \<le> length bs \<and> files w' = (files w)(p \<mapsto> take (nat n) bs @ drop (nat n) c)) \<and>
     (\<forall>fd w. files (sys_close s fd w) = files w)"

lemma file_laws_open:
  assumes "file_laws s regular files descs" and "regular p"
  shows "sys_open_r s p w = (Inr fd, w') \<Longrightarrow> files w' = files w \<and> descs w' = (descs w)(fd \<mapsto> (p, 0))"
    and "sys_open_w s p w = (Inr fd, w') \<Longrightarrow>
           files w' = (files w)(p \<mapsto> []) \<and> descs w' = (descs w)(fd \<mapsto> (p, 0))"
  using assms unfolding file_laws_def by (elim conjE, metis)+

lemma file_laws_ready:
  assumes "file_laws s regular files descs" and "descs w fd \<noteq> None"
  obtains tv' w' where "sys_select_r s fd tv w = (1, tv', w')" "files w' = files w" "descs w' = descs w"
proof -
  from assms have "\<exists>tv' w'. sys_select_r s fd tv w = (1, tv', w') \<and> files w' = files w \<and> descs w' = descs w"
    unfolding file_laws_def by (elim conjE) blast
  then show thesis using that by blast
qed

lemma file_laws_ready_w:
  assumes "file_laws s regular files descs" and "descs w fd \<noteq> None"
  obtains tv' w' where "sys_select_w s fd tv w = (1, tv', w')" "files w' = files w" "descs w' = descs w"
proof -
  from assms have "\<exists>tv' w'. sys_select_w s fd tv w = (1, tv', w') \<and> files w' = files w \<and> descs w' = descs w"
    unfolding file_laws_def by (elim conjE) blast
  then show thesis using that by blast
qed

lemma file_laws_read:
  assumes "file_laws s regular files descs" and "descs w fd = Some (p, off)" and "files w p = Some c"
  obtains w' where "sys_read s fd n w = (Some (take n (drop off c)), w')" "files w' = files w"
    "descs w' = (descs w)(fd \<mapsto> (p, off + length (take n (drop off c))))"
proof -
  from assms have "\<exists>w'. sys_read s fd n w = (Some (take n (drop off c)), w') \<and> files w' = files w \<and>
              descs w' = (descs w)(fd \<mapsto> (p, off + length (take n (drop off c))))"
    unfolding file_laws_def by (elim conjE) simp
  then show thesis using that by blast
qed

lemma file_laws_write:
  assumes "file_laws s regular files descs" and "descs w fd = Some (p, 0)" and "files w p = Some c"
    and "sys_write s fd bs w = (n, w')" and "0 \<le> n"
  shows "nat n \<le> length bs" and "files w' = (files w)(p \<mapsto> take (nat n) bs @ drop (nat n) c)"
proof -
  have "nat n \<le> length bs \<and> files w' = (files w)(p \<mapsto> take (nat n) bs @ drop (nat n) c)"
    using assms unfolding file_laws_def by (elim conjE) simp
  then show "nat n \<le> length bs" and "files w' = (files w)(p \<mapsto> take (nat n) bs @ drop (nat n) c)" by auto
qed

lemma file_laws_close: "file_laws s regular files descs \<Longrightarrow> files (sys_close s fd w) = files w"
  by (simp add: file_laws_def)

text \<open>
  The buffer after the last chunk: the whole file, and zero bytes up to the next multiple of the
  read_chunk_size size, at least one of them. The loop ends for a file of any size.
\<close>

lemma filled_extended:
  "length bs \<le> read_chunk_size \<Longrightarrow> filled (extended data (length data)) (length data) bs =
     data @ bs @ replicate (read_chunk_size - length bs) 0"
  by (simp add: filled_def extended_def)

lemma read_chunks_regular:
  assumes laws: "file_laws s regular files descs"
    and "descs w fd = Some (p, pos)" and "files w p = Some c" and "pos \<le> length c" and "read_chunk_size dvd pos"
  shows "\<exists>w'. read_chunks s fd tv (take pos c) pos w =
           Some (Some (length c, c @ replicate (read_chunk_size - length c mod read_chunk_size) 0), w') \<and> files w' = files w"
  using assms(2-)
proof (induction "length c - pos" arbitrary: pos w tv rule: less_induct)
  case less
  obtain tv1 w1 where sel: "sys_select_r s fd tv w = (1, tv1, w1)" "files w1 = files w" "descs w1 = descs w"
    using file_laws_ready [OF laws, of w fd tv] less.prems(1) by auto
  obtain w2 where rd: "sys_read s fd read_chunk_size w1 = (Some (take read_chunk_size (drop pos c)), w2)"
    and w2: "files w2 = files w" "descs w2 = (descs w)(fd \<mapsto> (p, pos + length (take read_chunk_size (drop pos c))))"
    using file_laws_read [OF laws, of w1 fd p pos c read_chunk_size] less.prems sel by auto
  define bs where "bs = take read_chunk_size (drop pos c)"
  have len: "length (take pos c) = pos" using less.prems by simp
  have fill: "filled (extended (take pos c) pos) pos bs = take pos c @ bs @ replicate (read_chunk_size - length bs) 0"
    using filled_extended [of bs "take pos c"] len by (simp add: bs_def)
  have joined: "take pos c @ bs = take (pos + length bs) c"
    by (simp add: bs_def take_add) (simp add: min_def)
  show ?case
  proof (cases "length bs = read_chunk_size")
    case True
    have pos: "read_chunk_size > 0" "pos + read_chunk_size \<le> length c" using True less.prems by (auto simp: bs_def read_chunk_size_def)
    have "\<exists>w'. read_chunks s fd tv1 (take (pos + read_chunk_size) c) (pos + read_chunk_size) w2 =
        Some (Some (length c, c @ replicate (read_chunk_size - length c mod read_chunk_size) 0), w') \<and> files w' = files w2"
      using less.hyps [of "pos + read_chunk_size" w2 tv1] less.prems w2 pos True by (simp add: bs_def)
    then show ?thesis
      using True w2 fill joined
      by (subst read_chunks.simps) (simp add: sel rd flip: bs_def)
  next
    case False
    then have all: "bs = drop pos c" "length c - pos < read_chunk_size" using less.prems by (auto simp: bs_def)
    obtain k where "pos = read_chunk_size * k" using less.prems by (auto elim: dvdE)
    then have "length c mod read_chunk_size = length c - pos"
      using all less.prems by (metis le_add_diff_inverse mod_less mod_mult_self4 mult.commute)
    then show ?thesis
      using False all w2 fill joined less.prems file_laws_close [OF laws, of fd w2]
      by (subst read_chunks.simps) (simp add: sel rd flip: bs_def)
  qed
qed

lemma open_retrying_Inr:
  "open_retrying s op timeout p w = (Inr fd, w1) \<Longrightarrow> \<exists>w0. op p w0 = (Inr fd, w1)"
  by (auto simp: open_retrying_def split: prod.splits if_splits)

lemma c_int_small: "len < 2 ^ 31 \<Longrightarrow> c_int len = int len"
  by (simp add: c_int_def signed_of_nat signed_take_bit_int_eq_self)

lemma write_file_int_regular:
  assumes laws: "file_laws s regular files descs" and reg: "regular p" and small: "length data < 2 ^ 31"
    and run: "write_file_int s data timeout p w = (0, w')"
  shows "files w' p = Some data"
proof -
  obtain fd w1 where op: "open_retrying s (sys_open_w s) timeout p w = (Inr fd, w1)"
    using run by (auto simp: write_file_int_def split: prod.splits sum.splits if_splits)
  obtain w0 where "sys_open_w s p w0 = (Inr fd, w1)" using open_retrying_Inr [OF op] by auto
  then have w1: "files w1 p = Some []" "descs w1 fd = Some (p, 0)"
    using file_laws_open(2) [OF laws reg] by auto
  obtain tv' w2 where sel: "sys_select_w s fd (rw_timeout timeout) w1 = (1, tv', w2)"
    and w2: "files w2 = files w1" "descs w2 = descs w1"
    using file_laws_ready_w [OF laws, of w1 fd "rw_timeout timeout"] w1 by auto
  obtain n w3 where wr: "sys_write s fd data w2 = (n, w3)" by fastforce
  have n: "n = int (length data)" and w': "w' = sys_close s fd w3"
    using run op sel wr c_int_small [OF small] by (auto simp: write_file_int_def split: if_splits)
  have "files w3 p = Some data"
    using file_laws_write [OF laws _ _ wr, of p "[]"] n w1 w2 by simp
  then show ?thesis using file_laws_close [OF laws] w' by simp
qed

lemma read_file_regular:
  assumes laws: "file_laws s regular files descs" and reg: "regular p" and short: "length p < 2048"
    and c: "files w p = Some c" and op: "sys_open_r s p w = (Inr fd, w1)"
  shows "\<exists>w'. read_file no_mocks s p w =
           Some (Returns (Some (length c, c @ replicate (1024 - length c mod 1024) 0), w')) \<and> files w' = files w"
proof -
  have w1: "files w1 = files w" "descs w1 fd = Some (p, 0)"
    using file_laws_open(1) [OF laws reg op] by auto
  have "read_file_int no_mocks s 0 p w = read_chunks s fd (rw_timeout 0) (take 0 c) 0 w1"
    by (simp add: read_file_int_def no_mocks_def open_retrying_def op must_wait_def)
  then show ?thesis
    using read_chunks_regular [OF laws, of w1 fd p 0 c "rw_timeout 0"] w1 c short
    by (auto simp: read_file_def vsnprintf_def read_chunk_size_def)
qed

section \<open>A file system in memory\<close>

text \<open>Files and open descriptors as lists: a system that obeys both sets of laws.\<close>

record memfs =
  mem_files :: "(string \<times> byte list) list"
  mem_descs :: "(nat \<times> string \<times> nat) list"

definition mem_fd :: "memfs \<Rightarrow> nat" where
  "mem_fd w = Suc (sum_list (map fst (mem_descs w)))"

definition mem_open_r :: "string \<Rightarrow> memfs \<Rightarrow> (errno + nat) \<times> memfs" where
  "mem_open_r p w =
     (if p \<in> fst ` set (mem_files w)
      then (Inr (mem_fd w), w\<lparr>mem_descs := (mem_fd w, p, 0) # mem_descs w\<rparr>) else (Inl EOTHER, w))"

definition mem_open_w :: "string \<Rightarrow> memfs \<Rightarrow> (errno + nat) \<times> memfs" where
  "mem_open_w p w =
     (Inr (mem_fd w), \<lparr> mem_files = alist_upd p [] (mem_files w),
                       mem_descs = (mem_fd w, p, 0) # mem_descs w \<rparr>)"

definition mem_select :: "nat \<Rightarrow> timeval \<Rightarrow> memfs \<Rightarrow> int \<times> timeval \<times> memfs" where
  "mem_select fd tv w = (if fd \<in> fst ` set (mem_descs w) then 1 else -1, tv, w)"

definition mem_read :: "nat \<Rightarrow> nat \<Rightarrow> memfs \<Rightarrow> byte list option \<times> memfs" where
  "mem_read fd n w =
     (case map_of (mem_descs w) fd of
        None \<Rightarrow> (None, w)
      | Some (p, off) \<Rightarrow>
          (case map_of (mem_files w) p of
             None \<Rightarrow> (None, w)
           | Some c \<Rightarrow> let bs = take n (drop off c)
               in (Some bs, w\<lparr>mem_descs := alist_upd fd (p, off + length bs) (mem_descs w)\<rparr>)))"

definition mem_write :: "nat \<Rightarrow> byte list \<Rightarrow> memfs \<Rightarrow> int \<times> memfs" where
  "mem_write fd bs w =
     (case map_of (mem_descs w) fd of
        None \<Rightarrow> (-1, w)
      | Some (p, off) \<Rightarrow>
          (case map_of (mem_files w) p of
             None \<Rightarrow> (-1, w)
           | Some c \<Rightarrow>
               (int (length bs),
                \<lparr> mem_files = alist_upd p (take off c @ bs @ drop (off + length bs) c) (mem_files w),
                  mem_descs = alist_upd fd (p, off + length bs) (mem_descs w) \<rparr>)))"

definition mem_sys :: "memfs sys" where
  "mem_sys = \<lparr> sys_open_r = mem_open_r, sys_open_w = mem_open_w,
     sys_select_r = mem_select, sys_select_w = mem_select, sys_read = mem_read, sys_write = mem_write,
     sys_close = \<lambda>fd w. w\<lparr>mem_descs := filter (\<lambda>d. fst d \<noteq> fd) (mem_descs w)\<rparr>,
     sys_nanosleep = \<lambda>_ w. w,
     sys_lstat = \<lambda>p w. if p \<in> fst ` set (mem_files w) then Some \<lparr> st_isdir = False, st_mtime = 0 \<rparr> else None,
     sys_ifstream = \<lambda>p w. map_of (mem_files w) p \<rparr>"

lemma mem_sys_sel [simp]:
  "sys_open_r mem_sys = mem_open_r" "sys_open_w mem_sys = mem_open_w"
  "sys_select_r mem_sys = mem_select" "sys_select_w mem_sys = mem_select"
  "sys_read mem_sys = mem_read" "sys_write mem_sys = mem_write"
  "sys_close mem_sys fd w = w\<lparr>mem_descs := filter (\<lambda>d. fst d \<noteq> fd) (mem_descs w)\<rparr>"
  "sys_nanosleep mem_sys ts w = w"
  by (simp_all add: mem_sys_def)

definition mem_opened :: "memfs \<Rightarrow> nat set" where
  "mem_opened w = fst ` set (mem_descs w)"

lemma mem_fd_fresh: "mem_fd w \<notin> fst ` set (mem_descs w)"
proof
  assume "mem_fd w \<in> fst ` set (mem_descs w)"
  then have "mem_fd w \<le> sum_list (map fst (mem_descs w))"
    by (intro member_le_sum_list) auto
  then show False by (simp add: mem_fd_def)
qed

lemma mem_desc_known: "map_of (mem_descs w) fd = Some d \<Longrightarrow> fd \<in> fst ` set (mem_descs w)"
  by (force dest: map_of_SomeD)

lemma mem_fd_laws: "fd_laws mem_sys mem_opened"
proof -
  have r: "opens mem_opened w (mem_open_r p w)" and w: "opens mem_opened w (mem_open_w p w)" for p w
    using mem_fd_fresh [of w] by (auto simp: opens_def mem_open_r_def mem_open_w_def mem_opened_def)
  have rd: "mem_opened (snd (mem_read fd n w)) = mem_opened w" for fd n w
    using mem_desc_known [of w fd]
    by (auto simp: mem_read_def mem_opened_def Let_def split: option.splits)
  have wr: "mem_opened (snd (mem_write fd bs w)) = mem_opened w" for fd bs w
    using mem_desc_known [of w fd]
    by (auto simp: mem_write_def mem_opened_def split: option.splits)
  show ?thesis
    using r w rd wr by (simp add: fd_laws_def mem_select_def) (auto simp: mem_opened_def)
qed

lemma mem_file_laws:
  "file_laws mem_sys (\<lambda>_. True) (\<lambda>w. map_of (mem_files w)) (\<lambda>w. map_of (mem_descs w))"
proof -
  have sel: "map_of (mem_descs w) fd \<noteq> None \<longrightarrow>
      (\<exists>tv' w'. mem_select fd tv w = (1, tv', w') \<and> map_of (mem_files w') = map_of (mem_files w) \<and>
         map_of (mem_descs w') = map_of (mem_descs w))" for fd tv w
    using mem_desc_known [of w fd] by (auto simp: mem_select_def)
  have rd: "\<exists>w'. mem_read fd n w = (Some (take n (drop off c)), w') \<and> map_of (mem_files w') = map_of (mem_files w) \<and>
         map_of (mem_descs w') = (map_of (mem_descs w))(fd \<mapsto> (p, off + length (take n (drop off c))))"
    if "map_of (mem_descs w) fd = Some (p, off)" "map_of (mem_files w) p = Some c" for fd n w p off c
    using that by (simp add: mem_read_def Let_def)
  show ?thesis
    unfolding file_laws_def mem_sys_sel
    using sel rd by (auto simp: mem_open_r_def mem_open_w_def mem_write_def split: if_splits)
qed

section \<open>Results\<close>

text \<open>
  Property C24. A file that was written is read back. When \<open>write_file\<close> returns 0 for data below 2 GB and a
  regular file, under a path that fits its buffer of 2048 bytes, a following \<open>read_file\<close> that can open the file
  returns exactly the data, be it empty, a multiple of the chunk of 1024 bytes or anything else. At least one zero
  byte follows the data in the buffer, so that text can be used as a C string, and reading changes no file. (From 2 GB
  on the code compares the number of bytes written with the length cut to an int, and a short write can count
  as success.) The system calls are taken to behave as documented for regular files.
\<close>

theorem write_file_then_read_file:
  assumes "file_laws s regular files descs" and "regular p" and "length p < 2048" and "length data < 2 ^ 31"
    and "write_file no_mocks s data p w = (0, w1)" and "sys_open_r s p w1 = (Inr fd, w2)"
  shows "\<exists>b w3. read_file no_mocks s p w1 = Some (Returns (Some b, w3)) \<and> buffer_bytes b = data \<and>
           length data < length (snd b) \<and> snd b ! length data = 0 \<and> files w3 = files w1"
proof -
  have "write_file_int s data 0 p w = (0, w1)"
    using assms(3,5) by (simp add: write_file_def vsnprintf_def no_mocks_def)
  then have c: "files w1 p = Some data" by (rule write_file_int_regular [OF assms(1,2,4)])
  obtain w3 where "read_file no_mocks s p w1 =
      Some (Returns (Some (length data, data @ replicate (1024 - length data mod 1024) 0), w3))" "files w3 = files w1"
    using read_file_regular [OF assms(1-3) c assms(6)] by auto
  moreover have "length data mod 1024 < 1024" by simp
  ultimately show ?thesis by (auto simp: buffer_bytes_def nth_append)
qed

definition demo_data :: "byte list" where
  "demo_data = replicate 1024 7"

theorem write_file_then_read_file_witness:
  "\<exists>b w3. read_file no_mocks mem_sys ''f'' \<lparr> mem_files = [(''f'', demo_data)], mem_descs = [] \<rparr> =
            Some (Returns (Some b, w3)) \<and> buffer_bytes b = demo_data"
proof -
  have "write_file no_mocks mem_sys demo_data ''f'' \<lparr> mem_files = [], mem_descs = [] \<rparr> =
      (0, \<lparr> mem_files = [(''f'', demo_data)], mem_descs = [] \<rparr>)"
    by (simp add: write_file_def vsnprintf_def no_mocks_def write_file_int_def open_retrying_def
        must_wait_def mem_open_w_def mem_fd_def mem_select_def mem_write_def c_int_small demo_data_def)
  moreover have "sys_open_r mem_sys ''f'' \<lparr> mem_files = [(''f'', demo_data)], mem_descs = [] \<rparr> =
      (Inr 1, \<lparr> mem_files = [(''f'', demo_data)], mem_descs = [(1, ''f'', 0)] \<rparr>)"
    by (simp add: mem_open_r_def mem_fd_def)
  moreover have "length ''f'' < 2048" "length demo_data < 2 ^ 31" by (simp_all add: demo_data_def)
  ultimately show ?thesis
    using write_file_then_read_file [OF mem_file_laws TrueI] by blast
qed

text \<open>
  Property C40. No descriptor is lost, but in one case. Whatever the system calls answer, an early end of
  \<open>read_file\<close>, a failing or timed out \<open>select\<close> and a failing \<open>read\<close> included, the open descriptors
  are the same after a call of \<open>read_file\<close> as before; so they are after \<open>write_file\<close>, unless it
  returns \<open>-3\<close> for a short write, which leaves the file open.
\<close>

theorem file_helpers_close:
  assumes "fd_laws s opened"
  shows "(\<forall>r w'. read_file no_mocks s p w = Some (Returns (r, w')) \<longrightarrow> opened w' = opened w) \<and>
         (\<forall>r w'. write_file no_mocks s data p w = (r, w') \<longrightarrow>
            (if r = -3 then \<exists>fd. fd \<notin> opened w \<and> opened w' = insert fd (opened w)
             else opened w' = opened w))"
proof (intro conjI allI impI)
  fix r w' assume "read_file no_mocks s p w = Some (Returns (r, w'))"
  then have "read_file_int no_mocks s 0 p w = Some (r, w')"
    by (auto simp: read_file_def vsnprintf_def split: if_splits)
  then show "opened w' = opened w" by (rule read_file_int_fds [OF assms])
next
  fix r w' assume "write_file no_mocks s data p w = (r, w')"
  then have "write_file_int s data 0 (take 2047 p) w = (r, w')"
    by (simp add: write_file_def vsnprintf_def no_mocks_def)
  from write_file_int_fds [OF assms this]
  show "if r = -3 then \<exists>fd. fd \<notin> opened w \<and> opened w' = insert fd (opened w) else opened w' = opened w"
    by simp
qed

theorem file_helpers_close_witness:
  "\<exists>r w'. read_file no_mocks mem_sys ''f'' \<lparr> mem_files = [(''f'', demo_data)], mem_descs = [(3, ''g'', 0)] \<rparr> =
       Some (Returns (r, w')) \<and> mem_opened w' = {3}"
proof -
  let ?w = "\<lparr> mem_files = [(''f'', demo_data)], mem_descs = [(3, ''g'', 0)] \<rparr>"
  obtain r w' where rd: "read_file no_mocks mem_sys ''f'' ?w = Some (Returns (r, w'))"
    using read_file_regular [OF mem_file_laws TrueI, of "''f''" ?w demo_data "mem_fd ?w"]
    by (auto simp: mem_open_r_def demo_data_def)
  then have "mem_opened w' = mem_opened ?w" using file_helpers_close [OF mem_fd_laws] by blast
  then have "mem_opened w' = {3}" by (simp add: mem_opened_def)
  with rd show ?thesis by blast
qed

text \<open>
  The timeout that the code means to wait: \<open>file_readable\<close> waits its milliseconds, the helpers
  wait a hundredth of the fraction of a second.
\<close>

definition timeval_us :: "timeval \<Rightarrow> nat" where
  "timeval_us tv = unat (tv_sec tv) * 1000000 + unat (tv_usec tv)"

lemma readable_timeout_us: "timeval_us (readable_timeout ms) = 1000 * unat ms"
proof -
  have "unat ((ms mod 1000) * 1000) = unat (ms mod 1000) * 1000"
    by (subst unat_mult_lem [THEN iffD1]) (simp_all add: unat_mod)
  then have "timeval_us (readable_timeout ms) = unat ms div 1000 * 1000000 + unat ms mod 1000 * 1000"
    by (simp add: timeval_us_def readable_timeout_def unat_ucast_32 unat_div unat_mod)
  also have "\<dots> = 1000 * (unat ms div 1000 * 1000 + unat ms mod 1000)" by (simp only: algebra_simps)
  also have "\<dots> = 1000 * unat ms" by (simp only: div_mult_mod_eq)
  finally show ?thesis .
qed

lemma rw_timeout_short: "timeval_us (rw_timeout 500) = 5000"
  by (simp add: timeval_us_def rw_timeout_def)

lemma msleep_ts_valid: "ts_nsec (msleep_ts ms) < 1000000000"
  by (simp add: msleep_ts_def Let_def word_mod_less_divisor)

lemma mdelay_ts_invalid: "\<not> ts_nsec (mdelay_ts 1000) < 1000000000"
  by (simp add: mdelay_ts_def)

text \<open>Times are counted from the first call.\<close>

lemma get_ms_timestamp_first: "get_ms_timestamp tv 0 = (0, (tv_sec tv * 1000000 + tv_usec tv) div 1000)"
  by (simp add: get_ms_timestamp_def)

text \<open>\<open>fmt\<close> gives the whole formatted text, in its buffer or past it.\<close>

lemma fmt_all: "CHR 0x00 \<notin> set s \<Longrightarrow> fmt s = s"
  by (auto simp: fmt_def vsnprintf_def takeWhile_eq_all_conv)

text \<open>What \<open>peek_file\<close> gives is a prefix of the file, in a buffer of 512 bytes that is zero past it.\<close>

lemma peek_file_buffer:
  assumes "peek_file s p w = Returns (Some (sz, buf))"
  shows "length buf = 512" and "0 < sz" and "sz \<le> 512"
    and "\<exists>bs. sys_ifstream s p w = Some bs \<and> buffer_bytes (sz, buf) = take 512 bs"
  using assms
  by (auto simp: peek_file_def vsnprintf_def filled_def to_read_def buffer_bytes_def Let_def
      split: if_splits option.splits)
    (simp add: min_def)

text \<open>The copy of a file ends and is complete; from a directory it never ends.\<close>

lemma read_write_all:
  assumes "\<not> f_isdir src" and "\<not> f_eof src"
  shows "\<exists>src'. read_write dst src = Some (dst @ f_rest src, src') \<and> f_eof src'"
  using assms
proof (induction "length (f_rest src)" arbitrary: dst src rule: less_induct)
  case less
  define src1 where "src1 = snd (fread 1024 src)"
  have r: "fread 1024 src = (take 1024 (f_rest src), src1)"
    using less.prems by (simp add: src1_def fread_def)
  show ?case
  proof (cases "length (f_rest src) < 1024")
    case True
    then have "f_eof src1" using less.prems by (simp add: src1_def fread_def)
    then have "read_write (dst @ f_rest src) src1 = Some (dst @ f_rest src, src1)"
      by (simp add: read_write.simps)
    then show ?thesis
      using less.prems True \<open>f_eof src1\<close> by (subst read_write.simps) (simp add: r)
  next
    case False
    then have "length (f_rest src1) < length (f_rest src)" "\<not> f_isdir src1" "\<not> f_eof src1"
      and rest: "f_rest src1 = drop 1024 (f_rest src)"
      using less.prems by (auto simp: src1_def fread_def)
    then obtain src' where "read_write (dst @ take 1024 (f_rest src)) src1 =
        Some ((dst @ take 1024 (f_rest src)) @ f_rest src1, src')" "f_eof src'"
      using less.hyps by blast
    then show ?thesis
      using less.prems rest by (subst read_write.simps) (simp add: r)
  qed
qed

lemma read_write_directory:
  assumes "f_isdir src" and "\<not> f_eof src"
  shows "read_write dst src = None"
proof -
  have "\<not> (f_isdir src \<and> \<not> f_eof src)" if "read_write dst src = Some y" for y
    using that
  proof (rule read_write.raw_induct [rotated])
    fix rw :: "byte list \<Rightarrow> FILE \<Rightarrow> (byte list \<times> FILE) option" and dst src y
    assume "\<And>dst src y. rw dst src = Some y \<Longrightarrow> \<not> (f_isdir src \<and> \<not> f_eof src)"
      and "(if f_eof src then Some (dst, src)
            else (case fread 1024 src of (buf, src') \<Rightarrow> rw (dst @ buf) src')) = Some y"
    then show "\<not> (f_isdir src \<and> \<not> f_eof src)" by (auto simp: fread_def split: if_splits)
  qed
  then show ?thesis using assms by (cases "read_write dst src") auto
qed

lemma read_write_node:
  "map_option fst (read_write d (node_file n)) = (case n of Regular x \<Rightarrow> Some (d @ x) | Directory \<Rightarrow> None)"
proof (cases n)
  case (Regular x)
  then show ?thesis using read_write_all [of "node_file n" d] by (auto simp: node_file_def)
next
  case Directory
  then show ?thesis by (simp add: node_file_def read_write_directory)
qed

lemma bind_fst: "Option.bind m (\<lambda>(a, _). f a) = Option.bind (map_option fst m) f"
  by (cases m) auto

text \<open>
  \<open>concat_files\<close> ends on regular files and makes the destination the one followed by the
  other, but reports failure; if one of the sources is a directory it never returns.
\<close>

lemma concat_files_result:
  assumes "may_write dst" and "may_read a" and "may_read b" and "dst \<noteq> a" and "dst \<noteq> b"
    and "fs dst \<noteq> Some Directory" and "fs a = Some na" and "fs b = Some nb"
  shows "concat_files may_read may_write dst a b fs =
           (case (na, nb) of
              (Regular x, Regular y) \<Rightarrow> Some (-1, fs(dst \<mapsto> Regular (x @ y)))
            | _ \<Rightarrow> None)"
proof -
  have w: "fopen_w may_write fs dst = Some (fs(dst \<mapsto> Regular []))" using assms by (simp add: fopen_w_def)
  have r: "fopen_r may_read (fs(dst \<mapsto> Regular [])) a = Some (node_file na)"
    "fopen_r may_read (fs(dst \<mapsto> Regular [])) b = Some (node_file nb)"
    using assms by (simp_all add: fopen_r_def)
  show ?thesis
    by (simp add: concat_files_def w r bind_fst read_write_node split: node.split)
qed

definition demo_fs :: "string \<rightharpoonup> node" where
  "demo_fs = [''a'' \<mapsto> Regular [1, 2], ''b'' \<mapsto> Regular [3], ''d'' \<mapsto> Directory]"

lemma concat_files_result_witness:
  "concat_files (\<lambda>_. True) (\<lambda>_. True) ''o'' ''a'' ''b'' demo_fs = Some (-1, demo_fs(''o'' \<mapsto> Regular [1, 2, 3])) \<and>
   concat_files (\<lambda>_. True) (\<lambda>_. True) ''o'' ''a'' ''d'' demo_fs = None"
  using concat_files_result [of "\<lambda>_. True" "''o''" "\<lambda>_. True" "''a''" "''b''" demo_fs "Regular [1, 2]" "Regular [3]"]
    concat_files_result [of "\<lambda>_. True" "''o''" "\<lambda>_. True" "''a''" "''d''" demo_fs "Regular [1, 2]" Directory]
  by (simp add: demo_fs_def)

end
