(* ===== verification/Kcov_PtraceSys.thy ===== *)
theory Kcov_PtraceSys
  imports Kcov_Ptrace Kcov_Digits
begin

text \<open>
  What the ptrace engine asks of the operating system (\<open>src/src/engines/ptrace_linux.cc\<close>,
  \<open>ptrace_freebsd.cc\<close>) and how it starts (\<open>ptrace.cc\<close>): the register block of a process, the status
  word of \<open>waitpid\<close>, the files under \<open>/proc\<close>, attaching to all threads of a process, and launching
  one.

  \<^item> The answers of the kernel are the functions of the record \<open>pctl\<close>, of the state of the machine.
  \<^item> The loop over the threads ends when two passes over the directory find no new one, so it may
    run for ever while threads are born; it is a partial function to \<open>option\<close>. Its result has the
    list of what it saw and did, in order.
\<close>

section \<open>Registers\<close>

text \<open>
  The index of the program counter in what \<open>PTRACE_GETREGS\<close> fills in, on the 64-bit architectures; the
  branches for i386 and 32-bit ARM are not there.
\<close>

definition reg_pc_index :: "arch \<Rightarrow> nat" where
  "reg_pc_index ar =
     (case ar of x86_64 \<Rightarrow> 16 | powerpc \<Rightarrow> 32 | aarch64 \<Rightarrow> 32 | riscv \<Rightarrow> 0 | loongarch \<Rightarrow> 33 | sparc64 \<Rightarrow> 2)"

definition lx_adjustPcAfterBreakpoint :: "arch \<Rightarrow> u64 list \<Rightarrow> u64 list" where
  "lx_adjustPcAfterBreakpoint ar regs =
     (if ar = x86_64 then regs[reg_pc_index ar := regs ! reg_pc_index ar - 1] else regs)"

definition arch_getPcFromRegs :: "arch \<Rightarrow> u64 list \<Rightarrow> u64" where
  "arch_getPcFromRegs ar regs =
     (if ar = x86_64 then regs ! reg_pc_index ar - 1 else regs ! reg_pc_index ar)"

record reg_tracee =
  rt_mem :: "int \<Rightarrow> u64 \<Rightarrow> u64"
  rt_regs :: "int \<Rightarrow> u64 list"

text \<open>
  The buffer has room for 1024 registers; the kernel fills in those the machine has and takes
  back as many. \<open>regs\<close> is what is in the buffer before.
\<close>

definition getRegs :: "reg_tracee \<Rightarrow> int \<Rightarrow> u64 list \<Rightarrow> u64 list" where
  "getRegs w pid regs = rt_regs w pid @ drop (length (rt_regs w pid)) regs"

definition setRegs :: "reg_tracee \<Rightarrow> int \<Rightarrow> u64 list \<Rightarrow> reg_tracee" where
  "setRegs w pid regs =
     w\<lparr>rt_regs := (rt_regs w)(pid := take (length (rt_regs w pid)) regs)\<rparr>"

definition sys_getPc :: "arch \<Rightarrow> reg_tracee \<Rightarrow> int \<Rightarrow> u64" where
  "sys_getPc ar w pid = arch_getPcFromRegs ar (getRegs w pid (replicate 1024 0))"

definition sys_singleStep :: "arch \<Rightarrow> u64 list \<Rightarrow> reg_tracee \<Rightarrow> int \<Rightarrow> reg_tracee" where
  "sys_singleStep ar buf w pid =
     setRegs w pid (lx_adjustPcAfterBreakpoint ar (getRegs w pid buf))"

text \<open>The outer condition leaves out SPARC and RISC-V, so the inner branch for SPARC is never compiled.\<close>

definition sys_skipInstruction :: "arch \<Rightarrow> u64 list \<Rightarrow> reg_tracee \<Rightarrow> int \<Rightarrow> reg_tracee" where
  "sys_skipInstruction ar buf w pid =
     (if ar \<in> {powerpc, aarch64, loongarch}
      then let regs = getRegs w pid buf
           in setRegs w pid (regs[reg_pc_index ar := regs ! reg_pc_index ar + 4])
      else w)"

section \<open>FreeBSD\<close>

text \<open>\<open>struct reg\<close> by its field for the program counter; only x86-64 is supported.\<close>

record fbsd_reg =
  fb_others :: "u64 list"
  r_rip :: u64

record fbsd_tracee =
  ft_mem :: "int \<Rightarrow> u64 \<Rightarrow> u64"
  ft_regs :: "int \<Rightarrow> fbsd_reg"
  ft_pl_flags :: "int \<Rightarrow> u32"

definition fb_arch_adjustPcAfterBreakpoint :: "fbsd_reg \<Rightarrow> fbsd_reg" where
  "fb_arch_adjustPcAfterBreakpoint regs = regs\<lparr>r_rip := r_rip regs - 1\<rparr>"

definition fb_arch_getPcFromRegs :: "fbsd_reg \<Rightarrow> u64" where
  "fb_arch_getPcFromRegs regs = r_rip regs - 1"

definition fb_getPc :: "fbsd_tracee \<Rightarrow> int \<Rightarrow> u64" where
  "fb_getPc w pid = fb_arch_getPcFromRegs (ft_regs w pid)"

definition fb_singleStep :: "fbsd_tracee \<Rightarrow> int \<Rightarrow> fbsd_tracee" where
  "fb_singleStep w pid =
     w\<lparr>ft_regs := (ft_regs w)(pid := fb_arch_adjustPcAfterBreakpoint (ft_regs w pid))\<rparr>"

definition fb_skipInstruction :: "fbsd_tracee \<Rightarrow> int \<Rightarrow> fbsd_tracee" where
  "fb_skipInstruction w pid = w"

definition fb_peekWord :: "fbsd_tracee \<Rightarrow> int \<Rightarrow> u64 \<Rightarrow> u64" where
  "fb_peekWord w pid aligned_addr = ft_mem w pid aligned_addr"

definition fb_pokeWord :: "fbsd_tracee \<Rightarrow> int \<Rightarrow> u64 \<Rightarrow> u64 \<Rightarrow> fbsd_tracee" where
  "fb_pokeWord w pid aligned_addr val =
     w\<lparr>ft_mem := (ft_mem w)(pid := (ft_mem w pid)(aligned_addr := val))\<rparr>"

definition fb_getEvent :: "fbsd_tracee \<Rightarrow> int \<Rightarrow> u32 \<Rightarrow> u32" where
  "fb_getEvent w pid status = ft_pl_flags w pid"

definition PL_FLAG_FORKED :: u32 where "PL_FLAG_FORKED = 0x40"

definition PL_FLAG_CHILD :: u32 where "PL_FLAG_CHILD = 0x80"

definition fb_SIGSTOP :: u32 where "fb_SIGSTOP = 17"

definition fb_eventIsForky :: "u32 \<Rightarrow> u32 \<Rightarrow> bool" where
  "fb_eventIsForky sig event = (sig = SIGTRAP \<and> event AND PL_FLAG_FORKED \<noteq> 0)"

definition fb_eventIsNewChild :: "u32 \<Rightarrow> u32 \<Rightarrow> bool" where
  "fb_eventIsNewChild sig event = (sig = fb_SIGSTOP \<and> event AND PL_FLAG_CHILD \<noteq> 0)"

text \<open>\<open>ptrace(PT_ATTACH)\<close> gives an error number, 0 for none.\<close>

definition fb_attachAll :: "(int \<Rightarrow> int) \<Rightarrow> int \<Rightarrow> int" where
  "fb_attachAll attach pid = attach pid"

section \<open>The status word\<close>

text \<open>The macros of \<open>sys/wait.h\<close>, and \<open>getEvent\<close>.\<close>

definition WIFSTOPPED :: "u32 \<Rightarrow> bool" where
  "WIFSTOPPED status = (status AND 0xff = 0x7f)"

definition WSTOPSIG :: "u32 \<Rightarrow> u32" where
  "WSTOPSIG status = drop_bit 8 status AND 0xff"

definition WTERMSIG :: "u32 \<Rightarrow> u32" where
  "WTERMSIG status = status AND 0x7f"

definition WIFEXITED :: "u32 \<Rightarrow> bool" where
  "WIFEXITED status = (WTERMSIG status = 0)"

definition WIFSIGNALED :: "u32 \<Rightarrow> bool" where
  "WIFSIGNALED status = (sint (signed_drop_bit 1 (ucast (status AND 0x7f) + 1 :: byte)) > 0)"

definition getEvent :: "u32 \<Rightarrow> u32" where
  "getEvent status = signed_drop_bit 16 status"

definition decode_status :: "u32 \<Rightarrow> pt_status" where
  "decode_status status =
     (if WIFSTOPPED status then PStopped (WSTOPSIG status) (getEvent status)
      else if WIFSIGNALED status then PSignaled (WTERMSIG status)
      else if WIFEXITED status then PExited (WSTOPSIG status)
      else POther)"

section \<open>Files under \<open>/proc\<close>\<close>

text \<open>\<open>fgets(buf, n, f)\<close>: at most \<open>n - 1\<close> characters, up to and including a newline.\<close>

definition fgets :: "nat \<Rightarrow> string \<Rightarrow> string \<times> string" where
  "fgets n s =
     (let len = length (takeWhile (\<lambda>c. c \<noteq> CHR 0x0A) s); k = min (n - 1) (Suc len)
      in (take k s, drop k s))"

text \<open>\<open>strtol(s, NULL, 10)\<close>, cut to \<open>int\<close>.\<close>

definition strtol_int :: "string \<Rightarrow> u32" where
  "strtol_int s =
     (let t = dropWhile isspace s;
          neg = (t \<noteq> [] \<and> hd t = CHR ''-'');
          t = (if t \<noteq> [] \<and> hd t \<in> {CHR ''-'', CHR ''+''} then tl t else t);
          v = int (digits_value 10 (takeWhile (is_digit_in 10) t));
          l = (if neg then max (- (2 ^ 63)) (- v) else min (2 ^ 63 - 1) v)
      in of_int l)"

function proc_get_int :: "string \<Rightarrow> string \<Rightarrow> u32" where
  "proc_get_int field s =
     (if s = [] then -1
      else let (buf, rest) = fgets 100 s
           in if prefix (field @ '':'') buf then strtol_int (drop (Suc (length field)) buf)
              else proc_get_int field rest)"
  by pat_completeness auto
termination
  by (relation "measure (length \<circ> snd)") (auto simp: fgets_def Let_def)

declare proc_get_int.simps [simp del]

text \<open>\<open>content\<close> is that of \<open>/proc/PID/status\<close>, \<open>None\<close> if it cannot be opened.\<close>

definition linux_proc_get_int :: "string option \<Rightarrow> string \<Rightarrow> u32" where
  "linux_proc_get_int content field = (case content of None \<Rightarrow> -1 | Some s \<Rightarrow> proc_get_int field s)"

function proc_has_state :: "string \<Rightarrow> string \<Rightarrow> bool" where
  "proc_has_state state s =
     (if s = [] then False
      else let (buf, rest) = fgets 100 s
           in if prefix ''State:'' buf then str_contains buf state else proc_has_state state rest)"
  by pat_completeness auto
termination
  by (relation "measure (length \<circ> snd)") (auto simp: fgets_def Let_def)

declare proc_has_state.simps [simp del]

definition linux_proc_pid_has_state :: "string option \<Rightarrow> string \<Rightarrow> bool" where
  "linux_proc_pid_has_state content state =
     (case content of None \<Rightarrow> False | Some s \<Rightarrow> proc_has_state state s)"

definition linux_proc_pid_is_stopped :: "string option \<Rightarrow> bool" where
  "linux_proc_pid_is_stopped content = linux_proc_pid_has_state content ''T (stopped)''"

definition linux_proc_get_tgid :: "string option \<Rightarrow> u32" where
  "linux_proc_get_tgid content = linux_proc_get_int content ''Tgid''"

section \<open>Attaching\<close>

text \<open>
  \<open>pc_attach\<close> gives the error number of \<open>PTRACE_ATTACH\<close>, 0 for success; \<open>pc_tkill\<close> the result and
  whether the call is missing (\<open>ENOSYS\<close>); \<open>pc_readdir\<close> the next name of the open task directory.
\<close>

record 'w pctl =
  pc_attach :: "u32 \<Rightarrow> 'w \<Rightarrow> u32 \<times> 'w"
  pc_setoptions :: "u32 \<Rightarrow> 'w \<Rightarrow> 'w"
  pc_status :: "u32 \<Rightarrow> 'w \<Rightarrow> string option"
  pc_tkill :: "u32 \<Rightarrow> u32 \<Rightarrow> 'w \<Rightarrow> int \<times> bool \<times> 'w"
  pc_kill :: "u32 \<Rightarrow> u32 \<Rightarrow> 'w \<Rightarrow> int \<times> 'w"
  pc_opendir :: "u32 \<Rightarrow> 'w \<Rightarrow> bool \<times> 'w"
  pc_readdir :: "'w \<Rightarrow> string option \<times> 'w"
  pc_rewinddir :: "'w \<Rightarrow> 'w"
  pc_closedir :: "'w \<Rightarrow> 'w"

text \<open>\<open>tkill_failed\<close> is a static variable.\<close>

definition kill_lwp :: "'w pctl \<Rightarrow> u32 \<Rightarrow> u32 \<Rightarrow> bool \<times> 'w \<Rightarrow> int \<times> bool \<times> 'w" where
  "kill_lwp c lwpid signo st =
     (case st of (tkill_failed, w) \<Rightarrow>
        if \<not> tkill_failed
        then (case pc_tkill c lwpid signo w of (ret, enosys, w1) \<Rightarrow>
                if \<not> enosys then (ret, False, w1)
                else (case pc_kill c lwpid signo w1 of (r, w2) \<Rightarrow> (r, True, w2)))
        else (case pc_kill c lwpid signo w of (r, w1) \<Rightarrow> (r, True, w1)))"

definition attachLwp :: "'w pctl \<Rightarrow> u32 \<Rightarrow> bool \<times> 'w \<Rightarrow> u32 \<times> bool \<times> 'w" where
  "attachLwp c lwpid st =
     (case st of (tkf, w) \<Rightarrow>
        case pc_attach c lwpid w of (err, w1) \<Rightarrow>
          if err \<noteq> 0 then (err, tkf, w1)
          else let w2 = pc_setoptions c lwpid w1
               in if \<not> linux_proc_pid_is_stopped (pc_status c lwpid w2)
                  then (0, snd (kill_lwp c lwpid SIGSTOP (tkf, w2)))
                  else (0, tkf, w2))"

datatype task_event = Saw string | Attach u32 u32 | PassEnd

text \<open>\<open>strtoul(dp->d_name, NULL, 10)\<close> to \<open>int\<close>.\<close>

definition task_lwp :: "string \<Rightarrow> u32" where
  "task_lwp name = of_nat (digits_value 10 (takeWhile (is_digit_in 10) name))"

text \<open>
  The two nested loops as one: an end of the directory closes a pass. \<open>log\<close> is the list of what
  happened so far.
\<close>

partial_function (option) scan_tasks ::
  "'w pctl \<Rightarrow> nat \<Rightarrow> nat \<Rightarrow> u32 set \<Rightarrow> task_event list \<Rightarrow> bool \<times> 'w \<Rightarrow> (task_event list \<times> bool \<times> 'w) option" where
  "scan_tasks c new_threads_found iterations threads log st =
     (case pc_readdir c (snd st) of
        (Some name, w1) \<Rightarrow>
          let lwp = task_lwp name
          in if lwp \<noteq> 0 \<and> lwp \<notin> threads
             then (case attachLwp c lwp (fst st, w1) of (err, st2) \<Rightarrow>
                     scan_tasks c (Suc new_threads_found) iterations (insert lwp threads)
                       (log @ [Saw name, Attach lwp err]) st2)
             else scan_tasks c new_threads_found iterations threads (log @ [Saw name]) (fst st, w1)
      | (None, w1) \<Rightarrow>
          let iterations' = (if new_threads_found = 0 then Suc iterations else 0);
              w2 = pc_rewinddir c w1
          in if iterations' < 2
             then scan_tasks c 0 iterations' threads (log @ [PassEnd]) (fst st, w2)
             else Some (log @ [PassEnd], fst st, w2))"

definition attachAll :: "'w pctl \<Rightarrow> u32 \<Rightarrow> bool \<times> 'w \<Rightarrow> (int \<times> task_event list \<times> bool \<times> 'w) option" where
  "attachAll c pid st =
     (case attachLwp c pid st of (err, tkf, w1) \<Rightarrow>
        if linux_proc_get_tgid (pc_status c pid w1) \<noteq> pid then Some (0, [Attach pid err], tkf, w1)
        else (case pc_opendir c pid w1 of
                (False, w2) \<Rightarrow> Some (0, [Attach pid err], tkf, w2)
              | (True, w2) \<Rightarrow>
                  map_option (\<lambda>(log, tkf', w3). (0, log, tkf', pc_closedir c w3))
                    (scan_tasks c 0 0 {pid} [Attach pid err] (tkf, w2))))"

section \<open>Starting\<close>

text \<open>
  \<open>disable_aslr\<close> with the answers of the two \<open>personality\<close> calls; \<open>fork\<close> gives the process id, 0 in the
  child. In the child, \<open>execv\<close> does not return when it succeeds.
\<close>

definition disable_aslr :: "int \<Rightarrow> (u32 \<Rightarrow> int) \<Rightarrow> bool" where
  "disable_aslr persona set_personality =
     (if persona < 0 then False
      else \<not> set_personality (of_int persona OR 0x0040000) < 0)"

datatype launch = Panic_affinity | Execs | Goes_on bool Ptrace

record start_env =
  se_affinity :: "int \<Rightarrow> bool"
  se_executable :: bool
  se_attach_pid :: u32
  se_fork :: int
  se_aslr_disabled :: bool
  se_trace_me :: int
  se_execv :: bool
  se_attachAll :: int
  se_waitpid :: "(int \<times> u32) option"
  se_self :: int

definition forkChild :: "start_env \<Rightarrow> Ptrace \<Rightarrow> launch" where
  "forkChild e p =
     (if se_fork e = 0
      then (if \<not> se_aslr_disabled e then Goes_on False p
            else if se_trace_me e < 0 then Goes_on False p
            else if \<not> se_affinity e (se_self e) then Panic_affinity
            else if se_execv e then Execs
            else Goes_on False p)
      else if se_fork e < 0 then Goes_on False p
      else let p1 = p\<lparr>pt_activeChild := se_fork e, pt_firstChild := se_fork e\<rparr>
           in if \<not> se_affinity e (se_fork e) then Panic_affinity
              else (case se_waitpid e of
                      None \<Rightarrow> Goes_on False p1
                    | Some (who, status) \<Rightarrow> Goes_on (WIFSTOPPED status) p1))"

definition attachPid :: "start_env \<Rightarrow> int \<Rightarrow> Ptrace \<Rightarrow> launch" where
  "attachPid e pid p =
     (let p1 = p\<lparr>pt_activeChild := pid, pt_firstChild := pid\<rparr>
      in if se_attachAll e < 0 then Goes_on False p1
         else (case se_waitpid e of
                 None \<Rightarrow> Goes_on False p1
               | Some (who, status) \<Rightarrow>
                   if \<not> WIFSTOPPED status then Goes_on False p1
                   else if \<not> se_affinity e pid then Panic_affinity
                   else Goes_on True p1))"

definition ptrace_start :: "start_env \<Rightarrow> Ptrace \<Rightarrow> launch" where
  "ptrace_start e p =
     (if \<not> se_affinity e (se_self e) then Panic_affinity
      else let p1 = p\<lparr>pt_instructionMap := (\<lambda>_. None)\<rparr>
           in if \<not> se_executable e then Goes_on False p1
              else if se_attach_pid e \<noteq> 0 then attachPid e (sint (se_attach_pid e)) p1
              else forkChild e p1)"

text \<open>The process that \<open>kill\<close> sends its signal to, if any.\<close>

definition kill_target :: "Ptrace \<Rightarrow> int option" where
  "kill_target p = (if pt_activeChild p \<noteq> 0 then Some (pt_activeChild p) else None)"

text \<open>\<open>~Ptrace\<close>: \<open>SIGTERM\<close> to the active process, then detach from it.\<close>

datatype ptrace_call = Kill int u32 | Detach int

definition ptrace_destroy :: "Ptrace \<Rightarrow> ptrace_call list" where
  "ptrace_destroy p =
     (case kill_target p of None \<Rightarrow> [] | Some pid \<Rightarrow> [Kill pid 15]) @ [Detach (pt_activeChild p)]"

end
