(* ===== verification/Kcov_PtraceSys_Props.thy ===== *)
theory Kcov_PtraceSys_Props
  imports Kcov_PtraceSys
begin

text \<open>
  The system side of the ptrace engine does what the model of its breakpoints takes for granted:
  the register block gives the program counter, the status word the event, the start the initial
  state; and attaching covers all threads of a process.
\<close>

section \<open>Registers\<close>

definition regs_ok :: "arch \<Rightarrow> reg_tracee \<Rightarrow> bool" where
  "regs_ok ar w \<longleftrightarrow> (\<forall>pid. reg_pc_index ar < length (rt_regs w pid) \<and> length (rt_regs w pid) \<le> 1024)"

definition reg_abs :: "arch \<Rightarrow> reg_tracee \<Rightarrow> tracee" where
  "reg_abs ar w = \<lparr> tr_mem = rt_mem w, tr_pc = \<lambda>pid. rt_regs w pid ! reg_pc_index ar \<rparr>"

definition fb_abs :: "fbsd_tracee \<Rightarrow> tracee" where
  "fb_abs w = \<lparr> tr_mem = ft_mem w, tr_pc = \<lambda>pid. r_rip (ft_regs w pid) \<rparr>"

lemma setRegs_getRegs:
  "setRegs w pid ((getRegs w pid buf)[i := v]) =
     w\<lparr>rt_regs := (rt_regs w)(pid := (rt_regs w pid)[i := v])\<rparr>"
  by (simp add: setRegs_def getRegs_def take_update_swap)

lemma getRegs_pc:
  "regs_ok ar w \<Longrightarrow> getRegs w pid buf ! reg_pc_index ar = rt_regs w pid ! reg_pc_index ar"
  by (simp add: regs_ok_def getRegs_def nth_append)

lemma setRegs_id: "setRegs w pid (getRegs w pid buf) = w"
  by (simp add: setRegs_def getRegs_def)

lemma reg_abs_upd:
  "regs_ok ar w \<Longrightarrow>
     reg_abs ar (w\<lparr>rt_regs := (rt_regs w)(pid := (rt_regs w pid)[reg_pc_index ar := v])\<rparr>) =
       (reg_abs ar w)\<lparr>tr_pc := (tr_pc (reg_abs ar w))(pid := v)\<rparr>"
  by (auto simp: reg_abs_def regs_ok_def)

lemma reg_abs_singleStep:
  assumes "regs_ok ar w"
  shows "reg_abs ar (sys_singleStep ar buf w pid) = singleStep ar (reg_abs ar w) pid"
proof (cases "ar = x86_64")
  case True
  then have "sys_singleStep ar buf w pid =
      w\<lparr>rt_regs := (rt_regs w)(pid := (rt_regs w pid)[reg_pc_index ar := rt_regs w pid ! reg_pc_index ar - 1])\<rparr>"
    using getRegs_pc [OF assms]
    by (simp add: sys_singleStep_def lx_adjustPcAfterBreakpoint_def setRegs_getRegs)
  with True show ?thesis using assms by (simp only: reg_abs_upd) (simp add: singleStep_def reg_abs_def)
next
  case False
  then show ?thesis
    by (simp add: sys_singleStep_def lx_adjustPcAfterBreakpoint_def setRegs_id singleStep_def)
qed

lemma reg_abs_skipInstruction:
  assumes "regs_ok ar w"
  shows "reg_abs ar (sys_skipInstruction ar buf w pid) = skipInstruction ar (reg_abs ar w) pid"
proof (cases "ar \<in> {powerpc, aarch64, loongarch}")
  case True
  have "sys_skipInstruction ar buf w pid =
      w\<lparr>rt_regs := (rt_regs w)(pid := (rt_regs w pid)[reg_pc_index ar := rt_regs w pid ! reg_pc_index ar + 4])\<rparr>"
    unfolding sys_skipInstruction_def if_P [OF True] Let_def setRegs_getRegs getRegs_pc [OF assms] ..
  then show ?thesis
    unfolding skipInstruction_def if_P [OF True] by (simp only: reg_abs_upd [OF assms]) (simp add: reg_abs_def)
next
  case False
  then show ?thesis by (simp only: sys_skipInstruction_def skipInstruction_def if_False)
qed

text \<open>
  The register block implements the program counter. On every (64-bit) architecture of the model, what
  \<open>getPc\<close>, \<open>singleStep\<close> and \<open>skipInstruction\<close> of \<open>ptrace_linux.cc\<close> do to the registers the kernel
  hands out is what the engine's model does to the program counter, no other register changes, and
  the garbage in the uninitialised part of the buffer never reaches the process; the FreeBSD
  variant does the same as Linux on x86-64.
\<close>

lemma registers_refine:
  assumes "regs_ok ar w"
  shows "sys_getPc ar w pid = getPc ar (reg_abs ar w) pid \<and>
    reg_abs ar (sys_singleStep ar buf w pid) = singleStep ar (reg_abs ar w) pid \<and>
    reg_abs ar (sys_skipInstruction ar buf w pid) = skipInstruction ar (reg_abs ar w) pid \<and>
    (\<forall>q i. i \<noteq> reg_pc_index ar \<longrightarrow>
       rt_regs (sys_singleStep ar buf w pid) q ! i = rt_regs w q ! i \<and>
       rt_regs (sys_skipInstruction ar buf w pid) q ! i = rt_regs w q ! i) \<and>
    fb_getPc v pid = getPc x86_64 (fb_abs v) pid \<and>
    fb_abs (fb_singleStep v pid) = singleStep x86_64 (fb_abs v) pid \<and>
    fb_abs (fb_skipInstruction v pid) = skipInstruction x86_64 (fb_abs v) pid"
proof (intro conjI allI impI)
  show "sys_getPc ar w pid = getPc ar (reg_abs ar w) pid"
    using getRegs_pc [OF assms] by (auto simp: sys_getPc_def arch_getPcFromRegs_def getPc_def reg_abs_def)
  show "reg_abs ar (sys_singleStep ar buf w pid) = singleStep ar (reg_abs ar w) pid"
    "reg_abs ar (sys_skipInstruction ar buf w pid) = skipInstruction ar (reg_abs ar w) pid"
    using assms by (simp_all only: reg_abs_singleStep reg_abs_skipInstruction)
  show "fb_getPc v pid = getPc x86_64 (fb_abs v) pid"
    by (simp add: fb_getPc_def fb_arch_getPcFromRegs_def getPc_def fb_abs_def)
  show "fb_abs (fb_singleStep v pid) = singleStep x86_64 (fb_abs v) pid"
    by (auto simp: fb_singleStep_def fb_arch_adjustPcAfterBreakpoint_def singleStep_def fb_abs_def)
  show "fb_abs (fb_skipInstruction v pid) = skipInstruction x86_64 (fb_abs v) pid"
    by (simp add: fb_skipInstruction_def skipInstruction_def)
next
  fix q i assume "i \<noteq> reg_pc_index ar"
  then show "rt_regs (sys_singleStep ar buf w pid) q ! i = rt_regs w q ! i"
    "rt_regs (sys_skipInstruction ar buf w pid) q ! i = rt_regs w q ! i"
    by (auto simp: sys_singleStep_def sys_skipInstruction_def Let_def lx_adjustPcAfterBreakpoint_def
        setRegs_getRegs setRegs_id)
qed

definition demo_regs :: reg_tracee where
  "demo_regs = \<lparr> rt_mem = (\<lambda>_ _. 0), rt_regs = \<lambda>_. replicate 16 7 @ [0x401001] @ replicate 10 9 \<rparr>"

definition demo_fbsd :: fbsd_tracee where
  "demo_fbsd = \<lparr> ft_mem = (\<lambda>_ _. 0), ft_regs = \<lambda>_. \<lparr> fb_others = [], r_rip = 5 \<rparr>, ft_pl_flags = \<lambda>_. 0 \<rparr>"

lemma demo_regs_ok: "regs_ok x86_64 demo_regs"
  by (simp add: regs_ok_def demo_regs_def reg_pc_index_def)

lemma registers_refine_witness: "sys_getPc x86_64 demo_regs 1 = 0x401000"
proof -
  have "sys_getPc x86_64 demo_regs 1 = getPc x86_64 (reg_abs x86_64 demo_regs) 1"
    using registers_refine [OF demo_regs_ok, of 1 "[]" demo_fbsd] by simp
  also have "\<dots> = 0x401000"
    by (simp add: getPc_def reg_abs_def demo_regs_def reg_pc_index_def nth_append)
  finally show ?thesis .
qed

section \<open>The status word\<close>

text \<open>How the kernel puts the word together.\<close>

definition enc_stopped :: "u32 \<Rightarrow> u32 \<Rightarrow> u32" where
  "enc_stopped sig event = push_bit 16 event OR push_bit 8 sig OR 0x7f"

definition enc_signaled :: "u32 \<Rightarrow> bool \<Rightarrow> u32" where
  "enc_signaled sig core = sig OR (if core then 0x80 else 0)"

definition enc_exited :: "u32 \<Rightarrow> u32" where
  "enc_exited code = push_bit 8 (code AND 0xff)"

lemma low_mask: "(0xff :: u32) = mask 8" "(0x7f :: u32) = mask 7"
  by (simp_all add: mask_eq_exp_minus_1)

lemma bit_small: "x < 2 ^ n \<Longrightarrow> bit (x :: u32) k \<Longrightarrow> k < n"
  by (metis bit_take_bit_iff less_mask_eq take_bit_eq_mask)

lemma decode_stopped:
  assumes "sig < 2 ^ 8" and "event < 2 ^ 15"
  shows "decode_status (enc_stopped sig event) = PStopped sig event"
proof -
  note small = bit_small [OF assms(1)] bit_small [OF assms(2)]
  have "enc_stopped sig event AND 0xff = 0x7f"
    by (rule bit_word_eqI) (auto simp: enc_stopped_def low_mask bit_simps)
  moreover have "WSTOPSIG (enc_stopped sig event) = sig"
    by (rule bit_word_eqI) (auto simp: WSTOPSIG_def enc_stopped_def low_mask bit_simps dest: small)
  moreover have "getEvent (enc_stopped sig event) = event"
    by (rule bit_word_eqI) (auto simp: getEvent_def enc_stopped_def low_mask bit_simps bit_signed_drop_bit_iff dest: small)
  ultimately show ?thesis by (simp add: decode_status_def WIFSTOPPED_def)
qed

lemma decode_exited:
  assumes "code < 2 ^ 8"
  shows "decode_status (enc_exited code) = PExited code"
proof -
  have c: "code AND 0xff = code"
    by (rule bit_word_eqI) (auto simp: low_mask bit_simps dest: bit_small [OF assms])
  have z: "enc_exited code AND 0x7f = 0" "enc_exited code AND 0xff = 0"
    by (rule bit_word_eqI, auto simp: enc_exited_def low_mask bit_simps)+
  moreover have "WSTOPSIG (enc_exited code) = code"
    by (rule bit_word_eqI) (auto simp: WSTOPSIG_def enc_exited_def c low_mask bit_simps dest: bit_small [OF assms])
  ultimately show ?thesis
    by (simp add: decode_status_def WIFSTOPPED_def WIFSIGNALED_def WIFEXITED_def WTERMSIG_def)
qed


lemma signaled_byte:
  assumes "s < 127"
  shows "0 < sint (signed_drop_bit 1 (ucast (s :: u32) + 1 :: byte)) \<longleftrightarrow> 0 < s"
proof -
  have s: "unat s < 127" using assms by (simp add: word_less_nat_alt)
  have w: "(ucast s + 1 :: byte) = of_nat (Suc (unat s))" by simp
  have "n < 127 \<Longrightarrow> sint (of_nat (Suc n) :: byte) = int (Suc n)" for n
    by (simp add: signed_of_nat signed_take_bit_int_eq_self del: of_nat_Suc)
  from this [OF s] have "sint (ucast s + 1 :: byte) = int (Suc (unat s))" unfolding w .
  then have "sint (signed_drop_bit 1 (ucast s + 1 :: byte)) = int (Suc (unat s)) div 2"
    by (simp add: sint_signed_drop_bit_eq drop_bit_eq_div)
  moreover have "0 < int (Suc (unat s)) div 2 \<longleftrightarrow> 0 < unat s" by linarith
  ultimately show ?thesis by (simp add: word_less_nat_alt)
qed

lemma decode_signaled:
  assumes "0 < sig" and "sig < 127"
  shows "decode_status (enc_signaled sig core) = PSignaled sig"
proof -
  have small: "bit sig k \<Longrightarrow> k < 7" for k using assms(2) by (intro bit_small [of sig 7]) (simp_all add: word_less_nat_alt)
  have t: "enc_signaled sig core AND 0x7f = sig"
  proof -
    have "(0x80 :: u32) AND 0x7f = 0" by simp
    moreover have "sig AND 0x7f = sig" by (rule bit_word_eqI) (auto simp: low_mask bit_simps dest: small)
    ultimately show ?thesis by (simp add: enc_signaled_def word_bw_comms bit.conj_disj_distrib)
  qed
  have "enc_signaled sig core AND 0xff \<noteq> 0x7f"
  proof
    assume "enc_signaled sig core AND 0xff = 0x7f"
    then have "(enc_signaled sig core AND 0xff) AND 0x7f = 0x7f" by simp
    moreover have "(enc_signaled sig core AND 0xff) AND 0x7f = sig" using t by (simp add: and.assoc)
    ultimately show False using assms by simp
  qed
  then show ?thesis
    using signaled_byte [OF assms(2)] assms(1) t
    by (simp add: decode_status_def WIFSTOPPED_def WIFSIGNALED_def WTERMSIG_def)
qed

section \<open>Starting\<close>

text \<open>
  A successful start leaves the engine in the state \<open>started\<close> of the process launched or attached
  to; in the forked child no start succeeds.
\<close>

lemma forkChild_started:
  "forkChild e mk_Ptrace = Goes_on True p \<Longrightarrow> p = started (se_fork e) \<and> 0 < se_fork e"
  by (auto simp: forkChild_def started_def Let_def split: if_splits option.splits)

lemma attachPid_started: "attachPid e pid mk_Ptrace = Goes_on True p \<Longrightarrow> p = started pid"
  by (auto simp: attachPid_def started_def Let_def split: if_splits option.splits)

lemma ptrace_start_started:
  assumes "ptrace_start e mk_Ptrace = Goes_on True p"
  shows "p = started (if se_attach_pid e \<noteq> 0 then sint (se_attach_pid e) else se_fork e)"
proof -
  have "mk_Ptrace\<lparr>pt_instructionMap := (\<lambda>_. None)\<rparr> = mk_Ptrace" by (simp add: mk_Ptrace_def)
  then show ?thesis
    using assms forkChild_started attachPid_started by (auto simp: ptrace_start_def Let_def split: if_splits)
qed

lemma child_fails: "se_fork e = 0 \<Longrightarrow> forkChild e p \<noteq> Goes_on True q"
  by (auto simp: forkChild_def split: if_splits)

section \<open>Attaching to all threads\<close>

definition attempted :: "task_event list \<Rightarrow> u32 list" where
  "attempted log = concat (map (\<lambda>e. case e of Attach lwp _ \<Rightarrow> [lwp] | _ \<Rightarrow> []) log)"

lemma attempted_simps [simp]:
  "attempted [] = []" "attempted (log @ log') = attempted log @ attempted log'"
  "attempted [Saw n] = []" "attempted [PassEnd] = []" "attempted [Attach l e] = [l]"
  "attempted (PassEnd # log) = attempted log" "attempted (Saw n # log) = attempted log" "attempted (Attach l e # log) = l # attempted log"
  "attempted (map Saw ns) = []"
  by (induction ns) (auto simp: attempted_def)

text \<open>
  What is asked of the system: a pass over the directory ends, and the threads come from a finite
  set of numbers, as process identifiers do; new threads may show up at any time.
\<close>

definition task_laws :: "'w pctl \<Rightarrow> ('w \<Rightarrow> nat) \<Rightarrow> u32 set \<Rightarrow> bool" where
  "task_laws c left F \<longleftrightarrow>
     (\<forall>w name w'. pc_readdir c w = (Some name, w') \<longrightarrow> left w' < left w \<and> task_lwp name \<in> insert 0 F)"

text \<open>The state of the loop: everything seen is tried once, and quiet passes are counted.\<close>

definition at_boundary :: "task_event list \<Rightarrow> task_event list \<Rightarrow> bool" where
  "at_boundary log0 pre \<longleftrightarrow> pre = log0 \<or> (\<exists>q. pre = q @ [PassEnd])"

definition scan_inv :: "task_event list \<Rightarrow> nat \<Rightarrow> nat \<Rightarrow> u32 set \<Rightarrow> task_event list \<Rightarrow> bool" where
  "scan_inv log0 new iters threads log \<longleftrightarrow>
     distinct (attempted log) \<and> threads = set (attempted log) \<and>
     (\<forall>name. Saw name \<in> set log \<longrightarrow> task_lwp name \<in> insert 0 threads) \<and>
     (new = 0 \<longrightarrow> (\<exists>pre ns. log = pre @ map Saw ns \<and> at_boundary log0 pre \<and>
        (iters > 0 \<longrightarrow> (\<exists>pre' ns'. at_boundary log0 pre' \<and> pre = pre' @ map Saw ns' @ [PassEnd]))))"

definition scan_done :: "task_event list \<Rightarrow> task_event list \<Rightarrow> bool" where
  "scan_done log0 log \<longleftrightarrow>
     distinct (attempted log) \<and>
     (\<forall>name. Saw name \<in> set log \<longrightarrow> task_lwp name \<in> insert 0 (set (attempted log))) \<and>
     (\<exists>pre ns ns'. at_boundary log0 pre \<and> log = pre @ map Saw ns @ [PassEnd] @ map Saw ns' @ [PassEnd])"

lemma scan_invD:
  assumes "scan_inv log0 new iters threads log"
  shows "distinct (attempted log)" and "threads = set (attempted log)"
    and "\<forall>name. Saw name \<in> set log \<longrightarrow> task_lwp name \<in> insert 0 threads"
  using assms unfolding scan_inv_def by blast+

lemma scan_inv_saw:
  assumes inv: "scan_inv log0 new iters threads log" and known: "task_lwp name \<in> insert 0 threads"
  shows "scan_inv log0 new iters threads (log @ [Saw name])"
proof -
  have "\<exists>pre ns. log @ [Saw name] = pre @ map Saw ns \<and> at_boundary log0 pre \<and>
      (iters > 0 \<longrightarrow> (\<exists>pre' ns'. at_boundary log0 pre' \<and> pre = pre' @ map Saw ns' @ [PassEnd]))" if new: "new = 0"
  proof -
    obtain pre ns where "log = pre @ map Saw ns" and pre: "at_boundary log0 pre"
      "iters > 0 \<longrightarrow> (\<exists>pre' ns'. at_boundary log0 pre' \<and> pre = pre' @ map Saw ns' @ [PassEnd])"
      using inv new unfolding scan_inv_def by blast
    then have "log @ [Saw name] = pre @ map Saw (ns @ [name])" by simp
    then show ?thesis using pre by blast
  qed
  then show ?thesis using scan_invD [OF inv] known by (simp add: scan_inv_def)
qed

lemma scan_inv_attach:
  "scan_inv log0 new iters threads log \<Longrightarrow> task_lwp name \<notin> threads \<Longrightarrow>
     scan_inv log0 (Suc new) iters (insert (task_lwp name) threads) (log @ [Saw name, Attach (task_lwp name) err])"
  unfolding scan_inv_def by auto

lemma scan_inv_noisy_pass:
  "scan_inv log0 new iters threads log \<Longrightarrow> scan_inv log0 0 0 threads (log @ [PassEnd])"
  unfolding scan_inv_def at_boundary_def by (auto intro: exI [of _ "log @ [PassEnd]"] exI [of _ "[]"])

lemma scan_inv_quiet_pass:
  assumes "scan_inv log0 0 iters threads log"
  shows "scan_inv log0 0 (Suc iters) threads (log @ [PassEnd])"
    and "iters > 0 \<Longrightarrow> scan_done log0 (log @ [PassEnd])"
proof -
  obtain pre ns where pre: "log = pre @ map Saw ns" "at_boundary log0 pre"
    and prev: "iters > 0 \<Longrightarrow> \<exists>pre' ns'. at_boundary log0 pre' \<and> pre = pre' @ map Saw ns' @ [PassEnd]"
    using assms by (auto simp: scan_inv_def)
  note basic = scan_invD [OF assms]
  have "\<exists>p n. log @ [PassEnd] = p @ map Saw n \<and> at_boundary log0 p \<and>
      (\<exists>pre' ns'. at_boundary log0 pre' \<and> p = pre' @ map Saw ns' @ [PassEnd])"
    using pre by (intro exI [of _ "log @ [PassEnd]"] exI [of _ "[]"]) (auto simp: at_boundary_def)
  then show "scan_inv log0 0 (Suc iters) threads (log @ [PassEnd])"
    using basic by (simp add: scan_inv_def)
  show "scan_done log0 (log @ [PassEnd])" if it: "iters > 0"
  proof -
    obtain pre' ns' where "at_boundary log0 pre'" "pre = pre' @ map Saw ns' @ [PassEnd]"
      using prev [OF it] by blast
    then have "at_boundary log0 pre' \<and> log @ [PassEnd] = pre' @ map Saw ns' @ [PassEnd] @ map Saw ns @ [PassEnd]"
      using pre by simp
    then have "\<exists>pre ns ns'. at_boundary log0 pre \<and>
        log @ [PassEnd] = pre @ map Saw ns @ [PassEnd] @ map Saw ns' @ [PassEnd]" by blast
    then show ?thesis using basic unfolding scan_done_def by simp
  qed
qed


text \<open>What gets smaller: a new thread leaves fewer unknown numbers, a quiet pass brings the loop closer to
  two, and within a pass the directory gets shorter.\<close>

definition scan_measure :: "u32 set \<Rightarrow> ('w \<Rightarrow> nat) \<Rightarrow> nat \<Rightarrow> nat \<Rightarrow> u32 set \<Rightarrow> 'w \<Rightarrow> nat \<times> nat \<times> nat" where
  "scan_measure F left new iters threads w = (card (F - threads), if new = 0 then 2 - iters else 3, left w)"

definition scan_less :: "((nat \<times> nat \<times> nat) \<times> (nat \<times> nat \<times> nat)) set" where
  "scan_less = less_than <*lex*> less_than <*lex*> less_than"

text \<open>A round of the loop comes to its end, or goes on with less to do.\<close>

definition scan_goes_on where
  "scan_goes_on c F left log0 new iters threads log st \<longleftrightarrow>
     (\<exists>new' iters' threads' log' st'.
        scan_tasks c new iters threads log st = scan_tasks c new' iters' threads' log' st' \<and>
        scan_inv log0 new' iters' threads' log' \<and> iters' < 2 \<and>
        (scan_measure F left new' iters' threads' (snd st'), scan_measure F left new iters threads (snd st)) \<in> scan_less)"

lemma scan_pass_end:
  assumes inv: "scan_inv log0 new iters threads log" "iters < 2" and rd: "pc_readdir c (snd st) = (None, w1)"
  shows "(\<exists>log' st'. scan_tasks c new iters threads log st = Some (log', st') \<and> scan_done log0 log') \<or>
         scan_goes_on c F left log0 new iters threads log st"
proof (cases "new = 0")
  case True
  note quiet = scan_inv_quiet_pass [OF inv(1) [unfolded True]]
  show ?thesis
  proof (cases "iters = 0")
    case zero: True
    have "scan_tasks c new iters threads log st = scan_tasks c 0 1 threads (log @ [PassEnd]) (fst st, pc_rewinddir c w1)"
      using True zero rd by (subst scan_tasks.simps) simp
    then show ?thesis using quiet(1) True zero
      unfolding scan_goes_on_def by (intro disjI2 exI conjI) (auto simp: scan_measure_def scan_less_def)
  next
    case False
    then show ?thesis using True rd quiet(2) inv(2) by (intro disjI1) (subst scan_tasks.simps, simp)
  qed
next
  case False
  have "scan_tasks c new iters threads log st = scan_tasks c 0 0 threads (log @ [PassEnd]) (fst st, pc_rewinddir c w1)"
    using False rd by (subst scan_tasks.simps) simp
  then show ?thesis using scan_inv_noisy_pass [OF inv(1)] False
    unfolding scan_goes_on_def by (intro disjI2 exI conjI) (auto simp: scan_measure_def scan_less_def)
qed

lemma scan_pass_entry:
  assumes laws: "task_laws c left F" and fin: "finite F" and inv: "scan_inv log0 new iters threads log" "iters < 2"
    and rd: "pc_readdir c (snd st) = (Some name, w1)"
  shows "scan_goes_on c F left log0 new iters threads log st"
proof -
  have law: "left w1 < left (snd st)" "task_lwp name \<in> insert 0 F"
    using laws rd by (auto simp: task_laws_def)
  show ?thesis
  proof (cases "task_lwp name \<noteq> 0 \<and> task_lwp name \<notin> threads")
    case True
    obtain err st2 where at: "attachLwp c (task_lwp name) (fst st, w1) = (err, st2)" by (meson surj_pair)
    have "F - insert (task_lwp name) threads \<subset> F - threads" using True law by auto
    then have "card (F - insert (task_lwp name) threads) < card (F - threads)"
      using fin by (intro psubset_card_mono) auto
    moreover have "scan_tasks c new iters threads log st = scan_tasks c (Suc new) iters (insert (task_lwp name) threads)
        (log @ [Saw name, Attach (task_lwp name) err]) st2"
      using True rd at by (subst scan_tasks.simps) (simp add: Let_def)
    ultimately show ?thesis using True scan_inv_attach [OF inv(1)] inv(2)
      unfolding scan_goes_on_def by (intro exI conjI) (auto simp: scan_measure_def scan_less_def)
  next
    case False
    then have "scan_tasks c new iters threads log st = scan_tasks c new iters threads (log @ [Saw name]) (fst st, w1)"
      using rd by (subst scan_tasks.simps) (auto simp: Let_def)
    then show ?thesis using False law scan_inv_saw [OF inv(1)] inv(2)
      unfolding scan_goes_on_def by (intro exI conjI) (auto simp: scan_measure_def scan_less_def)
  qed
qed

lemma scan_tasks_ends:
  assumes laws: "task_laws c left F" and fin: "finite F"
    and "scan_inv log0 new iters threads log" and "iters < 2"
  shows "\<exists>log' st'. scan_tasks c new iters threads log st = Some (log', st') \<and> scan_done log0 log'"
proof -
  have wf: "wf scan_less" unfolding scan_less_def by (intro wf_lex_prod wf_less_than)
  show ?thesis
    using assms(3,4)
  proof (induction "scan_measure F left new iters threads (snd st)" arbitrary: new iters threads log st rule: wf_induct_rule [OF wf])
    case 1
    obtain r w1 where rd: "pc_readdir c (snd st) = (r, w1)" by fastforce
    have "(\<exists>log' st'. scan_tasks c new iters threads log st = Some (log', st') \<and> scan_done log0 log') \<or>
        scan_goes_on c F left log0 new iters threads log st"
    proof (cases r)
      case None
      show ?thesis by (rule scan_pass_end [OF "1.prems" rd [unfolded None]])
    next
      case (Some name)
      show ?thesis by (rule disjI2 [OF scan_pass_entry [OF laws fin "1.prems" rd [unfolded Some]]])
    qed
    then show ?case using "1.hyps" unfolding scan_goes_on_def by metis
  qed
qed

lemma scan_tasks_keeps:
  assumes "scan_tasks c new iters threads log st = Some (log', st')"
  shows "\<exists>more. log' = log @ more"
proof -
  have "\<exists>more. fst y = log @ more" if "scan_tasks c new iters threads log st = Some y" for y
    using that
  proof (rule scan_tasks.raw_induct [rotated])
    fix sc :: "'a pctl \<Rightarrow> nat \<Rightarrow> nat \<Rightarrow> u32 set \<Rightarrow> task_event list \<Rightarrow> bool \<times> 'a \<Rightarrow> (task_event list \<times> bool \<times> 'a) option"
      and c :: "'a pctl" and new iters threads log and st :: "bool \<times> 'a" and y
    assume IH: "\<And>c new iters threads log st y. sc c new iters threads log st = Some y \<Longrightarrow>
        \<exists>more. fst y = log @ more"
    assume "(case pc_readdir c (snd st) of
        (Some name, w1) \<Rightarrow>
          let lwp = task_lwp name
          in if lwp \<noteq> 0 \<and> lwp \<notin> threads
             then (case attachLwp c lwp (fst st, w1) of (err, st2) \<Rightarrow>
                     sc c (Suc new) iters (insert lwp threads) (log @ [Saw name, Attach lwp err]) st2)
             else sc c new iters threads (log @ [Saw name]) (fst st, w1)
      | (None, w1) \<Rightarrow>
          let iterations' = (if new = 0 then Suc iters else 0); w2 = pc_rewinddir c w1
          in if iterations' < 2
             then sc c 0 iterations' threads (log @ [PassEnd]) (fst st, w2)
             else Some (log @ [PassEnd], fst st, w2)) = Some y"
    then show "\<exists>more. fst y = log @ more"
      by (auto simp: Let_def split: prod.splits option.splits if_splits dest!: IH)
  qed
  from this [OF assms] show ?thesis by simp
qed

text \<open>
  Property C25. Attaching covers all threads. When the thread numbers of a process come from a finite
  set and a pass over the task directory ends, \<open>attachAll\<close> returns however many threads are born while it
  runs. It first tries to attach to the process itself and tries each thread once. If the process
  is then the leader of its thread group and its task directory can be opened, it has tried every thread
  that it came across, and the last two passes over the directory, whole passes each, found no thread that had
  not been tried; otherwise it tries nothing else. Each attempt may fail: the failure is only logged, and the
  result is 0 all the same.
\<close>

theorem attachAll_all_threads:
  assumes "task_laws c left F" and "finite F"
  shows "\<exists>log st' err tkf w1. attachLwp c pid st = (err, tkf, w1) \<and> attachAll c pid st = Some (0, log, st') \<and>
           distinct (attempted log) \<and>
           (if linux_proc_get_tgid (pc_status c pid w1) = pid \<and> fst (pc_opendir c pid w1)
            then (\<exists>more. log = Attach pid err # more) \<and>
              (\<forall>name. Saw name \<in> set log \<longrightarrow> task_lwp name \<in> insert 0 (set (attempted log))) \<and>
              (\<exists>pre ns ns'. at_boundary [Attach pid err] pre \<and>
                 log = pre @ map Saw ns @ [PassEnd] @ map Saw ns' @ [PassEnd])
            else log = [Attach pid err])"
proof -
  obtain err tkf w1 where at: "attachLwp c pid st = (err, tkf, w1)" by (metis prod_cases3)
  obtain ok w2 where od: "pc_opendir c pid w1 = (ok, w2)" by fastforce
  show ?thesis
  proof (cases "linux_proc_get_tgid (pc_status c pid w1) = pid \<and> ok")
    case False
    then have "\<exists>st'. attachAll c pid st = Some (0, [Attach pid err], st')"
      by (cases ok) (auto simp: attachAll_def at od)
    moreover have "\<not> (linux_proc_get_tgid (pc_status c pid w1) = pid \<and> fst (pc_opendir c pid w1))" using False by (simp add: od)
    ultimately show ?thesis by (simp add: at)
  next
    case True
    have "scan_inv [Attach pid err] 0 0 {pid} [Attach pid err]"
      by (auto simp: scan_inv_def at_boundary_def intro: exI [of _ "[Attach pid err]"] exI [of _ "[]"])
    then obtain log st' where run: "scan_tasks c 0 0 {pid} [Attach pid err] (tkf, w2) = Some (log, st')"
      and d: "scan_done [Attach pid err] log"
      using scan_tasks_ends [OF assms, of "[Attach pid err]" 0 0 "{pid}" "[Attach pid err]" "(tkf, w2)"] by auto
    have "\<exists>more. log = Attach pid err # more" using scan_tasks_keeps [OF run] by auto
    moreover obtain st'' where "attachAll c pid st = Some (0, log, st'')"
      using True run by (cases st') (simp add: attachAll_def at od)
    moreover have t: "(linux_proc_get_tgid (pc_status c pid w1) = pid \<and> fst (pc_opendir c pid w1)) = True" using True by (simp add: od)
    ultimately show ?thesis using d at unfolding scan_done_def
      by (intro exI [of _ log] exI [of _ st''] exI [of _ err] exI [of _ tkf] exI [of _ w1]) (simp only: t if_True simp_thms, blast)
  qed
qed


text \<open>A process 7 with the threads 7 and 8, of which a third, 9, is born when 8 is attached.\<close>

type_synonym demo_tasks = "string list \<times> string list"

definition demo_pctl :: "demo_tasks pctl" where
  "demo_pctl =
     \<lparr> pc_attach = \<lambda>pid w. (0, if pid = 8 then (fst w @ [''9''], snd w) else w),
       pc_setoptions = \<lambda>_ w. w,
       pc_status = \<lambda>_ _. Some (''Name:'' @ [CHR 0x09] @ ''a'' @ [CHR 0x0A] @ ''State:'' @ [CHR 0x09] @ ''T (stopped)'' @ [CHR 0x0A] @ ''Tgid: 7''),
       pc_tkill = \<lambda>_ _ w. (0, False, w), pc_kill = \<lambda>_ _ w. (0, w),
       pc_opendir = \<lambda>_ w. (True, (fst w, fst w)),
       pc_readdir = \<lambda>w. (case snd w of [] \<Rightarrow> (None, w) | n # ns \<Rightarrow>
          if task_lwp n \<in> {0, 7, 8, 9} then (Some n, (fst w, ns)) else (None, w)),
       pc_rewinddir = \<lambda>w. (fst w, fst w), pc_closedir = \<lambda>w. w \<rparr>"

lemma demo_task_laws: "task_laws demo_pctl (\<lambda>w. length (snd w)) {7, 8, 9}"
  by (auto simp: task_laws_def demo_pctl_def split: list.splits if_splits)

lemma demo_tgid: "linux_proc_get_tgid (pc_status demo_pctl p w) = 7"
  by (simp add: demo_pctl_def) code_simp

theorem attachAll_all_threads_witness:
  "\<exists>err more st' pre ns ns'. attachAll demo_pctl 7 (False, ([''.'', ''7'', ''8''], [])) = Some (0, Attach 7 err # more, st') \<and>
     distinct (attempted (Attach 7 err # more)) \<and> Attach 7 err # more = pre @ map Saw ns @ [PassEnd] @ map Saw ns' @ [PassEnd]"
proof -
  have "fst (pc_opendir demo_pctl p w)" for p w by (simp add: demo_pctl_def)
  then show ?thesis
    using attachAll_all_threads [OF demo_task_laws, of 7 "(False, ([''.'', ''7'', ''8''], []))"]
    by (simp only: demo_tgid if_True simp_thms finite.intros) blast
qed


section \<open>Fields of a status file\<close>

definition nl :: char where
  "nl = CHR 0x0A"

lemma fgets_line: "nl \<notin> set l \<Longrightarrow> length l < 99 \<Longrightarrow> fgets 100 (l @ nl # rest) = (l @ [nl], rest)"
proof -
  assume l: "nl \<notin> set l" "length l < 99"
  then have "takeWhile (\<lambda>c. c \<noteq> CHR 0x0A) (l @ nl # rest) = l"
    by (auto simp: nl_def takeWhile_append1 takeWhile_tail)
  then show ?thesis using l by (simp add: fgets_def Let_def min.absorb2)
qed

text \<open>The value is that of the first line with the field, whatever lines come before and after.\<close>

lemma proc_get_int_field:
  assumes "\<forall>l \<in> set ls. nl \<notin> set l \<and> length l < 99 \<and> \<not> prefix (field @ '':'') (l @ [nl])"
    and "nl \<notin> set v" "nl \<notin> set field" "length field + length v < 98"
  shows "proc_get_int field (concat (map (\<lambda>l. l @ [nl]) ls) @ (field @ '':'' @ v) @ nl # rest) = strtol_int (v @ [nl])"
  using assms(1)
proof (induction ls)
  case Nil
  have "nl \<noteq> CHR '':''" by (simp add: nl_def)
  then have "fgets 100 ((field @ '':'' @ v) @ nl # rest) = ((field @ '':'' @ v) @ [nl], rest)"
    using assms by (intro fgets_line) auto
  then show ?case by (subst proc_get_int.simps) simp
next
  case (Cons l ls)
  have "fgets 100 (l @ nl # (concat (map (\<lambda>l. l @ [nl]) ls) @ (field @ '':'' @ v) @ nl # rest)) =
      (l @ [nl], concat (map (\<lambda>l. l @ [nl]) ls) @ (field @ '':'' @ v) @ nl # rest)"
    using Cons.prems by (intro fgets_line) auto
  then show ?case using Cons by (subst proc_get_int.simps) auto
qed

end
