(* ===== verification/Kcov_ScriptStart.thy ===== *)
theory Kcov_ScriptStart
  imports Kcov_Bash Kcov_Python Kcov_Files Kcov_Digits
begin

text \<open>
  How the script engines launch a script (\<open>src/src/engines/bash-engine.cc\<close>, \<open>python-engine.cc\<close>): argument
  vector, environment and descriptors of the child; and the two libraries that are preloaded
  into it (\<open>bash-execve-redirector.c\<close>, \<open>bash-tracefd-cloexec.c\<close>).

  \<^item> An argument vector is a list of pointers to strings, \<open>None\<close> for \<open>NULL\<close>; a store outside of it is
    undefined and the result is \<open>None\<close>.
  \<^item> The answers of the system calls on the way are fields of a record; a child that \<open>execvp\<close>
    replaces is the result \<open>Script_execs\<close>, with what it is started with.
\<close>

section \<open>Argument vectors\<close>

type_synonym argvec = "string option list"

definition vec_store :: "argvec \<Rightarrow> nat \<Rightarrow> string option \<Rightarrow> argvec option" where
  "vec_store v i x = (if i < length v then Some (v[i := x]) else None)"

text \<open>The loops \<open>vec[argcStart + i] = xstrdup(argv[i])\<close>.\<close>

fun copy_args :: "argvec \<Rightarrow> nat \<Rightarrow> string list \<Rightarrow> argvec option" where
  "copy_args v k [] = Some v"
| "copy_args v k (a # as) = Option.bind (vec_store v k (Some a)) (\<lambda>v. copy_args v (Suc k) as)"

text \<open>What \<open>execvp\<close> reads of it: up to the first \<open>NULL\<close>, which has to be there.\<close>

definition exec_args :: "argvec \<Rightarrow> string list option" where
  "exec_args v = (if None \<in> set v then Some (map the (takeWhile (\<lambda>x. x \<noteq> None) v)) else None)"

definition bash_vec :: "string \<Rightarrow> string list \<Rightarrow> argvec option" where
  "bash_vec command argv =
     Option.bind (vec_store (replicate (length argv + 3) None) 0 (Some command)) (\<lambda>v. copy_args v 1 argv)"

definition python_vec :: "string \<Rightarrow> string \<Rightarrow> string list \<Rightarrow> argvec option" where
  "python_vec command helper argv =
     Option.bind (vec_store (replicate (length argv + 3) None) 0 (Some command)) (\<lambda>v.
     Option.bind (vec_store v 1 (Some helper)) (\<lambda>v. copy_args v 2 argv))"

section \<open>The trace descriptor and the environment of bash\<close>

text \<open>
  \<open>rlim\<close> is the soft limit on open files, \<open>None\<close> when \<open>getrlimit\<close> fails; on FreeBSD it is not asked.
  The quotient is cut to \<open>int\<close>.
\<close>

definition xtrace_fd :: "bool \<Rightarrow> u64 option \<Rightarrow> bool \<Rightarrow> bool \<Rightarrow> u32 option" where
  "xtrace_fd freebsd rlim usePS4 supportsXtraceFd =
     map_option (\<lambda>fd. if usePS4 \<and> \<not> supportsXtraceFd then 2 else fd)
       (if freebsd then Some 782 else map_option (\<lambda>r. ucast (r div 4)) rlim)"

record bash_conf =
  bc_command :: string
  bc_usePS4 :: bool
  bc_handle_sh :: bool
  bc_cloexec :: bool
  bc_force_stderr :: bool
  bc_argv :: "string list"
  bc_baseDirectory :: string
  bc_use_basic :: bool
  bc_parse_dirs :: "string list"
  bc_parse_binary_dir :: "string option"

definition helperPath :: "bash_conf \<Rightarrow> string" where
  "helperPath bc = bc_baseDirectory bc @ ''bash-helper.sh''"

definition helperDebugTrapPath :: "bash_conf \<Rightarrow> string" where
  "helperDebugTrapPath bc = bc_baseDirectory bc @ ''bash-helper-debug-trap.sh''"

definition redirectorPath :: "bash_conf \<Rightarrow> string" where
  "redirectorPath bc = bc_baseDirectory bc @ ''libbash_execve_redirector.so''"

definition cloexecPath :: "bash_conf \<Rightarrow> string" where
  "cloexecPath bc = bc_baseDirectory bc @ ''libbash_tracefd_cloexec.so''"

definition preload_string :: "bash_conf \<Rightarrow> string" where
  "preload_string bc =
     (let p = (if bc_handle_sh bc then redirectorPath bc else [])
      in if bc_cloexec bc then p @ (if p \<noteq> [] then '':'' else []) @ cloexecPath bc else p)"

text \<open>The strings handed to \<open>putenv\<close>, in order.\<close>

definition bash_env :: "bash_conf \<Rightarrow> bool \<Rightarrow> u32 \<Rightarrow> string list" where
  "bash_env bc supportsXtraceFd xtraceFd =
     [fmt (''KCOV_BASH_XTRACEFD='' @ fmt_d xtraceFd), fmt (''KCOV_BASH_COMMAND='' @ bc_command bc)] @
     (if bc_usePS4 bc
      then fmt (''BASH_ENV='' @ helperPath bc) #
           (if supportsXtraceFd then [fmt (''BASH_XTRACEFD='' @ fmt_d xtraceFd)] else [])
      else [fmt (''BASH_ENV='' @ helperDebugTrapPath bc), fmt ''KCOV_BASH_USE_DEBUG_TRAP=1'']) @
     (if bc_handle_sh bc \<or> bc_cloexec bc then [''LD_PRELOAD='' @ preload_string bc] else [])"

text \<open>\<open>doSetenv\<close>: \<open>putenv\<close> of a copy. A variable is what stands before the first \<open>=\<close>.\<close>

definition doSetenv :: "(string \<rightharpoonup> string) \<Rightarrow> string \<Rightarrow> (string \<rightharpoonup> string)" where
  "doSetenv env val =
     (let v = c_str val; name = takeWhile (\<lambda>c. c \<noteq> CHR ''='') v
      in env(name \<mapsto> drop (Suc (length name)) v))"

section \<open>Descriptors of the child\<close>

datatype pipe_end = StderrRead | StderrWrite | StdoutRead | StdoutWrite | Inherited nat

type_synonym fd_table = "int \<rightharpoonup> pipe_end"

record pipes =
  stderr_r :: int
  stderr_w :: int
  stdout_r :: int
  stdout_w :: int

definition dup2 :: "int \<Rightarrow> int \<Rightarrow> fd_table \<Rightarrow> fd_table option" where
  "dup2 oldfd newfd t = (if newfd < 0 \<or> t oldfd = None then None else Some (t(newfd := t oldfd)))"

definition close_fd :: "int \<Rightarrow> fd_table \<Rightarrow> fd_table" where
  "close_fd fd t = t(fd := None)"

definition child_fds :: "pipes \<Rightarrow> int \<Rightarrow> fd_table \<Rightarrow> fd_table option" where
  "child_fds p xtraceFd t =
     Option.bind (dup2 (stderr_w p) xtraceFd t) (\<lambda>t.
     Option.bind (dup2 (stdout_w p) 1 t) (\<lambda>t.
     Some (close_fd (stdout_r p) (close_fd (stderr_r p) (close_fd (stdout_w p) (close_fd (stderr_w p) t))))))"

section \<open>\<open>BashEngine::start\<close>\<close>

text \<open>\<open>fscanf(fp, "%d.%d")\<close> on the version that bash prints; \<open>None\<close> at the end of the file.\<close>

definition scanf_int :: "string \<Rightarrow> (int \<times> string) option" where
  "scanf_int s =
     (let t = dropWhile isspace s;
          u = (if t \<noteq> [] \<and> hd t \<in> {CHR ''-'', CHR ''+''} then tl t else t);
          ds = takeWhile (is_digit_in 10) u;
          n = int (digits_value 10 ds)
      in if ds = [] then None
         else Some (if t \<noteq> [] \<and> hd t = CHR ''-'' then - n else n, drop (length ds) u))"

definition scanf_version :: "string \<Rightarrow> (int \<times> int) option" where
  "scanf_version s =
     (if dropWhile isspace s = [] then None
      else Some (case scanf_int s of
                   None \<Rightarrow> (0, 0)
                 | Some (major, r) \<Rightarrow>
                     (major, if r \<noteq> [] \<and> hd r = CHR ''.''
                             then (case scanf_int (tl r) of None \<Rightarrow> 0 | Some (minor, _) \<Rightarrow> minor) else 0)))"

definition bashCanHandleXtraceFd :: "bash_conf \<Rightarrow> string option \<Rightarrow> bool" where
  "bashCanHandleXtraceFd bc popen =
     (if bc_force_stderr bc then False
      else case popen of
        None \<Rightarrow> False
      | Some out \<Rightarrow>
          (case scanf_version out of
             None \<Rightarrow> False
           | Some (major, minor) \<Rightarrow> bash_xtrace_version major minor))"

datatype script_launch =
    Script_fails
  | Script_execs "string list" "string list" fd_table
  | Script_runs int ScriptEngine "script_event list"
  | Script_undefined
  | Script_panics

record bash_sys =
  bs_pipes :: "pipes option"
  bs_command_exists :: bool
  bs_popen :: "string option"
  bs_write_ok :: "string \<Rightarrow> bool"
  bs_fork :: int
  bs_fdopen :: bool
  bs_rlim :: "u64 option"
  bs_freebsd :: bool
  bs_fds :: fd_table
  bs_exec_ok :: bool
  bs_dir :: "string \<Rightarrow> dir_node list option"

definition bash_child :: "bash_sys \<Rightarrow> bash_conf \<Rightarrow> pipes \<Rightarrow> bool \<Rightarrow> script_launch" where
  "bash_child bs bc p supports =
     (case xtrace_fd (bs_freebsd bs) (bs_rlim bs) (bc_usePS4 bc) supports of
        None \<Rightarrow> Script_fails
      | Some fd \<Rightarrow>
          (case child_fds p (sint fd) (bs_fds bs) of
             None \<Rightarrow> Script_fails
           | Some t \<Rightarrow>
               (case Option.bind (bash_vec (bc_command bc) (bc_argv bc)) exec_args of
                  None \<Rightarrow> Script_undefined
                | Some args \<Rightarrow>
                    if bs_exec_ok bs then Script_execs args (bash_env bc supports fd) t else Script_fails)))"

fun parse_dirs ::
  "bool \<Rightarrow> script_env \<Rightarrow> (string \<Rightarrow> dir_node list option) \<Rightarrow> ScriptEngine \<Rightarrow> string list \<Rightarrow>
   ScriptEngine \<times> script_event list" where
  "parse_dirs ub e dir s [] = (s, [])"
| "parse_dirs ub e dir s (d # ds) =
     (let (s1, evs) = (case dir d of None \<Rightarrow> (s, []) | Some ns \<Rightarrow> parseDirectoryForFiles ub e s d ns);
          (s2, evs') = parse_dirs ub e dir s1 ds
      in (s2, evs @ evs'))"

definition bash_parent ::
  "bash_sys \<Rightarrow> bash_conf \<Rightarrow> script_env \<Rightarrow> ScriptEngine \<Rightarrow> string \<Rightarrow> script_launch" where
  "bash_parent bs bc e s executable =
     (if \<not> bs_fdopen bs then Script_fails
      else let (s1, evs1) = parse_dirs (bc_use_basic bc) e (bs_dir bs) s
                 (bc_parse_dirs bc @ (case bc_parse_binary_dir bc of None \<Rightarrow> [] | Some d \<Rightarrow> [d]));
               (s2, evs2) = bash_parseFile (bc_use_basic bc) e s1 executable
           in Script_runs (bs_fork bs) s2 (evs1 @ evs2))"

definition bash_start ::
  "bash_sys \<Rightarrow> bash_conf \<Rightarrow> script_env \<Rightarrow> ScriptEngine \<Rightarrow> string \<Rightarrow> script_launch" where
  "bash_start bs bc e s executable =
     (case bs_pipes bs of
        None \<Rightarrow> Script_fails
      | Some p \<Rightarrow>
          if \<not> bs_command_exists bs then Script_fails
          else let supports = bashCanHandleXtraceFd bc (bs_popen bs)
               in if \<not> (bs_write_ok bs (helperPath bc) \<and> bs_write_ok bs (helperDebugTrapPath bc) \<and>
                         bs_write_ok bs (redirectorPath bc) \<and> bs_write_ok bs (cloexecPath bc))
                  then Script_fails
                  else if bs_fork bs > 0 then bash_parent bs bc e (s\<lparr>sc_listener := True\<rparr>) executable
                  else if bs_fork bs = 0 then bash_child bs bc p supports
                  else Script_fails)"

text \<open>Whom \<open>kill\<close> of both engines signals.\<close>

definition script_kill :: "int \<Rightarrow> int option" where
  "script_kill child = (if child = 0 then None else Some child)"

section \<open>Standard output\<close>

text \<open>
  Each answer: whether the stream is readable, what \<open>fread\<close> then gives, and the end and error
  indicators after it.
\<close>

fun drain_stdout :: "(bool \<times> string \<times> bool \<times> bool) list \<Rightarrow> string" where
  "drain_stdout [] = []"
| "drain_stdout ((readable, bytes, eof, err) # rest) =
     (if \<not> readable then [] else bytes @ (if eof \<or> err then [] else drain_stdout rest))"

text \<open>With lines: \<open>None\<close> when \<open>file_readable\<close> or \<open>getline\<close> says that there is none.\<close>

fun available_lines :: "string option list \<Rightarrow> string list" where
  "available_lines [] = []"
| "available_lines (None # rest) = []"
| "available_lines (Some l # rest) = l # available_lines rest"

definition handleStdout ::
  "bool \<Rightarrow> (bool \<times> string \<times> bool \<times> bool) list \<Rightarrow> string option list \<Rightarrow> string" where
  "handleStdout supportsXtraceFd reads lines =
     (if supportsXtraceFd then drain_stdout reads
      else concat (map c_str (shown_stdout (available_lines lines))))"

section \<open>\<open>PythonEngine::start\<close>\<close>

record python_sys =
  ps_command_exists :: bool
  ps_write_ok :: bool
  ps_mkfifo_ok :: bool
  ps_fork :: int
  ps_exec_ok :: bool
  ps_fopen_ok :: bool
  ps_outDirectory :: string
  ps_baseDirectory :: string

definition python_env :: "python_sys \<Rightarrow> string list" where
  "python_env ps = [''KCOV_PYTHON_PIPE_PATH='' @ ps_outDirectory ps @ ''kcov-python.pipe'']"

definition python_start :: "python_sys \<Rightarrow> string \<Rightarrow> string list \<Rightarrow> fd_table \<Rightarrow> ScriptEngine \<Rightarrow> script_launch" where
  "python_start ps command argv fds s =
     (if \<not> ps_command_exists ps then Script_fails
      else if \<not> ps_write_ok ps then Script_fails
      else if \<not> ps_mkfifo_ok ps then Script_fails
      else if ps_fork ps = 0
      then (case Option.bind (python_vec command (ps_baseDirectory ps @ ''python-helper.py'') argv) exec_args of
              None \<Rightarrow> Script_undefined
            | Some args \<Rightarrow> if ps_exec_ok ps then Script_execs args (python_env ps) fds else Script_fails)
      else if ps_fork ps < 0 then Script_fails
      else if \<not> ps_fopen_ok ps then Script_panics
      else Script_runs (ps_fork ps) (s\<lparr>sc_listener := True\<rparr>) [])"

section \<open>Engine choice\<close>

text \<open>\<open>matchFile\<close> of the two creators makes a string of 80 bytes of the buffer it is given.\<close>

definition bash_matchFile :: "string \<Rightarrow> byte list \<Rightarrow> nat option" where
  "bash_matchFile filename data =
     (if length data < 80 then None else Some (bash_matchParser filename (bytes_to_string (take 80 data))))"

definition python_matchFile :: "string \<Rightarrow> byte list \<Rightarrow> nat option" where
  "python_matchFile filename data =
     (if length data < 80 then None else Some (python_matchParser filename (bytes_to_string (take 80 data))))"

section \<open>The preloaded libraries\<close>

text \<open>
  \<open>execve\<close> of the redirector. \<open>content\<close> is that of the file, \<open>None\<close> if it cannot be opened; \<open>garbage\<close> is
  what the uninitialised array holds and \<open>heap\<close> what the block of \<open>malloc\<close> holds.
\<close>

definition start_bytes :: "string option \<Rightarrow> string \<Rightarrow> (int \<times> string) option" where
  "start_bytes content garbage =
     (case content of
        None \<Rightarrow> Some (-1, (take 127 garbage) @ [NUL])
      | Some d \<Rightarrow>
          (let n = length (take 128 d);
               buf = (take 128 d @ drop n garbage)[127 := NUL]
           in if n < 128 then Some (int n, buf[n := NUL]) else None))"

definition looks_like_shell :: "int \<Rightarrow> string \<Rightarrow> bool" where
  "looks_like_shell sizeRead buf =
     (sizeRead \<ge> 6 \<and>
      (str_contains (c_str buf) ''/bin/sh'' \<or> str_contains (c_str buf) ''/bin/bash'' \<or>
       str_contains (c_str buf) ''/bin/ash'' \<or> str_contains (c_str buf) ''/bin/dash''))"

definition replacement_argv :: "bool \<Rightarrow> argvec \<Rightarrow> string \<Rightarrow> string list \<Rightarrow> argvec option" where
  "replacement_argv debugTrap heap filename argv =
     Option.bind (vec_store heap 0 (Some ''/bin/bash'')) (\<lambda>v.
     Option.bind (if debugTrap then Some (1, v) else map_option (Pair 2) (vec_store v 1 (Some ''-x''))) (\<lambda>(arg, v).
     Option.bind (vec_store v arg (Some filename)) (\<lambda>v.
     Option.bind (copy_args v (Suc arg) argv) (\<lambda>v.
     vec_store v (Suc arg + length argv) None))))"

definition redirector_execve ::
  "bool \<Rightarrow> bool \<Rightarrow> string option \<Rightarrow> string \<Rightarrow> argvec \<Rightarrow> string \<Rightarrow> string list \<Rightarrow> (string \<times> string list) option" where
  "redirector_execve kcovBash debugTrap content garbage heap filename argv =
     Option.bind (start_bytes content garbage) (\<lambda>(sizeRead, buf).
       if kcovBash \<and> looks_like_shell sizeRead buf
       then map_option (Pair ''/bin/bash'')
              (Option.bind (replacement_argv debugTrap (take (length argv + 4) heap) filename argv) exec_args)
       else Some (filename, argv))"

text \<open>The descriptor that the other library marks close-on-exec: \<open>strtol\<close> has to use the whole string.\<close>

definition strtol_end :: "string \<Rightarrow> string" where
  "strtol_end s = (case scanf_int s of None \<Rightarrow> s | Some (_, r) \<Rightarrow> r)"

definition tracefd_cloexec :: "(string \<Rightarrow> string option) \<Rightarrow> u32 option" where
  "tracefd_cloexec getenv =
     (case getenv (if getenv ''KCOV_BASH_USE_DEBUG_TRAP'' \<noteq> None then ''KCOV_BASH_XTRACEFD'' else ''BASH_XTRACEFD'') of
        None \<Rightarrow> None
      | Some fdStr \<Rightarrow>
          if strtol_end fdStr = []
          then Some (case scanf_int fdStr of None \<Rightarrow> 0 | Some (n, _) \<Rightarrow> of_int (max (- (2 ^ 63)) (min (2 ^ 63 - 1) n))) else None)"

end
