(* ===== verification/Kcov_ScriptStart_Props.thy ===== *)
theory Kcov_ScriptStart_Props
  imports Kcov_ScriptStart Kcov_Files_Props
begin

text \<open>
  A launched script gets the arguments of the command line, its trace arrives at the engine, and
  what it is told about the trace in its environment is true. The library that redirects shells
  writes one byte too far for most files.
\<close>

section \<open>Argument vectors\<close>

lemma copy_args_middle:
  "length pre = k \<Longrightarrow> length mid = length as \<Longrightarrow>
     copy_args (pre @ mid @ post) k as = Some (pre @ map Some as @ post)"
proof (induction as arbitrary: pre mid k)
  case Nil
  then show ?case by simp
next
  case (Cons a as)
  then obtain m mid' where mid: "mid = m # mid'" "length mid' = length as" by (auto simp: length_Suc_conv)
  have "copy_args ((pre @ [Some a]) @ mid' @ post) (Suc k) as = Some ((pre @ [Some a]) @ map Some as @ post)"
    using Cons.prems mid by (intro Cons.IH) auto
  then show ?case using Cons.prems mid by (simp add: vec_store_def list_update_append)
qed

lemma exec_args_terminated: "exec_args (map Some as @ None # rest) = Some as"
proof -
  have "takeWhile (\<lambda>x. x \<noteq> None) (map Some as @ None # rest) = map Some as"
    by (subst takeWhile_append2) auto
  then show ?thesis by (simp add: exec_args_def comp_def)
qed

lemma replicate_plus3:
  "replicate (n + 3) x = x # replicate n x @ [x, x]" "replicate (n + 3) x = x # x # replicate n x @ [x]"
  by (simp_all add: numeral_3_eq_3 replicate_app_Cons_same)

lemma bash_vec_args: "Option.bind (bash_vec command argv) exec_args = Some (command # argv)"
proof -
  have "bash_vec command argv = Some (map Some (command # argv) @ [None, None])"
    using copy_args_middle [of "[Some command]" 1 "replicate (length argv) None" argv "[None, None]"]
    by (simp add: bash_vec_def vec_store_def replicate_plus3(1))
  then show ?thesis using exec_args_terminated [of "command # argv" "[None]"] by simp
qed

lemma python_vec_args: "Option.bind (python_vec command helper argv) exec_args = Some (command # helper # argv)"
proof -
  have "python_vec command helper argv = Some (map Some (command # helper # argv) @ [None])"
    using copy_args_middle [of "[Some command, Some helper]" 2 "replicate (length argv) None" argv "[None]"]
    by (simp add: python_vec_def vec_store_def replicate_plus3(2))
  then show ?thesis using exec_args_terminated [of "command # helper # argv" "[]"] by simp
qed

lemma replacement_argv_args:
  assumes "length heap = length argv + 4"
  shows "Option.bind (replacement_argv debugTrap heap filename argv) exec_args =
           Some (''/bin/bash'' # (if debugTrap then [] else [''-x'']) @ filename # argv)"
proof -
  define n where "n = length argv"
  have len: "length heap = n + 4" using assms by (simp add: n_def)
  obtain a b c rest where h: "heap = a # b # c # rest" "length rest = Suc n"
    using len by (auto simp: numeral_eq_Suc length_Suc_conv)
  obtain mid x where rest: "rest = mid @ [x]" "length mid = n" using h(2) by (metis length_append_singleton nat.inject rev_exhaust list.size(3) nat.distinct(1))
  show ?thesis
  proof (cases debugTrap)
    case False
    have "copy_args ([Some ''/bin/bash'', Some ''-x'', Some filename] @ mid @ [x]) 3 argv =
        Some ([Some ''/bin/bash'', Some ''-x'', Some filename] @ map Some argv @ [x])"
      using rest by (intro copy_args_middle) (auto simp: n_def)
    then show ?thesis
      using False h rest exec_args_terminated [of "''/bin/bash'' # ''-x'' # filename # argv" "[]"]
      by (simp add: replacement_argv_def vec_store_def list_update_append n_def numeral_3_eq_3)
  next
    case True
    obtain c' mid' where m: "c # mid = mid' @ [c']" by (metis append_butlast_last_id list.distinct(1))
    then have "length mid' = n" using rest by (metis add_diff_cancel_right' length_append_singleton length_Cons diff_Suc_1)
    then have "copy_args ([Some ''/bin/bash'', Some filename] @ mid' @ [c', x]) 2 argv =
        Some ([Some ''/bin/bash'', Some filename] @ map Some argv @ [c', x])"
      by (intro copy_args_middle) (auto simp: n_def)
    moreover have "heap = a # b # mid' @ [c', x]" using m h rest by (metis append_Cons append_Nil append_assoc)
    ultimately show ?thesis
      using True \<open>length mid' = n\<close> exec_args_terminated [of "''/bin/bash'' # filename # argv" "[x]"]
      by (simp add: replacement_argv_def vec_store_def list_update_append n_def numeral_2_eq_2)
  qed
qed

section \<open>Descriptors\<close>

definition pipe_fds :: "pipes \<Rightarrow> int list" where
  "pipe_fds p = [stderr_r p, stderr_w p, stdout_r p, stdout_w p]"

lemma child_fds_result:
  assumes "distinct (pipe_fds p)" and "\<forall>q \<in> set (pipe_fds p). 2 < q"
    and "t (stderr_w p) = Some StderrWrite" and "t (stdout_w p) = Some StdoutWrite"
    and "2 < x" and "x \<notin> set (pipe_fds p)"
  shows "\<exists>t'. child_fds p x t = Some t' \<and> t' x = Some StderrWrite \<and> t' 1 = Some StdoutWrite \<and>
           (\<forall>q \<in> set (pipe_fds p). t' q = None) \<and>
           (\<forall>q. q \<notin> set (pipe_fds p) \<and> q \<noteq> 1 \<and> q \<noteq> x \<longrightarrow> t' q = t q)"
proof -
  have "dup2 (stderr_w p) x t = Some (t(x \<mapsto> StderrWrite))" using assms by (simp add: dup2_def)
  moreover have "stdout_w p \<noteq> x" "stderr_w p \<noteq> x" "stdout_r p \<noteq> x" "stderr_r p \<noteq> x"
    using assms by (auto simp: pipe_fds_def)
  moreover have "1 \<noteq> x" "stdout_w p \<noteq> 1" "stderr_w p \<noteq> 1" "stdout_r p \<noteq> 1" "stderr_r p \<noteq> 1"
    using assms by (auto simp: pipe_fds_def)
  ultimately show ?thesis
    using assms(4) by (simp add: child_fds_def dup2_def close_fd_def pipe_fds_def)
qed

text \<open>When the trace descriptor is the writing end of the pipe itself, the trace is closed.\<close>

lemma child_fds_clash:
  assumes "child_fds p (stderr_w p) t = Some t'" shows "t' (stderr_w p) = None"
  using assms by (auto simp: child_fds_def dup2_def close_fd_def bind_eq_Some_conv split: if_splits)

text \<open>Without a limit on open files the descriptor is \<open>-1\<close> and no script can be started.\<close>

lemma xtrace_unlimited:
  "xtrace_fd False (Some (-1)) False supports = Some (-1)" and "child_fds p (-1) t = None"
  by (simp_all add: xtrace_fd_def child_fds_def dup2_def)

section \<open>Environment\<close>

lemma scanf_int_fmt_nat: "scanf_int (fmt_nat n) = Some (int n, [])"
proof -
  obtain c s where cs: "fmt_nat n = c # s" using fmt_nat_nonempty by (meson neq_Nil_conv)
  have "is_digit_in 10 c" using fmt_nat_digits [of c n] cs by simp
  note c = digit_char [OF this]
  have "takeWhile (is_digit_in 10) (fmt_nat n) = fmt_nat n"
    by (simp add: takeWhile_eq_all_conv fmt_nat_digits)
  then show ?thesis
    using c cs digits_value_fmt_nat [of n] by (simp add: scanf_int_def Let_def)
qed

lemma doSetenv_pair:
  assumes "NUL \<notin> set name" "CHR ''='' \<notin> set name" "NUL \<notin> set v"
  shows "doSetenv env (name @ CHR ''='' # v) = env(name \<mapsto> v)"
proof -
  have "c_str (name @ CHR ''='' # v) = name @ CHR ''='' # v"
    using assms by (intro c_str_id) (auto simp: NUL_def)
  moreover have "takeWhile (\<lambda>c. c \<noteq> CHR ''='') (name @ CHR ''='' # v) = name"
    using assms(2) by (auto simp: takeWhile_append2 takeWhile_append)
  ultimately show ?thesis by (simp add: doSetenv_def Let_def)
qed

text \<open>A variable that \<open>fmt\<close> puts together, or that is a string of its own.\<close>

lemma doSetenv_fmt:
  assumes "NUL \<notin> set name" "CHR ''='' \<notin> set name" "NUL \<notin> set v" and "s = name @ CHR ''='' # v"
  shows "doSetenv env (fmt s) = env(name \<mapsto> v)" "doSetenv env s = env(name \<mapsto> v)"
proof -
  have "fmt s = s" using assms by (intro fmt_all) (auto simp: NUL_def)
  then show "doSetenv env (fmt s) = env(name \<mapsto> v)" "doSetenv env s = env(name \<mapsto> v)"
    using assms doSetenv_pair by simp_all
qed

definition script_environ :: "bash_conf \<Rightarrow> bool \<Rightarrow> u32 \<Rightarrow> (string \<rightharpoonup> string) \<Rightarrow> (string \<rightharpoonup> string)" where
  "script_environ bc supports fd env0 = foldl doSetenv env0 (bash_env bc supports fd)"

lemma script_environ_lookup:
  fixes supports :: bool and env0 :: "string \<rightharpoonup> string"
  assumes "NUL \<notin> set (bc_command bc)" "NUL \<notin> set (bc_baseDirectory bc)" "0 \<le> sint fd"
  defines "env \<equiv> script_environ bc supports fd env0"
  shows "env ''KCOV_BASH_XTRACEFD'' = Some (fmt_nat (nat (sint fd)))"
    and "bc_usePS4 bc \<Longrightarrow> supports \<Longrightarrow> env ''BASH_XTRACEFD'' = Some (fmt_nat (nat (sint fd)))"
    and "env ''KCOV_BASH_USE_DEBUG_TRAP'' = (if bc_usePS4 bc then env0 ''KCOV_BASH_USE_DEBUG_TRAP'' else Some ''1'')"
proof -
  have d: "fmt_d fd = fmt_nat (nat (sint fd))" using assms(3) by (simp add: fmt_d_def)
  have nul: "NUL \<notin> set (helperPath bc)" "NUL \<notin> set (helperDebugTrapPath bc)" "NUL \<notin> set (preload_string bc)"
    using assms(2) by (auto simp: helperPath_def helperDebugTrapPath_def preload_string_def redirectorPath_def
        cloexecPath_def Let_def NUL_def)
  note n = fmt_nat_no_NUL [of "nat (sint fd)"]
  have sets:
    "doSetenv e (fmt (''KCOV_BASH_XTRACEFD='' @ fmt_nat (nat (sint fd)))) = e(''KCOV_BASH_XTRACEFD'' \<mapsto> fmt_nat (nat (sint fd)))"
    "doSetenv e (fmt (''KCOV_BASH_COMMAND='' @ bc_command bc)) = e(''KCOV_BASH_COMMAND'' \<mapsto> bc_command bc)"
    "doSetenv e (fmt (''BASH_ENV='' @ helperPath bc)) = e(''BASH_ENV'' \<mapsto> helperPath bc)"
    "doSetenv e (fmt (''BASH_XTRACEFD='' @ fmt_nat (nat (sint fd)))) = e(''BASH_XTRACEFD'' \<mapsto> fmt_nat (nat (sint fd)))"
    "doSetenv e (fmt (''BASH_ENV='' @ helperDebugTrapPath bc)) = e(''BASH_ENV'' \<mapsto> helperDebugTrapPath bc)"
    "doSetenv e (fmt ''KCOV_BASH_USE_DEBUG_TRAP=1'') = e(''KCOV_BASH_USE_DEBUG_TRAP'' \<mapsto> ''1'')"
    "doSetenv e (''LD_PRELOAD='' @ preload_string bc) = e(''LD_PRELOAD'' \<mapsto> preload_string bc)" for e
    using n nul assms(1) by (rule_tac doSetenv_fmt; simp add: NUL_def)+
  show "env ''KCOV_BASH_XTRACEFD'' = Some (fmt_nat (nat (sint fd)))"
    and "bc_usePS4 bc \<Longrightarrow> supports \<Longrightarrow> env ''BASH_XTRACEFD'' = Some (fmt_nat (nat (sint fd)))"
    and "env ''KCOV_BASH_USE_DEBUG_TRAP'' = (if bc_usePS4 bc then env0 ''KCOV_BASH_USE_DEBUG_TRAP'' else Some ''1'')"
    unfolding env_def script_environ_def bash_env_def d by (simp_all only: foldl_append foldl_Cons foldl_Nil sets split: if_split) simp_all
qed

section \<open>Results\<close>

text \<open>
  Property C23. A bash script is started with its trace connected. Suppose every step of \<open>start\<close> succeeds in
  the child, the four pipe descriptors are distinct and above 2, the trace descriptor computed from the limit on open
  files is above 2 and none of the pipe ends (with PS4 this needs a bash that can handle it; otherwise standard error
  is used), command and base directory have no NUL, and KCOV_BASH_USE_DEBUG_TRAP is not already set in
  the environment. Then the shell is executed with the arguments of the command line; the trace descriptor
  is the engine's pipe, standard output the other pipe, the four pipe descriptors are closed and every other descriptor
  is as before; and the descriptor the close-on-exec library reads from the environment made for the child is that
  trace descriptor.
\<close>

theorem bash_child_traced:
  assumes pipes: "bs_pipes bs = Some p" "distinct (pipe_fds p)" "\<forall>q \<in> set (pipe_fds p). 2 < q"
      "bs_fds bs (stderr_w p) = Some StderrWrite" "bs_fds bs (stdout_w p) = Some StdoutWrite"
    and ok: "bs_command_exists bs" "\<forall>f. bs_write_ok bs f" "bs_fork bs = 0" "bs_exec_ok bs"
    and fd: "xtrace_fd (bs_freebsd bs) (bs_rlim bs) (bc_usePS4 bc) (bashCanHandleXtraceFd bc (bs_popen bs)) = Some fd"
      "2 < sint fd" "sint fd \<notin> set (pipe_fds p)"
    and strings: "NUL \<notin> set (bc_command bc)" "NUL \<notin> set (bc_baseDirectory bc)"
    and env0: "env0 ''KCOV_BASH_USE_DEBUG_TRAP'' = None"
  shows "\<exists>env t. bash_start bs bc e s executable = Script_execs (bc_command bc # bc_argv bc) env t \<and>
           t (sint fd) = Some StderrWrite \<and> t 1 = Some StdoutWrite \<and>
           (\<forall>q \<in> set (pipe_fds p). t q = None) \<and>
           (\<forall>q. q \<notin> set (pipe_fds p) \<and> q \<noteq> 1 \<and> q \<noteq> sint fd \<longrightarrow> t q = bs_fds bs q) \<and>
           tracefd_cloexec (foldl doSetenv env0 env) = Some fd"
proof -
  define supports where "supports = bashCanHandleXtraceFd bc (bs_popen bs)"
  obtain t where t: "child_fds p (sint fd) (bs_fds bs) = Some t" "t (sint fd) = Some StderrWrite" "t 1 = Some StdoutWrite"
      "\<forall>q \<in> set (pipe_fds p). t q = None"
      "\<forall>q. q \<notin> set (pipe_fds p) \<and> q \<noteq> 1 \<and> q \<noteq> sint fd \<longrightarrow> t q = bs_fds bs q"
    using child_fds_result [OF pipes(2-5) fd(2,3)] by blast
  have run: "bash_start bs bc e s executable =
      Script_execs (bc_command bc # bc_argv bc) (bash_env bc supports fd) t"
    using pipes(1) ok fd(1) t(1) bash_vec_args
    by (simp add: bash_start_def bash_child_def supports_def)
  have supp: "bc_usePS4 bc \<longrightarrow> supports"
    using fd(1,2) by (auto simp: xtrace_fd_def supports_def split: if_splits)
  have read: "of_int (max (- (2 ^ 63)) (min (2 ^ 63 - 1) (int (nat (sint fd))))) = fd"
    using fd(2) sint_lt [of fd] by (simp add: min_def max_def)
  have "0 \<le> sint fd" using fd(2) by simp
  note env = script_environ_lookup [OF strings this, of supports env0]
  have "tracefd_cloexec (script_environ bc supports fd env0) = Some fd"
    using env supp env0 read
    by (cases "bc_usePS4 bc") (simp_all add: tracefd_cloexec_def strtol_end_def scanf_int_fmt_nat)
  then show ?thesis using run t unfolding script_environ_def by blast
qed

definition demo_bash_sys :: bash_sys where
  "demo_bash_sys =
     \<lparr> bs_pipes = Some \<lparr> stderr_r = 3, stderr_w = 4, stdout_r = 5, stdout_w = 6 \<rparr>, bs_command_exists = True,
       bs_popen = Some ''5.2.15'', bs_write_ok = \<lambda>_. True, bs_fork = 0, bs_fdopen = True, bs_rlim = Some 1024,
       bs_freebsd = False,
       bs_fds = [0 \<mapsto> Inherited 0, 3 \<mapsto> StderrRead, 4 \<mapsto> StderrWrite, 5 \<mapsto> StdoutRead, 6 \<mapsto> StdoutWrite],
       bs_exec_ok = True, bs_dir = \<lambda>_. None \<rparr>"

definition demo_bash_conf :: bash_conf where
  "demo_bash_conf =
     \<lparr> bc_command = ''bash'', bc_usePS4 = True, bc_handle_sh = False, bc_cloexec = True, bc_force_stderr = False,
       bc_argv = [''x.sh'', ''a''], bc_baseDirectory = ''/o/'', bc_use_basic = False, bc_parse_dirs = [],
       bc_parse_binary_dir = None \<rparr>"

definition start_script_env :: script_env where
  "start_script_env = \<lparr> se_getLines = \<lambda>_. [], se_getCrc = \<lambda>_. 0, se_std_hash = \<lambda>_. 0, se_rp = id \<rparr>"

lemma demo_bash_supports: "bashCanHandleXtraceFd demo_bash_conf (bs_popen demo_bash_sys)"
  by code_simp

theorem bash_child_traced_witness:
  "\<exists>env t. bash_start demo_bash_sys demo_bash_conf start_script_env mk_ScriptEngine ''x.sh'' =
             Script_execs [''bash'', ''x.sh'', ''a''] env t \<and> t 256 = Some StderrWrite \<and> t 1 = Some StdoutWrite \<and>
             tracefd_cloexec (foldl doSetenv (\<lambda>_. None) env) = Some 256"
proof -
  have "xtrace_fd (bs_freebsd demo_bash_sys) (bs_rlim demo_bash_sys) (bc_usePS4 demo_bash_conf)
      (bashCanHandleXtraceFd demo_bash_conf (bs_popen demo_bash_sys)) = Some 256"
    using demo_bash_supports by (simp add: xtrace_fd_def) (simp add: demo_bash_sys_def)
  from bash_child_traced [OF _ _ _ _ _ _ _ _ _ this, of _ "\<lambda>_. None" start_script_env mk_ScriptEngine "''x.sh''"]
  show ?thesis
    by (fastforce simp: demo_bash_sys_def demo_bash_conf_def pipe_fds_def NUL_def)
qed

lemma c_str_terminated: "c_str (s @ NUL # t) = c_str s"
  unfolding c_str_def by (induction s) auto

text \<open>
  Property C27. The redirector library and the files it looks at. A call of \<open>execve\<close> with a file of fewer than
  128 bytes, or one that cannot be opened, is passed on unchanged unless its first bytes name a
  shell, in which case bash is executed on it, with the trace option unless the debug trap is in
  use, and with all of \<open>argv\<close>, its first element included, as arguments. With a file of 128 bytes
  or more the library writes behind its buffer, which is undefined.
\<close>

theorem redirector_execve_result:
  assumes "length garbage = 128" and "length argv + 4 \<le> length heap"
  shows "redirector_execve kcovBash debugTrap content garbage heap filename argv =
    (case content of
       None \<Rightarrow> Some (filename, argv)
     | Some d \<Rightarrow>
         if length d \<ge> 128 then None
         else if kcovBash \<and> length d \<ge> 6 \<and>
                 (\<exists>sh \<in> {''/bin/sh'', ''/bin/bash'', ''/bin/ash'', ''/bin/dash''}. sublist sh (c_str d))
         then Some (''/bin/bash'', ''/bin/bash'' # (if debugTrap then [] else [''-x'']) @ filename # argv)
         else Some (filename, argv))"
proof (cases content)
  case None
  then show ?thesis by (simp add: redirector_execve_def start_bytes_def looks_like_shell_def)
next
  case (Some d)
  show ?thesis
  proof (cases "length d \<ge> 128")
    case True
    then show ?thesis using Some by (simp add: redirector_execve_def start_bytes_def Let_def)
  next
    case False
    define buf where "buf = ((d @ drop (length d) garbage)[127 := NUL])[length d := NUL]"
    have sb: "start_bytes (Some d) garbage = Some (int (length d), buf)"
      using False by (simp add: start_bytes_def Let_def buf_def)
    have "take (length d) buf = d" "length d < length buf" "buf ! length d = NUL"
      using False assms(1) by (simp_all add: buf_def take_update_swap list_update_beyond)
    then have "buf = d @ NUL # drop (Suc (length d)) buf" by (metis id_take_nth_drop)
    then have "c_str buf = c_str d" using c_str_terminated by metis
    then show ?thesis
      using Some False assms(2) replacement_argv_args [of "take (length argv + 4) heap" argv debugTrap filename]
      by (auto simp: redirector_execve_def sb looks_like_shell_def str_contains_iff)
  qed
qed

theorem redirector_execve_result_witness:
  "redirector_execve True False (Some ''#!/bin/sh'') (replicate 128 NUL) (replicate 6 None) ''./x'' [''x'', ''a''] =
     Some (''/bin/bash'', [''/bin/bash'', ''-x'', ''./x'', ''x'', ''a'']) \<and>
   redirector_execve True False (Some (replicate 128 (CHR ''#''))) (replicate 128 NUL) (replicate 5 None) ''./x'' [''x''] = None"
proof -
  have "sublist ''/bin/sh'' (c_str ''#!/bin/sh'')"
    by (simp add: c_str_def NUL_def sublist_Cons_right)
  then show ?thesis
    using redirector_execve_result [of "replicate 128 NUL" "[''x'', ''a'']" "replicate 6 None" True False "Some ''#!/bin/sh''" "''./x''"]
      redirector_execve_result [of "replicate 128 NUL" "[''x'']" "replicate 5 None" True False "Some (replicate 128 (CHR ''#''))" "''./x''"]
    by simp
qed

text \<open>
  The buffers that \<open>peek_file\<close> and \<open>read_file\<close> return are long enough for the 80 bytes that the
  script engines make a string of, for a file of any size.
\<close>

lemma matchFile_defined:
  assumes "peek_file sys p w = Returns (Some (sz, buf))"
  shows "bash_matchFile p buf \<noteq> None" "python_matchFile p buf \<noteq> None"
  using peek_file_buffer(1) [OF assms] by (simp_all add: bash_matchFile_def python_matchFile_def)

end
