(* ===== verification/Kcov_MainRun.thy ===== *)
theory Kcov_MainRun
  imports Kcov_Main Kcov_Digits
begin

text \<open>
  The functions of \<open>src/src/main.cc\<close> that put a run together, step by step: \<open>runKcov\<close>, \<open>runMergeMode\<close>,
  the daemon mode with its FIFO, and the two system modes over a directory tree.

  \<^item> A run is the list of the steps it takes, each a call into another component, and how it ends.
  \<^item> The output directory of the system mode is the set of its directories and the files written, as
    lists of path components; \<open>mkdir\<close> makes one level only and a file is written only where its
    directory is.
\<close>

section \<open>Steps of a run\<close>

datatype run_object = OCollector | OOutput | OReporter | OSolibHandler | OEngine | OFilter | OBasicFilter

datatype run_step =
    SAddFile string
  | SMkdir string
  | SRegisterWriter writer_kind
  | SInstallSignals
  | SSetupParser
  | SOutputStart
  | SOutputStop
  | SSolibStartup
  | SCollectorRun string
  | SParse
  | SWriteDatabase
  | SDelete run_object

datatype run_end = RPanics | RExits u32 | RReturns u32

text \<open>\<open>do_cleanup\<close> and \<open>ctrlc\<close>\<close>

definition do_cleanup :: "run_step list" where
  "do_cleanup = map SDelete [OCollector, OOutput, OReporter, OSolibHandler, OEngine, OFilter, OBasicFilter]"

definition ctrlc :: "(u32 \<Rightarrow> int option) \<Rightarrow> u32 \<Rightarrow> int option" where
  "ctrlc engine_kill sig = engine_kill sig"

section \<open>\<open>daemonize\<close>\<close>

text \<open>
  The first process waits at the FIFO and exits with the number that is written there, the second
  one exits, the third one goes on with the run. \<open>fifo\<close> is the first line read, \<open>None\<close> when the FIFO
  cannot be opened or read; the buffer has room for 254 characters.
\<close>

definition fifo_status :: "string \<Rightarrow> u32" where
  "fifo_status line =
     (let s = dropWhile isspace (take 254 line); ds = takeWhile (is_digit_in 10) s
      in if ds = [] then 0 else of_nat (min (2 ^ 64 - 1) (digits_value 10 ds)))"

text \<open>What the parent of a process that calls \<open>exit(out)\<close> sees.\<close>

definition exit_status :: "u32 \<Rightarrow> u32" where
  "exit_status out = out AND 0xff"

definition daemonize :: "bool \<Rightarrow> int \<Rightarrow> int \<Rightarrow> string option \<Rightarrow> run_end option" where
  "daemonize mkfifo_ok fork1 fork2 fifo =
     (if \<not> mkfifo_ok then Some RPanics
      else if fork1 < 0 then Some RPanics
      else if fork1 = 0
      then (if fork2 < 0 then Some RPanics else if fork2 > 0 then Some (RExits 0) else None)
      else (case fifo of None \<Rightarrow> Some RPanics | Some line \<Rightarrow> Some (RExits (exit_status (fifo_status line)))))"

section \<open>\<open>runKcov\<close>\<close>

text \<open>
  What a run finds: the first bytes of the file, the parsers and engines with their scores, whether an
  engine is created, the number of other metadata directories, the answers that \<open>daemonize\<close> gets and what the
  collector returns.
\<close>

record run_env =
  re_peek_file :: "string \<Rightarrow> string option"
  re_parsers :: "(string \<Rightarrow> string \<Rightarrow> nat) list"
  re_engine :: "string \<Rightarrow> nat option"
  re_created :: "nat \<Rightarrow> bool"
  re_nMetadata :: u32
  re_mkfifo_ok :: bool
  re_fork1 :: int
  re_fork2 :: int
  re_fifo :: "string option"
  re_collector :: u32
  re_baseDirectory :: string

definition run_setup :: "run_env \<Rightarrow> string \<Rightarrow> u32 \<Rightarrow> bool \<Rightarrow> run_step list" where
  "run_setup re file runningMode coberturaOnly =
     [SAddFile file] @
     (if \<not> coberturaOnly then [SMkdir (re_baseDirectory re @ ''/kcov-merged'')] else []) @
     map SRegisterWriter (run_writers runningMode coberturaOnly (re_nMetadata re)) @
     [SInstallSignals]"

definition run_rest :: "run_env \<Rightarrow> string \<Rightarrow> u32 \<Rightarrow> u32 \<times> run_step list" where
  "run_rest re file runningMode =
     (if runningMode \<noteq> MODE_REPORT_ONLY
      then (re_collector re, [SSetupParser, SOutputStart, SSolibStartup, SCollectorRun file] @ do_cleanup)
      else (0, [SSetupParser, SOutputStart, SSolibStartup, SParse] @ do_cleanup))"

definition runKcov :: "run_env \<Rightarrow> Configuration \<Rightarrow> u32 \<Rightarrow> conf_error + (run_end \<times> run_step list)" where
  "runKcov re c runningMode =
     rbind (keyAsString c ''binary-path'') (\<lambda>bp.
     rbind (keyAsString c ''binary-name'') (\<lambda>bn.
       let file = bp @ bn in
       if matchParser (re_peek_file re) (re_parsers re) file = None then Inr (RReturns 1, [])
       else case re_engine re file of
         None \<Rightarrow> Inr (RPanics, [])
       | Some i \<Rightarrow>
           if \<not> re_created re i then Inr (RReturns 1, [])
           else rbind (keyAsInt c ''cobertura-only'') (\<lambda>cob.
                rbind (keyAsInt c ''daemonize-on-first-process-exit'') (\<lambda>dmn.
                  let setup = run_setup re file runningMode (cob \<noteq> 0)
                  in case (if dmn \<noteq> 0 then daemonize (re_mkfifo_ok re) (re_fork1 re) (re_fork2 re) (re_fifo re)
                              else None) of
                       Some end \<Rightarrow> Inr (end, setup)
                     | None \<Rightarrow> (case run_rest re file runningMode of
                                 (ret, steps) \<Rightarrow> Inr (RReturns ret, setup @ steps))))))"

definition runMergeMode :: "string \<Rightarrow> run_end \<times> run_step list" where
  "runMergeMode base =
     (RReturns 0,
      [SMkdir (base @ ''/kcov-merged'')] @ map SRegisterWriter merge_writers @
      [SOutputStart, SOutputStop, SWriteDatabase, SDelete OOutput])"

section \<open>Recording a directory tree\<close>

definition path_comps :: "string \<Rightarrow> string list" where
  "path_comps p = filter (\<lambda>c. c \<noteq> []) (split (CHR ''/'') p)"

record out_tree =
  ot_dirs :: "string list set"
  ot_files :: "string list set"

definition mkdir_out :: "string \<Rightarrow> out_tree \<Rightarrow> out_tree" where
  "mkdir_out d t =
     (let p = path_comps d
      in if p \<noteq> [] \<and> butlast p \<in> ot_dirs t then t\<lparr>ot_dirs := insert p (ot_dirs t)\<rparr> else t)"

definition write_out :: "string \<Rightarrow> out_tree \<Rightarrow> out_tree" where
  "write_out f t =
     (let p = path_comps f
      in if p \<noteq> [] \<and> butlast p \<in> ot_dirs t then t\<lparr>ot_files := insert p (ot_files t)\<rparr> else t)"

text \<open>
  One file: the parent waits for the child, which makes the directory and instruments the file in a
  run of its own. \<open>instruments\<close> says whether that run gets as far as writing. \<open>fork\<close> gives
  \<open>False\<close> for an error, which is a panic.
\<close>

definition runSystemModeRecordFile ::
  "(Configuration \<Rightarrow> bool) \<Rightarrow> bool \<Rightarrow> Configuration \<Rightarrow> string \<times> string \<times> u32 \<times> u32 \<Rightarrow> out_tree \<Rightarrow>
   conf_error + out_tree" where
  "runSystemModeRecordFile instruments fork c job t =
     (case job of (dir, file, dirMode, mode) \<Rightarrow>
        if \<not> fork then Inl EPanic
        else rbind (record_file_conf c dir file mode) (\<lambda>r.
          case r of
            None \<Rightarrow> Inr t
          | Some (dstDir, c') \<Rightarrow>
              rbind (keyAsString c' ''system-mode-write-file'') (\<lambda>dst.
                let t1 = mkdir_out dstDir t
                in Inr (if instruments c' then write_out dst t1 else t1))))"

fun record_jobs ::
  "(Configuration \<Rightarrow> bool) \<Rightarrow> Configuration \<Rightarrow> (string \<times> string \<times> u32 \<times> u32) list \<Rightarrow> out_tree \<Rightarrow> conf_error + out_tree" where
  "record_jobs instruments c [] t = Inr t"
| "record_jobs instruments c (job # jobs) t =
     rbind (runSystemModeRecordFile instruments True c job t) (\<lambda>t1. record_jobs instruments c jobs t1)"

text \<open>The directory is \<open>None\<close> when it cannot be opened; the result is the exit code with the tree.\<close>

definition runSystemModeRecordDirectory ::
  "(Configuration \<Rightarrow> bool) \<Rightarrow> Configuration \<Rightarrow> string \<Rightarrow> u32 \<Rightarrow> fs_node list option \<Rightarrow> out_tree \<Rightarrow>
   conf_error + (int \<times> out_tree)" where
  "runSystemModeRecordDirectory instruments c base mode dir t =
     (case dir of
        None \<Rightarrow> Inr (-1, t)
      | Some ns \<Rightarrow> rbind (record_jobs instruments c (record_directory base mode ns) t) (\<lambda>t1. Inr (0, t1)))"

definition runSystemModeRecord ::
  "(Configuration \<Rightarrow> bool) \<Rightarrow> (string \<Rightarrow> fs_node list option) \<Rightarrow> bool \<Rightarrow> Configuration \<Rightarrow> out_tree \<Rightarrow>
   conf_error + (int \<times> out_tree)" where
  "runSystemModeRecord instruments fs library_written c t =
     rbind (keyAsString c ''binary-path'') (\<lambda>bp.
     rbind (keyAsString c ''binary-name'') (\<lambda>bn.
     rbind (keyAsString c ''out-directory'') (\<lambda>out.
       let t1 = mkdir_out (out @ ''/lib'') (mkdir_out out t)
       in if \<not> library_written then Inr (-1, t1)
          else runSystemModeRecordDirectory instruments c (bp @ bn) 0x1ed (fs (bp @ bn))
                 (write_out (out @ ''/lib/libkcov_system.so'') t1))))"

section \<open>Reporting\<close>

text \<open>
  \<open>disk\<close> is what \<open>diskToMemory\<close> makes of a file, name and options of the program; the result is that of
  the run in the child, which is not looked at.
\<close>

definition runSystemModeReportFile ::
  "(Configuration \<Rightarrow> 'r) \<Rightarrow> (string \<Rightarrow> (string \<times> string) option) \<Rightarrow> Configuration \<Rightarrow> string \<Rightarrow>
   conf_error + (int \<times> 'r list)" where
  "runSystemModeReportFile run disk c file =
     (case disk file of
        None \<Rightarrow> Inr (-1, [])
      | Some (filename, options) \<Rightarrow>
          rbind (report_file_conf c file filename options) (\<lambda>c'. Inr (0, [run c'])))"

fun report_entries ::
  "(Configuration \<Rightarrow> 'r) \<Rightarrow> (string \<Rightarrow> (string \<times> string) option) \<Rightarrow> Configuration \<Rightarrow> string \<Rightarrow> fs_node list \<Rightarrow>
   conf_error + 'r list" where
  "report_entries run disk c base [] = Inr []"
| "report_entries run disk c base (FReg name m # ns) =
     rbind (runSystemModeReportFile run disk c (base @ ''/'' @ name)) (\<lambda>(_, rs).
     rbind (report_entries run disk c base ns) (\<lambda>rs'. Inr (rs @ rs')))"
| "report_entries run disk c base (FDir name m sub # ns) = report_entries run disk c base ns"
| "report_entries run disk c base (FOther name # ns) = report_entries run disk c base ns"

definition runSystemModeReportDirectory ::
  "(Configuration \<Rightarrow> 'r) \<Rightarrow> (string \<Rightarrow> (string \<times> string) option) \<Rightarrow> Configuration \<Rightarrow> string \<Rightarrow> fs_node list option \<Rightarrow>
   conf_error + (int \<times> 'r list)" where
  "runSystemModeReportDirectory run disk c base dir =
     (case dir of
        None \<Rightarrow> Inr (-1, [])
      | Some ns \<Rightarrow> rbind (report_entries run disk c base ns) (\<lambda>rs. Inr (0, rs)))"

definition runSystemModeReport ::
  "(Configuration \<Rightarrow> 'r) \<Rightarrow> (string \<Rightarrow> (string \<times> string) option) \<Rightarrow> (string \<Rightarrow> fs_node list option) \<Rightarrow>
   Configuration \<Rightarrow> conf_error + (int \<times> 'r list)" where
  "runSystemModeReport run disk fs c =
     rbind (keyAsString c ''binary-path'') (\<lambda>bp.
     rbind (keyAsString c ''binary-name'') (\<lambda>bn.
       runSystemModeReportDirectory run disk c (bp @ bn) (fs (bp @ bn))))"

end
