(* ===== verification/Kcov_MainRun_Props.thy ===== *)
theory Kcov_MainRun_Props
  imports Kcov_MainRun
begin

text \<open>
  The exit status of the first process reaches whoever started a kcov that goes into the
  background; the order of the steps of a run; and which files the recording of a directory tree
  writes.
\<close>

section \<open>The daemon mode\<close>

lemma fifo_status_fmt_u: "fifo_status (fmt_u w) = w"
proof -
  have "take 254 (fmt_u w) = fmt_u w" using fmt_u_length [of w] by simp
  moreover have "unat w < 2 ^ 32" using unsigned_less [of w] by simp
  ultimately show ?thesis
    by (simp add: fifo_status_def Let_def fmt_u_def fmt_nat_dropWhile fmt_nat_takeWhile fmt_nat_nonempty
        digits_value_fmt_nat min_def)
qed

text \<open>
  Property C28. In daemon mode the exit status of the first process arrives. When the first traced process
  exits, the collector writes one number to the FIFO of the target directory, and the waiting
  kcov, which reads it as its first line, exits with that status, of which the system keeps eight bits.
\<close>

theorem daemon_exit_status:
  assumes "cc_daemonize_on_first_process_exit cf" and "0 < fork1"
  shows "\<exists>content. snd (onEvent cf c (mk_Event ev_exit_first_process code addr)) =
             [CWriteFile content (cc_target_directory cf @ ''/done.fifo'')] \<and>
           daemonize True fork1 fork2 (Some content) = Some (RExits (code AND 0xff))"
  using assms by (simp add: onEvent_def mk_Event_def daemonize_def fifo_status_fmt_u exit_status_def)
theorem daemon_exit_status_witness:
  "daemonize True 17 0 (Some ''3'') = Some (RExits 3)"
proof -
  have "\<exists>content. snd (onEvent \<lparr> cc_daemonize_on_first_process_exit = True, cc_target_directory = ''/t'' \<rparr> mk_Collector
        (mk_Event ev_exit_first_process 3 0)) = [CWriteFile content ''/t/done.fifo''] \<and>
      daemonize True 17 0 (Some content) = Some (RExits (3 AND 0xff))"
    using daemon_exit_status [of "\<lparr> cc_daemonize_on_first_process_exit = True, cc_target_directory = ''/t'' \<rparr>" 17 mk_Collector 3 0 0]
    by simp
  moreover have "fmt_u 3 = ''3''" by code_simp
  ultimately show ?thesis by (auto simp: onEvent_def mk_Event_def)
qed

section \<open>The order of a run\<close>

definition registered :: "run_step list \<Rightarrow> writer_kind list" where
  "registered steps = concat (map (\<lambda>s. case s of SRegisterWriter w \<Rightarrow> [w] | _ \<Rightarrow> []) steps)"

lemma registered_simps [simp]:
  "registered (s @ t) = registered s @ registered t" "registered (map SRegisterWriter ws) = ws"
  "registered (SAddFile f # s) = registered s" "registered (SMkdir d # s) = registered s"
  "registered [] = []" "registered (SInstallSignals # s) = registered s"
  by (induction ws) (auto simp: registered_def)

text \<open>
  When a run is carried through, its writers are those of the mode, all registered before the output
  is started, the output is running before anything is traced, and the collector and the output
  are gone before the objects they use.
\<close>

lemma daemonize_ends: "daemonize ok f1 f2 fifo \<noteq> Some (RReturns r)"
  by (simp add: daemonize_def split: option.splits)

lemma runKcov_steps:
  assumes "runKcov re c mode = Inr (RReturns ret, steps)" and "steps \<noteq> []"
  shows "\<exists>file cob pre run. steps = pre @ [SSetupParser, SOutputStart, SSolibStartup, run] @ do_cleanup \<and>
           registered pre = run_writers mode cob (re_nMetadata re) \<and>
           (if mode = MODE_REPORT_ONLY then run = SParse \<and> ret = 0
            else run = SCollectorRun file \<and> ret = re_collector re)"
proof -
  have "\<exists>fl cob. Inr (RReturns ret, steps) = (Inr (RReturns (fst (run_rest re fl mode)),
      run_setup re fl mode cob @ snd (run_rest re fl mode)) :: conf_error + (run_end \<times> run_step list))"
    using assms unfolding runKcov_def rbind_Inr_iff Let_def
    by (elim exE conjE) (auto simp: rbind_Inr_iff daemonize_ends case_prod_beta split: if_splits option.splits)
  then obtain fl cob where run: "steps = run_setup re fl mode cob @ snd (run_rest re fl mode)"
      "ret = fst (run_rest re fl mode)"
    by blast
  have "registered (run_setup re fl mode cob) = run_writers mode cob (re_nMetadata re)"
    by (simp add: run_setup_def)
  then show ?thesis
    using run unfolding run_rest_def by (cases "mode = MODE_REPORT_ONLY") (auto intro!: exI [of _ "run_setup re fl mode cob"])
qed

lemma runMergeMode_steps:
  "registered (snd (runMergeMode base)) = merge_writers @ registered [SOutputStart, SOutputStop, SWriteDatabase, SDelete OOutput]"
  by (simp add: runMergeMode_def)

section \<open>Recording\<close>

text \<open>Where a file of the tree goes: the directory made for it and the file, relative to nothing.\<close>

definition job_target :: "Configuration \<Rightarrow> string \<times> string \<times> u32 \<times> u32 \<Rightarrow> (string list \<times> string list) option" where
  "job_target c job =
     (case job of (dir, file, _, mode) \<Rightarrow>
        (case record_file_conf c dir file mode of
           Inr (Some (dstDir, c')) \<Rightarrow>
             (case keyAsString c' ''system-mode-write-file'' of
                Inr dst \<Rightarrow> Some (path_comps dstDir, path_comps dst) | Inl _ \<Rightarrow> None)
         | _ \<Rightarrow> None))"

text \<open>A target is well formed when the file is directly in the directory made for it.\<close>

definition target_ok :: "string list \<times> string list \<Rightarrow> bool" where
  "target_ok t \<longleftrightarrow> fst t \<noteq> [] \<and> snd t \<noteq> [] \<and> butlast (snd t) = fst t"

lemma record_file_step:
  assumes "job_target c job = Some (d, f)" and "target_ok (d, f)" and "butlast d \<in> ot_dirs t"
  shows "runSystemModeRecordFile (\<lambda>_. True) True c job t =
           Inr \<lparr> ot_dirs = insert d (ot_dirs t), ot_files = insert f (ot_files t) \<rparr>"
proof -
  obtain dir fl dm m where job: "job = (dir, fl, dm, m)" by (cases job)
  obtain dstDir c' dst where r: "record_file_conf c dir fl m = Inr (Some (dstDir, c'))"
      "keyAsString c' ''system-mode-write-file'' = Inr dst" "d = path_comps dstDir" "f = path_comps dst"
    using assms(1) by (auto simp: job job_target_def split: sum.splits option.splits)
  then show ?thesis
    using assms(2,3) by (simp add: runSystemModeRecordFile_def job target_ok_def mkdir_out_def write_out_def Let_def)
qed

text \<open>
  Every file is written when the directory above that of each file is there from the start, or is
  the directory of a file that comes before.
\<close>

lemma record_jobs_written:
  assumes "\<forall>i < length jobs. \<exists>d f. job_target c (jobs ! i) = Some (d, f) \<and> target_ok (d, f) \<and>
      (butlast d \<in> ot_dirs t \<or> (\<exists>j < i. \<exists>f'. job_target c (jobs ! j) = Some (butlast d, f')))"
  shows "\<exists>t'. record_jobs (\<lambda>_. True) c jobs t = Inr t' \<and> ot_dirs t \<subseteq> ot_dirs t' \<and> ot_files t \<subseteq> ot_files t' \<and>
      (\<forall>job \<in> set jobs. \<exists>d f. job_target c job = Some (d, f) \<and> f \<in> ot_files t')"
  using assms
proof (induction jobs arbitrary: t)
  case Nil
  then show ?case by simp
next
  case (Cons job jobs)
  obtain d f where job: "job_target c job = Some (d, f)" "target_ok (d, f)" "butlast d \<in> ot_dirs t"
    using Cons.prems by fastforce
  define t1 where "t1 = \<lparr> ot_dirs = insert d (ot_dirs t), ot_files = insert f (ot_files t) \<rparr>"
  have "\<exists>d' f'. job_target c (jobs ! i) = Some (d', f') \<and> target_ok (d', f') \<and>
      (butlast d' \<in> ot_dirs t1 \<or> (\<exists>j < i. \<exists>f''. job_target c (jobs ! j) = Some (butlast d', f'')))"
    if i: "i < length jobs" for i
  proof -
    obtain d' f' where j: "job_target c (jobs ! i) = Some (d', f')" "target_ok (d', f')"
      and above: "butlast d' \<in> ot_dirs t \<or> (\<exists>j < Suc i. \<exists>f''. job_target c ((job # jobs) ! j) = Some (butlast d', f''))"
      using Cons.prems [rule_format, of "Suc i"] i by auto
    from above have "butlast d' \<in> ot_dirs t1 \<or> (\<exists>j < i. \<exists>f''. job_target c (jobs ! j) = Some (butlast d', f''))"
      using job(1) by (auto simp: t1_def less_Suc_eq_0_disj)
    then show ?thesis using j by blast
  qed
  then obtain t' where t': "record_jobs (\<lambda>_. True) c jobs t1 = Inr t'" "ot_dirs t1 \<subseteq> ot_dirs t'" "ot_files t1 \<subseteq> ot_files t'"
      "\<forall>job \<in> set jobs. \<exists>d f. job_target c job = Some (d, f) \<and> f \<in> ot_files t'"
    using Cons.IH [of t1] by blast
  have "record_jobs (\<lambda>_. True) c (job # jobs) t = Inr t'"
    using t'(1) record_file_step [OF job] by (simp add: t1_def)
  moreover have "f \<in> ot_files t'" "ot_dirs t \<subseteq> ot_dirs t'" "ot_files t \<subseteq> ot_files t'"
    using t' by (auto simp: t1_def)
  ultimately show ?case using t'(4) job(1) by auto
qed


text \<open>
  Only one level of directories is made for a file, and none for a directory without executable
  files of its own: in a tree where the only program is \<open>usr/bin/x\<close> it is not written, and the run
  reports success.
\<close>

definition record_conf :: Configuration where
  "record_conf =
     \<lparr> cf_strings = map_of [(''binary-path'', ''/''), (''binary-name'', ''r''), (''out-directory'', ''/o'')],
       cf_ints = (\<lambda>_. None), cf_stringVectors = (\<lambda>_. None), cf_programArgs = [], cf_printUncommon = False,
       cf_listeners = (\<lambda>_. None), cf_notified = [], cf_debug_mask = 0 \<rparr>"

definition record_tree :: "string \<Rightarrow> fs_node list option" where
  "record_tree p =
     (if p = ''/r''
      then Some [FReg ''a'' 0x1ed, FDir ''usr'' 0x1ed (Some [FDir ''bin'' 0x1ed (Some [FReg ''x'' 0x1ed])])] else None)"

lemma record_misses_nested:
  "case runSystemModeRecord (\<lambda>_. True) record_tree True record_conf \<lparr> ot_dirs = {[]}, ot_files = {} \<rparr> of
     Inr (ret, t) \<Rightarrow> ret = 0 \<and> [''o'', ''a''] \<in> ot_files t \<and> [''o'', ''usr'', ''bin'', ''x''] \<notin> ot_files t
   | Inl _ \<Rightarrow> False"
  by code_simp

end
