(* ===== verification/Kcov_MachExc.thy ===== *)
theory Kcov_MachExc
  imports Kcov_Mach "HOL-Library.Monad_Syntax"
begin

text \<open>
  The exception messages of macOS (\<open>src/src/engines/osx/mach_excServer.c\<close>, generated by MIG and part of the
  repository) and the handlers of \<open>mach-engine.cc\<close> they are delivered to.

  \<^item> A message is a buffer of bytes, on a little-endian machine; a structure is the offsets of its
    fields, packed to four bytes. An access outside of the buffer is \<open>None\<close>.
  \<^item> Type checking is on and there is no conversion of integers, as in the system's headers.
  \<^item> The handlers are arguments. They get what the message holds and, where they may set it, return the
    flavor and the number of words of the new state.
\<close>

section \<open>Layout\<close>

definition msg_bits :: nat where "msg_bits = 0"

definition msg_size :: nat where "msg_size = 4"

definition msg_remote_port :: nat where "msg_remote_port = 8"

definition msg_local_port :: nat where "msg_local_port = 12"

definition msg_reserved :: nat where "msg_reserved = 16"

definition msg_id :: nat where "msg_id = 20"

text \<open>
  A request: message body and the two port descriptors where there are any, the exception, the number
  of codes, the codes; where there is a state, its flavor, its length and its words, each as if
  both codes were there. The offsets of a request without ports are not used.
\<close>

record req_layout =
  rl_body :: nat
  rl_thread :: nat
  rl_task :: nat
  rl_exception :: nat
  rl_codeCnt :: nat
  rl_code :: nat
  rl_flavor :: nat
  rl_old_stateCnt :: nat
  rl_old_state :: nat
  rl_size :: nat

definition raise_request :: req_layout where
  "raise_request =
     \<lparr> rl_body = 24, rl_thread = 28, rl_task = 40, rl_exception = 60, rl_codeCnt = 64, rl_code = 68,
       rl_flavor = 84, rl_old_stateCnt = 84, rl_old_state = 84, rl_size = 84 \<rparr>"

definition raise_state_request :: req_layout where
  "raise_state_request =
     \<lparr> rl_body = 24, rl_thread = 24, rl_task = 24, rl_exception = 32, rl_codeCnt = 36, rl_code = 40,
       rl_flavor = 56, rl_old_stateCnt = 60, rl_old_state = 64, rl_size = 64 + 5184 \<rparr>"

definition raise_state_identity_request :: req_layout where
  "raise_state_identity_request =
     \<lparr> rl_body = 24, rl_thread = 28, rl_task = 40, rl_exception = 60, rl_codeCnt = 64, rl_code = 68,
       rl_flavor = 84, rl_old_stateCnt = 88, rl_old_state = 92, rl_size = 92 + 5184 \<rparr>"

definition rep_NDR :: nat where "rep_NDR = 24"

definition rep_RetCode :: nat where "rep_RetCode = 32"

definition rep_flavor :: nat where "rep_flavor = 36"

definition rep_new_stateCnt :: nat where "rep_new_stateCnt = 40"

definition rep_size :: nat where "rep_size = 44 + 5184"

definition sizeof_mig_reply_error :: nat where "sizeof_mig_reply_error = 36"

text \<open>\<open>NDR_record\<close> of a little-endian machine.\<close>

definition NDR_record :: "byte list" where
  "NDR_record = [0, 0, 0, 0, 1, 0, 0, 0]"

section \<open>Codes and constants\<close>

definition MIG_TYPE_ERROR :: u32 where "MIG_TYPE_ERROR = - 300"

definition MIG_BAD_ID :: u32 where "MIG_BAD_ID = - 303"

definition MIG_BAD_ARGUMENTS :: u32 where "MIG_BAD_ARGUMENTS = - 304"

definition MACH_MSGH_BITS_COMPLEX :: u32 where "MACH_MSGH_BITS_COMPLEX = 0x80000000"

definition MACH_RCV_INVALID_TYPE :: u32 where "MACH_RCV_INVALID_TYPE = 0x1000400d"

definition KERN_SUCCESS :: u32 where "KERN_SUCCESS = 0"

section \<open>Checking a request\<close>

definition get32 :: "byte list \<Rightarrow> nat \<Rightarrow> u32 option" where
  "get32 m off = load32 True m off"

definition put32 :: "byte list \<Rightarrow> nat \<Rightarrow> u32 \<Rightarrow> byte list option" where
  "put32 m off v = write_at m off (store True v)"

definition get8 :: "byte list \<Rightarrow> nat \<Rightarrow> byte option" where
  "get8 m off = (if off < length m then Some (m ! off) else None)"

text \<open>A port descriptor has its disposition at byte 10 and its type at byte 11.\<close>

definition port_ok :: "byte list \<Rightarrow> nat \<Rightarrow> bool option" where
  "port_ok m off = do { t \<leftarrow> get8 m (off + 11); d \<leftarrow> get8 m (off + 10); Some (t = 0 \<and> d = 17) }"

definition complex_ok :: "byte list \<Rightarrow> req_layout \<Rightarrow> bool option" where
  "complex_ok m l =
     do {
       bits \<leftarrow> get32 m msg_bits;
       n \<leftarrow> get32 m (rl_body l);
       Some (bits AND MACH_MSGH_BITS_COMPLEX \<noteq> 0 \<and> n = 2)
     }"

text \<open>The size of the fixed part: the arrays are left out.\<close>

definition fixed_size :: "req_layout \<Rightarrow> u32 \<Rightarrow> u32" where
  "fixed_size l arrays = of_nat (rl_size l) - arrays"

definition size_ok :: "req_layout \<Rightarrow> u32 \<Rightarrow> u32 \<Rightarrow> bool" where
  "size_ok l arrays sz = (\<not> (sz < fixed_size l arrays \<or> of_nat (rl_size l) < sz))"

definition check_ports :: "byte list \<Rightarrow> req_layout \<Rightarrow> u32 option" where
  "check_ports m l =
     do {
       t \<leftarrow> port_ok m (rl_thread l);
       if \<not> t then Some MIG_TYPE_ERROR
       else do { k \<leftarrow> port_ok m (rl_task l); Some (if \<not> k then MIG_TYPE_ERROR else 0) }
     }"

definition check_raise :: "byte list \<Rightarrow> u32 option" where
  "check_raise m =
     do {
       let l = raise_request;
       sz \<leftarrow> get32 m msg_size;
       c \<leftarrow> complex_ok m l;
       if \<not> (c \<and> size_ok l 16 sz) then Some MIG_BAD_ARGUMENTS
       else do {
         p \<leftarrow> check_ports m l;
         if p \<noteq> 0 then Some p
         else do {
           cnt \<leftarrow> get32 m (rl_codeCnt l);
           if cnt > 2 then Some MIG_BAD_ARGUMENTS
           else if (sz - fixed_size l 16) div 8 < cnt \<or> sz \<noteq> fixed_size l 16 + 8 * cnt
           then Some MIG_BAD_ARGUMENTS
           else Some 0
         }
       }
     }"

text \<open>
  With a state: the codes are checked against the size, then the state behind them. The second result is
  the distance \<open>In1P - In0P\<close>.
\<close>

definition check_codes_state :: "byte list \<Rightarrow> req_layout \<Rightarrow> u32 \<Rightarrow> (u32 \<times> int) option" where
  "check_codes_state m l sz =
     do {
       cnt \<leftarrow> get32 m (rl_codeCnt l);
       let delta = 8 * cnt;
       if cnt > 2 then Some (MIG_BAD_ARGUMENTS, 0)
       else if (sz - fixed_size l 5200) div 8 < cnt \<or> sz < fixed_size l 5200 + 8 * cnt
       then Some (MIG_BAD_ARGUMENTS, 0)
       else do {
         let sz = sz - delta;
         let in1 = int (unat delta) - 16;
         n \<leftarrow> get32 m (nat (int (rl_old_stateCnt l) + in1));
         if n > 1296 then Some (MIG_BAD_ARGUMENTS, in1)
         else if (sz - fixed_size l 5200) div 4 < n \<or> sz \<noteq> fixed_size l 5200 + 4 * n
         then Some (MIG_BAD_ARGUMENTS, in1)
         else Some (0, in1)
       }
     }"

definition check_raise_state :: "byte list \<Rightarrow> (u32 \<times> int) option" where
  "check_raise_state m =
     do {
       let l = raise_state_request;
       sz \<leftarrow> get32 m msg_size;
       bits \<leftarrow> get32 m msg_bits;
       if bits AND MACH_MSGH_BITS_COMPLEX \<noteq> 0 \<or> \<not> size_ok l 5200 sz then Some (MIG_BAD_ARGUMENTS, 0)
       else check_codes_state m l sz
     }"

definition check_raise_state_identity :: "byte list \<Rightarrow> (u32 \<times> int) option" where
  "check_raise_state_identity m =
     do {
       let l = raise_state_identity_request;
       sz \<leftarrow> get32 m msg_size;
       c \<leftarrow> complex_ok m l;
       if \<not> (c \<and> size_ok l 5200 sz) then Some (MIG_BAD_ARGUMENTS, 0)
       else do {
         p \<leftarrow> check_ports m l;
         if p \<noteq> 0 then Some (p, 0) else check_codes_state m l sz
       }
     }"

section \<open>The routines\<close>

text \<open>
  What a handler is called with: the exception, the memory of the message from the codes on, and the
  number of codes; for a state, also where the state is and how long. It does not change the message
  but for the flavor.
\<close>

record raise_args =
  ra_exception_port :: u32
  ra_thread :: u32
  ra_task :: u32
  ra_exception :: u32
  ra_code :: "byte list"
  ra_codeCnt :: u32

record state_args = raise_args +
  sa_flavor :: u32
  sa_old_state :: "byte list"
  sa_old_stateCnt :: u32

text \<open>\<open>MIG_RETURN_ERROR\<close>\<close>

definition return_error :: "byte list \<Rightarrow> u32 \<Rightarrow> byte list option" where
  "return_error out code = do { o1 \<leftarrow> put32 out rep_RetCode code; write_at o1 rep_NDR NDR_record }"

definition from_offset :: "byte list \<Rightarrow> nat \<Rightarrow> byte list option" where
  "from_offset m off = (if off \<le> length m then Some (drop off m) else None)"

definition X_raise ::
  "(raise_args \<Rightarrow> u32 \<times> 'r) \<Rightarrow> byte list \<Rightarrow> byte list \<Rightarrow> ('r option \<times> byte list) option" where
  "X_raise handler m out =
     do {
       let l = raise_request;
       check \<leftarrow> check_raise m;
       if check \<noteq> 0 then map_option (Pair None) (return_error out check)
       else do {
         port \<leftarrow> get32 m msg_local_port; thread \<leftarrow> get32 m (rl_thread l); task \<leftarrow> get32 m (rl_task l);
         exc \<leftarrow> get32 m (rl_exception l); code \<leftarrow> from_offset m (rl_code l); cnt \<leftarrow> get32 m (rl_codeCnt l);
         let (ret, r) = handler
           \<lparr> ra_exception_port = port, ra_thread = thread, ra_task = task, ra_exception = exc, ra_code = code,
             ra_codeCnt = cnt \<rparr>;
         o1 \<leftarrow> put32 out rep_RetCode ret;
         o2 \<leftarrow> write_at o1 rep_NDR NDR_record;
         Some (Some r, o2)
       }
     }"

definition state_reply ::
  "(state_args \<Rightarrow> u32 \<times> u32 \<times> u32 \<times> 'r) \<Rightarrow> req_layout \<Rightarrow> (u32 \<times> u32) \<Rightarrow> int \<Rightarrow> byte list \<Rightarrow> byte list \<Rightarrow>
   ('r option \<times> byte list) option" where
  "state_reply handler l ports in1 m out =
     do {
       o1 \<leftarrow> put32 out rep_new_stateCnt 1296;
       port \<leftarrow> get32 m msg_local_port;
       exc \<leftarrow> get32 m (rl_exception l); code \<leftarrow> from_offset m (rl_code l); cnt \<leftarrow> get32 m (rl_codeCnt l);
       flavor \<leftarrow> get32 m (nat (int (rl_flavor l) + in1));
       st \<leftarrow> from_offset m (nat (int (rl_old_state l) + in1));
       n \<leftarrow> get32 m (nat (int (rl_old_stateCnt l) + in1));
       let (ret, flavor', cnt', r) = handler
         \<lparr> ra_exception_port = port, ra_thread = fst ports, ra_task = snd ports, ra_exception = exc, ra_code = code, ra_codeCnt = cnt,
           sa_flavor = flavor, sa_old_state = st, sa_old_stateCnt = n \<rparr>;
       o2 \<leftarrow> put32 o1 rep_new_stateCnt cnt';
       o3 \<leftarrow> put32 o2 rep_RetCode ret;
       if ret \<noteq> KERN_SUCCESS then map_option (Pair (Some r)) (return_error o3 ret)
       else do {
         o4 \<leftarrow> write_at o3 rep_NDR NDR_record;
         o5 \<leftarrow> put32 o4 rep_flavor flavor';
         o6 \<leftarrow> put32 o5 msg_size (of_nat (rep_size - 5184) + 4 * cnt');
         Some (Some r, o6)
       }
     }"

definition X_raise_state ::
  "(state_args \<Rightarrow> u32 \<times> u32 \<times> u32 \<times> 'r) \<Rightarrow> byte list \<Rightarrow> byte list \<Rightarrow> ('r option \<times> byte list) option" where
  "X_raise_state handler m out =
     do {
       (check, in1) \<leftarrow> check_raise_state m;
       if check \<noteq> 0 then map_option (Pair None) (return_error out check)
       else state_reply handler raise_state_request (0, 0) in1 m out
     }"

definition X_raise_state_identity ::
  "(state_args \<Rightarrow> u32 \<times> u32 \<times> u32 \<times> 'r) \<Rightarrow> byte list \<Rightarrow> byte list \<Rightarrow> ('r option \<times> byte list) option" where
  "X_raise_state_identity handler m out =
     do {
       (check, in1) \<leftarrow> check_raise_state_identity m;
       if check \<noteq> 0 then map_option (Pair None) (return_error out check)
       else do {
         thread \<leftarrow> get32 m (rl_thread raise_state_identity_request);
         task \<leftarrow> get32 m (rl_task raise_state_identity_request);
         state_reply handler raise_state_identity_request (thread, task) in1 m out
       }
     }"

section \<open>The server\<close>

definition reply_bits :: "u32 \<Rightarrow> u32" where
  "reply_bits bits = bits AND 0x1f"

text \<open>The header of the reply, with the minimal size.\<close>

definition reply_header :: "byte list \<Rightarrow> byte list \<Rightarrow> byte list option" where
  "reply_header m out =
     do {
       bits \<leftarrow> get32 m msg_bits; port \<leftarrow> get32 m msg_remote_port; i \<leftarrow> get32 m msg_id;
       o1 \<leftarrow> put32 out msg_bits (reply_bits bits);
       o2 \<leftarrow> put32 o1 msg_remote_port port;
       o3 \<leftarrow> put32 o2 msg_size (of_nat sizeof_mig_reply_error);
       o4 \<leftarrow> put32 o3 msg_local_port 0;
       o5 \<leftarrow> put32 o4 msg_id (i + 100);
       put32 o5 msg_reserved 0
     }"

text \<open>\<open>mach_exc_server_routine\<close>: the index of a routine in the table, \<open>None\<close> for a null pointer.\<close>

definition mach_exc_server_routine :: "u32 \<Rightarrow> nat option" where
  "mach_exc_server_routine i =
     (let k = sint (i - 2405) in if k > 2 \<or> k < 0 then None else Some (nat k))"

record 'r exc_handlers =
  eh_raise :: "raise_args \<Rightarrow> u32 \<times> 'r"
  eh_raise_state :: "state_args \<Rightarrow> u32 \<times> u32 \<times> u32 \<times> 'r"
  eh_raise_state_identity :: "state_args \<Rightarrow> u32 \<times> u32 \<times> u32 \<times> 'r"

text \<open>The result, what the handler returned if it was called, and the reply.\<close>

definition mach_exc_server ::
  "'r exc_handlers \<Rightarrow> byte list \<Rightarrow> byte list \<Rightarrow> (bool \<times> 'r option \<times> byte list) option" where
  "mach_exc_server h m out =
     do {
       o1 \<leftarrow> reply_header m out;
       i \<leftarrow> get32 m msg_id;
       if sint i > 2407 \<or> sint i < 2405
       then do {
         o2 \<leftarrow> write_at o1 rep_NDR NDR_record;
         o3 \<leftarrow> put32 o2 rep_RetCode MIG_BAD_ID;
         Some (False, None, o3)
       }
       else map_option (Pair True)
         (if i = 2405 then X_raise (eh_raise h) m o1
          else if i = 2406 then X_raise_state (eh_raise_state h) m o1
          else X_raise_state_identity (eh_raise_state_identity h) m o1)
     }"

section \<open>The handlers of the engine\<close>

definition EXC_BAD_ACCESS :: u32 where "EXC_BAD_ACCESS = 1"

definition EXC_SOFTWARE :: u32 where "EXC_SOFTWARE = 5"

definition EXC_BREAKPOINT :: u32 where "EXC_BREAKPOINT = 6"

definition EXC_SOFT_SIGNAL :: u64 where "EXC_SOFT_SIGNAL = 0x10003"

text \<open>
  \<open>codes[0]\<close> and \<open>codes[1]\<close> are read whatever the number of codes is; a read behind the end of the buffer is
  \<open>None\<close>. \<open>thread_state\<close> is the program counter of a thread, \<open>None\<close> if it cannot be read.
\<close>

definition exc_code :: "byte list \<Rightarrow> nat \<Rightarrow> u64 option" where
  "exc_code bs i = load64 True bs (8 * i)"

definition mach_exc_of :: "(u32 \<Rightarrow> u64 option) \<Rightarrow> raise_args \<Rightarrow> mach_exc option" where
  "mach_exc_of thread_state a =
     (if ra_exception a = EXC_SOFTWARE
      then Option.bind (exc_code (ra_code a) 0) (\<lambda>code.
             if code = EXC_SOFT_SIGNAL then map_option ExcSoftSignal (exc_code (ra_code a) 1) else Some ExcOther)
      else if ra_exception a = EXC_BAD_ACCESS then map_option ExcBadAccess (exc_code (ra_code a) 0)
      else if ra_exception a = EXC_BREAKPOINT then Some (ExcBreakpoint (thread_state (ra_thread a)))
      else Some ExcOther)"

definition KERN_ABORTED :: u32 where "KERN_ABORTED = 14"

definition catch_mach_exception_raise ::
  "mach_arch \<Rightarrow> MachEngine \<Rightarrow> vm \<Rightarrow> (u32 \<Rightarrow> u64 option) \<Rightarrow> raise_args \<Rightarrow> u32 \<times> (exc_result \<times> vm) option" where
  "catch_mach_exception_raise ar e w thread_state a =
     (let r = Option.bind (mach_exc_of thread_state a) (CatchMachExceptionRaise ar e w)
      in (case r of None \<Rightarrow> 0 | Some (er, _) \<Rightarrow> if er_success er then KERN_SUCCESS else KERN_ABORTED, r))"

definition catch_mach_exception_raise_state :: "state_args \<Rightarrow> u32 \<times> u32 \<times> u32 \<times> 'r option" where
  "catch_mach_exception_raise_state a = (MACH_RCV_INVALID_TYPE, sa_flavor a, 1296, None)"

definition catch_mach_exception_raise_state_identity :: "state_args \<Rightarrow> u32 \<times> u32 \<times> u32 \<times> 'r option" where
  "catch_mach_exception_raise_state_identity a = (MACH_RCV_INVALID_TYPE, sa_flavor a, 1296, None)"

definition engine_handlers ::
  "mach_arch \<Rightarrow> MachEngine \<Rightarrow> vm \<Rightarrow> (u32 \<Rightarrow> u64 option) \<Rightarrow> (exc_result \<times> vm) option exc_handlers" where
  "engine_handlers ar e w thread_state =
     \<lparr> eh_raise = catch_mach_exception_raise ar e w thread_state,
       eh_raise_state = catch_mach_exception_raise_state,
       eh_raise_state_identity = catch_mach_exception_raise_state_identity \<rparr>"

end
