(* ===== verification/Kcov_MachExc_Props.thy ===== *)
theory Kcov_MachExc_Props
  imports Kcov_MachExc
begin

text \<open>
  The server of exception messages never reads or writes outside of the buffers of the engine, what
  it passes on lies inside the message, and an exception of the kernel reaches its handler.
\<close>

section \<open>Reading and writing fields\<close>

lemma get32_defined: "off + 4 \<le> length m \<Longrightarrow> \<exists>v. get32 m off = Some v"
  by (simp add: get32_def load32_def read_at_def)

lemma get8_defined: "off < length m \<Longrightarrow> \<exists>v. get8 m off = Some v"
  by (simp add: get8_def)

lemma write_at_defined: "off + length bs \<le> length m \<Longrightarrow> \<exists>m'. write_at m off bs = Some m' \<and> length m' = length m"
  by (simp add: write_at_def)

lemma put32_defined: "off + 4 \<le> length m \<Longrightarrow> \<exists>m'. put32 m off v = Some m' \<and> length m' = length m"
  using write_at_defined [of off "store True v" m] by (simp add: put32_def)

text \<open>
  A chain of accesses is defined when each is, and a reply keeps its length on the way.
\<close>

definition reply_ok :: "nat \<Rightarrow> ('r option \<times> byte list) option \<Rightarrow> bool" where
  "reply_ok n x \<longleftrightarrow> (\<exists>r o'. x = Some (r, o') \<and> length o' = n)"

lemma bind_get32: "off + 4 \<le> length m \<Longrightarrow> (\<And>v. get32 m off = Some v \<Longrightarrow> P (f v)) \<Longrightarrow> P (Option.bind (get32 m off) f)"
  using get32_defined [of off m] by auto

lemma bind_put32:
  "off + 4 \<le> length m \<Longrightarrow> (\<And>m'. length m' = length m \<Longrightarrow> P (f m')) \<Longrightarrow> P (Option.bind (put32 m off v) f)"
  using put32_defined [of off m v] by auto

lemma bind_write_at:
  "off + length bs \<le> length m \<Longrightarrow> (\<And>m'. length m' = length m \<Longrightarrow> P (f m')) \<Longrightarrow> P (Option.bind (write_at m off bs) f)"
  using write_at_defined [of off bs m] by auto

lemma bind_from_offset:
  "off \<le> length m \<Longrightarrow> P (f (drop off m)) \<Longrightarrow> P (Option.bind (from_offset m off) f)"
  by (simp add: from_offset_def)

lemmas layout_defs = raise_request_def raise_state_request_def raise_state_identity_request_def
  msg_bits_def msg_size_def msg_remote_port_def msg_local_port_def msg_reserved_def msg_id_def
  rep_NDR_def rep_RetCode_def rep_flavor_def rep_new_stateCnt_def

lemma length_NDR [simp]: "length NDR_record = 8"
  by (simp add: NDR_record_def)

lemma port_ok_defined: "off + 11 < length m \<Longrightarrow> \<exists>b. port_ok m off = Some b"
  using get8_defined [of "off + 11" m] get8_defined [of "off + 10" m] by (auto simp: port_ok_def)

lemma complex_ok_defined: "rl_body l + 4 \<le> length m \<Longrightarrow> 4 \<le> length m \<Longrightarrow> \<exists>b. complex_ok m l = Some b"
  using get32_defined [of msg_bits m] get32_defined [of "rl_body l" m] by (auto simp: complex_ok_def msg_bits_def)

lemma check_ports_defined:
  assumes "rl_thread l + 11 < length m" "rl_task l + 11 < length m"
  shows "\<exists>r. check_ports m l = Some r"
  using port_ok_defined [OF assms(1)] port_ok_defined [OF assms(2)] by (auto simp: check_ports_def)

lemma return_error_defined: "36 \<le> length out \<Longrightarrow> \<exists>o'. return_error out c = Some o' \<and> length o' = length out"
  unfolding return_error_def
proof (rule bind_put32)
  fix m' :: "byte list" assume "36 \<le> length out" "length m' = length out"
  then show "\<exists>o'. write_at m' rep_NDR NDR_record = Some o' \<and> length o' = length out"
    using write_at_defined [of rep_NDR NDR_record m'] by (simp add: rep_NDR_def)
qed (simp add: rep_RetCode_def)

section \<open>Checked requests\<close>

text \<open>What a request that passes its check has said about its size.\<close>

lemma check_raise_result:
  assumes "128 \<le> length m"
  shows "\<exists>r. check_raise m = Some r \<and>
           (r = 0 \<longrightarrow> (\<exists>size cnt. get32 m msg_size = Some size \<and> get32 m 64 = Some cnt \<and>
              cnt \<le> 2 \<and> unat size = 68 + 8 * unat cnt))"
proof -
  obtain sz where sz: "get32 m 4 = Some sz" using get32_defined [of 4 m] assms by auto
  obtain c where c: "complex_ok m raise_request = Some c"
    using complex_ok_defined [of raise_request m] assms by (auto simp: raise_request_def)
  obtain p where p: "check_ports m raise_request = Some p"
    using check_ports_defined [of raise_request m] assms by (auto simp: raise_request_def)
  obtain cnt where cnt: "get32 m 64 = Some cnt" using get32_defined [of 64 m] assms by auto
  have fixed: "fixed_size raise_request 16 = 68" by (simp add: fixed_size_def raise_request_def)
  have l: "rl_codeCnt raise_request = 64" by (simp add: raise_request_def)
  have small: "unat (68 + 8 * cnt) = 68 + 8 * unat cnt" if "cnt \<le> 2"
  proof -
    have "unat cnt \<le> 2" using that by (simp add: word_le_nat_alt)
    then show ?thesis by (simp add: unat_word_ariths)
  qed
  have args: "MIG_BAD_ARGUMENTS \<noteq> 0" by (simp add: MIG_BAD_ARGUMENTS_def)
  show ?thesis
    using sz c p cnt args small
    by (simp add: check_raise_def msg_size_def fixed l linorder_not_less Let_def)
qed


definition state_fits :: "byte list \<Rightarrow> req_layout \<Rightarrow> int \<Rightarrow> bool" where
  "state_fits m l in1 \<longleftrightarrow>
     (\<exists>size cnt n. get32 m msg_size = Some size \<and> get32 m (rl_codeCnt l) = Some cnt \<and>
        get32 m (nat (int (rl_old_stateCnt l) + in1)) = Some n \<and> cnt \<le> 2 \<and> n \<le> 1296 \<and>
        in1 = 8 * int (unat cnt) - 16 \<and> int (unat size) = int (rl_old_state l) + in1 + 4 * int (unat n))"

text \<open>The arithmetic of the two comparisons, which does not wrap around once the sizes are checked.\<close>

lemma state_size_exact:
  fixes sz cnt n :: u32
  assumes "unat base \<le> 76" "cnt \<le> 2" "n \<le> 1296" "\<not> sz < base + 8 * cnt" "sz - 8 * cnt = base + 4 * n"
  shows "unat sz = unat base + 8 * unat cnt + 4 * unat n"
proof -
  have le: "unat cnt \<le> 2" "unat n \<le> 1296" using assms(2,3) by (simp_all add: word_le_nat_alt)
  have "sz = base + 4 * n + 8 * cnt" using assms(5) by (metis diff_add_cancel)
  moreover have "unat (4 * n) = 4 * unat n" "unat (8 * cnt) = 8 * unat cnt"
    using le by (simp_all add: unat_word_ariths)
  ultimately show ?thesis using le assms(1) by (simp add: unat_word_ariths)
qed

lemma check_codes_state_result:
  assumes len: "128 \<le> length m" and l: "rl_codeCnt l \<le> 64" "16 \<le> rl_old_stateCnt l" "rl_old_stateCnt l \<le> 88"
    and size: "get32 m msg_size = Some sz" and base: "rl_size l = rl_old_state l + 5184" "16 \<le> rl_old_state l"
      "rl_old_state l \<le> 92"
  shows "\<exists>r in1. check_codes_state m l sz = Some (r, in1) \<and> (r = 0 \<longrightarrow> state_fits m l in1)"
proof -
  obtain cnt where cnt: "get32 m (rl_codeCnt l) = Some cnt" using get32_defined [of "rl_codeCnt l" m] len l by auto
  have fixed: "unat (fixed_size l 5200) = rl_old_state l - 16"
  proof -
    have "fixed_size l 5200 = of_nat (rl_old_state l - 16)" using base by (simp add: fixed_size_def)
    moreover have "unat (of_nat (rl_old_state l - 16) :: u32) = rl_old_state l - 16"
      using base(3) by (intro unat_of_nat_small) simp
    ultimately show ?thesis by (simp only:)
  qed
  have args: "MIG_BAD_ARGUMENTS \<noteq> 0" by (simp add: MIG_BAD_ARGUMENTS_def)
  show ?thesis
  proof (cases "cnt \<le> 2")
    case False
    then show ?thesis using cnt args by (simp add: check_codes_state_def linorder_not_le Let_def)
  next
    case True
    then have c: "unat (8 * cnt) = 8 * unat cnt" "unat cnt \<le> 2"
      by (simp_all add: word_le_nat_alt unat_word_ariths)
    define in1 where "in1 = int (unat (8 * cnt)) - 16"
    obtain n where n: "get32 m (nat (int (rl_old_stateCnt l) + in1)) = Some n"
    proof -
      have "int (unat (8 * cnt)) \<le> 16" using c by linarith
      then have "int (rl_old_stateCnt l) + in1 \<le> 88" using l unfolding in1_def by linarith
      then have "nat (int (rl_old_stateCnt l) + in1) \<le> 88" by linarith
      then have "nat (int (rl_old_stateCnt l) + in1) + 4 \<le> length m" using len by linarith
      from get32_defined [OF this] show thesis using that by blast
    qed
    have "state_fits m l in1"
      if "n \<le> 1296" "\<not> sz < fixed_size l 5200 + 8 * cnt" "sz - 8 * cnt = fixed_size l 5200 + 4 * n"
    proof -
      have "unat sz = unat (fixed_size l 5200) + 8 * unat cnt + 4 * unat n"
        using that True fixed base by (intro state_size_exact) simp_all
      then have "int (unat sz) = int (rl_old_state l) + in1 + 4 * int (unat n)"
        using fixed c base(2) unfolding in1_def by linarith
      moreover have "in1 = 8 * int (unat cnt) - 16" using c unfolding in1_def by linarith
      ultimately show ?thesis using size cnt n that(1) True unfolding state_fits_def by blast
    qed
    then show ?thesis
      using cnt n True args unfolding check_codes_state_def in1_def Let_def
      by (auto simp: linorder_not_less linorder_not_le)
  qed
qed

lemma check_raise_state_result:
  assumes "128 \<le> length m"
  shows "\<exists>r in1. check_raise_state m = Some (r, in1) \<and> (r = 0 \<longrightarrow> state_fits m raise_state_request in1)"
proof -
  obtain sz where sz: "get32 m msg_size = Some sz" using get32_defined [of 4 m] assms by (auto simp: msg_size_def)
  obtain bits where bits: "get32 m msg_bits = Some bits" using get32_defined [of 0 m] assms by (auto simp: msg_bits_def)
  have "\<exists>r in1. check_codes_state m raise_state_request sz = Some (r, in1) \<and> (r = 0 \<longrightarrow> state_fits m raise_state_request in1)"
    using assms sz by (intro check_codes_state_result) (simp_all add: raise_state_request_def)
  then show ?thesis using sz bits by (simp add: check_raise_state_def Let_def MIG_BAD_ARGUMENTS_def)
qed

lemma check_raise_state_identity_result:
  assumes "128 \<le> length m"
  shows "\<exists>r in1. check_raise_state_identity m = Some (r, in1) \<and>
           (r = 0 \<longrightarrow> state_fits m raise_state_identity_request in1)"
proof -
  obtain sz where sz: "get32 m msg_size = Some sz" using get32_defined [of 4 m] assms by (auto simp: msg_size_def)
  obtain c where c: "complex_ok m raise_state_identity_request = Some c"
    using complex_ok_defined [of raise_state_identity_request m] assms by (auto simp: raise_state_identity_request_def)
  obtain p where p: "check_ports m raise_state_identity_request = Some p"
    using check_ports_defined [of raise_state_identity_request m] assms by (auto simp: raise_state_identity_request_def)
  have "\<exists>r in1. check_codes_state m raise_state_identity_request sz = Some (r, in1) \<and>
      (r = 0 \<longrightarrow> state_fits m raise_state_identity_request in1)"
    using assms sz by (intro check_codes_state_result) (simp_all add: raise_state_identity_request_def)
  then show ?thesis using sz c p by (simp add: check_raise_state_identity_def Let_def MIG_BAD_ARGUMENTS_def)
qed

section \<open>The routines\<close>

lemma X_raise_ok:
  assumes "128 \<le> length m" and "128 \<le> length out"
  shows "reply_ok (length out) (X_raise handler m out)"
proof -
  obtain r where r: "check_raise m = Some r" using check_raise_result [OF assms(1)] by blast
  obtain p a b c d where g: "get32 m msg_local_port = Some p" "get32 m 28 = Some a" "get32 m 40 = Some b" "get32 m 60 = Some c" "get32 m 64 = Some d"
    using assms get32_defined [of 12 m] get32_defined [of 28 m] get32_defined [of 40 m] get32_defined [of 60 m] get32_defined [of 64 m]
    by (auto simp: msg_local_port_def)
  have f: "from_offset m 68 = Some (drop 68 m)" using assms by (simp add: from_offset_def)
  obtain e where e: "return_error out r = Some e" "length e = length out"
    using return_error_defined [of out r] assms by auto
  obtain ret h where h: "handler \<lparr> ra_exception_port = p, ra_thread = a, ra_task = b, ra_exception = c, ra_code = drop 68 m, ra_codeCnt = d \<rparr> = (ret, h)"
    by fastforce
  obtain o1 where o1: "put32 out rep_RetCode ret = Some o1" "length o1 = length out"
    using put32_defined [of rep_RetCode out ret] assms by (auto simp: rep_RetCode_def)
  obtain o2 where o2: "write_at o1 rep_NDR NDR_record = Some o2" "length o2 = length out"
    using write_at_defined [of rep_NDR NDR_record o1] o1 assms by (auto simp: rep_NDR_def)
  show ?thesis
    using r g f e h o1 o2 by (simp add: X_raise_def raise_request_def Let_def reply_ok_def)
qed

text \<open>The accesses of a routine, one after the other.\<close>

lemma reply_ok_Some [simp]: "reply_ok n (Some (r, o')) \<longleftrightarrow> length o' = n"
  by (simp add: reply_ok_def)

lemma reply_ok_error: "36 \<le> length out \<Longrightarrow> length out = n \<Longrightarrow> reply_ok n (map_option (Pair r) (return_error out c))"
  using return_error_defined [of out c] by (auto simp: reply_ok_def)

lemma reply_ok_handler: "(\<And>a b c d. reply_ok n (f a b c d)) \<Longrightarrow> reply_ok n (case x of (a, b, c, d) \<Rightarrow> f a b c d)"
  by (cases x) simp

lemma reply_ok_if: "(b \<Longrightarrow> reply_ok n x) \<Longrightarrow> (\<not> b \<Longrightarrow> reply_ok n y) \<Longrightarrow> reply_ok n (if b then x else y)"
  by simp

lemmas reply_steps =
  bind_get32 [where P = "reply_ok n" for n] bind_put32 [where P = "reply_ok n" for n]
  bind_write_at [where P = "reply_ok n" for n] bind_from_offset [where P = "reply_ok n" for n]
  reply_ok_handler reply_ok_error reply_ok_if

lemma state_reply_ok:
  assumes "128 \<le> length m" "128 \<le> length out" "- 16 \<le> in1" "in1 \<le> 0"
    and "rl_exception l \<le> 92" "rl_code l \<le> 92" "rl_codeCnt l \<le> 92" "rl_flavor l \<le> 92"
      "rl_old_state l \<le> 92" "rl_old_stateCnt l \<le> 92"
  shows "reply_ok (length out) (state_reply handler l ports in1 m out)"
  unfolding state_reply_def Let_def
  by (intro reply_steps) (use assms in \<open>simp_all add: layout_defs\<close>)

lemma state_fits_in1: "state_fits m l in1 \<Longrightarrow> - 16 \<le> in1 \<and> in1 \<le> 0"
proof -
  assume "state_fits m l in1"
  then obtain cnt :: u32 where cnt: "cnt \<le> 2" "in1 = 8 * int (unat cnt) - 16" unfolding state_fits_def by blast
  have "unat cnt \<le> 2" using cnt(1) by (simp add: word_le_nat_alt)
  then show ?thesis using cnt(2) by linarith
qed

lemma X_raise_state_ok:
  assumes "128 \<le> length m" "128 \<le> length out"
  shows "reply_ok (length out) (X_raise_state handler m out)"
proof -
  obtain r in1 where r: "check_raise_state m = Some (r, in1)" "r = 0 \<Longrightarrow> state_fits m raise_state_request in1"
    using check_raise_state_result [OF assms(1)] by blast
  have "reply_ok (length out) (state_reply handler raise_state_request (0, 0) in1 m out)" if "r = 0"
    using state_fits_in1 [OF r(2) [OF that]] assms by (intro state_reply_ok) (simp_all add: raise_state_request_def)
  then show ?thesis using r(1) assms by (simp add: X_raise_state_def reply_ok_error)
qed

lemma X_raise_state_identity_ok:
  assumes "128 \<le> length m" "128 \<le> length out"
  shows "reply_ok (length out) (X_raise_state_identity handler m out)"
proof -
  let ?l = raise_state_identity_request
  obtain r in1 where r: "check_raise_state_identity m = Some (r, in1)" "r = 0 \<Longrightarrow> state_fits m ?l in1"
    using check_raise_state_identity_result [OF assms(1)] by blast
  have "reply_ok (length out) (state_reply handler ?l p in1 m out)" if "r = 0" for p
    using state_fits_in1 [OF r(2) [OF that]] assms by (intro state_reply_ok) (simp_all add: raise_state_identity_request_def)
  moreover obtain a b where "get32 m (rl_thread ?l) = Some a" "get32 m (rl_task ?l) = Some b"
    using get32_defined [of 28 m] get32_defined [of 40 m] assms by (auto simp: raise_state_identity_request_def)
  ultimately show ?thesis using r(1) assms by (simp add: X_raise_state_identity_def reply_ok_error)
qed

section \<open>The server\<close>

lemma put32_length: "off + 4 \<le> length m \<Longrightarrow> length m = n \<Longrightarrow> \<exists>o'. put32 m off v = Some o' \<and> length o' = n"
  using put32_defined [of off m v] by auto

lemmas header_steps =
  bind_get32 [where P = "\<lambda>x. \<exists>o'. x = Some o' \<and> length o' = n" for n]
  bind_put32 [where P = "\<lambda>x. \<exists>o'. x = Some o' \<and> length o' = n" for n] put32_length

lemma reply_header_defined:
  assumes "24 \<le> length m" "24 \<le> length out"
  shows "\<exists>o'. reply_header m out = Some o' \<and> length o' = length out"
  unfolding reply_header_def
  by (intro header_steps) (use assms in \<open>simp_all add: layout_defs\<close>)

lemma mach_exc_server_length:
  assumes "128 \<le> length m" "128 \<le> length out"
  shows "\<exists>b r o'. mach_exc_server h m out = Some (b, r, o') \<and> length o' = length out"
proof -
  obtain o1 where o1: "reply_header m out = Some o1" "length o1 = length out"
    using reply_header_defined [of m out] assms by auto
  obtain i where i: "get32 m msg_id = Some i" using get32_defined [of 20 m] assms by (auto simp: msg_id_def)
  obtain o2 where o2: "write_at o1 rep_NDR NDR_record = Some o2" "length o2 = length out"
    using write_at_defined [of rep_NDR NDR_record o1] o1 assms by (auto simp: rep_NDR_def)
  obtain o3 where o3: "put32 o2 rep_RetCode MIG_BAD_ID = Some o3" "length o3 = length out"
    using put32_defined [of rep_RetCode o2] o2 assms by (auto simp: rep_RetCode_def)
  have l: "128 \<le> length o1" using o1 assms by simp
  show ?thesis
    using X_raise_ok [OF assms(1) l, of "eh_raise h"] X_raise_state_ok [OF assms(1) l, of "eh_raise_state h"]
      X_raise_state_identity_ok [OF assms(1) l, of "eh_raise_state_identity h"] o1 i o2 o3
    by (auto simp: mach_exc_server_def reply_ok_def)
qed

text \<open>
  Property C32. With the buffers of \<open>continueExecution\<close>, of 128 bytes each, the message server never reads or
  writes outside of a buffer, whatever the message is: the counts of codes and of state words a
  message claims are checked before they are used, and the reply keeps its size.
\<close>

theorem mach_exc_server_safe:
  "length m = 128 \<Longrightarrow> length out = 128 \<Longrightarrow>
   (\<exists>b r o'. mach_exc_server h m out = Some (b, r, o') \<and> length o' = 128) \<and>
   (check_raise m = Some 0 \<longrightarrow> (\<exists>sz. get32 m msg_size = Some sz \<and> unat sz \<le> rl_size raise_request)) \<and>
   (\<forall>in1. check_raise_state m = Some (0, in1) \<longrightarrow> state_fits m raise_state_request in1) \<and>
   (\<forall>in1. check_raise_state_identity m = Some (0, in1) \<longrightarrow> state_fits m raise_state_identity_request in1)"
proof (intro conjI)
  assume len: "length m = 128" "length out = 128"
  show "\<exists>b r o'. mach_exc_server h m out = Some (b, r, o') \<and> length o' = 128"
    using mach_exc_server_length [of m out h] len by simp
  show "check_raise m = Some 0 \<longrightarrow> (\<exists>sz. get32 m msg_size = Some sz \<and> unat sz \<le> rl_size raise_request)"
    using check_raise_result [of m] len by (auto simp: raise_request_def word_le_nat_alt)
  show "\<forall>in1. check_raise_state m = Some (0, in1) \<longrightarrow> state_fits m raise_state_request in1"
    using check_raise_state_result [of m] len by auto
  show "\<forall>in1. check_raise_state_identity m = Some (0, in1) \<longrightarrow> state_fits m raise_state_identity_request in1"
    using check_raise_state_identity_result [of m] len by auto
qed

theorem mach_exc_server_safe_witness:
  "\<exists>b r o'. mach_exc_server (\<lparr> eh_raise = \<lambda>_. (0, ()), eh_raise_state = \<lambda>a. (0, 0, 0, ()),
      eh_raise_state_identity = \<lambda>a. (0, 0, 0, ()) \<rparr>) (replicate 128 255) (replicate 128 0) = Some (b, r, o') \<and>
    length o' = 128"
  by (rule mach_exc_server_safe [of "replicate 128 255" "replicate 128 0", THEN conjunct1]) simp_all

section \<open>A message of the kernel\<close>

text \<open>
  The message for an exception, in words of four bytes: header, two descriptors of ports, representation
  of data, exception and number of codes; the codes follow.
\<close>

definition raise_words :: "u32 \<Rightarrow> u32 \<Rightarrow> u32 \<Rightarrow> u32 \<Rightarrow> u32 \<Rightarrow> u32 \<Rightarrow> u64 list \<Rightarrow> u32 list" where
  "raise_words bits remote local thread task exc codes =
     [MACH_MSGH_BITS_COMPLEX OR bits, 68 + 8 * of_nat (length codes), remote, local, 0, 2405,
      2, thread, 0, 0x00110000, task, 0, 0x00110000, 0, 1, exc, of_nat (length codes)]"

definition words_bytes :: "'a::len word list \<Rightarrow> byte list" where
  "words_bytes ws = concat (map (store True) ws)"

lemma words_bytes_simps [simp]: "words_bytes [] = []" "words_bytes (w # ws) = store True w @ words_bytes ws"
  by (simp_all add: words_bytes_def)

lemma length_words_bytes [simp]: "length (words_bytes (ws :: u32 list)) = 4 * length ws"
  by (induction ws) simp_all

lemma length_words_bytes_64 [simp]: "length (words_bytes (ws :: u64 list)) = 8 * length ws"
  by (induction ws) simp_all

lemma drop_words_bytes:
  "i < length ws \<Longrightarrow> drop (4 * i) (words_bytes (ws :: u32 list) @ rest) = store True (ws ! i) @ words_bytes (drop (Suc i) ws) @ rest"
proof (induction ws arbitrary: i)
  case (Cons w ws)
  then show ?case by (cases i) simp_all
qed simp

lemma get32_words: "i < length ws \<Longrightarrow> get32 (words_bytes (ws :: u32 list) @ rest) (4 * i) = Some (ws ! i)"
  by (simp add: get32_def load32_def read_at_def drop_words_bytes del: drop_append)

lemma get8_words:
  "i < length ws \<Longrightarrow> j < 4 \<Longrightarrow> get8 (words_bytes (ws :: u32 list) @ rest) (4 * i + j) = Some (store True (ws ! i) ! j)"
proof -
  assume ij: "i < length ws" "j < 4"
  then have "(words_bytes ws @ rest) ! (4 * i + j) = drop (4 * i) (words_bytes ws @ rest) ! j"
    by (simp del: drop_append)
  also have "\<dots> = store True (ws ! i) ! j" using ij by (simp add: drop_words_bytes nth_append del: drop_append)
  finally show ?thesis using ij by (simp add: get8_def)
qed

lemma drop_codes:
  "i < length cs \<Longrightarrow> drop (8 * i) (words_bytes (cs :: u64 list) @ rest) = store True (cs ! i) @ words_bytes (drop (Suc i) cs) @ rest"
proof (induction cs arbitrary: i)
  case (Cons c cs)
  then show ?case by (cases i) simp_all
qed simp

lemma exc_code_sent: "i < length cs \<Longrightarrow> exc_code (words_bytes cs @ rest) i = Some (cs ! i)"
  by (simp add: exc_code_def load64_def read_at_def drop_codes del: drop_append)

abbreviation raise_message where
  "raise_message bits remote local thread task exc codes rest \<equiv>
     words_bytes (raise_words bits remote local thread task exc codes) @ words_bytes codes @ rest"

lemma length_raise_words [simp]: "length (raise_words b r l th ta e cs) = 17"
  by (simp add: raise_words_def)

lemma raise_message_word:
  "4 * i = off \<Longrightarrow> i < 17 \<Longrightarrow>
   get32 (raise_message b r l th ta e cs rest) off = Some (raise_words b r l th ta e cs ! i)"
  using get32_words [of i "raise_words b r l th ta e cs" "words_bytes cs @ rest"] by auto

lemma raise_message_words:
  "get32 (raise_message b r l th ta e cs rest) msg_bits = Some (MACH_MSGH_BITS_COMPLEX OR b)"
  "get32 (raise_message b r l th ta e cs rest) msg_size = Some (68 + 8 * of_nat (length cs))"
  "get32 (raise_message b r l th ta e cs rest) msg_remote_port = Some r"
  "get32 (raise_message b r l th ta e cs rest) msg_local_port = Some l"
  "get32 (raise_message b r l th ta e cs rest) msg_id = Some 2405"
  "get32 (raise_message b r l th ta e cs rest) 24 = Some 2"
  "get32 (raise_message b r l th ta e cs rest) 28 = Some th"
  "get32 (raise_message b r l th ta e cs rest) 40 = Some ta"
  "get32 (raise_message b r l th ta e cs rest) 60 = Some e"
  "get32 (raise_message b r l th ta e cs rest) 64 = Some (of_nat (length cs))"
  using raise_message_word [of 0 msg_bits] raise_message_word [of 1 msg_size]
    raise_message_word [of 2 msg_remote_port] raise_message_word [of 3 msg_local_port]
    raise_message_word [of 5 msg_id] raise_message_word [of 6 24] raise_message_word [of 7 28]
    raise_message_word [of 10 40] raise_message_word [of 15 60] raise_message_word [of 16 64]
  by (simp_all add: layout_defs raise_words_def)

lemma port_word: "store True (0x00110000 :: u32) = [0, 0, 17, 0]"
  by code_simp

lemma raise_message_ports:
  "port_ok (raise_message b r l th ta e cs rest) 28 = Some True"
  "port_ok (raise_message b r l th ta e cs rest) 40 = Some True"
  using get8_words [of 9 "raise_words b r l th ta e cs" 3 "words_bytes cs @ rest"]
    get8_words [of 9 "raise_words b r l th ta e cs" 2 "words_bytes cs @ rest"]
    get8_words [of 12 "raise_words b r l th ta e cs" 3 "words_bytes cs @ rest"]
    get8_words [of 12 "raise_words b r l th ta e cs" 2 "words_bytes cs @ rest"]
  by (simp_all add: port_ok_def raise_words_def port_word)

lemma complex_bit: "(MACH_MSGH_BITS_COMPLEX OR b) AND MACH_MSGH_BITS_COMPLEX \<noteq> 0"
proof -
  have "(MACH_MSGH_BITS_COMPLEX OR b) AND MACH_MSGH_BITS_COMPLEX = MACH_MSGH_BITS_COMPLEX"
    by (rule bit_eqI) (auto simp: bit_simps)
  then show ?thesis by (simp add: MACH_MSGH_BITS_COMPLEX_def)
qed

lemma raise_message_accepted:
  assumes "length cs \<le> 2"
  shows "check_raise (raise_message b r l th ta e cs rest) = Some 0"
proof -
  have "complex_ok (raise_message b r l th ta e cs rest) raise_request = Some True"
    using complex_bit by (simp add: complex_ok_def raise_request_def raise_message_words del: words_bytes_simps)
  moreover have "check_ports (raise_message b r l th ta e cs rest) raise_request = Some 0"
    by (simp add: check_ports_def raise_request_def raise_message_ports)
  moreover have "length cs = 0 \<or> length cs = 1 \<or> length cs = 2" using assms by linarith
  ultimately show ?thesis
    by (auto simp: check_raise_def raise_message_words size_ok_def fixed_size_def raise_request_def Let_def)
qed

section \<open>The reply\<close>

lemma get32_put32: "put32 m off v = Some m' \<Longrightarrow> get32 m' off = Some v"
  by (auto simp: put32_def write_at_def get32_def load32_def read_at_def split: if_splits)

lemma read_write_other:
  "write_at m off bs = Some m' \<Longrightarrow> off' + n \<le> off \<or> off + length bs \<le> off' \<Longrightarrow> read_at m' off' n = read_at m off' n"
proof -
  assume w: "write_at m off bs = Some m'" and d: "off' + n \<le> off \<or> off + length bs \<le> off'"
  have fit: "off + length bs \<le> length m" and m': "m' = take off m @ bs @ drop (off + length bs) m"
    using w by (auto simp: write_at_def split: if_splits)
  have "m' ! k = m ! k" if "k < off \<or> off + length bs \<le> k" "k < length m" for k
  proof (cases "k < off")
    case True
    then show ?thesis using that fit unfolding m' by (simp add: nth_append)
  next
    case False
    then have "\<not> k - off < length bs" "min (length m) off = off" using that(1) fit by linarith+
    then show ?thesis using False that fit unfolding m' by (simp add: nth_append)
  qed
  moreover have "length m' = length m" using fit by (simp add: m')
  ultimately show ?thesis using d by (auto simp: read_at_def intro!: nth_equalityI)
qed

lemma get32_write_other:
  "write_at m off bs = Some m' \<Longrightarrow> off' + 4 \<le> off \<or> off + length bs \<le> off' \<Longrightarrow> get32 m' off' = get32 m off'"
  by (simp add: get32_def load32_def read_write_other)

lemma get32_put32_other:
  "put32 m off v = Some m' \<Longrightarrow> off' + 4 \<le> off \<or> off + 4 \<le> off' \<Longrightarrow> get32 m' off' = get32 m off'"
  using get32_write_other [of m off "store True v" m' off'] by (simp add: put32_def)

lemma reply_header_fields:
  assumes "reply_header m out = Some o'" "get32 m msg_remote_port = Some port" "get32 m msg_id = Some i"
  shows "get32 o' msg_remote_port = Some port" "get32 o' msg_size = Some 36" "get32 o' msg_id = Some (i + 100)"
    "get32 o' msg_local_port = Some 0"
proof -
  obtain b o1 o2 o3 o4 o5 where p: "put32 out msg_bits (reply_bits b) = Some o1" "put32 o1 msg_remote_port port = Some o2"
      "put32 o2 msg_size (of_nat sizeof_mig_reply_error) = Some o3" "put32 o3 msg_local_port 0 = Some o4"
      "put32 o4 msg_id (i + 100) = Some o5" "put32 o5 msg_reserved 0 = Some o'"
    using assms by (auto simp: reply_header_def bind_eq_Some_conv)
  note other = p(3-6) [THEN get32_put32_other]
  show "get32 o' msg_remote_port = Some port" "get32 o' msg_size = Some 36" "get32 o' msg_id = Some (i + 100)"
    "get32 o' msg_local_port = Some 0"
    using p(2-5) [THEN get32_put32] by (simp_all add: other layout_defs sizeof_mig_reply_error_def)
qed

lemma from_offset_codes:
  "from_offset (raise_message b r l th ta e cs rest) 68 = Some (words_bytes cs @ rest)"
  by (simp add: from_offset_def)

text \<open>What a handler gets from the message, and what stays of the header once its answer is in.\<close>

abbreviation sent_args where
  "sent_args l th ta e cs rest \<equiv>
     \<lparr> ra_exception_port = l, ra_thread = th, ra_task = ta, ra_exception = e, ra_code = words_bytes cs @ rest,
       ra_codeCnt = of_nat (length cs) \<rparr>"

lemma X_raise_delivered:
  assumes "length cs \<le> 2" "128 \<le> length out"
  shows "\<exists>o'. X_raise f (raise_message b r l th ta e cs rest) out = Some (Some (snd (f (sent_args l th ta e cs rest))), o') \<and>
           get32 o' rep_RetCode = Some (fst (f (sent_args l th ta e cs rest))) \<and>
           (\<forall>off. off + 4 \<le> rep_NDR \<longrightarrow> get32 o' off = get32 out off)"
proof -
  obtain ret x where f: "f (sent_args l th ta e cs rest) = (ret, x)" by fastforce
  obtain o1 where o1: "put32 out rep_RetCode ret = Some o1" "length o1 = length out"
    using put32_defined [of rep_RetCode out ret] assms by (auto simp: rep_RetCode_def)
  obtain o2 where o2: "write_at o1 rep_NDR NDR_record = Some o2" "length o2 = length out"
    using write_at_defined [of rep_NDR NDR_record o1] o1 assms by (auto simp: rep_NDR_def)
  note other = get32_put32_other [OF o1(1)] get32_write_other [OF o2(1)]
  have "get32 o2 rep_RetCode = Some ret"
    using get32_put32 [OF o1(1)] by (simp add: other layout_defs)
  moreover have "get32 o2 off = get32 out off" if "off + 4 \<le> rep_NDR" for off
    using that by (simp add: other layout_defs)
  moreover have "X_raise f (raise_message b r l th ta e cs rest) out = Some (Some x, o2)"
    using raise_message_accepted [OF assms(1), of b r l th ta e rest] f o1(1) o2(1)
      raise_message_words [of b r l th ta e cs rest] from_offset_codes [of b r l th ta e cs rest]
    by (simp add: X_raise_def raise_request_def Let_def del: words_bytes_simps)
  ultimately show ?thesis using f by auto
qed

lemma raise_message_delivered:
  assumes "length cs \<le> 2" and "128 \<le> length out"
  shows "\<exists>o'. mach_exc_server h (raise_message b r l th ta e cs rest) out =
             Some (True, Some (snd (eh_raise h (sent_args l th ta e cs rest))), o') \<and>
           (\<forall>i < length cs. exc_code (ra_code (sent_args l th ta e cs rest)) i = Some (cs ! i)) \<and>
           get32 o' msg_remote_port = Some r \<and> get32 o' msg_local_port = Some 0 \<and> get32 o' msg_id = Some 2505 \<and>
           get32 o' msg_size = Some 36 \<and> get32 o' rep_RetCode = Some (fst (eh_raise h (sent_args l th ta e cs rest)))"
proof -
  let ?m = "raise_message b r l th ta e cs rest"
  obtain o1 where o1: "reply_header ?m out = Some o1" "length o1 = length out"
    using reply_header_defined [of ?m out] assms(2) by auto
  note w = raise_message_words [of b r l th ta e cs rest]
  note fields = reply_header_fields [OF o1(1) w(3,5)]
  have "128 \<le> length o1" using o1 assms(2) by simp
  then obtain o2 where o2: "X_raise (eh_raise h) ?m o1 = Some (Some (snd (eh_raise h (sent_args l th ta e cs rest))), o2)"
      "get32 o2 rep_RetCode = Some (fst (eh_raise h (sent_args l th ta e cs rest)))"
      "\<And>off. off + 4 \<le> rep_NDR \<Longrightarrow> get32 o2 off = get32 o1 off"
    using X_raise_delivered [OF assms(1), of o1 "eh_raise h" b r l th ta e rest] by blast
  have "mach_exc_server h ?m out = Some (True, Some (snd (eh_raise h (sent_args l th ta e cs rest))), o2)"
    using o1(1) o2(1) w(5) by (simp add: mach_exc_server_def del: words_bytes_simps)
  moreover have "\<forall>off \<in> {msg_remote_port, msg_local_port, msg_id, msg_size}. get32 o2 off = get32 o1 off"
    using o2(3) by (simp add: layout_defs)
  ultimately show ?thesis using o2(2) fields by (simp add: exc_code_sent)
qed

section \<open>The engine\<close>

text \<open>The exception a message stands for.\<close>

definition sent_exc :: "u32 \<Rightarrow> u64 list \<Rightarrow> u64 option \<Rightarrow> mach_exc" where
  "sent_exc ex cs pc =
     (if ex = EXC_BREAKPOINT then ExcBreakpoint pc
      else if ex = EXC_BAD_ACCESS then ExcBadAccess (cs ! 0)
      else if ex = EXC_SOFTWARE \<and> cs ! 0 = EXC_SOFT_SIGNAL then ExcSoftSignal (cs ! 1)
      else ExcOther)"

lemma mach_exc_of_sent:
  "length cs = 2 \<Longrightarrow> mach_exc_of ts (sent_args l th ta ex cs rest) = Some (sent_exc ex cs (ts th))"
  by (auto simp: mach_exc_of_def sent_exc_def exc_code_sent EXC_BREAKPOINT_def EXC_BAD_ACCESS_def EXC_SOFTWARE_def)

lemma CatchMachExceptionRaise_result:
  "CatchMachExceptionRaise ar e w (sent_exc ex cs pc) = Some (er, w') \<Longrightarrow> er_success er \<longleftrightarrow> ex \<noteq> EXC_BAD_ACCESS"
  by (auto simp: CatchMachExceptionRaise_def sent_exc_def exc_none_def EXC_BREAKPOINT_def EXC_BAD_ACCESS_def
      EXC_SOFTWARE_def split: option.splits prod.splits if_splits)

lemma catch_mach_exception_raise_sent:
  assumes "length cs = 2"
  shows "catch_mach_exception_raise ar e w ts (sent_args l th ta ex cs rest) =
           (if ex = EXC_BAD_ACCESS then KERN_ABORTED else KERN_SUCCESS,
            CatchMachExceptionRaise ar e w (sent_exc ex cs (ts th)))"
proof (cases "CatchMachExceptionRaise ar e w (sent_exc ex cs (ts th))")
  case None
  then have "ex \<noteq> EXC_BAD_ACCESS"
    by (auto simp: CatchMachExceptionRaise_def sent_exc_def EXC_BREAKPOINT_def EXC_BAD_ACCESS_def)
  then show ?thesis using None
    by (simp add: catch_mach_exception_raise_def mach_exc_of_sent [OF assms] KERN_SUCCESS_def)
next
  case (Some r)
  then show ?thesis using CatchMachExceptionRaise_result [of ar e w ex cs "ts th" "fst r" "snd r"]
    by (cases r) (simp add: catch_mach_exception_raise_def mach_exc_of_sent [OF assms])
qed

text \<open>
  Property C33. An exception the kernel sends for a traced thread reaches the engine as what it is: a
  breakpoint with the program counter of that thread, a bad access with its code, a signal with its number;
  and the reply goes to the port the kernel waits at, with the number of the request plus 100 and the
  size of a plain reply, and refuses the exception exactly for a bad access.
\<close>

theorem kernel_exception_handled:
  assumes "length cs = 2" and "128 \<le> length out"
  shows "\<exists>o'. mach_exc_server (engine_handlers ar e w ts) (raise_message b r l th ta ex cs rest) out =
             Some (True, Some (CatchMachExceptionRaise ar e w (sent_exc ex cs (ts th))), o') \<and>
           get32 o' msg_remote_port = Some r \<and> get32 o' msg_local_port = Some 0 \<and> get32 o' msg_id = Some 2505 \<and>
           get32 o' msg_size = Some 36 \<and>
           get32 o' rep_RetCode = Some (if ex = EXC_BAD_ACCESS then KERN_ABORTED else KERN_SUCCESS)"
proof -
  have "eh_raise (engine_handlers ar e w ts) = catch_mach_exception_raise ar e w ts" by (simp add: engine_handlers_def)
  then show ?thesis
    using raise_message_delivered [of cs out "engine_handlers ar e w ts" b r l th ta ex rest] assms
      catch_mach_exception_raise_sent [OF assms(1), of ar e w ts l th ta ex rest]
    by (auto simp del: words_bytes_simps)
qed

theorem kernel_exception_handled_witness:
  "\<exists>o'. mach_exc_server (engine_handlers mach_x86_64 mk_MachEngine
      \<lparr>vm_mem = \<lambda>_. 0, vm_readable = \<lambda>_. True, vm_writable = \<lambda>_. True, vm_protectable = \<lambda>_. True\<rparr> (\<lambda>_. Some 0x1001))
      (raise_message 0x1112 7 8 9 10 EXC_BAD_ACCESS [13, 0] (replicate 44 0)) (replicate 128 0) =
      Some (True, Some (Some (exc_none\<lparr>er_events := [mk_Event ev_signal 13 0], er_success := False\<rparr>,
      \<lparr>vm_mem = \<lambda>_. 0, vm_readable = \<lambda>_. True, vm_writable = \<lambda>_. True, vm_protectable = \<lambda>_. True\<rparr>)), o') \<and>
    get32 o' rep_RetCode = Some 14"
  using kernel_exception_handled [of "[13, 0]" "replicate 128 0" mach_x86_64 mk_MachEngine
      "\<lparr>vm_mem = \<lambda>_. 0, vm_readable = \<lambda>_. True, vm_writable = \<lambda>_. True, vm_protectable = \<lambda>_. True\<rparr>" "\<lambda>_. Some 0x1001"
      "0x1112" 7 8 9 10 EXC_BAD_ACCESS "replicate 44 0"]
  by (auto simp: sent_exc_def CatchMachExceptionRaise_def EXC_BREAKPOINT_def EXC_BAD_ACCESS_def KERN_ABORTED_def)

end
