(* ===== verification/Kcov_KernelInit.thy ===== *)
theory Kcov_KernelInit
  imports Kcov_Kernel_Props
begin

text \<open>
  The kernel module from load to removal (\<open>src/src/kernel/kprobe-coverage.c\<close>): what it registers with the
  kernel and gives back, the calls that come in through these registrations, and the read side of the
  show file.

  \<^item> \<open>kpc_res\<close> is what the module holds of the kernel; \<open>kr_kpc\<close> is its data once the lists, the wait queue
    and the lock are set up, before that \<open>None\<close>: a call that comes in then is undefined.
  \<^item> Which registrations succeed is an argument.
\<close>

section \<open>Loading\<close>

record kpc_res =
  kr_memory :: bool
  kr_workqueue :: bool
  kr_debugfs_root :: bool
  kr_files :: "string list"
  kr_notifier :: bool
  kr_kpc :: "kprobe_coverage option"

definition nothing_held :: kpc_res where
  "nothing_held = \<lparr>kr_memory = False, kr_workqueue = False, kr_debugfs_root = False, kr_files = [], kr_notifier = False,
     kr_kpc = None\<rparr>"

record init_env =
  ie_kzalloc :: bool
  ie_workqueue :: bool
  ie_create_dir :: bool
  ie_create_file :: "string \<Rightarrow> bool"
  ie_notifier :: bool

definition ENODEV :: int where "ENODEV = 19"

definition EINVAL :: int where "EINVAL = 22"

definition ENOMEM :: int where "ENOMEM = 12"

text \<open>The labels of \<open>kpc_init\<close>.\<close>

definition label_out_workqueue :: "kpc_res \<Rightarrow> kpc_res" where
  "label_out_workqueue r = r\<lparr>kr_workqueue := False\<rparr>"

definition label_out_files :: "kpc_res \<Rightarrow> kpc_res" where
  "label_out_files r = label_out_workqueue (r\<lparr>kr_debugfs_root := False, kr_files := []\<rparr>)"

text \<open>\<open>kpc_init\<close> up to the last registration, and the set up of the lists after it.\<close>

definition kpc_register :: "init_env \<Rightarrow> kpc_res \<Rightarrow> int \<times> kpc_res" where
  "kpc_register ie r =
     (if \<not> ie_workqueue ie then (- ENODEV, r)
      else let r1 = r\<lparr>kr_workqueue := True\<rparr>
      in if \<not> ie_create_dir ie then (- EINVAL, label_out_workqueue r1)
      else let r2 = r1\<lparr>kr_debugfs_root := True\<rparr>
      in if \<not> ie_create_file ie ''control'' then (- EINVAL, label_out_files r2)
      else let r3 = r2\<lparr>kr_files := [''control'']\<rparr>
      in if \<not> ie_create_file ie ''show'' then (- EINVAL, label_out_files r3)
      else let r4 = r3\<lparr>kr_files := kr_files r3 @ [''show'']\<rparr>
      in if \<not> ie_notifier ie then (- EINVAL, label_out_files r4)
      else (0, r4\<lparr>kr_notifier := True\<rparr>))"

definition kpc_init_res :: "init_env \<Rightarrow> kpc_res \<Rightarrow> int \<times> kpc_res" where
  "kpc_init_res ie r =
     (case kpc_register ie r of (out, r') \<Rightarrow> if out < 0 then (out, r') else (0, r'\<lparr>kr_kpc := Some kpc_init\<rparr>))"

definition kpc_init_module :: "init_env \<Rightarrow> kpc_res \<Rightarrow> int \<times> kpc_res" where
  "kpc_init_module ie r =
     (if \<not> ie_kzalloc ie then (- ENOMEM, r)
      else case kpc_init_res ie (r\<lparr>kr_memory := True\<rparr>) of
             (out, r') \<Rightarrow> (out, if out < 0 then r'\<lparr>kr_memory := False\<rparr> else r'))"

section \<open>Removal\<close>

text \<open>\<open>kpc_clear\<close> comes first, while the files are still there; its result is what \<open>during\<close> then changes.\<close>

definition kpc_exit_module :: "(kprobe_coverage \<Rightarrow> kprobe_coverage) \<Rightarrow> kpc_res \<Rightarrow> (kprobe_coverage \<times> kpc_res) option" where
  "kpc_exit_module during r =
     (case kr_kpc r of
        None \<Rightarrow> None
      | Some k \<Rightarrow>
          let r1 = r\<lparr>kr_debugfs_root := False, kr_files := []\<rparr>;
              r2 = r1\<lparr>kr_notifier := False\<rparr>;
              r3 = r2\<lparr>kr_workqueue := False\<rparr>
          in Some (during (kpc_clear k), r3\<lparr>kr_memory := False, kr_kpc := None\<rparr>))"

section \<open>Calls from the kernel\<close>

datatype module_state = MODULE_STATE_LIVE | MODULE_STATE_COMING | MODULE_STATE_GOING

definition kpc_module_notifier :: "kernel_env \<Rightarrow> module_state \<Rightarrow> string \<Rightarrow> u64 \<Rightarrow> kpc_res \<Rightarrow> kpc_res option" where
  "kpc_module_notifier e event name module_core r =
     (if event = MODULE_STATE_COMING
      then map_option (\<lambda>k. r\<lparr>kr_kpc := Some (kpc_handle_coming_module e k name module_core)\<rparr>) (kr_kpc r)
      else if event = MODULE_STATE_GOING
      then map_option (\<lambda>k. r\<lparr>kr_kpc := Some (kpc_handle_going_module k name)\<rparr>) (kr_kpc r)
      else Some r)"

text \<open>A read of the show file: it waits for a hit first, which a signal may end.\<close>

definition kpc_seq_start :: "bool \<Rightarrow> kprobe_coverage \<Rightarrow> kprobe_coverage_entry option \<times> kprobe_coverage" where
  "kpc_seq_start signal_pending k = (if signal_pending then (None, k) else kpc_unlink_next k)"

definition kpc_seq_next :: "kprobe_coverage \<Rightarrow> kprobe_coverage_entry option \<times> kprobe_coverage" where
  "kpc_seq_next k = kpc_unlink_next k"

text \<open>The records of a read with room for all of them, as \<open>seq_read\<close> asks for them.\<close>

function seq_records :: "kprobe_coverage_entry option \<times> kprobe_coverage \<Rightarrow> (string list \<times> kprobe_coverage) option" where
  "seq_records (None, k) = Some ([], k)"
| "seq_records (Some entry, k) =
     Option.bind (kpc_seq_show k entry) (\<lambda>line.
       map_option (\<lambda>(ls, k'). (line # ls, k')) (seq_records (kpc_seq_next k)))"
  by pat_completeness auto
termination
  by (relation "measure (\<lambda>(x, k). length (kpc_hit k) + (if x = None then 0 else 1))")
    (auto simp: kpc_seq_next_def kpc_unlink_next_def split: list.splits)

definition kpc_show_read :: "bool \<Rightarrow> kprobe_coverage \<Rightarrow> (string \<times> kprobe_coverage) option" where
  "kpc_show_read signal_pending k =
     map_option (\<lambda>(ls, k'). (concat ls, k')) (seq_records (kpc_seq_start signal_pending k))"

section \<open>Nothing is left behind\<close>

lemma kpc_register_fails: "kpc_register ie r = (out, r') \<Longrightarrow> kr_workqueue r = False \<Longrightarrow> kr_debugfs_root r = False \<Longrightarrow>
    kr_files r = [] \<Longrightarrow> out < 0 \<Longrightarrow> r' = r"
  by (cases r) (auto simp: kpc_register_def label_out_files_def label_out_workqueue_def ENODEV_def EINVAL_def Let_def split: if_splits)

lemma kpc_register_holds: "kpc_register ie r = (out, r') \<Longrightarrow> \<not> out < 0 \<Longrightarrow>
    out = 0 \<and> r' = r\<lparr>kr_workqueue := True, kr_debugfs_root := True, kr_files := [''control'', ''show''], kr_notifier := True\<rparr>"
  by (auto simp: kpc_register_def ENODEV_def EINVAL_def Let_def split: if_splits)

text \<open>
  Loading the kernel module is all or nothing: when it fails, whatever step it was, the module
  holds nothing of the kernel any more; when it succeeds, its files and its notifier are there, its lists are
  empty, and removing it gives everything back.
\<close>

lemma kpc_init_module_clean:
  assumes "kpc_init_module ie nothing_held = (out, r)"
  shows "if out < 0 then r = nothing_held
         else out = 0 \<and> kr_kpc r = Some kpc_init \<and> kr_files r = [''control'', ''show''] \<and> kr_notifier r \<and>
              (\<forall>during. \<exists>k. kpc_exit_module during r = Some (k, nothing_held))"
proof -
  obtain o1 r1 where reg: "kpc_register ie (nothing_held\<lparr>kr_memory := True\<rparr>) = (o1, r1)" by fastforce
  show ?thesis
  proof (cases "ie_kzalloc ie")
    case False
    then show ?thesis using assms by (auto simp: kpc_init_module_def ENOMEM_def)
  next
    case True
    show ?thesis
    proof (cases "o1 < 0")
      case fails: True
      then have "r1 = nothing_held\<lparr>kr_memory := True\<rparr>"
        using kpc_register_fails [OF reg] by (simp add: nothing_held_def)
      then show ?thesis using assms True fails reg
        by (auto simp: kpc_init_module_def kpc_init_res_def nothing_held_def)
    next
      case False
      then show ?thesis using assms True reg kpc_register_holds [OF reg]
        by (auto simp: kpc_init_module_def kpc_init_res_def kpc_exit_module_def nothing_held_def Let_def)
    qed
  qed
qed

lemma kpc_init_module_clean_witness:
  "kpc_init_module \<lparr>ie_kzalloc = True, ie_workqueue = True, ie_create_dir = True, ie_create_file = \<lambda>f. f = ''control'',
      ie_notifier = True\<rparr> nothing_held = (- 22, nothing_held)"
proof -
  let ?ie = "\<lparr>ie_kzalloc = True, ie_workqueue = True, ie_create_dir = True, ie_create_file = \<lambda>f. f = ''control'',
      ie_notifier = True\<rparr>"
  have "fst (kpc_init_module ?ie nothing_held) = - 22"
    by (simp add: kpc_init_module_def kpc_init_res_def kpc_register_def EINVAL_def Let_def)
  then show ?thesis
    using kpc_init_module_clean [of ?ie "fst (kpc_init_module ?ie nothing_held)" "snd (kpc_init_module ?ie nothing_held)"]
    by (simp add: prod_eq_iff)
qed

text \<open>
  The registrations come before the set up: a module that is loaded while \<open>kpc_init\<close> runs makes the notifier
  go through lists that are not there.
\<close>

lemma notifier_before_lists:
  assumes "kpc_register ie (nothing_held\<lparr>kr_memory := True\<rparr>) = (0, r)"
  shows "kr_notifier r \<and> ''control'' \<in> set (kr_files r) \<and> kpc_module_notifier e MODULE_STATE_COMING name base r = None"
  using kpc_register_holds [OF assms] by (simp add: kpc_module_notifier_def nothing_held_def)

text \<open>
  The files go after \<open>kpc_clear\<close>: a probe that is asked for in between is still set when the memory of its
  entry and the code of its handler are gone.
\<close>

lemma probe_after_clear:
  assumes "kr_kpc r = Some k" "kn_alloc e" "kn_register e addr"
  shows "\<exists>k' r'. kpc_exit_module (\<lambda>k. the (kpc_add_probe e k None addr)) r = Some (k', r') \<and> kpc_pending k' \<noteq> []"
  using assms by (simp add: kpc_exit_module_def Let_def kpc_add_probe_def new_entry_def enable_probe_def
      kpc_allocate_module_name_index_def)

section \<open>Reading\<close>

text \<open>A read that is not interrupted returns the lines of all hits, oldest first, and takes them off the list.\<close>

lemma seq_records_all:
  "seq_records (Some x, k) =
     (if \<forall>y \<in> set (x # kpc_hit k). kpc_seq_show k y \<noteq> None
      then Some (map (\<lambda>y. the (kpc_seq_show k y)) (x # kpc_hit k), k\<lparr>kpc_hit := []\<rparr>) else None)"
proof (induction "kpc_hit k" arbitrary: x k)
  case Nil
  then show ?case by (cases "kpc_seq_show k x") (simp_all add: kpc_seq_next_def kpc_unlink_next_def)
next
  case (Cons y ys)
  have same: "kpc_seq_show (k\<lparr>kpc_hit := ys\<rparr>) = kpc_seq_show k" by (intro ext) (simp add: kpc_seq_show_def Let_def)
  show ?case
    using Cons(1) [of "k\<lparr>kpc_hit := ys\<rparr>" y] Cons(2) [symmetric]
    by (cases "kpc_seq_show k x") (auto simp: kpc_seq_next_def kpc_unlink_next_def same)
qed

lemma kpc_show_read_all:
  assumes "\<forall>y \<in> set (kpc_hit k). kpc_seq_show k y \<noteq> None"
  shows "kpc_show_read False k = Some (concat (map (\<lambda>y. the (kpc_seq_show k y)) (kpc_hit k)), k\<lparr>kpc_hit := []\<rparr>)"
proof (cases "kpc_hit k")
  case Nil
  then have "k\<lparr>kpc_hit := []\<rparr> = k" by simp
  then show ?thesis using Nil by (simp add: kpc_show_read_def kpc_seq_start_def kpc_unlink_next_def)
next
  case (Cons x xs)
  have same: "kpc_seq_show (k\<lparr>kpc_hit := xs\<rparr>) = kpc_seq_show k" by (intro ext) (simp add: kpc_seq_show_def Let_def)
  show ?thesis
    using assms Cons by (simp add: kpc_show_read_def kpc_seq_start_def kpc_unlink_next_def seq_records_all same del: seq_records.simps)
qed

end
