(* ===== verification/Kcov_DaemonMain.thy ===== *)
theory Kcov_DaemonMain
  imports Kcov_SysDaemon_Props
begin

text \<open>
  The system daemon from start to end (\<open>src/src/main-system-daemon.cc\<close>): the file with its process number,
  going to the background, the pipe, the main loop and what is taken down after it; and the child
  that handles one traced process.

  \<^item> A run is the list of its steps in order and how it ends. The results of \<open>fork\<close>, \<open>setsid\<close> and \<open>open\<close> and
    what is read from the pipe are arguments.
  \<^item> The main loop goes on for as long as nobody asks it to stop, by a message or by a signal after the
    reads given; before that there is no result yet, \<open>None\<close>.
\<close>

section \<open>The child of a traced process\<close>

text \<open>\<open>run\<close>: the engine, a function of its own state, until it says that it is done.\<close>

partial_function (option) ph_run ::
  "('e \<Rightarrow> bool \<times> Event list \<times> 'e) \<Rightarrow> ProcessHandler \<Rightarrow> 'e \<Rightarrow> system_mode_memory \<Rightarrow> (system_mode_memory \<times> 'e) option" where
  "ph_run continueExecution h e m =
     (case continueExecution e of (rv, evs, e') \<Rightarrow>
        if \<not> rv then Some (foldl (ph_onEvent h) m evs, e')
        else ph_run continueExecution h e' (foldl (ph_onEvent h) m evs))"

text \<open>
  The child in \<open>processOne\<close>: the engine, if it attaches, runs once before the parent is let go, whatever it
  says. The second result is how often the semaphore is raised.
\<close>

definition daemon_child ::
  "('e \<Rightarrow> bool \<times> Event list \<times> 'e) \<Rightarrow> 'e option \<Rightarrow> SystemModeFile \<Rightarrow> system_mode_memory \<Rightarrow> (system_mode_memory \<times> nat) option" where
  "daemon_child continueExecution attached f m =
     (case attached of
        None \<Rightarrow> Some (m, 1)
      | Some e \<Rightarrow>
          let h = fst (ph_attach f)
          in case continueExecution e of (_, evs, e') \<Rightarrow>
               map_option (\<lambda>(m', _). (m', 1)) (ph_run continueExecution h e' (foldl (ph_onEvent h) m evs)))"

section \<open>Steps of the daemon\<close>

datatype dstep =
    DStderr string
  | DIgnoreSignal string
  | DCloseStd string
  | DWriteFile string "byte list"
  | DMkdir string
  | DMkfifo string
  | DCatchSignal string
  | DStartThread string
  | DHandle daemon_out
  | DJoinThread
  | DCloseFd int
  | DUnlink string

text \<open>How the process that was started, or the one that goes on in its place, ends.\<close>

datatype dend = DExit int

record daemon_env =
  dn_pid_file_exists :: bool
  dn_destination :: "string option"
  dn_args :: "string list"
  dn_fork :: "nat \<Rightarrow> int"
  dn_setsid :: int
  dn_getpid :: int
  dn_open_pipe :: int

definition pidFile :: string where
  "pidFile = ''/tmp/kcov-system.pid''"

definition pipePath :: string where
  "pipePath = ''/tmp/kcov-system.pipe''"

text \<open>\<open>daemonize\<close>: the steps and, if the process does not go on, its exit status.\<close>

definition daemonize_system :: "daemon_env \<Rightarrow> dstep list \<times> dend option" where
  "daemonize_system e =
     (if dn_fork e 0 < 0 then ([DStderr ''Fork failed?''], Some (DExit 1))
      else if dn_fork e 0 > 0 then ([], Some (DExit 0))
      else if dn_setsid e < 0 then ([], Some (DExit 1))
      else let out = [DIgnoreSignal ''SIGCHLD'', DIgnoreSignal ''SIGHUP'']
      in if dn_fork e 1 < 0 then (out @ [DStderr ''Fork failed?''], Some (DExit 1))
      else if dn_fork e 1 > 0 then (out, Some (DExit 0))
      else (out @ [DCloseStd ''stdin'', DCloseStd ''stderr'', DCloseStd ''stdout''], None))"

definition wants_background :: "string list \<Rightarrow> bool" where
  "wants_background argv \<longleftrightarrow> length argv = 2 \<and> argv ! 1 = ''-d''"

definition fmt_pid :: "int \<Rightarrow> byte list" where
  "fmt_pid p = map (\<lambda>c. of_nat (of_char c)) ((if p < 0 then ''-'' else []) @ fmt_nat (nat \<bar>p\<bar>)) @ [0]"

text \<open>\<open>main\<close> before its loop: the descriptor of the pipe and the directory, or the end.\<close>

definition daemon_setup :: "daemon_env \<Rightarrow> dstep list \<times> (dend + int \<times> string)" where
  "daemon_setup e =
     (if dn_pid_file_exists e
      then ([DStderr (pidFile @ '' already exists, indicating an already running daemon'')], Inl (DExit 1))
      else case (if wants_background (dn_args e) then daemonize_system e else ([], None)) of
        (s1, Some x) \<Rightarrow> (s1, Inl x)
      | (s1, None) \<Rightarrow>
          let destinationDir = (case dn_destination e of None \<Rightarrow> ''/tmp/kcov-data'' | Some path \<Rightarrow> path);
              s2 = s1 @ [DWriteFile pidFile (fmt_pid (dn_getpid e)), DMkdir destinationDir, DMkfifo pipePath]
          in if dn_open_pipe e < 0
             then (s2 @ [DStderr (''Can't open fifo '' @ pipePath), DUnlink pidFile], Inl (DExit 1))
             else (s2 @ [DCatchSignal ''SIGINT'', DCatchSignal ''SIGTERM'', DStartThread destinationDir],
                   Inr (dn_open_pipe e, destinationDir)))"

text \<open>\<open>main\<close>, with what its reads of the pipe bring; \<open>signalled\<close> is that \<open>onExitSignal\<close> is called then.\<close>

definition daemon_main :: "sys_env \<Rightarrow> daemon_env \<Rightarrow> byte list list \<Rightarrow> bool \<Rightarrow> (dstep list \<times> dend) option" where
  "daemon_main se e reads signalled =
     (case daemon_setup e of
        (s, Inl x) \<Rightarrow> Some (s, x)
      | (s, Inr (fd, dir)) \<Rightarrow>
          Option.bind (daemon_loop se \<lparr>dm_destinationDir = dir, dm_outputFiles = [], dm_doExit = False\<rparr> reads) (\<lambda>(d, outs).
            if \<not> (dm_doExit d \<or> signalled) then None
            else Some (s @ map DHandle outs @ [DJoinThread, DCloseFd fd, DUnlink pipePath, DUnlink pidFile], DExit 0)))"

section \<open>The time of a wait\<close>

text \<open>\<open>waitCond\<close>: the point in time, in seconds and nanoseconds, for a time of day in microseconds.\<close>

definition waitCond_until :: "u64 \<Rightarrow> u64 \<Rightarrow> u32 \<Rightarrow> u64 \<times> u64" where
  "waitCond_until now_sec now_usec secs = (now_sec + ucast secs, now_usec)"

text \<open>
  The microseconds are taken for nanoseconds, so the wait is up to a second shorter than it is meant to
  be.
\<close>

lemma waitCond_short: "snd (waitCond_until s us n) = us"
  by (simp add: waitCond_until_def)

section \<open>The file with the process number\<close>

text \<open>What \<open>daemonize\<close> does does not touch the file.\<close>

definition touches_pid_file :: "dstep \<Rightarrow> bool" where
  "touches_pid_file s \<longleftrightarrow> (\<exists>bs. s = DWriteFile pidFile bs) \<or> s = DUnlink pidFile"

lemma daemonize_system_steps:
  "daemonize_system e = (s, x) \<Longrightarrow> \<forall>t \<in> set s. \<not> touches_pid_file t"
  by (auto simp: daemonize_system_def touches_pid_file_def Let_def split: if_splits)

definition background_steps :: "daemon_env \<Rightarrow> dstep list" where
  "background_steps e = (if wants_background (dn_args e) then fst (daemonize_system e) else [])"

lemma background_steps_filter: "filter touches_pid_file (background_steps e) = []"
  using daemonize_system_steps [of e "fst (daemonize_system e)" "snd (daemonize_system e)"]
  by (auto simp: background_steps_def filter_empty_conv)

lemma touches_simps [simp]:
  "touches_pid_file (DWriteFile pidFile bs)" "touches_pid_file (DUnlink pidFile)"
  "\<not> touches_pid_file (DMkdir d)" "\<not> touches_pid_file (DMkfifo p)" "\<not> touches_pid_file (DStderr m)"
  "\<not> touches_pid_file (DCatchSignal g)" "\<not> touches_pid_file (DStartThread d)" "\<not> touches_pid_file (DHandle x)"
  "\<not> touches_pid_file DJoinThread" "\<not> touches_pid_file (DCloseFd fd)"
  by (auto simp: touches_pid_file_def)

lemma touches_pipe [simp]: "\<not> touches_pid_file (DUnlink pipePath)"
  by (simp add: touches_pid_file_def pidFile_def pipePath_def)

lemma filter_handles [simp]: "filter touches_pid_file (map DHandle outs) = []"
  by (simp add: filter_empty_conv)

lemma daemon_setup_steps:
  "daemon_setup e = (s, Inr fd) \<Longrightarrow>
     filter touches_pid_file s = [DWriteFile pidFile (fmt_pid (dn_getpid e))] \<and> \<not> dn_pid_file_exists e"
  "daemon_setup e = (s, Inl x) \<Longrightarrow>
     filter touches_pid_file s = [] \<or>
     filter touches_pid_file s = [DWriteFile pidFile (fmt_pid (dn_getpid e)), DUnlink pidFile] \<and> \<not> dn_pid_file_exists e"
  using background_steps_filter [of e]
  by (auto simp: daemon_setup_def background_steps_def Let_def split: if_splits prod.splits option.splits)

text \<open>What ends the loop.\<close>

lemma daemon_round_exit:
  assumes "daemon_round se d r = Some (d', o')" "dm_doExit d'"
  shows "dm_doExit d \<or> take 6 r = STOPME"
  using assms by (auto simp: daemon_round_def processOne_def bind_eq_Some_conv split: if_splits option.splits)

lemma daemon_loop_exit:
  "daemon_loop se d reads = Some (d', o') \<Longrightarrow> dm_doExit d' \<Longrightarrow> dm_doExit d \<or> (\<exists>r \<in> set reads. take 6 r = STOPME)"
proof (induction reads arbitrary: d o')
  case (Cons r rs)
  show ?case
  proof (cases "dm_doExit d")
    case False
    with Cons.prems obtain d1 o1 o2 where r: "daemon_round se d r = Some (d1, o1)" "daemon_loop se d1 rs = Some (d', o2)"
      by (auto simp: bind_eq_Some_conv)
    show ?thesis using Cons.IH [OF r(2) Cons.prems(2)] daemon_round_exit [OF r(1)] by auto
  qed simp
qed simp

text \<open>
  The file with the process number of the daemon is never left behind: however the daemon ends, it
  has either not touched the file, which is so whenever the file was there before, or written its
  own number to it once and removed it again. Once started it ends only when it has been asked to, and
  it takes its pipe with it.
\<close>

lemma daemon_pid_file:
  assumes "daemon_main se e reads signalled = Some (s, x)"
  shows "filter touches_pid_file s = [] \<or>
         filter touches_pid_file s = [DWriteFile pidFile (fmt_pid (dn_getpid e)), DUnlink pidFile] \<and> \<not> dn_pid_file_exists e"
proof (cases "daemon_setup e")
  case (Pair s0 r)
  show ?thesis
  proof (cases r)
    case (Inl y)
    then show ?thesis using Pair assms daemon_setup_steps(2) [of e s0 y] by (simp add: daemon_main_def)
  next
    case (Inr fd)
    then show ?thesis using Pair assms daemon_setup_steps(1) [of e s0 fd]
      by (auto simp: daemon_main_def bind_eq_Some_conv split: prod.splits if_splits)
  qed
qed

lemma daemon_ends_when_asked:
  assumes "daemon_setup e = (s0, Inr fd)" "daemon_main se e reads signalled = Some (s, x)"
  shows "x = DExit 0 \<and> DUnlink pipePath \<in> set s \<and> (signalled \<or> (\<exists>r \<in> set reads. take 6 r = STOPME))"
  using assms by (auto simp: daemon_main_def bind_eq_Some_conv dest: daemon_loop_exit split: prod.splits if_splits)

section \<open>The handler of a process\<close>

text \<open>The state of an engine after some rounds, and the events of these rounds.\<close>

definition engine_after :: "('e \<Rightarrow> bool \<times> Event list \<times> 'e) \<Rightarrow> 'e \<Rightarrow> nat \<Rightarrow> 'e" where
  "engine_after cont e n = ((\<lambda>e. snd (snd (cont e))) ^^ n) e"

definition engine_events :: "('e \<Rightarrow> bool \<times> Event list \<times> 'e) \<Rightarrow> 'e \<Rightarrow> nat \<Rightarrow> Event list" where
  "engine_events cont e n = concat (map (\<lambda>k. fst (snd (cont (engine_after cont e k)))) [0..<n])"

lemma engine_after_simps [simp]:
  "engine_after cont e 0 = e"
  "engine_after cont (snd (snd (cont e))) n = engine_after cont e (Suc n)"
  using funpow_swap1 [of "\<lambda>e. snd (snd (cont e))" n e] by (simp_all add: engine_after_def)

lemma engine_events_Suc:
  "engine_events cont e (Suc n) = fst (snd (cont e)) @ engine_events cont (snd (snd (cont e))) n"
proof -
  have "[0..<Suc n] = 0 # map Suc [0..<n]" by (simp add: upt_conv_Cons map_Suc_upt del: upt_Suc)
  then show ?thesis by (simp add: engine_events_def o_def del: upt_Suc)
qed

lemma ph_run_stops:
  "(\<forall>k < n. fst (cont (engine_after cont e k))) \<Longrightarrow> \<not> fst (cont (engine_after cont e n)) \<Longrightarrow>
     ph_run cont h e m = Some (foldl (ph_onEvent h) m (engine_events cont e (Suc n)), engine_after cont e (Suc n))"
proof (induction n arbitrary: e m)
  case 0
  then show ?case
    by (subst ph_run.simps) (simp add: engine_events_def engine_after_def case_prod_beta)
next
  case (Suc n)
  have "fst (cont e)" using Suc.prems(1) by force
  moreover have "ph_run cont h (snd (snd (cont e))) m' =
      Some (foldl (ph_onEvent h) m' (engine_events cont (snd (snd (cont e))) (Suc n)), engine_after cont e (Suc (Suc n)))" for m'
    using Suc.IH [of "snd (snd (cont e))" m'] Suc.prems by simp
  ultimately show ?case
    by (subst ph_run.simps) (simp add: case_prod_beta engine_events_Suc [of cont e])
qed

text \<open>
  The child of a process whose engine stops after some rounds marks what all of its rounds reported, the
  one before the process is let go included, and raises the semaphore once on either way.
\<close>

lemma daemon_child_marks:
  assumes "\<forall>k < n. fst (cont (engine_after cont e (Suc k)))" "\<not> fst (cont (engine_after cont e (Suc n)))"
  shows "daemon_child cont (Some e) f m =
           Some (foldl (ph_onEvent (fst (ph_attach f))) m (engine_events cont e (Suc (Suc n))), 1)"
  using ph_run_stops [of n cont "snd (snd (cont e))" "fst (ph_attach f)"] assms
  by (simp add: daemon_child_def Let_def case_prod_beta engine_events_Suc [of cont e])

end
