(* ===== verification/Kcov_SolibThread.thy ===== *)
theory Kcov_SolibThread
  imports Kcov_Solib_Props
begin

text \<open>
  The thread of \<open>src/src/solib-handler.cc\<close> that reads the pipe, beside the main thread: the tick of the
  collector, \<open>blockUntilSolibDataRead\<close> and the destructor. One step is one system call or one short critical
  section of either thread, in any order.

  \<^item> \<open>st_files\<close> are the descriptors of kcov with what they are open for; a descriptor that is closed can
    be given out again, to the rest of kcov too (\<open>other_open\<close>).
  \<^item> \<open>st_reads\<close>, \<open>st_ends\<close> and \<open>st_waits\<close> count what was read, the ends of the pipe, and the waits that returned.
\<close>

section \<open>The two threads\<close>

datatype thread_pc = TLoop | TOpen | TRead | TNotify | TClose | TEnded

datatype main_pc = MRun | MCloseFd | MCancel | MJoin | MGone

datatype descriptor = SolibPipe | OtherFile

record solib_state =
  st_thread :: thread_pc
  st_main :: main_pc
  st_handler :: SolibHandler
  st_buf :: "byte list"
  st_solibFd :: int
  st_threadValid :: bool
  st_shouldExit :: bool
  st_cancelled :: bool
  st_sem :: nat
  st_files :: "int \<rightharpoonup> descriptor"
  st_closed_other :: bool
  st_reads :: nat
  st_ends :: nat
  st_waits :: nat

definition solib_buf_size :: nat where
  "solib_buf_size = 1024 * 1024 * 100"

definition notify_sem :: "solib_state \<Rightarrow> solib_state" where
  "notify_sem s = s\<lparr>st_sem := st_sem s + 1\<rparr>"

text \<open>\<open>close\<close>, with a record of whether it hit a file of someone else.\<close>

definition solib_close :: "int \<Rightarrow> solib_state \<Rightarrow> solib_state" where
  "solib_close fd s = s\<lparr>st_files := (st_files s)(fd := None), st_closed_other := st_closed_other s \<or> st_files s fd = Some OtherFile\<rparr>"

text \<open>The constructor of \<open>Semaphore\<close> sets it to 1 where it is not told otherwise.\<close>

definition thread_started :: "SolibHandler \<Rightarrow> solib_state" where
  "thread_started h =
     \<lparr>st_thread = TLoop, st_main = MRun, st_handler = h, st_buf = [], st_solibFd = -1, st_threadValid = False,
      st_shouldExit = False, st_cancelled = False, st_sem = 1, st_files = Map.empty, st_closed_other = False,
      st_reads = 0, st_ends = 0, st_waits = 0\<rparr>"

text \<open>\<open>tick\<close> is \<open>checkSolibData\<close>, with the parser left to its caller.\<close>

inductive solib_step :: "bool \<Rightarrow> (SolibHandler \<Rightarrow> SolibHandler) \<Rightarrow> solib_state \<Rightarrow> solib_state \<Rightarrow> bool"
  for le tick where
  exits: "st_thread s = TLoop \<Longrightarrow> st_shouldExit s \<Longrightarrow> solib_step le tick s (s\<lparr>st_thread := TEnded\<rparr>)"
| again: "st_thread s = TLoop \<Longrightarrow> \<not> st_shouldExit s \<Longrightarrow>
    solib_step le tick s (s\<lparr>st_thread := TOpen, st_buf := replicate solib_buf_size 0\<rparr>)"
| opens: "st_thread s = TOpen \<Longrightarrow> 0 \<le> fd \<Longrightarrow> st_files s fd = None \<Longrightarrow>
    solib_step le tick s (s\<lparr>st_thread := TRead, st_solibFd := fd, st_threadValid := True, st_files := (st_files s)(fd \<mapsto> SolibPipe)\<rparr>)"
| open_fails: "st_thread s = TOpen \<Longrightarrow>
    solib_step le tick s (s\<lparr>st_thread := TLoop, st_solibFd := -1, st_threadValid := True\<rparr>)"
| reads: "st_thread s = TRead \<Longrightarrow> st_files s (st_solibFd s) \<noteq> None \<Longrightarrow> r \<noteq> [] \<Longrightarrow>
    solib_read le (st_buf s) r (st_handler s) = Some (buf, h) \<Longrightarrow>
    solib_step le tick s (notify_sem (s\<lparr>st_buf := buf, st_handler := h, st_reads := st_reads s + 1\<rparr>))"
| read_ends: "st_thread s = TRead \<Longrightarrow> solib_step le tick s (s\<lparr>st_thread := TNotify, st_ends := st_ends s + 1\<rparr>)"
| notifies: "st_thread s = TNotify \<Longrightarrow> solib_step le tick s (notify_sem (s\<lparr>st_thread := TClose\<rparr>))"
| closes: "st_thread s = TClose \<Longrightarrow> solib_step le tick s (solib_close (st_solibFd s) (s\<lparr>st_thread := TLoop\<rparr>))"
| cancelled: "st_cancelled s \<Longrightarrow> st_thread s \<in> {TOpen, TRead, TClose} \<Longrightarrow> solib_step le tick s (s\<lparr>st_thread := TEnded\<rparr>)"
| ticks: "st_main s = MRun \<Longrightarrow> solib_step le tick s (s\<lparr>st_handler := tick (st_handler s)\<rparr>)"
| waits: "st_main s = MRun \<Longrightarrow> st_threadValid s \<Longrightarrow> 0 < st_sem s \<Longrightarrow>
    solib_step le tick s (s\<lparr>st_sem := st_sem s - 1, st_waits := st_waits s + 1\<rparr>)"
| other_open: "0 \<le> fd \<Longrightarrow> st_files s fd = None \<Longrightarrow> solib_step le tick s (s\<lparr>st_files := (st_files s)(fd \<mapsto> OtherFile)\<rparr>)"
| destroy: "st_main s = MRun \<Longrightarrow> solib_step le tick s (s\<lparr>st_main := MCloseFd, st_shouldExit := True\<rparr>)"
| destroy_close: "st_main s = MCloseFd \<Longrightarrow>
    solib_step le tick s ((if st_solibFd s \<ge> 0 then solib_close (st_solibFd s) s else s)\<lparr>st_main := MCancel\<rparr>)"
| destroy_cancel: "st_main s = MCancel \<Longrightarrow>
    solib_step le tick s (if st_threadValid s then s\<lparr>st_main := MJoin, st_cancelled := True\<rparr> else s\<lparr>st_main := MGone\<rparr>)"
| destroy_join: "st_main s = MJoin \<Longrightarrow> st_thread s = TEnded \<Longrightarrow> solib_step le tick s (s\<lparr>st_main := MGone\<rparr>)"

inductive_cases solib_stepE: "solib_step le tick s t"

section \<open>The semaphore\<close>

definition sem_inv :: "solib_state \<Rightarrow> bool" where
  "sem_inv s \<longleftrightarrow>
     st_sem s + st_waits s + (if st_thread s = TNotify then 1 else 0) = st_reads s + st_ends s + 1 \<and>
     (st_cancelled s \<longrightarrow> st_shouldExit s) \<and> (st_main s = MRun \<longleftrightarrow> \<not> st_shouldExit s) \<and>
     (st_thread s = TEnded \<longrightarrow> st_shouldExit s) \<and> (\<not> st_threadValid s \<longrightarrow> st_reads s = 0 \<and> st_ends s = 0 \<and> st_thread s \<in> {TLoop, TOpen, TEnded})"

lemma sem_inv_step:
  assumes "solib_step le tick s t" "sem_inv s"
  shows "sem_inv t"
  using assms by cases (auto simp: sem_inv_def notify_sem_def solib_close_def)

interpretation solib_sem: step_invariant "\<lambda>s. \<exists>h. s = thread_started h" "solib_step le tick" sem_inv for le tick
proof
  show "sem_inv s" if "\<exists>h. s = thread_started h" for s using that by (auto simp: sem_inv_def thread_started_def)
  show "sem_inv t" if "sem_inv s" "solib_step le tick s t" for s t using sem_inv_step that by blast
qed

text \<open>
  The waits for library data that came back: each but one has its own table that was read before, or its own
  end of the pipe. The thread goes on until the handler is destroyed.
\<close>

lemma solib_waits:
  assumes "(solib_step le tick)\<^sup>*\<^sup>* (thread_started h) s"
  shows "st_waits s \<le> st_reads s + st_ends s + 1 \<and> (st_thread s = TEnded \<longrightarrow> st_shouldExit s)"
  using solib_sem.inv_reachable [OF exI assms, of h] by (auto simp: sem_inv_def)

text \<open>
  The one is there because the semaphore starts with 1: the first wait, which is the only one of the ptrace
  engine, returns before anything has been read.
\<close>

lemma first_wait_returns:
  "\<exists>s. (solib_step le tick)\<^sup>*\<^sup>* (thread_started h) s \<and> st_waits s = 1 \<and> st_reads s = 0 \<and> st_ends s = 0"
proof -
  let ?S = "solib_step le tick"
  let ?s1 = "(thread_started h)\<lparr>st_thread := TOpen, st_buf := replicate solib_buf_size 0\<rparr>"
  let ?s2 = "?s1\<lparr>st_thread := TRead, st_solibFd := 5, st_threadValid := True, st_files := (st_files ?s1)(5 \<mapsto> SolibPipe)\<rparr>"
  let ?s3 = "?s2\<lparr>st_sem := st_sem ?s2 - 1, st_waits := st_waits ?s2 + 1\<rparr>"
  have "?S (thread_started h) ?s1" "?S ?s1 ?s2" "?S ?s2 ?s3"
    by (rule solib_step.intros; simp add: thread_started_def)+
  then have "?S\<^sup>*\<^sup>* (thread_started h) ?s3" by (meson converse_rtranclp_into_rtranclp rtranclp.rtrancl_refl)
  then show ?thesis by (intro exI [of _ ?s3]) (simp add: thread_started_def)
qed

text \<open>The join of the destructor returns: in every state of the thread there is a step that brings it to its end.\<close>

lemma solib_join_returns:
  assumes "st_main s = MJoin" "st_cancelled s" "st_shouldExit s" "st_thread s \<noteq> TEnded"
  shows "\<exists>t u. (solib_step le tick)\<^sup>*\<^sup>* s t \<and> st_thread t = TEnded \<and> solib_step le tick t u \<and> st_main u = MGone"
proof -
  have ends: "\<exists>t. solib_step le tick s t \<and> st_thread t = TEnded \<and> st_main t = MJoin"
    if "st_thread s \<noteq> TNotify" "st_thread s \<noteq> TEnded" "st_main s = MJoin" "st_cancelled s" "st_shouldExit s" for s
  proof (cases "st_thread s = TLoop")
    case True
    then show ?thesis using that solib_step.exits [of s le tick] by (intro exI [of _ "s\<lparr>st_thread := TEnded\<rparr>"]) simp
  next
    case False
    then have "st_thread s \<in> {TOpen, TRead, TClose}" using that by (cases "st_thread s") auto
    then show ?thesis using that solib_step.cancelled [of s le tick] by (intro exI [of _ "s\<lparr>st_thread := TEnded\<rparr>"]) simp
  qed
  have "\<exists>t. (solib_step le tick)\<^sup>*\<^sup>* s t \<and> st_thread t = TEnded \<and> st_main t = MJoin"
  proof (cases "st_thread s = TNotify")
    case True
    let ?s1 = "notify_sem (s\<lparr>st_thread := TClose\<rparr>)"
    have "solib_step le tick s ?s1" by (rule solib_step.notifies [OF True])
    moreover obtain t where "solib_step le tick ?s1 t" "st_thread t = TEnded" "st_main t = MJoin"
      using ends [of ?s1] assms by (auto simp: notify_sem_def)
    ultimately show ?thesis by (meson converse_rtranclp_into_rtranclp r_into_rtranclp)
  next
    case False
    then show ?thesis using ends [of s] assms by blast
  qed
  then obtain t where t: "(solib_step le tick)\<^sup>*\<^sup>* s t" "st_thread t = TEnded" "st_main t = MJoin" by blast
  show ?thesis using t solib_step.destroy_join [OF t(3,2), of le tick] by (intro exI conjI) auto
qed

section \<open>The descriptor of the pipe\<close>

text \<open>
  \<open>m_solibFd\<close> keeps its value after the thread has closed the pipe, so the destructor closes the number a second
  time, whatever it stands for by then.
\<close>

lemma solib_fd_closed_twice:
  "\<exists>s. (solib_step le tick)\<^sup>*\<^sup>* (thread_started h) s \<and> st_closed_other s"
proof -
  let ?S = "solib_step le tick"
  let ?s1 = "(thread_started h)\<lparr>st_thread := TOpen, st_buf := replicate solib_buf_size 0\<rparr>"
  let ?s2 = "?s1\<lparr>st_thread := TRead, st_solibFd := 5, st_threadValid := True, st_files := (st_files ?s1)(5 \<mapsto> SolibPipe)\<rparr>"
  let ?s3 = "?s2\<lparr>st_thread := TNotify, st_ends := st_ends ?s2 + 1\<rparr>"
  let ?s4 = "notify_sem (?s3\<lparr>st_thread := TClose\<rparr>)"
  let ?s5 = "solib_close (st_solibFd ?s4) (?s4\<lparr>st_thread := TLoop\<rparr>)"
  let ?s6 = "?s5\<lparr>st_files := (st_files ?s5)(5 \<mapsto> OtherFile)\<rparr>"
  let ?s7 = "?s6\<lparr>st_main := MCloseFd, st_shouldExit := True\<rparr>"
  let ?s8 = "(if st_solibFd ?s7 \<ge> 0 then solib_close (st_solibFd ?s7) ?s7 else ?s7)\<lparr>st_main := MCancel\<rparr>"
  have steps: "?S (thread_started h) ?s1" "?S ?s1 ?s2" "?S ?s2 ?s3" "?S ?s3 ?s4" "?S ?s4 ?s5" "?S ?s5 ?s6" "?S ?s6 ?s7" "?S ?s7 ?s8"
    by (rule solib_step.intros; simp add: thread_started_def notify_sem_def solib_close_def)+
  then have "?S\<^sup>*\<^sup>* (thread_started h) ?s8" by (meson converse_rtranclp_into_rtranclp rtranclp.rtrancl_refl)
  moreover have "st_closed_other ?s8" by (simp add: solib_close_def notify_sem_def thread_started_def)
  ultimately show ?thesis by blast
qed

end
