(* ===== verification/Kcov_Coveralls.thy ===== *)
theory Kcov_Coveralls
  imports Kcov_Writers
begin

text \<open>
  The life of the writer for coveralls.io (\<open>src/src/writers/coveralls-writer.cc\<close>): when it writes its file,
  whose text is \<open>coveralls_write\<close>, and the upload of it. libcurl is the argument \<open>perform\<close>: for a transfer, whether
  it went through, and the pieces of the answer in the order in which it hands them to the write function.
\<close>

section \<open>The connection\<close>

record transfer =
  tf_url :: string
  tf_userAgent :: string
  tf_headers :: "string list"
  tf_part :: string
  tf_file :: string

record CurlConnectionHandler =
  ch_headers :: "string list"
  ch_writtenData :: string

definition mk_CurlConnectionHandler :: CurlConnectionHandler where
  "mk_CurlConnectionHandler = \<lparr>ch_headers = [''Expect:''], ch_writtenData = []\<rparr>"

text \<open>The result is the number of bytes taken.\<close>

definition curlWritefunc :: "CurlConnectionHandler \<Rightarrow> string \<Rightarrow> nat \<times> CurlConnectionHandler" where
  "curlWritefunc ch p = (length p, ch\<lparr>ch_writtenData := ch_writtenData ch @ p\<rparr>)"

definition talk :: "(transfer \<Rightarrow> bool \<times> string list) \<Rightarrow> CurlConnectionHandler \<Rightarrow> string \<Rightarrow> bool \<times> CurlConnectionHandler" where
  "talk perform ch fileName =
     (case perform \<lparr>tf_url = ''https://coveralls.io/api/v1/jobs'', tf_userAgent = ''libcurl-agent/1.0'',
                     tf_headers = ch_headers ch, tf_part = ''json_file'', tf_file = fileName\<rparr> of
        (ok, chunks) \<Rightarrow>
          let ch1 = foldl (\<lambda>c p. snd (curlWritefunc c p)) (ch\<lparr>ch_writtenData := []\<rparr>) chunks
          in if \<not> ok then (False, ch1)
             else if str_find (ch_writtenData ch1) ''Job #'' = None then (False, ch1)
             else (True, ch1))"

section \<open>The writer\<close>

record CoverallsWriter =
  cw_doWrite :: bool
  cw_gitInfo :: "gitInfo option"
  cw_base :: Writer

definition coveralls_onStartup :: "gitInfo option \<Rightarrow> CoverallsWriter \<Rightarrow> CoverallsWriter" where
  "coveralls_onStartup gi w = w\<lparr>cw_gitInfo := gi\<rparr>"

definition coveralls_onStop :: "CoverallsWriter \<Rightarrow> CoverallsWriter" where
  "coveralls_onStop w = w\<lparr>cw_doWrite := True\<rparr>"

text \<open>What a write does: the file with its text, and a transfer that is asked for.\<close>

datatype coveralls_out = CvFile string string | CvTransfer string

text \<open>
  \<open>write\<close>: \<open>can_open\<close> is whether the output file can be opened. The result of \<open>talk\<close> is not looked at, so the
  transfer stands in the output.
\<close>

definition coveralls_output ::
  "wr_conf \<Rightarrow> rep_env \<Rightarrow> Reporter \<Rightarrow> string \<Rightarrow> (string \<Rightarrow> bool) \<Rightarrow> CoverallsWriter \<Rightarrow> (coveralls_out list \<times> CoverallsWriter) option" where
  "coveralls_output c e r target_directory can_open w =
     (let id = wc_coveralls_id c; outFile = target_directory @ ''/coveralls.out''
      in if \<not> cw_doWrite w \<or> id = [] \<or> \<not> can_open outFile then Some ([], w)
         else map_option (\<lambda>(text, base).
                (CvFile outFile (case text of None \<Rightarrow> [] | Some t \<Rightarrow> t) #
                 (if id \<noteq> ''dry-run'' then [CvTransfer outFile] else []), w\<lparr>cw_base := base\<rparr>))
              (coveralls_write c e r (cw_gitInfo w) (cw_doWrite w) (cw_base w)))"

section \<open>Once, at the end\<close>

text \<open>An answer in pieces is put together; the upload is taken for done if the answer names a job.\<close>

lemma curlWritefunc_all:
  "ch_writtenData (foldl (\<lambda>c p. snd (curlWritefunc c p)) ch chunks) = ch_writtenData ch @ concat chunks"
  by (induction chunks arbitrary: ch) (simp_all add: curlWritefunc_def)

lemma talk_result:
  "fst (talk perform ch f) \<longleftrightarrow>
     (let (ok, chunks) = perform \<lparr>tf_url = ''https://coveralls.io/api/v1/jobs'', tf_userAgent = ''libcurl-agent/1.0'',
        tf_headers = ch_headers ch, tf_part = ''json_file'', tf_file = f\<rparr>
      in ok \<and> str_find (concat chunks) ''Job #'' \<noteq> None)"
  by (simp add: talk_def curlWritefunc_all Let_def split: prod.splits)

text \<open>The writes at intervals do nothing; the one after the end writes the file and uploads it, unless it is a dry run.\<close>

lemma coveralls_before_stop: "\<not> cw_doWrite w \<Longrightarrow> coveralls_output c e r d co w = Some ([], w)"
  by (simp add: coveralls_output_def Let_def)

lemma coveralls_at_end:
  assumes "coveralls_output c e r d co (coveralls_onStop w) = Some (out, w')"
  shows "(CvTransfer f \<in> set out \<longleftrightarrow>
           f = d @ ''/coveralls.out'' \<and> wc_coveralls_id c \<noteq> [] \<and> wc_coveralls_id c \<noteq> ''dry-run'' \<and> co f) \<and>
         (\<forall>t. CvFile f t \<in> set out \<longrightarrow> (\<exists>b. coveralls_write c e r (cw_gitInfo w) True (cw_base w) = Some (Some t, b)))"
proof (cases "wc_coveralls_id c = [] \<or> \<not> co (d @ ''/coveralls.out'')")
  case True
  then show ?thesis using assms by (auto simp: coveralls_output_def coveralls_onStop_def Let_def)
next
  case False
  then obtain tx b where "coveralls_write c e r (cw_gitInfo w) True (cw_base w) = Some (tx, b)"
    using assms by (auto simp: coveralls_output_def coveralls_onStop_def Let_def)
  moreover have "tx \<noteq> None"
    using calculation False by (auto simp: coveralls_write_def Let_def)
  ultimately show ?thesis using False assms
    by (auto simp: coveralls_output_def coveralls_onStop_def Let_def)
qed

end
