(* ===== verification/Kcov_Options.thy ===== *)
theory Kcov_Options
  imports Kcov_Config_Props
begin

text \<open>
  The command line from \<open>argv\<close> on (\<open>parse\<close> of \<open>src/src/configuration.cc\<close>): the table of long options, the
  string of short ones, and \<open>getopt_long\<close> as the C library documents it for these arguments, the leading \<open>+\<close>
  and \<open>:\<close> included. The first option that is not known, or lacks its argument, ends the list with \<open>?\<close> or \<open>:\<close>.
\<close>

section \<open>The options\<close>

datatype has_arg = no_argument | required_argument

definition long_options :: "(string \<times> has_arg \<times> char) list" where
  "long_options =
     [(''help'', no_argument, CHR ''h''), (''pid'', required_argument, CHR ''p''), (''limits'', required_argument, CHR ''l''),
      (''output-interval'', required_argument, CHR ''O''), (''path-strip-level'', required_argument, CHR ''S''), (''skip-solibs'', no_argument, CHR ''L''),
      (''exit-first-process'', no_argument, CHR ''F''), (''clang'', no_argument, CHR ''c''), (''configure'', required_argument, CHR ''M''),
      (''clean'', no_argument, CHR ''E''), (''cobertura-only'', no_argument, CHR ''o''), (''exclude-pattern'', required_argument, CHR ''x''),
      (''include-pattern'', required_argument, CHR ''i''), (''exclude-path'', required_argument, CHR ''X''), (''include-path'', required_argument, CHR ''I''),
      (''coveralls-id'', required_argument, CHR ''T''), (''strip-path'', required_argument, CHR ''Z''), (''exclude-line'', required_argument, CHR ''u''),
      (''exclude-region'', required_argument, CHR ''G''), (''debug'', required_argument, CHR ''D''), (''debug-force-bash-stderr'', no_argument, CHR ''d''),
      (''bash-handle-sh-invocation'', no_argument, CHR ''s''), (''bash-tracefd-cloexec'', no_argument, CHR ''t''), (''bash-dont-parse-binary-dir'', no_argument, CHR ''j''),
      (''bash-parse-files-in-dirs'', required_argument, CHR ''J''), (''replace-src-path'', required_argument, CHR ''R''), (''collect-only'', no_argument, CHR ''C''),
      (''report-only'', no_argument, CHR ''r''), (''merge'', no_argument, CHR ''m''), (''python-parser'', required_argument, CHR ''P''),
      (''patchelf'', required_argument, CHR ''e''), (''bash-parser'', required_argument, CHR ''B''), (''bash-method'', required_argument, CHR ''4''),
      (''system-record'', no_argument, CHR ''8''), (''system-report'', no_argument, CHR ''9''), (''verify'', no_argument, CHR ''V''),
      (''dump-summary'', no_argument, CHR ''5''), (''version'', no_argument, CHR ''v''), (''uncommon-options'', no_argument, CHR ''U'')]"

text \<open>\<open>+:hp:s:l:t:\<close>\<close>

definition short_options :: "(char \<times> has_arg) list" where
  "short_options =
     [(CHR ''h'', no_argument), (CHR ''p'', required_argument), (CHR ''s'', required_argument),
      (CHR ''l'', required_argument), (CHR ''t'', required_argument)]"

section \<open>Going through the arguments\<close>

definition is_option :: "string \<Rightarrow> bool" where
  "is_option a \<longleftrightarrow> prefix ''-'' a \<and> a \<noteq> ''-''"

text \<open>A name stands for itself, or for the options it abbreviates if they are all alike.\<close>

definition find_long :: "string \<Rightarrow> (has_arg \<times> char) option" where
  "find_long name =
     (case map_of long_options name of
        Some x \<Rightarrow> Some x
      | None \<Rightarrow>
          (case filter (\<lambda>l. prefix name (fst l)) long_options of
             [] \<Rightarrow> None
           | l # ls \<Rightarrow> if \<forall>x \<in> set ls. snd x = snd l then Some (snd l) else None))"

definition add_option :: "char \<times> string \<Rightarrow> (char \<times> string) list \<times> nat \<Rightarrow> (char \<times> string) list \<times> nat" where
  "add_option x r = (x # fst r, snd r)"

text \<open>Name and value of \<open>--name=value\<close>.\<close>

definition long_name :: "string \<Rightarrow> string" where
  "long_name a = takeWhile (\<lambda>c. c \<noteq> CHR ''='') (drop 2 a)"

definition long_value :: "string \<Rightarrow> string option" where
  "long_value a =
     (if CHR ''='' \<in> set (drop 2 a) then Some (drop (Suc (length (long_name a))) (drop 2 a)) else None)"

text \<open>What is left to go through gets shorter.\<close>

definition args_size :: "string list \<Rightarrow> nat" where
  "args_size as = sum_list (map (\<lambda>a. Suc (length a)) as)"

lemma args_size_simps [simp]: "args_size [] = 0" "args_size (a # as) = Suc (length a) + args_size as"
  by (simp_all add: args_size_def)

lemma args_size_tl: "as \<noteq> [] \<Longrightarrow> args_size (tl as) < args_size as"
  by (cases as) simp_all

lemma is_option_tl: "is_option a \<Longrightarrow> length (tl a) < length a"
  by (cases a) (simp_all add: is_option_def)

text \<open>
  \<open>getopt_args i as\<close> goes through the arguments from number \<open>i\<close> on: the options with their values, and
  \<open>optind\<close> after the last. \<open>getopt_cluster\<close> is inside of an argument with short options.
\<close>

function getopt_args :: "nat \<Rightarrow> string list \<Rightarrow> (char \<times> string) list \<times> nat"
  and getopt_cluster :: "nat \<Rightarrow> string \<Rightarrow> string list \<Rightarrow> (char \<times> string) list \<times> nat" where
  "getopt_args i [] = ([], i)"
| "getopt_args i (a # as) =
     (if \<not> is_option a then ([], i)
      else if a = ''--'' then ([], i + 1)
      else if prefix ''--'' a then
        (case (find_long (long_name a), long_value a) of
           (None, _) \<Rightarrow> ([(CHR ''?'', [])], i + 1)
         | (Some (no_argument, c), None) \<Rightarrow> add_option (c, []) (getopt_args (i + 1) as)
         | (Some (no_argument, c), Some _) \<Rightarrow> ([(CHR ''?'', [])], i + 1)
         | (Some (required_argument, c), Some v) \<Rightarrow> add_option (c, v) (getopt_args (i + 1) as)
         | (Some (required_argument, c), None) \<Rightarrow>
             (if as = [] then ([(CHR '':'', [])], i + 1) else add_option (c, hd as) (getopt_args (i + 2) (tl as))))
      else getopt_cluster i (tl a) as)"
| "getopt_cluster i [] as = getopt_args (i + 1) as"
| "getopt_cluster i (c # cs) as =
     (case map_of short_options c of
        None \<Rightarrow> ([(CHR ''?'', [])], i + 1)
      | Some no_argument \<Rightarrow> add_option (c, []) (getopt_cluster i cs as)
      | Some required_argument \<Rightarrow>
          (if cs \<noteq> [] then add_option (c, cs) (getopt_args (i + 1) as)
           else if as = [] then ([(CHR '':'', [])], i + 1)
           else add_option (c, hd as) (getopt_args (i + 2) (tl as))))"
  by pat_completeness auto

termination
  by (relation "measure (\<lambda>x. case x of Inl (i, as) \<Rightarrow> args_size as | Inr (i, cs, as) \<Rightarrow> Suc (length cs) + args_size as)")
    (auto simp: less_SucI dest: args_size_tl is_option_tl)

declare getopt_args.simps [simp del] getopt_cluster.simps [simp del]

text \<open>\<open>parse\<close> on the whole command line.\<close>

definition kcov_parse :: "conf_env \<Rightarrow> Configuration \<Rightarrow> string list \<Rightarrow> conf_error + Configuration" where
  "kcov_parse e c argv = (case getopt_args 1 (tl argv) of (opts, optind) \<Rightarrow> config_parse e c opts optind argv)"

end
