(* ===== verification/Kcov_Options_Props.thy ===== *)
theory Kcov_Options_Props
  imports Kcov_Options
begin

text \<open>
  A command line with long options arrives in the configuration as it was written, and decides on files as
  its patterns say; what follows the output directory belongs to the traced program.
\<close>

section \<open>Long options as they are written\<close>

type_synonym long_option = "string \<times> string option"

definition render_option :: "long_option \<Rightarrow> string" where
  "render_option opt = ''--'' @ fst opt @ (case snd opt of None \<Rightarrow> [] | Some v \<Rightarrow> ''='' @ v)"

text \<open>An option of the table, with a value exactly if it takes one.\<close>

definition valid_option :: "long_option \<Rightarrow> bool" where
  "valid_option opt \<longleftrightarrow>
     (\<exists>c. map_of long_options (fst opt) = Some (if snd opt = None then no_argument else required_argument, c))"

definition option_letter :: "string \<Rightarrow> char" where
  "option_letter n = (case map_of long_options n of None \<Rightarrow> NUL | Some (_, c) \<Rightarrow> c)"

definition option_result :: "long_option \<Rightarrow> char \<times> string" where
  "option_result opt = (option_letter (fst opt), case snd opt of None \<Rightarrow> [] | Some v \<Rightarrow> v)"

text \<open>Facts of the table, by evaluation: its names have no equals sign, and its letters are all different.\<close>

lemma long_options_names: "\<forall>l \<in> set long_options. fst l \<noteq> [] \<and> CHR ''='' \<notin> set (fst l)"
  by code_simp

lemma long_options_letters: "distinct (map (snd \<circ> snd) long_options)"
  by code_simp

lemma long_options_distinct: "distinct (map fst long_options)"
  by code_simp

lemma long_option_in: "map_of long_options n = Some x \<Longrightarrow> n \<noteq> [] \<and> CHR ''='' \<notin> set n \<and> (n, x) \<in> set long_options"
  using long_options_names by (auto dest!: map_of_SomeD)

lemma distinct_map_in: "distinct (map f xs) \<Longrightarrow> x \<in> set xs \<Longrightarrow> y \<in> set xs \<Longrightarrow> f x = f y \<Longrightarrow> x = y"
  by (induction xs) (auto simp: image_iff)

lemma option_letter_eq: "map_of long_options n = Some x \<Longrightarrow> option_letter n = snd x"
  by (cases x) (simp add: option_letter_def)

lemma option_letter_inj:
  assumes "map_of long_options n = Some x" "map_of long_options k = Some y"
  shows "option_letter n = option_letter k \<longleftrightarrow> n = k"
proof
  have letter: "option_letter n = snd x" "option_letter k = snd y"
    using assms by (simp_all add: option_letter_eq)
  have table: "(n, x) \<in> set long_options" "(k, y) \<in> set long_options" using assms long_option_in by blast+
  assume "option_letter n = option_letter k"
  then have "(snd \<circ> snd) (n, x) = (snd \<circ> snd) (k, y)" using letter by simp
  then show "n = k" using distinct_map_in [OF long_options_letters table] by blast
qed simp

lemma long_name_value:
  assumes "CHR ''='' \<notin> set n"
  shows "long_name (render_option (n, v)) = n" "long_value (render_option (n, v)) = v"
proof -
  have t: "takeWhile (\<lambda>c. c \<noteq> CHR ''='') (n @ (case v of None \<Rightarrow> [] | Some w \<Rightarrow> ''='' @ w)) = n"
    using assms by (cases v) (auto simp: takeWhile_append takeWhile_eq_all_conv [THEN iffD2])
  then show "long_name (render_option (n, v)) = n" by (simp add: long_name_def render_option_def)
  then show "long_value (render_option (n, v)) = v"
    using assms by (cases v) (simp_all add: long_value_def render_option_def)
qed

lemma getopt_args_stop: "as = [] \<or> \<not> is_option (hd as) \<Longrightarrow> getopt_args i as = ([], i)"
  by (cases as) (simp_all add: getopt_args.simps)

lemma getopt_args_long:
  assumes "valid_option opt"
  shows "getopt_args i (render_option opt # as) = add_option (option_result opt) (getopt_args (i + 1) as)"
proof -
  obtain n v where opt: "opt = (n, v)" by (cases opt)
  obtain c where c: "map_of long_options n = Some (if v = None then no_argument else required_argument, c)"
    using assms by (auto simp: valid_option_def opt)
  note name = long_name_value [of n v] long_option_in [OF c]
  have "is_option (render_option opt)" "prefix ''--'' (render_option opt)" "render_option opt \<noteq> ''--''"
    using name by (auto simp: is_option_def render_option_def opt)
  moreover have "find_long n = Some (if v = None then no_argument else required_argument, c)" "option_letter n = c"
    using c by (simp_all add: find_long_def option_letter_def)
  ultimately show ?thesis
    using name by (cases v) (simp_all add: getopt_args.simps opt option_result_def)
qed

text \<open>The round trip: written out and read again, the options are the same, and the rest is left alone.\<close>

lemma getopt_args_render:
  assumes "\<forall>opt \<in> set os. valid_option opt" "rest = [] \<or> \<not> is_option (hd rest)"
  shows "getopt_args i (map render_option os @ rest) = (map option_result os, i + length os)"
  using assms(1)
proof (induction os arbitrary: i)
  case Nil
  then show ?case using assms(2) by (simp add: getopt_args_stop)
next
  case (Cons opt os)
  then show ?case by (simp add: getopt_args_long add_option_def)
qed

section \<open>From the command line to the filters\<close>

lemma map_of_result:
  assumes "\<forall>opt \<in> set os. valid_option opt" "map_of long_options n = Some x"
  shows "map_of (map option_result os) (option_letter n) =
           map_option (\<lambda>v. case v of None \<Rightarrow> [] | Some s \<Rightarrow> s) (map_of os n)"
  using assms(1)
proof (induction os)
  case (Cons opt os)
  obtain k v where opt: "opt = (k, v)" by (cases opt)
  obtain y where "map_of long_options k = Some y" using Cons.prems by (auto simp: valid_option_def opt)
  with Cons option_letter_inj [OF this assms(2)] show ?case by (auto simp: option_result_def opt)
qed simp

lemma pattern_letters:
  "map_of long_options ''include-pattern'' = Some (required_argument, CHR ''i'')"
  "map_of long_options ''exclude-pattern'' = Some (required_argument, CHR ''x'')"
  "map_of long_options ''include-path'' = Some (required_argument, CHR ''I'')"
  "map_of long_options ''exclude-path'' = Some (required_argument, CHR ''X'')"
  by code_simp+

lemma pattern_value:
  assumes "\<forall>opt \<in> set os. valid_option opt" "map_of long_options n = Some (required_argument, c)"
  shows "map_of (rev (map option_result os)) c = Some s \<longleftrightarrow> map_of (rev os) n = Some (Some s)"
proof -
  have c: "c = option_letter n" using assms(2) by (simp add: option_letter_def)
  have "v \<noteq> None" if "map_of (rev os) n = Some v" for v
  proof -
    have "(n, v) \<in> set os" using map_of_SomeD [OF that] by simp
    then have "valid_option (n, v)" using assms(1) by blast
    with assms(2) show ?thesis by (auto simp: valid_option_def split: if_splits)
  qed
  then show ?thesis
    using map_of_result [of "rev os" n] assms by (auto simp: rev_map c split: option.splits)
qed

lemma parse_arguments_programArgs: "parse_arguments e st argv optind = Inr c \<Longrightarrow> cf_programArgs c = drop (optind + 1) argv"
  by (auto simp: parse_arguments_def Let_def rbind_Inr_iff split: if_splits)

lemma config_parse_programArgs:
  "config_parse e c opts optind argv = Inr c' \<Longrightarrow> cf_programArgs c' = drop (optind + 1) argv"
  by (auto simp: config_parse_def rbind_Inr_iff Let_def dest: parse_arguments_programArgs)

lemma no_path_letters:
  assumes "valid_option opt" "fst opt \<notin> {''include-path'', ''exclude-path''}"
  shows "fst (option_result opt) \<noteq> CHR ''I'' \<and> fst (option_result opt) \<noteq> CHR ''X''"
proof -
  obtain x where x: "map_of long_options (fst opt) = Some x" using assms(1) by (auto simp: valid_option_def)
  show ?thesis
    using option_letter_inj [OF x pattern_letters(3)] option_letter_inj [OF x pattern_letters(4)] assms(2)
      option_letter_eq [OF pattern_letters(3)] option_letter_eq [OF pattern_letters(4)]
    by (auto simp: option_result_def)
qed

text \<open>
  Property C37. kcov understands its command line as documented: with long options in any order and number,
  of which none is about paths, before the output directory, a file is reported exactly when its name contains
  one of the comma-separated parts of the last \<open>--include-pattern\<close>, if there is one, and none of the parts
  of the last \<open>--exclude-pattern\<close>; and everything after the output directory, options included, goes to the
  traced program as it is.
\<close>

theorem kcov_command_line:
  assumes "kcov_parse e c (argv0 # map render_option opts @ rest) = Inr c'"
    and "\<forall>opt \<in> set opts. valid_option opt \<and> fst opt \<notin> {''include-path'', ''exclude-path''}"
    and "rest = [] \<or> \<not> is_option (hd rest)"
  shows "cf_programArgs c' = tl rest \<and>
    (\<exists>fc. conf_filter c' = Inr fc \<and>
      (runFilters rp (mk_Filter rp fc) path \<longleftrightarrow>
         (\<forall>s. map_of (rev opts) ''include-pattern'' = Some (Some s) \<longrightarrow> (\<exists>p \<in> set (getCommaSeparatedList s). sublist p path)) \<and>
         (\<forall>s. map_of (rev opts) ''exclude-pattern'' = Some (Some s) \<longrightarrow> (\<forall>p \<in> set (getCommaSeparatedList s). \<not> sublist p path))))"
proof -
  have valid: "\<forall>opt \<in> set opts. valid_option opt" using assms(2) by blast
  have parse: "config_parse e c (map option_result opts) (1 + length opts) (argv0 # map render_option opts @ rest) = Inr c'"
    using assms(1) getopt_args_render [OF valid assms(3), of 1] by (simp add: kcov_parse_def)
  have "\<forall>opt \<in> set (map option_result opts). fst opt \<noteq> CHR ''I'' \<and> fst opt \<noteq> CHR ''X''"
    using assms(2) no_path_letters by auto
  from command_line_patterns [OF parse this, of rp path] config_parse_programArgs [OF parse]
  show ?thesis
    by (simp add: pattern_value [OF valid pattern_letters(1)] pattern_value [OF valid pattern_letters(2)] drop_Suc)
qed

theorem kcov_command_line_witness:
  "\<exists>c' fc. kcov_parse demo_conf_env mk_Configuration
      [''kcov'', ''--clean'', ''--exclude-pattern=/usr,/opt'', ''/tmp/out'', ''/bin/ls'', ''--help''] = Inr c' \<and>
    cf_programArgs c' = [''/bin/ls'', ''--help''] \<and> conf_filter c' = Inr fc \<and>
    \<not> runFilters (\<lambda>p. p) (mk_Filter (\<lambda>p. p) fc) ''/usr/a.c''"
proof -
  let ?opts = "[(''clean'', None), (''exclude-pattern'', Some ''/usr,/opt'')]"
    and ?rest = "[''/tmp/out'', ''/bin/ls'', ''--help'']"
  let ?argv = "''kcov'' # map render_option ?opts @ ?rest"
  have "\<not> isl (kcov_parse demo_conf_env mk_Configuration ?argv)" by code_simp
  then obtain c' where c': "kcov_parse demo_conf_env mk_Configuration ?argv = Inr c'" by (metis isl_def sum.exhaust)
  have "map_of long_options ''clean'' = Some (no_argument, CHR ''E'')" by code_simp
  then have "\<forall>opt \<in> set ?opts. valid_option opt \<and> fst opt \<notin> {''include-path'', ''exclude-path''}"
    using pattern_letters(2) by (simp add: valid_option_def)
  moreover have "?rest = [] \<or> \<not> is_option (hd ?rest)" by code_simp
  ultimately obtain fc where "cf_programArgs c' = tl ?rest" "conf_filter c' = Inr fc"
    "runFilters (\<lambda>p. p) (mk_Filter (\<lambda>p. p) fc) ''/usr/a.c'' \<longrightarrow>
       (\<forall>p \<in> set (getCommaSeparatedList ''/usr,/opt''). \<not> sublist p ''/usr/a.c'')"
    using kcov_command_line [OF c', of "\<lambda>p. p" "''/usr/a.c''"] by auto
  moreover have "sublist ''/usr'' ''/usr/a.c''" "''/usr'' \<in> set (getCommaSeparatedList ''/usr,/opt'')" by code_simp+
  moreover have "?argv = [''kcov'', ''--clean'', ''--exclude-pattern=/usr,/opt'', ''/tmp/out'', ''/bin/ls'', ''--help'']"
    by (simp add: render_option_def)
  ultimately show ?thesis using c' by (metis list.sel(3))
qed

section \<open>Short options\<close>

text \<open>
  In the string of short options \<open>s\<close> and \<open>t\<close> take an argument, in the table the options with these letters do not:
  \<open>-s\<close> swallows the output directory that follows.
\<close>

lemma short_option_swallows:
  "getopt_args 1 [''--bash-handle-sh-invocation'', ''/tmp/out'', ''prog''] = ([(CHR ''s'', [])], 2)"
  "getopt_args 1 [''-s'', ''/tmp/out'', ''prog''] = ([(CHR ''s'', ''/tmp/out'')], 3)"
  by code_simp+

text \<open>
  An abbreviation is taken where it is unique: \<open>--bash-parse-files-in-dir\<close>, the name in the help text, is one of
  \<open>--bash-parse-files-in-dirs\<close>, and \<open>--exclude\<close> is none of anything.
\<close>

lemma abbreviations:
  "find_long ''bash-parse-files-in-dir'' = Some (required_argument, CHR ''J'')"
  "find_long ''exclude'' = None"
  by code_simp+

end
