(* ===== verification/Spec2Isabelle.thy ===== *)
theory Spec2Isabelle
  imports Kcov_Reporter_Runs Kcov_Merge_Props Kcov_SystemMode_Props Kcov_SystemMode_Term Kcov_Bash_Props Kcov_Python_Props
    Kcov_Collector_Props Kcov_Config_Props Kcov_Ptrace_Props Kcov_Elf_Crc Kcov_Solib_Props Kcov_Disasm_Blocks
    Kcov_SysDaemon_Props Kcov_Kernel_Props Kcov_Mach_Props Kcov_Macho_Props Kcov_Writer_Props Kcov_Main_Props Kcov_Files_Props Kcov_PtraceSys_Props
    Kcov_ScriptStart_Props Kcov_MainRun_Props Kcov_MachExc_Props Kcov_KernelInit
    Kcov_DaemonMain Kcov_SolibThread Kcov_Coveralls Kcov_Options_Props
begin

text \<open>
  A verification library for kcov, the code coverage tester for compiled programs, Python and bash
  scripts. Paths below are those of the repository, under \<open>src/\<close>.

  \<^bold>\<open>The program.\<close> A run of kcov (\<open>src/main.cc\<close>) reads its configuration, chooses a parser and an
  engine for the traced file by score, and puts the rest together from listeners. The parser
  announces source lines with their addresses; the reporter keeps them and asks the collector
  for a breakpoint at each address; the collector runs the engine, which reports an event for
  each address it comes across, and hands the hits on to the reporter. The merge parser listens
  to both: it keeps lines and hits per source file on disk and plays those of other runs to a
  second reporter. The output handler writes reports at intervals and at the end, with one
  writer per format for each reporter, and keeps the reporter's database from one run to the
  next. In system mode the two halves are apart: whole directories of binaries are recorded and
  patched, the patched programs mark entries in a bit map in shared memory, and reports are
  made from the bit maps later.

  \<^bold>\<open>Shared theories.\<close>
  \<^item> \<open>Kcov_Prelude\<close>: machine types, lemma collections, lists and association lists, and the locale
    \<open>step_invariant\<close> (an invariant of a transition system holds in every reachable state), with an
    interpretation for every state machine below.
  \<^item> \<open>Kcov_Endian\<close> (\<open>src/include/swap-endian.hh\<close>) and \<open>Kcov_Codec\<close>: byte order, and the locales \<open>codec\<close>
    and \<open>codec_pair\<close>, which state what a fixed-width encoding promises and derive from it that tables
    are read back as written; interpreted on every binary format of the program.
  \<^item> \<open>Kcov_Memory\<close>: a block of memory by byte offset; an access outside is \<open>None\<close>.
  \<^item> \<open>Kcov_Strings\<close>: what the code uses of \<open>std::string\<close> and \<open>strtoull\<close>.
  \<^item> \<open>Kcov_Utils\<close> (\<open>src/utils.cc\<close>): splitting, trimming, escaping, paths and numbers, with the locale
    \<open>memo_cache\<close> for the caches of \<open>stat\<close> and \<open>realpath\<close>.
  \<^item> \<open>Kcov_Digits\<close>: numbers that are printed and read back.
  \<^item> \<open>Kcov_Files\<close> (\<open>src/utils.cc\<close>): reading, peeking and writing of files with their timeouts, over a
    record of system calls. \<open>Kcov_Files_Props\<close>: what is written is read back, and on every path each
    descriptor is closed that was opened.
  \<^item> \<open>Kcov_Float\<close>: rounding to \<open>float\<close> and \<open>double\<close> and the decimal output of \<open>printf\<close> on rationals.

  \<^bold>\<open>Components.\<close>
  \<^item> \<open>Kcov_Filter\<close> (\<open>src/filter.cc\<close>): which files and lines count: files by the names in their real paths,
    lines by the nesting of the markers before them.
  \<^item> \<open>Kcov_SourceCache\<close> (\<open>src/source-file-cache.cc\<close>): the lines and the CRC of source files, an
    interpretation of \<open>memo_cache\<close>.
  \<^item> \<open>Kcov_Reporter\<close> (\<open>src/reporter.cc\<close>): the class \<open>Reporter\<close> with its lines in a store, since the
    address table and the files point to the same line objects. A dereference of a pointer that
    is not there, or of an index out of range, is \<open>None\<close>. \<open>_Inv\<close>, \<open>_Lines\<close> and \<open>_Hits\<close> hold the
    invariant and that every operation keeps it, \<open>_Db\<close> the layout of the database, \<open>_Props\<close> and
    \<open>_Runs\<close> the results: no reachable state has undefined behaviour, what a hit counts, the order
    of first hits, the summary, and the database from one run to the next.
  \<^item> \<open>Kcov_Merge\<close> (\<open>src/merge-file-parser.cc\<close>): its files, the metadata blocks on disk with their
    offsets, reading and merging. \<open>Kcov_Merge_Props\<close>: a block fits its allocation and merges back to
    the same lines and hits; what the second reporter is told.
  \<^item> \<open>Kcov_SystemMode\<close> (\<open>src/engines/system-mode-file-format.cc\<close>, \<open>src/system-mode/file-data.cc\<close>,
    \<open>registration.cc\<close>): the bit map, the instrumented binary with its trailer, the registration
    message. The atomic update of the bit map is the step relation \<open>shared_step\<close>, one load or one
    compare-and-swap of one process at a time. \<open>Kcov_SystemMode_Props\<close>: no report is lost or made
    up under any interleaving; the three formats are read back; two buffer overflows.
    \<open>Kcov_SystemMode_Term\<close>: the compare-and-swap loops of all processes end.
  \<^item> \<open>Kcov_SysDaemon\<close> (\<open>src/engines/system-mode-engine.cc\<close>, \<open>system-mode-binary-lib.cc\<close>,
    \<open>src/main-system-daemon.cc\<close>): the programs around these data. \<open>Kcov_SysDaemon_Props\<close>: the hits of a
    recorded program arrive in the report. \<open>Kcov_DaemonMain\<close>: the daemon from start to end, which leaves
    no file with its process number behind, and the child of a traced process.
  \<^item> \<open>Kcov_Elf\<close>, \<open>Kcov_ElfParser\<close> (\<open>src/parsers/elf.cc\<close>, \<open>dwarf.cc\<close>, \<open>dwarf-libdwarf.cc\<close>, \<open>elf-parser.cc\<close>,
    \<open>dummy-disassembler.cc\<close>, \<open>src/capabilities.cc\<close>): sections, identifiers, debug information and the
    lines of a file. The locale \<open>address_verifier\<close> is what the parser expects of a disassembler,
    interpreted on both of them. \<open>Kcov_Elf_Props\<close>: which lines are reported, at which address;
    \<open>Kcov_Elf_Crc\<close>: the table-driven CRC of the debug link is the bitwise one.
  \<^item> \<open>Kcov_Disasm\<close> (\<open>src/parsers/bfd-disassembler.cc\<close>): sections, instructions and basic blocks.
    \<open>Kcov_Disasm_Props\<close>: the lines reported with address verification; \<open>Kcov_Disasm_Blocks\<close>: the blocks
    are those between the leaders, for the branch targets the code computes.
  \<^item> \<open>Kcov_Phdr\<close>, \<open>Kcov_Solib\<close> (\<open>src/solib-parser/\<close>, \<open>src/solib-handler.cc\<close>): the program headers of the
    libraries of a traced process, from the preloaded library through the pipe to the parser.
    \<open>Kcov_Solib_Props\<close>: a table arrives as it was sent; the lines of a library are reported at its
    load address. \<open>Kcov_SolibThread\<close>: the thread that reads the pipe and the main thread, in any order.
  \<^item> \<open>Kcov_Kernel\<close> (\<open>src/engines/kernel-engine.cc\<close>, \<open>src/kernel/kprobe-coverage.c\<close>): coverage of the Linux
    kernel. \<open>Kcov_Kernel_Props\<close>: where the entries of the module are under every interleaving of its critical
    sections, and how a run can use memory it must not use (a state \<open>None\<close>); a breakpoint comes back as its event. \<open>Kcov_KernelInit\<close>: loading the module is all or nothing, removing it gives
    everything back; what a read of the show file takes.
  \<^item> \<open>Kcov_Mach\<close>, \<open>Kcov_Macho\<close> (\<open>src/engines/mach-engine.cc\<close>, \<open>src/parsers/macho-parser.cc\<close>): macOS.
    \<open>Kcov_Mach_Props\<close>: what every byte of the text is, for addresses below 4 GB, and that the patches of
    higher addresses are undefined; \<open>Kcov_Macho_Props\<close>: which files are Go programs.
  \<^item> \<open>Kcov_MachExc\<close> (\<open>src/engines/osx/mach_excServer.c\<close>): the exception messages of the kernel, as bytes in
    the two buffers of the engine. \<open>Kcov_MachExc_Props\<close>: no access is outside of the buffers, whatever
    a message claims, and an exception reaches its handler in the engine.
  \<^item> \<open>Kcov_Script\<close>, \<open>Kcov_Bash\<close>, \<open>Kcov_Python\<close> (\<open>src/engines/script-engine-base.hh\<close>, \<open>bash-engine.cc\<close>,
    \<open>python-engine.cc\<close>, \<open>python-helper.py\<close>): which lines are code, and the events of a trace. The
    theories \<open>_Props\<close>: regions that are no code, the events of a trace line, the records of the
    helper through the pipe.
  \<^item> \<open>Kcov_ScriptStart\<close> (\<open>bash-engine.cc\<close>, \<open>python-engine.cc\<close>, \<open>bash-execve-redirector.c\<close>,
    \<open>bash-tracefd-cloexec.c\<close>): how a script is started, and the two libraries preloaded into it.
    \<open>Kcov_ScriptStart_Props\<close>: the shell writes its trace to the pipe kcov reads; which programs are
    started under another name.
  \<^item> \<open>Kcov_Collector\<close> (\<open>src/collector.cc\<close>, \<open>src/parser-manager.cc\<close>, \<open>src/engine-factory.cc\<close>): the run loop
    and the choice by score. \<open>Kcov_Collector_Props\<close>: it returns exactly when the engine stops, with
    the exit status of the traced program.
  \<^item> \<open>Kcov_Config\<close> (\<open>src/configuration.cc\<close>): keys, defaults and every option. \<open>Kcov_Config_Props\<close>: which
    keys an accepted command line defines, and what its patterns decide. \<open>Kcov_Options\<close>: the table of
    options and the way through \<open>argv\<close>; \<open>Kcov_Options_Props\<close>: a command line means what is written.
  \<^item> \<open>Kcov_Ptrace\<close> (\<open>src/engines/ptrace.cc\<close>, \<open>ptrace_linux.cc\<close>): breakpoints in the text of a traced
    process, on the 64-bit architectures (the branches for i386 and 32-bit ARM are left out).
    \<open>Kcov_Ptrace_Props\<close>: on x86-64, what every byte of the text is in every reachable state; a breakpoint is
    reported once.
  \<^item> \<open>Kcov_PtraceSys\<close> (\<open>ptrace_linux.cc\<close>, \<open>ptrace_freebsd.cc\<close>, and the start of \<open>ptrace.cc\<close>): registers, the
    files under \<open>/proc\<close>, launching and attaching. \<open>Kcov_PtraceSys_Props\<close>: the block of registers
    implements the program counter \<open>Kcov_Ptrace\<close> works with; attaching is tried on all threads.
  \<^item> \<open>Kcov_Writer\<close>, \<open>Kcov_Writers\<close>, \<open>Kcov_Html\<close> (\<open>src/writers/\<close>, \<open>src/output-handler.cc\<close>): the text of each
    report. \<open>Kcov_Writer_Props\<close>: counts agree with the reporter, the summary file is read back, the
    common path, the colours. \<open>Kcov_Coveralls\<close>: when a file is uploaded, and what counts as success.
  \<^item> \<open>Kcov_Main\<close> (\<open>src/main.cc\<close>): the writers of a run, the dispatch on the mode, the two halves of the
    system mode, and events delivered from an engine through the collector to the reporter.
    \<open>Kcov_Main_Props\<close>: a traced line is counted, across all these components.
  \<^item> \<open>Kcov_MainRun\<close> (\<open>src/main.cc\<close>): a run step by step, the merge mode, the daemon mode with its FIFO, and
    the system modes over a directory tree. \<open>Kcov_MainRun_Props\<close>: the exit status through the FIFO,
    the order of the steps, what is written where.

  \<^bold>\<open>Conventions.\<close> Integers of the program that can overflow are words of their width. Errors and
  undefined behaviour are values: \<open>None\<close>, or a constructor of the component's result type.
  Operating system and third-party functions (\<open>realpath\<close>, \<open>stat\<close>, \<open>std::hash\<close>, zlib's
  CRC, the regular expression library) are arguments of the definitions. A loop that
  may run for ever is a partial function to \<open>option\<close>, with a theorem that says when it returns: the
  loop of the collector and of the handler of a traced process, the chunks of \<open>read_file\<close>,
  \<open>read_write\<close>, and the scan for the threads of a process. Every other loop is total: structural, or with a termination proof.

  \<^bold>\<open>Not modelled.\<close> Decoding instructions (binutils), reading ELF and DWARF sections (libelf, libdw,
  libdwarf) and the answers of the operating systems are parameters of the model. Of process
  control the model has what the code makes of the results: the branches after \<open>fork\<close>, \<open>open\<close>,
  \<open>waitpid\<close> and \<open>ptrace\<close>; signal handlers and the creation of threads are steps without effect of
  their own. The 32-bit branches of the ptrace engine (i386, ARM) and of its registers are left out. A transfer by libcurl is its result; the files under \<open>data/\<close> are embedded
  as they are. The bodies of the usage texts and of the debug output are left out.
\<close>

end
